(* ===== verification/Rust_Prelude.thy ===== *)
theory Rust_Prelude
  imports Main "HOL-Library.Word" "HOL-Library.Sublist"
begin

text \<open>
  The part of the Rust language and of its standard library that the modelled crates use:
  strings, machine integers with saturating arithmetic, decimal printing and parsing.

  A Rust \<open>char\<close> is a Unicode scalar value and is modelled by its number; a \<open>str\<close> or
  \<open>String\<close> is the list of its chars. \<open>str::len\<close> counts UTF-8 bytes (\<open>byte_len\<close>), while
  \<open>chars().count()\<close> and \<open>chars().take(n)\<close> count list elements. A string literal of the
  source is written \<open>lit ''...''\<close>. A \<open>usize\<close> that only counts list elements is a \<open>nat\<close>;
  where the source adds with saturation, the bound is written out.
\<close>

section \<open>Types and collections\<close>

type_synonym rchar = nat
type_synonym rstr = "nat list"
type_synonym u8 = "8 word"
type_synonym u32 = "32 word"
type_synonym u64 = "64 word"

named_theorems str_eval \<open>definitions of the string operations, to evaluate them on literals\<close>

section \<open>Strings\<close>

definition lit :: "string \<Rightarrow> rstr" where
  "lit s = map of_char s"

text \<open>The code points of the Unicode property White\_Space, which \<open>char::is_whitespace\<close> tests.\<close>

definition is_whitespace :: "rchar \<Rightarrow> bool" where
  "is_whitespace c \<longleftrightarrow>
     (9 \<le> c \<and> c \<le> 13) \<or> c = 32 \<or> c = 133 \<or> c = 160 \<or> c = 5760 \<or>
     (8192 \<le> c \<and> c \<le> 8202) \<or> c = 8232 \<or> c = 8233 \<or> c = 8239 \<or> c = 8287 \<or> c = 12288"

definition is_ascii_digit :: "rchar \<Rightarrow> bool" where
  "is_ascii_digit c \<longleftrightarrow> 48 \<le> c \<and> c \<le> 57"

definition trim_start_matches :: "(rchar \<Rightarrow> bool) \<Rightarrow> rstr \<Rightarrow> rstr" where
  "trim_start_matches P s = dropWhile P s"

definition trim_end_matches :: "(rchar \<Rightarrow> bool) \<Rightarrow> rstr \<Rightarrow> rstr" where
  "trim_end_matches P s = rev (dropWhile P (rev s))"

definition trim_matches :: "(rchar \<Rightarrow> bool) \<Rightarrow> rstr \<Rightarrow> rstr" where
  "trim_matches P s = trim_end_matches P (trim_start_matches P s)"

definition trim_start :: "rstr \<Rightarrow> rstr" where
  "trim_start s = trim_start_matches is_whitespace s"

definition trim_end :: "rstr \<Rightarrow> rstr" where
  "trim_end s = trim_end_matches is_whitespace s"

definition trim :: "rstr \<Rightarrow> rstr" where
  "trim s = trim_matches is_whitespace s"

definition ascii_lower :: "rchar \<Rightarrow> rchar" where
  "ascii_lower c = (if 65 \<le> c \<and> c \<le> 90 then c + 32 else c)"

definition to_ascii_lowercase :: "rstr \<Rightarrow> rstr" where
  "to_ascii_lowercase s = map ascii_lower s"

definition eq_ignore_ascii_case :: "rstr \<Rightarrow> rstr \<Rightarrow> bool" where
  "eq_ignore_ascii_case s t \<longleftrightarrow> to_ascii_lowercase s = to_ascii_lowercase t"

fun strip_prefix :: "rstr \<Rightarrow> rstr \<Rightarrow> rstr option" where
  "strip_prefix s [] = Some s"
| "strip_prefix [] (p # ps) = None"
| "strip_prefix (c # s) (p # ps) = (if c = p then strip_prefix s ps else None)"

lemma strip_prefix_Some [simp]: "strip_prefix s p = Some r \<longleftrightarrow> s = p @ r"
  by (induction s p rule: strip_prefix.induct) auto

definition strip_suffix :: "rstr \<Rightarrow> rstr \<Rightarrow> rstr option" where
  "strip_suffix s p = map_option rev (strip_prefix (rev s) (rev p))"

definition starts_with :: "rstr \<Rightarrow> rstr \<Rightarrow> bool" where
  "starts_with s p \<longleftrightarrow> strip_prefix s p \<noteq> None"

definition ends_with :: "rstr \<Rightarrow> rstr \<Rightarrow> bool" where
  "ends_with s p \<longleftrightarrow> strip_suffix s p \<noteq> None"

fun str_contains :: "rstr \<Rightarrow> rstr \<Rightarrow> bool" where
  "str_contains [] p \<longleftrightarrow> p = []"
| "str_contains (c # s) p \<longleftrightarrow> starts_with (c # s) p \<or> str_contains s p"

text \<open>\<open>str::split\<close> on a char: never empty, the separators removed.\<close>

fun split_on :: "rchar \<Rightarrow> rstr \<Rightarrow> rstr list" where
  "split_on d [] = [[]]"
| "split_on d (c # s) =
     (if c = d then [] # split_on d s
      else (case split_on d s of [] \<Rightarrow> [[c]] | w # ws \<Rightarrow> (c # w) # ws))"

text \<open>\<open>str::split\<close> on a class of chars, and \<open>str::split_whitespace\<close>.\<close>

fun split_matches :: "(rchar \<Rightarrow> bool) \<Rightarrow> rstr \<Rightarrow> rstr list" where
  "split_matches P [] = [[]]"
| "split_matches P (c # s) =
     (if P c then [] # split_matches P s
      else (case split_matches P s of [] \<Rightarrow> [[c]] | w # ws \<Rightarrow> (c # w) # ws))"

definition split_whitespace :: "rstr \<Rightarrow> rstr list" where
  "split_whitespace s = filter (\<lambda>w. w \<noteq> []) (split_matches is_whitespace s)"

definition split_once :: "rchar \<Rightarrow> rstr \<Rightarrow> (rstr \<times> rstr) option" where
  "split_once d s =
     (case dropWhile (\<lambda>c. c \<noteq> d) s of
        [] \<Rightarrow> None
      | _ # rest \<Rightarrow> Some (takeWhile (\<lambda>c. c \<noteq> d) s, rest))"

text \<open>\<open>str::split_inclusive\<close> on a char: the separators stay at the end of their pieces.\<close>

fun split_inclusive :: "rchar \<Rightarrow> rstr \<Rightarrow> rstr list" where
  "split_inclusive d [] = []"
| "split_inclusive d (c # s) =
     (if c = d then [c] # split_inclusive d s
      else (case split_inclusive d s of [] \<Rightarrow> [[c]] | w # ws \<Rightarrow> (c # w) # ws))"

definition strip_cr :: "rstr \<Rightarrow> rstr" where
  "strip_cr s = (if s \<noteq> [] \<and> last s = 13 then butlast s else s)"

text \<open>
  \<open>str::lines\<close>: a line ends at a line feed, which is removed together with one carriage
  return before it; the text after the last line feed is a line only when it is not empty,
  and keeps its carriage return.
\<close>

definition str_lines :: "rstr \<Rightarrow> rstr list" where
  "str_lines s =
     (let segs = split_on 10 s
      in map strip_cr (butlast segs) @ (if last segs = [] then [] else [last segs]))"

fun join :: "rstr \<Rightarrow> rstr list \<Rightarrow> rstr" where
  "join sep [] = []"
| "join sep [w] = w"
| "join sep (w # v # ws) = w @ sep @ join sep (v # ws)"

text \<open>\<open>str::replace\<close>: the leftmost non-overlapping occurrences; the source never replaces
  the empty pattern.\<close>

function str_replace :: "rstr \<Rightarrow> rstr \<Rightarrow> rstr \<Rightarrow> rstr" where
  "str_replace p r s =
     (if p = [] then s
      else (case s of
          [] \<Rightarrow> []
        | c # s' \<Rightarrow>
            (case strip_prefix s p of
               Some rest \<Rightarrow> r @ str_replace p r rest
             | None \<Rightarrow> c # str_replace p r s')))"
  by pat_completeness auto
termination
proof (relation "measure (\<lambda>(p, r, s). length s)", goal_cases)
  case 1
  then show ?case by simp
next
  case 2
  then show ?case by simp
next
  case (3 p r s c s' rest)
  then show ?case by (cases p) (auto split: if_splits)
qed

declare str_replace.simps [simp del]

definition utf8_len :: "rchar \<Rightarrow> nat" where
  "utf8_len c = (if c < 128 then 1 else if c < 2048 then 2 else if c < 65536 then 3 else 4)"

definition byte_len :: "rstr \<Rightarrow> nat" where
  "byte_len s = sum_list (map utf8_len s)"

section \<open>Integers\<close>

definition usize_max :: nat where
  "usize_max = 18446744073709551615"

definition usize_saturating_add :: "nat \<Rightarrow> nat \<Rightarrow> nat" where
  "usize_saturating_add a b = min (a + b) usize_max"

definition saturating_add :: "'a::len word \<Rightarrow> 'a word \<Rightarrow> 'a word" where
  "saturating_add a b = (if a \<le> a + b then a + b else - 1)"

definition saturating_sub :: "'a::len word \<Rightarrow> 'a word \<Rightarrow> 'a word" where
  "saturating_sub a b = (if b \<le> a then a - b else 0)"

text \<open>Decimal printing as \<open>format!("{n}")\<close> does it, most significant digit first.\<close>

fun show_nat :: "nat \<Rightarrow> rstr" where
  "show_nat n = (if n < 10 then [48 + n] else show_nat (n div 10) @ [48 + n mod 10])"

declare show_nat.simps [simp del]

text \<open>
  \<open>str::parse::<u64>\<close>: an optional plus sign, then at least one ASCII digit, and no overflow.
\<close>

fun digits_value :: "nat \<Rightarrow> rstr \<Rightarrow> nat option" where
  "digits_value acc [] = Some acc"
| "digits_value acc (c # s) =
     (if is_ascii_digit c \<and> acc * 10 + (c - 48) < 2 ^ 64
      then digits_value (acc * 10 + (c - 48)) s else None)"

definition parse_u64 :: "rstr \<Rightarrow> nat option" where
  "parse_u64 s =
     (let d = (case s of [] \<Rightarrow> [] | c # rest \<Rightarrow> if c = 43 then rest else s)
      in if d = [] then None else digits_value 0 d)"

section \<open>Results\<close>

text \<open>The \<open>?\<close> operator of Rust on \<open>Result\<close>: an error leaves the function at once.\<close>

fun and_then :: "'e + 'a \<Rightarrow> ('a \<Rightarrow> 'e + 'b) \<Rightarrow> 'e + 'b" where
  "and_then (Inl e) f = Inl e"
| "and_then (Inr a) f = f a"

lemma and_then_Inr [simp]: "and_then r f = Inr b \<longleftrightarrow> (\<exists>a. r = Inr a \<and> f a = Inr b)"
  by (cases r) auto

lemma and_then_Inl: "and_then r f = Inl e \<longleftrightarrow> r = Inl e \<or> (\<exists>a. r = Inr a \<and> f a = Inl e)"
  by (cases r) auto

text \<open>The index of the first element that satisfies a test (\<open>Iterator::position\<close>).\<close>

fun position :: "('a \<Rightarrow> bool) \<Rightarrow> 'a list \<Rightarrow> nat option" where
  "position P [] = None"
| "position P (x # xs) = (if P x then Some 0 else map_option Suc (position P xs))"

definition or_else :: "'a option \<Rightarrow> 'a option \<Rightarrow> 'a option" where
  "or_else a b = (case a of None \<Rightarrow> b | Some _ \<Rightarrow> a)"

section \<open>Prefixes, suffixes and substrings\<close>

lemma strip_prefix_None: "strip_prefix s p = None \<longleftrightarrow> \<not> (\<exists>r. s = p @ r)"
  using strip_prefix_Some by (metis not_Some_eq)

lemma strip_prefix_append [simp]: "strip_prefix (p @ r) p = Some r"
  by simp

lemma strip_suffix_Some [simp]: "strip_suffix s p = Some r \<longleftrightarrow> s = r @ p"
proof -
  have "strip_suffix s p = Some r \<longleftrightarrow> strip_prefix (rev s) (rev p) = Some (rev r)"
    by (cases "strip_prefix (rev s) (rev p)") (auto simp: strip_suffix_def)
  also have "\<dots> \<longleftrightarrow> rev s = rev (r @ p)"
    by simp
  finally show ?thesis
    by (simp only: rev_is_rev_conv)
qed

lemma strip_suffix_None: "strip_suffix s p = None \<longleftrightarrow> \<not> (\<exists>r. s = r @ p)"
  using strip_suffix_Some by (metis not_Some_eq)

lemma starts_with_iff: "starts_with s p \<longleftrightarrow> (\<exists>r. s = p @ r)"
  by (simp add: starts_with_def strip_prefix_None)

lemma starts_with_append [simp]: "starts_with (p @ r) p"
  by (simp add: starts_with_def)

lemma ends_with_iff: "ends_with s p \<longleftrightarrow> (\<exists>r. s = r @ p)"
  by (simp add: ends_with_def strip_suffix_None)

lemma str_contains_iff: "str_contains s p \<longleftrightarrow> sublist p s"
proof (induction s)
  case Nil
  then show ?case by simp
next
  case (Cons c s)
  have "starts_with (c # s) p \<longleftrightarrow> prefix p (c # s)"
    by (auto simp: starts_with_iff prefix_def)
  then show ?case
    using Cons.IH by (simp add: sublist_Cons_right)
qed

lemma str_contains_mono: "str_contains s p \<Longrightarrow> str_contains (a @ s @ b) p"
  unfolding str_contains_iff by (meson sublist_appendI sublist_order.order_trans)

lemma str_contains_self [simp]: "str_contains s s"
  by (simp add: str_contains_iff)

section \<open>Trimming\<close>

lemma trim_start_matches_split: "\<exists>a. s = a @ trim_start_matches P s \<and> list_all P a"
  unfolding trim_start_matches_def
  by (metis list_all_iff set_takeWhileD takeWhile_dropWhile_id)

lemma trim_end_matches_split: "\<exists>b. s = trim_end_matches P s @ b \<and> list_all P b"
proof -
  obtain a where "rev s = a @ dropWhile P (rev s)" "list_all P a"
    using trim_start_matches_split [of "rev s" P] by (auto simp: trim_start_matches_def)
  then have "s = trim_end_matches P s @ rev a" "list_all P (rev a)"
    by (auto simp: trim_end_matches_def list_all_iff) (metis rev_append rev_rev_ident)
  then show ?thesis by blast
qed

lemma trim_matches_split:
  "\<exists>a b. s = a @ trim_matches P s @ b \<and> list_all P a \<and> list_all P b"
  unfolding trim_matches_def
  using trim_start_matches_split [of s P] trim_end_matches_split [of "trim_start_matches P s" P]
  by metis

lemma trim_split: "\<exists>a b. s = a @ trim s @ b \<and> list_all is_whitespace a \<and> list_all is_whitespace b"
  unfolding trim_def by (rule trim_matches_split)

lemma trim_end_split: "\<exists>b. s = trim_end s @ b \<and> list_all is_whitespace b"
  unfolding trim_end_def by (rule trim_end_matches_split)

lemma trim_matches_Nil_iff: "trim_matches P s = [] \<longleftrightarrow> list_all P s"
proof
  assume "trim_matches P s = []"
  then show "list_all P s"
    using trim_matches_split [of s P] by (auto simp: list_all_iff)
next
  assume "list_all P s"
  then show "trim_matches P s = []"
    by (auto simp: trim_matches_def trim_end_matches_def trim_start_matches_def list_all_iff
        dest: set_dropWhileD)
qed

lemma trim_eq_Nil_iff: "trim s = [] \<longleftrightarrow> list_all is_whitespace s"
  unfolding trim_def by (rule trim_matches_Nil_iff)

lemma trim_Nil [simp]: "trim [] = []"
  by (simp add: trim_eq_Nil_iff)

text \<open>A text whose first and last chars are kept is kept whole.\<close>

lemma trim_matches_id:
  assumes "s = [] \<or> (\<not> P (hd s) \<and> \<not> P (last s))"
  shows "trim_matches P s = s"
proof -
  from assms have "dropWhile P s = s" and "dropWhile P (rev s) = rev s"
    by (auto simp: dropWhile_eq_self_iff hd_rev)
  then show ?thesis
    by (simp add: trim_matches_def trim_end_matches_def trim_start_matches_def)
qed

lemma trim_matches_ends:
  assumes "trim_matches P s \<noteq> []"
  shows "\<not> P (hd (trim_matches P s))" and "\<not> P (last (trim_matches P s))"
proof -
  let ?t = "trim_start_matches P s"
  have t: "?t \<noteq> []"
    using assms by (auto simp: trim_matches_def trim_end_matches_def)
  then have hd_t: "\<not> P (hd ?t)"
    by (auto simp: trim_start_matches_def hd_dropWhile)
  obtain b where b: "?t = trim_end_matches P ?t @ b"
    using trim_end_matches_split by blast
  have "hd (trim_matches P s) = hd ?t"
    using assms b by (metis hd_append2 trim_matches_def)
  with hd_t show "\<not> P (hd (trim_matches P s))" by simp
  have "dropWhile P (rev ?t) \<noteq> []"
    using assms by (auto simp: trim_matches_def trim_end_matches_def)
  then show "\<not> P (last (trim_matches P s))"
    by (simp add: trim_matches_def trim_end_matches_def last_rev hd_dropWhile)
qed

lemma trim_matches_idem [simp]: "trim_matches P (trim_matches P s) = trim_matches P s"
  by (rule trim_matches_id) (use trim_matches_ends in blast)

lemma trim_idem [simp]: "trim (trim s) = trim s"
  by (simp add: trim_def)

lemma trim_id: "s = [] \<or> (\<not> is_whitespace (hd s) \<and> \<not> is_whitespace (last s)) \<Longrightarrow> trim s = s"
  unfolding trim_def by (rule trim_matches_id)

section \<open>Lower case\<close>

lemma ascii_lower_idem [simp]: "ascii_lower (ascii_lower c) = ascii_lower c"
  by (simp add: ascii_lower_def)

lemma to_ascii_lowercase_idem [simp]:
  "to_ascii_lowercase (to_ascii_lowercase s) = to_ascii_lowercase s"
  by (simp add: to_ascii_lowercase_def)

lemma to_ascii_lowercase_append [simp]:
  "to_ascii_lowercase (s @ t) = to_ascii_lowercase s @ to_ascii_lowercase t"
  by (simp add: to_ascii_lowercase_def)

lemma to_ascii_lowercase_Nil [simp]: "to_ascii_lowercase [] = []"
  by (simp add: to_ascii_lowercase_def)

lemma to_ascii_lowercase_Nil_iff [simp]: "to_ascii_lowercase s = [] \<longleftrightarrow> s = []"
  by (simp add: to_ascii_lowercase_def)

lemma eq_ignore_ascii_case_refl [simp]: "eq_ignore_ascii_case s s"
  by (simp add: eq_ignore_ascii_case_def)

section \<open>Splitting and joining\<close>

lemma split_on_not_Nil [simp]: "split_on d s \<noteq> []"
  by (cases s) (auto split: list.splits)

lemma split_on_plain: "d \<notin> set w \<Longrightarrow> split_on d w = [w]"
  by (induction w) auto

lemma split_on_sep: "d \<notin> set w \<Longrightarrow> split_on d (w @ d # s) = w # split_on d s"
  by (induction w) auto

lemma join_split_on: "join [d] (split_on d s) = s"
proof (induction s)
  case Nil
  then show ?case by simp
next
  case (Cons c s)
  obtain w ws where "split_on d s = w # ws"
    by (meson neq_Nil_conv split_on_not_Nil)
  with Cons.IH show ?case
    by (cases ws) auto
qed

lemma split_on_elems: "w \<in> set (split_on d s) \<Longrightarrow> d \<notin> set w"
  by (induction s arbitrary: w) (auto split: if_splits list.splits)

lemma split_on_join:
  "ws \<noteq> [] \<Longrightarrow> (\<And>w. w \<in> set ws \<Longrightarrow> d \<notin> set w) \<Longrightarrow> split_on d (join [d] ws) = ws"
  by (induction "[d]" ws rule: join.induct) (auto simp: split_on_plain split_on_sep)

lemma join_Cons_prefix: "\<exists>ls. join sep (w # ws) = w @ ls"
  by (cases ws) auto

lemma join_snoc: "ws \<noteq> [] \<Longrightarrow> join sep (ws @ [w]) = join sep ws @ sep @ w"
  by (induction sep ws rule: join.induct) auto

lemma strip_cr_id [simp]: "s = [] \<or> last s \<noteq> 13 \<Longrightarrow> strip_cr s = s"
  by (auto simp: strip_cr_def)

text \<open>Joining lines with line feeds and splitting again gives the lines back.\<close>

lemma str_lines_join:
  assumes "ws \<noteq> []" and "last ws \<noteq> []"
    and "\<And>w. w \<in> set ws \<Longrightarrow> 10 \<notin> set w"
    and "\<And>w. w \<in> set ws \<Longrightarrow> w = [] \<or> last w \<noteq> 13"
  shows "str_lines (join [10] ws) = ws"
proof -
  have "map strip_cr (butlast ws) = butlast ws"
    by (rule map_idI) (use assms(4) in_set_butlastD strip_cr_id in metis)
  then show ?thesis
    using assms split_on_join [of ws 10] by (simp add: str_lines_def)
qed

section \<open>Saturating arithmetic and decimals\<close>

lemma unat_u64_less: "unat (v :: u64) < 2 ^ 64"
proof -
  have "unat v < 2 ^ LENGTH(64)" by (rule unsigned_less)
  then show ?thesis by simp
qed

lemma unat_saturating_add:
  fixes a b :: "'a::len word"
  shows "unat (saturating_add a b) = min (unat a + unat b) (2 ^ LENGTH('a) - 1)"
proof (cases "unat a + unat b < 2 ^ LENGTH('a)")
  case True
  then have sum: "unat (a + b) = unat a + unat b"
    by (simp add: unat_word_ariths)
  then have "a \<le> a + b"
    by (simp add: word_le_nat_alt)
  with True sum show ?thesis
    by (simp add: saturating_add_def)
next
  case False
  have bounds: "unat b < 2 ^ LENGTH('a)" "unat a < 2 ^ LENGTH('a)" by simp_all
  with False have "unat a + unat b - 2 ^ LENGTH('a) < 2 ^ LENGTH('a)"
    by linarith
  with False have "unat (a + b) = unat a + unat b - 2 ^ LENGTH('a)"
    by (simp add: unat_word_ariths le_mod_geq)
  with False bounds have "\<not> a \<le> a + b"
    unfolding word_le_nat_alt by linarith
  with False show ?thesis
    by (simp add: saturating_add_def unsigned_minus_1_eq_mask mask_eq_exp_minus_1)
qed

lemma usize_saturating_add_le [simp]: "usize_saturating_add a b \<le> usize_max"
  by (simp add: usize_saturating_add_def)

lemma usize_saturating_add_pos: "0 < b \<Longrightarrow> 0 < usize_saturating_add a b"
  by (simp add: usize_saturating_add_def usize_max_def)

lemma usize_saturating_add_mono: "a \<le> usize_max \<Longrightarrow> a \<le> usize_saturating_add a b"
  by (simp add: usize_saturating_add_def)

lemma show_nat_not_Nil [simp]: "show_nat n \<noteq> []"
  by (subst show_nat.simps) simp

lemma show_nat_digits: "c \<in> set (show_nat n) \<Longrightarrow> is_ascii_digit c"
proof (induction n rule: show_nat.induct)
  case (1 n)
  show ?case
  proof (cases "n < 10")
    case True
    with "1.prems" show ?thesis
      by (auto simp: show_nat.simps [of n] is_ascii_digit_def)
  next
    case False
    with "1.prems" "1.IH" show ?thesis
      by (auto simp: show_nat.simps [of n] is_ascii_digit_def)
  qed
qed

lemma digits_value_append:
  "digits_value acc (s @ t) = Option.bind (digits_value acc s) (\<lambda>v. digits_value v t)"
  by (induction s arbitrary: acc) auto

lemma digits_value_show_nat: "n < 2 ^ 64 \<Longrightarrow> digits_value 0 (show_nat n) = Some n"
proof (induction n rule: show_nat.induct)
  case (1 n)
  show ?case
  proof (cases "n < 10")
    case True
    then show ?thesis
      by (simp add: show_nat.simps [of n] is_ascii_digit_def)
  next
    case False
    with "1.IH" "1.prems" have "digits_value 0 (show_nat (n div 10)) = Some (n div 10)"
      by simp
    with False "1.prems" show ?thesis
      by (simp add: show_nat.simps [of n] digits_value_append is_ascii_digit_def)
  qed
qed

lemma parse_u64_show_nat: "n < 2 ^ 64 \<Longrightarrow> parse_u64 (show_nat n) = Some n"
proof -
  assume n: "n < 2 ^ 64"
  obtain c s where cs: "show_nat n = c # s"
    by (meson neq_Nil_conv show_nat_not_Nil)
  then have "is_ascii_digit c"
    using show_nat_digits [of c n] by simp
  then show ?thesis
    using n cs digits_value_show_nat [OF n]
    by (auto simp: parse_u64_def Let_def is_ascii_digit_def)
qed

lemma position_None_iff: "position P xs = None \<longleftrightarrow> (\<forall>x\<in>set xs. \<not> P x)"
  by (induction xs) auto

lemma position_Some: "position P xs = Some i \<Longrightarrow> i < length xs \<and> P (xs ! i) \<and> (\<forall>j<i. \<not> P (xs ! j))"
proof (induction xs arbitrary: i)
  case (Cons x xs)
  then show ?case
    by (auto split: if_splits simp: less_Suc_eq_0_disj nth_Cons split: nat.splits)
qed simp

declare lit_def [str_eval] is_whitespace_def [str_eval] is_ascii_digit_def [str_eval]
  trim_start_matches_def [str_eval] trim_end_matches_def [str_eval] trim_matches_def [str_eval]
  trim_start_def [str_eval] trim_end_def [str_eval] trim_def [str_eval]
  ascii_lower_def [str_eval] to_ascii_lowercase_def [str_eval]
  eq_ignore_ascii_case_def [str_eval] strip_suffix_def [str_eval]
  ends_with_def [str_eval] str_lines_def [str_eval] strip_cr_def [str_eval]
  split_once_def [str_eval] split_whitespace_def [str_eval] show_nat.simps [str_eval] parse_u64_def [str_eval]

lemma starts_with_eval [str_eval]:
  "starts_with s [] \<longleftrightarrow> True"
  "starts_with [] (p # ps) \<longleftrightarrow> False"
  "starts_with (c # s) (p # ps) \<longleftrightarrow> c = p \<and> starts_with s ps"
  by (simp_all add: starts_with_def)

end
