(* ===== verification/Probe_Template.thy ===== *)
theory Probe_Template
  imports Rust_Prelude
begin

text \<open>
  The prompt template of the process probe, \<open>PROBE_REVIEW_PROMPT_TEMPLATE\<close> of
  \<open>code-rs/tui/src/probe_review.rs\<close>, line by line. It is kept in a theory of its own
  because nothing but \<open>build_probe_prompt\<close> reads it.
\<close>

definition PROBE_REVIEW_PROMPT_TEMPLATE :: rstr where
  \<open>PROBE_REVIEW_PROMPT_TEMPLATE = join [10]
    [lit ''Task:'',
     lit ''Conduct a calibration-focused adversarial audit of an investigation and produce a consolidated probe result as raw JSON.'',
     [],
     lit ''Objective:'',
     lit ''Evaluate whether the investigation's discovery, execution, evidence, reasoning, synthesis, and remediation planning support its conclusions. Restore confidence by identifying uncertainty, gaps, unsupported claims, and required corrective actions.'',
     [],
     lit ''Constraints:'',
     lit ''1. Do not fabricate missing evidence or infer adequacy from absence.'',
     lit ''2. Treat all conclusions, labels, severities, and diagnoses as hypotheses until supported.'',
     lit ''3. Keep claims narrow, evidence-based, and calibrated to the weakest supported link.'',
     [],
     lit ''PRINCIPLES:'',
     lit ''1. Bayesian reasoning: update confidence only when evidence reduces uncertainty or weakens alternatives.'',
     lit ''2. Falsifiability: test each major claim against what would be expected if it were false.'',
     lit ''3. Graph dependency analysis: model conclusions as chains of observations, assumptions, and inferences; confidence cannot exceed the weakest required link.'',
     [],
     lit ''Instructions:'',
     lit ''1. Create a task checklist for instruction implementation using functions.update_plan.'',
     lit ''2. Gather all explicitly supplied artifacts: task objective, dispatcher framing, transcript, tool outputs, source artifacts, final report, prior probe reports, and explicitly referenced files under {target_path}. Do not recursively scan {target_path} or inspect unrelated workspace contents.'',
     lit ''3. Identify missing inputs explicitly. Do not infer their contents.'',
     lit ''4. Audit Discovery Quality:'',
     lit ''   - Remove framing and restate the objective neutrally.'',
     lit ''   - Inventory assumptions and their search-space impact.'',
     lit ''   - Generate distinct hypotheses, including non-failure, observability, and system-interaction explanations.'',
     lit ''   - Map explored, unexplored, and excluded regions.'',
     lit ''   - Identify unknown-unknown scenarios.'',
     lit ''   - Classify exploration breadth and convergence readiness.'',
     lit ''5. Audit Investigation Quality:'',
     lit ''   - Treat dispatcher conclusions as hypotheses.'',
     lit ''   - Validate material tool executions.'',
     lit ''   - Identify coverage gaps, unexplored regions, shallow checks, and stopping issues.'',
     lit ''   - Compare expected vs. actual investigation strategy.'',
     lit ''6. Audit Evidence Quality:'',
     lit ''   - Separate observed facts, inferences, assumptions, and unknowns.'',
     lit ''   - Assess raw measurements against claimed interpretations.'',
     lit ''   - Identify supporting, contradictory, missing, and alternative evidence.'',
     lit ''   - Evaluate evidence reliability, directness, independence, reproducibility, relevance, and explanatory power.'',
     lit ''7. Audit Reasoning Quality:'',
     lit ''   - Analyze translation loss from source material to summaries and final conclusions.'',
     lit ''   - Reduce each major conclusion to observable behavior, mechanism, and required assumptions.'',
     lit ''   - Map causal chains and weakest links.'',
     lit ''   - Generate and compare alternative explanations.'',
     lit ''   - Perform counterfactual and falsification review.'',
     lit ''   - Calibrate confidence to the available support.'',
     lit ''8. Perform Final Synthesis:'',
     lit ''   - Resolve cross-domain conflicts using domain scope, direct support, and narrowness of claims.'',
     lit ''   - Apply the combined-status rule:'',
     lit ''     - If Investigation, Evidence, or Reasoning is Inadequate, overall status is Inadequate.'',
     lit ''     - Else if any is Partially Adequate, overall status is Partially Adequate.'',
     lit ''     - Else overall status is Adequate.'',
     lit ''   - Assess output-to-goal alignment.'',
     lit ''9. Produce Resolution and Remediation Planning:'',
     lit ''   - Cluster findings by root cause.'',
     lit ''   - Classify remediation as Mandatory, Recommended, Optional, or Acceptable Risk.'',
     lit ''   - Assign independent resolver types.'',
     lit ''   - Define dispatch tasks, deliverables, constraints, success criteria, expected confidence gain, and re-validation requirements.'',
     lit ''10. Return the final probe result as raw JSON using the required schema below.'',
     [],
     lit ''Edge Case & Handling:'',
     lit ''- Missing artifacts: state what is unavailable and limit claims to available material.'',
     lit ''- Failed or questionable tools: mark affected regions as potentially unexplored.'',
     lit ''- Contradictory reports: preserve conflict unless directly resolvable.'',
     lit ''- Coherent but unsupported conclusions: classify as unsupported or weakly supported.'',
     lit ''- Silence or empty output: do not treat as proof of absence.'',
     lit ''- Domain boundary conflicts: prefer the audit stage responsible for that domain.'',
     lit ''- No findings in a required subsection: write the specified "None identified..." statement.'',
     [],
     lit ''Fallback / Recovery:'',
     lit ''- If source material is incomplete, produce a limitation-aware result using only available artifacts.'',
     lit ''- If a conclusion cannot be evaluated, classify it as UNKNOWN in the relevant summary or failure details and identify required evidence.'',
     lit ''- If evidence conflicts, compare directness and reliability; preserve uncertainty if unresolved.'',
     lit ''- If remediation cannot be fully specified, define the next observable deliverable needed to proceed.'',
     lit ''- If the JSON result cannot include full detail, preserve the highest-risk findings and state the limitation explicitly.'',
     [],
     lit ''SUCCESS CRITERIA:'',
     lit ''- The result is returned as raw JSON and no other text.'',
     lit ''- All six audit domains are addressed in the summary or critical failure details.'',
     lit ''- Findings distinguish observations, inferences, assumptions, and unknowns.'',
     lit ''- Major conclusions include first-principles models, causal chains, alternatives, counterfactuals, falsification review, and confidence assessment when material.'',
     lit ''- Missing evidence and limitations are explicit.'',
     lit ''- Overall status follows the combined-status decision rule.'',
     lit ''- Remediation tasks are specific, assignable, observable, and re-validatable.'',
     [],
     lit ''Known Failure Modes:'',
     lit ''- Treating the original investigation's conclusion as already true.'',
     lit ''- Equating tool invocation with successful execution.'',
     lit ''- Overstating confidence from coherent narratives.'',
     lit ''- Ignoring alternative explanations.'',
     lit ''- Collapsing evidence quality, reasoning quality, and investigation coverage into one judgment.'',
     lit ''- Treating missing evidence as disconfirming or confirmatory.'',
     lit ''- Producing vague remediation with no observable deliverables.'',
     [],
     lit ''VALIDATION & Quality Check:'',
     lit ''1. Create a task list for validation steps using functions.update_plan.'',
     lit ''2. Verify every major claim is tagged or clearly grounded as observed, inferred, assumed, or unknown.'',
     lit ''3. Confirm no missing artifact was fabricated or silently ignored.'',
     lit ''4. Check that each audit section stays within its assigned domain.'',
     lit ''5. Validate that confidence does not exceed the weakest material support.'',
     lit ''6. Confirm cross-domain conflicts are documented and resolved or escalated.'',
     lit ''7. Ensure the final status follows the required decision rule.'',
     lit ''8. Confirm remediation tasks include resolver, objective, inputs, deliverables, constraints, success criteria, and expected confidence gain.'',
     lit ''9. Confirm each "None identified..." statement uses the required wording where applicable.'',
     lit ''10. Verify the JSON schema matches the requested output.'',
     [],
     lit ''Return only raw JSON. Do not copy wording from these instructions into output values.'',
     [],
     lit ''Required object fields:'',
     lit ''- "status": exactly one of:'',
     lit ''- "Adequate"'',
     lit ''- "PartiallyAdequate"'',
     lit ''- "Inadequate"'',
     lit ''- "RequiresFurtherDiscovery"'',
     lit ''- "profile": "{profile}"'',
     lit ''- "riskLevel": "{risk_level}"'',
     lit ''- "summary": task-specific calibration assessment sentence'',
     lit ''- "criticalFailures": list of issue objects; each object must contain "category", "claim", "problem", and "neededResolution"'',
     lit ''- "resolutionRequired": boolean'',
     lit ''- "postTurnInstruction": task-specific corrective instruction, or empty string when no resolution is required'',
     [],
     lit ''Every string value other than "status", "profile", and "riskLevel" must mention concrete facts from the reviewed package. Generic template text is invalid.'']\<close>

end
