(* ===== verification/Probe_Trigger.thy ===== *)
theory Probe_Trigger
  imports Rust_Prelude Probe_Template
begin

text \<open>
  The trigger side of ProcessProbe, \<open>code-rs/tui/src/probe_review.rs\<close>: what a turn records
  about its own process (\<open>ProbeTurnState\<close>), the cheap gate that decides from it whether the
  final answer needs a probe (\<open>detect_probe_trigger\<close>), the threshold test, and the package and
  prompt handed to the reviewing agent.
\<close>

section \<open>Data\<close>

datatype probe_profile = General | Security | Debugging

datatype probe_risk_level = Low | Medium | High

record probe_trigger =
  trig_profile :: probe_profile
  trig_risk_level :: probe_risk_level
  trig_reasons :: "rstr list"
  trig_force :: bool

record probe_turn_state =
  final_answer :: "rstr option"
  tool_calls :: nat
  failed_tool_calls :: nat
  validation_signals :: nat
  file_change_events :: nat
  agent_events :: nat
  force_requested :: bool

record probe_package =
  pkg_profile :: probe_profile
  pkg_risk_level :: probe_risk_level
  pkg_final_answer :: rstr
  pkg_trigger_reasons :: "rstr list"
  pkg_tool_calls :: nat
  pkg_failed_tool_calls :: nat
  pkg_validation_performed :: bool
  pkg_file_change_events :: nat
  pkg_agent_events :: nat

definition profile_as_str :: "probe_profile \<Rightarrow> rstr" where
  "profile_as_str p =
     (case p of General \<Rightarrow> lit ''general'' | Security \<Rightarrow> lit ''security''
      | Debugging \<Rightarrow> lit ''debugging'')"

definition risk_as_str :: "probe_risk_level \<Rightarrow> rstr" where
  "risk_as_str r =
     (case r of Low \<Rightarrow> lit ''low'' | Medium \<Rightarrow> lit ''medium'' | High \<Rightarrow> lit ''high'')"

definition risk_rank :: "probe_risk_level \<Rightarrow> u8" where
  "risk_rank r = (case r of Low \<Rightarrow> 0 | Medium \<Rightarrow> 1 | High \<Rightarrow> 2)"

definition contains_any :: "rstr \<Rightarrow> rstr list \<Rightarrow> bool" where
  "contains_any text needles \<longleftrightarrow> list_ex (\<lambda>needle. str_contains text needle) needles"

section \<open>Recording a turn\<close>

definition default_turn :: probe_turn_state where
  "default_turn =
     \<lparr>final_answer = None, tool_calls = 0, failed_tool_calls = 0, validation_signals = 0,
      file_change_events = 0, agent_events = 0, force_requested = False\<rparr>"

definition reset_for_turn :: "probe_turn_state \<Rightarrow> probe_turn_state" where
  "reset_for_turn st = default_turn"

definition force_phrases :: "rstr list" where
  "force_phrases = [lit ''force probe'', lit ''probe this'', lit ''review my reasoning'']"

definition record_final_answer :: "rstr \<Rightarrow> probe_turn_state \<Rightarrow> probe_turn_state" where
  "record_final_answer message st =
     (let trimmed = trim message
      in if trimmed = [] then st
         else (let st1 = (if contains_any (to_ascii_lowercase trimmed) force_phrases
                          then st\<lparr>force_requested := True\<rparr> else st)
               in st1\<lparr>final_answer := Some trimmed\<rparr>))"

definition validation_commands :: "rstr list" where
  "validation_commands =
     [lit ''cargo test'', lit ''cargo check'', lit ''cargo clippy'', lit ''npm test'',
      lit ''pnpm test'', lit ''yarn test'', lit ''pytest'', lit ''go test'', lit ''swift test'',
      lit ''gradle test'', lit ''mvn test'', lit ''test '', lit ''check '', lit ''lint'',
      lit ''tsc'', lit ''build'']"

definition is_validation_command :: "rstr list \<Rightarrow> bool" where
  "is_validation_command command \<longleftrightarrow>
     contains_any (to_ascii_lowercase (join (lit '' '') command)) validation_commands"

definition bump_validation :: "probe_turn_state \<Rightarrow> probe_turn_state" where
  "bump_validation st = st\<lparr>validation_signals := usize_saturating_add (validation_signals st) 1\<rparr>"

definition record_exec_begin :: "rstr list \<Rightarrow> probe_turn_state \<Rightarrow> probe_turn_state" where
  "record_exec_begin command st =
     (let st1 = st\<lparr>tool_calls := usize_saturating_add (tool_calls st) 1\<rparr>
      in if is_validation_command command then bump_validation st1 else st1)"

definition record_exec_end :: "int \<Rightarrow> probe_turn_state \<Rightarrow> probe_turn_state" where
  "record_exec_end exit_code st =
     (if exit_code \<noteq> 0
      then st\<lparr>failed_tool_calls := usize_saturating_add (failed_tool_calls st) 1\<rparr> else st)"

definition is_validation_tool :: "rstr \<Rightarrow> bool" where
  "is_validation_tool tool_name \<longleftrightarrow>
     (let lower = to_ascii_lowercase tool_name
      in str_contains lower (lit ''test'') \<or> str_contains lower (lit ''lint'') \<or>
         str_contains lower (lit ''validation''))"

definition record_custom_tool_begin :: "rstr \<Rightarrow> probe_turn_state \<Rightarrow> probe_turn_state" where
  "record_custom_tool_begin tool_name st =
     (let st1 = st\<lparr>tool_calls := usize_saturating_add (tool_calls st) 1\<rparr>
      in if is_validation_tool tool_name then bump_validation st1 else st1)"

definition record_file_change :: "probe_turn_state \<Rightarrow> probe_turn_state" where
  "record_file_change st =
     st\<lparr>file_change_events := usize_saturating_add (file_change_events st) 1\<rparr>"

definition record_agent_event :: "probe_turn_state \<Rightarrow> probe_turn_state" where
  "record_agent_event st = st\<lparr>agent_events := usize_saturating_add (agent_events st) 1\<rparr>"

section \<open>The gate\<close>

definition security_terms :: "rstr list" where
  "security_terms =
     [lit ''n/a'', lit ''not exploitable'', lit ''exploitable'', lit ''critical'',
      lit ''high severity'', lit ''cvss'', lit ''report ready'', lit ''submit'',
      lit ''bounty'', lit ''impact'', lit ''scope'']"

definition security_closure_terms :: "rstr list" where
  "security_closure_terms =
     [lit ''confirmed'', lit ''refuted'', lit ''safe'', lit ''all vectors'',
      lit ''not exploitable'', lit ''report ready'', lit ''n/a'']"

definition debugging_claims :: "rstr list" where
  "debugging_claims =
     [lit ''fixed'', lit ''root cause'', lit ''verified'', lit ''complete'', lit ''resolved'']"

definition general_claims :: "rstr list" where
  "general_claims =
     [lit ''complete'', lit ''ready'', lit ''verified'', lit ''all'', lit ''comprehensive'',
      lit ''impossible'', lit ''safe'', lit ''no issue'']"

definition detect_probe_trigger :: "probe_turn_state \<Rightarrow> probe_trigger option" where
  "detect_probe_trigger st =
     (case final_answer st of
        None \<Rightarrow> None
      | Some answer \<Rightarrow>
        (let final = trim answer in
         if final = [] then None
         else
          (let lower = to_ascii_lowercase final;
               manual_force = (force_requested st \<or> contains_any lower force_phrases);
               reasons0 = (if manual_force then [lit ''manual probe request''] else [])
           in
           if contains_any lower security_terms \<and> contains_any lower security_closure_terms
           then Some \<lparr>trig_profile = Security, trig_risk_level = High,
                  trig_reasons = reasons0
                    @ [lit ''strong security conclusion needs adversarial review'']
                    @ (if validation_signals st = 0
                       then [lit ''security conclusion has no validation signal''] else []),
                  trig_force = manual_force\<rparr>
           else if 0 < failed_tool_calls st \<and> contains_any lower debugging_claims
           then Some \<lparr>trig_profile = Debugging, trig_risk_level = High,
                  trig_reasons = reasons0
                    @ [lit ''final conclusion followed failed tool calls'']
                    @ (if validation_signals st = 0
                       then [lit ''fix/root-cause claim has no validation signal''] else []),
                  trig_force = manual_force\<rparr>
           else
            (let strong_general_claim = contains_any lower general_claims;
                 has_process_risk = (0 < failed_tool_calls st \<or> 0 < agent_events st \<or>
                   0 < file_change_events st \<or> validation_signals st = 0)
             in
             if manual_force \<or> (strong_general_claim \<and> has_process_risk)
             then Some \<lparr>trig_profile = General,
                    trig_risk_level =
                      (if manual_force \<or> 0 < failed_tool_calls st then High else Medium),
                    trig_reasons = reasons0
                      @ (if strong_general_claim
                         then [lit ''strong conclusion needs process review''] else [])
                      @ (if 0 < failed_tool_calls st
                         then [lit ''failed tool calls were observed''] else [])
                      @ (if validation_signals st = 0
                         then [lit ''no validation signal was observed''] else []),
                    trig_force = manual_force\<rparr>
             else None))))"

definition parse_threshold :: "rstr \<Rightarrow> probe_risk_level" where
  "parse_threshold threshold =
     (let t = to_ascii_lowercase (trim threshold)
      in if t = lit ''low'' then Low
         else if t = lit ''medium'' then Medium
         else if t = lit ''high'' then High
         else High)"

definition risk_meets_threshold :: "probe_risk_level \<Rightarrow> rstr \<Rightarrow> bool" where
  "risk_meets_threshold level threshold \<longleftrightarrow>
     risk_rank level \<ge> risk_rank (parse_threshold threshold)"

section \<open>Package and prompt\<close>

definition build_probe_package :: "probe_turn_state \<Rightarrow> probe_trigger \<Rightarrow> probe_package" where
  "build_probe_package st trigger =
     \<lparr>pkg_profile = trig_profile trigger,
      pkg_risk_level = trig_risk_level trigger,
      pkg_final_answer = (case final_answer st of None \<Rightarrow> [] | Some a \<Rightarrow> a),
      pkg_trigger_reasons = trig_reasons trigger,
      pkg_tool_calls = tool_calls st,
      pkg_failed_tool_calls = failed_tool_calls st,
      pkg_validation_performed = (0 < validation_signals st),
      pkg_file_change_events = file_change_events st,
      pkg_agent_events = agent_events st\<rparr>"

definition prompt_head :: "probe_package \<Rightarrow> rstr \<Rightarrow> rstr" where
  "prompt_head package target_path =
     str_replace (lit ''{risk_level}'') (risk_as_str (pkg_risk_level package))
       (str_replace (lit ''{profile}'') (profile_as_str (pkg_profile package))
         (str_replace (lit ''{target_path}'') target_path PROBE_REVIEW_PROMPT_TEMPLATE))"

definition build_probe_prompt :: "probe_package \<Rightarrow> rstr \<Rightarrow> rstr" where
  "build_probe_prompt package target_path =
     prompt_head package target_path @
     join [10]
       [[], [],
        lit ''Available harness inputs:'',
        lit ''- Target path: '' @ target_path,
        lit ''- Profile: '' @ profile_as_str (pkg_profile package),
        lit ''- Risk level: '' @ risk_as_str (pkg_risk_level package),
        lit ''- Tool calls: '' @ show_nat (pkg_tool_calls package),
        lit ''- Failed tool calls: '' @ show_nat (pkg_failed_tool_calls package),
        lit ''- Validation performed: '' @
          (if pkg_validation_performed package then lit ''yes'' else lit ''no''),
        lit ''- File change events: '' @ show_nat (pkg_file_change_events package),
        lit ''- Agent/subagent events: '' @ show_nat (pkg_agent_events package),
        lit ''- Trigger reasons: '' @ join (lit ''; '') (pkg_trigger_reasons package),
        [],
        lit ''Final answer under review:'',
        lit ''```text'',
        trim (pkg_final_answer package),
        lit ''```'']"

section \<open>A turn as a sequence of recorded events\<close>

datatype probe_event =
    FinalAnswer rstr
  | ExecBegin "rstr list"
  | ExecEnd int
  | CustomToolBegin rstr
  | FileChange
  | AgentEvent

fun record_event :: "probe_event \<Rightarrow> probe_turn_state \<Rightarrow> probe_turn_state" where
  "record_event (FinalAnswer m) st = record_final_answer m st"
| "record_event (ExecBegin c) st = record_exec_begin c st"
| "record_event (ExecEnd code) st = record_exec_end code st"
| "record_event (CustomToolBegin t) st = record_custom_tool_begin t st"
| "record_event FileChange st = record_file_change st"
| "record_event AgentEvent st = record_agent_event st"

fun record_events :: "probe_event list \<Rightarrow> probe_turn_state \<Rightarrow> probe_turn_state" where
  "record_events [] st = st"
| "record_events (e # es) st = record_events es (record_event e st)"

text \<open>What the log of a turn says, independently of the counters.\<close>

fun is_tool_call :: "probe_event \<Rightarrow> bool" where
  "is_tool_call (ExecBegin c) = True"
| "is_tool_call (CustomToolBegin t) = True"
| "is_tool_call _ = False"

fun is_failure :: "probe_event \<Rightarrow> bool" where
  "is_failure (ExecEnd code) = (code \<noteq> 0)"
| "is_failure _ = False"

fun is_validation :: "probe_event \<Rightarrow> bool" where
  "is_validation (ExecBegin c) = is_validation_command c"
| "is_validation (CustomToolBegin t) = is_validation_tool t"
| "is_validation _ = False"

fun answer_of :: "probe_event \<Rightarrow> rstr option" where
  "answer_of (FinalAnswer m) = (if trim m = [] then None else Some (trim m))"
| "answer_of _ = None"

definition asks_for_probe :: "rstr \<Rightarrow> bool" where
  "asks_for_probe answer \<longleftrightarrow> contains_any (to_ascii_lowercase answer) force_phrases"

definition log_count :: "(probe_event \<Rightarrow> bool) \<Rightarrow> probe_event list \<Rightarrow> nat" where
  "log_count P es = min (length (filter P es)) usize_max"

definition turn_of_log :: "probe_event list \<Rightarrow> probe_turn_state" where
  "turn_of_log es =
     (let answers = List.map_filter answer_of es
      in \<lparr>final_answer = (if answers = [] then None else Some (last answers)),
          tool_calls = log_count is_tool_call es,
          failed_tool_calls = log_count is_failure es,
          validation_signals = log_count is_validation es,
          file_change_events = log_count (\<lambda>e. e = FileChange) es,
          agent_events = log_count (\<lambda>e. e = AgentEvent) es,
          force_requested = list_ex asks_for_probe answers\<rparr>)"

lemmas record_defs = record_final_answer_def record_exec_begin_def record_exec_end_def
  record_custom_tool_begin_def record_file_change_def record_agent_event_def
  bump_validation_def Let_def

lemma log_count_Nil [simp]: "log_count P [] = 0"
  by (simp add: log_count_def)

lemma log_count_snoc [simp]:
  "log_count P (es @ [e]) = (if P e then usize_saturating_add (log_count P es) 1 else log_count P es)"
  by (auto simp: log_count_def usize_saturating_add_def min_def)

lemma map_filter_snoc [simp]:
  "List.map_filter f (xs @ [x]) =
     List.map_filter f xs @ (case f x of None \<Rightarrow> [] | Some y \<Rightarrow> [y])"
  by (simp add: List.map_filter_def split: option.split)

lemma map_filter_Nil [simp]: "List.map_filter f [] = []"
  by (simp add: List.map_filter_def)

lemma record_events_snoc: "record_events (es @ [e]) st = record_event e (record_events es st)"
  by (induction es arbitrary: st) auto

lemma record_event_turn_of_log: "record_event e (turn_of_log es) = turn_of_log (es @ [e])"
  by (cases e) (auto simp: turn_of_log_def record_defs asks_for_probe_def)

lemma record_events_turn_of_log: "record_events es default_turn = turn_of_log es"
proof (induction es rule: rev_induct)
  case Nil
  then show ?case
    by (simp add: turn_of_log_def default_turn_def)
next
  case (snoc e es)
  then show ?case
    by (simp add: record_events_snoc record_event_turn_of_log)
qed

section \<open>What the gate decides\<close>

text \<open>The three families of conclusions that need a probe, as predicates on the lowered answer.\<close>

definition security_closure :: "rstr \<Rightarrow> bool" where
  "security_closure a \<longleftrightarrow> contains_any a security_terms \<and> contains_any a security_closure_terms"

definition process_risk :: "probe_turn_state \<Rightarrow> bool" where
  "process_risk st \<longleftrightarrow> 0 < failed_tool_calls st \<or> 0 < agent_events st \<or>
     0 < file_change_events st \<or> validation_signals st = 0"

definition manual_request :: "probe_turn_state \<Rightarrow> rstr \<Rightarrow> bool" where
  "manual_request st a \<longleftrightarrow> force_requested st \<or> contains_any a force_phrases"

lemma detect_probe_trigger_answer:
  assumes "final_answer st = Some answer" and "trim answer \<noteq> []"
    and "a = to_ascii_lowercase (trim answer)"
  shows "(\<exists>t. detect_probe_trigger st = Some t) \<longleftrightarrow>
      manual_request st a \<or> security_closure a \<or>
      (0 < failed_tool_calls st \<and> contains_any a debugging_claims) \<or>
      (contains_any a general_claims \<and> process_risk st)"
  using assms
  by (auto simp: detect_probe_trigger_def Let_def security_closure_def process_risk_def
      manual_request_def)

lemma detect_probe_trigger_blank:
  "final_answer st = None \<or> (\<exists>answer. final_answer st = Some answer \<and> trim answer = []) \<Longrightarrow>
     detect_probe_trigger st = None"
  by (auto simp: detect_probe_trigger_def Let_def)

lemma if_chain_Some:
  assumes "(if N then None else if A then Some x else if B then Some y
            else if C then Some z else None) = Some t"
  shows "A \<Longrightarrow> t = x" and "\<not> A \<Longrightarrow> B \<Longrightarrow> t = y" and "\<not> A \<Longrightarrow> \<not> B \<Longrightarrow> t = z"
  using assms by (simp_all split: if_split_asm)

lemma detect_probe_trigger_Some:
  assumes t: "detect_probe_trigger st = Some t"
  obtains answer where "final_answer st = Some answer" and "trim answer \<noteq> []"
    and "trig_force t \<longleftrightarrow> manual_request st (to_ascii_lowercase (trim answer))"
    and "trig_risk_level t = High \<or>
      trig_risk_level t = Medium \<and> trig_profile t = General \<and> \<not> trig_force t \<and>
      failed_tool_calls st = 0"
proof -
  obtain answer where answer: "final_answer st = Some answer" "trim answer \<noteq> []"
    using t detect_probe_trigger_blank by (metis not_Some_eq option.distinct(1))
  let ?a = "to_ascii_lowercase (trim answer)"
  note branch = if_chain_Some [OF t [unfolded detect_probe_trigger_def answer Let_def option.case]]
  have "(trig_force t \<longleftrightarrow> manual_request st ?a) \<and>
      (trig_risk_level t = High \<or> trig_risk_level t = Medium \<and> trig_profile t = General \<and>
        \<not> trig_force t \<and> failed_tool_calls st = 0)"
  proof (cases "contains_any ?a security_terms \<and> contains_any ?a security_closure_terms")
    case True
    show ?thesis
      by (simp add: branch(1) [OF True] manual_request_def)
  next
    case no_closure: False
    show ?thesis
    proof (cases "0 < failed_tool_calls st \<and> contains_any ?a debugging_claims")
      case True
      show ?thesis
        by (simp add: branch(2) [OF no_closure True] manual_request_def)
    next
      case False
      show ?thesis
        by (simp add: branch(3) [OF no_closure False] manual_request_def)
    qed
  qed
  with answer that show ?thesis by blast
qed

lemma risk_rank_High [simp]: "risk_rank r \<le> risk_rank High"
  by (cases r) (simp_all add: risk_rank_def)

lemma High_meets_threshold: "risk_meets_threshold High thr"
  by (simp add: risk_meets_threshold_def)

lemma contains_any_Nil: "[] \<notin> set needles \<Longrightarrow> \<not> contains_any [] needles"
  by (auto simp: contains_any_def list_ex_iff)

lemma claims_not_blank:
  "[] \<notin> set force_phrases" "[] \<notin> set debugging_claims" "[] \<notin> set general_claims"
  by (simp_all add: force_phrases_def debugging_claims_def general_claims_def lit_def)

lemma answer_of_not_blank: "answer_of e = Some a \<Longrightarrow> trim a \<noteq> []"
  by (cases e) (auto split: if_splits)

lemma turn_of_log_answer:
  assumes "FinalAnswer m \<in> set es" and "trim m \<noteq> []"
  obtains answer where "final_answer (turn_of_log es) = Some answer" and "trim answer \<noteq> []"
    and "asks_for_probe (trim m) \<Longrightarrow> force_requested (turn_of_log es)"
proof -
  let ?as = "List.map_filter answer_of es"
  have m: "trim m \<in> set ?as"
    using assms by (force simp: List.map_filter_def)
  then have ne: "?as \<noteq> []" by auto
  have "last ?as \<in> set ?as"
    using ne by simp
  then obtain e where "answer_of e = Some (last ?as)"
    by (auto simp: List.map_filter_def)
  then have "trim (last ?as) \<noteq> []"
    by (rule answer_of_not_blank)
  with ne m that [of "last ?as"] show ?thesis
    by (auto simp: turn_of_log_def Let_def list_ex_iff)
qed

section \<open>Properties\<close>

text \<open>
  (C9) Refinement: the counters, the answer and the force flag a turn ends with are those of its
  event log. Every counter is the number of log entries of its kind, saturated at the largest
  \<open>usize\<close>; the answer is the last one that is not blank; the force flag is set exactly when one of
  the answers asked for a probe.
\<close>

theorem record_events_refines_log:
  "record_events es (reset_for_turn st) = turn_of_log es"
  by (simp add: reset_for_turn_def record_events_turn_of_log)

text \<open>
  (C34) Safety: a manual request is never dropped. When any answer of the turn contains one of the
  force phrases, in any letter case, then, whatever else the turn recorded before or after it, the
  gate produces a trigger that is marked as forced and carries the highest risk or the risk of a
  security or debugging conclusion, which is the highest too.
\<close>

theorem forced_probe_never_dropped:
  assumes "FinalAnswer m \<in> set es" and "asks_for_probe (trim m)"
  shows "\<exists>t. detect_probe_trigger (record_events es (reset_for_turn st)) = Some t \<and>
      trig_force t \<and> trig_risk_level t = High"
proof -
  have "trim m \<noteq> []"
    using assms(2) contains_any_Nil [OF claims_not_blank(1)] by (auto simp: asks_for_probe_def)
  then obtain answer where answer: "final_answer (turn_of_log es) = Some answer" "trim answer \<noteq> []"
      and force: "force_requested (turn_of_log es)"
    using turn_of_log_answer [OF assms(1)] assms(2) by metis
  then obtain t where t: "detect_probe_trigger (turn_of_log es) = Some t"
    using detect_probe_trigger_answer [OF answer refl] by (auto simp: manual_request_def)
  have "trig_force t"
    using t force by (auto elim!: detect_probe_trigger_Some simp: manual_request_def)
  with t have "trig_risk_level t = High"
    by (auto elim!: detect_probe_trigger_Some)
  with t \<open>trig_force t\<close> show ?thesis
    by (simp add: reset_for_turn_def record_events_turn_of_log)
qed

theorem forced_probe_never_dropped_witness:
  "\<exists>t. detect_probe_trigger
        (record_events [ExecEnd 1, FinalAnswer (lit ''Probe This''), FinalAnswer (lit ''ok'')]
          (reset_for_turn default_turn)) = Some t \<and> trig_force t \<and> trig_risk_level t = High"
  by (rule forced_probe_never_dropped [of "lit ''Probe This''"])
    (simp_all add: asks_for_probe_def contains_any_def force_phrases_def str_eval)

text \<open>
  Functional behaviour of the gate on every branch: a turn triggers a probe exactly when it
  has a final answer that is not blank and there is a manual request, a security conclusion
  stated together with a closing word, a fix claimed after a failed tool call, or a strong
  general claim backed by a risky process (failed calls, agents, file changes or no validation
  at all).
\<close>

theorem gate_fires_iff:
  "detect_probe_trigger st \<noteq> None \<longleftrightarrow>
     (\<exists>answer a. final_answer st = Some answer \<and> trim answer \<noteq> [] \<and>
        a = to_ascii_lowercase (trim answer) \<and>
        (manual_request st a \<or> security_closure a \<or>
         (0 < failed_tool_calls st \<and> contains_any a debugging_claims) \<or>
         (contains_any a general_claims \<and> process_risk st)))"
proof (cases "final_answer st")
  case None
  then show ?thesis
    by (simp add: detect_probe_trigger_blank)
next
  case (Some answer)
  show ?thesis
  proof (cases "trim answer = []")
    case True
    with Some show ?thesis
      by (simp add: detect_probe_trigger_blank)
  next
    case False
    then show ?thesis
      using Some detect_probe_trigger_answer [OF Some False refl] by (auto simp: Let_def)
  qed
qed

text \<open>
  Safety: confidence after a failure is always escalated. If a tool call failed in the turn
  and the final answer makes one of the debugging or general claims, the gate triggers, the risk
  is the highest one, and it therefore passes every configured threshold.
\<close>

theorem claim_after_failure_escalates:
  assumes "final_answer st = Some answer" and "0 < failed_tool_calls st"
    and "contains_any (to_ascii_lowercase (trim answer)) (debugging_claims @ general_claims)"
  shows "\<exists>t. detect_probe_trigger st = Some t \<and> trig_risk_level t = High \<and>
      risk_meets_threshold (trig_risk_level t) threshold"
proof -
  let ?a = "to_ascii_lowercase (trim answer)"
  have ne: "trim answer \<noteq> []"
    using assms(3) contains_any_Nil [of "debugging_claims @ general_claims"] claims_not_blank
    by (auto simp: to_ascii_lowercase_def)
  have "contains_any ?a debugging_claims \<or> contains_any ?a general_claims"
    using assms(3) by (auto simp: contains_any_def)
  then obtain t where t: "detect_probe_trigger st = Some t"
    using detect_probe_trigger_answer [OF assms(1) ne refl] assms(2)
    by (auto simp: process_risk_def)
  then have "trig_risk_level t = High"
    using assms(2) by (auto elim!: detect_probe_trigger_Some)
  with t show ?thesis
    by (simp add: High_meets_threshold)
qed

theorem claim_after_failure_escalates_witness:
  "\<exists>t. detect_probe_trigger
        (default_turn\<lparr>final_answer := Some (lit ''All DONE''), failed_tool_calls := 1\<rparr>) = Some t \<and>
      trig_risk_level t = High \<and> risk_meets_threshold (trig_risk_level t) (lit ''high'')"
  by (rule claim_after_failure_escalates [of _ "lit ''All DONE''"]) 
    (simp_all add: contains_any_def debugging_claims_def general_claims_def str_eval)

end
