(* ===== verification/Probe_Result.thy ===== *)
theory Probe_Result
  imports Probe_Trigger
begin

text \<open>
  The result side of ProcessProbe, \<open>code-rs/tui/src/probe_review.rs\<close>: recovering the first
  complete JSON object from the raw output of the reviewing agent, parsing and validating it,
  and the texts derived from a result. The JSON deserialiser (\<open>serde_json::from_str\<close>) is
  third-party code and is the parameter \<open>from_str\<close>: it maps a text to a result or to an error
  with a line, a column and a display text.
\<close>

section \<open>Data\<close>

record probe_critical_failure =
  category :: rstr
  claim :: rstr
  problem :: rstr
  needed_resolution :: rstr

record probe_review_result =
  res_status :: rstr
  res_profile :: rstr
  res_risk_level :: rstr
  res_summary :: rstr
  res_critical_failures :: "probe_critical_failure list"
  res_resolution_required :: bool
  res_post_turn_instruction :: "rstr option"

text \<open>What the parser's error offers: \<open>line()\<close>, \<open>column()\<close> and \<open>to_string()\<close>.\<close>

record json_error =
  je_line :: nat
  je_column :: nat
  je_display :: rstr

type_synonym json_parser = "rstr \<Rightarrow> json_error + probe_review_result"

section \<open>The first JSON object of a text\<close>

text \<open>The loop variables \<open>depth\<close>, \<open>in_string\<close> and \<open>escaped\<close>.\<close>

type_synonym json_state = "nat \<times> bool \<times> bool"

fun json_step :: "json_state \<Rightarrow> rchar \<Rightarrow> json_state" where
  "json_step (depth, in_string, escaped) ch =
     (if in_string then
        (if escaped then (depth, in_string, False)
         else if ch = 92 then (depth, in_string, True)
         else if ch = 34 then (depth, False, escaped)
         else (depth, in_string, escaped))
      else if ch = 34 then (depth, True, escaped)
      else if ch = 123 then (usize_saturating_add depth 1, in_string, escaped)
      else if ch = 125 then (depth - 1, in_string, escaped)
      else (depth, in_string, escaped))"

text \<open>The loop returns at a closing brace outside strings that brings the depth to zero.\<close>

fun json_closes :: "json_state \<Rightarrow> rchar \<Rightarrow> bool" where
  "json_closes (depth, in_string, escaped) ch \<longleftrightarrow> \<not> in_string \<and> ch = 125 \<and> depth - 1 = 0"

fun scan_object :: "json_state \<Rightarrow> rstr \<Rightarrow> nat option" where
  "scan_object st [] = None"
| "scan_object st (ch # rest) =
     (if json_closes st ch then Some 1
      else map_option Suc (scan_object (json_step st ch) rest))"

definition extract_first_json_object :: "rstr \<Rightarrow> rstr + rstr" where
  "extract_first_json_object text =
     (case dropWhile (\<lambda>c. c \<noteq> 123) text of
        [] \<Rightarrow> Inl (lit ''no JSON object found'')
      | c # cs \<Rightarrow>
          (case scan_object (0, False, False) (c # cs) of
             Some n \<Rightarrow> Inr (take n (c # cs))
           | None \<Rightarrow> Inl (lit ''unterminated JSON object starting at byte '' @
                        show_nat (byte_len (takeWhile (\<lambda>c. c \<noteq> 123) text)))))"

section \<open>Error context\<close>

fun line_start_offset :: "nat \<Rightarrow> nat \<Rightarrow> rstr list \<Rightarrow> nat \<Rightarrow> nat option" where
  "line_start_offset line_start idx [] line = None"
| "line_start_offset line_start idx (current # rest) line =
     (if idx + 1 = line then Some line_start
      else line_start_offset (usize_saturating_add line_start (byte_len current)) (idx + 1) rest line)"

definition byte_offset_for_line_column :: "rstr \<Rightarrow> nat \<Rightarrow> nat \<Rightarrow> nat option" where
  "byte_offset_for_line_column text line column =
     (case line_start_offset 0 0 (split_inclusive 10 text) line of
        Some line_start \<Rightarrow> Some (min (line_start + (column - 1)) (byte_len text))
      | None \<Rightarrow>
          (if line = usize_saturating_add (length (str_lines text)) 1
           then Some (byte_len text) else None))"

fun char_indices_from :: "nat \<Rightarrow> rstr \<Rightarrow> (nat \<times> rchar) list" where
  "char_indices_from i [] = []"
| "char_indices_from i (c # s) = (i, c) # char_indices_from (i + utf8_len c) s"

definition preview_around :: "rstr \<Rightarrow> nat \<Rightarrow> rstr" where
  "preview_around text byte_offset =
     (let chars = char_indices_from 0 text
      in if chars = [] then lit ''<empty>''
         else
          (let before = length (takeWhile (\<lambda>(idx, _). \<not> idx \<ge> byte_offset) chars);
               center = (if before < length chars then before else length chars - 1);
               start = center - 40;
               finish = min (center + 40) (length chars);
               body = map snd (take (finish - start) (drop start chars));
               escaped = str_replace [13] [92, 114] (str_replace [10] [92, 110] body)
           in (if 0 < start then lit ''...'' else []) @ escaped @
              (if finish < length chars then lit ''...'' else [])))"

definition parse_error_with_context :: "json_error \<Rightarrow> rstr \<Rightarrow> rstr" where
  "parse_error_with_context err text =
     (let offset = (case byte_offset_for_line_column text (je_line err) (je_column err) of
                      Some n \<Rightarrow> n | None \<Rightarrow> 0)
      in je_display err @ lit ''; raw output near line '' @ show_nat (je_line err) @
         lit '' column '' @ show_nat (je_column err) @ lit '': '' @ preview_around text offset)"

section \<open>Validation\<close>

definition PROBE_RESULT_PLACEHOLDERS :: "rstr list" where
  \<open>PROBE_RESULT_PLACEHOLDERS =
     [lit ''short result'',
      lit ''claim being challenged'',
      lit ''why it is unsupported or risky'',
      lit ''specific corrective action'',
      lit ''one concrete sentence about whether the conclusion is supported'',
      lit ''the specific claim being challenged'',
      lit ''the concrete evidence gap or reasoning risk'',
      lit ''the concrete corrective action'',
      lit ''developer instruction to resolve or downgrade the conclusion'',
      lit ''task-specific assessment sentence'',
      lit ''task-specific corrective instruction'',
      lit ''task-specific corrective instruction, or empty string when no resolution is required'',
      lit ''list of issue objects; each object must contain "category", "claim", "problem", and "neededresolution"'']\<close>

text \<open>The quotation marks, plain and typographic, and the punctuation stripped at both ends.\<close>

definition is_placeholder_edge :: "rchar \<Rightarrow> bool" where
  "is_placeholder_edge ch \<longleftrightarrow>
     ch \<in> set [34, 39, 96, 46, 58, 59, 44, 8220, 8221, 8216, 8217]"

definition normalize_probe_placeholder :: "rstr \<Rightarrow> rstr" where
  "normalize_probe_placeholder value =
     to_ascii_lowercase (trim (trim_matches is_placeholder_edge (trim value)))"

definition is_probe_placeholder :: "rstr \<Rightarrow> rstr list \<Rightarrow> bool" where
  "is_probe_placeholder value placeholders \<longleftrightarrow>
     124 \<in> set value \<or>
     list_ex (\<lambda>ph. normalize_probe_placeholder value = normalize_probe_placeholder ph) placeholders"

definition reject_placeholder_text :: "rstr \<Rightarrow> rstr \<Rightarrow> rstr list \<Rightarrow> rstr + unit" where
  "reject_placeholder_text field value placeholders =
     (let normalized = normalize_probe_placeholder value
      in if normalized = [] then Inr ()
         else if is_probe_placeholder value placeholders
         then Inl (field @ lit '' is still a probe review placeholder'')
         else Inr ())"

definition valid_statuses :: "rstr list" where
  "valid_statuses =
     [lit ''Adequate'', lit ''PartiallyAdequate'', lit ''Inadequate'',
      lit ''RequiresFurtherDiscovery'']"

definition failure_field :: "nat \<Rightarrow> string \<Rightarrow> rstr" where
  "failure_field item name =
     lit ''probe review critical failure '' @ show_nat item @ lit '' '' @ lit name"

definition validate_failure :: "nat \<Rightarrow> probe_critical_failure \<Rightarrow> rstr + unit" where
  "validate_failure item failure =
     and_then (reject_placeholder_text (failure_field item ''category'')
       (trim (category failure)) PROBE_RESULT_PLACEHOLDERS) (\<lambda>_.
     and_then (reject_placeholder_text (failure_field item ''claim'')
       (trim (claim failure)) PROBE_RESULT_PLACEHOLDERS) (\<lambda>_.
     and_then (reject_placeholder_text (failure_field item ''problem'')
       (trim (problem failure)) PROBE_RESULT_PLACEHOLDERS) (\<lambda>_.
     reject_placeholder_text (failure_field item ''neededResolution'')
       (trim (needed_resolution failure)) PROBE_RESULT_PLACEHOLDERS)))"

fun validate_failures :: "nat \<Rightarrow> probe_critical_failure list \<Rightarrow> rstr + unit" where
  "validate_failures idx [] = Inr ()"
| "validate_failures idx (f # fs) =
     and_then (validate_failure (idx + 1) f) (\<lambda>_. validate_failures (idx + 1) fs)"

definition validate_probe_review_result :: "probe_review_result \<Rightarrow> rstr + probe_review_result" where
  "validate_probe_review_result result =
     (let status = trim (res_status result)
      in if status \<notin> set valid_statuses
         then Inl (lit ''invalid probe review status '' @ [39] @ status @ [39] @
                lit ''; expected one of: Adequate, PartiallyAdequate, Inadequate, RequiresFurtherDiscovery'')
         else
          and_then (reject_placeholder_text (lit ''probe review summary'')
            (trim (res_summary result)) PROBE_RESULT_PLACEHOLDERS) (\<lambda>_.
          and_then (case res_post_turn_instruction result of
              None \<Rightarrow> Inr ()
            | Some instruction \<Rightarrow>
                reject_placeholder_text (lit ''probe review postTurnInstruction'')
                  (trim instruction) PROBE_RESULT_PLACEHOLDERS) (\<lambda>_.
          and_then (validate_failures 0 (res_critical_failures result)) (\<lambda>_.
          Inr result))))"

definition parse_probe_review_result :: "json_parser \<Rightarrow> rstr \<Rightarrow> rstr + probe_review_result" where
  "parse_probe_review_result from_str raw =
     (let trimmed = trim (trim_start_matches (\<lambda>c. c = 65279) raw)
      in if trimmed = [] then Inl (lit ''empty probe review result'')
         else
          (case from_str trimmed of
             Inr result \<Rightarrow> validate_probe_review_result result
           | Inl first_err \<Rightarrow>
              (let first_context = parse_error_with_context first_err trimmed
               in case extract_first_json_object trimmed of
                    Inl err \<Rightarrow> Inl (err @ lit ''; raw output preview: '' @ preview_around trimmed 0)
                  | Inr candidate \<Rightarrow>
                     (case from_str candidate of
                        Inl err \<Rightarrow>
                          Inl (if je_display err = je_display first_err
                               then parse_error_with_context err candidate
                               else parse_error_with_context err candidate @
                                    lit ''; recovered first JSON object after initial parse error: '' @
                                    first_context)
                      | Inr result \<Rightarrow> validate_probe_review_result result))))"

section \<open>Texts derived from a result\<close>

definition failure_label :: "probe_critical_failure \<Rightarrow> rstr" where
  "failure_label failure =
     (if trim (category failure) = [] then lit ''issue'' else trim (category failure))"

definition notice_failure_lines :: "probe_critical_failure \<Rightarrow> rstr list" where
  "notice_failure_lines failure =
     (let prob = trim (problem failure); needed = trim (needed_resolution failure);
          label = failure_label failure
      in (if prob \<noteq> [] then [lit ''- '' @ label @ lit '': '' @ prob]
          else if trim (claim failure) \<noteq> []
          then [lit ''- '' @ label @ lit '': '' @ trim (claim failure)] else []) @
         (if needed \<noteq> [] then [lit ''  Next: '' @ needed] else []))"

definition probe_notice_lines :: "probe_review_result \<Rightarrow> rstr list" where
  "probe_notice_lines result =
     (let head = (if res_resolution_required result
                  then lit ''Probe Review: resolution required''
                  else lit ''Probe Review: no required resolution'');
          failures = res_critical_failures result
      in [head @ lit '' ('' @ trim (res_status result) @ lit '')''] @
         (if trim (res_summary result) \<noteq> [] then [trim (res_summary result)] else []) @
         (if failures \<noteq> []
          then [show_nat (length failures) @ lit '' issue(s) need attention:''] @
               concat (map notice_failure_lines (take 2 failures)) @
               (if 2 < length failures
                then [lit ''... and '' @ show_nat (length failures - 2) @ lit '' more''] else [])
          else []))"

definition explicit_instruction :: "probe_review_result \<Rightarrow> rstr option" where
  "explicit_instruction result =
     (case res_post_turn_instruction result of
        None \<Rightarrow> None
      | Some instruction \<Rightarrow> if trim instruction \<noteq> [] then Some (trim instruction) else None)"

definition post_turn_resolution_instruction :: "probe_review_result \<Rightarrow> rstr option" where
  "post_turn_resolution_instruction result =
     (if \<not> res_resolution_required result then None
      else (case explicit_instruction result of
          Some instruction \<Rightarrow> Some instruction
        | None \<Rightarrow>
            Some (lit ''Resolve the ProcessProbe findings before treating the prior conclusion as stable.'' @
              (if res_critical_failures result \<noteq> []
               then lit '' Address: '' @
                    join (lit ''; '')
                      (map (\<lambda>f. trim (category f) @ lit '': '' @ trim (needed_resolution f))
                         (res_critical_failures result))
               else []))))"

definition note_failure_lines :: "nat \<Rightarrow> probe_critical_failure \<Rightarrow> rstr list" where
  "note_failure_lines index failure =
     [show_nat (index + 1) @ lit ''. '' @ failure_label failure] @
     (if trim (claim failure) \<noteq> [] then [lit ''   Claim: '' @ trim (claim failure)] else []) @
     (if trim (problem failure) \<noteq> [] then [lit ''   Problem: '' @ trim (problem failure)] else []) @
     (if trim (needed_resolution failure) \<noteq> []
      then [lit ''   Needed resolution: '' @ trim (needed_resolution failure)] else [])"

fun note_failures :: "nat \<Rightarrow> probe_critical_failure list \<Rightarrow> rstr list" where
  "note_failures index [] = []"
| "note_failures index (f # fs) = note_failure_lines index f @ note_failures (index + 1) fs"

definition probe_resolution_developer_note :: "probe_review_result \<Rightarrow> rstr \<Rightarrow> rstr" where
  "probe_resolution_developer_note result instruction0 =
     (let instruction = trim instruction0;
          profile = trim (res_profile result);
          risk_level = trim (res_risk_level result);
          summary = trim (res_summary result)
      in join [10]
       ([lit ''Probe Review: resolution required ('' @ trim (res_status result) @ lit '')''] @
        (if instruction \<noteq> [] then [[], lit ''Next: '' @ instruction] else []) @
        (if profile \<noteq> [] \<or> risk_level \<noteq> []
         then [lit ''Context: '' @
               join (lit '', '')
                 ((if profile \<noteq> [] then [lit ''profile: '' @ profile] else []) @
                  (if risk_level \<noteq> [] then [lit ''risk: '' @ risk_level] else []))]
         else []) @
        (if summary \<noteq> [] then [lit ''Summary: '' @ summary] else []) @
        (if res_critical_failures result \<noteq> []
         then [[], lit ''Critical failures:''] @ note_failures 0 (res_critical_failures result)
         else [])))"

section \<open>Brace-balanced text\<close>

text \<open>
  The specification the scanner is measured against, written without any scanning state:
  the inside of a string literal, the inside of an object (plain chars, string literals and
  nested objects in any order), and an object.
\<close>

inductive json_chars :: "rstr \<Rightarrow> bool" where
  empty_chars: "json_chars []"
| plain_char: "c \<noteq> 34 \<Longrightarrow> c \<noteq> 92 \<Longrightarrow> json_chars s \<Longrightarrow> json_chars (c # s)"
| escaped_char: "json_chars s \<Longrightarrow> json_chars (92 # c # s)"

inductive json_body :: "rstr \<Rightarrow> bool" where
  empty_body: "json_body []"
| plain_body: "c \<notin> {34, 123, 125} \<Longrightarrow> json_body v \<Longrightarrow> json_body (c # v)"
| string_body: "json_chars s \<Longrightarrow> json_body v \<Longrightarrow> json_body (34 # s @ 34 # v)"
| nested_body: "json_body u \<Longrightarrow> json_body v \<Longrightarrow> json_body (123 # u @ 125 # v)"

definition json_object :: "rstr \<Rightarrow> bool" where
  "json_object obj \<longleftrightarrow> (\<exists>v. json_body v \<and> obj = 123 # v @ [125])"

declare json_chars.intros [intro] json_body.intros [intro]

lemma usize_add_one: "d < usize_max \<Longrightarrow> usize_saturating_add d (Suc 0) = Suc d"
  by (simp add: usize_saturating_add_def)

lemma scan_object_step:
  "\<not> json_closes st c \<Longrightarrow>
     scan_object st (c # s) = Some n \<longleftrightarrow>
       (\<exists>k. scan_object (json_step st c) s = Some k \<and> n = Suc k)"
  by auto

text \<open>Completeness: the scanner passes over strings and balanced bodies.\<close>

lemma scan_chars:
  "json_chars s \<Longrightarrow>
     scan_object (d, True, False) (s @ 34 # w) =
       map_option (\<lambda>n. n + Suc (length s)) (scan_object (d, False, False) w)"
  by (induction rule: json_chars.induct) (auto simp: option.map_comp o_def)

lemma scan_body:
  "json_body v \<Longrightarrow> d + length v < usize_max \<Longrightarrow>
     scan_object (Suc d, False, False) (v @ w) =
       map_option (\<lambda>n. n + length v) (scan_object (Suc d, False, False) w)"
proof (induction arbitrary: d w rule: json_body.induct)
  case empty_body
  then show ?case by (simp add: option.map_ident)
next
  case (plain_body c v)
  then show ?case by (auto simp: option.map_comp o_def)
next
  case (string_body s v)
  then show ?case
    by (simp add: scan_chars option.map_comp o_def) (simp add: algebra_simps)
next
  case (nested_body u v)
  then have "usize_saturating_add (Suc d) (Suc 0) = Suc (Suc d)"
    by (simp add: usize_add_one)
  with nested_body show ?case
    by (simp add: option.map_comp o_def) (simp add: algebra_simps)
qed

text \<open>Soundness: what the scanner accepts is a balanced body and its closing brace.\<close>

lemma scan_chars_inv:
  assumes "scan_object (d, True, False) s = Some n"
  shows "\<exists>cs w m. s = cs @ 34 # w \<and> json_chars cs \<and>
    scan_object (d, False, False) w = Some m \<and> n = m + Suc (length cs)"
  using assms
proof (induction "length s" arbitrary: s n rule: less_induct)
  case less
  then obtain c s1 where s: "s = c # s1" by (cases s) auto
  consider "c = 34" | "c = 92" | "c \<noteq> 34" "c \<noteq> 92" by blast
  then show ?case
  proof cases
    case 1
    with less.prems s obtain k where "scan_object (d, False, False) s1 = Some k" "n = Suc k"
      by (auto simp: scan_object_step)
    with 1 s show ?thesis
      by (intro exI [of _ "[]"] exI [of _ s1] exI [of _ k]) auto
  next
    case 2
    with less.prems s obtain k where "scan_object (d, True, True) s1 = Some k" "n = Suc k"
      by (auto simp: scan_object_step)
    then obtain c' s2 j where s1: "s1 = c' # s2" "scan_object (d, True, False) s2 = Some j"
        "n = Suc (Suc j)"
      by (cases s1) auto
    with less.hyps [of s2] s obtain cs w m where "s2 = cs @ 34 # w" "json_chars cs"
        "scan_object (d, False, False) w = Some m" "j = m + Suc (length cs)"
      by auto
    with 2 s s1 show ?thesis
      by (intro exI [of _ "92 # c' # cs"] exI [of _ w] exI [of _ m]) auto
  next
    case 3
    with less.prems s obtain k where k: "scan_object (d, True, False) s1 = Some k" "n = Suc k"
      by (auto simp: scan_object_step)
    with less.hyps [of s1] s obtain cs w m where "s1 = cs @ 34 # w" "json_chars cs"
        "scan_object (d, False, False) w = Some m" "k = m + Suc (length cs)"
      by auto
    with 3 s k show ?thesis
      by (intro exI [of _ "c # cs"] exI [of _ w] exI [of _ m]) auto
  qed
qed

text \<open>
  At depth \<open>Suc d\<close> the accepted text begins with a balanced body and a closing brace; at depth
  one the scan ends there, otherwise it goes on one level up.
\<close>

definition closes_level :: "nat \<Rightarrow> rstr \<Rightarrow> nat \<Rightarrow> bool" where
  "closes_level d s n \<longleftrightarrow>
     (\<exists>v w. s = v @ 125 # w \<and> json_body v \<and>
        (if d = 0 then n = Suc (length v)
         else (\<exists>m. scan_object (d, False, False) w = Some m \<and> n = m + Suc (length v))))"

lemma closes_level_prefix:
  assumes "closes_level d s1 k" and "\<And>v. json_body v \<Longrightarrow> json_body (pre @ v)"
  shows "closes_level d (pre @ s1) (k + length pre)"
proof -
  from assms(1) obtain v w where "s1 = v @ 125 # w" "json_body v"
      "if d = 0 then k = Suc (length v)
       else (\<exists>m. scan_object (d, False, False) w = Some m \<and> k = m + Suc (length v))"
    unfolding closes_level_def by blast
  with assms(2) [of v] show ?thesis
    unfolding closes_level_def by (intro exI [of _ "pre @ v"] exI [of _ w]) auto
qed

lemma scan_body_inv:
  assumes "scan_object (Suc d, False, False) s = Some n" and "d + length s < usize_max"
  shows "closes_level d s n"
  using assms
proof (induction "length s" arbitrary: s n d rule: less_induct)
  case less
  then obtain c s1 where s: "s = c # s1" by (cases s) auto
  consider "c = 34" | "c = 123" | "c = 125" | "c \<notin> {34, 123, 125}" by blast
  then show ?case
  proof cases
    case 1
    with less.prems s obtain k where "scan_object (Suc d, True, False) s1 = Some k" "n = Suc k"
      by (auto simp: scan_object_step)
    then obtain cs w m where w: "s1 = cs @ 34 # w" "json_chars cs"
        "scan_object (Suc d, False, False) w = Some m" "n = m + length (34 # cs @ [34])"
      using scan_chars_inv by fastforce
    with less.hyps [of w d m] less.prems s have "closes_level d w m" by simp
    then have "closes_level d ((34 # cs @ [34]) @ w) n"
      unfolding w(4) by (rule closes_level_prefix) (use w in auto)
    with 1 s w show ?thesis by simp
  next
    case 2
    with less.prems s obtain k where k: "scan_object (Suc (Suc d), False, False) s1 = Some k"
        "n = Suc k"
      by (auto simp: scan_object_step usize_add_one)
    with less.hyps [of s1 "Suc d" k] less.prems s have "closes_level (Suc d) s1 k" by simp
    then obtain u w m where u: "s1 = u @ 125 # w" "json_body u"
        "scan_object (Suc d, False, False) w = Some m" "k = m + Suc (length u)"
      by (auto simp: closes_level_def)
    with less.hyps [of w d m] less.prems s have "closes_level d w m" by simp
    then have "closes_level d ((123 # u @ [125]) @ w) (m + length (123 # u @ [125]))"
      by (rule closes_level_prefix) (use u in auto)
    with 2 s u k show ?thesis by simp
  next
    case 3
    with less.prems s show ?thesis
      unfolding closes_level_def
      by (intro exI [of _ "[]"] exI [of _ s1]) (auto simp: empty_body split: if_splits)
  next
    case 4
    with less.prems s obtain k where k: "scan_object (Suc d, False, False) s1 = Some k" "n = Suc k"
      by (auto simp: scan_object_step)
    with less.hyps [of s1 d k] less.prems s have "closes_level d s1 k" by simp
    then have "closes_level d ([c] @ s1) (k + length [c])"
      by (rule closes_level_prefix) (use 4 in auto)
    with s k show ?thesis by simp
  qed
qed

lemma extract_sound:
  assumes "extract_first_json_object text = Inr obj" and "length text < usize_max"
  shows "\<exists>pre post. text = pre @ obj @ post \<and> 123 \<notin> set pre \<and> json_object obj"
proof -
  obtain c cs n where cs: "dropWhile (\<lambda>c. c \<noteq> 123) text = c # cs"
      "scan_object (0, False, False) (c # cs) = Some n" "obj = take n (c # cs)"
    using assms(1) by (auto simp: extract_first_json_object_def split: list.splits option.splits)
  then obtain pre where parts: "text = pre @ c # cs" "123 \<notin> set pre" and "c = 123"
    by (auto simp: dropWhile_eq_Cons_conv) (metis set_takeWhileD takeWhile_dropWhile_id)
  then have len: "0 + length cs < usize_max"
    using assms(2) by simp
  obtain k where "scan_object (Suc 0, False, False) cs = Some k" "n = Suc k"
    using cs(2) \<open>c = 123\<close> by (auto simp: scan_object_step usize_add_one usize_max_def)
  then obtain v w where "cs = v @ 125 # w" "json_body v" "n = Suc (Suc (length v))"
    using scan_body_inv [OF _ len] by (auto simp: closes_level_def)
  then have "c # cs = obj @ w" "json_object obj"
    using cs(3) \<open>c = 123\<close> by (auto simp: json_object_def)
  with parts show ?thesis by metis
qed

lemma extract_complete:
  assumes "json_object obj" and "123 \<notin> set pre" and "length (pre @ obj @ post) < usize_max"
  shows "extract_first_json_object (pre @ obj @ post) = Inr obj"
proof -
  obtain v where v: "json_body v" "obj = 123 # v @ [125]"
    using assms(1) by (auto simp: json_object_def)
  have "dropWhile (\<lambda>c. c \<noteq> 123) (pre @ obj @ post) = 123 # v @ 125 # post"
    using assms(2) v by (subst dropWhile_append2) auto
  moreover have "scan_object (0, False, False) (123 # v @ 125 # post) = Some (Suc (Suc (length v)))"
    using scan_body [OF v(1), of 0 "125 # post"] assms(3) v(2)
    by (simp add: usize_add_one usize_max_def)
  ultimately show ?thesis
    using v(2) by (simp add: extract_first_json_object_def)
qed

lemma extract_iff:
  assumes "length text < usize_max"
  shows "extract_first_json_object text = Inr obj \<longleftrightarrow>
      (\<exists>pre post. text = pre @ obj @ post \<and> 123 \<notin> set pre \<and> json_object obj)"
  using extract_sound [OF _ assms] extract_complete assms by blast

section \<open>Acceptance\<close>

definition clean_text :: "rstr \<Rightarrow> bool" where
  "clean_text value \<longleftrightarrow>
     normalize_probe_placeholder value = [] \<or>
     \<not> is_probe_placeholder value PROBE_RESULT_PLACEHOLDERS"

definition clean_failure :: "probe_critical_failure \<Rightarrow> bool" where
  "clean_failure f \<longleftrightarrow> clean_text (trim (category f)) \<and> clean_text (trim (claim f)) \<and>
     clean_text (trim (problem f)) \<and> clean_text (trim (needed_resolution f))"

definition acceptable :: "probe_review_result \<Rightarrow> bool" where
  "acceptable r \<longleftrightarrow>
     trim (res_status r) \<in> set valid_statuses \<and> clean_text (trim (res_summary r)) \<and>
     pred_option (\<lambda>i. clean_text (trim i)) (res_post_turn_instruction r) \<and>
     list_all clean_failure (res_critical_failures r)"

lemma reject_placeholder_text_ok [simp]:
  "reject_placeholder_text field value PROBE_RESULT_PLACEHOLDERS = Inr u \<longleftrightarrow> clean_text value"
  by (auto simp: reject_placeholder_text_def clean_text_def Let_def)

lemma validate_failure_ok [simp]: "validate_failure i f = Inr u \<longleftrightarrow> clean_failure f"
  by (auto simp: validate_failure_def clean_failure_def)

lemma validate_failures_ok [simp]: "validate_failures i fs = Inr u \<longleftrightarrow> list_all clean_failure fs"
  by (induction fs arbitrary: i) auto

lemma validate_probe_review_result_ok:
  "validate_probe_review_result r = Inr r' \<longleftrightarrow> r' = r \<and> acceptable r"
  by (auto simp: validate_probe_review_result_def acceptable_def Let_def split: option.splits)

section \<open>Properties\<close>

text \<open>
  Equivalence with a grammar: on a text shorter than the address space, the recovery scan
  returns exactly the first brace-balanced object. It succeeds with \<open>obj\<close> if and only if the text
  is some prefix without an opening brace, then \<open>obj\<close>, then anything, where \<open>obj\<close> is an object of
  the grammar: braces inside string literals and escaped quotes are not counted.
\<close>

theorem extract_first_json_object_iff:
  assumes "length text < usize_max"
  shows "extract_first_json_object text = Inr obj \<longleftrightarrow>
      (\<exists>pre post. text = pre @ obj @ post \<and> 123 \<notin> set pre \<and> json_object obj)"
  using assms by (rule extract_iff)

theorem extract_first_json_object_iff_witness:
  "length (lit ''x{}y}'') < usize_max \<and>
   (extract_first_json_object (lit ''x{}y}'') = Inr (lit ''{}'') \<longleftrightarrow>
     (\<exists>pre post. lit ''x{}y}'' = pre @ lit ''{}'' @ post \<and> 123 \<notin> set pre \<and> json_object (lit ''{}'')))"
  using extract_first_json_object_iff [of "lit ''x{}y}''" "lit ''{}''"]
  by (simp add: usize_max_def lit_def)

text \<open>
  Functional behaviour of result parsing, for every JSON deserialiser: a result is returned
  exactly when it is acceptable (a known status, no placeholder text in the summary, the
  instruction or any failure) and the deserialiser produced it either from the whole trimmed
  text or, after failing on that, from the first balanced object in it. In particular trailing
  logs, Markdown fences and duplicated payloads never change the result, and a result is never
  altered by validation.
\<close>

theorem parse_probe_review_result_iff:
  assumes "length raw < usize_max"
    and "t = trim (trim_start_matches (\<lambda>c. c = 65279) raw)" and "t \<noteq> []"
  shows "parse_probe_review_result from_str raw = Inr r \<longleftrightarrow>
      acceptable r \<and>
      (from_str t = Inr r \<or>
       (\<exists>e. from_str t = Inl e) \<and>
       (\<exists>pre obj post. t = pre @ obj @ post \<and> 123 \<notin> set pre \<and> json_object obj \<and>
          from_str obj = Inr r))"
proof -
  have "length t \<le> length raw"
  proof -
    obtain a where "raw = a @ trim_start_matches (\<lambda>c. c = 65279) raw"
      using trim_start_matches_split by blast
    then have "length (trim_start_matches (\<lambda>c. c = 65279) raw) \<le> length raw"
      by (metis length_append le_add2)
    moreover have "length (trim u) \<le> length u" for u
      using trim_split [of u] by (metis length_append le_add1 le_add2 le_trans)
    ultimately show ?thesis
      using assms(2) le_trans by metis
  qed
  then have len: "length t < usize_max"
    using assms(1) by linarith
  show ?thesis
  proof (cases "from_str t")
    case (Inr r0)
    with assms(2,3) show ?thesis
      by (auto simp: parse_probe_review_result_def validate_probe_review_result_ok)
  next
    case (Inl e)
    have "parse_probe_review_result from_str raw = Inr r \<longleftrightarrow>
        (\<exists>obj. extract_first_json_object t = Inr obj \<and> from_str obj = Inr r \<and> acceptable r)"
      using Inl assms(2,3)
      by (auto simp: parse_probe_review_result_def Let_def validate_probe_review_result_ok
          split: sum.splits)
    with Inl show ?thesis
      unfolding extract_iff [OF len] by auto
  qed
qed

theorem parse_probe_review_result_iff_witness:
  "parse_probe_review_result
     (\<lambda>s. if s = lit ''{}''
          then Inr \<lparr>res_status = lit ''Adequate'', res_profile = [], res_risk_level = [],
                     res_summary = [], res_critical_failures = [],
                     res_resolution_required = False, res_post_turn_instruction = None\<rparr>
          else Inl \<lparr>je_line = 1, je_column = 1, je_display = lit ''bad''\<rparr>)
     (lit ''log {} done'') =
   Inr \<lparr>res_status = lit ''Adequate'', res_profile = [], res_risk_level = [],
        res_summary = [], res_critical_failures = [],
        res_resolution_required = False, res_post_turn_instruction = None\<rparr>"
proof -
  let ?raw = "lit ''log {} done''"
  have trimmed: "?raw = trim (trim_start_matches (\<lambda>c. c = 65279) ?raw)"
    by (simp add: str_eval)
  have parts: "?raw = lit ''log '' @ lit ''{}'' @ lit '' done''" "123 \<notin> set (lit ''log '')"
    by (simp_all add: lit_def)
  have obj: "json_object (lit ''{}'')"
    by (auto simp: json_object_def lit_def)
  have small: "length ?raw < usize_max" "?raw \<noteq> []" "?raw \<noteq> lit ''{}''"
    by (simp_all add: lit_def usize_max_def)
  have ok: "trim (lit ''Adequate'') \<in> set valid_statuses" "clean_text (trim [])"
    by (simp_all add: valid_statuses_def clean_text_def normalize_probe_placeholder_def str_eval)
  show ?thesis
    unfolding parse_probe_review_result_iff [OF small(1) trimmed small(2)]
    using parts obj small(3) ok by (simp add: acceptable_def) metis
qed

section \<open>Facts for the widget\<close>

lemma post_turn_resolution_instruction_None_iff:
  "post_turn_resolution_instruction r = None \<longleftrightarrow> \<not> res_resolution_required r"
  by (auto simp: post_turn_resolution_instruction_def split: option.splits)

lemma developer_note_head:
  "\<exists>ls. probe_resolution_developer_note r i = lit ''Probe Review: resolution required ('' @ ls"
proof -
  have join: "\<exists>ls. join [10] ([w @ u] @ ws) = w @ ls" for w u and ws :: "rstr list"
    using join_Cons_prefix [of "[10]" "w @ u" ws] by (metis append_Cons append_Nil append_assoc)
  show ?thesis
    unfolding probe_resolution_developer_note_def Let_def by (rule join)
qed

lemma developer_note_not_blank: "trim (probe_resolution_developer_note r i) \<noteq> []"
  using developer_note_head [of r i]
  by (auto simp: trim_eq_Nil_iff lit_def is_whitespace_def)

end
