(* ===== verification/Seen_Cache.thy ===== *)
theory Seen_Cache
  imports Rust_Prelude
begin

text \<open>
  The caches of agent ids whose final status was already handled,
  \<open>remember_processed_auto_review_agent\<close> and \<open>remember_processed_probe_review_agent\<close> of
  \<open>code-rs/tui/src/chatwidget.rs\<close>: a hash set for membership and a queue for the order of
  insertion, trimmed to a fixed capacity by forgetting the oldest id first. The locale
  \<open>seen_cache\<close> is what the observers of agent status rely on; both caches are instances.
\<close>

section \<open>Model\<close>

record processed_agents =
  agent_set :: "rstr set"
  agent_order :: "rstr list"

definition MAX_PROCESSED_PROBE_REVIEW_AGENTS :: nat where
  "MAX_PROCESSED_PROBE_REVIEW_AGENTS = 512"

definition MAX_PROCESSED_AUTO_REVIEW_AGENTS :: nat where
  "MAX_PROCESSED_AUTO_REVIEW_AGENTS = 512"

definition no_agents :: processed_agents where
  "no_agents = \<lparr>agent_set = {}, agent_order = []\<rparr>"

text \<open>The eviction loop; it returns the order, the set and how many ids left the set.\<close>

fun evict_oldest :: "nat \<Rightarrow> rstr list \<Rightarrow> rstr set \<Rightarrow> nat \<Rightarrow> rstr list \<times> rstr set \<times> nat" where
  "evict_oldest cap [] ids evicted = ([], ids, evicted)"
| "evict_oldest cap (oldest # order) ids evicted =
     (if card ids > cap
      then evict_oldest cap order (ids - {oldest})
             (if oldest \<in> ids then usize_saturating_add evicted 1 else evicted)
      else (oldest # order, ids, evicted))"

definition remember_processed_probe_review_agent ::
    "rstr \<Rightarrow> processed_agents \<Rightarrow> processed_agents" where
  "remember_processed_probe_review_agent agent_id c =
     (if trim agent_id = [] then c
      else if agent_id \<in> agent_set c then c
      else (case evict_oldest MAX_PROCESSED_PROBE_REVIEW_AGENTS (agent_order c @ [agent_id])
                   (insert agent_id (agent_set c)) 0 of
              (order, ids, _) \<Rightarrow> \<lparr>agent_set = ids, agent_order = order\<rparr>))"

text \<open>The auto-review cache also keeps a running total of evictions (a \<open>u64\<close>).\<close>

type_synonym counted_agents = "processed_agents \<times> u64"

definition remember_processed_auto_review_agent ::
    "rstr \<Rightarrow> counted_agents \<Rightarrow> counted_agents" where
  "remember_processed_auto_review_agent agent_id ct =
     (case ct of (c, evicted_total) \<Rightarrow>
        if trim agent_id = [] then (c, evicted_total)
        else if agent_id \<in> agent_set c then (c, evicted_total)
        else (case evict_oldest MAX_PROCESSED_AUTO_REVIEW_AGENTS (agent_order c @ [agent_id])
                     (insert agent_id (agent_set c)) 0 of
                (order, ids, evicted) \<Rightarrow>
                  (\<lparr>agent_set = ids, agent_order = order\<rparr>,
                   if 0 < evicted then saturating_add evicted_total (of_nat evicted) else evicted_total)))"

section \<open>The contract\<close>

locale seen_cache =
  fixes remember :: "rstr \<Rightarrow> 'c \<Rightarrow> 'c"
    and seen :: "'c \<Rightarrow> rstr \<Rightarrow> bool"
    and history :: "'c \<Rightarrow> rstr list"
    and inv :: "'c \<Rightarrow> bool"
    and cap :: nat
  assumes cap_pos: "0 < cap"
    and inv_remember: "inv c \<Longrightarrow> inv (remember a c)"
    and inv_history: "inv c \<Longrightarrow> distinct (history c) \<and> length (history c) \<le> cap"
    and seen_history: "inv c \<Longrightarrow> seen c a \<longleftrightarrow> a \<in> set (history c)"
    and history_remember: "inv c \<Longrightarrow> history (remember a c) =
      (if trim a = [] \<or> seen c a then history c
       else drop (length (history c) + 1 - cap) (history c @ [a]))"
begin

lemma seen_after_remember:
  assumes "inv c" and "trim a \<noteq> []"
  shows "seen (remember a c) a"
proof (cases "seen c a")
  case True
  with assms show ?thesis
    by (simp add: seen_history inv_remember history_remember)
next
  case False
  have "length (history c) + 1 - cap \<le> length (history c)"
    using cap_pos by simp
  with False assms show ?thesis
    by (simp add: seen_history inv_remember history_remember)
qed

lemma inv_fold: "inv c \<Longrightarrow> inv (fold remember as c)"
  by (induction as arbitrary: c) (auto simp: inv_remember)

lemma remember_keeps_recent:
  assumes "inv c" and "history c = xs @ a # ys" and "length ys + 1 < cap"
  shows "\<exists>xs' ys'. history (remember b c) = xs' @ a # ys' \<and> length ys' \<le> length ys + 1"
proof (cases "trim b = [] \<or> seen c b")
  case True
  with assms have "history (remember b c) = xs @ a # ys"
    by (simp add: history_remember)
  then show ?thesis by (intro exI [of _ xs] exI [of _ ys]) simp
next
  case False
  let ?k = "length (history c) + 1 - cap"
  have "?k \<le> length xs"
    using assms by simp
  then have "history (remember b c) = drop ?k xs @ a # (ys @ [b])"
    using False assms by (simp add: history_remember)
  then show ?thesis
    by (intro exI [of _ "drop ?k xs"] exI [of _ "ys @ [b]"]) simp
qed

lemma fold_keeps_recent:
  assumes "inv c" and "history c = xs @ a # ys" and "length ys + length as < cap"
  shows "seen (fold remember as c) a"
  using assms
proof (induction as arbitrary: c xs ys)
  case Nil
  then show ?case by (simp add: seen_history)
next
  case (Cons b as)
  then obtain xs' ys' where "history (remember b c) = xs' @ a # ys'" "length ys' \<le> length ys + 1"
    using remember_keeps_recent [of c xs a ys b] by auto
  with Cons show ?case
    by (simp add: inv_remember)
qed

text \<open>An id stays known while fewer than \<open>cap\<close> further ids are remembered.\<close>

lemma seen_within_window:
  assumes "inv c" and "trim a \<noteq> []" and "\<not> seen c a" and "length as < cap"
  shows "seen (fold remember as (remember a c)) a"
proof -
  let ?k = "length (history c) + 1 - cap"
  have "?k \<le> length (history c)"
    using cap_pos by simp
  then have "history (remember a c) = drop ?k (history c) @ a # []"
    using assms by (simp add: history_remember)
  with assms show ?thesis
    using fold_keeps_recent [OF inv_remember [OF assms(1)], of a "drop ?k (history c)" a "[]" as]
    by simp
qed

end

section \<open>Both caches satisfy it\<close>

definition cache_ok :: "nat \<Rightarrow> processed_agents \<Rightarrow> bool" where
  "cache_ok cap c \<longleftrightarrow>
     agent_set c = set (agent_order c) \<and> distinct (agent_order c) \<and> length (agent_order c) \<le> cap"

lemma evict_oldest_excess:
  assumes "distinct order" and "length order \<le> cap + 1"
  shows "fst (evict_oldest cap order (set order) n) = drop (length order - cap) order"
    and "fst (snd (evict_oldest cap order (set order) n)) = set (drop (length order - cap) order)"
proof -
  have "fst (evict_oldest cap order (set order) n) = drop (length order - cap) order \<and>
      fst (snd (evict_oldest cap order (set order) n)) = set (drop (length order - cap) order)"
  proof (cases order)
    case Nil
    then show ?thesis by simp
  next
    case (Cons a rest)
    have card: "card (set order) = length order"
      using assms(1) by (rule distinct_card)
    show ?thesis
    proof (cases "length order > cap")
      case True
      have rest: "set order - {a} = set rest" "length rest = cap" "distinct rest"
        using assms True Cons by auto
      then have "card (set rest) = cap"
        by (simp add: distinct_card)
      then have stop: "evict_oldest cap rest (set rest) m = (rest, set rest, m)" for m
        by (cases rest) auto
      show ?thesis
        using True card rest stop unfolding Cons by simp
    next
      case False
      with card Cons show ?thesis by simp
    qed
  qed
  then show "fst (evict_oldest cap order (set order) n) = drop (length order - cap) order"
    and "fst (snd (evict_oldest cap order (set order) n)) = set (drop (length order - cap) order)"
    by simp_all
qed

lemma evict_after_insert:
  assumes "cache_ok cap c" and "a \<notin> agent_set c"
    and r_def: "evict_oldest cap (agent_order c @ [a]) (insert a (agent_set c)) n = r"
  shows "fst r = drop (length (agent_order c) + 1 - cap) (agent_order c @ [a])"
    and "fst (snd r) = set (fst r)" and "distinct (fst r)" and "0 < cap \<Longrightarrow> length (fst r) \<le> cap"
proof -
  have "insert a (agent_set c) = set (agent_order c @ [a])" "distinct (agent_order c @ [a])"
      "length (agent_order c @ [a]) \<le> cap + 1"
    using assms by (auto simp: cache_ok_def)
  note facts = evict_oldest_excess [OF this(2,3), of n, folded this(1)]
  show first: "fst r = drop (length (agent_order c) + 1 - cap) (agent_order c @ [a])"
    and "fst (snd r) = set (fst r)"
    using facts unfolding r_def by simp_all
  show "distinct (fst r)"
    unfolding first using \<open>distinct (agent_order c @ [a])\<close> by (rule distinct_drop)
  show "0 < cap \<Longrightarrow> length (fst r) \<le> cap"
    unfolding first by simp
qed

interpretation probe_cache: seen_cache
  remember_processed_probe_review_agent "\<lambda>c a. a \<in> agent_set c" agent_order
  "cache_ok MAX_PROCESSED_PROBE_REVIEW_AGENTS" MAX_PROCESSED_PROBE_REVIEW_AGENTS
proof (unfold_locales, goal_cases)
  case 1
  show ?case by (simp add: MAX_PROCESSED_PROBE_REVIEW_AGENTS_def)
next
  case (2 c a)
  then show ?case
    using evict_after_insert [of MAX_PROCESSED_PROBE_REVIEW_AGENTS c a 0, OF 2 _ refl]
    by (auto simp: remember_processed_probe_review_agent_def cache_ok_def
        MAX_PROCESSED_PROBE_REVIEW_AGENTS_def split: prod.splits)
next
  case (3 c)
  then show ?case by (simp add: cache_ok_def)
next
  case (4 c a)
  then show ?case by (simp add: cache_ok_def)
next
  case (5 c a)
  then show ?case
    using evict_after_insert(1) [of MAX_PROCESSED_PROBE_REVIEW_AGENTS c a 0, OF 5 _ refl]
    by (auto simp: remember_processed_probe_review_agent_def split: prod.splits)
qed

interpretation auto_cache: seen_cache
  remember_processed_auto_review_agent "\<lambda>ct a. a \<in> agent_set (fst ct)" "\<lambda>ct. agent_order (fst ct)"
  "\<lambda>ct. cache_ok MAX_PROCESSED_AUTO_REVIEW_AGENTS (fst ct)" MAX_PROCESSED_AUTO_REVIEW_AGENTS
proof (unfold_locales, goal_cases)
  case 1
  show ?case by (simp add: MAX_PROCESSED_AUTO_REVIEW_AGENTS_def)
next
  case (2 ct a)
  then show ?case
    using evict_after_insert [of MAX_PROCESSED_AUTO_REVIEW_AGENTS "fst ct" a 0, OF 2 _ refl]
    by (auto simp: remember_processed_auto_review_agent_def cache_ok_def
        MAX_PROCESSED_AUTO_REVIEW_AGENTS_def split: prod.splits)
next
  case (3 ct)
  then show ?case by (simp add: cache_ok_def)
next
  case (4 ct a)
  then show ?case by (simp add: cache_ok_def)
next
  case (5 ct a)
  then show ?case
    using evict_after_insert(1) [of MAX_PROCESSED_AUTO_REVIEW_AGENTS "fst ct" a 0, OF 5 _ refl]
    by (auto simp: remember_processed_auto_review_agent_def split: prod.splits)
qed

end
