(* ===== verification/Core_Types.thy ===== *)
theory Core_Types
  imports Rust_Prelude
begin

text \<open>
  Configuration types of \<open>code-rs/core/src/config_types.rs\<close> that several components use.
\<close>

datatype reasoning_effort = Minimal | LowEffort | MediumEffort | HighEffort | XHigh | NoEffort

end
