(* ===== verification/Probe_Flow.thy ===== *)
theory Probe_Flow
  imports Probe_Result Seen_Cache Core_Types
begin

text \<open>
  ProcessProbe inside the chat widget, \<open>code-rs/tui/src/chatwidget.rs\<close>: when a turn completes
  the gate may ask the user for permission, an approved request launches the reviewing agent,
  the agent's status updates are observed, and a result may inject a developer instruction
  into the session. The record \<open>chat_widget\<close> holds the widget's fields this flow reads or
  writes; what it sends to the rest of the program (history notices, approval requests, the
  footer, the spawned review task, protocol operations) is appended to the log \<open>out\<close>. The
  clock is an argument in whole seconds. Redraw requests are not modelled.
\<close>

section \<open>Data\<close>

record probe_review_config =
  enabled :: bool
  mode :: rstr
  default_profile :: rstr
  cheap_gate :: bool
  full_probe_threshold :: rstr
  auto_resolve :: bool
  use_chat_model :: bool
  probe_model :: rstr
  model_reasoning_effort :: reasoning_effort

definition default_probe_review_config :: probe_review_config where
  "default_probe_review_config =
     \<lparr>enabled = True, mode = lit ''high_risk'', default_profile = lit ''general'',
      cheap_gate = True, full_probe_threshold = lit ''high'', auto_resolve = True,
      use_chat_model = False, probe_model = [], model_reasoning_effort = HighEffort\<rparr>"

record probe_review_run_state =
  run_agent_id :: "rstr option"
  last_seen :: nat

record pending_permission =
  perm_id :: u64
  perm_prompt :: rstr

datatype review_footer_source = AutoReview | ProbeReview

datatype indicator_status = Running | Clean | Fixed | Failed

datatype review_phase = Reviewing | Resolving

record auto_review_status =
  ars_source :: review_footer_source
  ars_status :: indicator_status
  ars_findings :: "nat option"
  ars_phase :: review_phase

datatype turn_origin = UserTurn | DeveloperTurn

datatype agent_source_kind = DefaultAgent | AutoReviewAgent | ProbeReviewAgent

record agent_info =
  agent_id :: rstr
  agent_status_text :: rstr
  batch_id :: "rstr option"
  agent_result :: "rstr option"
  agent_error :: "rstr option"
  source_kind :: "agent_source_kind option"

datatype agent_status =
  PendingAgent | RunningAgent | CompletedAgent | FailedAgent | CancelledAgent

datatype widget_effect =
    PushNotice "rstr list"
  | PushApprovalRequest u64 rstr rstr "rstr list"
  | CloseApprovalModal
  | SetFooter "auto_review_status option"
  | LaunchProbe rstr
  | AddPostTurnDeveloperInput rstr

record chat_widget =
  probe_config :: probe_review_config
  config_cwd :: rstr
  task_visible_to_user :: "bool option"
  current_turn_origin :: "turn_origin option"
  probe_review_turn :: probe_turn_state
  probe_review_run :: "probe_review_run_state option"
  probe_review_permission :: "pending_permission option"
  next_probe_review_permission_id :: u64
  processed_probe_review_agents :: processed_agents
  widget_review_status :: "auto_review_status option"
  last_developer_message :: "rstr option"
  out :: "widget_effect list"

definition AUTO_REVIEW_STALE_SECS :: nat where
  "AUTO_REVIEW_STALE_SECS = 5 * 60"

definition MAX_PENDING_AUTO_REVIEW_NOTE_CHARS :: nat where
  "MAX_PENDING_AUTO_REVIEW_NOTE_CHARS = 2400"

definition MAX_AUTO_REVIEW_NOTE_CONTEXT_CHARS :: nat where
  "MAX_AUTO_REVIEW_NOTE_CONTEXT_CHARS = 1200"

definition MAX_AUTO_REVIEW_ERROR_SUMMARY_CHARS :: nat where
  "MAX_AUTO_REVIEW_ERROR_SUMMARY_CHARS = 320"

section \<open>Helpers\<close>

definition emit :: "widget_effect \<Rightarrow> chat_widget \<Rightarrow> chat_widget" where
  "emit e w = w\<lparr>out := out w @ [e]\<rparr>"

definition truncate_with_ellipsis :: "rstr \<Rightarrow> nat \<Rightarrow> rstr" where
  "truncate_with_ellipsis text max_chars =
     (if max_chars = 0 then []
      else if length text \<le> max_chars then text
      else take (max_chars - 1) text @ [8230])"

definition current_task_output_is_hidden :: "chat_widget \<Rightarrow> bool" where
  "current_task_output_is_hidden w =
     (case task_visible_to_user w of Some visible \<Rightarrow> \<not> visible | None \<Rightarrow> False)"

definition current_task_should_skip_auto_review :: "chat_widget \<Rightarrow> bool" where
  "current_task_should_skip_auto_review w \<longleftrightarrow>
     current_task_output_is_hidden w \<or> current_turn_origin w = Some DeveloperTurn"

definition is_probe_review_agent :: "agent_info \<Rightarrow> bool" where
  "is_probe_review_agent agent \<longleftrightarrow>
     source_kind agent = Some ProbeReviewAgent \<or>
     (case batch_id agent of
        Some batch \<Rightarrow> eq_ignore_ascii_case batch (lit ''probe-review'') | None \<Rightarrow> False)"

definition agent_status_from_str :: "rstr \<Rightarrow> agent_status" where
  "agent_status_from_str status =
     (if status = lit ''pending'' then PendingAgent
      else if status = lit ''running'' then RunningAgent
      else if status = lit ''completed'' then CompletedAgent
      else if status = lit ''failed'' then FailedAgent
      else if status = lit ''cancelled'' then CancelledAgent
      else PendingAgent)"

definition set_probe_review_indicator ::
    "indicator_status \<Rightarrow> nat option \<Rightarrow> chat_widget \<Rightarrow> chat_widget" where
  "set_probe_review_indicator status findings w =
     (let state = \<lparr>ars_source = ProbeReview, ars_status = status, ars_findings = findings,
                   ars_phase = Reviewing\<rparr>
      in emit (SetFooter (Some state)) (w\<lparr>widget_review_status := Some state\<rparr>))"

definition clear_probe_review_indicator :: "chat_widget \<Rightarrow> chat_widget" where
  "clear_probe_review_indicator w =
     (case widget_review_status w of
        Some state \<Rightarrow>
          if ars_source state = ProbeReview
          then emit (SetFooter None) (w\<lparr>widget_review_status := None\<rparr>) else w
      | None \<Rightarrow> w)"

section \<open>Operations\<close>

definition request_probe_review_permission ::
    "rstr \<Rightarrow> probe_trigger \<Rightarrow> chat_widget \<Rightarrow> chat_widget" where
  "request_probe_review_permission prompt trigger w =
     (let rid = next_probe_review_permission_id w
      in emit (PushApprovalRequest rid (profile_as_str (trig_profile trigger))
                 (risk_as_str (trig_risk_level trigger)) (trig_reasons trigger))
           (w\<lparr>next_probe_review_permission_id := saturating_add rid 1,
              probe_review_permission := Some \<lparr>perm_id = rid, perm_prompt = prompt\<rparr>\<rparr>))"

definition configured_profile :: "chat_widget \<Rightarrow> probe_trigger \<Rightarrow> probe_trigger" where
  "configured_profile w trigger =
     (if trig_profile trigger = General
      then (let p = to_ascii_lowercase (trim (default_profile (probe_config w)))
            in trigger\<lparr>trig_profile :=
                 (if p = lit ''security'' then Security
                  else if p = lit ''debugging'' then Debugging else General)\<rparr>)
      else trigger)"

definition gate_blocks :: "chat_widget \<Rightarrow> probe_trigger \<Rightarrow> bool" where
  "gate_blocks w trigger \<longleftrightarrow>
     (let m = to_ascii_lowercase (trim (mode (probe_config w)))
      in m \<in> {lit ''off'', lit ''disabled''} \<or>
         (m = lit ''manual'' \<and> \<not> trig_force trigger) \<or>
         (cheap_gate (probe_config w) \<and> \<not> trig_force trigger \<and> m \<noteq> lit ''always'' \<and>
          \<not> risk_meets_threshold (trig_risk_level trigger)
              (full_probe_threshold (probe_config w))))"

definition run_is_fresh :: "nat \<Rightarrow> chat_widget \<Rightarrow> bool" where
  "run_is_fresh now w \<longleftrightarrow>
     (case probe_review_run w of
        Some run \<Rightarrow> now - last_seen run < AUTO_REVIEW_STALE_SECS | None \<Rightarrow> False)"

definition maybe_trigger_probe_review :: "nat \<Rightarrow> chat_widget \<Rightarrow> chat_widget" where
  "maybe_trigger_probe_review now w =
     (if \<not> enabled (probe_config w) then w
      else if current_task_should_skip_auto_review w then w
      else if probe_review_permission w \<noteq> None then w
      else if run_is_fresh now w then w
      else
       (let w1 = w\<lparr>probe_review_run := None\<rparr>
        in case detect_probe_trigger (probe_review_turn w1) of
             None \<Rightarrow> w1
           | Some trigger \<Rightarrow>
               if gate_blocks w1 trigger then w1
               else
                (let trigger1 = configured_profile w1 trigger;
                     package = build_probe_package (probe_review_turn w1) trigger1;
                     prompt = build_probe_prompt package (config_cwd w1)
                 in request_probe_review_permission prompt trigger1 w1)))"

definition launch_probe_review :: "nat \<Rightarrow> rstr \<Rightarrow> chat_widget \<Rightarrow> chat_widget" where
  "launch_probe_review now prompt w =
     emit (LaunchProbe prompt)
       (set_probe_review_indicator Running None
         (w\<lparr>probe_review_run := Some \<lparr>run_agent_id = None, last_seen = now\<rparr>\<rparr>))"

definition handle_probe_review_approval_decision ::
    "nat \<Rightarrow> u64 \<Rightarrow> bool \<Rightarrow> chat_widget \<Rightarrow> chat_widget" where
  "handle_probe_review_approval_decision now rid approved w =
     (case probe_review_permission w of
        None \<Rightarrow> w
      | Some pending \<Rightarrow>
          if perm_id pending \<noteq> rid then w
          else
           (let w1 = w\<lparr>probe_review_permission := None\<rparr>
            in if approved then launch_probe_review now (perm_prompt pending) w1
               else clear_probe_review_indicator
                 (emit (PushNotice
                    [lit ''Probe Review: cancelled because permission was not granted.'']) w1)))"

definition cancel_pending_probe_review_permission :: "rstr \<Rightarrow> chat_widget \<Rightarrow> chat_widget" where
  "cancel_pending_probe_review_permission message w =
     (case probe_review_permission w of
        None \<Rightarrow> w
      | Some _ \<Rightarrow>
          clear_probe_review_indicator
            (emit (PushNotice [message])
              (emit CloseApprovalModal (w\<lparr>probe_review_permission := None\<rparr>))))"

text \<open>The probe's share of the \<open>TaskStarted\<close> handler.\<close>

definition probe_task_started :: "chat_widget \<Rightarrow> chat_widget" where
  "probe_task_started w =
     (let w1 = cancel_pending_probe_review_permission
                 (lit ''Probe Review: cancelled because a new task started before approval.'') w
      in w1\<lparr>probe_review_turn := reset_for_turn (probe_review_turn w1)\<rparr>)"

definition handle_probe_review_result :: "probe_review_result \<Rightarrow> chat_widget \<Rightarrow> chat_widget" where
  "handle_probe_review_result result w =
     (let w1 = (if res_resolution_required result
                then set_probe_review_indicator Fixed
                  (if res_critical_failures result \<noteq> []
                   then Some (length (res_critical_failures result)) else None) w
                else set_probe_review_indicator Clean None w);
          w2 = emit (PushNotice (probe_notice_lines result)) w1
      in if \<not> auto_resolve (probe_config w2) then w2
         else (case post_turn_resolution_instruction result of
             None \<Rightarrow> w2
           | Some instruction \<Rightarrow>
              (let developer_note = probe_resolution_developer_note result instruction;
                   bounded_note = truncate_with_ellipsis (trim developer_note)
                     MAX_PENDING_AUTO_REVIEW_NOTE_CHARS
               in if trim bounded_note = [] then w2
                  else emit (AddPostTurnDeveloperInput bounded_note)
                    (w2\<lparr>last_developer_message := Some (truncate_with_ellipsis bounded_note
                       MAX_AUTO_REVIEW_NOTE_CONTEXT_CHARS)\<rparr>))))"

text \<open>One iteration of the loop over the reported agents.\<close>

definition mark_probe_run_seen :: "nat \<Rightarrow> agent_info \<Rightarrow> chat_widget \<Rightarrow> chat_widget" where
  "mark_probe_run_seen now agent w =
     (case probe_review_run w of
        None \<Rightarrow> w
      | Some run \<Rightarrow>
          w\<lparr>probe_review_run := Some \<lparr>run_agent_id =
               (case run_agent_id run of None \<Rightarrow> Some (agent_id agent) | Some i \<Rightarrow> Some i),
             last_seen = now\<rparr>\<rparr>)"

definition probe_failed :: "rstr list \<Rightarrow> chat_widget \<Rightarrow> chat_widget" where
  "probe_failed notice w = emit (PushNotice notice) (set_probe_review_indicator Failed None w)"

definition finish_probe_agent :: "json_parser \<Rightarrow> agent_info \<Rightarrow> chat_widget \<Rightarrow> chat_widget" where
  "finish_probe_agent from_str agent w =
     (let status = agent_status_from_str (agent_status_text agent);
          error = (case agent_error agent of
                     None \<Rightarrow> None | Some e \<Rightarrow> if trim e \<noteq> [] then Some (trim e) else None)
      in case error of
           Some e \<Rightarrow>
             probe_failed [lit ''Probe Review: failed before producing a result.'',
               truncate_with_ellipsis e MAX_AUTO_REVIEW_ERROR_SUMMARY_CHARS] w
         | None \<Rightarrow>
             if status = FailedAgent \<or> status = CancelledAgent
             then probe_failed [lit ''Probe Review: failed before producing a result.''] w
             else (case agent_result agent of
                 None \<Rightarrow> probe_failed [lit ''Probe Review: finished without a result.''] w
               | Some raw_result \<Rightarrow>
                   (case parse_probe_review_result from_str raw_result of
                      Inr result \<Rightarrow> handle_probe_review_result result w
                    | Inl err \<Rightarrow>
                        probe_failed [lit ''Probe Review: result could not be parsed.'',
                          truncate_with_ellipsis err MAX_AUTO_REVIEW_ERROR_SUMMARY_CHARS] w)))"

definition observe_probe_agent ::
    "json_parser \<Rightarrow> nat \<Rightarrow> agent_info \<Rightarrow> chat_widget \<Rightarrow> chat_widget" where
  "observe_probe_agent from_str now agent w =
     (if \<not> is_probe_review_agent agent then w
      else
       (let w1 = mark_probe_run_seen now agent w;
            status = agent_status_from_str (agent_status_text agent)
        in if status = PendingAgent \<or> status = RunningAgent
           then set_probe_review_indicator Running
             (case widget_review_status w1 of
                Some state \<Rightarrow> if ars_source state = ProbeReview then ars_findings state else None
              | None \<Rightarrow> None) w1
           else if agent_id agent \<in> agent_set (processed_probe_review_agents w1) then w1
           else finish_probe_agent from_str agent
             (w1\<lparr>processed_probe_review_agents :=
                   remember_processed_probe_review_agent (agent_id agent)
                     (processed_probe_review_agents w1),
                 probe_review_run := None\<rparr>)))"

fun observe_probe_review_status ::
    "json_parser \<Rightarrow> nat \<Rightarrow> agent_info list \<Rightarrow> chat_widget \<Rightarrow> chat_widget" where
  "observe_probe_review_status from_str now [] w = w"
| "observe_probe_review_status from_str now (agent # agents) w =
     observe_probe_review_status from_str now agents (observe_probe_agent from_str now agent w)"

section \<open>The flow as a transition system\<close>

text \<open>The inputs that reach the probe's share of the widget, and the widget it starts from.\<close>

datatype probe_input =
    TaskStarted
  | Recorded probe_event
  | TurnCompleted nat
  | Decision nat u64 bool
  | AgentUpdate nat "agent_info list"

fun probe_step :: "json_parser \<Rightarrow> probe_input \<Rightarrow> chat_widget \<Rightarrow> chat_widget" where
  "probe_step from_str TaskStarted w = probe_task_started w"
| "probe_step from_str (Recorded e) w =
     w\<lparr>probe_review_turn := record_event e (probe_review_turn w)\<rparr>"
| "probe_step from_str (TurnCompleted now) w = maybe_trigger_probe_review now w"
| "probe_step from_str (Decision now rid approved) w =
     handle_probe_review_approval_decision now rid approved w"
| "probe_step from_str (AgentUpdate now agents) w = observe_probe_review_status from_str now agents w"

definition initial_widget :: "chat_widget \<Rightarrow> bool" where
  "initial_widget w \<longleftrightarrow>
     probe_review_turn w = default_turn \<and> probe_review_run w = None \<and>
     probe_review_permission w = None \<and> next_probe_review_permission_id w = 1 \<and>
     processed_probe_review_agents w = no_agents \<and> out w = []"

inductive reachable_widget :: "json_parser \<Rightarrow> chat_widget \<Rightarrow> bool" for from_str where
  initially: "initial_widget w \<Longrightarrow> reachable_widget from_str w"
| step: "reachable_widget from_str w \<Longrightarrow> reachable_widget from_str (probe_step from_str i w)"

section \<open>Reading the log\<close>

fun launch_of :: "widget_effect \<Rightarrow> rstr option" where
  "launch_of (LaunchProbe p) = Some p"
| "launch_of _ = None"

fun request_of :: "widget_effect \<Rightarrow> u64 option" where
  "request_of (PushApprovalRequest rid _ _ _) = Some rid"
| "request_of _ = None"

fun developer_input_of :: "widget_effect \<Rightarrow> rstr option" where
  "developer_input_of (AddPostTurnDeveloperInput t) = Some t"
| "developer_input_of _ = None"

definition launches :: "chat_widget \<Rightarrow> rstr list" where
  "launches w = List.map_filter launch_of (out w)"

definition requests :: "chat_widget \<Rightarrow> u64 list" where
  "requests w = List.map_filter request_of (out w)"

definition developer_inputs :: "chat_widget \<Rightarrow> rstr list" where
  "developer_inputs w = List.map_filter developer_input_of (out w)"

lemmas log_defs = launches_def requests_def developer_inputs_def

text \<open>Only \<open>emit\<close> writes the log, and nothing else does.\<close>

lemma log_emit [simp]:
  "launches (emit e w) = launches w @ (case launch_of e of None \<Rightarrow> [] | Some p \<Rightarrow> [p])"
  "requests (emit e w) = requests w @ (case request_of e of None \<Rightarrow> [] | Some r \<Rightarrow> [r])"
  "developer_inputs (emit e w) =
     developer_inputs w @ (case developer_input_of e of None \<Rightarrow> [] | Some t \<Rightarrow> [t])"
  by (simp_all add: log_defs emit_def)

lemma log_frame [simp]:
  "launches (w\<lparr>probe_review_turn := t\<rparr>) = launches w"
  "launches (w\<lparr>probe_review_run := r\<rparr>) = launches w"
  "launches (w\<lparr>probe_review_permission := p\<rparr>) = launches w"
  "launches (w\<lparr>next_probe_review_permission_id := n\<rparr>) = launches w"
  "launches (w\<lparr>processed_probe_review_agents := c\<rparr>) = launches w"
  "launches (w\<lparr>widget_review_status := s\<rparr>) = launches w"
  "launches (w\<lparr>last_developer_message := m\<rparr>) = launches w"
  "requests (w\<lparr>probe_review_turn := t\<rparr>) = requests w"
  "requests (w\<lparr>probe_review_run := r\<rparr>) = requests w"
  "requests (w\<lparr>probe_review_permission := p\<rparr>) = requests w"
  "requests (w\<lparr>next_probe_review_permission_id := n\<rparr>) = requests w"
  "requests (w\<lparr>processed_probe_review_agents := c\<rparr>) = requests w"
  "requests (w\<lparr>widget_review_status := s\<rparr>) = requests w"
  "requests (w\<lparr>last_developer_message := m\<rparr>) = requests w"
  "developer_inputs (w\<lparr>probe_review_turn := t\<rparr>) = developer_inputs w"
  "developer_inputs (w\<lparr>probe_review_run := r\<rparr>) = developer_inputs w"
  "developer_inputs (w\<lparr>probe_review_permission := p\<rparr>) = developer_inputs w"
  "developer_inputs (w\<lparr>processed_probe_review_agents := c\<rparr>) = developer_inputs w"
  "developer_inputs (w\<lparr>widget_review_status := s\<rparr>) = developer_inputs w"
  "developer_inputs (w\<lparr>last_developer_message := m\<rparr>) = developer_inputs w"
  by (simp_all add: log_defs)

lemma emit_frame [simp]:
  "probe_config (emit e w) = probe_config w"
  "probe_review_turn (emit e w) = probe_review_turn w"
  "probe_review_run (emit e w) = probe_review_run w"
  "probe_review_permission (emit e w) = probe_review_permission w"
  "next_probe_review_permission_id (emit e w) = next_probe_review_permission_id w"
  "processed_probe_review_agents (emit e w) = processed_probe_review_agents w"
  "widget_review_status (emit e w) = widget_review_status w"
  by (simp_all add: emit_def)

lemma indicator_frame [simp]:
  "probe_config (set_probe_review_indicator s f w) = probe_config w"
  "probe_review_run (set_probe_review_indicator s f w) = probe_review_run w"
  "probe_review_permission (set_probe_review_indicator s f w) = probe_review_permission w"
  "next_probe_review_permission_id (set_probe_review_indicator s f w) =
     next_probe_review_permission_id w"
  "processed_probe_review_agents (set_probe_review_indicator s f w) =
     processed_probe_review_agents w"
  "launches (set_probe_review_indicator s f w) = launches w"
  "requests (set_probe_review_indicator s f w) = requests w"
  "developer_inputs (set_probe_review_indicator s f w) = developer_inputs w"
  by (simp_all add: set_probe_review_indicator_def Let_def)

lemma clear_indicator_frame [simp]:
  "probe_review_permission (clear_probe_review_indicator w) = probe_review_permission w"
  "next_probe_review_permission_id (clear_probe_review_indicator w) =
     next_probe_review_permission_id w"
  "processed_probe_review_agents (clear_probe_review_indicator w) = processed_probe_review_agents w"
  "launches (clear_probe_review_indicator w) = launches w"
  "requests (clear_probe_review_indicator w) = requests w"
  by (simp_all add: clear_probe_review_indicator_def split: option.split)

lemma handle_result_frame [simp]:
  "probe_review_permission (handle_probe_review_result r w) = probe_review_permission w"
  "next_probe_review_permission_id (handle_probe_review_result r w) =
     next_probe_review_permission_id w"
  "processed_probe_review_agents (handle_probe_review_result r w) = processed_probe_review_agents w"
  "launches (handle_probe_review_result r w) = launches w"
  "requests (handle_probe_review_result r w) = requests w"
  by (simp_all add: handle_probe_review_result_def Let_def split: option.split)

lemma finish_frame [simp]:
  "probe_review_permission (finish_probe_agent f a w) = probe_review_permission w"
  "next_probe_review_permission_id (finish_probe_agent f a w) = next_probe_review_permission_id w"
  "processed_probe_review_agents (finish_probe_agent f a w) = processed_probe_review_agents w"
  "launches (finish_probe_agent f a w) = launches w"
  "requests (finish_probe_agent f a w) = requests w"
  by (simp_all add: finish_probe_agent_def probe_failed_def Let_def split: option.split sum.split)

lemma mark_seen_frame [simp]:
  "probe_review_permission (mark_probe_run_seen now a w) = probe_review_permission w"
  "next_probe_review_permission_id (mark_probe_run_seen now a w) = next_probe_review_permission_id w"
  "processed_probe_review_agents (mark_probe_run_seen now a w) = processed_probe_review_agents w"
  "out (mark_probe_run_seen now a w) = out w"
  "launches (mark_probe_run_seen now a w) = launches w"
  "requests (mark_probe_run_seen now a w) = requests w"
  by (simp_all add: mark_probe_run_seen_def log_defs split: option.split)

lemma observe_frame [simp]:
  "probe_review_permission (observe_probe_agent f now a w) = probe_review_permission w"
  "next_probe_review_permission_id (observe_probe_agent f now a w) = next_probe_review_permission_id w"
  "launches (observe_probe_agent f now a w) = launches w"
  "requests (observe_probe_agent f now a w) = requests w"
  by (simp_all add: observe_probe_agent_def Let_def)

lemma observe_all_frame [simp]:
  "probe_review_permission (observe_probe_review_status f now as w) = probe_review_permission w"
  "next_probe_review_permission_id (observe_probe_review_status f now as w) =
     next_probe_review_permission_id w"
  "launches (observe_probe_review_status f now as w) = launches w"
  "requests (observe_probe_review_status f now as w) = requests w"
  by (induction as arbitrary: w) simp_all

section \<open>Permissions\<close>

text \<open>
  The invariant of the permission protocol: request ids are numbered from 1 without gaps (and
  stay at the largest \<open>u64\<close> once it is reached), a pending permission belongs to the latest
  request, and every launch consumed a request of its own.
\<close>

definition permission_inv :: "chat_widget \<Rightarrow> bool" where
  "permission_inv w \<longleftrightarrow>
     unat (next_probe_review_permission_id w) = min (length (requests w) + 1) (2 ^ 64 - 1) \<and>
     (case probe_review_permission w of
        None \<Rightarrow> length (launches w) \<le> length (requests w)
      | Some pending \<Rightarrow>
          requests w \<noteq> [] \<and> perm_id pending = last (requests w) \<and>
          length (launches w) < length (requests w))"

lemma maybe_trigger_cases:
  obtains (quiet) r where "maybe_trigger_probe_review now w = w\<lparr>probe_review_run := r\<rparr>"
  | (asked) trigger prompt where "probe_review_permission w = None"
      and "maybe_trigger_probe_review now w =
        request_probe_review_permission prompt trigger (w\<lparr>probe_review_run := None\<rparr>)"
proof (cases "\<not> enabled (probe_config w) \<or> current_task_should_skip_auto_review w \<or>
    probe_review_permission w \<noteq> None \<or> run_is_fresh now w")
  case True
  then have "maybe_trigger_probe_review now w = w"
    unfolding maybe_trigger_probe_review_def by presburger
  then show thesis
    using quiet [of "probe_review_run w"] by simp
next
  case False
  let ?w1 = "w\<lparr>probe_review_run := None\<rparr>"
  show thesis
  proof (cases "detect_probe_trigger (probe_review_turn w)")
    case None
    with False have "maybe_trigger_probe_review now w = ?w1"
      by (simp add: maybe_trigger_probe_review_def)
    then show thesis by (rule quiet)
  next
    case (Some trigger)
    show thesis
    proof (cases "gate_blocks ?w1 trigger")
      case True
      with False Some have "maybe_trigger_probe_review now w = ?w1"
        by (simp add: maybe_trigger_probe_review_def)
      then show thesis by (rule quiet)
    next
      case gate: False
      show thesis
        by (rule asked) (use False Some gate in \<open>simp_all add: maybe_trigger_probe_review_def Let_def\<close>)
    qed
  qed
qed

lemma permission_inv_frame [simp]:
  "permission_inv (w\<lparr>probe_review_turn := t\<rparr>) = permission_inv w"
  "permission_inv (w\<lparr>probe_review_run := r\<rparr>) = permission_inv w"
  by (simp_all add: permission_inv_def split: option.split)

lemma permission_inv_request:
  assumes "permission_inv w" and "probe_review_permission w = None"
  shows "permission_inv (request_probe_review_permission prompt trigger w)"
  using assms
  by (simp add: permission_inv_def request_probe_review_permission_def Let_def
      unat_saturating_add)

lemma permission_inv_decision:
  assumes "permission_inv w"
  shows "permission_inv (handle_probe_review_approval_decision now rid approved w)"
  using assms
  by (simp add: permission_inv_def handle_probe_review_approval_decision_def launch_probe_review_def
      Let_def split: option.splits)

lemma permission_inv_cancel:
  assumes "permission_inv w"
  shows "permission_inv (cancel_pending_probe_review_permission m w)"
  using assms
  by (simp add: permission_inv_def cancel_pending_probe_review_permission_def split: option.splits)

lemma permission_inv_observe:
  "permission_inv (observe_probe_review_status f now as w) = permission_inv w"
  by (simp add: permission_inv_def split: option.split)

lemma permission_inv_step:
  assumes "permission_inv w"
  shows "permission_inv (probe_step f i w)"
proof (cases i)
  case (TurnCompleted now)
  show ?thesis
    unfolding TurnCompleted probe_step.simps
    by (rule maybe_trigger_cases [of now w])
      (use assms in \<open>simp_all add: permission_inv_request\<close>)
qed (use assms in \<open>simp_all add: probe_task_started_def Let_def permission_inv_cancel
  permission_inv_decision permission_inv_observe\<close>)

lemma permission_inv_reachable: "reachable_widget f w \<Longrightarrow> permission_inv w"
proof (induction rule: reachable_widget.induct)
  case (initially w)
  then show ?case by (simp add: permission_inv_def initial_widget_def log_defs List.map_filter_def)
qed (rule permission_inv_step)

lemma launches_trigger [simp]: "launches (maybe_trigger_probe_review now w) = launches w"
  by (rule maybe_trigger_cases [of now w])
    (simp_all add: request_probe_review_permission_def Let_def)

lemma launches_cancel [simp]: "launches (cancel_pending_probe_review_permission m w) = launches w"
  by (simp add: cancel_pending_probe_review_permission_def split: option.split)

lemma launches_decision:
  "launches (handle_probe_review_approval_decision now rid approved w) =
     launches w @ (case probe_review_permission w of
        None \<Rightarrow> []
      | Some pending \<Rightarrow> if perm_id pending = rid \<and> approved then [perm_prompt pending] else [])"
  by (simp add: handle_probe_review_approval_decision_def launch_probe_review_def Let_def
      split: option.split)

section \<open>The processed-agent cache\<close>

definition is_terminal :: "agent_info \<Rightarrow> bool" where
  "is_terminal agent \<longleftrightarrow>
     agent_status_from_str (agent_status_text agent) \<notin> {PendingAgent, RunningAgent}"

definition finished_ids :: "agent_info list \<Rightarrow> rstr list" where
  "finished_ids agents = map agent_id (filter (\<lambda>a. is_probe_review_agent a \<and> is_terminal a) agents)"

fun reported_agents :: "probe_input list \<Rightarrow> agent_info list" where
  "reported_agents [] = []"
| "reported_agents (AgentUpdate now agents # is) = agents @ reported_agents is"
| "reported_agents (_ # is) = reported_agents is"

lemma remember_seen: "a \<in> agent_set c \<Longrightarrow> remember_processed_probe_review_agent a c = c"
  by (simp add: remember_processed_probe_review_agent_def)

lemma cache_observe_agent:
  "processed_probe_review_agents (observe_probe_agent f now a w) =
     fold remember_processed_probe_review_agent (finished_ids [a]) (processed_probe_review_agents w)"
  by (simp add: observe_probe_agent_def Let_def finished_ids_def is_terminal_def remember_seen)

lemma finished_ids_append: "finished_ids (as @ bs) = finished_ids as @ finished_ids bs"
  by (simp add: finished_ids_def)

lemma cache_observe_all:
  "processed_probe_review_agents (observe_probe_review_status f now as w) =
     fold remember_processed_probe_review_agent (finished_ids as) (processed_probe_review_agents w)"
proof (induction as arbitrary: w)
  case Nil
  then show ?case by (simp add: finished_ids_def)
next
  case (Cons a as)
  then show ?case
    using finished_ids_append [of "[a]" as] by (simp add: cache_observe_agent)
qed

lemma cache_other_steps [simp]:
  "processed_probe_review_agents (maybe_trigger_probe_review now w) = processed_probe_review_agents w"
  "processed_probe_review_agents (cancel_pending_probe_review_permission m w) =
     processed_probe_review_agents w"
  "processed_probe_review_agents (handle_probe_review_approval_decision now rid ok w) =
     processed_probe_review_agents w"
    apply (rule maybe_trigger_cases [of now w])
     apply (simp_all add: request_probe_review_permission_def Let_def
      cancel_pending_probe_review_permission_def handle_probe_review_approval_decision_def
      launch_probe_review_def split: option.split)
  done

lemma cache_step:
  "processed_probe_review_agents (probe_step f i w) =
     fold remember_processed_probe_review_agent (finished_ids (reported_agents [i]))
       (processed_probe_review_agents w)"
  by (cases i) (simp_all add: cache_observe_all probe_task_started_def Let_def finished_ids_def)

lemma cache_steps:
  "processed_probe_review_agents (fold (probe_step f) is w) =
     fold remember_processed_probe_review_agent (finished_ids (reported_agents is))
       (processed_probe_review_agents w)"
proof (induction "is" arbitrary: w)
  case Nil
  then show ?case by (simp add: finished_ids_def)
next
  case (Cons i "is")
  have "reported_agents (i # is) = reported_agents [i] @ reported_agents is"
    by (cases i) simp_all
  with Cons show ?case
    by (simp add: cache_step finished_ids_append)
qed

lemma cache_ok_reachable:
  "reachable_widget f w \<Longrightarrow>
    cache_ok MAX_PROCESSED_PROBE_REVIEW_AGENTS (processed_probe_review_agents w)"
proof (induction rule: reachable_widget.induct)
  case (initially w)
  then show ?case by (simp add: initial_widget_def no_agents_def cache_ok_def)
next
  case (step w i)
  then show ?case
    by (simp add: cache_step probe_cache.inv_fold)
qed

lemma truncate_with_ellipsis_len: "length (truncate_with_ellipsis s n) \<le> n"
  by (simp add: truncate_with_ellipsis_def)

lemma truncated_note_not_blank:
  assumes "trim s \<noteq> []" and "0 < n"
  shows "trim (truncate_with_ellipsis (trim s) n) \<noteq> []"
proof (cases "length (trim s) \<le> n")
  case True
  with assms show ?thesis
    by (simp add: truncate_with_ellipsis_def)
next
  case False
  with assms show ?thesis
    by (simp add: truncate_with_ellipsis_def trim_eq_Nil_iff is_whitespace_def)
qed

text \<open>A widget at start-up with the default configuration, and a finished probe agent.\<close>

definition fresh_widget :: chat_widget where
  "fresh_widget =
     \<lparr>probe_config = default_probe_review_config, config_cwd = lit ''/w'',
      task_visible_to_user = None, current_turn_origin = None, probe_review_turn = default_turn,
      probe_review_run = None, probe_review_permission = None, next_probe_review_permission_id = 1,
      processed_probe_review_agents = no_agents, widget_review_status = None,
      last_developer_message = None, out = []\<rparr>"

definition finished_agent :: agent_info where
  "finished_agent =
     \<lparr>agent_id = lit ''a1'', agent_status_text = lit ''completed'', batch_id = Some (lit ''probe-review''),
      agent_result = Some (lit ''{}''), agent_error = None, source_kind = None\<rparr>"

lemma fresh_widget_initial: "initial_widget fresh_widget"
  by (simp add: initial_widget_def fresh_widget_def)

section \<open>Properties\<close>

text \<open>
  (C6) Safety of the permission protocol: in every reachable state, a step launches a probe only
  when the user approves, by its id, the request that is pending. That request is the latest one
  shown, the launched prompt is the one it was shown for, the permission is used up, and there
  were fewer launches than requests, so no request is launched twice and a stale, repeated or
  unsolicited decision launches nothing.
\<close>

theorem probe_launch_needs_approval:
  assumes "reachable_widget from_str w"
    and "launches (probe_step from_str i w) \<noteq> launches w"
  shows "\<exists>now pending. i = Decision now (perm_id pending) True \<and>
      probe_review_permission w = Some pending \<and>
      requests w \<noteq> [] \<and> perm_id pending = last (requests w) \<and>
      launches (probe_step from_str i w) = launches w @ [perm_prompt pending] \<and>
      probe_review_permission (probe_step from_str i w) = None \<and>
      length (launches w) < length (requests w)"
proof -
  obtain now rid approved where i: "i = Decision now rid approved"
    using assms(2) by (cases i) (simp_all add: probe_task_started_def Let_def)
  then obtain pending where p: "probe_review_permission w = Some pending" "perm_id pending = rid"
      "approved"
    using assms(2) by (auto simp: launches_decision split: option.splits if_splits)
  moreover have "permission_inv w"
    using assms(1) by (rule permission_inv_reachable)
  moreover have "probe_review_permission (probe_step from_str i w) = None"
    using p i by (simp add: handle_probe_review_approval_decision_def launch_probe_review_def)
  ultimately show ?thesis
    using i by (auto simp: permission_inv_def launches_decision)
qed

theorem probe_launch_needs_approval_witness:
  "let f = (\<lambda>_. Inl \<lparr>je_line = 1, je_column = 1, je_display = []\<rparr>);
       w = probe_step f (TurnCompleted 3)
             (probe_step f (Recorded (FinalAnswer (lit ''probe this''))) fresh_widget);
       i = Decision 4 1 True
   in \<exists>now pending. i = Decision now (perm_id pending) True \<and>
      probe_review_permission w = Some pending \<and>
      requests w \<noteq> [] \<and> perm_id pending = last (requests w) \<and>
      launches (probe_step f i w) = launches w @ [perm_prompt pending] \<and>
      probe_review_permission (probe_step f i w) = None \<and>
      length (launches w) < length (requests w)"
  unfolding Let_def
proof (rule probe_launch_needs_approval)
  let ?f = "\<lambda>_. Inl \<lparr>je_line = 1, je_column = 1, je_display = []\<rparr> :: json_error + probe_review_result"
  let ?e = "Recorded (FinalAnswer (lit ''probe this''))"
  let ?w = "probe_step ?f (TurnCompleted 3) (probe_step ?f ?e fresh_widget)"
  show "reachable_widget ?f ?w"
    by (intro reachable_widget.step reachable_widget.initially fresh_widget_initial)
  have "map_option perm_id (probe_review_permission ?w) = Some 1"
    by (simp add: maybe_trigger_probe_review_def fresh_widget_def default_probe_review_config_def
        current_task_should_skip_auto_review_def current_task_output_is_hidden_def run_is_fresh_def
        record_final_answer_def default_turn_def detect_probe_trigger_def gate_blocks_def
        request_probe_review_permission_def emit_def contains_any_def force_phrases_def
        security_terms_def security_closure_terms_def debugging_claims_def general_claims_def
        Let_def str_eval)
  then show "launches (probe_step ?f (Decision 4 1 True) ?w) \<noteq> launches ?w"
    by (auto simp: launches_decision)
qed

text \<open>
  (C33) A finished probe is handled once. After the update that handles the final status of a
  probe agent (with an id that is not blank and was not yet known), any sequence of further
  inputs that reports fewer than 512 agents leaves the agent known: reporting it again, with any
  result, writes nothing to the history, the footer or the session.
\<close>

theorem probe_agent_handled_once:
  assumes "reachable_widget from_str w"
    and "is_probe_review_agent agent" and "is_terminal agent" and "trim (agent_id agent) \<noteq> []"
    and "agent_id agent \<notin> agent_set (processed_probe_review_agents w)"
    and "length (reported_agents inputs) < MAX_PROCESSED_PROBE_REVIEW_AGENTS"
    and "is_probe_review_agent again" and "is_terminal again" and "agent_id again = agent_id agent"
    and "w' = fold (probe_step from_str) inputs (probe_step from_str (AgentUpdate t [agent]) w)"
  shows "out (probe_step from_str (AgentUpdate t' [again]) w') = out w'"
proof -
  let ?c = "processed_probe_review_agents w"
  let ?later = "finished_ids (reported_agents inputs)"
  have "length ?later < MAX_PROCESSED_PROBE_REVIEW_AGENTS"
    using assms(6) unfolding finished_ids_def
    by (metis (no_types, lifting) le_less_trans length_filter_le length_map)
  then have "agent_id agent \<in> agent_set (fold remember_processed_probe_review_agent ?later
      (remember_processed_probe_review_agent (agent_id agent) ?c))"
    using assms(1,4,5) by (intro probe_cache.seen_within_window cache_ok_reachable)
  moreover have "finished_ids (reported_agents [AgentUpdate t [agent]]) = [agent_id agent]"
    using assms(2,3) by (simp add: finished_ids_def)
  ultimately have "agent_id again \<in> agent_set (processed_probe_review_agents w')"
    using assms(9) unfolding assms(10) cache_steps cache_step by simp
  with assms(7,8) show ?thesis
    by (simp add: observe_probe_agent_def Let_def is_terminal_def)
qed

theorem probe_agent_handled_once_witness:
  "let f = (\<lambda>_. Inl \<lparr>je_line = 1, je_column = 1, je_display = []\<rparr>);
       w' = probe_step f TaskStarted (probe_step f (AgentUpdate 5 [finished_agent]) fresh_widget)
   in out (probe_step f (AgentUpdate 9 [finished_agent\<lparr>agent_result := None\<rparr>]) w') = out w'"
  unfolding Let_def
  by (rule probe_agent_handled_once [where w = fresh_widget and agent = finished_agent
        and inputs = "[TaskStarted]" and t = 5, OF reachable_widget.initially [OF fresh_widget_initial]])
    (simp_all add: finished_agent_def
      is_probe_review_agent_def is_terminal_def agent_status_from_str_def fresh_widget_def
      no_agents_def MAX_PROCESSED_PROBE_REVIEW_AGENTS_def str_eval)

text \<open>
  What a result does to the session. With \<open>auto_resolve\<close> off, or when the probe requires no
  resolution, no developer input is added. Otherwise exactly one is added: the developer note for
  the result, trimmed and cut to 2400 characters with an ellipsis; it is never blank, so a
  required resolution is never lost. The footer shows the outcome in each case.
\<close>

theorem probe_result_reaches_session:
  "\<exists>notes. developer_inputs (handle_probe_review_result r w) = developer_inputs w @ notes \<and>
     (if auto_resolve (probe_config w) \<and> res_resolution_required r
      then \<exists>i. post_turn_resolution_instruction r = Some i \<and>
             notes = [truncate_with_ellipsis (trim (probe_resolution_developer_note r i))
                        MAX_PENDING_AUTO_REVIEW_NOTE_CHARS] \<and>
             trim (hd notes) \<noteq> [] \<and> length (hd notes) \<le> MAX_PENDING_AUTO_REVIEW_NOTE_CHARS
      else notes = []) \<and>
     map_option ars_status (widget_review_status (handle_probe_review_result r w)) =
       Some (if res_resolution_required r then Fixed else Clean)"
proof -
  have status: "map_option ars_status (widget_review_status (handle_probe_review_result r w)) =
      Some (if res_resolution_required r then Fixed else Clean)"
    by (simp add: handle_probe_review_result_def set_probe_review_indicator_def Let_def
        split: option.split)
  show ?thesis
  proof (cases "auto_resolve (probe_config w) \<and> res_resolution_required r")
    case True
    then obtain i where i: "post_turn_resolution_instruction r = Some i"
      using post_turn_resolution_instruction_None_iff [of r] by auto
    let ?note = "truncate_with_ellipsis (trim (probe_resolution_developer_note r i))
      MAX_PENDING_AUTO_REVIEW_NOTE_CHARS"
    have "trim ?note \<noteq> []" "length ?note \<le> MAX_PENDING_AUTO_REVIEW_NOTE_CHARS"
      by (simp_all add: truncated_note_not_blank developer_note_not_blank truncate_with_ellipsis_len
          MAX_PENDING_AUTO_REVIEW_NOTE_CHARS_def)
    with True i status show ?thesis
      by (intro exI [of _ "[?note]"]) (simp add: handle_probe_review_result_def Let_def)
  next
    case False
    then have "post_turn_resolution_instruction r = None \<or> \<not> auto_resolve (probe_config w)"
      using post_turn_resolution_instruction_None_iff [of r] by auto
    then have "developer_inputs (handle_probe_review_result r w) = developer_inputs w"
      by (auto simp: handle_probe_review_result_def Let_def split: option.split)
    with False status show ?thesis by auto
  qed
qed

end
