(* ===== verification/Review_Lock.thy ===== *)
theory Review_Lock
  imports Rust_Prelude
begin

text \<open>
  Review coordination between processes, \<open>code-rs/core/src/review_coord.rs\<close>: a lock file per
  repository that is created exclusively and removed when its guard is dropped, the clearing of
  a lock whose process died, and the snapshot epoch counter.

  The file system is a map from paths (lists of components) to texts. Everything the code takes
  from its surroundings is a field of \<open>review_env\<close>: the process id, the clock, the answer of
  \<open>kill(pid, 0)\<close>, the output of git, \<open>crc32fast\<close>, \<open>serde_json\<close>, and which file operations fail.
  Every operation takes the environment of the call as an argument, so each call may meet other
  faults. The locale \<open>guard_lock\<close> states what the users of the lock rely on.
\<close>

section \<open>Data\<close>

type_synonym file_path = "rstr list"
type_synonym files = "file_path \<rightharpoonup> rstr"

datatype io_error = AlreadyExists | OtherIoError

record review_lock_info =
  info_pid :: u32
  info_started_at :: u64
  info_intent :: rstr
  info_git_head :: "rstr option"
  info_snapshot_epoch :: u64

record review_guard =
  guard_lock_path :: file_path

record review_env =
  find_code_home :: "io_error + file_path"
  canonicalize :: "rstr \<Rightarrow> rstr option"
  crc32_hash :: "rstr \<Rightarrow> u32"
  to_json :: "review_lock_info \<Rightarrow> rstr"
  from_json :: "rstr \<Rightarrow> review_lock_info option"
  process_id :: u32
  kill_0 :: "u32 \<Rightarrow> nat option"
  unix_time :: u64
  git_head_output :: "rstr option"
  git_toplevel_output :: "rstr option"
  current_dir :: "rstr option"
  create_dir_fails :: bool
  open_fails :: bool
  read_fails :: bool
  write_stops_at :: "nat option"
  remove_fails :: bool

section \<open>Paths\<close>

definition LOCK_FILENAME :: rstr where
  "LOCK_FILENAME = lit ''review.lock''"

definition EPOCH_FILENAME :: rstr where
  "EPOCH_FILENAME = lit ''snapshot.epoch''"

text \<open>\<open>format!("{key:08x}")\<close>: eight lower-case hexadecimal digits.\<close>

definition hex_digit :: "nat \<Rightarrow> rchar" where
  "hex_digit d = (if d < 10 then 48 + d else 87 + d)"

definition hex08 :: "u32 \<Rightarrow> rstr" where
  "hex08 key = map (\<lambda>i. hex_digit (unat key div 16 ^ i mod 16)) (rev [0..<8])"

definition create_dir_all :: "review_env \<Rightarrow> file_path \<Rightarrow> io_error + file_path" where
  "create_dir_all env dir = (if create_dir_fails env then Inl OtherIoError else Inr dir)"

definition state_dir :: "review_env \<Rightarrow> io_error + file_path" where
  "state_dir env =
     and_then (find_code_home env) (\<lambda>home.
       create_dir_all env (home @ [lit ''state'', lit ''review'']))"

definition scope_key :: "review_env \<Rightarrow> rstr \<Rightarrow> u32" where
  "scope_key env scope =
     crc32_hash env (case canonicalize env scope of Some s \<Rightarrow> s | None \<Rightarrow> scope)"

definition scoped_dir :: "review_env \<Rightarrow> rstr option \<Rightarrow> io_error + file_path" where
  "scoped_dir env scope =
     and_then (state_dir env) (\<lambda>dir.
       case scope of
         None \<Rightarrow> Inr dir
       | Some s \<Rightarrow> create_dir_all env (dir @ [lit ''repo-'' @ hex08 (scope_key env s)]))"

definition epoch_path :: "review_env \<Rightarrow> rstr option \<Rightarrow> io_error + file_path" where
  "epoch_path env scope = and_then (scoped_dir env scope) (\<lambda>dir. Inr (dir @ [EPOCH_FILENAME]))"

definition lock_path :: "review_env \<Rightarrow> rstr option \<Rightarrow> io_error + file_path" where
  "lock_path env scope = and_then (scoped_dir env scope) (\<lambda>dir. Inr (dir @ [LOCK_FILENAME]))"

section \<open>File operations of the standard library\<close>

definition written :: "review_env \<Rightarrow> rstr \<Rightarrow> rstr" where
  "written env body = (case write_stops_at env of None \<Rightarrow> body | Some k \<Rightarrow> take k body)"

definition open_create_new :: "review_env \<Rightarrow> file_path \<Rightarrow> files \<Rightarrow> io_error + files" where
  "open_create_new env p fs =
     (if p \<in> dom fs then Inl AlreadyExists
      else if open_fails env then Inl OtherIoError else Inr (fs(p \<mapsto> [])))"

definition read_to_string :: "review_env \<Rightarrow> file_path \<Rightarrow> files \<Rightarrow> rstr option" where
  "read_to_string env p fs = (if read_fails env then None else fs p)"

definition fs_write :: "review_env \<Rightarrow> file_path \<Rightarrow> rstr \<Rightarrow> files \<Rightarrow> files" where
  "fs_write env p body fs = (if open_fails env then fs else fs(p \<mapsto> written env body))"

definition remove_file :: "review_env \<Rightarrow> file_path \<Rightarrow> files \<Rightarrow> files" where
  "remove_file env p fs = (if remove_fails env then fs else fs(p := None))"

section \<open>Snapshot epoch\<close>

definition read_epoch :: "review_env \<Rightarrow> rstr option \<Rightarrow> files \<Rightarrow> u64" where
  "read_epoch env scope fs =
     (case epoch_path env scope of
        Inl _ \<Rightarrow> 0
      | Inr p \<Rightarrow>
         (case read_to_string env p fs of
            None \<Rightarrow> 0
          | Some content \<Rightarrow>
             (case parse_u64 (trim content) of None \<Rightarrow> 0 | Some v \<Rightarrow> of_nat v)))"

definition write_epoch :: "review_env \<Rightarrow> rstr option \<Rightarrow> u64 \<Rightarrow> files \<Rightarrow> files" where
  "write_epoch env scope val fs =
     (case epoch_path env scope of
        Inl _ \<Rightarrow> fs
      | Inr p \<Rightarrow> fs_write env p (show_nat (unat val)) fs)"

definition scope_from_current_dir :: "review_env \<Rightarrow> rstr option" where
  "scope_from_current_dir env =
     (case current_dir env of
        None \<Rightarrow> None
      | Some cwd \<Rightarrow>
         (case git_toplevel_output env of
            Some stdout \<Rightarrow> if trim stdout \<noteq> [] then Some (trim stdout) else Some cwd
          | None \<Rightarrow> Some cwd))"

definition bump_snapshot_epoch_for :: "review_env \<Rightarrow> rstr \<Rightarrow> files \<Rightarrow> files" where
  "bump_snapshot_epoch_for env scope fs =
     write_epoch env (Some scope) (saturating_add (read_epoch env (Some scope) fs) 1) fs"

definition bump_snapshot_epoch :: "review_env \<Rightarrow> files \<Rightarrow> files" where
  "bump_snapshot_epoch env fs =
     (case scope_from_current_dir env of
        Some scope \<Rightarrow> bump_snapshot_epoch_for env scope fs
      | None \<Rightarrow> write_epoch env None (saturating_add (read_epoch env None fs) 1) fs)"

definition current_snapshot_epoch_for :: "review_env \<Rightarrow> rstr \<Rightarrow> files \<Rightarrow> u64" where
  "current_snapshot_epoch_for env scope fs = read_epoch env (Some scope) fs"

definition current_snapshot_epoch :: "review_env \<Rightarrow> files \<Rightarrow> u64" where
  "current_snapshot_epoch env fs =
     (case scope_from_current_dir env of
        Some scope \<Rightarrow> current_snapshot_epoch_for env scope fs
      | None \<Rightarrow> read_epoch env None fs)"

section \<open>The lock\<close>

definition git_head :: "review_env \<Rightarrow> rstr option" where
  "git_head env = map_option trim (git_head_output env)"

definition try_acquire_lock ::
    "review_env \<Rightarrow> rstr \<Rightarrow> rstr \<Rightarrow> files \<Rightarrow> (io_error + review_guard option) \<times> files" where
  "try_acquire_lock env intent cwd fs =
     (case lock_path env (Some cwd) of
        Inl err \<Rightarrow> (Inl err, fs)
      | Inr p \<Rightarrow>
         (case open_create_new env p fs of
            Inr fs1 \<Rightarrow>
             (let info = \<lparr>info_pid = process_id env, info_started_at = unix_time env,
                          info_intent = intent, info_git_head = git_head env,
                          info_snapshot_epoch = current_snapshot_epoch_for env cwd fs1\<rparr>
              in (Inr (Some \<lparr>guard_lock_path = p\<rparr>), fs1(p \<mapsto> written env (to_json env info))))
          | Inl AlreadyExists \<Rightarrow> (Inr None, fs)
          | Inl err \<Rightarrow> (Inl err, fs)))"

definition read_lock_info :: "review_env \<Rightarrow> rstr option \<Rightarrow> files \<Rightarrow> review_lock_info option" where
  "read_lock_info env scope fs =
     (case lock_path env scope of
        Inl _ \<Rightarrow> None
      | Inr p \<Rightarrow>
         (case read_to_string env p fs of None \<Rightarrow> None | Some buf \<Rightarrow> from_json env buf))"

definition ESRCH :: nat where
  "ESRCH = 3"

definition pid_alive :: "review_env \<Rightarrow> u32 \<Rightarrow> bool" where
  "pid_alive env pid = (case kill_0 env pid of None \<Rightarrow> True | Some errno \<Rightarrow> errno \<noteq> ESRCH)"

text \<open>
  \<open>clear_stale_lock_if_dead\<close> first reads the lock and asks for the process, then removes the file
  by its path. The two halves are separate definitions because nothing makes them atomic.
\<close>

definition stale_lock_is_dead :: "review_env \<Rightarrow> rstr option \<Rightarrow> files \<Rightarrow> bool" where
  "stale_lock_is_dead env scope fs =
     (case read_lock_info env scope fs of None \<Rightarrow> False | Some info \<Rightarrow> \<not> pid_alive env (info_pid info))"

definition remove_stale_lock :: "review_env \<Rightarrow> rstr option \<Rightarrow> files \<Rightarrow> bool \<times> files" where
  "remove_stale_lock env scope fs =
     (case lock_path env scope of Inr p \<Rightarrow> (True, remove_file env p fs) | Inl _ \<Rightarrow> (False, fs))"

definition clear_stale_lock_if_dead :: "review_env \<Rightarrow> rstr option \<Rightarrow> files \<Rightarrow> bool \<times> files" where
  "clear_stale_lock_if_dead env scope fs =
     (if stale_lock_is_dead env scope fs then remove_stale_lock env scope fs else (False, fs))"

definition drop_guard :: "review_env \<Rightarrow> review_guard \<Rightarrow> files \<Rightarrow> files" where
  "drop_guard env g fs = remove_file env (guard_lock_path g) fs"

text \<open>\<open>try_acquire_lock(..).ok().flatten()\<close>, the form in which the callers use it.\<close>

definition acquire_guard ::
    "review_env \<Rightarrow> rstr \<Rightarrow> rstr \<Rightarrow> files \<Rightarrow> review_guard option \<times> files" where
  "acquire_guard env intent cwd fs =
     (case try_acquire_lock env intent cwd fs of
        (Inr g, fs1) \<Rightarrow> (g, fs1) | (Inl _, fs1) \<Rightarrow> (None, fs1))"

section \<open>The contract\<close>

text \<open>
  \<open>exclusive\<close>: every guard a client holds is owned by the client's process, and no two clients
  hold the same guard.
\<close>

definition exclusive ::
    "('w \<Rightarrow> 'p \<Rightarrow> 'g \<Rightarrow> bool) \<Rightarrow> ('c \<Rightarrow> 'p) \<Rightarrow> ('c \<Rightarrow> 'g option) \<Rightarrow> 'w \<Rightarrow> bool" where
  "exclusive owns process hold w \<longleftrightarrow>
     (\<forall>c g. hold c = Some g \<longrightarrow> owns w (process c) g) \<and>
     (\<forall>c d g. hold c = Some g \<longrightarrow> hold d = Some g \<longrightarrow> c = d)"

text \<open>
  The laws are those of calls that nothing interrupts. For \<open>clear\<close> that is a simplification, which the
  step relation below does not make.
\<close>

locale guard_lock =
  fixes acquire :: "'e \<Rightarrow> 'i \<Rightarrow> 's \<Rightarrow> 'w \<Rightarrow> 'g option \<times> 'w"
    and release :: "'e \<Rightarrow> 'g \<Rightarrow> 'w \<Rightarrow> 'w"
    and clear :: "'e \<Rightarrow> 's option \<Rightarrow> 'w \<Rightarrow> 'w"
    and bump :: "'e \<Rightarrow> 'w \<Rightarrow> 'w"
    and caller :: "'e \<Rightarrow> 'p"
    and alive :: "'e \<Rightarrow> 'p \<Rightarrow> bool"
    and ok :: "'e \<Rightarrow> bool"
    and owns :: "'w \<Rightarrow> 'p \<Rightarrow> 'g \<Rightarrow> bool"
  assumes acquire_free: "acquire e i s w = (Some g, w') \<Longrightarrow> \<not> owns w q g"
    and acquire_owns: "ok e \<Longrightarrow> acquire e i s w = (Some g, w') \<Longrightarrow> owns w' (caller e) g"
    and acquire_keeps: "owns w q h \<Longrightarrow> owns (snd (acquire e i s w)) q h"
    and release_keeps: "owns w q h \<Longrightarrow> h \<noteq> g \<Longrightarrow> owns (release e g w) q h"
    and clear_keeps: "ok e \<Longrightarrow> alive e q \<Longrightarrow> owns w q h \<Longrightarrow> owns (clear e s' w) q h"
    and bump_keeps: "owns w q h \<Longrightarrow> owns (bump e w) q h"
begin

lemma exclusive_attempt:
  "exclusive owns process hold w \<Longrightarrow> exclusive owns process hold (snd (acquire e i s w))"
  by (auto simp: exclusive_def acquire_keeps)

lemma exclusive_acquire:
  assumes "exclusive owns process hold w" and "ok e" and "caller e = process c"
    and "acquire e i s w = (Some g, w')"
  shows "exclusive owns process (hold(c := Some g)) w'"
proof -
  have "hold d \<noteq> Some g" for d
    using assms(1) acquire_free [OF assms(4)] by (auto simp: exclusive_def)
  moreover have "owns w' (process c) g"
    using acquire_owns [OF assms(2,4)] assms(3) by simp
  ultimately show ?thesis
    using assms(1) acquire_keeps [of w _ _ e i s] assms(4) by (auto simp: exclusive_def)
qed

lemma exclusive_drop:
  "exclusive owns process hold w \<Longrightarrow> exclusive owns process (hold(c := None)) w"
  by (auto simp: exclusive_def)

lemma exclusive_release:
  assumes "exclusive owns process hold w" and "hold c = Some g"
  shows "exclusive owns process (hold(c := None)) (release e g w)"
  using assms by (auto simp: exclusive_def intro!: release_keeps)

lemma exclusive_clear:
  assumes "exclusive owns process hold w" and "ok e" and "\<And>c g. hold c = Some g \<Longrightarrow> alive e (process c)"
  shows "exclusive owns process hold (clear e s' w)"
  using assms by (auto simp: exclusive_def intro!: clear_keeps)

lemma exclusive_bump:
  "exclusive owns process hold w \<Longrightarrow> exclusive owns process hold (bump e w)"
  by (auto simp: exclusive_def bump_keeps)

end

section \<open>The lock file satisfies it\<close>

text \<open>
  What is relied on of \<open>serde_json\<close>: a printed lock parses back to itself, and a text cut short
  by a failed write does not parse.
\<close>

definition codec_ok :: "(review_lock_info \<Rightarrow> rstr) \<Rightarrow> (rstr \<Rightarrow> review_lock_info option) \<Rightarrow> bool" where
  "codec_ok enc dec \<longleftrightarrow>
     (\<forall>i. dec (enc i) = Some i) \<and> (\<forall>i s. strict_prefix s (enc i) \<longrightarrow> dec s = None)"

definition env_ok :: "(rstr \<Rightarrow> review_lock_info option) \<Rightarrow> review_env \<Rightarrow> bool" where
  "env_ok dec env \<longleftrightarrow> from_json env = dec \<and> codec_ok (to_json env) dec"

definition owns_lock ::
    "(rstr \<Rightarrow> review_lock_info option) \<Rightarrow> files \<Rightarrow> u32 \<Rightarrow> review_guard \<Rightarrow> bool" where
  "owns_lock dec fs pid g \<longleftrightarrow>
     (\<exists>dir content. guard_lock_path g = dir @ [LOCK_FILENAME] \<and> fs (guard_lock_path g) = Some content \<and>
        (\<forall>info. dec content = Some info \<longrightarrow> info_pid info = pid))"

lemma filenames_differ [simp]: "EPOCH_FILENAME \<noteq> LOCK_FILENAME" "LOCK_FILENAME \<noteq> EPOCH_FILENAME"
  by (simp_all add: EPOCH_FILENAME_def LOCK_FILENAME_def lit_def)

lemma lock_path_last: "lock_path env scope = Inr p \<Longrightarrow> \<exists>dir. p = dir @ [LOCK_FILENAME]"
  by (auto simp: lock_path_def)

lemma epoch_path_last: "epoch_path env scope = Inr p \<Longrightarrow> \<exists>dir. p = dir @ [EPOCH_FILENAME]"
  by (auto simp: epoch_path_def)

lemma acquire_guard_Some:
  assumes "acquire_guard env intent cwd fs = (Some g, fs')"
  obtains p info where "lock_path env (Some cwd) = Inr p" and "g = \<lparr>guard_lock_path = p\<rparr>"
    and "p \<notin> dom fs" and "info_pid info = process_id env" and "info_intent info = intent"
    and "info_snapshot_epoch info = current_snapshot_epoch_for env cwd (fs(p \<mapsto> []))"
    and "fs' = fs(p \<mapsto> written env (to_json env info))"
proof -
  obtain p where p: "lock_path env (Some cwd) = Inr p"
    using assms by (auto simp: acquire_guard_def try_acquire_lock_def split: sum.splits)
  show thesis
  proof (cases "open_create_new env p fs")
    case (Inl err)
    with assms p show thesis
      by (cases err) (simp_all add: acquire_guard_def try_acquire_lock_def)
  next
    case (Inr fs1)
    then have "p \<notin> dom fs" "fs1 = fs(p \<mapsto> [])"
      by (simp_all add: open_create_new_def split: if_splits)
    with assms p Inr show thesis
      by (intro that [of p]) (auto simp: acquire_guard_def try_acquire_lock_def Let_def)
  qed
qed

lemma acquire_guard_None:
  assumes "acquire_guard env intent cwd fs = (None, fs')"
  shows "fs' = fs"
proof (cases "lock_path env (Some cwd)")
  case (Inl err)
  with assms show ?thesis by (simp add: acquire_guard_def try_acquire_lock_def)
next
  case (Inr p)
  with assms show ?thesis
    by (auto simp: acquire_guard_def try_acquire_lock_def Let_def open_create_new_def
        split: if_splits)
qed

lemma written_decodes:
  assumes "codec_ok enc dec" and "dec (written env (enc i)) = Some j"
  shows "j = i"
proof (cases "written env (enc i) = enc i")
  case True
  with assms show ?thesis by (simp add: codec_ok_def)
next
  case False
  then obtain k where k: "written env (enc i) = take k (enc i)"
    by (auto simp: written_def split: option.splits)
  with False have "strict_prefix (written env (enc i)) (enc i)"
    by (simp add: strict_prefix_def take_is_prefix)
  then have "dec (written env (enc i)) = None"
    using assms(1) unfolding codec_ok_def by blast
  with assms(2) show ?thesis by simp
qed

lemma owns_lock_upd_other:
  "owns_lock dec fs q h \<Longrightarrow> p \<noteq> guard_lock_path h \<Longrightarrow> owns_lock dec (fs(p := v)) q h"
  by (auto simp: owns_lock_def)

lemma write_epoch_keeps: "owns_lock dec fs q h \<Longrightarrow> owns_lock dec (write_epoch env scope v fs) q h"
proof (cases "epoch_path env scope")
  case (Inr p)
  assume h: "owns_lock dec fs q h"
  obtain dir where "p = dir @ [EPOCH_FILENAME]"
    using epoch_path_last [OF Inr] by blast
  with h have "p \<noteq> guard_lock_path h"
    by (auto simp: owns_lock_def)
  with h Inr show ?thesis
    by (simp add: write_epoch_def fs_write_def owns_lock_upd_other)
qed (simp add: write_epoch_def)

interpretation review_lock: guard_lock acquire_guard drop_guard
  "\<lambda>env scope fs. snd (clear_stale_lock_if_dead env scope fs)" bump_snapshot_epoch
  process_id pid_alive "env_ok dec" "owns_lock dec" for dec
proof (unfold_locales, goal_cases)
  case (1 e i s w g w' q)
  from 1 show ?case
    by (elim acquire_guard_Some) (auto simp: owns_lock_def)
next
  case (2 e i s w g w')
  from 2(2) obtain p info where
    p: "lock_path e (Some s) = Inr p" "g = \<lparr>guard_lock_path = p\<rparr>"
      and info: "info_pid info = process_id e" "w' = w(p \<mapsto> written e (to_json e info))"
    by (elim acquire_guard_Some)
  moreover obtain dir where "p = dir @ [LOCK_FILENAME]"
    using lock_path_last [OF p(1)] by blast
  moreover have "j = info" if "dec (written e (to_json e info)) = Some j" for j
    using that 2(1) written_decodes unfolding env_ok_def by blast
  ultimately show ?case
    by (auto simp: owns_lock_def)
next
  case (3 w q h e i s)
  obtain r w' where r: "acquire_guard e i s w = (r, w')" by fastforce
  show ?case
  proof (cases r)
    case None
    with r 3 show ?thesis using acquire_guard_None by fastforce
  next
    case (Some g)
    obtain p info where "p \<notin> dom w" "w' = w(p \<mapsto> written e (to_json e info))"
      using r [unfolded Some] by (rule acquire_guard_Some)
    moreover have "guard_lock_path h \<in> dom w"
      using 3 by (auto simp: owns_lock_def)
    ultimately have "owns_lock dec w' q h"
      using 3 by (auto intro: owns_lock_upd_other)
    then show ?thesis by (simp add: r)
  qed
next
  case (4 w q h g e)
  then have "guard_lock_path g \<noteq> guard_lock_path h" by auto
  with 4 show ?case
    by (simp add: drop_guard_def remove_file_def owns_lock_upd_other)
next
  case (5 e q w h s)
  show ?case
  proof (cases "stale_lock_is_dead e s w")
    case True
    then obtain p buf info where p: "lock_path e s = Inr p" "w p = Some buf"
        "from_json e buf = Some info" "\<not> pid_alive e (info_pid info)"
      by (auto simp: stale_lock_is_dead_def read_lock_info_def read_to_string_def
          split: option.splits sum.splits if_splits)
    then have "p \<noteq> guard_lock_path h"
      using 5 by (auto simp: owns_lock_def env_ok_def)
    with 5 True p show ?thesis
      by (simp add: clear_stale_lock_if_dead_def remove_stale_lock_def remove_file_def
          owns_lock_upd_other)
  next
    case False
    with 5 show ?thesis by (simp add: clear_stale_lock_if_dead_def)
  qed
next
  case (6 w q h e)
  then show ?case
    by (simp add: bump_snapshot_epoch_def bump_snapshot_epoch_for_def write_epoch_keeps
        split: option.split)
qed

section \<open>Clearing in steps\<close>

text \<open>
  \<open>clear_stale_lock_if_dead\<close> reads the lock, asks for the recorded process and removes the file, each
  in a step of its own. A pending removal is the clearing process, the scope, the path, the recorded
  process as long as it was not found dead, and whether the lock of that path was acquired since it was
  read. \<open>lost\<close> are the paths of locks that were removed although they had been acquired since; the guards
  of the other paths are undisturbed.
\<close>

type_synonym pending_removal = "u32 \<times> rstr option \<times> file_path \<times> u32 option \<times> bool"

definition overtake :: "review_guard option \<Rightarrow> pending_removal list \<Rightarrow> pending_removal list" where
  "overtake r clears = map (\<lambda>(q, scope, p, owner, overtaken).
     (q, scope, p, owner, overtaken \<or> r = Some \<lparr>guard_lock_path = p\<rparr>)) clears"

definition lost_by :: "pending_removal \<Rightarrow> file_path set \<Rightarrow> file_path set" where
  "lost_by c lost = (case c of (_, _, p, _, overtaken) \<Rightarrow> if overtaken then insert p lost else lost)"

definition undisturbed :: "file_path set \<Rightarrow> ('c \<Rightarrow> review_guard option) \<Rightarrow> 'c \<Rightarrow> review_guard option" where
  "undisturbed lost hold c =
     (case hold c of Some g \<Rightarrow> if guard_lock_path g \<in> lost then None else Some g | None \<Rightarrow> None)"

text \<open>Who holds the lock of a path undisturbed is the recorded process.\<close>

definition owned_by ::
    "('c \<Rightarrow> u32) \<Rightarrow> file_path set \<Rightarrow> ('c \<Rightarrow> review_guard option) \<Rightarrow> file_path \<Rightarrow> u32 option \<Rightarrow> bool" where
  "owned_by process lost hold p owner \<longleftrightarrow>
     (\<forall>c g. undisturbed lost hold c = Some g \<longrightarrow> guard_lock_path g = p \<longrightarrow> owner = Some (process c))"

text \<open>
  A lock that was read and not acquired since is held by the process it names at most, and by nobody
  once that process was found dead.
\<close>

definition lock_safe ::
    "(rstr \<Rightarrow> review_lock_info option) \<Rightarrow> ('c \<Rightarrow> u32) \<Rightarrow> ('c \<Rightarrow> review_guard option) \<Rightarrow> file_path set \<Rightarrow>
     pending_removal list \<Rightarrow> files \<Rightarrow> bool" where
  "lock_safe dec process hold lost clears fs \<longleftrightarrow>
     exclusive (owns_lock dec) process (undisturbed lost hold) fs \<and>
     (\<forall>q scope p owner. (q, scope, p, owner, False) \<in> set clears \<longrightarrow> owned_by process lost hold p owner)"

lemma undisturbed_Some: "undisturbed lost hold c = Some g \<longleftrightarrow> hold c = Some g \<and> guard_lock_path g \<notin> lost"
  by (auto simp: undisturbed_def split: option.splits)

lemma undisturbed_upd:
  "undisturbed lost (hold(c := r)) = (undisturbed lost hold)(c := Option.bind r (\<lambda>g. if guard_lock_path g \<in> lost then None else Some g))"
  by (auto simp: undisturbed_def fun_eq_iff split: option.splits)

lemma overtake_None [simp]: "overtake None clears = clears"
  by (simp add: overtake_def case_prod_unfold)

lemma lock_safe_start: "(\<And>c. hold c = None) \<Longrightarrow> lock_safe dec process hold lost [] fs"
  by (simp add: lock_safe_def exclusive_def undisturbed_def)

lemma exclusive_fewer:
  assumes "exclusive owns process hold w" and "\<And>c g. hold' c = Some g \<Longrightarrow> hold c = Some g"
    and "\<And>c g. hold' c = Some g \<Longrightarrow> owns w (process c) g \<Longrightarrow> owns w' (process c) g"
  shows "exclusive owns process hold' w'"
  using assms unfolding exclusive_def by blast

lemma lock_safe_owner:
  "lock_safe dec process hold lost clears fs \<Longrightarrow> (q, scope, p, owner, overtaken) \<in> set clears \<Longrightarrow> \<not> overtaken \<Longrightarrow>
   owned_by process lost hold p owner"
  unfolding lock_safe_def by (metis (full_types))

lemma owned_by_fewer:
  assumes "owned_by process lost hold p owner"
    and "\<And>c g. undisturbed lost' hold' c = Some g \<Longrightarrow> undisturbed lost hold c = Some g"
  shows "owned_by process lost' hold' p owner"
  using assms unfolding owned_by_def by blast

lemma lock_safe_fewer:
  assumes "lock_safe dec process hold lost clears fs" and "\<And>c. hold' c = hold c \<or> hold' c = None"
    and "set clears' \<subseteq> set clears"
  shows "lock_safe dec process hold' lost clears' fs"
proof -
  have fewer: "undisturbed lost hold c = Some g" if "undisturbed lost hold' c = Some g" for c g
    using that assms(2) [of c] unfolding undisturbed_Some by auto
  then have "exclusive (owns_lock dec) process (undisturbed lost hold') fs"
    using assms(1) unfolding lock_safe_def by (blast intro: exclusive_fewer)
  moreover have "owned_by process lost hold' p owner" if "owned_by process lost hold p owner" for p owner
    using that fewer by (rule owned_by_fewer)
  ultimately show ?thesis
    using assms(1,3) unfolding lock_safe_def by blast
qed

lemma lock_safe_files:
  assumes "lock_safe dec process hold lost clears fs"
    and "\<And>c g. undisturbed lost hold c = Some g \<Longrightarrow> owns_lock dec fs (process c) g \<Longrightarrow> owns_lock dec fs' (process c) g"
  shows "lock_safe dec process hold lost clears fs'"
  using assms by (auto simp: lock_safe_def exclusive_def)

lemma lock_safe_read:
  assumes "lock_safe dec process hold lost clears fs" and "env_ok dec env"
    and "read_lock_info env scope fs = Some info" and "lock_path env scope = Inr p"
  shows "lock_safe dec process hold lost ((q, scope, p, Some (info_pid info), False) # clears) fs"
proof -
  obtain buf where lock: "fs p = Some buf" "dec buf = Some info"
    using assms(2-4) by (auto simp: read_lock_info_def read_to_string_def env_ok_def split: if_splits option.splits)
  have "owned_by process lost hold p (Some (info_pid info))"
    using assms(1) lock by (fastforce simp: owned_by_def lock_safe_def exclusive_def owns_lock_def)
  then show ?thesis
    using assms(1) by (auto simp: lock_safe_def)
qed

lemma lock_safe_dead:
  assumes "lock_safe dec process hold lost clears fs" and "(q, scope, p, Some owner, overtaken) \<in> set clears"
    and "\<And>c g. hold c = Some g \<Longrightarrow> process c \<noteq> owner"
  shows "lock_safe dec process hold lost
    ((q, scope, p, None, overtaken) # remove1 (q, scope, p, Some owner, overtaken) clears) fs"
proof -
  have "owned_by process lost hold p None" if "\<not> overtaken"
  proof -
    have "owned_by process lost hold p (Some owner)"
      using assms(1,2) that by (rule lock_safe_owner)
    then show ?thesis
      using assms(3) by (auto simp: owned_by_def undisturbed_Some)
  qed
  then show ?thesis
    using assms(1) set_remove1_subset [of "(q, scope, p, Some owner, overtaken)" clears]
    unfolding lock_safe_def by auto
qed

lemma lock_safe_remove:
  assumes safe: "lock_safe dec process hold lost clears fs" and pending: "(q, scope, p, None, overtaken) \<in> set clears"
    and path: "lock_path env scope = Inr p"
  shows "lock_safe dec process hold (lost_by (q, scope, p, None, overtaken) lost)
    (remove1 (q, scope, p, None, overtaken) clears) (snd (remove_stale_lock env scope fs))"
proof -
  let ?lost = "lost_by (q, scope, p, None, overtaken) lost" and ?fs = "snd (remove_stale_lock env scope fs)"
  have fewer: "undisturbed lost hold c = Some g" if "undisturbed ?lost hold c = Some g" for c g
    using that by (auto simp: undisturbed_Some lost_by_def split: if_splits)
  have free: "guard_lock_path g \<noteq> p" if "undisturbed ?lost hold c = Some g" for c g
  proof (cases overtaken)
    case False
    with safe pending have "owned_by process lost hold p None"
      by (rule lock_safe_owner)
    then show ?thesis
      using fewer [OF that] by (auto simp: owned_by_def)
  qed (use that in \<open>auto simp: undisturbed_Some lost_by_def\<close>)
  have "exclusive (owns_lock dec) process (undisturbed ?lost hold) ?fs"
  proof (rule exclusive_fewer)
    show "exclusive (owns_lock dec) process (undisturbed lost hold) fs"
      using safe by (simp add: lock_safe_def)
    show "owns_lock dec ?fs (process c) g"
      if "undisturbed ?lost hold c = Some g" "owns_lock dec fs (process c) g" for c g
      using that(2) free [OF that(1)] path
      by (auto simp: remove_stale_lock_def remove_file_def owns_lock_upd_other)
  qed (rule fewer)
  moreover have "owned_by process ?lost hold p' owner" if "owned_by process lost hold p' owner" for p' owner
    using that fewer by (rule owned_by_fewer)
  ultimately show ?thesis
    using safe set_remove1_subset [of "(q, scope, p, None, overtaken)" clears] unfolding lock_safe_def by blast
qed

lemma lock_safe_acquire:
  assumes safe: "lock_safe dec process hold lost clears fs" and env: "env_ok dec env" "process_id env = process c"
    and got: "acquire_guard env intent cwd fs = (r, fs')"
  shows "lock_safe dec process (hold(c := r)) lost (overtake r clears) fs'"
proof -
  have excl: "exclusive (owns_lock dec) process (undisturbed lost hold) fs"
    using safe by (simp add: lock_safe_def)
  have "exclusive (owns_lock dec) process (undisturbed lost (hold(c := r))) fs'"
  proof (cases "Option.bind r (\<lambda>g. if guard_lock_path g \<in> lost then None else Some g)")
    case None
    have "exclusive (owns_lock dec) process (undisturbed lost hold) fs'"
      using review_lock.exclusive_attempt [OF excl, of env intent cwd] got by simp
    then show ?thesis
      unfolding undisturbed_upd None by (rule review_lock.exclusive_drop)
  next
    case (Some g)
    then have "r = Some g"
      by (cases r) (auto split: if_splits)
    then show ?thesis
      unfolding undisturbed_upd Some using review_lock.exclusive_acquire [OF excl env(1)] env(2) got by simp
  qed
  moreover have "owned_by process lost (hold(c := r)) p owner"
    if pending: "(q, scope, p, owner, False) \<in> set (overtake r clears)" for q scope p owner
  proof -
    obtain b where "(q, scope, p, owner, b) \<in> set clears" "\<not> b" and fresh: "r \<noteq> Some \<lparr>guard_lock_path = p\<rparr>"
      using pending unfolding overtake_def by (auto intro: that)
    with safe have "owned_by process lost hold p owner"
      by (blast intro: lock_safe_owner)
    moreover have "g = \<lparr>guard_lock_path = guard_lock_path g\<rparr>" for g :: review_guard
      by simp
    ultimately show ?thesis
      using fresh unfolding owned_by_def undisturbed_Some by (metis fun_upd_apply)
  qed
  ultimately show ?thesis
    unfolding lock_safe_def by blast
qed

text \<open>Removing the file of a guard that was just given up.\<close>

lemma lock_safe_drop_file:
  assumes "lock_safe dec process hold lost clears fs" and "\<And>d. undisturbed lost hold d \<noteq> Some g"
  shows "lock_safe dec process hold lost clears (drop_guard env g fs)"
  using assms(1) by (rule lock_safe_files) (metis assms(2) review_lock.release_keeps)

lemma lock_safe_release:
  assumes "lock_safe dec process hold lost clears fs" and "hold c = Some g"
  shows "lock_safe dec process (hold(c := None)) lost clears (drop_guard env g fs)"
proof (rule lock_safe_drop_file)
  show "lock_safe dec process (hold(c := None)) lost clears fs"
    using assms(1) by (rule lock_safe_fewer) auto
  have "c = d" if "undisturbed lost hold d = Some g" for d
    using assms that unfolding lock_safe_def exclusive_def by (metis undisturbed_Some)
  then show "undisturbed lost (hold(c := None)) d \<noteq> Some g" for d
    by (auto simp: undisturbed_Some split: if_splits)
qed

lemma lock_safe_bump: "lock_safe dec process hold lost clears fs \<Longrightarrow> lock_safe dec process hold lost clears (bump_snapshot_epoch env fs)"
  by (erule lock_safe_files) (rule review_lock.bump_keeps)

lemma lock_safe_shared:
  assumes "lock_safe dec process hold lost clears fs" and "hold c = Some g" and "hold d = Some h"
    and "guard_lock_path g = guard_lock_path h"
  shows "guard_lock_path g \<in> lost \<or> c = d \<and> guard_lock_path g \<in> dom fs"
proof (cases "guard_lock_path g \<in> lost")
  case False
  moreover have "g = h"
    using assms(4) by simp
  ultimately have "undisturbed lost hold c = Some g" "undisturbed lost hold d = Some g"
    using assms(2,3) by (simp_all add: undisturbed_Some)
  then have "c = d" "owns_lock dec fs (process c) g"
    using assms(1) unfolding lock_safe_def exclusive_def by metis+
  then show ?thesis
    by (auto simp: owns_lock_def)
qed simp

section \<open>Processes that share the lock\<close>

text \<open>
  A client is a variable of a process that may hold a guard; the state is the file system, the
  guards held, the processes that run, the removals that are pending and the locks lost. A crash loses
  the guards and the pending removals of a process and leaves its lock files behind. \<open>kill(pid, 0)\<close> is
  taken to answer for the processes that run, and a scope to have the same path in every step of a
  clearing. The file of an acquired lock is empty until it is written and does not decode before, so
  that acquiring is one step.
\<close>

type_synonym lock_client = "u32 \<times> nat"

record lock_system =
  sys_files :: files
  sys_hold :: "lock_client \<Rightarrow> review_guard option"
  sys_live :: "u32 set"
  sys_clears :: "pending_removal list"
  sys_lost :: "file_path set"

definition env_for :: "(rstr \<Rightarrow> review_lock_info option) \<Rightarrow> lock_system \<Rightarrow> review_env \<Rightarrow> bool" where
  "env_for dec s env \<longleftrightarrow> env_ok dec env \<and> process_id env \<in> sys_live s \<and>
     (\<forall>pid \<in> sys_live s. pid_alive env pid)"

inductive lock_step ::
    "(rstr \<Rightarrow> review_lock_info option) \<Rightarrow> lock_system \<Rightarrow> lock_system \<Rightarrow> bool" for dec where
  acquire: "env_for dec s env \<Longrightarrow> fst c = process_id env \<Longrightarrow> sys_hold s c = None \<Longrightarrow>
    acquire_guard env intent cwd (sys_files s) = (r, fs') \<Longrightarrow>
    lock_step dec s (s\<lparr>sys_files := fs', sys_hold := (sys_hold s)(c := r), sys_clears := overtake r (sys_clears s)\<rparr>)"
| release: "env_for dec s env \<Longrightarrow> fst c = process_id env \<Longrightarrow> sys_hold s c = Some g \<Longrightarrow>
    lock_step dec s (s\<lparr>sys_files := drop_guard env g (sys_files s), sys_hold := (sys_hold s)(c := None)\<rparr>)"
| read_lock: "env_for dec s env \<Longrightarrow> lock_path env scope = Inr p \<Longrightarrow>
    read_lock_info env scope (sys_files s) = Some info \<Longrightarrow>
    lock_step dec s (s\<lparr>sys_clears := (process_id env, scope, p, Some (info_pid info), False) # sys_clears s\<rparr>)"
| found_dead: "env_for dec s env \<Longrightarrow> (process_id env, scope, p, Some owner, overtaken) \<in> set (sys_clears s) \<Longrightarrow>
    \<not> pid_alive env owner \<Longrightarrow>
    lock_step dec s (s\<lparr>sys_clears := (process_id env, scope, p, None, overtaken) #
      remove1 (process_id env, scope, p, Some owner, overtaken) (sys_clears s)\<rparr>)"
| found_alive: "env_for dec s env \<Longrightarrow> (process_id env, scope, p, Some owner, overtaken) \<in> set (sys_clears s) \<Longrightarrow>
    pid_alive env owner \<Longrightarrow>
    lock_step dec s (s\<lparr>sys_clears := remove1 (process_id env, scope, p, Some owner, overtaken) (sys_clears s)\<rparr>)"
| remove_stale: "env_for dec s env \<Longrightarrow> (process_id env, scope, p, None, overtaken) \<in> set (sys_clears s) \<Longrightarrow>
    lock_path env scope = Inr p \<Longrightarrow>
    lock_step dec s (s\<lparr>sys_files := snd (remove_stale_lock env scope (sys_files s)),
      sys_clears := remove1 (process_id env, scope, p, None, overtaken) (sys_clears s),
      sys_lost := lost_by (process_id env, scope, p, None, overtaken) (sys_lost s)\<rparr>)"
| bump: "env_for dec s env \<Longrightarrow>
    lock_step dec s (s\<lparr>sys_files := bump_snapshot_epoch env (sys_files s)\<rparr>)"
| start: "lock_step dec s (s\<lparr>sys_live := insert pid (sys_live s)\<rparr>)"
| crash: "lock_step dec s (s\<lparr>sys_live := sys_live s - {pid},
    sys_hold := (\<lambda>c. if fst c = pid then None else sys_hold s c),
    sys_clears := filter (\<lambda>c. fst c \<noteq> pid) (sys_clears s)\<rparr>)"

definition lock_system_init :: "lock_system \<Rightarrow> bool" where
  "lock_system_init s \<longleftrightarrow> (\<forall>c. sys_hold s c = None) \<and> sys_clears s = [] \<and> sys_lost s = {}"

definition lock_inv :: "(rstr \<Rightarrow> review_lock_info option) \<Rightarrow> lock_system \<Rightarrow> bool" where
  "lock_inv dec s \<longleftrightarrow> lock_safe dec fst (sys_hold s) (sys_lost s) (sys_clears s) (sys_files s) \<and>
     (\<forall>c g. sys_hold s c = Some g \<longrightarrow> fst c \<in> sys_live s)"

lemma lock_inv_step: "lock_step dec s s' \<Longrightarrow> lock_inv dec s \<Longrightarrow> lock_inv dec s'"
proof (induction rule: lock_step.induct)
  case (acquire s env c intent cwd r fs')
  then show ?case
    by (auto simp: lock_inv_def env_for_def intro!: lock_safe_acquire)
next
  case (release s env c g)
  then show ?case
    by (auto simp: lock_inv_def intro!: lock_safe_release)
next
  case (read_lock s env scope p info)
  then show ?case
    by (auto simp: lock_inv_def env_for_def intro!: lock_safe_read)
next
  case (found_dead s env scope p owner overtaken)
  then show ?case
    unfolding lock_inv_def env_for_def by (auto intro!: lock_safe_dead simp del: split_paired_All)
next
  case (found_alive s env scope p owner overtaken)
  then show ?case
    using set_remove1_subset [of "(process_id env, scope, p, Some owner, overtaken)" "sys_clears s"]
    unfolding lock_inv_def by (auto intro: lock_safe_fewer simp del: split_paired_All)
next
  case (remove_stale s env scope p overtaken)
  then show ?case
    by (auto simp: lock_inv_def intro!: lock_safe_remove)
next
  case (bump s env)
  then show ?case
    by (auto simp: lock_inv_def lock_safe_bump)
next
  case (start s pid)
  then show ?case by (auto simp: lock_inv_def)
next
  case (crash s pid)
  have "lock_safe dec fst (\<lambda>c. if fst c = pid then None else sys_hold s c) (sys_lost s)
      (filter (\<lambda>c. fst c \<noteq> pid) (sys_clears s)) (sys_files s)"
    by (rule lock_safe_fewer [of _ _ "sys_hold s" _ "sys_clears s"]) (use crash in \<open>auto simp: lock_inv_def\<close>)
  then show ?case
    using crash by (auto simp: lock_inv_def split: if_splits)
qed

lemma trim_show_nat [simp]: "trim (show_nat n) = show_nat n"
proof (rule trim_id)
  have "\<not> is_whitespace c" if "c \<in> set (show_nat n)" for c
    using show_nat_digits [OF that] by (auto simp: is_ascii_digit_def is_whitespace_def)
  then show "show_nat n = [] \<or> \<not> is_whitespace (hd (show_nat n)) \<and> \<not> is_whitespace (last (show_nat n))"
    by simp
qed

lemma read_write_epoch:
  assumes "epoch_path env scope = Inr p" and "\<not> read_fails env" and "\<not> open_fails env"
    and "write_stops_at env = None"
  shows "read_epoch env scope (write_epoch env scope v fs) = v"
proof -
  have "parse_u64 (show_nat (unat v)) = Some (unat v)"
    by (rule parse_u64_show_nat) (rule unat_u64_less)
  with assms show ?thesis
    by (simp add: read_epoch_def write_epoch_def fs_write_def written_def read_to_string_def)
qed

text \<open>The epochs and the locks are different files of the same directory.\<close>

lemma epoch_beside_lock:
  assumes "lock_path env scope = Inr p"
  obtains q where "epoch_path env scope = Inr q" and "q \<noteq> p"
  using assms by (auto simp: epoch_path_def lock_path_def)

lemma read_epoch_upd_lock:
  assumes "lock_path env scope = Inr p"
  shows "read_epoch env scope (fs(p := v)) = read_epoch env scope fs"
proof -
  obtain q where "epoch_path env scope = Inr q" "q \<noteq> p"
    using assms by (rule epoch_beside_lock)
  then show ?thesis
    by (simp add: read_epoch_def read_to_string_def)
qed

lemma bumps:
  assumes "lock_path env (Some cwd) = Inr p" and "\<not> read_fails env" and "\<not> open_fails env"
    and "write_stops_at env = None"
  shows "((bump_snapshot_epoch_for env cwd ^^ n) fs) p = fs p"
    and "unat (read_epoch env (Some cwd) ((bump_snapshot_epoch_for env cwd ^^ n) fs)) =
      min (unat (read_epoch env (Some cwd) fs) + n) (2 ^ 64 - 1)"
proof -
  obtain q where q: "epoch_path env (Some cwd) = Inr q" "q \<noteq> p"
    using assms(1) by (rule epoch_beside_lock)
  show "((bump_snapshot_epoch_for env cwd ^^ n) fs) p = fs p"
    using q by (induction n) (simp_all add: bump_snapshot_epoch_for_def write_epoch_def fs_write_def)
  show "unat (read_epoch env (Some cwd) ((bump_snapshot_epoch_for env cwd ^^ n) fs)) =
      min (unat (read_epoch env (Some cwd) fs) + n) (2 ^ 64 - 1)"
  proof (induction n)
    case 0
    have "unat (read_epoch env (Some cwd) fs) < 2 ^ 64"
      by (rule unat_u64_less)
    then show ?case by simp
  next
    case (Suc n)
    then show ?case
      using read_write_epoch [OF q(1) assms(2-4)]
      by (simp add: bump_snapshot_epoch_for_def unat_saturating_add)
  qed
qed

text \<open>A concrete environment: a codec with the two properties, and no faults.\<close>

definition sample_enc :: "review_lock_info \<Rightarrow> rstr" where
  "sample_enc i =
     (let body = unat (info_pid i) # unat (info_started_at i) # unat (info_snapshot_epoch i) #
        (case info_git_head i of None \<Rightarrow> 0 | Some _ \<Rightarrow> 1) # length (info_intent i) #
        info_intent i @ (case info_git_head i of None \<Rightarrow> [] | Some h \<Rightarrow> h)
      in length body # body)"

fun sample_dec :: "rstr \<Rightarrow> review_lock_info option" where
  "sample_dec (n # a # b # c # f # k # rest) =
     (if length rest + 5 \<noteq> n then None
      else Some \<lparr>info_pid = of_nat a, info_started_at = of_nat b, info_intent = take k rest,
        info_git_head = (if f = 0 then None else Some (drop k rest)), info_snapshot_epoch = of_nat c\<rparr>)"
| "sample_dec _ = None"

definition sample_env :: "u32 \<Rightarrow> review_env" where
  "sample_env pid =
     \<lparr>find_code_home = Inr [lit ''home''], canonicalize = (\<lambda>s. Some s), crc32_hash = (\<lambda>_. 7),
      to_json = sample_enc, from_json = sample_dec, process_id = pid,
      kill_0 = (\<lambda>p. if p = 1 \<or> p = 2 then None else Some ESRCH), unix_time = 0,
      git_head_output = None, git_toplevel_output = None, current_dir = Some (lit ''/w''),
      create_dir_fails = False, open_fails = False, read_fails = False, write_stops_at = None,
      remove_fails = False\<rparr>"

lemma sample_dec_length: "sample_dec s = Some i \<Longrightarrow> s \<noteq> [] \<and> hd s = length (tl s)"
  by (cases s rule: sample_dec.cases) (simp_all split: if_split_asm)

lemma sample_enc_length: "sample_enc i \<noteq> [] \<and> hd (sample_enc i) = length (tl (sample_enc i))"
  by (simp add: sample_enc_def Let_def)

lemma sample_codec_ok: "codec_ok sample_enc sample_dec"
proof -
  have "sample_dec (sample_enc i) = Some i" for i
    by (cases "info_git_head i") (simp_all add: sample_enc_def Let_def)
  moreover have "sample_dec s = None" if shorter: "strict_prefix s (sample_enc i)" for s i
  proof (rule ccontr)
    assume "sample_dec s \<noteq> None"
    then have s: "s \<noteq> []" "hd s = length (tl s)"
      using sample_dec_length by auto
    obtain t where t: "sample_enc i = s @ t" "t \<noteq> []"
      using shorter by (auto simp: strict_prefix_def prefix_def)
    then have "hd s = length (tl s) + length t"
      using sample_enc_length [of i] s(1) by simp
    with s(2) t(2) show False by simp
  qed
  ultimately show ?thesis
    by (simp add: codec_ok_def)
qed

lemma sample_env_ok: "env_ok sample_dec (sample_env pid)"
  by (simp add: env_ok_def sample_env_def sample_codec_ok)

lemmas lock_eval = sample_env_def lock_path_def scoped_dir_def state_dir_def create_dir_all_def
  acquire_guard_def try_acquire_lock_def open_create_new_def written_def Let_def

definition sample_lock :: file_path where
  "sample_lock = [lit ''home'', lit ''state'', lit ''review'', lit ''repo-'' @ hex08 7, LOCK_FILENAME]"

lemma sample_lock_path: "lock_path (sample_env pid) (Some cwd) = Inr sample_lock"
  by (simp add: lock_eval sample_lock_def scope_key_def)

lemma sample_acquire:
  assumes "fs sample_lock = None"
  shows "fst (acquire_guard (sample_env pid) intent cwd fs) = Some \<lparr>guard_lock_path = sample_lock\<rparr>"
  using assms sample_lock_path [of pid cwd]
  by (simp add: acquire_guard_def try_acquire_lock_def open_create_new_def Let_def domIff sample_env_def)

section \<open>Properties\<close>

text \<open>
  (C28) Invariant: mutual exclusion of reviews across processes, up to one race. Whatever processes start,
  crash, acquire, release and bump epochs, in whatever order the steps of clearing stale locks fall
  between, and whichever file operations fail: two variables that hold a guard for the same lock file are
  one, and its file is there, unless a process has removed, as stale, a lock of that path that was
  acquired after it had read the one it took for stale.
\<close>

theorem review_lock_exclusive:
  assumes "lock_system_init s" and "(lock_step dec)\<^sup>*\<^sup>* s t"
    and "sys_hold t c = Some g" and "sys_hold t d = Some h"
    and "guard_lock_path g = guard_lock_path h"
  shows "guard_lock_path g \<in> sys_lost t \<or> c = d \<and> guard_lock_path g \<in> dom (sys_files t)"
proof -
  have "lock_inv dec s"
    using assms(1) lock_safe_start [of "sys_hold s"] unfolding lock_inv_def lock_system_init_def by auto
  with assms(2) have "lock_inv dec t"
    by (induction rule: rtranclp_induct) (auto intro: lock_inv_step)
  then have "lock_safe dec fst (sys_hold t) (sys_lost t) (sys_clears t) (sys_files t)"
    by (simp add: lock_inv_def)
  then show ?thesis
    using assms(3-5) by (rule lock_safe_shared)
qed

theorem review_lock_exclusive_witness:
  "let fs = snd (acquire_guard (sample_env 1) (lit ''a'') (lit ''/w'') Map.empty);
       t = \<lparr>sys_files = fs, sys_hold = (\<lambda>_. None)((1, 0) := Some \<lparr>guard_lock_path = sample_lock\<rparr>),
            sys_live = {1, 2}, sys_clears = [], sys_lost = {}\<rparr>
   in (1 :: u32, 0 :: nat) = (1, 0) \<and>
      guard_lock_path \<lparr>guard_lock_path = sample_lock\<rparr> \<in> dom (sys_files t)"
proof -
  let ?s = "\<lparr>sys_files = Map.empty, sys_hold = (\<lambda>_. None), sys_live = {1, 2}, sys_clears = [], sys_lost = {}\<rparr>"
  let ?g = "\<lparr>guard_lock_path = sample_lock\<rparr>"
  obtain fs' where fs': "acquire_guard (sample_env 1) (lit ''a'') (lit ''/w'') Map.empty = (Some ?g, fs')"
    using sample_acquire [of Map.empty 1 "lit ''a''" "lit ''/w''"]
    by (cases "acquire_guard (sample_env 1) (lit ''a'') (lit ''/w'') Map.empty") simp
  let ?t = "?s\<lparr>sys_files := fs', sys_hold := (sys_hold ?s)((1, 0) := Some ?g), sys_clears := overtake (Some ?g) (sys_clears ?s)\<rparr>"
  have "lock_step sample_dec ?s ?t"
    by (rule lock_step.acquire [where env = "sample_env 1"])
      (use fs' in \<open>simp_all add: env_for_def sample_env_ok, simp_all add: sample_env_def pid_alive_def\<close>)
  then have steps: "(lock_step sample_dec)\<^sup>*\<^sup>* ?s ?t" by (rule r_into_rtranclp)
  show ?thesis
    using review_lock_exclusive [OF _ steps, of "(1, 0)" ?g "(1, 0)" ?g]
    by (simp add: lock_system_init_def fs')
qed

text \<open>
  Clearing a stale lock is not atomic, and that breaks mutual exclusion: two running
  processes can both find the lock of a dead process, the first removes it and acquires the
  lock, the second then removes the first one's lock and acquires it too, and both hold a guard
  for the same file.
\<close>

theorem stale_clear_race:
  "\<exists>env_a env_b dec fs p.
     env_ok dec env_a \<and> env_ok dec env_b \<and> process_id env_a \<noteq> process_id env_b \<and>
     pid_alive env_b (process_id env_a) \<and> pid_alive env_a (process_id env_b) \<and>
     stale_lock_is_dead env_a (Some cwd) fs \<and> stale_lock_is_dead env_b (Some cwd) fs \<and>
     (let fs1 = snd (remove_stale_lock env_a (Some cwd) fs);
          (a, fs2) = acquire_guard env_a intent cwd fs1;
          fs3 = snd (remove_stale_lock env_b (Some cwd) fs2);
          (b, fs4) = acquire_guard env_b intent cwd fs3
      in a = Some \<lparr>guard_lock_path = p\<rparr> \<and> b = Some \<lparr>guard_lock_path = p\<rparr>)"
proof -
  let ?dead = "\<lparr>info_pid = 9, info_started_at = 0, info_intent = [], info_git_head = None,
    info_snapshot_epoch = 0\<rparr>"
  let ?fs = "Map.empty(sample_lock \<mapsto> sample_enc ?dead)"
  have dead: "stale_lock_is_dead (sample_env pid) (Some cwd) ?fs" for pid
    using sample_lock_path [of pid cwd] sample_codec_ok
    by (simp add: stale_lock_is_dead_def read_lock_info_def read_to_string_def codec_ok_def)
      (simp add: sample_env_def codec_ok_def pid_alive_def)
  have free: "snd (remove_stale_lock (sample_env pid) (Some cwd) fs) sample_lock = None" for pid fs
    using sample_lock_path [of pid cwd]
    by (simp add: remove_stale_lock_def remove_file_def sample_env_def)
  have got: "fst (acquire_guard (sample_env pid) intent cwd
      (snd (remove_stale_lock (sample_env pid) (Some cwd) fs))) =
      Some \<lparr>guard_lock_path = sample_lock\<rparr>" for pid fs
    by (rule sample_acquire) (rule free)
  have env: "process_id (sample_env pid) = pid" "pid_alive (sample_env pid) 1"
      "pid_alive (sample_env pid) 2" for pid
    by (simp_all add: sample_env_def pid_alive_def)
  show ?thesis
    by (intro exI [of _ "sample_env 1"] exI [of _ "sample_env 2"] exI [of _ sample_dec]
        exI [of _ ?fs] exI [of _ sample_lock] conjI sample_env_ok dead)
      (simp_all add: env got Let_def split_beta)
qed

text \<open>
  Recovery: when the process recorded in the lock of a directory is dead, clearing the lock
  reports success and the next attempt to acquire it from there succeeds, recording the caller.
  While the recorded process is alive, or the lock cannot be read, clearing changes nothing and
  the lock stays taken.
\<close>

theorem stale_lock_recovery:
  assumes "lock_path env (Some cwd) = Inr p" and "fs p = Some content"
    and "\<not> read_fails env" and "\<not> remove_fails env" and "\<not> open_fails env"
  shows "case from_json env content of
      Some info \<Rightarrow>
        if pid_alive env (info_pid info)
        then clear_stale_lock_if_dead env (Some cwd) fs = (False, fs) \<and>
             try_acquire_lock env intent cwd fs = (Inr None, fs)
        else clear_stale_lock_if_dead env (Some cwd) fs = (True, fs(p := None)) \<and>
             fst (try_acquire_lock env intent cwd (fs(p := None))) =
               Inr (Some \<lparr>guard_lock_path = p\<rparr>)
    | None \<Rightarrow>
        clear_stale_lock_if_dead env (Some cwd) fs = (False, fs) \<and>
        try_acquire_lock env intent cwd fs = (Inr None, fs)"
  using assms
  by (auto simp: clear_stale_lock_if_dead_def stale_lock_is_dead_def remove_stale_lock_def
      read_lock_info_def read_to_string_def remove_file_def try_acquire_lock_def
      open_create_new_def Let_def split: option.split)

theorem stale_lock_recovery_witness:
  "clear_stale_lock_if_dead (sample_env 1) (Some (lit ''/w'')) (Map.empty(sample_lock \<mapsto> [])) =
     (False, Map.empty(sample_lock \<mapsto> []))"
  using stale_lock_recovery [OF sample_lock_path, of "Map.empty(sample_lock \<mapsto> [])" "[]" 1]
  by (simp add: sample_env_def)

text \<open>
  Round trip: after a successful acquisition with a complete write, the lock of that
  directory reads back as the caller's process, the intent and the epoch of the directory at that
  moment, and any number of epoch bumps of that directory leave the recorded lock as it is while
  the current epoch moves on, by one per bump up to the largest \<open>u64\<close>.
\<close>

theorem lock_info_survives_epoch_bumps:
  assumes "codec_ok (to_json env) (from_json env)"
    and "\<not> read_fails env" and "\<not> open_fails env" and "write_stops_at env = None"
    and "try_acquire_lock env intent cwd fs = (Inr (Some g), fs1)"
    and "fs2 = (bump_snapshot_epoch_for env cwd ^^ n) fs1"
  shows "\<exists>info. read_lock_info env (Some cwd) fs2 = Some info \<and>
      info_pid info = process_id env \<and> info_intent info = intent \<and>
      info_snapshot_epoch info = current_snapshot_epoch_for env cwd fs \<and>
      unat (current_snapshot_epoch_for env cwd fs2) =
        min (unat (info_snapshot_epoch info) + n) (2 ^ 64 - 1)"
proof -
  have "acquire_guard env intent cwd fs = (Some g, fs1)"
    using assms(5) by (simp add: acquire_guard_def)
  then obtain p info where p: "lock_path env (Some cwd) = Inr p"
      and info: "info_pid info = process_id env" "info_intent info = intent"
        "info_snapshot_epoch info = current_snapshot_epoch_for env cwd (fs(p \<mapsto> []))"
      and fs1: "fs1 = fs(p \<mapsto> written env (to_json env info))"
    by (rule acquire_guard_Some)
  have epoch: "current_snapshot_epoch_for env cwd (fs(p \<mapsto> v)) = current_snapshot_epoch_for env cwd fs" for v
    by (simp add: current_snapshot_epoch_for_def read_epoch_upd_lock [OF p])
  have "fs2 p = Some (to_json env info)"
    using bumps(1) [OF p assms(2-4)] assms(4,6) fs1 by (simp add: written_def)
  then have "read_lock_info env (Some cwd) fs2 = Some info"
    using p assms(1,2) by (simp add: read_lock_info_def read_to_string_def codec_ok_def)
  then show ?thesis
    using info epoch bumps(2) [OF p assms(2-4), of n fs1]
    by (simp add: assms(6) fs1 current_snapshot_epoch_for_def)
qed

theorem lock_info_survives_epoch_bumps_witness:
  "\<exists>info. read_lock_info (sample_env 1) (Some (lit ''/w''))
      ((bump_snapshot_epoch_for (sample_env 1) (lit ''/w'') ^^ 3)
        (snd (try_acquire_lock (sample_env 1) (lit ''a'') (lit ''/w'') Map.empty))) = Some info \<and>
     info_pid info = 1 \<and> info_intent info = lit ''a''"
proof -
  have "fst (try_acquire_lock (sample_env 1) (lit ''a'') (lit ''/w'') Map.empty) =
      Inr (Some \<lparr>guard_lock_path = sample_lock\<rparr>)"
    using sample_lock_path [of 1 "lit ''/w''"]
    by (simp add: try_acquire_lock_def open_create_new_def Let_def, simp add: sample_env_def)
  then have got: "try_acquire_lock (sample_env 1) (lit ''a'') (lit ''/w'') Map.empty =
      (Inr (Some \<lparr>guard_lock_path = sample_lock\<rparr>),
       snd (try_acquire_lock (sample_env 1) (lit ''a'') (lit ''/w'') Map.empty))"
    by (metis prod.collapse)
  have env: "codec_ok (to_json (sample_env 1)) (from_json (sample_env 1))"
    "\<not> read_fails (sample_env 1)" "\<not> open_fails (sample_env 1)"
    "write_stops_at (sample_env 1) = None" "process_id (sample_env 1) = 1"
    by (simp_all add: sample_env_def sample_codec_ok)
  show ?thesis
    using lock_info_survives_epoch_bumps [OF env(1-4) got refl] env(5) by metis
qed

end
