(* ===== verification/Auto_Drive.thy ===== *)
theory Auto_Drive
  imports Review_Lock Core_Types
begin

text \<open>
  The Auto Drive controller, \<open>code-rs/code-auto-drive-core/src/controller.rs\<close>: the run phase, the
  countdown before a prompt is submitted, launch, stop, restart after a transient failure and the
  review lock. The controller is a record with the fields of the source; the operations that
  take or drop the review lock, or bump the snapshot epoch, also transform the file system of
  theory \<open>Review_Lock\<close>. Instants and durations are in milliseconds. A controller is used by one
  owner, so overwriting \<open>review_lock\<close> drops the guard. The countdown thread and the handler of
  its ticks are those of \<open>code-rs/tui/src/chatwidget.rs\<close>.
\<close>

section \<open>Data\<close>

datatype auto_continue_mode = Immediate | TenSeconds | SixtySeconds | Manual

fun mode_seconds :: "auto_continue_mode \<Rightarrow> u8 option" where
  "mode_seconds Immediate = Some 0"
| "mode_seconds TenSeconds = Some 10"
| "mode_seconds SixtySeconds = Some 60"
| "mode_seconds Manual = None"

fun mode_label :: "auto_continue_mode \<Rightarrow> rstr" where
  "mode_label Immediate = lit ''Immediate''"
| "mode_label TenSeconds = lit ''10 seconds''"
| "mode_label SixtySeconds = lit ''60 seconds''"
| "mode_label Manual = lit ''Manual approval''"

fun cycle_forward :: "auto_continue_mode \<Rightarrow> auto_continue_mode" where
  "cycle_forward Immediate = TenSeconds"
| "cycle_forward TenSeconds = SixtySeconds"
| "cycle_forward SixtySeconds = Manual"
| "cycle_forward Manual = Immediate"

fun cycle_backward :: "auto_continue_mode \<Rightarrow> auto_continue_mode" where
  "cycle_backward Immediate = Manual"
| "cycle_backward TenSeconds = Immediate"
| "cycle_backward SixtySeconds = TenSeconds"
| "cycle_backward Manual = SixtySeconds"

datatype auto_run_phase =
    Idle
  | AwaitingGoalEntry
  | Launching
  | Active
  | PausedManual bool bool
  | AwaitingCoordinator bool
  | AwaitingDiagnostics bool
  | AwaitingReview bool
  | TransientRecovery u64

fun phase_is_active :: "auto_run_phase \<Rightarrow> bool" where
  "phase_is_active Idle = False"
| "phase_is_active AwaitingGoalEntry = False"
| "phase_is_active _ = True"

definition phase_is_running :: "auto_run_phase \<Rightarrow> bool" where
  "phase_is_running ph =
     (case ph of Launching \<Rightarrow> True | Active \<Rightarrow> True | PausedManual _ _ \<Rightarrow> True
      | AwaitingCoordinator _ \<Rightarrow> True | AwaitingDiagnostics _ \<Rightarrow> True | AwaitingReview _ \<Rightarrow> True
      | TransientRecovery _ \<Rightarrow> True | _ \<Rightarrow> False)"

definition phase_awaiting_submit :: "auto_run_phase \<Rightarrow> bool" where
  "phase_awaiting_submit ph \<longleftrightarrow> ph = AwaitingCoordinator True"

fun phase_awaiting_review :: "auto_run_phase \<Rightarrow> bool" where
  "phase_awaiting_review (AwaitingReview _) = True"
| "phase_awaiting_review _ = False"

fun phase_in_transient_recovery :: "auto_run_phase \<Rightarrow> bool" where
  "phase_in_transient_recovery (TransientRecovery _) = True"
| "phase_in_transient_recovery _ = False"

fun phase_is_paused_manual :: "auto_run_phase \<Rightarrow> bool" where
  "phase_is_paused_manual (PausedManual _ _) = True"
| "phase_is_paused_manual _ = False"

fun phase_waiting_for_response :: "auto_run_phase \<Rightarrow> bool" where
  "phase_waiting_for_response (AwaitingDiagnostics _) = True"
| "phase_waiting_for_response _ = False"

definition phase_shows_goal_entry :: "auto_run_phase \<Rightarrow> bool" where
  "phase_shows_goal_entry ph \<longleftrightarrow> ph = AwaitingGoalEntry"

definition phase_diagnostics_pending :: "auto_run_phase \<Rightarrow> bool" where
  "phase_diagnostics_pending ph \<longleftrightarrow> ph = AwaitingReview True"

fun phase_resume_after_submit :: "auto_run_phase \<Rightarrow> bool option" where
  "phase_resume_after_submit (PausedManual resume _) = Some resume"
| "phase_resume_after_submit _ = None"

datatype phase_transition =
    BeginLaunch
  | LaunchSuccess
  | LaunchFail
  | PauseForManualEdit bool
  | ResumeFromManual
  | PromptReady
  | SubmitPromptStep
  | AwaitDiagnostics
  | BeginReview bool
  | CompleteReview
  | TransientFailure u64
  | RecoveryAttempt
  | Stop

record auto_run_summary =
  sum_duration :: nat
  sum_turns_completed :: nat
  sum_message :: "rstr option"
  sum_goal :: "rstr option"

record auto_restart_state =
  rs_token :: u64
  rs_attempt :: u32
  rs_reason :: rstr

record agents_action =
  act_prompt :: rstr
  act_context :: "rstr option"
  act_write :: bool
  act_write_requested :: "bool option"
  act_models :: "rstr list option"

datatype agents_timing = Parallel | Blocking

datatype auto_controller_effect =
    RefreshUi
  | StartCountdown u64 u64 u8
  | SubmitPrompt
  | LaunchStarted rstr
  | LaunchFailed rstr rstr
  | StopCompleted auto_run_summary "rstr option"
  | TransientPause u32 nat rstr
  | ScheduleRestart u64 u32 nat
  | CancelCoordinator
  | ResetHistory
  | UpdateTerminalHint "rstr option"
  | SetTaskRunning bool
  | EnsureInputFocus
  | ClearCoordinatorView
  | ShowGoalEntry

record auto_drive_controller =
  goal :: "rstr option"
  current_summary :: "rstr option"
  current_status_sent_to_user :: "rstr option"
  current_status_title :: "rstr option"
  current_cli_prompt :: "rstr option"
  current_cli_context :: "rstr option"
  current_cli_model_override :: "rstr option"
  current_cli_reasoning_effort_override :: "reasoning_effort option"
  hide_cli_context_in_ui :: bool
  suppress_next_cli_display :: bool
  current_display_line :: "rstr option"
  current_display_is_summary :: bool
  current_reasoning_title :: "rstr option"
  placeholder_phrase :: "rstr option"
  thinking_prefix_stripped :: bool
  current_summary_index :: "u32 option"
  countdown_id :: u64
  countdown_decision_seq :: u64
  seconds_remaining :: u8
  countdown_override :: "u8 option"
  last_broadcast_summary :: "rstr option"
  last_decision_summary :: "rstr option"
  last_decision_status_sent_to_user :: "rstr option"
  last_decision_status_title :: "rstr option"
  last_decision_display :: "rstr option"
  last_decision_display_is_summary :: bool
  review_enabled :: bool
  subagents_enabled :: bool
  cross_check_enabled :: bool
  qa_automation_enabled :: bool
  pending_agent_actions :: "agents_action list"
  pending_agent_timing :: "agents_timing option"
  continue_mode :: auto_continue_mode
  started_at :: "nat option"
  turns_completed :: nat
  last_run_summary :: "auto_run_summary option"
  pending_restart :: "auto_restart_state option"
  restart_token :: u64
  transient_restart_attempts :: u32
  intro_started_at :: "nat option"
  intro_reduced_motion :: bool
  intro_pending :: bool
  elapsed_override :: "nat option"
  pending_stop_message :: "rstr option"
  last_completion_explanation :: "rstr option"
  phase :: auto_run_phase
  review_lock :: "review_guard option"

definition default_controller :: auto_drive_controller where
  "default_controller =
     \<lparr>goal = None, current_summary = None, current_status_sent_to_user = None,
      current_status_title = None, current_cli_prompt = None, current_cli_context = None,
      current_cli_model_override = None, current_cli_reasoning_effort_override = None,
      hide_cli_context_in_ui = False, suppress_next_cli_display = False,
      current_display_line = None, current_display_is_summary = False,
      current_reasoning_title = None, placeholder_phrase = None,
      thinking_prefix_stripped = False, current_summary_index = None, countdown_id = 0,
      countdown_decision_seq = 0, seconds_remaining = 0, countdown_override = None,
      last_broadcast_summary = None, last_decision_summary = None,
      last_decision_status_sent_to_user = None, last_decision_status_title = None,
      last_decision_display = None, last_decision_display_is_summary = False,
      review_enabled = False, subagents_enabled = False, cross_check_enabled = False,
      qa_automation_enabled = False, pending_agent_actions = [], pending_agent_timing = None,
      continue_mode = TenSeconds, started_at = None, turns_completed = 0,
      last_run_summary = None, pending_restart = None, restart_token = 0,
      transient_restart_attempts = 0, intro_started_at = None, intro_reduced_motion = False,
      intro_pending = False, elapsed_override = None, pending_stop_message = None,
      last_completion_explanation = None, phase = Idle, review_lock = None\<rparr>"

section \<open>Phase operations\<close>

definition apply_phase :: "auto_run_phase \<Rightarrow> auto_drive_controller \<Rightarrow> auto_drive_controller" where
  "apply_phase ph c = c\<lparr>phase := ph\<rparr>"

definition set_waiting_for_response :: "bool \<Rightarrow> auto_drive_controller \<Rightarrow> auto_drive_controller" where
  "set_waiting_for_response waiting c =
     (if waiting then apply_phase (AwaitingDiagnostics True) c
      else if phase_waiting_for_response (phase c) then apply_phase Active c else c)"

definition set_coordinator_waiting :: "bool \<Rightarrow> auto_drive_controller \<Rightarrow> auto_drive_controller" where
  "set_coordinator_waiting waiting c =
     (case phase c of
        AwaitingDiagnostics _ \<Rightarrow> c\<lparr>phase := AwaitingDiagnostics waiting\<rparr>
      | _ \<Rightarrow> if waiting then apply_phase (AwaitingDiagnostics True) c else c)"

definition on_prompt_ready :: "bool \<Rightarrow> auto_drive_controller \<Rightarrow> auto_drive_controller" where
  "on_prompt_ready prompt_ready c = apply_phase (AwaitingCoordinator prompt_ready) c"

definition on_prompt_submitted :: "auto_drive_controller \<Rightarrow> auto_drive_controller" where
  "on_prompt_submitted c = apply_phase (AwaitingDiagnostics True) (c\<lparr>countdown_override := None\<rparr>)"

definition on_pause_for_manual :: "bool \<Rightarrow> auto_drive_controller \<Rightarrow> auto_drive_controller" where
  "on_pause_for_manual resume_after_submit c = apply_phase (PausedManual resume_after_submit False) c"

definition on_resume_from_manual ::
    "review_env \<Rightarrow> auto_drive_controller \<Rightarrow> files \<Rightarrow> auto_drive_controller \<times> files" where
  "on_resume_from_manual env c fs = (apply_phase Active c, bump_snapshot_epoch env fs)"

text \<open>Assigning the field drops the guard it held.\<close>

definition assign_review_lock ::
    "review_env \<Rightarrow> review_guard option \<Rightarrow> auto_drive_controller \<Rightarrow> files \<Rightarrow>
       auto_drive_controller \<times> files" where
  "assign_review_lock env g c fs =
     (c\<lparr>review_lock := g\<rparr>,
      case review_lock c of None \<Rightarrow> fs | Some old \<Rightarrow> drop_guard env old fs)"

definition acquire_review_lock :: "review_env \<Rightarrow> files \<Rightarrow> review_guard option \<times> files" where
  "acquire_review_lock env fs = acquire_guard env (lit ''auto-drive-review'') (lit ''.'') fs"

definition on_begin_review ::
    "review_env \<Rightarrow> bool \<Rightarrow> auto_drive_controller \<Rightarrow> files \<Rightarrow> auto_drive_controller \<times> files" where
  "on_begin_review env diagnostics_pending c fs =
     (let c1 = apply_phase (AwaitingReview diagnostics_pending) c;
          (g, fs1) = acquire_review_lock env fs;
          (c2, fs2) = assign_review_lock env g c1 fs1
      in (if review_lock c2 = None then apply_phase Active c2 else c2, fs2))"

definition on_complete_review ::
    "review_env \<Rightarrow> auto_drive_controller \<Rightarrow> files \<Rightarrow> auto_drive_controller \<times> files" where
  "on_complete_review env c fs = assign_review_lock env None (apply_phase Active c) fs"

definition on_transient_failure :: "u64 \<Rightarrow> auto_drive_controller \<Rightarrow> auto_drive_controller" where
  "on_transient_failure backoff_ms c = apply_phase (TransientRecovery backoff_ms) c"

definition on_recovery_attempt :: "auto_drive_controller \<Rightarrow> auto_drive_controller" where
  "on_recovery_attempt c =
     (if phase_in_transient_recovery (phase c) then apply_phase Active c else c)"

record transition_effects =
  te_effects :: "auto_controller_effect list"
  te_phase_changed :: bool

text \<open>
  The match of \<open>transition\<close>: no two arms overlap, so it is written by transition. The result is
  the controller and the file system after the arm.
\<close>

definition transition_arm ::
    "review_env \<Rightarrow> phase_transition \<Rightarrow> auto_drive_controller \<Rightarrow> files \<Rightarrow>
       auto_drive_controller \<times> files" where
  "transition_arm env t c fs =
     (case t of
        BeginLaunch \<Rightarrow>
          (if phase c = Idle \<or> phase c = AwaitingGoalEntry then apply_phase Launching c else c, fs)
      | LaunchSuccess \<Rightarrow> (if phase c = Launching then apply_phase Active c else c, fs)
      | LaunchFail \<Rightarrow> (if phase c = Launching then apply_phase AwaitingGoalEntry c else c, fs)
      | PauseForManualEdit resume \<Rightarrow>
          (if phase c = Active then apply_phase (PausedManual resume False) c else c, fs)
      | ResumeFromManual \<Rightarrow>
          (if phase_is_paused_manual (phase c) then apply_phase Active c else c, fs)
      | PromptReady \<Rightarrow>
          (if phase c = Active then apply_phase (AwaitingCoordinator True) c else c, fs)
      | SubmitPromptStep \<Rightarrow>
          (case phase c of AwaitingCoordinator _ \<Rightarrow> (apply_phase Active c, fs) | _ \<Rightarrow> (c, fs))
      | AwaitDiagnostics \<Rightarrow>
          (if phase c = Active then apply_phase (AwaitingDiagnostics True) c else c, fs)
      | BeginReview diagnostics_pending \<Rightarrow>
          if phase_waiting_for_response (phase c) \<or> phase c = Active
          then (if review_lock c = None
                then (let (g, fs1) = acquire_review_lock env fs;
                          (c1, fs2) = assign_review_lock env g c fs1
                      in if review_lock c1 = None then (apply_phase Active c1, fs2)
                         else (apply_phase (AwaitingReview diagnostics_pending) c1, fs2))
                else (apply_phase (AwaitingReview diagnostics_pending) c, fs))
          else (c, fs)
      | CompleteReview \<Rightarrow>
          if phase_awaiting_review (phase c)
          then assign_review_lock env None (apply_phase Active c) fs else (c, fs)
      | TransientFailure backoff_ms \<Rightarrow>
          (if phase_is_active (phase c) then apply_phase (TransientRecovery backoff_ms) c else c, fs)
      | RecoveryAttempt \<Rightarrow>
          (if phase_in_transient_recovery (phase c) then apply_phase Active c else c, fs)
      | Stop \<Rightarrow> assign_review_lock env None (apply_phase Idle c) fs)"

definition transition ::
    "review_env \<Rightarrow> phase_transition \<Rightarrow> auto_drive_controller \<Rightarrow> files \<Rightarrow>
       transition_effects \<times> auto_drive_controller \<times> files" where
  "transition env t c fs =
     (let (c1, fs1) = transition_arm env t c fs
      in (\<lparr>te_effects = [], te_phase_changed = phase c \<noteq> phase c1\<rparr>, c1, fs1))"

section \<open>Countdown and intro\<close>

definition countdown_seconds :: "auto_drive_controller \<Rightarrow> u8 option" where
  "countdown_seconds c =
     (case countdown_override c of Some s \<Rightarrow> Some s | None \<Rightarrow> mode_seconds (continue_mode c))"

definition countdown_or_zero :: "auto_drive_controller \<Rightarrow> u8" where
  "countdown_or_zero c = (case countdown_seconds c of Some s \<Rightarrow> s | None \<Rightarrow> 0)"

definition reset_countdown :: "auto_drive_controller \<Rightarrow> auto_drive_controller" where
  "reset_countdown c =
     (let c1 = c\<lparr>seconds_remaining := countdown_or_zero c\<rparr>
      in if seconds_remaining c1 = 0 then c1\<lparr>countdown_decision_seq := 0\<rparr> else c1)"

definition countdown_active :: "auto_drive_controller \<Rightarrow> bool" where
  "countdown_active c \<longleftrightarrow>
     phase_awaiting_submit (phase c) \<and> \<not> phase_is_paused_manual (phase c) \<and>
     (case countdown_seconds c of Some s \<Rightarrow> 0 < s | None \<Rightarrow> False)"

definition reset_intro_timing :: "auto_drive_controller \<Rightarrow> auto_drive_controller" where
  "reset_intro_timing c = c\<lparr>intro_started_at := None, intro_reduced_motion := False\<rparr>"

definition ensure_intro_timing :: "nat \<Rightarrow> bool \<Rightarrow> auto_drive_controller \<Rightarrow> auto_drive_controller" where
  "ensure_intro_timing now reduced_motion c =
     (let c1 = (if intro_started_at c = None then c\<lparr>intro_started_at := Some now\<rparr> else c)
      in c1\<lparr>intro_reduced_motion := reduced_motion\<rparr>)"

definition mark_intro_pending :: "auto_drive_controller \<Rightarrow> auto_drive_controller" where
  "mark_intro_pending c = c\<lparr>intro_pending := True\<rparr>"

definition take_intro_pending :: "auto_drive_controller \<Rightarrow> bool \<times> auto_drive_controller" where
  "take_intro_pending c =
     (if intro_pending c then (True, c\<lparr>intro_pending := False\<rparr>) else (False, c))"

section \<open>Runs\<close>

definition reset ::
    "review_env \<Rightarrow> auto_drive_controller \<Rightarrow> files \<Rightarrow> auto_drive_controller \<times> files" where
  "reset env c fs =
     (let fs1 = (case review_lock c of None \<Rightarrow> fs | Some old \<Rightarrow> drop_guard env old fs);
          c1 = default_controller
            \<lparr>review_enabled := review_enabled c, subagents_enabled := subagents_enabled c,
             cross_check_enabled := cross_check_enabled c,
             qa_automation_enabled := qa_automation_enabled c, continue_mode := continue_mode c\<rparr>;
          c2 = c1
            \<lparr>seconds_remaining :=
               (case mode_seconds (continue_mode c1) of Some s \<Rightarrow> s | None \<Rightarrow> 0),
             intro_pending := intro_pending c, intro_started_at := intro_started_at c,
             intro_reduced_motion := intro_reduced_motion c, elapsed_override := elapsed_override c,
             pending_stop_message := pending_stop_message c,
             last_completion_explanation := last_completion_explanation c\<rparr>;
          (c3, fs2) = assign_review_lock env None c2 fs1
      in (c3\<lparr>phase := (if phase_is_active (phase c3) then Active else Idle)\<rparr>, fs2))"

definition prepare_launch ::
    "review_env \<Rightarrow> nat \<Rightarrow> rstr \<Rightarrow> bool \<Rightarrow> bool \<Rightarrow> bool \<Rightarrow> bool \<Rightarrow> auto_continue_mode \<Rightarrow> bool \<Rightarrow>
       auto_drive_controller \<Rightarrow> files \<Rightarrow> auto_drive_controller \<times> files" where
  "prepare_launch env now new_goal review subagents cross_check qa mode reduced_motion c fs =
     (let (seed_intro, c1) = take_intro_pending c;
          (c2, fs1) = reset env c1 fs;
          c3 = (if seed_intro then mark_intro_pending c2 else c2);
          c4 = c3\<lparr>review_enabled := review, subagents_enabled := subagents,
                  cross_check_enabled := cross_check, qa_automation_enabled := qa,
                  continue_mode := mode\<rparr>;
          c5 = ensure_intro_timing now reduced_motion (reset_countdown c4);
          (_, c6, fs2) = transition env BeginLaunch (c5\<lparr>goal := Some new_goal\<rparr>) fs1
      in (c6, fs2))"

definition launch_succeeded ::
    "rstr \<Rightarrow> rstr option \<Rightarrow> nat \<Rightarrow> auto_drive_controller \<Rightarrow>
       auto_controller_effect list \<times> auto_drive_controller" where
  "launch_succeeded new_goal phrase now c =
     (let c1 = c\<lparr>started_at := Some now, turns_completed := 0, last_run_summary := None,
                 last_completion_explanation := None, goal := Some new_goal,
                 current_summary := None, current_status_sent_to_user := None,
                 current_status_title := None, current_cli_prompt := None,
                 current_cli_context := None, current_cli_model_override := None,
                 current_cli_reasoning_effort_override := None,
                 hide_cli_context_in_ui := False, suppress_next_cli_display := False,
                 current_display_line := None, current_display_is_summary := False,
                 current_reasoning_title := None, current_summary_index := None,
                 placeholder_phrase := phrase, thinking_prefix_stripped := False,
                 last_broadcast_summary := None, countdown_override := None,
                 last_decision_status_sent_to_user := None, last_decision_status_title := None\<rparr>
      in ([LaunchStarted new_goal, RefreshUi],
          apply_phase (AwaitingDiagnostics True) (reset_countdown c1)))"

definition launch_failed ::
    "rstr \<Rightarrow> rstr \<Rightarrow> auto_drive_controller \<Rightarrow> auto_controller_effect list \<times> auto_drive_controller" where
  "launch_failed failed_goal error c =
     (let c1 = mark_intro_pending (c\<lparr>goal := None\<rparr>);
          c2 = reset_countdown (c1\<lparr>countdown_override := None\<rparr>)
      in ([LaunchFailed failed_goal error, ShowGoalEntry, RefreshUi],
          apply_phase AwaitingGoalEntry c2))"

definition stop_run ::
    "review_env \<Rightarrow> nat \<Rightarrow> rstr option \<Rightarrow> auto_drive_controller \<Rightarrow> files \<Rightarrow>
       auto_controller_effect list \<times> auto_drive_controller \<times> files" where
  "stop_run env now message c fs =
     (let duration = (case started_at c of Some start \<Rightarrow> now - start | None \<Rightarrow> 0);
          summary = \<lparr>sum_duration = duration, sum_turns_completed = turns_completed c,
                     sum_message = message, sum_goal = goal c\<rparr>;
          (c1, fs1) = reset env c fs;
          (_, c2, fs2) = transition env Stop (c1\<lparr>last_run_summary := Some summary\<rparr>) fs1;
          c3 = (apply_phase AwaitingGoalEntry c2)\<lparr>pending_stop_message := None\<rparr>
      in ([CancelCoordinator, ResetHistory, ClearCoordinatorView, UpdateTerminalHint None,
           SetTaskRunning False, EnsureInputFocus, StopCompleted summary message, RefreshUi],
          c3, fs2))"

section \<open>Restart after a transient failure\<close>

definition AUTO_RESTART_BASE_DELAY :: nat where
  "AUTO_RESTART_BASE_DELAY = 5 * 1000"

definition AUTO_RESTART_MAX_DELAY :: nat where
  "AUTO_RESTART_MAX_DELAY = 120 * 1000"

definition auto_restart_delay :: "u32 \<Rightarrow> nat" where
  "auto_restart_delay attempt =
     (if attempt = 0 then min AUTO_RESTART_BASE_DELAY AUTO_RESTART_MAX_DELAY
      else (let exponent = min (saturating_sub attempt 1) 5;
                multiplier = push_bit (unat exponent) (1 :: u32);
                delay = AUTO_RESTART_BASE_DELAY * unat multiplier
            in if delay > AUTO_RESTART_MAX_DELAY then AUTO_RESTART_MAX_DELAY else delay))"

definition truncate_error :: "rstr \<Rightarrow> rstr" where
  "truncate_error reason =
     (let content = trim reason
      in if byte_len content \<le> 160 then content else take 160 content @ [8230])"

text \<open>
  \<open>format_duration\<close> of \<open>code-rs/common/src/elapsed.rs\<close> below one hour; restart delays are at most
  two minutes, so its branches for hours and days, which compute in floating point, are not used.
\<close>

definition pad2 :: "nat \<Rightarrow> rstr" where
  "pad2 n = (if n < 10 then 48 # show_nat n else show_nat n)"

definition format_minutes_seconds :: "nat \<Rightarrow> rstr" where
  "format_minutes_seconds ms =
     (let total_seconds = ms div 1000
      in show_nat (total_seconds div 60) @ lit ''m '' @ pad2 (total_seconds mod 60) @ lit ''s'')"

definition format_short_duration :: "nat \<Rightarrow> rstr" where
  "format_short_duration ms =
     (if ms < 1000 then show_nat ms @ lit ''ms''
      else if ms div 1000 < 60 then show_nat (ms div 1000) @ lit ''s''
      else format_minutes_seconds ms)"

definition pause_for_transient_failure ::
    "nat \<Rightarrow> rstr \<Rightarrow> auto_drive_controller \<Rightarrow> auto_controller_effect list \<times> auto_drive_controller" where
  "pause_for_transient_failure now reason c =
     (let pending_attempt = saturating_add (transient_restart_attempts c) 1;
          truncated_reason = truncate_error reason;
          c1 = c\<lparr>current_cli_prompt := None, current_cli_context := None,
                 current_cli_model_override := None, current_cli_reasoning_effort_override := None,
                 hide_cli_context_in_ui := False, suppress_next_cli_display := False,
                 pending_agent_actions := [], pending_agent_timing := None\<rparr>;
          delay = auto_restart_delay pending_attempt;
          c2 = apply_phase (TransientRecovery (of_nat delay)) c1;
          token = restart_token c2 + 1;
          c3 = c2\<lparr>transient_restart_attempts := pending_attempt, restart_token := token,
                  pending_restart := Some \<lparr>rs_token = token, rs_attempt = pending_attempt,
                    rs_reason = truncated_reason\<rparr>\<rparr>;
          waiting = lit ''Waiting for connection'' @ [8230];
          c4 = c3\<lparr>current_display_line := Some (waiting @ lit '' retrying in '' @
                    format_short_duration delay @ lit '' (attempt '' @
                    show_nat (unat pending_attempt) @ lit '')''),
                  current_display_is_summary := True,
                  current_status_title := Some (lit ''Retrying after error''),
                  current_status_sent_to_user := Some (lit ''Encountered an error: '' @
                    truncated_reason @ lit ''. Waiting before retrying.''),
                  placeholder_phrase := Some waiting, thinking_prefix_stripped := False\<rparr>
      in ([CancelCoordinator, SetTaskRunning False,
           UpdateTerminalHint (Some (lit ''Press Esc to exit Auto Drive'')),
           TransientPause pending_attempt delay truncated_reason,
           ScheduleRestart token pending_attempt delay, RefreshUi], c4))"

section \<open>Prompts and the countdown\<close>

definition schedule_cli_prompt ::
    "u64 \<Rightarrow> rstr \<Rightarrow> rstr option \<Rightarrow> reasoning_effort option \<Rightarrow> u8 option \<Rightarrow>
       auto_drive_controller \<Rightarrow> auto_controller_effect list \<times> auto_drive_controller" where
  "schedule_cli_prompt decision_seq prompt_text model effort override c =
     (let c1 = apply_phase (AwaitingCoordinator True)
                 (c\<lparr>current_cli_prompt := Some prompt_text, current_cli_model_override := model,
                    current_cli_reasoning_effort_override := effort\<rparr>);
          c2 = reset_countdown (c1\<lparr>countdown_override := override\<rparr>);
          c3 = c2\<lparr>countdown_id := countdown_id c2 + 1, countdown_decision_seq := decision_seq\<rparr>;
          c4 = c3\<lparr>seconds_remaining := countdown_or_zero c3\<rparr>
      in (RefreshUi # (case countdown_seconds c3 of
                         Some seconds \<Rightarrow> [StartCountdown (countdown_id c3) decision_seq seconds]
                       | None \<Rightarrow> []), c4))"

definition update_continue_mode ::
    "auto_continue_mode \<Rightarrow> auto_drive_controller \<Rightarrow>
       auto_controller_effect list \<times> auto_drive_controller" where
  "update_continue_mode mode c =
     (let c1 = reset_countdown (c\<lparr>continue_mode := mode, countdown_override := None\<rparr>);
          c2 = c1\<lparr>seconds_remaining := countdown_or_zero c1\<rparr>
      in if phase_awaiting_submit (phase c2) \<and> \<not> phase_is_paused_manual (phase c2)
         then (let c3 = c2\<lparr>countdown_id := countdown_id c2 + 1\<rparr>
               in (RefreshUi # (case countdown_seconds c3 of
                     Some seconds \<Rightarrow>
                       [StartCountdown (countdown_id c3) (countdown_decision_seq c3) seconds]
                   | None \<Rightarrow> []), c3))
         else ([RefreshUi], c2))"

definition handle_countdown_tick ::
    "u64 \<Rightarrow> u64 \<Rightarrow> u8 \<Rightarrow> auto_drive_controller \<Rightarrow>
       auto_controller_effect list \<times> auto_drive_controller" where
  "handle_countdown_tick cid decision_seq seconds_left c =
     (if \<not> phase_is_active (phase c) \<or> cid \<noteq> countdown_id c \<or>
         decision_seq \<noteq> countdown_decision_seq c \<or> \<not> phase_awaiting_submit (phase c) \<or>
         phase_is_paused_manual (phase c)
      then ([], c)
      else (let c1 = c\<lparr>seconds_remaining := seconds_left\<rparr>
            in (if seconds_left = 0 then [SubmitPrompt] else [RefreshUi], c1)))"

definition set_bypass_coordinator_next_submit :: "auto_drive_controller \<Rightarrow> auto_drive_controller" where
  "set_bypass_coordinator_next_submit c =
     (case phase c of PausedManual resume _ \<Rightarrow> c\<lparr>phase := PausedManual resume True\<rparr> | _ \<Rightarrow> c)"

definition should_bypass_coordinator_next_submit :: "auto_drive_controller \<Rightarrow> bool" where
  "should_bypass_coordinator_next_submit c =
     (case phase c of PausedManual _ bypass \<Rightarrow> bypass | _ \<Rightarrow> False)"

definition clear_bypass_coordinator_flag :: "auto_drive_controller \<Rightarrow> auto_drive_controller" where
  "clear_bypass_coordinator_flag c =
     (case phase c of PausedManual resume _ \<Rightarrow> c\<lparr>phase := PausedManual resume False\<rparr> | _ \<Rightarrow> c)"

definition resume_after_submit :: "auto_drive_controller \<Rightarrow> bool" where
  "resume_after_submit c =
     (case phase_resume_after_submit (phase c) of Some b \<Rightarrow> b | None \<Rightarrow> False)"

definition is_coordinator_waiting :: "auto_drive_controller \<Rightarrow> bool" where
  "is_coordinator_waiting c \<longleftrightarrow> phase c = AwaitingDiagnostics True"

text \<open>
  The countdown thread sends one tick per second down to zero, or a single tick at once when the
  countdown is zero (or no thread could be started); a tick carries the countdown's id but not
  the decision it was started for, and the handler uses the controller's own.
\<close>

fun countdown_ticks :: "nat \<Rightarrow> u8 list" where
  "countdown_ticks 0 = []"
| "countdown_ticks (Suc n) = of_nat n # countdown_ticks n"

definition auto_spawn_countdown :: "bool \<Rightarrow> u64 \<Rightarrow> u8 \<Rightarrow> (u64 \<times> u8) list" where
  "auto_spawn_countdown spawned cid seconds =
     (if spawned then map (\<lambda>left. (cid, left)) (countdown_ticks (unat seconds)) else [(cid, 0)])"

definition start_countdown :: "bool \<Rightarrow> u64 \<Rightarrow> u8 \<Rightarrow> (u64 \<times> u8) list" where
  "start_countdown spawned cid seconds =
     (if seconds = 0 then [(cid, 0)] else auto_spawn_countdown spawned cid seconds)"

definition auto_handle_countdown ::
    "u64 \<Rightarrow> u8 \<Rightarrow> auto_drive_controller \<Rightarrow> auto_controller_effect list \<times> auto_drive_controller" where
  "auto_handle_countdown cid seconds_left c =
     handle_countdown_tick cid (countdown_decision_seq c) seconds_left c"

section \<open>The controller as a transition system\<close>

text \<open>Every method of the controller that changes it.\<close>

datatype controller_call =
    SetWaitingForResponse bool
  | SetCoordinatorWaiting bool
  | OnPromptReady bool
  | OnPromptSubmitted
  | OnPauseForManual bool
  | OnResumeFromManual
  | OnBeginReview bool
  | OnCompleteReview
  | OnTransientFailure u64
  | OnRecoveryAttempt
  | Transition phase_transition
  | PrepareLaunch nat rstr bool bool bool bool auto_continue_mode bool
  | LaunchSucceeded rstr "rstr option" nat
  | LaunchFailedCall rstr rstr
  | StopRun nat "rstr option"
  | PauseForTransientFailure nat rstr
  | ScheduleCliPrompt u64 rstr "rstr option" "reasoning_effort option" "u8 option"
  | UpdateContinueMode auto_continue_mode
  | CountdownTick u64 u64 u8
  | Reset
  | ResetIntroTiming
  | EnsureIntroTiming nat bool
  | MarkIntroPending
  | TakeIntroPending
  | ResetCountdown
  | SetPhase auto_run_phase
  | SetBypass
  | ClearBypass

fun controller_step ::
    "review_env \<Rightarrow> controller_call \<Rightarrow> auto_drive_controller \<times> files \<Rightarrow> auto_drive_controller \<times> files" where
  "controller_step env (SetWaitingForResponse b) (c, fs) = (set_waiting_for_response b c, fs)"
| "controller_step env (SetCoordinatorWaiting b) (c, fs) = (set_coordinator_waiting b c, fs)"
| "controller_step env (OnPromptReady b) (c, fs) = (on_prompt_ready b c, fs)"
| "controller_step env OnPromptSubmitted (c, fs) = (on_prompt_submitted c, fs)"
| "controller_step env (OnPauseForManual b) (c, fs) = (on_pause_for_manual b c, fs)"
| "controller_step env OnResumeFromManual (c, fs) = on_resume_from_manual env c fs"
| "controller_step env (OnBeginReview b) (c, fs) = on_begin_review env b c fs"
| "controller_step env OnCompleteReview (c, fs) = on_complete_review env c fs"
| "controller_step env (OnTransientFailure ms) (c, fs) = (on_transient_failure ms c, fs)"
| "controller_step env OnRecoveryAttempt (c, fs) = (on_recovery_attempt c, fs)"
| "controller_step env (Transition t) (c, fs) = snd (transition env t c fs)"
| "controller_step env (PrepareLaunch now g r s x q m rm) (c, fs) =
     prepare_launch env now g r s x q m rm c fs"
| "controller_step env (LaunchSucceeded g p now) (c, fs) = (snd (launch_succeeded g p now c), fs)"
| "controller_step env (LaunchFailedCall g e) (c, fs) = (snd (launch_failed g e c), fs)"
| "controller_step env (StopRun now m) (c, fs) = snd (stop_run env now m c fs)"
| "controller_step env (PauseForTransientFailure now r) (c, fs) =
     (snd (pause_for_transient_failure now r c), fs)"
| "controller_step env (ScheduleCliPrompt sq p m e ov) (c, fs) =
     (snd (schedule_cli_prompt sq p m e ov c), fs)"
| "controller_step env (UpdateContinueMode m) (c, fs) = (snd (update_continue_mode m c), fs)"
| "controller_step env (CountdownTick i sq s) (c, fs) = (snd (handle_countdown_tick i sq s c), fs)"
| "controller_step env Reset (c, fs) = reset env c fs"
| "controller_step env ResetIntroTiming (c, fs) = (reset_intro_timing c, fs)"
| "controller_step env (EnsureIntroTiming now b) (c, fs) = (ensure_intro_timing now b c, fs)"
| "controller_step env MarkIntroPending (c, fs) = (mark_intro_pending c, fs)"
| "controller_step env TakeIntroPending (c, fs) = (snd (take_intro_pending c), fs)"
| "controller_step env ResetCountdown (c, fs) = (reset_countdown c, fs)"
| "controller_step env (SetPhase ph) (c, fs) = (c\<lparr>phase := ph\<rparr>, fs)"
| "controller_step env SetBypass (c, fs) = (set_bypass_coordinator_next_submit c, fs)"
| "controller_step env ClearBypass (c, fs) = (clear_bypass_coordinator_flag c, fs)"

end
