(* ===== verification/Auto_Drive_Props.thy ===== *)
theory Auto_Drive_Props
  imports Auto_Drive
begin

text \<open>
  Properties of the Auto Drive controller: reviews of different processes overlap on one lock only after
  the race in clearing a stale lock, stale countdowns, the restart delays and what stopping a run leaves
  behind. The review lock is used through the facts of \<open>guard_lock\<close> and the lemmas on \<open>lock_safe\<close>.
\<close>

section \<open>Frame lemmas\<close>

definition dropped :: "review_env \<Rightarrow> review_guard option \<Rightarrow> files \<Rightarrow> files" where
  "dropped env g fs = (case g of None \<Rightarrow> fs | Some old \<Rightarrow> drop_guard env old fs)"

lemma dropped_None [simp]: "dropped env None fs = fs"
  by (simp add: dropped_def)

lemma assign_review_lock_eq:
  "assign_review_lock env g c fs = (c\<lparr>review_lock := g\<rparr>, dropped env (review_lock c) fs)"
  by (simp add: assign_review_lock_def dropped_def)

lemma apply_phase_simps [simp]:
  "phase (apply_phase ph c) = ph"
  "review_lock (apply_phase ph c) = review_lock c"
  "countdown_id (apply_phase ph c) = countdown_id c"
  "continue_mode (apply_phase ph c) = continue_mode c"
  by (simp_all add: apply_phase_def)

lemma reset_countdown_simps [simp]:
  "phase (reset_countdown c) = phase c"
  "review_lock (reset_countdown c) = review_lock c"
  "countdown_id (reset_countdown c) = countdown_id c"
  "countdown_override (reset_countdown c) = countdown_override c"
  "continue_mode (reset_countdown c) = continue_mode c"
  by (simp_all add: reset_countdown_def Let_def)

lemma intro_simps [simp]:
  "phase (ensure_intro_timing now b c) = phase c"
  "review_lock (ensure_intro_timing now b c) = review_lock c"
  "countdown_id (ensure_intro_timing now b c) = countdown_id c"
  "phase (mark_intro_pending c) = phase c"
  "review_lock (mark_intro_pending c) = review_lock c"
  "countdown_id (mark_intro_pending c) = countdown_id c"
  "phase (snd (take_intro_pending c)) = phase c"
  "review_lock (snd (take_intro_pending c)) = review_lock c"
  "countdown_id (snd (take_intro_pending c)) = countdown_id c"
  by (simp_all add: ensure_intro_timing_def mark_intro_pending_def take_intro_pending_def Let_def)

lemma reset_simps [simp]:
  "phase (fst (reset env c fs)) = Idle"
  "review_lock (fst (reset env c fs)) = None"
  "countdown_id (fst (reset env c fs)) = 0"
  "snd (reset env c fs) = dropped env (review_lock c) fs"
  by (simp_all add: reset_def default_controller_def assign_review_lock_eq Let_def)
    (simp add: dropped_def)

lemma stop_run_simps [simp]:
  "phase (fst (snd (stop_run env now m c fs))) = AwaitingGoalEntry"
  "review_lock (fst (snd (stop_run env now m c fs))) = None"
  "countdown_id (fst (snd (stop_run env now m c fs))) = 0"
  "snd (snd (stop_run env now m c fs)) = dropped env (review_lock c) fs"
  by (simp_all add: stop_run_def transition_def transition_arm_def assign_review_lock_eq
      Let_def split_beta)

lemma prepare_launch_simps [simp]:
  "phase (fst (prepare_launch env now g r s x q m rm c fs)) = Launching"
  "review_lock (fst (prepare_launch env now g r s x q m rm c fs)) = None"
  "countdown_id (fst (prepare_launch env now g r s x q m rm c fs)) = 0"
  "snd (prepare_launch env now g r s x q m rm c fs) = dropped env (review_lock c) fs"
  by (simp_all add: prepare_launch_def transition_def transition_arm_def Let_def split_beta)

lemma launch_simps [simp]:
  "phase (snd (launch_succeeded g p now c)) = AwaitingDiagnostics True"
  "review_lock (snd (launch_succeeded g p now c)) = review_lock c"
  "countdown_id (snd (launch_succeeded g p now c)) = countdown_id c"
  "phase (snd (launch_failed g e c)) = AwaitingGoalEntry"
  "review_lock (snd (launch_failed g e c)) = review_lock c"
  "countdown_id (snd (launch_failed g e c)) = countdown_id c"
  by (simp_all add: launch_succeeded_def launch_failed_def Let_def)

lemma pause_simps [simp]:
  "phase (snd (pause_for_transient_failure now r c)) =
     TransientRecovery (of_nat (auto_restart_delay (saturating_add (transient_restart_attempts c) 1)))"
  "review_lock (snd (pause_for_transient_failure now r c)) = review_lock c"
  "countdown_id (snd (pause_for_transient_failure now r c)) = countdown_id c"
  by (simp_all add: pause_for_transient_failure_def apply_phase_def Let_def)

lemma schedule_simps [simp]:
  "phase (snd (schedule_cli_prompt sq p m e ov c)) = AwaitingCoordinator True"
  "review_lock (snd (schedule_cli_prompt sq p m e ov c)) = review_lock c"
  "countdown_id (snd (schedule_cli_prompt sq p m e ov c)) = countdown_id c + 1"
  "countdown_decision_seq (snd (schedule_cli_prompt sq p m e ov c)) = sq"
  by (simp_all add: schedule_cli_prompt_def Let_def)

lemma schedule_countdown:
  "fst (schedule_cli_prompt sq p m e ov c) =
     RefreshUi # (case countdown_seconds (c\<lparr>countdown_override := ov\<rparr>) of
        Some seconds \<Rightarrow> [StartCountdown (countdown_id c + 1) sq seconds] | None \<Rightarrow> [])"
  by (simp add: schedule_cli_prompt_def countdown_seconds_def Let_def cong: option.case_cong)

lemma update_mode_simps [simp]:
  "phase (snd (update_continue_mode m c)) = phase c"
  "review_lock (snd (update_continue_mode m c)) = review_lock c"
  by (simp_all add: update_continue_mode_def Let_def)

lemma tick_simps [simp]:
  "phase (snd (handle_countdown_tick i sq s c)) = phase c"
  "review_lock (snd (handle_countdown_tick i sq s c)) = review_lock c"
  "countdown_id (snd (handle_countdown_tick i sq s c)) = countdown_id c"
  by (simp_all add: handle_countdown_tick_def Let_def)

section \<open>What a step does to the lock\<close>

inductive lock_effect ::
    "review_env \<Rightarrow> review_guard option \<times> files \<Rightarrow> review_guard option \<times> files \<Rightarrow> bool" for env where
  keep: "lock_effect env (g, fs) (g, fs)"
| bumped: "lock_effect env (g, fs) (g, bump_snapshot_epoch env fs)"
| released: "lock_effect env (g, fs) (None, dropped env g fs)"
| replaced: "acquire_review_lock env fs = (r, fs1) \<Longrightarrow> lock_effect env (g, fs) (r, dropped env g fs1)"

lemma lock_effect_transition:
  "transition_arm env t c fs = (c', fs') \<Longrightarrow> lock_effect env (review_lock c, fs) (review_lock c', fs')"
proof (cases t)
  case (BeginReview b)
  assume step: "transition_arm env t c fs = (c', fs')"
  obtain r fs1 where r: "acquire_review_lock env fs = (r, fs1)" by fastforce
  show ?thesis
  proof (cases "(phase_waiting_for_response (phase c) \<or> phase c = Active) \<and> review_lock c = None")
    case True
    then have "review_lock c' = r" "fs' = fs1"
      using step r unfolding BeginReview transition_arm_def
      by (auto simp: assign_review_lock_eq split: if_splits)
    with True show ?thesis
      using lock_effect.replaced [OF r, of None] by simp
  next
    case False
    then have "review_lock c' = review_lock c" "fs' = fs"
      using step unfolding BeginReview transition_arm_def by (auto split: if_splits)
    then show ?thesis by (simp add: lock_effect.keep)
  qed
qed (auto simp: transition_arm_def assign_review_lock_eq lock_effect.keep lock_effect.released
    split: if_splits auto_run_phase.splits)

lemma lock_effect_begin_review:
  "lock_effect env (review_lock c, fs)
     (review_lock (fst (on_begin_review env b c fs)), snd (on_begin_review env b c fs))"
proof -
  obtain r fs1 where r: "acquire_review_lock env fs = (r, fs1)" by fastforce
  show ?thesis
    using lock_effect.replaced [OF r, of "review_lock c"]
    by (auto simp: on_begin_review_def r assign_review_lock_eq Let_def)
qed

lemma lock_effect_step:
  "lock_effect env (review_lock c, fs)
     (review_lock (fst (controller_step env call (c, fs))), snd (controller_step env call (c, fs)))"
proof (cases call)
  case (Transition t)
  obtain c' fs' where "transition_arm env t c fs = (c', fs')" by fastforce
  then show ?thesis
    using lock_effect_transition [of env t c fs c' fs'] by (simp add: Transition transition_def)
next
  case (OnBeginReview b)
  then show ?thesis by (simp add: lock_effect_begin_review)
qed (simp_all add: lock_effect.keep lock_effect.bumped lock_effect.released set_waiting_for_response_def
    set_coordinator_waiting_def on_prompt_ready_def on_prompt_submitted_def on_pause_for_manual_def
    on_resume_from_manual_def on_complete_review_def assign_review_lock_eq on_transient_failure_def
    on_recovery_attempt_def reset_intro_timing_def set_bypass_coordinator_next_submit_def
    clear_bypass_coordinator_flag_def split: auto_run_phase.splits)

inductive_simps lock_effect_iff: "lock_effect env (g, fs) (g', fs')"

lemma lock_safe_effect:
  assumes eff: "lock_effect env (hold p, fs) (g', fs')"
    and safe: "lock_safe dec process hold lost clears fs"
    and env: "env_ok dec env" "process_id env = process p"
  shows "lock_safe dec process (hold(p := g')) lost (overtake (if g' = hold p then None else g') clears) fs'"
proof -
  have own: "owns_lock dec fs (process p) old" "undisturbed lost hold d = Some old \<Longrightarrow> d = p"
    if "hold p = Some old" "guard_lock_path old \<notin> lost" for old d
    using safe that unfolding lock_safe_def exclusive_def by (metis undisturbed_Some)+
  consider (keep) "g' = hold p" "fs' = fs"
    | (bumped) "g' = hold p" "fs' = bump_snapshot_epoch env fs"
    | (released) "g' = None" "fs' = dropped env (hold p) fs"
    | (replaced) fs1 where "fs' = dropped env (hold p) fs1" "acquire_review_lock env fs = (g', fs1)"
    using eff unfolding lock_effect_iff by blast
  then show ?thesis
  proof cases
    case released
    then show ?thesis
      using safe lock_safe_release [OF safe, of p]
      by (cases "hold p") (simp_all add: dropped_def fun_upd_idem)
  next
    case (replaced fs1)
    note got = replaced(2) [unfolded acquire_review_lock_def]
    have other: "g' \<noteq> Some old" if "hold p = Some old" "guard_lock_path old \<notin> lost" for old
      using own(1) [OF that] review_lock.acquire_free got by metis
    have taken: "lock_safe dec process (hold(p := g')) lost (overtake g' clears) fs1"
      using safe env got by (rule lock_safe_acquire)
    have kept: "lock_safe dec process (hold(p := g')) lost (overtake (if g' = hold p then None else g') clears) fs1"
      using safe taken by (cases "g' = hold p") (auto simp: lock_safe_def fun_upd_idem)
    have "undisturbed lost (hold(p := g')) d \<noteq> Some old" if "hold p = Some old" for old d
      using own(2) [OF that, of d] other [OF that] by (auto simp: undisturbed_Some)
    then show ?thesis
      using kept replaced(1) by (cases "hold p") (simp_all add: dropped_def lock_safe_drop_file)
  qed (use safe in \<open>simp_all add: fun_upd_idem lock_safe_bump\<close>)
qed

section \<open>A review is only awaited with the lock\<close>

definition review_locked :: "auto_drive_controller \<Rightarrow> bool" where
  "review_locked c \<longleftrightarrow> (phase_awaiting_review (phase c) \<longrightarrow> review_lock c \<noteq> None)"

text \<open>The callers set the phase directly to other phases only.\<close>

fun call_allowed :: "controller_call \<Rightarrow> bool" where
  "call_allowed (SetPhase ph) = (\<not> phase_awaiting_review ph)"
| "call_allowed _ = True"

lemma review_locked_transition:
  "review_locked c \<Longrightarrow> review_locked (fst (transition_arm env t c fs))"
  by (cases t) (auto simp: review_locked_def transition_arm_def assign_review_lock_eq Let_def
      split_beta split: auto_run_phase.splits)

lemma review_locked_step:
  assumes "review_locked c" and "call_allowed call"
  shows "review_locked (fst (controller_step env call (c, fs)))"
proof (cases call)
  case (Transition t)
  then show ?thesis
    using review_locked_transition [OF assms(1)] by (simp add: transition_def split_beta Let_def)
next
  case (OnBeginReview b)
  then show ?thesis
    by (auto simp: on_begin_review_def review_locked_def Let_def split_beta)
qed (use assms in \<open>auto simp: review_locked_def set_waiting_for_response_def
    set_coordinator_waiting_def on_prompt_ready_def on_prompt_submitted_def on_pause_for_manual_def
    on_resume_from_manual_def on_complete_review_def assign_review_lock_eq on_transient_failure_def
    on_recovery_attempt_def reset_intro_timing_def set_bypass_coordinator_next_submit_def
    clear_bypass_coordinator_flag_def split: auto_run_phase.splits\<close>)

section \<open>Several processes\<close>

text \<open>
  One controller per process over a shared file system. A process may also clear stale locks, in the
  steps of \<open>Review_Lock\<close>: the pending removals and the locks lost to them are part of the state. A call
  that leaves the controller with another guard acquired it.
\<close>

record drive_system =
  drive_files :: files
  drives :: "u32 \<Rightarrow> auto_drive_controller option"
  drive_clears :: "pending_removal list"
  drive_lost :: "file_path set"

definition drive_env :: "(rstr \<Rightarrow> review_lock_info option) \<Rightarrow> drive_system \<Rightarrow> review_env \<Rightarrow> bool" where
  "drive_env dec s env \<longleftrightarrow>
     env_ok dec env \<and> (\<forall>q c. drives s q = Some c \<longrightarrow> pid_alive env q)"

definition acquired :: "auto_drive_controller \<Rightarrow> auto_drive_controller \<Rightarrow> review_guard option" where
  "acquired c c' = (if review_lock c' = review_lock c then None else review_lock c')"

inductive drive_step ::
    "(rstr \<Rightarrow> review_lock_info option) \<Rightarrow> drive_system \<Rightarrow> drive_system \<Rightarrow> bool" for dec where
  call: "drives s p = Some c \<Longrightarrow> drive_env dec s env \<Longrightarrow> process_id env = p \<Longrightarrow> call_allowed call \<Longrightarrow>
    controller_step env call (c, drive_files s) = (c', fs') \<Longrightarrow>
    drive_step dec s (s\<lparr>drive_files := fs', drives := (drives s)(p \<mapsto> c'),
      drive_clears := overtake (acquired c c') (drive_clears s)\<rparr>)"
| read_lock: "drive_env dec s env \<Longrightarrow> lock_path env scope = Inr p \<Longrightarrow>
    read_lock_info env scope (drive_files s) = Some info \<Longrightarrow>
    drive_step dec s (s\<lparr>drive_clears := (process_id env, scope, p, Some (info_pid info), False) # drive_clears s\<rparr>)"
| found_dead: "drive_env dec s env \<Longrightarrow> (process_id env, scope, p, Some owner, overtaken) \<in> set (drive_clears s) \<Longrightarrow>
    \<not> pid_alive env owner \<Longrightarrow>
    drive_step dec s (s\<lparr>drive_clears := (process_id env, scope, p, None, overtaken) #
      remove1 (process_id env, scope, p, Some owner, overtaken) (drive_clears s)\<rparr>)"
| found_alive: "drive_env dec s env \<Longrightarrow> (process_id env, scope, p, Some owner, overtaken) \<in> set (drive_clears s) \<Longrightarrow>
    pid_alive env owner \<Longrightarrow>
    drive_step dec s (s\<lparr>drive_clears := remove1 (process_id env, scope, p, Some owner, overtaken) (drive_clears s)\<rparr>)"
| remove_stale: "drive_env dec s env \<Longrightarrow> (process_id env, scope, p, None, overtaken) \<in> set (drive_clears s) \<Longrightarrow>
    lock_path env scope = Inr p \<Longrightarrow>
    drive_step dec s (s\<lparr>drive_files := snd (remove_stale_lock env scope (drive_files s)),
      drive_clears := remove1 (process_id env, scope, p, None, overtaken) (drive_clears s),
      drive_lost := lost_by (process_id env, scope, p, None, overtaken) (drive_lost s)\<rparr>)"
| start: "drives s p = None \<Longrightarrow> drive_step dec s (s\<lparr>drives := (drives s)(p \<mapsto> default_controller)\<rparr>)"
| crash: "drive_step dec s (s\<lparr>drives := (drives s)(p := None),
    drive_clears := filter (\<lambda>c. fst c \<noteq> p) (drive_clears s)\<rparr>)"

definition held_by :: "drive_system \<Rightarrow> u32 \<Rightarrow> review_guard option" where
  "held_by s p = Option.bind (drives s p) review_lock"

definition locks_safe :: "(rstr \<Rightarrow> review_lock_info option) \<Rightarrow> drive_system \<Rightarrow> bool" where
  "locks_safe dec s \<longleftrightarrow> lock_safe dec id (held_by s) (drive_lost s) (drive_clears s) (drive_files s)"

definition drive_inv :: "(rstr \<Rightarrow> review_lock_info option) \<Rightarrow> drive_system \<Rightarrow> bool" where
  "drive_inv dec s \<longleftrightarrow> locks_safe dec s \<and> (\<forall>p c. drives s p = Some c \<longrightarrow> review_locked c)"

lemma held_by_upd [simp]:
  "held_by (s\<lparr>drive_files := fs, drives := (drives s)(p \<mapsto> c)\<rparr>) = (held_by s)(p := review_lock c)"
  "held_by (s\<lparr>drives := (drives s)(p := None)\<rparr>) = (held_by s)(p := None)"
  "held_by (s\<lparr>drive_files := fs\<rparr>) = held_by s"
  "held_by (s\<lparr>drive_clears := cl\<rparr>) = held_by s"
  "held_by (s\<lparr>drive_lost := l\<rparr>) = held_by s"
  by (auto simp: held_by_def fun_eq_iff)

lemma held_by_alive: "drive_env dec s env \<Longrightarrow> held_by s q = Some g \<Longrightarrow> pid_alive env q"
  by (auto simp: drive_env_def held_by_def bind_eq_Some_conv)

lemma drive_inv_step: "drive_step dec s s' \<Longrightarrow> drive_inv dec s \<Longrightarrow> drive_inv dec s'"
proof (induction rule: drive_step.induct)
  case (call s p c env call c' fs')
  then have held: "held_by s p = review_lock c"
    by (simp add: held_by_def)
  then have "lock_effect env (held_by s p, drive_files s) (review_lock c', fs')"
    using lock_effect_step [of env c "drive_files s" call] call by simp
  then have "lock_safe dec id ((held_by s)(p := review_lock c')) (drive_lost s)
      (overtake (acquired c c') (drive_clears s)) fs'"
    using call unfolding acquired_def held [symmetric]
    by (intro lock_safe_effect) (auto simp: drive_inv_def locks_safe_def drive_env_def)
  moreover have "review_locked c'"
    using review_locked_step [of c call env "drive_files s"] call by (auto simp: drive_inv_def)
  ultimately show ?case
    using call unfolding drive_inv_def locks_safe_def held_by_upd by auto
next
  case (read_lock s env scope p info)
  then show ?case
    by (auto simp: drive_inv_def locks_safe_def drive_env_def intro!: lock_safe_read)
next
  case (found_dead s env scope p owner overtaken)
  then show ?case
    unfolding drive_inv_def locks_safe_def
    by (auto intro!: lock_safe_dead dest: held_by_alive simp del: split_paired_All)
next
  case (found_alive s env scope p owner overtaken)
  then show ?case
    using set_remove1_subset [of "(process_id env, scope, p, Some owner, overtaken)" "drive_clears s"]
    unfolding drive_inv_def locks_safe_def by (auto intro: lock_safe_fewer simp del: split_paired_All)
next
  case (remove_stale s env scope p overtaken)
  then show ?case
    by (auto simp: drive_inv_def locks_safe_def intro!: lock_safe_remove)
next
  case (start s p)
  then have "held_by (s\<lparr>drives := (drives s)(p \<mapsto> default_controller)\<rparr>) = held_by s"
    by (auto simp: held_by_def fun_eq_iff default_controller_def)
  with start show ?case
    by (auto simp: drive_inv_def locks_safe_def review_locked_def default_controller_def)
next
  case (crash s p)
  have "lock_safe dec id ((held_by s)(p := None)) (drive_lost s) (filter (\<lambda>c. fst c \<noteq> p) (drive_clears s)) (drive_files s)"
    by (rule lock_safe_fewer [of _ _ "held_by s" _ "drive_clears s"])
      (use crash in \<open>auto simp: drive_inv_def locks_safe_def\<close>)
  with crash show ?case
    by (auto simp: drive_inv_def locks_safe_def)
qed

section \<open>Countdown ids\<close>

fun keeps_run :: "controller_call \<Rightarrow> bool" where
  "keeps_run (PrepareLaunch _ _ _ _ _ _ _ _) = False"
| "keeps_run (StopRun _ _) = False"
| "keeps_run Reset = False"
| "keeps_run _ = True"

fun is_schedule :: "controller_call \<Rightarrow> bool" where
  "is_schedule (ScheduleCliPrompt _ _ _ _ _) = True"
| "is_schedule _ = False"

fun controller_steps ::
    "(review_env \<times> controller_call) list \<Rightarrow> auto_drive_controller \<times> files \<Rightarrow>
       auto_drive_controller \<times> files" where
  "controller_steps [] s = s"
| "controller_steps ((env, call) # calls) s = controller_steps calls (controller_step env call s)"

lemma countdown_id_transition: "countdown_id (fst (transition_arm env t c fs)) = countdown_id c"
  by (cases t) (simp_all add: transition_arm_def assign_review_lock_eq Let_def split_beta
      split: auto_run_phase.splits)

lemma countdown_id_update_mode:
  "countdown_id (snd (update_continue_mode m c)) = countdown_id c \<or>
   countdown_id (snd (update_continue_mode m c)) = countdown_id c + 1"
  by (simp add: update_continue_mode_def Let_def)

lemma countdown_id_step:
  assumes "keeps_run call"
  shows "countdown_id (fst (controller_step env call (c, fs))) = countdown_id c + 1 \<or>
    (\<not> is_schedule call \<and> countdown_id (fst (controller_step env call (c, fs))) = countdown_id c)"
proof (cases call)
  case (Transition t)
  then show ?thesis
    by (simp add: transition_def split_beta Let_def countdown_id_transition)
next
  case (UpdateContinueMode m)
  then show ?thesis using countdown_id_update_mode [of m c] by auto
qed (use assms in \<open>auto simp: on_begin_review_def Let_def split_beta set_waiting_for_response_def
    set_coordinator_waiting_def on_prompt_ready_def on_prompt_submitted_def on_pause_for_manual_def
    on_resume_from_manual_def on_complete_review_def assign_review_lock_eq on_transient_failure_def
    on_recovery_attempt_def reset_intro_timing_def set_bypass_coordinator_next_submit_def
    clear_bypass_coordinator_flag_def split: auto_run_phase.splits\<close>)

lemma countdown_id_steps:
  assumes "list_all (keeps_run \<circ> snd) calls"
  shows "\<exists>k. length (filter (is_schedule \<circ> snd) calls) \<le> k \<and> k \<le> length calls \<and>
    countdown_id (fst (controller_steps calls (c, fs))) = countdown_id c + of_nat k"
  using assms
proof (induction calls arbitrary: c fs)
  case Nil
  then show ?case by simp
next
  case (Cons ec calls)
  obtain env call where ec: "ec = (env, call)" by fastforce
  obtain c1 fs1 where step: "controller_step env call (c, fs) = (c1, fs1)" by fastforce
  obtain k where k: "length (filter (is_schedule \<circ> snd) calls) \<le> k" "k \<le> length calls"
      "countdown_id (fst (controller_steps calls (c1, fs1))) = countdown_id c1 + of_nat k"
    using Cons.IH [of c1 fs1] Cons.prems by (auto simp: ec comp_def)
  consider "countdown_id c1 = countdown_id c + 1"
    | "\<not> is_schedule call" "countdown_id c1 = countdown_id c"
    using countdown_id_step [of call env c fs] Cons.prems by (auto simp: ec step)
  then show ?case
  proof cases
    case 1
    with k show ?thesis
      by (intro exI [of _ "Suc k"]) (simp add: ec step comp_def algebra_simps)
  next
    case 2
    with k show ?thesis by (intro exI [of _ k]) (simp add: ec step comp_def)
  qed
qed

fun run_ticks ::
    "(u64 \<times> u8) list \<Rightarrow> auto_drive_controller \<Rightarrow> auto_controller_effect list \<times> auto_drive_controller" where
  "run_ticks [] c = ([], c)"
| "run_ticks ((i, left) # ticks) c =
     (let (effs, c1) = auto_handle_countdown i left c; (rest, c2) = run_ticks ticks c1
      in (effs @ rest, c2))"

lemma tick_accepted:
  assumes "phase c = AwaitingCoordinator True" and "i = countdown_id c"
  shows "auto_handle_countdown i left c =
    ([if left = 0 then SubmitPrompt else RefreshUi], c\<lparr>seconds_remaining := left\<rparr>)"
  using assms
  by (simp add: auto_handle_countdown_def handle_countdown_tick_def phase_awaiting_submit_def)

lemma of_nat_u8_0_iff: "n < 256 \<Longrightarrow> (of_nat n :: u8) = 0 \<longleftrightarrow> n = 0"
  by (auto simp: word_of_nat_eq_0_iff dest: dvd_imp_le)

lemma run_countdown:
  assumes "phase c = AwaitingCoordinator True" and "n < 256"
  shows "fst (run_ticks (map (\<lambda>left. (countdown_id c, left)) (countdown_ticks (Suc n))) c) =
    replicate n RefreshUi @ [SubmitPrompt]"
  using assms
proof (induction n arbitrary: c)
  case 0
  then show ?case by (simp add: tick_accepted)
next
  case (Suc n)
  let ?c1 = "c\<lparr>seconds_remaining := of_nat (Suc n)\<rparr>"
  have "fst (run_ticks (map (\<lambda>left. (countdown_id ?c1, left)) (countdown_ticks (Suc n))) ?c1) =
      replicate n RefreshUi @ [SubmitPrompt]"
    using Suc.prems by (intro Suc.IH) simp_all
  moreover have "(of_nat (Suc n) :: u8) \<noteq> 0"
    using Suc.prems of_nat_u8_0_iff [of "Suc n"] by simp
  ultimately show ?case
    using Suc.prems by (simp add: tick_accepted split_beta Let_def del: of_nat_Suc)
qed

section \<open>Restart delays\<close>

lemma unat_exponent: "unat (min (saturating_sub attempt 1) (5 :: u32)) = min (unat attempt - 1) 5"
proof (cases "attempt = 0")
  case True
  then show ?thesis by (simp add: saturating_sub_def min_def)
next
  case False
  then have "1 \<le> attempt"
    by (simp add: word_le_nat_alt unat_eq_0 Suc_le_eq unat_gt_0)
  then have "unat (saturating_sub attempt 1) = unat attempt - 1"
    by (simp add: saturating_sub_def unat_sub)
  then show ?thesis
    by (simp add: min_def word_le_nat_alt)
qed

lemma unat_shifted_one: "n \<le> 5 \<Longrightarrow> unat (push_bit n (1 :: u32)) = 2 ^ n"
proof -
  assume "n \<le> 5"
  then consider "n = 0" | "n = 1" | "n = 2" | "n = 3" | "n = 4" | "n = 5" by linarith
  then show ?thesis by cases (simp_all add: push_bit_eq_mult)
qed

lemma on_begin_review_acquires:
  assumes "acquire_review_lock env fs = (Some g, fs')" and "review_lock c = None"
  shows "on_begin_review env b c fs = (c\<lparr>phase := AwaitingReview b, review_lock := Some g\<rparr>, fs')"
  using assms by (simp add: on_begin_review_def assign_review_lock_eq apply_phase_def)

text \<open>A second environment, for a repository with another key.\<close>

definition other_env :: "u32 \<Rightarrow> review_env" where
  "other_env pid = (sample_env pid)\<lparr>crc32_hash := (\<lambda>_. 8)\<rparr>"

definition other_lock :: file_path where
  "other_lock = [lit ''home'', lit ''state'', lit ''review'', lit ''repo-'' @ hex08 8, LOCK_FILENAME]"

lemma locks_differ: "sample_lock \<noteq> other_lock"
  by (simp add: sample_lock_def other_lock_def hex08_def hex_digit_def upt_rec)

lemma other_env_ok: "env_ok sample_dec (other_env pid)"
  using sample_env_ok [of pid] by (simp add: other_env_def env_ok_def)

lemma sample_alive [simp]:
  "process_id (sample_env pid) = pid" "process_id (other_env pid) = pid"
  "pid_alive (sample_env pid) 1" "pid_alive (sample_env pid) 2"
  "pid_alive (other_env pid) 1" "pid_alive (other_env pid) 2"
  by (simp_all add: sample_env_def other_env_def pid_alive_def)

lemma sample_review_lock:
  "\<exists>fs. acquire_review_lock (sample_env 1) Map.empty = (Some \<lparr>guard_lock_path = sample_lock\<rparr>, fs) \<and>
     fs other_lock = None"
  using locks_differ sample_lock_path [of 1 "lit ''.''"]
  by (simp add: acquire_review_lock_def acquire_guard_def try_acquire_lock_def open_create_new_def
      Let_def, simp add: sample_env_def)

lemma other_review_lock:
  assumes "fs other_lock = None"
  shows "\<exists>fs'. acquire_review_lock (other_env 2) fs = (Some \<lparr>guard_lock_path = other_lock\<rparr>, fs')"
proof -
  have "lock_path (other_env 2) (Some (lit ''.'')) = Inr other_lock"
    by (simp add: lock_eval other_env_def other_lock_def scope_key_def)
  with assms show ?thesis
    by (simp add: acquire_review_lock_def acquire_guard_def try_acquire_lock_def open_create_new_def
        Let_def domIff, simp add: other_env_def sample_env_def)
qed

section \<open>Properties\<close>

text \<open>
  (C7) Safety: reviews of different processes overlap only through one race. Start with no process; let
  processes start, crash, call any method of their controller (the phase is not forced to the review phase
  from outside), go through the steps of clearing stale locks in any order and meet any file errors. Then a
  controller that awaits a review holds a guard, and two controllers of different processes that both await
  one hold guards for different lock files, unless a process has removed, as stale, a lock of that path that
  was acquired after it had read the one it took for stale.
\<close>

theorem review_overlap_needs_race:
  assumes "drives s = (\<lambda>_. None)" and "drive_clears s = []" and "(drive_step dec)\<^sup>*\<^sup>* s t"
    and "drives t p = Some c" and "phase_awaiting_review (phase c)"
    and "drives t q = Some d" and "phase_awaiting_review (phase d)"
  shows "\<exists>g h. review_lock c = Some g \<and> review_lock d = Some h \<and>
      (p \<noteq> q \<longrightarrow> guard_lock_path g \<noteq> guard_lock_path h \<or> guard_lock_path g \<in> drive_lost t)"
proof -
  have "drive_inv dec s"
    using assms(1,2) lock_safe_start [of "held_by s"] by (simp add: drive_inv_def locks_safe_def held_by_def)
  with assms(3) have inv: "drive_inv dec t"
    by (induction rule: rtranclp_induct) (auto intro: drive_inv_step)
  then have safe: "lock_safe dec id (held_by t) (drive_lost t) (drive_clears t) (drive_files t)"
    by (simp add: drive_inv_def locks_safe_def)
  have "review_locked c" "review_locked d"
    using inv assms(4,6) by (auto simp: drive_inv_def)
  then obtain g h where g: "review_lock c = Some g" and h: "review_lock d = Some h"
    using assms(5,7) by (auto simp: review_locked_def)
  then have "held_by t p = Some g" "held_by t q = Some h"
    using assms(4,6) by (simp_all add: held_by_def)
  then have "guard_lock_path g \<in> drive_lost t \<or> p = q" if "guard_lock_path g = guard_lock_path h"
    using lock_safe_shared [OF safe] that by blast
  with g h show ?thesis by blast
qed

theorem review_overlap_needs_race_witness:
  "\<exists>t c d g h. (drive_step sample_dec)\<^sup>*\<^sup>*
       \<lparr>drive_files = Map.empty, drives = (\<lambda>_. None), drive_clears = [], drive_lost = {}\<rparr> t \<and>
     drives t 1 = Some c \<and> phase c = AwaitingReview False \<and>
     drives t 2 = Some d \<and> phase d = AwaitingReview True \<and>
     review_lock c = Some g \<and> review_lock d = Some h \<and> drive_lost t = {} \<and> guard_lock_path g \<noteq> guard_lock_path h"
proof -
  let ?s0 = "\<lparr>drive_files = Map.empty, drives = (\<lambda>_. None), drive_clears = [], drive_lost = {}\<rparr>"
  let ?s1 = "?s0\<lparr>drives := (drives ?s0)(1 \<mapsto> default_controller)\<rparr>"
  let ?s2 = "?s1\<lparr>drives := (drives ?s1)(2 \<mapsto> default_controller)\<rparr>"
  let ?g = "\<lparr>guard_lock_path = sample_lock\<rparr>" and ?e2 = "other_env 2"
  let ?c = "default_controller\<lparr>phase := AwaitingReview False, review_lock := Some ?g\<rparr>"
  obtain fs1 where fs1: "acquire_review_lock (sample_env 1) Map.empty = (Some ?g, fs1)"
      "fs1 other_lock = None"
    using sample_review_lock by blast
  obtain fs2 where fs2: "acquire_review_lock ?e2 fs1 = (Some \<lparr>guard_lock_path = other_lock\<rparr>, fs2)"
    using other_review_lock [of fs1, OF fs1(2)] by blast
  let ?d = "default_controller\<lparr>phase := AwaitingReview True,
    review_lock := Some \<lparr>guard_lock_path = other_lock\<rparr>\<rparr>"
  let ?s3 = "?s2\<lparr>drive_files := fs1, drives := (drives ?s2)(1 \<mapsto> ?c), drive_clears := overtake (acquired default_controller ?c) (drive_clears ?s2)\<rparr>"
  let ?s4 = "?s3\<lparr>drive_files := fs2, drives := (drives ?s3)(2 \<mapsto> ?d), drive_clears := overtake (acquired default_controller ?d) (drive_clears ?s3)\<rparr>"
  have free: "review_lock default_controller = None" by (simp add: default_controller_def)
  have "drive_step sample_dec ?s0 ?s1" "drive_step sample_dec ?s1 ?s2"
    by (rule drive_step.start, simp)+
  moreover have "drive_step sample_dec ?s2 ?s3"
    by (rule drive_step.call [of _ 1 default_controller _ "sample_env 1" "OnBeginReview False"])
      (simp_all add: drive_env_def sample_env_ok sample_alive on_begin_review_acquires [OF fs1(1) free])
  moreover have "drive_step sample_dec ?s3 ?s4"
    by (rule drive_step.call [of _ 2 default_controller _ ?e2 "OnBeginReview True"])
      (simp_all add: drive_env_def other_env_ok sample_alive on_begin_review_acquires [OF fs2 free])
  ultimately have steps: "(drive_step sample_dec)\<^sup>*\<^sup>* ?s0 ?s4"
    by (meson rtranclp.rtrancl_into_rtrancl rtranclp.rtrancl_refl)
  have "drives ?s4 1 = Some ?c" "drives ?s4 2 = Some ?d" by simp_all
  then have "\<exists>g h. review_lock ?c = Some g \<and> review_lock ?d = Some h \<and>
      ((1 :: u32) \<noteq> 2 \<longrightarrow> guard_lock_path g \<noteq> guard_lock_path h \<or> guard_lock_path g \<in> drive_lost ?s4)"
    using review_overlap_needs_race [OF _ _ steps, of 1 ?c 2 ?d] by simp
  with steps show ?thesis by (intro exI [of _ ?s4] exI [of _ ?c] exI [of _ ?d]) auto
qed

text \<open>
  A countdown dies when a newer prompt is scheduled. After any calls that stay within the
  run (no launch, stop or reset), fewer than 2^64 of them and at least one scheduling a prompt,
  a tick of the countdown that was current before is ignored, whatever decision and seconds it
  carries: the controller is unchanged and nothing is submitted.
\<close>

theorem stale_countdown_ignored:
  assumes "list_all (keeps_run \<circ> snd) calls" and "list_ex (is_schedule \<circ> snd) calls"
    and "length calls < 2 ^ 64" and "controller_steps calls (c, fs) = (c', fs')"
  shows "handle_countdown_tick (countdown_id c) decision_seq seconds_left c' = ([], c')"
proof -
  obtain k where k: "length (filter (is_schedule \<circ> snd) calls) \<le> k" "k \<le> length calls"
      "countdown_id c' = countdown_id c + of_nat k"
    using countdown_id_steps [OF assms(1), of c fs] assms(4) by auto
  have "0 < length (filter (is_schedule \<circ> snd) calls)"
    using assms(2) by (auto simp: list_ex_iff filter_empty_conv)
  with k assms(3) have "0 < k" "k < 2 ^ 64" by linarith+
  then have "(of_nat k :: u64) \<noteq> 0"
    by (auto simp: word_of_nat_eq_0_iff dest: dvd_imp_le)
  with k(3) have "countdown_id c \<noteq> countdown_id c'" by simp
  then show ?thesis by (simp add: handle_countdown_tick_def)
qed

theorem stale_countdown_ignored_witness:
  "handle_countdown_tick 0 7 0
     (snd (schedule_cli_prompt 8 (lit ''go'') None None None default_controller)) =
   ([], snd (schedule_cli_prompt 8 (lit ''go'') None None None default_controller))"
  using stale_countdown_ignored
    [of "[(sample_env 1, ScheduleCliPrompt 8 (lit ''go'') None None None)]" default_controller
      Map.empty "snd (schedule_cli_prompt 8 (lit ''go'') None None None default_controller)"
      Map.empty 7 0]
  by (simp add: default_controller_def)

text \<open>
  (C35) A scheduled prompt is submitted exactly once. When \<open>schedule_cli_prompt\<close> starts a countdown
  and nothing else happens, handling the ticks of its thread refreshes the display once for every
  second but the last and then submits, for every \<open>u8\<close> number of seconds; without a thread the
  prompt is submitted at once. In manual mode without an override no countdown is started.
\<close>

theorem countdown_submits_once:
  "case countdown_seconds (c\<lparr>countdown_override := override\<rparr>) of
     None \<Rightarrow> fst (schedule_cli_prompt sq prompt model effort override c) = [RefreshUi]
   | Some seconds \<Rightarrow>
      (let (effs, c1) = schedule_cli_prompt sq prompt model effort override c
       in effs = [RefreshUi, StartCountdown (countdown_id c1) sq seconds] \<and>
          fst (run_ticks (start_countdown spawned (countdown_id c1) seconds) c1) =
            (if spawned then replicate (unat seconds - 1) RefreshUi else []) @ [SubmitPrompt])"
proof (cases "countdown_seconds (c\<lparr>countdown_override := override\<rparr>)")
  case None
  then show ?thesis
    by (simp add: schedule_countdown)
next
  case (Some seconds)
  let ?r = "schedule_cli_prompt sq prompt model effort override c"
  have effs: "fst ?r = [RefreshUi, StartCountdown (countdown_id (snd ?r)) sq seconds]"
    using Some by (simp add: schedule_countdown)
  have ph: "phase (snd ?r) = AwaitingCoordinator True" by simp
  have "fst (run_ticks (start_countdown spawned (countdown_id (snd ?r)) seconds) (snd ?r)) =
      (if spawned then replicate (unat seconds - 1) RefreshUi else []) @ [SubmitPrompt]"
  proof (cases "seconds = 0 \<or> \<not> spawned")
    case True
    have "run_ticks [(countdown_id (snd ?r), 0)] (snd ?r) =
        ([SubmitPrompt], (snd ?r)\<lparr>seconds_remaining := 0\<rparr>)"
      using ph by (simp add: tick_accepted)
    with True show ?thesis by (auto simp: start_countdown_def auto_spawn_countdown_def)
  next
    case False
    then obtain n where n: "unat seconds = Suc n"
      by (metis not0_implies_Suc unat_eq_zero)
    have "unat seconds < 2 ^ LENGTH(8)" by (rule unsigned_less)
    with n False show ?thesis
      using run_countdown [OF ph, of n] by (simp add: start_countdown_def auto_spawn_countdown_def del: countdown_ticks.simps)
  qed
  with Some effs show ?thesis by (simp add: split_beta Let_def)
qed

text \<open>
  The restart delay is exponential with a cap: five seconds for the first attempt, doubled
  with each further one, and never more than two minutes, for every \<open>u32\<close> attempt.
\<close>

theorem auto_restart_delay_backoff:
  "auto_restart_delay attempt = min (5000 * 2 ^ (unat attempt - 1)) 120000"
proof (cases "attempt = 0")
  case True
  then show ?thesis
    by (simp add: auto_restart_delay_def AUTO_RESTART_BASE_DELAY_def AUTO_RESTART_MAX_DELAY_def)
next
  case False
  have capped: "min (5000 * 2 ^ (min n 5)) 120000 = min (5000 * 2 ^ n) (120000 :: nat)" for n
  proof (cases "n \<le> 5")
    case False
    then have "(2 :: nat) ^ 5 \<le> 2 ^ n" by (intro power_increasing) simp_all
    with False show ?thesis by (simp add: min_def)
  qed simp
  have shifted: "unat (push_bit (unat (min (saturating_sub attempt 1) 5)) (1 :: u32)) =
      2 ^ min (unat attempt - 1) 5"
    unfolding unat_exponent by (rule unat_shifted_one) simp
  have "auto_restart_delay attempt = min (5000 * 2 ^ (min (unat attempt - 1) 5)) 120000"
    using False unfolding auto_restart_delay_def Let_def shifted
    by (simp add: AUTO_RESTART_BASE_DELAY_def AUTO_RESTART_MAX_DELAY_def)
  with capped show ?thesis by simp
qed

text \<open>
  Every run's first countdown has the id 1, and a tick with that id submits the prompt of
  any later run too: \<open>reset\<close> sets the countdown id back, and the tick handler compares the
  decision of the controller with itself. So a countdown left over from a stopped run submits the
  next run's first prompt before its own countdown has ended.
\<close>

theorem first_countdown_id_repeats:
  "let (c1, fs1) = prepare_launch env now new_goal r s x q TenSeconds rm c fs;
       c2 = snd (launch_succeeded new_goal phrase t c1);
       (effs, c3) = schedule_cli_prompt sq prompt model effort None c2
   in StartCountdown 1 sq 10 \<in> set effs \<and>
      fst (auto_handle_countdown 1 0 c3) = [SubmitPrompt]"
proof -
  let ?c1 = "fst (prepare_launch env now new_goal r s x q TenSeconds rm c fs)"
  let ?c2 = "snd (launch_succeeded new_goal phrase t ?c1)"
  let ?r = "schedule_cli_prompt sq prompt model effort None ?c2"
  have mode: "continue_mode ?c2 = TenSeconds"
    by (simp add: prepare_launch_def transition_def transition_arm_def launch_succeeded_def
        reset_countdown_def ensure_intro_timing_def apply_phase_def Let_def split_beta)
  have c3: "countdown_id (snd ?r) = 1" "phase (snd ?r) = AwaitingCoordinator True" by simp_all
  have "StartCountdown 1 sq 10 \<in> set (fst ?r)"
    using mode by (simp add: schedule_countdown countdown_seconds_def)
  with c3 show ?thesis
    using tick_accepted [OF c3(2), of 1 0] by (simp add: split_beta Let_def)
qed

text \<open>
  Asking for a review while the controller already holds the lock gives the lock up: the
  attempt to acquire it fails on the controller's own lock file, assigning the result drops the
  guard that was held, the file is removed and the phase falls back to active.
\<close>

theorem begin_review_again_loses_lock:
  assumes "review_lock c = Some g" and "lock_path env (Some (lit ''.'')) = Inr (guard_lock_path g)"
    and "fs (guard_lock_path g) = Some content" and "\<not> remove_fails env"
  shows "on_begin_review env b c fs =
    (c\<lparr>phase := Active, review_lock := None\<rparr>, fs(guard_lock_path g := None))"
proof -
  have "acquire_review_lock env fs = (None, fs)"
    using assms(2,3)
    by (simp add: acquire_review_lock_def acquire_guard_def try_acquire_lock_def
        open_create_new_def domI)
  then show ?thesis
    using assms by (simp add: on_begin_review_def assign_review_lock_eq apply_phase_def dropped_def
        drop_guard_def remove_file_def)
qed

theorem begin_review_again_loses_lock_witness:
  "on_begin_review (sample_env 1) False
     (default_controller\<lparr>review_lock := Some \<lparr>guard_lock_path = sample_lock\<rparr>\<rparr>)
     (Map.empty(sample_lock \<mapsto> [])) =
   (default_controller\<lparr>phase := Active, review_lock := None\<rparr>, Map.empty)"
proof -
  have "\<not> remove_fails (sample_env 1)" by (simp add: sample_env_def)
  then show ?thesis
    using begin_review_again_loses_lock
      [of "default_controller\<lparr>review_lock := Some \<lparr>guard_lock_path = sample_lock\<rparr>\<rparr>"
        "\<lparr>guard_lock_path = sample_lock\<rparr>" "sample_env 1" "Map.empty(sample_lock \<mapsto> [])" "[]" False]
    by (simp add: sample_lock_path default_controller_def)
qed

text \<open>
  Stopping a run from any state: the lock is given back, no countdown or restart is pending,
  the goal is cleared and the goal entry is shown, the settings of the user are kept, and the
  summary of the run is both stored and reported.
\<close>

theorem stop_run_clears:
  "let (effs, c', fs') = stop_run env now message c fs;
       summary = \<lparr>sum_duration = (case started_at c of Some start \<Rightarrow> now - start | None \<Rightarrow> 0),
         sum_turns_completed = turns_completed c, sum_message = message, sum_goal = goal c\<rparr>
   in phase c' = AwaitingGoalEntry \<and> goal c' = None \<and> pending_restart c' = None \<and>
      current_cli_prompt c' = None \<and> \<not> countdown_active c' \<and> review_lock c' = None \<and>
      fs' = (case review_lock c of None \<Rightarrow> fs | Some g \<Rightarrow> drop_guard env g fs) \<and>
      review_enabled c' = review_enabled c \<and> subagents_enabled c' = subagents_enabled c \<and>
      cross_check_enabled c' = cross_check_enabled c \<and>
      qa_automation_enabled c' = qa_automation_enabled c \<and> continue_mode c' = continue_mode c \<and>
      last_run_summary c' = Some summary \<and> StopCompleted summary message \<in> set effs"
  by (simp add: stop_run_def reset_def transition_def transition_arm_def assign_review_lock_eq
      default_controller_def apply_phase_def countdown_active_def phase_awaiting_submit_def Let_def
      split_beta dropped_def)

end
