(* ===== verification/Exec_Args.thy ===== *)
theory Exec_Args
  imports Rust_Prelude
begin

text \<open>
  The argument language of the exec policy crate (\<open>code-rs/execpolicy/src\<close>): argument types and
  their validation (\<open>arg_type.rs\<close>, \<open>sed_command.rs\<close>), argument patterns (\<open>arg_matcher.rs\<close>), the
  errors (\<open>error.rs\<close>), matched arguments (\<open>valid_exec.rs\<close>) and the assignment of the observed
  positional arguments to the patterns of a program (\<open>arg_resolver.rs\<close>). The main result is that
  the resolver accepts exactly the arguments that can be cut into one segment per pattern.
\<close>

section \<open>Types\<close>

datatype arg_type =
    TLiteral rstr
  | TOpaqueNonFile
  | TReadableFile
  | TWriteableFile
  | TPositiveInteger
  | TSedCommand
  | TUnknown

datatype arg_matcher =
    Literal rstr
  | OpaqueNonFile
  | ReadableFile
  | WriteableFile
  | ReadableFiles
  | ReadableFilesOrCwd
  | PositiveInteger
  | SedCommand
  | UnverifiedVarargs

datatype arg_matcher_cardinality = One | AtLeastOne | ZeroOrMore

record positional_arg =
  pa_index :: nat
  pa_value :: rstr

text \<open>An \<open>io::ErrorKind\<close> is its printed name.\<close>

datatype exec_error =
    NoSpecForProgram rstr
  | OptionMissingValue rstr rstr
  | OptionFollowedByOptionInsteadOfValue rstr rstr rstr
  | UnknownOption rstr rstr
  | UnexpectedArguments rstr "positional_arg list"
  | DoubleDashNotSupportedYet rstr
  | MultipleVarargPatterns rstr arg_matcher arg_matcher
  | RangeStartExceedsEnd nat nat
  | RangeEndOutOfBounds nat nat
  | PrefixOverlapsSuffix
  | NotEnoughArgs rstr "positional_arg list" "arg_matcher list"
  | InternalInvariantViolation rstr
  | VarargMatcherDidNotMatchAnything rstr arg_matcher
  | EmptyFileName
  | LiteralValueDidNotMatch rstr rstr
  | InvalidPositiveInteger rstr
  | MissingRequiredOptions rstr "rstr list"
  | SedCommandNotProvablySafe rstr
  | ReadablePathNotInReadableFolders rstr "rstr list"
  | WriteablePathNotInWriteableFolders rstr "rstr list"
  | CannotCheckRelativePath rstr
  | CannotCanonicalizePath rstr rstr

record matched_arg =
  ma_index :: nat
  ma_type :: arg_type
  ma_value :: rstr

section \<open>Argument types and patterns\<close>

fun cardinality :: "arg_matcher \<Rightarrow> arg_matcher_cardinality" where
  "cardinality ReadableFiles = AtLeastOne"
| "cardinality ReadableFilesOrCwd = ZeroOrMore"
| "cardinality UnverifiedVarargs = ZeroOrMore"
| "cardinality _ = One"

fun matcher_arg_type :: "arg_matcher \<Rightarrow> arg_type" where
  "matcher_arg_type (Literal v) = TLiteral v"
| "matcher_arg_type OpaqueNonFile = TOpaqueNonFile"
| "matcher_arg_type ReadableFile = TReadableFile"
| "matcher_arg_type WriteableFile = TWriteableFile"
| "matcher_arg_type ReadableFiles = TReadableFile"
| "matcher_arg_type ReadableFilesOrCwd = TReadableFile"
| "matcher_arg_type PositiveInteger = TPositiveInteger"
| "matcher_arg_type SedCommand = TSedCommand"
| "matcher_arg_type UnverifiedVarargs = TUnknown"

fun is_exact :: "arg_matcher_cardinality \<Rightarrow> nat option" where
  "is_exact One = Some 1"
| "is_exact AtLeastOne = None"
| "is_exact ZeroOrMore = None"

definition parse_sed_command :: "rstr \<Rightarrow> exec_error + unit" where
  "parse_sed_command sed_command =
     (case strip_suffix sed_command (lit ''p'') of
        None \<Rightarrow> Inl (SedCommandNotProvablySafe sed_command)
      | Some stripped \<Rightarrow>
          (case split_once 44 stripped of
             None \<Rightarrow> Inl (SedCommandNotProvablySafe sed_command)
           | Some (first, rest) \<Rightarrow>
               (if parse_u64 first \<noteq> None \<and> parse_u64 rest \<noteq> None then Inr ()
                else Inl (SedCommandNotProvablySafe sed_command))))"

fun validate :: "arg_type \<Rightarrow> rstr \<Rightarrow> exec_error + unit" where
  "validate (TLiteral literal_value) v =
     (if v \<noteq> literal_value then Inl (LiteralValueDidNotMatch literal_value v) else Inr ())"
| "validate TReadableFile v = (if v = [] then Inl EmptyFileName else Inr ())"
| "validate TWriteableFile v = (if v = [] then Inl EmptyFileName else Inr ())"
| "validate TOpaqueNonFile v = Inr ()"
| "validate TUnknown v = Inr ()"
| "validate TPositiveInteger v =
     (case parse_u64 v of
        Some n \<Rightarrow> (if n = 0 then Inl (InvalidPositiveInteger v) else Inr ())
      | None \<Rightarrow> Inl (InvalidPositiveInteger v))"
| "validate TSedCommand v = parse_sed_command v"

fun might_write_file :: "arg_type \<Rightarrow> bool" where
  "might_write_file TWriteableFile \<longleftrightarrow> True"
| "might_write_file TUnknown \<longleftrightarrow> True"
| "might_write_file _ \<longleftrightarrow> False"

definition matched_arg_new :: "nat \<Rightarrow> arg_type \<Rightarrow> rstr \<Rightarrow> exec_error + matched_arg" where
  "matched_arg_new idx ty v =
     and_then (validate ty v) (\<lambda>_. Inr \<lparr>ma_index = idx, ma_type = ty, ma_value = v\<rparr>)"

section \<open>Resolving positional arguments\<close>

text \<open>\<open>ParitionedArgs\<close>, spelled as in the source.\<close>

record paritioned_args =
  num_prefix_args :: nat
  num_suffix_args :: nat
  prefix_patterns :: "arg_matcher list"
  suffix_patterns :: "arg_matcher list"
  vararg_pattern :: "arg_matcher option"

definition paritioned_args_default :: paritioned_args where
  "paritioned_args_default =
     \<lparr>num_prefix_args = 0, num_suffix_args = 0, prefix_patterns = [], suffix_patterns = [],
      vararg_pattern = None\<rparr>"

fun partition_args_loop ::
    "rstr \<Rightarrow> arg_matcher list \<Rightarrow> bool \<Rightarrow> paritioned_args \<Rightarrow> exec_error + paritioned_args" where
  "partition_args_loop program [] in_prefix p = Inr p"
| "partition_args_loop program (pattern # patterns) in_prefix p =
     (case is_exact (cardinality pattern) of
        Some n \<Rightarrow>
          partition_args_loop program patterns in_prefix
            (if in_prefix
             then p\<lparr>prefix_patterns := prefix_patterns p @ [pattern],
                     num_prefix_args := num_prefix_args p + n\<rparr>
             else p\<lparr>suffix_patterns := suffix_patterns p @ [pattern],
                     num_suffix_args := num_suffix_args p + n\<rparr>)
      | None \<Rightarrow>
          (case vararg_pattern p of
             None \<Rightarrow> partition_args_loop program patterns False (p\<lparr>vararg_pattern := Some pattern\<rparr>)
           | Some existing_pattern \<Rightarrow>
               Inl (MultipleVarargPatterns program existing_pattern pattern)))"

definition partition_args :: "rstr \<Rightarrow> arg_matcher list \<Rightarrow> exec_error + paritioned_args" where
  "partition_args program arg_patterns =
     partition_args_loop program arg_patterns True paritioned_args_default"

text \<open>The slice \<open>xs[i..j]\<close>; the source only takes it within bounds.\<close>

definition slice :: "nat \<Rightarrow> nat \<Rightarrow> 'a list \<Rightarrow> 'a list" where
  "slice i j xs = take (j - i) (drop i xs)"

definition get_range_checked :: "'a list \<Rightarrow> nat \<Rightarrow> nat \<Rightarrow> exec_error + 'a list" where
  "get_range_checked vec start end' =
     (if start > end' then Inl (RangeStartExceedsEnd start end')
      else if end' > length vec then Inl (RangeEndOutOfBounds end' (length vec))
      else Inr (slice start end' vec))"

text \<open>The inner loops: every observed argument becomes a matched argument of the pattern's type.\<close>

fun match_each ::
    "arg_type \<Rightarrow> positional_arg list \<Rightarrow> matched_arg list \<Rightarrow> exec_error + matched_arg list" where
  "match_each ty [] matched = Inr matched"
| "match_each ty (a # as) matched =
     and_then (matched_arg_new (pa_index a) ty (pa_value a)) (\<lambda>m.
       match_each ty as (matched @ [m]))"

text \<open>
  The two loops over patterns of exact cardinality, from the position \<open>i\<close> of \<open>args\<close>. Indexing a
  slice out of bounds panics in the source (\<open>None\<close>).
\<close>

fun match_exact ::
    "arg_matcher list \<Rightarrow> positional_arg list \<Rightarrow> nat \<Rightarrow> matched_arg list \<Rightarrow>
       (exec_error + nat \<times> matched_arg list) option" where
  "match_exact [] as i matched = Some (Inr (i, matched))"
| "match_exact (pattern # patterns) as i matched =
     (case is_exact (cardinality pattern) of
        None \<Rightarrow> Some (Inl (InternalInvariantViolation (lit ''expected exact cardinality'')))
      | Some n \<Rightarrow>
          (if i + n > length as then None
           else (case match_each (matcher_arg_type pattern) (slice i (i + n) as) matched of
                   Inl e \<Rightarrow> Some (Inl e)
                 | Inr matched \<Rightarrow> match_exact patterns as (i + n) matched)))"

definition match_vararg ::
    "rstr \<Rightarrow> arg_matcher option \<Rightarrow> positional_arg list \<Rightarrow> nat \<Rightarrow> nat \<Rightarrow> matched_arg list \<Rightarrow>
       exec_error + matched_arg list" where
  "match_vararg program vararg args i j matched =
     (case vararg of
        None \<Rightarrow> Inr matched
      | Some pattern \<Rightarrow>
          and_then (get_range_checked args i j) (\<lambda>vararg.
            case cardinality pattern of
              One \<Rightarrow> Inl (InternalInvariantViolation
                       (lit ''vararg pattern should not have cardinality of one''))
            | AtLeastOne \<Rightarrow>
                (if vararg = [] then Inl (VarargMatcherDidNotMatchAnything program pattern)
                 else match_each (matcher_arg_type pattern) vararg matched)
            | ZeroOrMore \<Rightarrow> match_each (matcher_arg_type pattern) vararg matched))"

text \<open>From the vararg pattern on: the vararg, the suffix, and the test for left-over arguments.\<close>

definition match_vararg_and_suffix ::
    "rstr \<Rightarrow> positional_arg list \<Rightarrow> paritioned_args \<Rightarrow> nat \<Rightarrow> nat \<Rightarrow> matched_arg list \<Rightarrow>
       (exec_error + matched_arg list) option" where
  "match_vararg_and_suffix program args p prefix_arg_index initial_suffix_args_index matched =
     (case match_vararg program (vararg_pattern p) args prefix_arg_index initial_suffix_args_index
             matched of
        Inl e \<Rightarrow> Some (Inl e)
      | Inr matched \<Rightarrow>
          (case get_range_checked args initial_suffix_args_index (length args) of
             Inl e \<Rightarrow> Some (Inl e)
           | Inr suffix_args \<Rightarrow>
               (case match_exact (suffix_patterns p) suffix_args 0 matched of
                  None \<Rightarrow> None
                | Some (Inl e) \<Rightarrow> Some (Inl e)
                | Some (Inr (_, matched_args)) \<Rightarrow>
                    (if length matched_args < length args
                     then Some (and_then (get_range_checked args (length matched_args) (length args))
                            (\<lambda>extra_args. Inl (UnexpectedArguments program extra_args)))
                     else Some (Inr matched_args)))))"

definition resolve_observed_args_with_patterns ::
    "rstr \<Rightarrow> positional_arg list \<Rightarrow> arg_matcher list \<Rightarrow> (exec_error + matched_arg list) option" where
  "resolve_observed_args_with_patterns program args arg_patterns =
     (case partition_args program arg_patterns of
        Inl e \<Rightarrow> Some (Inl e)
      | Inr p \<Rightarrow>
          (case get_range_checked args 0 (num_prefix_args p) of
             Inl e \<Rightarrow> Some (Inl e)
           | Inr prefix_args \<Rightarrow>
               (case match_exact (prefix_patterns p) prefix_args 0 [] of
                  None \<Rightarrow> None
                | Some (Inl e) \<Rightarrow> Some (Inl e)
                | Some (Inr (prefix_arg_index, matched_args)) \<Rightarrow>
                    (if num_suffix_args p > length args
                     then Some (Inl (NotEnoughArgs program args arg_patterns))
                     else if prefix_arg_index > length args - num_suffix_args p
                     then Some (Inl PrefixOverlapsSuffix)
                     else match_vararg_and_suffix program args p prefix_arg_index
                            (length args - num_suffix_args p) matched_args))))"

section \<open>What the resolver accepts\<close>

text \<open>
  The specification: the arguments are cut into consecutive segments, one per pattern, each of a
  length the pattern's cardinality allows and with values its type validates.
\<close>

fun fits :: "arg_matcher_cardinality \<Rightarrow> nat \<Rightarrow> bool" where
  "fits One n \<longleftrightarrow> n = 1"
| "fits AtLeastOne n \<longleftrightarrow> 1 \<le> n"
| "fits ZeroOrMore n \<longleftrightarrow> True"

definition accepts :: "arg_type \<Rightarrow> positional_arg \<Rightarrow> bool" where
  "accepts ty a \<longleftrightarrow> validate ty (pa_value a) = Inr ()"

definition to_matched :: "arg_type \<Rightarrow> positional_arg \<Rightarrow> matched_arg" where
  "to_matched ty a = \<lparr>ma_index = pa_index a, ma_type = ty, ma_value = pa_value a\<rparr>"

inductive segmented :: "arg_matcher list \<Rightarrow> positional_arg list \<Rightarrow> matched_arg list \<Rightarrow> bool" where
  segmented_Nil: "segmented [] [] []"
| segmented_Cons:
    "fits (cardinality p) (length seg) \<Longrightarrow> list_all (accepts (matcher_arg_type p)) seg \<Longrightarrow>
     segmented ps as ms \<Longrightarrow>
     segmented (p # ps) (seg @ as) (map (to_matched (matcher_arg_type p)) seg @ ms)"

inductive_simps segmented_Nil_iff [simp]: "segmented [] as ms"
inductive_simps segmented_Cons_iff: "segmented (p # ps) as ms"

definition exact :: "arg_matcher \<Rightarrow> bool" where
  "exact p \<longleftrightarrow> cardinality p = One"

definition at_most_one_vararg :: "arg_matcher list \<Rightarrow> bool" where
  "at_most_one_vararg ps \<longleftrightarrow> length (filter (\<lambda>p. \<not> exact p) ps) \<le> 1"

lemma is_exact_iff: "is_exact (cardinality p) = (if exact p then Some 1 else None)"
  by (cases "cardinality p") (auto simp: exact_def)

lemma segmented_length: "segmented ps as ms \<Longrightarrow> length ms = length as"
  by (induction rule: segmented.induct) simp_all

lemma segmented_exact_length: "segmented ps as ms \<Longrightarrow> list_all exact ps \<Longrightarrow> length as = length ps"
  by (induction rule: segmented.induct) (auto simp: exact_def)

lemma segmented_Cons_exact:
  assumes "exact p"
  shows "segmented (p # ps) (a # as) ms \<longleftrightarrow>
    accepts (matcher_arg_type p) a \<and>
    (\<exists>ms'. ms = to_matched (matcher_arg_type p) a # ms' \<and> segmented ps as ms')" (is "_ \<longleftrightarrow> ?R")
proof
  assume "segmented (p # ps) (a # as) ms"
  then show ?R
    using assms by (auto simp: segmented_Cons_iff exact_def length_Suc_conv)
next
  assume ?R
  then show "segmented (p # ps) (a # as) ms"
    using assms segmented_Cons [of p "[a]" ps as] by (auto simp: exact_def)
qed

lemma segmented_append:
  "segmented (ps @ qs) as ms \<longleftrightarrow>
     (\<exists>as1 as2 ms1 ms2. as = as1 @ as2 \<and> ms = ms1 @ ms2 \<and> segmented ps as1 ms1 \<and> segmented qs as2 ms2)"
  (is "?L ps as ms \<longleftrightarrow> ?R ps as ms")
proof (induction ps arbitrary: as ms)
  case (Cons p ps)
  show ?case
  proof
    assume "?L (p # ps) as ms"
    then obtain seg as' ms' where "fits (cardinality p) (length seg)"
        "list_all (accepts (matcher_arg_type p)) seg" "segmented (ps @ qs) as' ms'"
        "as = seg @ as'" "ms = map (to_matched (matcher_arg_type p)) seg @ ms'"
      by (auto simp: segmented_Cons_iff)
    moreover from this Cons.IH obtain as1 as2 ms1 ms2 where
        "as' = as1 @ as2" "ms' = ms1 @ ms2" "segmented ps as1 ms1" "segmented qs as2 ms2"
      by blast
    ultimately show "?R (p # ps) as ms"
      by (intro exI [of _ "seg @ as1"] exI [of _ as2]
          exI [of _ "map (to_matched (matcher_arg_type p)) seg @ ms1"] exI [of _ ms2])
        (auto intro: segmented_Cons)
  next
    assume "?R (p # ps) as ms"
    then show "?L (p # ps) as ms"
      using Cons.IH by (fastforce simp: segmented_Cons_iff)
  qed
qed simp

subsection \<open>The loops\<close>

lemma match_each_iff:
  "match_each ty as matched = Inr r \<longleftrightarrow>
     list_all (accepts ty) as \<and> r = matched @ map (to_matched ty) as"
  by (induction as arbitrary: matched) (auto simp: matched_arg_new_def accepts_def to_matched_def)

lemma slice_one: "i < length as \<Longrightarrow> slice i (Suc i) as = [as ! i]"
  by (simp add: slice_def take_Suc_conv_app_nth)

lemma slice_Suc: "i < j \<Longrightarrow> j \<le> length as \<Longrightarrow> slice i j as = as ! i # slice (Suc i) j as"
  by (simp add: slice_def take_Cons' flip: Cons_nth_drop_Suc)

lemma slice_drop: "i \<le> j \<Longrightarrow> slice i j as @ drop j as = drop i as"
  by (simp add: slice_def) (metis append_take_drop_id drop_drop le_add_diff_inverse2)

lemma slice_bounds [simp]:
  "slice 0 n as = take n as" "n \<le> length as \<Longrightarrow> slice n (length as) as = drop n as"
  "j \<le> length as \<Longrightarrow> length (slice i j as) = j - i"
  by (simp_all add: slice_def)

lemma match_exact_returns:
  "list_all exact ps \<Longrightarrow> i + length ps \<le> length as \<Longrightarrow> match_exact ps as i matched \<noteq> None"
  by (induction ps arbitrary: i matched) (auto simp: is_exact_iff split: sum.split)

lemma match_exact_iff:
  "list_all exact ps \<Longrightarrow> i + length ps \<le> length as \<Longrightarrow>
   match_exact ps as i matched = Some (Inr (j, r)) \<longleftrightarrow>
     j = i + length ps \<and> (\<exists>ms. r = matched @ ms \<and> segmented ps (slice i j as) ms)"
proof (induction ps arbitrary: i matched)
  case (Cons p ps)
  have p: "exact p" and ps: "list_all exact ps"
    using Cons.prems by simp_all
  let ?ty = "matcher_arg_type p"
  have step: "match_exact (p # ps) as i matched = Some (Inr (j, r)) \<longleftrightarrow>
      accepts ?ty (as ! i) \<and> match_exact ps as (Suc i) (matched @ [to_matched ?ty (as ! i)]) = Some (Inr (j, r))"
    using Cons.prems p by (auto simp: is_exact_iff slice_one matched_arg_new_def accepts_def to_matched_def split: sum.split)
  have seg: "segmented (p # ps) (slice i j as) ms \<longleftrightarrow>
      accepts ?ty (as ! i) \<and> (\<exists>ms'. ms = to_matched ?ty (as ! i) # ms' \<and> segmented ps (slice (Suc i) j as) ms')"
    if "j = i + Suc (length ps)" for ms
    using Cons.prems p that by (simp add: segmented_Cons_exact slice_Suc)
  show ?case
    unfolding step using Cons.IH [OF ps] Cons.prems seg by fastforce
qed (auto simp: slice_def)

lemma partition_args_loop_suffix:
  "vararg_pattern p = Some v \<Longrightarrow>
   partition_args_loop program ps False p = Inr q \<longleftrightarrow>
     list_all exact ps \<and>
     q = p\<lparr>suffix_patterns := suffix_patterns p @ ps, num_suffix_args := num_suffix_args p + length ps\<rparr>"
  by (induction ps arbitrary: p) (auto simp: is_exact_iff)

lemma partition_args_loop_prefix:
  "list_all exact ps \<Longrightarrow>
   partition_args_loop program (ps @ qs) True p =
     partition_args_loop program qs True
       (p\<lparr>prefix_patterns := prefix_patterns p @ ps, num_prefix_args := num_prefix_args p + length ps\<rparr>)"
  by (induction ps arbitrary: p) (auto simp: is_exact_iff)

lemma partition_args_exact:
  "list_all exact ps \<Longrightarrow>
   partition_args program ps =
     Inr (paritioned_args_default\<lparr>prefix_patterns := ps, num_prefix_args := length ps\<rparr>)"
  using partition_args_loop_prefix [of ps program "[]" paritioned_args_default]
  by (simp add: partition_args_def) (simp add: paritioned_args_default_def)

lemma partition_args_vararg:
  assumes "list_all exact pre" and "\<not> exact v"
  shows "partition_args program (pre @ v # suf) = Inr p \<longleftrightarrow>
    list_all exact suf \<and>
    p = \<lparr>num_prefix_args = length pre, num_suffix_args = length suf, prefix_patterns = pre,
         suffix_patterns = suf, vararg_pattern = Some v\<rparr>"
  using assms
  by (simp add: partition_args_def partition_args_loop_prefix is_exact_iff
      paritioned_args_default_def partition_args_loop_suffix)

lemma patterns_cases:
  obtains (exact) "list_all exact ps"
  | (vararg) pre v suf where "ps = pre @ v # suf" "list_all exact pre" "\<not> exact v"
proof (cases "list_all exact ps")
  case False
  then have "\<exists>p \<in> set ps. \<not> exact p"
    by (simp add: list_all_iff)
  from split_list_first_prop [OF this] show thesis
    by (metis vararg list_all_iff)
qed (rule exact)

lemma at_most_one_vararg_exact: "list_all exact ps \<Longrightarrow> at_most_one_vararg ps"
  by (auto simp: at_most_one_vararg_def list_all_iff filter_empty_conv)

lemma at_most_one_vararg_iff:
  "list_all exact pre \<Longrightarrow> \<not> exact v \<Longrightarrow> at_most_one_vararg (pre @ v # suf) \<longleftrightarrow> list_all exact suf"
  by (auto simp: at_most_one_vararg_def list_all_iff filter_empty_conv)

lemma match_vararg_iff:
  assumes "\<not> exact v" and "i \<le> j" and "j \<le> length args"
  shows "match_vararg program (Some v) args i j matched = Inr r \<longleftrightarrow>
    fits (cardinality v) (length (slice i j args)) \<and>
    list_all (accepts (matcher_arg_type v)) (slice i j args) \<and>
    r = matched @ map (to_matched (matcher_arg_type v)) (slice i j args)"
  using assms
  by (cases "cardinality v")
    (auto simp: match_vararg_def get_range_checked_def match_each_iff exact_def Suc_le_eq slice_def)

lemma match_vararg_and_suffix_returns:
  assumes "list_all exact (suffix_patterns p)" and "j + length (suffix_patterns p) \<le> length args"
  shows "match_vararg_and_suffix program args p i j matched \<noteq> None"
proof -
  have "match_exact (suffix_patterns p) (drop j args) 0 m \<noteq> None" for m
    using assms by (intro match_exact_returns) simp_all
  then show ?thesis
    using assms
    by (auto simp: match_vararg_and_suffix_def get_range_checked_def split: sum.splits option.splits)
      (metis option.distinct(1))
qed

lemma segmented_vararg_suffix:
  assumes "list_all exact suf" and "i \<le> j" and "j + length suf = length args"
  shows "segmented (v # suf) (drop i args) ms \<longleftrightarrow>
    fits (cardinality v) (length (slice i j args)) \<and>
    list_all (accepts (matcher_arg_type v)) (slice i j args) \<and>
    (\<exists>ms'. ms = map (to_matched (matcher_arg_type v)) (slice i j args) @ ms' \<and>
       segmented suf (drop j args) ms')" (is "_ \<longleftrightarrow> ?R")
proof
  assume "segmented (v # suf) (drop i args) ms"
  then obtain seg as ms' where seg: "drop i args = seg @ as" "segmented suf as ms'"
      "fits (cardinality v) (length seg)" "list_all (accepts (matcher_arg_type v)) seg"
      "ms = map (to_matched (matcher_arg_type v)) seg @ ms'"
    by (auto simp: segmented_Cons_iff)
  have "length as = length suf"
    using segmented_exact_length [OF seg(2)] assms(1) by simp
  then have "length as = length (drop j args)"
    using assms(3) by simp
  then have "seg = slice i j args \<and> as = drop j args"
    using seg(1) slice_drop [OF assms(2), of args] by (metis append_eq_append_conv)
  then show ?R
    using seg by auto
next
  assume ?R
  then show "segmented (v # suf) (drop i args) ms"
    using slice_drop [OF assms(2), of args] by (metis segmented_Cons)
qed

lemma match_vararg_and_suffix_iff:
  assumes "list_all exact suf" and "\<not> exact v" and "i \<le> j" and "j + length suf = length args"
    and "length matched = i" and "suffix_patterns p = suf" and "vararg_pattern p = Some v"
  shows "match_vararg_and_suffix program args p i j matched = Some (Inr r) \<longleftrightarrow>
    (\<exists>ms. r = matched @ ms \<and> segmented (v # suf) (drop i args) ms)"
proof -
  let ?va = "map (to_matched (matcher_arg_type v)) (slice i j args)"
  have len: "length (matched @ ?va @ ms') = length args" if "segmented suf (drop j args) ms'" for ms'
    using that segmented_length assms(3-5) by fastforce
  have suffix: "match_exact suf (drop j args) 0 m = Some (Inr (k, r)) \<longleftrightarrow>
      k = length suf \<and> (\<exists>ms. r = m @ ms \<and> segmented suf (drop j args) ms)" for m k
    using match_exact_iff [of suf 0 "drop j args" m k r] assms(1,4) by (cases "k = length suf") simp_all
  show ?thesis
  proof (cases "match_vararg program (Some v) args i j matched")
    case (Inl e)
    then have "\<not> (fits (cardinality v) (length (slice i j args)) \<and>
        list_all (accepts (matcher_arg_type v)) (slice i j args))"
      using match_vararg_iff [OF assms(2,3), of args program matched "matched @ ?va"] assms(4) by simp
    then show ?thesis
      using Inl assms by (auto simp: match_vararg_and_suffix_def segmented_vararg_suffix)
  next
    case (Inr m)
    then have m: "fits (cardinality v) (length (slice i j args))"
        "list_all (accepts (matcher_arg_type v)) (slice i j args)" "m = matched @ ?va"
      using match_vararg_iff [OF assms(2,3)] assms(4) by simp_all
    have "match_vararg_and_suffix program args p i j matched = Some (Inr r) \<longleftrightarrow>
        (\<exists>k. match_exact suf (drop j args) 0 m = Some (Inr (k, r)) \<and> length args \<le> length r)"
      using Inr assms
      by (auto simp: match_vararg_and_suffix_def get_range_checked_def split: option.split sum.split)
    also have "\<dots> \<longleftrightarrow> (\<exists>ms'. r = matched @ ?va @ ms' \<and> segmented suf (drop j args) ms')"
      using len by (auto simp: suffix m(3))
    also have "\<dots> \<longleftrightarrow> (\<exists>ms. r = matched @ ms \<and> segmented (v # suf) (drop i args) ms)"
      using m(1,2) assms(1,3,4) by (auto simp: segmented_vararg_suffix)
    finally show ?thesis .
  qed
qed

lemma resolve_exact:
  assumes "list_all exact ps"
  shows "resolve_observed_args_with_patterns program args ps \<noteq> None"
    and "resolve_observed_args_with_patterns program args ps = Some (Inr ms) \<longleftrightarrow> segmented ps args ms"
proof -
  let ?n = "length ps"
  have run: "resolve_observed_args_with_patterns program args ps =
      (case match_exact ps (take ?n args) 0 [] of
         None \<Rightarrow> None
       | Some (Inl e) \<Rightarrow> Some (Inl e)
       | Some (Inr (i, m)) \<Rightarrow>
           (if i > length args then Some (Inl PrefixOverlapsSuffix)
            else if length m < length args
            then Some (Inl (UnexpectedArguments program (drop (length m) args)))
            else Some (Inr m)))" if "?n \<le> length args"
    using that assms
    by (auto simp: resolve_observed_args_with_patterns_def partition_args_exact get_range_checked_def
        paritioned_args_default_def match_vararg_and_suffix_def match_vararg_def
        split: option.split sum.split)
  have short: "\<exists>e. resolve_observed_args_with_patterns program args ps = Some (Inl e)"
    if "\<not> ?n \<le> length args"
    using that assms
    by (simp add: resolve_observed_args_with_patterns_def partition_args_exact get_range_checked_def)
  show "resolve_observed_args_with_patterns program args ps \<noteq> None"
    using run short match_exact_returns [of ps 0 "take ?n args" "[]"] assms
    by (cases "?n \<le> length args") (auto split: sum.split)
  show "resolve_observed_args_with_patterns program args ps = Some (Inr ms) \<longleftrightarrow> segmented ps args ms"
  proof (cases "?n \<le> length args")
    case True
    then have "resolve_observed_args_with_patterns program args ps = Some (Inr ms) \<longleftrightarrow>
        (\<exists>i. match_exact ps (take ?n args) 0 [] = Some (Inr (i, ms)) \<and>
           i \<le> length args \<and> length args \<le> length ms)"
      unfolding run [OF True] by (auto split: option.split sum.split)
    also have "\<dots> \<longleftrightarrow> segmented ps (take ?n args) ms \<and> length args \<le> length ms"
      using True assms by (simp add: match_exact_iff min_def)
    also have "\<dots> \<longleftrightarrow> segmented ps args ms"
      using segmented_length [of ps _ ms] segmented_exact_length [of ps _ ms] assms by force
    finally show ?thesis .
  next
    case False
    then show ?thesis
      using short segmented_exact_length [OF _ assms] by fastforce
  qed
qed

lemma resolve_vararg:
  assumes pre: "list_all exact pre" and v: "\<not> exact v" and suf: "list_all exact suf"
    and ps: "ps = pre @ v # suf"
  shows "resolve_observed_args_with_patterns program args ps \<noteq> None"
    and "resolve_observed_args_with_patterns program args ps = Some (Inr ms) \<longleftrightarrow> segmented ps args ms"
proof -
  let ?n = "length pre" and ?j = "length args - length suf"
  define p where "p = \<lparr>num_prefix_args = ?n, num_suffix_args = length suf, prefix_patterns = pre,
         suffix_patterns = suf, vararg_pattern = Some v\<rparr>"
  have part: "partition_args program ps = Inr p"
    using partition_args_vararg [OF pre v] suf by (simp add: ps p_def)
  have short: "\<exists>e. resolve_observed_args_with_patterns program args ps = Some (Inl e)"
    if "length args < ?n + length suf"
    using that pre match_exact_returns [of pre 0 "take ?n args" "[]"]
    by (cases "?n \<le> length args")
      (auto simp: resolve_observed_args_with_patterns_def part get_range_checked_def p_def
        match_exact_iff split: option.split sum.split)
  have run: "resolve_observed_args_with_patterns program args ps =
      (case match_exact pre (take ?n args) 0 [] of
         None \<Rightarrow> None
       | Some (Inl e) \<Rightarrow> Some (Inl e)
       | Some (Inr (i, m)) \<Rightarrow> match_vararg_and_suffix program args p i ?j m)"
    if "?n + length suf \<le> length args"
    using that pre
    by (auto simp: resolve_observed_args_with_patterns_def part get_range_checked_def p_def
        match_exact_iff split: option.split sum.split)
  show "resolve_observed_args_with_patterns program args ps \<noteq> None"
  proof (cases "length args < ?n + length suf")
    case False
    then have "match_vararg_and_suffix program args p i ?j m \<noteq> None" for i m
      using suf by (intro match_vararg_and_suffix_returns) (simp_all add: p_def)
    moreover have "match_exact pre (take ?n args) 0 [] \<noteq> None"
      using pre False by (intro match_exact_returns) simp_all
    ultimately show ?thesis
      using run False by (auto split: sum.split)
  qed (use short in force)
  show "resolve_observed_args_with_patterns program args ps = Some (Inr ms) \<longleftrightarrow> segmented ps args ms"
  proof (cases "length args < ?n + length suf")
    case True
    have "\<not> segmented ps args ms"
      using True segmented_exact_length [OF _ pre] segmented_exact_length [OF _ suf]
      by (fastforce simp: ps segmented_append segmented_Cons_iff)
    then show ?thesis
      using short [OF True] by auto
  next
    case False
    have tail: "match_vararg_and_suffix program args p ?n ?j m = Some (Inr r) \<longleftrightarrow>
        (\<exists>ms. r = m @ ms \<and> segmented (v # suf) (drop ?n args) ms)"
      if "length m = ?n" for m r
      using False that suf v by (intro match_vararg_and_suffix_iff) (auto simp: p_def)
    have "resolve_observed_args_with_patterns program args ps = Some (Inr ms) \<longleftrightarrow>
        (\<exists>i m. match_exact pre (take ?n args) 0 [] = Some (Inr (i, m)) \<and>
           match_vararg_and_suffix program args p i ?j m = Some (Inr ms))"
      using run False by (auto split: option.split sum.split)
    also have "\<dots> \<longleftrightarrow> (\<exists>m. segmented pre (take ?n args) m \<and>
        match_vararg_and_suffix program args p ?n ?j m = Some (Inr ms))"
      using False pre by (auto simp: match_exact_iff)
    also have "\<dots> \<longleftrightarrow> (\<exists>m ms'. segmented pre (take ?n args) m \<and> ms = m @ ms' \<and>
        segmented (v # suf) (drop ?n args) ms')"
      using tail segmented_length [of pre "take ?n args"] False by fastforce
    also have "\<dots> \<longleftrightarrow> segmented ps args ms"
      unfolding ps segmented_append using segmented_exact_length [OF _ pre]
      by (metis append_eq_conv_conj append_take_drop_id)
    finally show ?thesis .
  qed
qed

lemma resolve_iff:
  "(\<exists>r. resolve_observed_args_with_patterns program args patterns = Some r) \<and>
   (resolve_observed_args_with_patterns program args patterns = Some (Inr ms) \<longleftrightarrow>
      at_most_one_vararg patterns \<and> segmented patterns args ms)"
proof (cases patterns rule: patterns_cases)
  case exact
  then show ?thesis
    using resolve_exact [of patterns program args] by (auto simp: at_most_one_vararg_exact)
next
  case (vararg pre v suf)
  show ?thesis
  proof (cases "list_all exact suf")
    case True
    then show ?thesis
      using resolve_vararg [OF vararg(2,3) _ vararg(1), of program args]
        at_most_one_vararg_iff [OF vararg(2,3)] by (auto simp: vararg(1))
  next
    case False
    then obtain e where "partition_args program patterns = Inl e"
      using partition_args_vararg [OF vararg(2,3)] by (metis sum.exhaust vararg(1))
    then show ?thesis
      using False at_most_one_vararg_iff [OF vararg(2,3)]
      by (auto simp: vararg(1) resolve_observed_args_with_patterns_def)
  qed
qed

text \<open> (C27)
  The resolver assigns positional arguments to patterns correctly. It always returns (no slice of
  it is out of bounds), and it accepts exactly when at most one pattern is a vararg and the
  arguments can be cut, in order and without a rest, into one segment per pattern whose length the
  pattern's cardinality allows and whose values its type validates; the matched arguments are then
  those of the segments, with their indices.
\<close>

theorem resolve_accepts_segmentations:
  "(\<exists>r. resolve_observed_args_with_patterns program args patterns = Some r) \<and>
   (resolve_observed_args_with_patterns program args patterns = Some (Inr ms) \<longleftrightarrow>
      at_most_one_vararg patterns \<and> segmented patterns args ms)"
  by (rule resolve_iff)

end
