(* ===== verification/Rust_Path.thy ===== *)
theory Rust_Path
  imports Rust_Prelude
begin

text \<open>
  \<open>std::path\<close> on Unix, as far as the modelled crates use it: a path is its string, and its
  components are what the separators leave.
\<close>

definition is_absolute :: "rstr \<Rightarrow> bool" where
  "is_absolute path \<longleftrightarrow> starts_with path [47]"

definition path_join :: "rstr \<Rightarrow> rstr \<Rightarrow> rstr" where
  "path_join base path =
     (if is_absolute path then path
      else if base = [] then path
      else if last base = 47 then base @ path else base @ [47] @ path)"

definition path_parts :: "rstr \<Rightarrow> rstr list" where
  "path_parts path = filter (\<lambda>c. c \<noteq> [] \<and> c \<noteq> [46]) (split_on 47 path)"

text \<open>
  \<open>Path::parent\<close> is empty exactly for a relative path with a single component, and missing for
  the root and the empty path; only that it is present and not empty matters here.
\<close>

definition has_parent_dir :: "rstr \<Rightarrow> bool" where
  "has_parent_dir path \<longleftrightarrow>
     (if is_absolute path then path_parts path \<noteq> []
      else 1 < length (path_parts path) \<or> (path_parts path \<noteq> [] \<and> hd (split_on 47 path) = [46]))"

text \<open>
  The components of a path: the root directory is written as the component \<open>/\<close>, a leading
  current directory as \<open>.\<close>; other dots and repeated separators vanish. Two \<open>PathBuf\<close>s are equal
  as map keys when their components are, and \<open>Path::starts_with\<close> compares whole components.
\<close>

definition path_key :: "rstr \<Rightarrow> rstr list" where
  "path_key path =
     (if is_absolute path then [[47]] else if hd (split_on 47 path) = [46] then [[46]] else []) @
     path_parts path"

definition path_starts_with :: "rstr \<Rightarrow> rstr \<Rightarrow> bool" where
  "path_starts_with path base \<longleftrightarrow> take (length (path_key base)) (path_key path) = path_key base"

definition file_stem :: "rstr \<Rightarrow> rstr option" where
  "file_stem path =
     (let parts = path_parts path
      in if parts = [] \<or> last parts = [46, 46] then None
         else (let name = last parts;
                   stem = rev (drop 1 (dropWhile (\<lambda>c. c \<noteq> 46) (rev name)))
               in if 46 \<notin> set name \<or> stem = [] then Some name else Some stem))"

definition file_name :: "rstr \<Rightarrow> rstr option" where
  "file_name path =
     (let parts = path_parts path
      in if parts = [] \<or> last parts = [46, 46] then None else Some (last parts))"

text \<open>\<open>PathBuf::push\<close> of one component after the other, from the empty path.\<close>

definition render_path :: "rstr list \<Rightarrow> rstr" where
  "render_path comps = foldl path_join [] comps"

section \<open>Lemmas\<close>

lemma path_starts_with_iff: "path_starts_with path base \<longleftrightarrow> prefix (path_key base) (path_key path)"
  by (metis append_eq_conv_conj path_starts_with_def prefix_def take_is_prefix)

lemma path_starts_with_refl [simp]: "path_starts_with path path"
  by (simp add: path_starts_with_iff)

lemma path_starts_with_trans:
  "path_starts_with a b \<Longrightarrow> path_starts_with b c \<Longrightarrow> path_starts_with a c"
  unfolding path_starts_with_iff by (rule prefix_order.trans)

end
