(* ===== verification/Exec_Policy.thy ===== *)
theory Exec_Policy
  imports Exec_Args Rust_Path "HOL-Library.List_Lexorder"
begin

text \<open>
  The exec policy crate above its argument language (\<open>code-rs/execpolicy/src\<close>): options
  (\<open>opt.rs\<close>), accepted invocations (\<open>valid_exec.rs\<close>), the specification of one program
  (\<open>program.rs\<close>), the policy (\<open>policy.rs\<close>), the builtins a policy file calls
  (\<open>policy_parser.rs\<close>), the check of the named files against the allowed folders
  (\<open>execv_checker.rs\<close>) and the verdict of the command line tool (\<open>main.rs\<close>).

  Parameters: the regular expression library is a record of its two functions \<open>escape\<close> and
  \<open>Regex::new\<close>, a compiled expression being its \<open>is_match\<close>; the Starlark evaluator is the sequence
  of builtin calls it performs; \<open>path_absolutize\<close> and the file metadata are functions of
  \<open>exec_env\<close>. A \<open>HashMap\<close> is an association list without duplicate keys and a \<open>MultiMap\<close> one
  from keys to the values in insertion order. As in \<open>Exec_Args\<close>, the outer option is the panic of
  an index out of bounds, which is shown not to happen.
\<close>

section \<open>Invocations and options\<close>

record exec_call =
  call_program :: rstr
  call_args :: "rstr list"

datatype opt_meta = OptFlag | OptValue arg_type

record exec_opt =
  opt_name :: rstr
  opt_meta :: opt_meta
  opt_required :: bool

record matched_opt =
  mo_name :: rstr
  mo_value :: rstr
  mo_type :: arg_type

text \<open>A \<open>MatchedFlag\<close> is its name.\<close>

record valid_exec =
  ve_program :: rstr
  ve_flags :: "rstr list"
  ve_opts :: "matched_opt list"
  ve_args :: "matched_arg list"
  ve_system_path :: "rstr list"

definition matched_opt_new :: "rstr \<Rightarrow> rstr \<Rightarrow> arg_type \<Rightarrow> exec_error + matched_opt" where
  "matched_opt_new name v ty =
     and_then (validate ty v) (\<lambda>_. Inr \<lparr>mo_name = name, mo_value = v, mo_type = ty\<rparr>)"

definition might_write_files :: "valid_exec \<Rightarrow> bool" where
  "might_write_files e \<longleftrightarrow>
     list_ex (\<lambda>opt. might_write_file (mo_type opt)) (ve_opts e) \<or>
     list_ex (\<lambda>arg. might_write_file (ma_type arg)) (ve_args e)"

definition display_exec_call :: "exec_call \<Rightarrow> rstr" where
  "display_exec_call call = call_program call @ concat (map (\<lambda>arg. lit '' '' @ arg) (call_args call))"

section \<open>The specification of a program\<close>

record program_spec =
  ps_program :: rstr
  ps_system_path :: "rstr list"
  option_bundling :: bool
  combined_format :: bool
  allowed_options :: "(rstr \<times> exec_opt) list"
  arg_patterns :: "arg_matcher list"
  ps_forbidden :: "rstr option"
  required_options :: "rstr list"
  should_match :: "rstr list list"
  should_not_match :: "rstr list list"

definition program_spec_new ::
    "rstr \<Rightarrow> rstr list \<Rightarrow> bool \<Rightarrow> bool \<Rightarrow> (rstr \<times> exec_opt) list \<Rightarrow> arg_matcher list \<Rightarrow> rstr option \<Rightarrow>
       rstr list list \<Rightarrow> rstr list list \<Rightarrow> program_spec" where
  "program_spec_new program system_path bundling combined options patterns forbidden good bad =
     \<lparr>ps_program = program, ps_system_path = system_path, option_bundling = bundling,
      combined_format = combined, allowed_options = options, arg_patterns = patterns,
      ps_forbidden = forbidden,
      required_options = map fst (filter (\<lambda>(name, opt). opt_required opt) options),
      should_match = good, should_not_match = bad\<rparr>"

datatype exec_forbidden =
    ForbiddenProgram rstr exec_call
  | ForbiddenArg rstr exec_call
  | ForbiddenExec valid_exec

datatype matched_exec = Match valid_exec | Forbidden exec_forbidden rstr

text \<open>The mutable variables of the loop of \<open>ProgramSpec::check\<close>.\<close>

record scan_state =
  expecting_option_value :: "(rstr \<times> arg_type) option"
  scanned_args :: "positional_arg list"
  matched_flags :: "rstr list"
  matched_opts :: "matched_opt list"

definition scan_start :: scan_state where
  "scan_start = \<lparr>expecting_option_value = None, scanned_args = [], matched_flags = [],
     matched_opts = []\<rparr>"

definition scan_arg :: "program_spec \<Rightarrow> nat \<Rightarrow> rstr \<Rightarrow> scan_state \<Rightarrow> exec_error + scan_state" where
  "scan_arg spec idx arg st =
     (case expecting_option_value st of
        Some (name, ty) \<Rightarrow>
          (if starts_with arg (lit ''-'')
           then Inl (OptionFollowedByOptionInsteadOfValue (ps_program spec) name arg)
           else and_then (matched_opt_new name arg ty) (\<lambda>opt.
             Inr (st\<lparr>matched_opts := matched_opts st @ [opt], expecting_option_value := None\<rparr>)))
      | None \<Rightarrow>
          (if arg = lit ''--'' then Inl (DoubleDashNotSupportedYet (ps_program spec))
           else if starts_with arg (lit ''-'')
           then (case map_of (allowed_options spec) arg of
                   Some opt \<Rightarrow>
                     (case opt_meta opt of
                        OptFlag \<Rightarrow> Inr (st\<lparr>matched_flags := matched_flags st @ [arg]\<rparr>)
                      | OptValue ty \<Rightarrow> Inr (st\<lparr>expecting_option_value := Some (arg, ty)\<rparr>))
                 | None \<Rightarrow> Inl (UnknownOption (ps_program spec) arg))
           else Inr (st\<lparr>scanned_args := scanned_args st @ [\<lparr>pa_index = idx, pa_value = arg\<rparr>]\<rparr>)))"

fun scan_args :: "program_spec \<Rightarrow> nat \<Rightarrow> rstr list \<Rightarrow> scan_state \<Rightarrow> exec_error + scan_state" where
  "scan_args spec idx [] st = Inr st"
| "scan_args spec idx (arg # args) st =
     and_then (scan_arg spec idx arg st) (scan_args spec (Suc idx) args)"

text \<open>The rest of \<open>ProgramSpec::check\<close>: required options, then the verdict of the specification.\<close>

definition missing_options :: "program_spec \<Rightarrow> matched_opt list \<Rightarrow> rstr list" where
  "missing_options spec opts =
     sort (filter (\<lambda>name. name \<notin> set (map mo_name opts)) (required_options spec))"

definition finish_check :: "program_spec \<Rightarrow> scan_state \<Rightarrow> matched_arg list \<Rightarrow> exec_error + matched_exec" where
  "finish_check spec st args =
     (if \<not> list_all (\<lambda>name. name \<in> set (map mo_name (matched_opts st))) (required_options spec)
      then Inl (MissingRequiredOptions (ps_program spec) (missing_options spec (matched_opts st)))
      else (let exec = \<lparr>ve_program = ps_program spec, ve_flags = matched_flags st,
                        ve_opts = matched_opts st, ve_args = args,
                        ve_system_path = ps_system_path spec\<rparr>
            in case ps_forbidden spec of
                 Some reason \<Rightarrow> Inr (Forbidden (ForbiddenExec exec) reason)
               | None \<Rightarrow> Inr (Match exec)))"

definition program_spec_check :: "program_spec \<Rightarrow> exec_call \<Rightarrow> (exec_error + matched_exec) option" where
  "program_spec_check spec call =
     (case scan_args spec 0 (call_args call) scan_start of
        Inl e \<Rightarrow> Some (Inl e)
      | Inr st \<Rightarrow>
          (case expecting_option_value st of
             Some (name, ty) \<Rightarrow> Some (Inl (OptionMissingValue (ps_program spec) name))
           | None \<Rightarrow>
               (case resolve_observed_args_with_patterns (ps_program spec) (scanned_args st)
                       (arg_patterns spec) of
                  None \<Rightarrow> None
                | Some (Inl e) \<Rightarrow> Some (Inl e)
                | Some (Inr args) \<Rightarrow> Some (finish_check spec st args))))"

definition example_call :: "program_spec \<Rightarrow> rstr list \<Rightarrow> exec_call" where
  "example_call spec args = \<lparr>call_program = ps_program spec, call_args = args\<rparr>"

definition verify_should_match_list :: "program_spec \<Rightarrow> (rstr \<times> rstr list \<times> exec_error) list" where
  "verify_should_match_list spec =
     List.map_filter
       (\<lambda>good. case program_spec_check spec (example_call spec good) of
           Some (Inl e) \<Rightarrow> Some (ps_program spec, good, e)
         | _ \<Rightarrow> None)
       (should_match spec)"

definition verify_should_not_match_list :: "program_spec \<Rightarrow> (rstr \<times> rstr list) list" where
  "verify_should_not_match_list spec =
     List.map_filter
       (\<lambda>bad. case program_spec_check spec (example_call spec bad) of
           Some (Inr m) \<Rightarrow> Some (ps_program spec, bad)
         | _ \<Rightarrow> None)
       (should_not_match spec)"

section \<open>The policy\<close>

type_synonym regex = "rstr \<Rightarrow> bool"

record regex_lib =
  regex_escape :: "rstr \<Rightarrow> rstr"
  regex_new :: "rstr \<Rightarrow> rstr + regex"

record exec_policy =
  programs :: "(rstr \<times> program_spec list) list"
  forbidden_program_regexes :: "(regex \<times> rstr) list"
  forbidden_substrings_pattern :: "regex option"

definition substrings_regex_source :: "regex_lib \<Rightarrow> rstr list \<Rightarrow> rstr" where
  "substrings_regex_source lib ss = lit ''('' @ join (lit ''|'') (map (regex_escape lib) ss) @ lit '')''"

definition policy_new ::
    "regex_lib \<Rightarrow> (rstr \<times> program_spec list) list \<Rightarrow> (regex \<times> rstr) list \<Rightarrow> rstr list \<Rightarrow>
       rstr + exec_policy" where
  "policy_new lib progs regexes substrings =
     and_then
       (if substrings = [] then Inr None
        else and_then (regex_new lib (substrings_regex_source lib substrings)) (\<lambda>r. Inr (Some r)))
       (\<lambda>pattern.
         Inr \<lparr>programs = progs, forbidden_program_regexes = regexes,
              forbidden_substrings_pattern = pattern\<rparr>)"

fun check_specs ::
    "program_spec list \<Rightarrow> exec_call \<Rightarrow> exec_error \<Rightarrow> (exec_error + matched_exec) option" where
  "check_specs [] call last_err = Some (Inl last_err)"
| "check_specs (spec # specs) call last_err =
     (case program_spec_check spec call of
        None \<Rightarrow> None
      | Some (Inr m) \<Rightarrow> Some (Inr m)
      | Some (Inl e) \<Rightarrow> check_specs specs call e)"

definition get_vec :: "('a \<times> 'b list) list \<Rightarrow> 'a \<Rightarrow> 'b list" where
  "get_vec m k = (case map_of m k of Some vs \<Rightarrow> vs | None \<Rightarrow> [])"

definition policy_check :: "exec_policy \<Rightarrow> exec_call \<Rightarrow> (exec_error + matched_exec) option" where
  "policy_check policy call =
     (case find (\<lambda>(regex, reason). regex (call_program call)) (forbidden_program_regexes policy) of
        Some (regex, reason) \<Rightarrow>
          Some (Inr (Forbidden (ForbiddenProgram (call_program call) call) reason))
      | None \<Rightarrow>
          (case find (\<lambda>arg. case forbidden_substrings_pattern policy of
                         Some regex \<Rightarrow> regex arg | None \<Rightarrow> False) (call_args call) of
             Some arg \<Rightarrow>
               Some (Inr (Forbidden (ForbiddenArg arg call)
                 (lit ''arg `'' @ arg @ lit ''` contains forbidden substring'')))
           | None \<Rightarrow>
               check_specs (get_vec (programs policy) (call_program call)) call
                 (NoSpecForProgram (call_program call))))"

definition check_each_good_list_individually ::
    "exec_policy \<Rightarrow> (rstr \<times> rstr list \<times> exec_error) list" where
  "check_each_good_list_individually policy =
     concat (map verify_should_match_list (concat (map snd (programs policy))))"

definition check_each_bad_list_individually :: "exec_policy \<Rightarrow> (rstr \<times> rstr list) list" where
  "check_each_bad_list_individually policy =
     concat (map verify_should_not_match_list (concat (map snd (programs policy))))"

definition get_allowed_prefixes :: "exec_policy \<Rightarrow> rstr list list" where
  "get_allowed_prefixes policy =
     remdups_adj (sort (concat (map (\<lambda>(name, specs). map (\<lambda>_. [name]) specs) (programs policy))))"

section \<open>Building a policy\<close>

record policy_builder =
  pb_programs :: "(rstr \<times> program_spec list) list"
  pb_forbidden_program_regexes :: "(regex \<times> rstr) list"
  pb_forbidden_substrings :: "rstr list"

definition policy_builder_new :: policy_builder where
  "policy_builder_new =
     \<lparr>pb_programs = [], pb_forbidden_program_regexes = [], pb_forbidden_substrings = []\<rparr>"

definition policy_builder_build :: "regex_lib \<Rightarrow> policy_builder \<Rightarrow> rstr + exec_policy" where
  "policy_builder_build lib b =
     policy_new lib (pb_programs b) (pb_forbidden_program_regexes b) (pb_forbidden_substrings b)"

fun multimap_insert :: "'a \<Rightarrow> 'b \<Rightarrow> ('a \<times> 'b list) list \<Rightarrow> ('a \<times> 'b list) list" where
  "multimap_insert k v [] = [(k, [v])]"
| "multimap_insert k v ((k', vs) # m) =
     (if k' = k then (k', vs @ [v]) # m else (k', vs) # multimap_insert k v m)"

definition add_program_spec :: "program_spec \<Rightarrow> policy_builder \<Rightarrow> policy_builder" where
  "add_program_spec spec b =
     b\<lparr>pb_programs := multimap_insert (ps_program spec) spec (pb_programs b)\<rparr>"

definition add_forbidden_substrings :: "rstr list \<Rightarrow> policy_builder \<Rightarrow> policy_builder" where
  "add_forbidden_substrings ss b = b\<lparr>pb_forbidden_substrings := pb_forbidden_substrings b @ ss\<rparr>"

definition add_forbidden_program_regex :: "regex \<Rightarrow> rstr \<Rightarrow> policy_builder \<Rightarrow> policy_builder" where
  "add_forbidden_program_regex regex reason b =
     b\<lparr>pb_forbidden_program_regexes := pb_forbidden_program_regexes b @ [(regex, reason)]\<rparr>"

text \<open>The keyword arguments of \<open>define_program\<close>.\<close>

record program_def =
  pd_program :: rstr
  pd_system_path :: "rstr list option"
  pd_option_bundling :: "bool option"
  pd_combined_format :: "bool option"
  pd_options :: "exec_opt list option"
  pd_args :: "arg_matcher list option"
  pd_forbidden :: "rstr option"
  pd_should_match :: "rstr list list option"
  pd_should_not_match :: "rstr list list option"

definition unwrap_or :: "'a option \<Rightarrow> 'a \<Rightarrow> 'a" where
  "unwrap_or x d = (case x of Some a \<Rightarrow> a | None \<Rightarrow> d)"

fun collect_options ::
    "exec_opt list \<Rightarrow> (rstr \<times> exec_opt) list \<Rightarrow> rstr + (rstr \<times> exec_opt) list" where
  "collect_options [] allowed = Inr allowed"
| "collect_options (opt # opts) allowed =
     (if opt_name opt \<in> fst ` set allowed then Inl (lit ''duplicate flag: '' @ opt_name opt)
      else collect_options opts (allowed @ [(opt_name opt, opt)]))"

definition define_program :: "program_def \<Rightarrow> policy_builder \<Rightarrow> rstr + policy_builder" where
  "define_program d b =
     and_then (collect_options (unwrap_or (pd_options d) []) []) (\<lambda>options.
       Inr (add_program_spec
         (program_spec_new (pd_program d) (unwrap_or (pd_system_path d) [])
            (unwrap_or (pd_option_bundling d) False) (unwrap_or (pd_combined_format d) False)
            options (unwrap_or (pd_args d) []) (pd_forbidden d)
            (unwrap_or (pd_should_match d) []) (unwrap_or (pd_should_not_match d) []))
         b))"

definition forbid_substrings :: "rstr list \<Rightarrow> policy_builder \<Rightarrow> rstr + policy_builder" where
  "forbid_substrings strings b = Inr (add_forbidden_substrings strings b)"

definition forbid_program_regex ::
    "regex_lib \<Rightarrow> rstr \<Rightarrow> rstr \<Rightarrow> policy_builder \<Rightarrow> rstr + policy_builder" where
  "forbid_program_regex lib regex reason b =
     and_then (regex_new lib regex) (\<lambda>compiled. Inr (add_forbidden_program_regex compiled reason b))"

definition opt_builtin :: "rstr \<Rightarrow> arg_matcher \<Rightarrow> bool option \<Rightarrow> exec_opt" where
  "opt_builtin name ty required =
     \<lparr>opt_name = name, opt_meta = OptValue (matcher_arg_type ty),
      opt_required = unwrap_or required False\<rparr>"

definition flag_builtin :: "rstr \<Rightarrow> exec_opt" where
  "flag_builtin name = \<lparr>opt_name = name, opt_meta = OptFlag, opt_required = False\<rparr>"

text \<open>The builtin calls a policy file makes, and \<open>PolicyParser::parse\<close> on that sequence.\<close>

datatype policy_stmt =
    DefineProgram program_def
  | ForbidSubstrings "rstr list"
  | ForbidProgramRegex rstr rstr

fun run_stmt :: "regex_lib \<Rightarrow> policy_stmt \<Rightarrow> policy_builder \<Rightarrow> rstr + policy_builder" where
  "run_stmt lib (DefineProgram d) b = define_program d b"
| "run_stmt lib (ForbidSubstrings ss) b = forbid_substrings ss b"
| "run_stmt lib (ForbidProgramRegex regex reason) b = forbid_program_regex lib regex reason b"

fun run_stmts :: "regex_lib \<Rightarrow> policy_stmt list \<Rightarrow> policy_builder \<Rightarrow> rstr + policy_builder" where
  "run_stmts lib [] b = Inr b"
| "run_stmts lib (s # ss) b = and_then (run_stmt lib s b) (run_stmts lib ss)"

definition parse_policy :: "regex_lib \<Rightarrow> policy_stmt list \<Rightarrow> rstr + exec_policy" where
  "parse_policy lib stmts =
     and_then (run_stmts lib stmts policy_builder_new) (policy_builder_build lib)"

section \<open>Checking the files of an accepted invocation\<close>

record file_metadata =
  is_file :: bool
  mode :: u32

record exec_env =
  absolutize_from :: "rstr \<Rightarrow> rstr \<Rightarrow> rstr + rstr"
  absolutize :: "rstr \<Rightarrow> rstr + rstr"
  metadata :: "rstr \<Rightarrow> file_metadata option"

definition ensure_absolute_path :: "exec_env \<Rightarrow> rstr \<Rightarrow> rstr option \<Rightarrow> exec_error + rstr" where
  "ensure_absolute_path env path cwd =
     and_then
       (if \<not> is_absolute path
        then (case cwd of
                Some dir \<Rightarrow> Inr (absolutize_from env path dir)
              | None \<Rightarrow> Inl (CannotCheckRelativePath path))
        else Inr (absolutize env path))
       (\<lambda>r. case r of
              Inr p \<Rightarrow> Inr p
            | Inl kind \<Rightarrow> Inl (CannotCanonicalizePath path kind))"

definition is_executable_file :: "exec_env \<Rightarrow> rstr \<Rightarrow> bool" where
  "is_executable_file env path =
     (case metadata env path of
        Some m \<Rightarrow> is_file m \<and> and (mode m) 73 \<noteq> 0
      | None \<Rightarrow> False)"

definition check_file_in_folders :: "rstr \<Rightarrow> rstr list \<Rightarrow> exec_error \<Rightarrow> exec_error + unit" where
  "check_file_in_folders file folders err =
     (if \<not> list_ex (path_starts_with file) folders then Inl err else Inr ())"

fun check_file_arg ::
    "exec_env \<Rightarrow> rstr option \<Rightarrow> rstr list \<Rightarrow> rstr list \<Rightarrow> arg_type \<times> rstr \<Rightarrow> exec_error + unit" where
  "check_file_arg env cwd readable writeable (TReadableFile, v) =
     and_then (ensure_absolute_path env v cwd) (\<lambda>file.
       check_file_in_folders file readable (ReadablePathNotInReadableFolders file readable))"
| "check_file_arg env cwd readable writeable (TWriteableFile, v) =
     and_then (ensure_absolute_path env v cwd) (\<lambda>file.
       check_file_in_folders file writeable (WriteablePathNotInWriteableFolders file writeable))"
| "check_file_arg env cwd readable writeable (_, v) = Inr ()"

fun check_file_args ::
    "exec_env \<Rightarrow> rstr option \<Rightarrow> rstr list \<Rightarrow> rstr list \<Rightarrow> (arg_type \<times> rstr) list \<Rightarrow> exec_error + unit" where
  "check_file_args env cwd readable writeable [] = Inr ()"
| "check_file_args env cwd readable writeable (a # as) =
     and_then (check_file_arg env cwd readable writeable a)
       (\<lambda>_. check_file_args env cwd readable writeable as)"

definition typed_values :: "valid_exec \<Rightarrow> (arg_type \<times> rstr) list" where
  "typed_values e =
     map (\<lambda>arg. (ma_type arg, ma_value arg)) (ve_args e) @
     map (\<lambda>opt. (mo_type opt, mo_value opt)) (ve_opts e)"

definition execv_check ::
    "exec_env \<Rightarrow> valid_exec \<Rightarrow> rstr option \<Rightarrow> rstr list \<Rightarrow> rstr list \<Rightarrow> exec_error + rstr" where
  "execv_check env e cwd readable writeable =
     and_then (check_file_args env cwd readable writeable (typed_values e)) (\<lambda>_.
       Inr (case find (is_executable_file env) (ve_system_path e) of
              Some system_path \<Rightarrow> system_path
            | None \<Rightarrow> ve_program e))"

definition execv_match :: "exec_policy \<Rightarrow> exec_call \<Rightarrow> (exec_error + matched_exec) option" where
  "execv_match policy call = policy_check policy call"

section \<open>The verdict\<close>

datatype policy_output =
    OutSafe valid_exec
  | OutMatch valid_exec
  | OutForbidden rstr exec_forbidden
  | OutUnverified exec_error

definition MATCHED_BUT_WRITES_FILES_EXIT_CODE :: int where "MATCHED_BUT_WRITES_FILES_EXIT_CODE = 12"
definition MIGHT_BE_SAFE_EXIT_CODE :: int where "MIGHT_BE_SAFE_EXIT_CODE = 13"
definition FORBIDDEN_EXIT_CODE :: int where "FORBIDDEN_EXIT_CODE = 14"

definition check_command :: "exec_policy \<Rightarrow> exec_call \<Rightarrow> bool \<Rightarrow> (policy_output \<times> int) option" where
  "check_command policy call check =
     (case policy_check policy call of
        None \<Rightarrow> None
      | Some (Inr (Match exec)) \<Rightarrow>
          Some (if might_write_files exec
                then (OutMatch exec, if check then MATCHED_BUT_WRITES_FILES_EXIT_CODE else 0)
                else (OutSafe exec, 0))
      | Some (Inr (Forbidden cause reason)) \<Rightarrow>
          Some (OutForbidden reason cause, if check then FORBIDDEN_EXIT_CODE else 0)
      | Some (Inl err) \<Rightarrow>
          Some (OutUnverified err, if check then MIGHT_BE_SAFE_EXIT_CODE else 0))"

end
