(* ===== verification/Exec_Policy_Props.thy ===== *)
theory Exec_Policy_Props
  imports Exec_Policy
begin

text \<open>
  What the exec policy guarantees. A specification accepts exactly the command lines of a small
  grammar; a policy file's verdict is that of its first accepting specification unless a forbidden
  program or substring comes first; the files of an accepted invocation lie in the allowed folders;
  and the exit code 0 of the tool in its strict mode means that nothing may be written.
\<close>

section \<open>The command lines a specification accepts\<close>

text \<open>
  The grammar: a command line is a sequence of flags, of options followed by their value, and of
  positional arguments.
\<close>

datatype item = FlagItem rstr | OptItem rstr rstr arg_type | PosItem rstr

fun item_words :: "item \<Rightarrow> rstr list" where
  "item_words (FlagItem name) = [name]"
| "item_words (OptItem name v ty) = [name, v]"
| "item_words (PosItem v) = [v]"

definition option_of :: "program_spec \<Rightarrow> rstr \<Rightarrow> opt_meta option" where
  "option_of spec name =
     (if name \<noteq> lit ''--'' \<and> starts_with name (lit ''-'')
      then map_option opt_meta (map_of (allowed_options spec) name) else None)"

fun item_ok :: "program_spec \<Rightarrow> item \<Rightarrow> bool" where
  "item_ok spec (FlagItem name) \<longleftrightarrow> option_of spec name = Some OptFlag"
| "item_ok spec (OptItem name v ty) \<longleftrightarrow>
     option_of spec name = Some (OptValue ty) \<and> \<not> starts_with v (lit ''-'') \<and> validate ty v = Inr ()"
| "item_ok spec (PosItem v) \<longleftrightarrow> \<not> starts_with v (lit ''-'')"

fun item_flags :: "item list \<Rightarrow> rstr list" where
  "item_flags [] = []"
| "item_flags (FlagItem name # is) = name # item_flags is"
| "item_flags (_ # is) = item_flags is"

fun item_opts :: "item list \<Rightarrow> matched_opt list" where
  "item_opts [] = []"
| "item_opts (OptItem name v ty # is) = \<lparr>mo_name = name, mo_value = v, mo_type = ty\<rparr> # item_opts is"
| "item_opts (_ # is) = item_opts is"

fun positionals :: "nat \<Rightarrow> item list \<Rightarrow> positional_arg list" where
  "positionals i [] = []"
| "positionals i (PosItem v # is) = \<lparr>pa_index = i, pa_value = v\<rparr> # positionals (Suc i) is"
| "positionals i (it # is) = positionals (i + length (item_words it)) is"

definition command_line :: "item list \<Rightarrow> rstr list" where
  "command_line items = concat (map item_words items)"

definition scanned :: "nat \<Rightarrow> item list \<Rightarrow> scan_state \<Rightarrow> scan_state" where
  "scanned i items st =
     st\<lparr>scanned_args := scanned_args st @ positionals i items,
        matched_flags := matched_flags st @ item_flags items,
        matched_opts := matched_opts st @ item_opts items\<rparr>"

lemma double_dash_starts [simp]: "starts_with (lit ''--'') (lit ''-'')"
  by (simp add: str_eval)

lemma expecting_None:
  "expecting_option_value st = None \<Longrightarrow>
   st\<lparr>matched_opts := opts, expecting_option_value := None\<rparr> = st\<lparr>matched_opts := opts\<rparr>"
  by simp

lemma scan_items:
  "expecting_option_value st = None \<Longrightarrow> list_all (item_ok spec) items \<Longrightarrow>
   scan_args spec i (command_line items) st = Inr (scanned i items st)"
proof (induction items arbitrary: i st)
  case Nil
  then show ?case
    by (simp add: command_line_def scanned_def)
next
  case (Cons it items)
  show ?case
  proof (cases it)
    case (FlagItem name)
    let ?st = "st\<lparr>matched_flags := matched_flags st @ [name]\<rparr>"
    have "scan_args spec (Suc i) (command_line items) ?st = Inr (scanned (Suc i) items ?st)"
      using Cons by simp
    then show ?thesis
      using Cons.prems
      by (auto simp: FlagItem command_line_def scan_arg_def option_of_def scanned_def split: if_splits)
  next
    case (OptItem name v ty)
    let ?st = "st\<lparr>matched_opts := matched_opts st @ [\<lparr>mo_name = name, mo_value = v, mo_type = ty\<rparr>]\<rparr>"
    have "scan_args spec (Suc (Suc i)) (command_line items) ?st = Inr (scanned (Suc (Suc i)) items ?st)"
      using Cons by simp
    then show ?thesis
      using Cons.prems
      by (auto simp: expecting_None OptItem command_line_def scan_arg_def option_of_def scanned_def matched_opt_new_def
          split: if_splits)
  next
    case (PosItem v)
    let ?st = "st\<lparr>scanned_args := scanned_args st @ [\<lparr>pa_index = i, pa_value = v\<rparr>]\<rparr>"
    have "scan_args spec (Suc i) (command_line items) ?st = Inr (scanned (Suc i) items ?st)"
      using Cons by simp
    then show ?thesis
      using Cons.prems by (auto simp: PosItem command_line_def scan_arg_def scanned_def)
  qed
qed

text \<open>One step of the loop, read backwards as the item it starts.\<close>

lemma scan_arg_cases:
  assumes "scan_arg spec i arg st = Inr st'" and "expecting_option_value st = None"
  obtains (flag) "item_ok spec (FlagItem arg)" "st' = scanned i [FlagItem arg] st"
  | (pos) "item_ok spec (PosItem arg)" "st' = scanned i [PosItem arg] st"
  | (opt) ty where "option_of spec arg = Some (OptValue ty)"
      "st' = st\<lparr>expecting_option_value := Some (arg, ty)\<rparr>"
  using assms
  by (auto simp: scan_arg_def option_of_def scanned_def split: if_splits option.splits opt_meta.splits)

lemma scan_value:
  assumes "scan_arg spec i v (st\<lparr>expecting_option_value := Some (name, ty)\<rparr>) = Inr st'"
    and "expecting_option_value st = None" and "option_of spec name = Some (OptValue ty)"
  shows "item_ok spec (OptItem name v ty)" and "st' = scanned j [OptItem name v ty] st"
  using assms by (auto simp: scan_arg_def scanned_def matched_opt_new_def split: if_splits)

lemma scanned_scanned:
  "scanned (i + length (item_words it)) items (scanned i [it] st) = scanned i (it # items) st"
  by (cases it) (simp_all add: scanned_def)

lemma expecting_scanned [simp]:
  "expecting_option_value (scanned i items st) = expecting_option_value st"
  by (simp add: scanned_def)

lemma scan_args_items:
  "scan_args spec i args st = Inr st' \<Longrightarrow> expecting_option_value st = None \<Longrightarrow>
   expecting_option_value st' = None \<Longrightarrow>
   \<exists>items. args = command_line items \<and> list_all (item_ok spec) items \<and> st' = scanned i items st"
proof (induction args arbitrary: i st rule: length_induct)
  case (1 args)
  have extend: ?case
    if it: "args = item_words it @ rest" "item_ok spec it"
      "scan_args spec (i + length (item_words it)) rest (scanned i [it] st) = Inr st'" for it rest
  proof -
    have "length rest < length args"
      using it(1) by (cases it) simp_all
    then obtain items where "rest = command_line items" "list_all (item_ok spec) items"
        "st' = scanned (i + length (item_words it)) items (scanned i [it] st)"
      using 1 it(3) by (metis expecting_scanned)
    then show ?case
      using it(1,2)
      by (intro exI [of _ "it # items"]) (simp add: command_line_def scanned_scanned)
  qed
  show ?case
  proof (cases args)
    case Nil
    then show ?thesis
      using 1 by (intro exI [of _ "[]"]) (simp add: command_line_def scanned_def)
  next
    case (Cons arg rest)
    then obtain st1 where st1: "scan_arg spec i arg st = Inr st1" "scan_args spec (Suc i) rest st1 = Inr st'"
      using 1 by auto
    from st1(1) \<open>expecting_option_value st = None\<close> show ?thesis
    proof (cases rule: scan_arg_cases)
      case flag
      then show ?thesis
        using extend [of "FlagItem arg" rest] Cons st1(2) by simp
    next
      case pos
      then show ?thesis
        using extend [of "PosItem arg" rest] Cons st1(2) by simp
    next
      case (opt ty)
      with st1(2) 1 obtain v rest' where rest: "rest = v # rest'"
        by (cases rest) auto
      with st1(2) obtain st2 where st2: "scan_arg spec (Suc i) v st1 = Inr st2"
          "scan_args spec (Suc (Suc i)) rest' st2 = Inr st'"
        by auto
      note v = scan_value [OF st2(1) [unfolded opt(2)] \<open>expecting_option_value st = None\<close> opt(1)]
      show ?thesis
        using extend [of "OptItem arg v ty" rest'] v(1) v(2) [of i] st2(2) Cons rest by simp
    qed
  qed
qed

lemma scan_args_iff:
  "scan_args spec 0 args scan_start = Inr st \<and> expecting_option_value st = None \<longleftrightarrow>
   (\<exists>items. args = command_line items \<and> list_all (item_ok spec) items \<and> st = scanned 0 items scan_start)"
proof -
  have start: "expecting_option_value scan_start = None"
    by (simp add: scan_start_def)
  show ?thesis
    using scan_args_items [OF _ start] scan_items [OF start] start by (metis expecting_scanned)
qed

text \<open>Everything an accepted command line has to satisfy, and the invocation it yields.\<close>

definition accepted_as :: "program_spec \<Rightarrow> rstr list \<Rightarrow> valid_exec \<Rightarrow> bool" where
  "accepted_as spec args exec \<longleftrightarrow>
     (\<exists>items. args = command_line items \<and> list_all (item_ok spec) items \<and>
        ve_flags exec = item_flags items \<and> ve_opts exec = item_opts items \<and>
        at_most_one_vararg (arg_patterns spec) \<and>
        segmented (arg_patterns spec) (positionals 0 items) (ve_args exec)) \<and>
     set (required_options spec) \<subseteq> mo_name ` set (ve_opts exec) \<and>
     ve_program exec = ps_program spec \<and> ve_system_path exec = ps_system_path spec"

definition verdict_of :: "program_spec \<Rightarrow> valid_exec \<Rightarrow> matched_exec" where
  "verdict_of spec exec =
     (case ps_forbidden spec of Some reason \<Rightarrow> Forbidden (ForbiddenExec exec) reason | None \<Rightarrow> Match exec)"

lemma finish_check_iff:
  "finish_check spec st args = Inr m \<longleftrightarrow>
     set (required_options spec) \<subseteq> mo_name ` set (matched_opts st) \<and>
     m = verdict_of spec \<lparr>ve_program = ps_program spec, ve_flags = matched_flags st,
            ve_opts = matched_opts st, ve_args = args, ve_system_path = ps_system_path spec\<rparr>"
  by (auto simp: finish_check_def verdict_of_def Let_def list_all_iff subset_iff split: option.split)

lemma program_spec_check_returns: "program_spec_check spec call \<noteq> None"
  using resolve_iff
  by (auto simp: program_spec_check_def split: sum.split option.split) (metis option.distinct(1))

lemma program_spec_check_Inr:
  "program_spec_check spec call = Some (Inr m) \<longleftrightarrow>
     (\<exists>st args. (scan_args spec 0 (call_args call) scan_start = Inr st \<and> expecting_option_value st = None) \<and>
        resolve_observed_args_with_patterns (ps_program spec) (scanned_args st) (arg_patterns spec) =
          Some (Inr args) \<and>
        finish_check spec st args = Inr m)"
  by (auto simp: program_spec_check_def split: sum.split option.split)

lemma program_spec_check_iff:
  "program_spec_check spec call = Some (Inr m) \<longleftrightarrow>
     (\<exists>exec. accepted_as spec (call_args call) exec \<and> m = verdict_of spec exec)" (is "?L \<longleftrightarrow> ?R")
proof
  assume ?L
  then obtain items args where items: "call_args call = command_line items" "list_all (item_ok spec) items"
    and args: "at_most_one_vararg (arg_patterns spec)" "segmented (arg_patterns spec) (positionals 0 items) args"
    and fin: "finish_check spec (scanned 0 items scan_start) args = Inr m"
    unfolding program_spec_check_Inr scan_args_iff
    using resolve_iff by (auto simp: scanned_def scan_start_def)
  let ?exec = "\<lparr>ve_program = ps_program spec, ve_flags = item_flags items, ve_opts = item_opts items,
      ve_args = args, ve_system_path = ps_system_path spec\<rparr>"
  have "accepted_as spec (call_args call) ?exec" "m = verdict_of spec ?exec"
    using items args fin by (auto simp: accepted_as_def finish_check_iff scanned_def scan_start_def)
  then show ?R
    by blast
next
  assume ?R
  then obtain exec items where items: "call_args call = command_line items" "list_all (item_ok spec) items"
    and args: "at_most_one_vararg (arg_patterns spec)"
      "segmented (arg_patterns spec) (positionals 0 items) (ve_args exec)"
    and exec: "ve_flags exec = item_flags items" "ve_opts exec = item_opts items"
      "set (required_options spec) \<subseteq> mo_name ` set (ve_opts exec)"
      "ve_program exec = ps_program spec" "ve_system_path exec = ps_system_path spec"
    and m: "m = verdict_of spec exec"
    unfolding accepted_as_def by blast
  let ?st = "scanned 0 items scan_start"
  have st: "scanned_args ?st = positionals 0 items" "matched_flags ?st = item_flags items"
      "matched_opts ?st = item_opts items"
    by (simp_all add: scanned_def scan_start_def)
  have "exec = \<lparr>ve_program = ps_program spec, ve_flags = matched_flags ?st, ve_opts = matched_opts ?st,
      ve_args = ve_args exec, ve_system_path = ps_system_path spec\<rparr>"
    using exec st by simp
  then have "finish_check spec ?st (ve_args exec) = Inr m"
    unfolding finish_check_iff using exec(2,3) st m by metis
  moreover have "resolve_observed_args_with_patterns (ps_program spec) (scanned_args ?st) (arg_patterns spec) =
      Some (Inr (ve_args exec))"
    using resolve_iff args st(1) by metis
  ultimately show ?L
    unfolding program_spec_check_Inr scan_args_iff using items by blast
qed

text \<open> (C5)
  A specification accepts exactly the command lines of its grammar. The check always returns, and
  it answers with a verdict exactly when the arguments are a sequence of declared flags, of declared
  options each followed by a value of its type that is not itself an option, and of positional
  arguments that the patterns segment, and every required option occurs; the invocation it reports
  lists just these flags, options and arguments, and the verdict is a match unless the
  specification forbids the program.
\<close>

theorem program_spec_accepts_grammar:
  "(\<exists>r. program_spec_check spec call = Some r) \<and>
   (program_spec_check spec call = Some (Inr m) \<longleftrightarrow>
      (\<exists>exec. accepted_as spec (call_args call) exec \<and> m = verdict_of spec exec))"
  using program_spec_check_returns [of spec call] program_spec_check_iff [of spec call m] by simp

section \<open>Well-typed invocations\<close>

lemma segmented_typed:
  "segmented ps as ms \<Longrightarrow> m \<in> set ms \<Longrightarrow>
   validate (ma_type m) (ma_value m) = Inr () \<and>
   (\<exists>a \<in> set as. pa_index a = ma_index m \<and> pa_value a = ma_value m)"
  by (induction rule: segmented.induct) (auto simp: list_all_iff accepts_def to_matched_def)

lemma command_line_Cons: "command_line (it # items) = item_words it @ command_line items"
  by (simp add: command_line_def)

lemma nth_after_item:
  assumes "i + length ws \<le> k \<and> k - (i + length ws) < length cs \<and> cs ! (k - (i + length ws)) = v"
  shows "i \<le> k \<and> k - i < length (ws @ cs) \<and> (ws @ cs) ! (k - i) = v"
  using assms by (auto simp: nth_append)

lemma positionals_index:
  "a \<in> set (positionals i items) \<Longrightarrow>
   i \<le> pa_index a \<and> pa_index a - i < length (command_line items) \<and>
   command_line items ! (pa_index a - i) = pa_value a"
proof (induction i items rule: positionals.induct)
  case (2 i v items)
  then show ?case
    using nth_after_item [of i "[v]" "pa_index a" "command_line items"]
    by (auto simp: command_line_Cons)
qed (simp, (simp only: positionals.simps command_line_Cons, rule nth_after_item, simp)+)

lemma item_opts_typed:
  "list_all (item_ok spec) items \<Longrightarrow> opt \<in> set (item_opts items) \<Longrightarrow>
   validate (mo_type opt) (mo_value opt) = Inr () \<and>
   option_of spec (mo_name opt) = Some (OptValue (mo_type opt))"
  by (induction items rule: item_opts.induct) auto

lemma item_flags_declared:
  "list_all (item_ok spec) items \<Longrightarrow> name \<in> set (item_flags items) \<Longrightarrow> option_of spec name = Some OptFlag"
  by (induction items rule: item_flags.induct) auto

definition well_typed_exec :: "rstr list \<Rightarrow> valid_exec \<Rightarrow> bool" where
  "well_typed_exec args exec \<longleftrightarrow>
     list_all (\<lambda>(ty, v). validate ty v = Inr ()) (typed_values exec) \<and>
     list_all (\<lambda>m. ma_index m < length args \<and> args ! ma_index m = ma_value m) (ve_args exec)"

lemma accepted_as_well_typed:
  assumes "accepted_as spec args exec"
  shows "well_typed_exec args exec"
proof -
  obtain items where items: "args = command_line items" "list_all (item_ok spec) items"
      "ve_opts exec = item_opts items"
      "segmented (arg_patterns spec) (positionals 0 items) (ve_args exec)"
    using assms unfolding accepted_as_def by blast
  have "validate (ma_type m) (ma_value m) = Inr () \<and> ma_index m < length args \<and> args ! ma_index m = ma_value m"
    if "m \<in> set (ve_args exec)" for m
    using segmented_typed [OF items(4) that] positionals_index [of _ 0 items] items(1) by fastforce
  moreover have "validate (mo_type opt) (mo_value opt) = Inr ()" if "opt \<in> set (ve_opts exec)" for opt
    using item_opts_typed [OF items(2)] that items(3) by auto
  ultimately show ?thesis
    by (auto simp: well_typed_exec_def typed_values_def list_all_iff)
qed

section \<open>The policy\<close>

lemma check_specs_returns: "check_specs specs call e \<noteq> None"
  by (induction specs arbitrary: e)
    (auto simp: program_spec_check_returns split: option.split sum.split)

lemma first_match_Cons:
  "(\<exists>pre x post. y # ys = pre @ x # post \<and> list_all R pre \<and> Q x) \<longleftrightarrow>
   Q y \<or> R y \<and> (\<exists>pre x post. ys = pre @ x # post \<and> list_all R pre \<and> Q x)" (is "?L \<longleftrightarrow> ?R")
proof
  assume ?L
  then obtain pre x post where "y # ys = pre @ x # post" "list_all R pre" "Q x"
    by blast
  then show ?R
    by (cases pre) auto
next
  assume ?R
  then show ?L
    by (metis append_Cons append_Nil list.pred_inject)
qed

lemma map_image_Cons:
  "(\<exists>es. y # ys = map f es \<and> P es) \<longleftrightarrow> (\<exists>e. y = f e \<and> (\<exists>es. ys = map f es \<and> P (e # es)))"
  by (auto simp: Cons_eq_map_conv)

lemma program_spec_check_cases:
  obtains e where "program_spec_check s call = Some (Inl e)"
  | m where "program_spec_check s call = Some (Inr m)"
  using program_spec_check_returns [of s call] by (metis option.exhaust sum.exhaust)

lemma check_specs_Inr:
  "check_specs specs call e = Some (Inr m) \<longleftrightarrow>
     (\<exists>pre spec post. specs = pre @ spec # post \<and>
        list_all (\<lambda>s. \<exists>e. program_spec_check s call = Some (Inl e)) pre \<and>
        program_spec_check spec call = Some (Inr m))"
proof (induction specs arbitrary: e)
  case (Cons s specs)
  show ?case
    unfolding first_match_Cons
    by (cases s call rule: program_spec_check_cases) (simp_all add: Cons.IH)
qed simp

lemma check_specs_Inl:
  "check_specs specs call e = Some (Inl e') \<longleftrightarrow>
     (\<exists>es. map (\<lambda>s. program_spec_check s call) specs = map (\<lambda>e. Some (Inl e)) es \<and> e' = last (e # es))"
proof (induction specs arbitrary: e)
  case (Cons s specs)
  show ?case
    unfolding list.map map_image_Cons
    by (cases s call rule: program_spec_check_cases) (simp_all add: Cons.IH)
qed auto

definition program_forbidden :: "exec_policy \<Rightarrow> exec_call \<Rightarrow> bool" where
  "program_forbidden policy call \<longleftrightarrow>
     list_ex (\<lambda>(regex, reason). regex (call_program call)) (forbidden_program_regexes policy)"

definition arg_forbidden :: "exec_policy \<Rightarrow> rstr \<Rightarrow> bool" where
  "arg_forbidden policy arg \<longleftrightarrow>
     (case forbidden_substrings_pattern policy of Some regex \<Rightarrow> regex arg | None \<Rightarrow> False)"

definition call_forbidden :: "exec_policy \<Rightarrow> exec_call \<Rightarrow> bool" where
  "call_forbidden policy call \<longleftrightarrow>
     program_forbidden policy call \<or> list_ex (arg_forbidden policy) (call_args call)"

lemma find_None_list_ex: "find P xs = None \<longleftrightarrow> \<not> list_ex P xs"
  by (auto simp: find_None_iff list_ex_iff)

lemma arg_forbidden_fold:
  "(\<lambda>arg. case forbidden_substrings_pattern policy of Some regex \<Rightarrow> regex arg | None \<Rightarrow> False) =
   arg_forbidden policy"
  by (simp add: fun_eq_iff arg_forbidden_def)

lemma policy_check_forbidden:
  "call_forbidden policy call \<Longrightarrow> \<exists>cause reason. policy_check policy call = Some (Inr (Forbidden cause reason))"
  unfolding call_forbidden_def program_forbidden_def policy_check_def arg_forbidden_fold
  by (auto simp: find_None_list_ex split: option.split)

lemma policy_check_allowed:
  "\<not> call_forbidden policy call \<Longrightarrow>
   policy_check policy call =
     check_specs (get_vec (programs policy) (call_program call)) call (NoSpecForProgram (call_program call))"
  unfolding call_forbidden_def program_forbidden_def policy_check_def arg_forbidden_fold
  by (auto simp: find_None_list_ex [THEN iffD2])

lemma policy_check_returns: "policy_check policy call \<noteq> None"
  using policy_check_forbidden policy_check_allowed check_specs_returns
  by (cases "call_forbidden policy call") fastforce+

lemma program_spec_check_Match:
  "program_spec_check spec call = Some (Inr (Match exec)) \<longleftrightarrow>
     accepted_as spec (call_args call) exec \<and> ps_forbidden spec = None"
  by (auto simp: program_spec_check_iff verdict_of_def split: option.splits)

lemma policy_check_Match:
  "policy_check policy call = Some (Inr (Match exec)) \<longleftrightarrow>
     \<not> call_forbidden policy call \<and>
     (\<exists>pre spec post. get_vec (programs policy) (call_program call) = pre @ spec # post \<and>
        list_all (\<lambda>s. \<exists>e. program_spec_check s call = Some (Inl e)) pre \<and>
        accepted_as spec (call_args call) exec \<and> ps_forbidden spec = None)"
proof (cases "call_forbidden policy call")
  case False
  then show ?thesis
    by (simp add: policy_check_allowed check_specs_Inr program_spec_check_Match)
qed (use policy_check_forbidden in force)

lemma policy_check_Inl:
  "policy_check policy call = Some (Inl e) \<longleftrightarrow>
     \<not> call_forbidden policy call \<and>
     (\<exists>es. map (\<lambda>s. program_spec_check s call) (get_vec (programs policy) (call_program call)) =
         map (\<lambda>e. Some (Inl e)) es \<and>
        e = last (NoSpecForProgram (call_program call) # es))"
proof (cases "call_forbidden policy call")
  case False
  then show ?thesis
    by (simp add: policy_check_allowed check_specs_Inl)
qed (use policy_check_forbidden in force)

text \<open> Errors are reported faithfully. A policy answers with an error exactly when nothing forbids the
  call and every specification of the program rejects it, and the error is the one of the last
  specification, or that there is none.
\<close>

theorem policy_error_is_last_rejection:
  "policy_check policy call = Some (Inl e) \<longleftrightarrow>
     \<not> call_forbidden policy call \<and>
     (\<exists>es. map (\<lambda>s. program_spec_check s call) (get_vec (programs policy) (call_program call)) =
         map (\<lambda>e. Some (Inl e)) es \<and>
        e = last (NoSpecForProgram (call_program call) # es))"
  by (rule policy_check_Inl)

section \<open>Policy files\<close>

definition spec_of_def :: "program_def \<Rightarrow> (rstr \<times> exec_opt) list \<Rightarrow> program_spec" where
  "spec_of_def d options =
     program_spec_new (pd_program d) (unwrap_or (pd_system_path d) [])
       (unwrap_or (pd_option_bundling d) False) (unwrap_or (pd_combined_format d) False)
       options (unwrap_or (pd_args d) []) (pd_forbidden d)
       (unwrap_or (pd_should_match d) []) (unwrap_or (pd_should_not_match d) [])"

text \<open>What each kind of statement contributes to the policy.\<close>

fun stmt_specs :: "rstr \<Rightarrow> policy_stmt \<Rightarrow> program_spec list" where
  "stmt_specs program (DefineProgram d) =
     (if pd_program d = program
      then (case collect_options (unwrap_or (pd_options d) []) [] of
              Inr options \<Rightarrow> [spec_of_def d options] | Inl _ \<Rightarrow> [])
      else [])"
| "stmt_specs program _ = []"

fun stmt_substrings :: "policy_stmt \<Rightarrow> rstr list" where
  "stmt_substrings (ForbidSubstrings ss) = ss"
| "stmt_substrings _ = []"

fun stmt_regexes :: "regex_lib \<Rightarrow> policy_stmt \<Rightarrow> (regex \<times> rstr) list" where
  "stmt_regexes lib (ForbidProgramRegex src reason) =
     (case regex_new lib src of Inr r \<Rightarrow> [(r, reason)] | Inl _ \<Rightarrow> [])"
| "stmt_regexes lib _ = []"

lemma get_vec_multimap_insert:
  "get_vec (multimap_insert k v m) k' = (if k' = k then get_vec m k @ [v] else get_vec m k')"
  by (induction k v m rule: multimap_insert.induct) (auto simp: get_vec_def split: if_splits)

lemma run_stmt_effect:
  assumes "run_stmt lib s b = Inr b'"
  shows "get_vec (pb_programs b') program = get_vec (pb_programs b) program @ stmt_specs program s"
    and "pb_forbidden_substrings b' = pb_forbidden_substrings b @ stmt_substrings s"
    and "pb_forbidden_program_regexes b' = pb_forbidden_program_regexes b @ stmt_regexes lib s"
  using assms
  by (cases s; auto simp: define_program_def forbid_substrings_def forbid_program_regex_def
      add_program_spec_def add_forbidden_substrings_def add_forbidden_program_regex_def
      get_vec_multimap_insert spec_of_def_def program_spec_new_def)+

lemma run_stmts_effect:
  "run_stmts lib ss b = Inr b' \<Longrightarrow>
   get_vec (pb_programs b') program = get_vec (pb_programs b) program @ concat (map (stmt_specs program) ss) \<and>
   pb_forbidden_substrings b' = pb_forbidden_substrings b @ concat (map stmt_substrings ss) \<and>
   pb_forbidden_program_regexes b' = pb_forbidden_program_regexes b @ concat (map (stmt_regexes lib) ss)"
  by (induction ss arbitrary: b) (auto simp: run_stmt_effect)

text \<open>
  The documented behaviour of \<open>regex_lite\<close> the policy relies on: an alternation of one or more escaped
  strings compiles and finds exactly the texts that contain one of the strings. Nothing is asked for a
  policy without forbidden strings, which has no pattern.
\<close>

definition escapes_literally :: "regex_lib \<Rightarrow> rstr list \<Rightarrow> bool" where
  "escapes_literally lib ss \<longleftrightarrow> ss = [] \<or>
     (\<exists>r. regex_new lib (substrings_regex_source lib ss) = Inr r \<and>
        (\<forall>a. r a \<longleftrightarrow> list_ex (str_contains a) ss))"

lemma policy_new_pattern:
  "policy_new lib progs regexes ss = Inr policy \<Longrightarrow> regex_new lib (substrings_regex_source lib ss) = Inr r \<Longrightarrow>
   forbidden_substrings_pattern policy = (if ss = [] then None else Some r)"
  by (auto simp: policy_new_def split: if_splits)

lemma parse_policy_effect:
  assumes "parse_policy lib stmts = Inr policy"
  shows "get_vec (programs policy) program = concat (map (stmt_specs program) stmts)"
    and "forbidden_program_regexes policy = concat (map (stmt_regexes lib) stmts)"
    and "escapes_literally lib (concat (map stmt_substrings stmts)) \<Longrightarrow>
      arg_forbidden policy a \<longleftrightarrow> list_ex (str_contains a) (concat (map stmt_substrings stmts))"
proof -
  obtain b where b: "run_stmts lib stmts policy_builder_new = Inr b" "policy_builder_build lib b = Inr policy"
    using assms by (auto simp: parse_policy_def)
  have effect: "get_vec (pb_programs b) program = concat (map (stmt_specs program) stmts)"
      "pb_forbidden_substrings b = concat (map stmt_substrings stmts)"
      "pb_forbidden_program_regexes b = concat (map (stmt_regexes lib) stmts)"
    using run_stmts_effect [OF b(1), of program] by (simp_all add: policy_builder_new_def get_vec_def)
  show "get_vec (programs policy) program = concat (map (stmt_specs program) stmts)"
    and "forbidden_program_regexes policy = concat (map (stmt_regexes lib) stmts)"
    using effect b(2) by (auto simp: policy_builder_build_def policy_new_def)
  show "arg_forbidden policy a \<longleftrightarrow> list_ex (str_contains a) (concat (map stmt_substrings stmts))"
    if esc: "escapes_literally lib (concat (map stmt_substrings stmts))"
  proof -
    let ?ss = "concat (map stmt_substrings stmts)"
    show ?thesis
    proof (cases "?ss = []")
      case True
      then have "forbidden_substrings_pattern policy = None"
        using b(2) effect(2) by (auto simp: policy_builder_build_def policy_new_def)
      then show ?thesis
        unfolding True by (simp add: arg_forbidden_def)
    next
      case False
      then obtain r where r: "regex_new lib (substrings_regex_source lib ?ss) = Inr r"
          "\<And>a. r a \<longleftrightarrow> list_ex (str_contains a) ?ss"
        using esc by (auto simp: escapes_literally_def)
      have "forbidden_substrings_pattern policy = Some r"
        using policy_new_pattern b(2) r(1) False unfolding policy_builder_build_def effect(2) by metis
      then show ?thesis
        by (simp add: arg_forbidden_def r(2))
    qed
  qed
qed

lemma stmt_specs_in:
  assumes "spec \<in> set (stmt_specs program s)"
  shows "\<exists>d options. s = DefineProgram d \<and> pd_program d = program \<and>
     collect_options (unwrap_or (pd_options d) []) [] = Inr options \<and> spec = spec_of_def d options"
proof (cases s)
  case (DefineProgram d)
  then have "pd_program d = program"
    "\<exists>options. collect_options (unwrap_or (pd_options d) []) [] = Inr options \<and> spec = spec_of_def d options"
    using assms by (cases "pd_program d = program"; cases "collect_options (unwrap_or (pd_options d) []) []"; simp)+
  then show ?thesis
    using DefineProgram by blast
qed (use assms in simp_all)

lemma stmt_specs_sound:
  "spec \<in> set (concat (map (stmt_specs program) stmts)) \<Longrightarrow>
   \<exists>d options. DefineProgram d \<in> set stmts \<and> pd_program d = program \<and>
     collect_options (unwrap_or (pd_options d) []) [] = Inr options \<and> spec = spec_of_def d options"
  using stmt_specs_in by fastforce

text \<open>A library whose escape puts a backslash before every character, for concrete policies.\<close>

fun sample_alternatives :: "rstr \<Rightarrow> rstr \<Rightarrow> rstr list" where
  "sample_alternatives acc [] = [acc]"
| "sample_alternatives acc [c] = [acc @ [c]]"
| "sample_alternatives acc (c # d # s) =
     (if c = 92 then sample_alternatives (acc @ [d]) s
      else if c = 124 then acc # sample_alternatives [] (d # s)
      else sample_alternatives (acc @ [c]) (d # s))"

definition sample_regex_lib :: regex_lib where
  "sample_regex_lib =
     \<lparr>regex_escape = (\<lambda>s. concat (map (\<lambda>c. [92, c]) s)),
      regex_new = (\<lambda>p. Inr (\<lambda>a. list_ex (str_contains a) (sample_alternatives [] (butlast (tl p)))))\<rparr>"

definition sample_head :: program_def where
  "sample_head =
     \<lparr>pd_program = lit ''head'', pd_system_path = Some [lit ''/usr/bin/head''], pd_option_bundling = None,
      pd_combined_format = None, pd_options = Some [opt_builtin (lit ''-n'') PositiveInteger None],
      pd_args = Some [ReadableFiles], pd_forbidden = None, pd_should_match = None,
      pd_should_not_match = None\<rparr>"

definition sample_stmts :: "policy_stmt list" where
  "sample_stmts =
     [ForbidSubstrings [lit ''rm'', lit ''|''], ForbidProgramRegex (lit ''(su)'') (lit ''no''),
      DefineProgram sample_head]"

definition sample_call :: exec_call where
  "sample_call = \<lparr>call_program = lit ''head'', call_args = [lit ''-n'', lit ''3'', lit ''a'']\<rparr>"

definition sample_exec :: valid_exec where
  "sample_exec =
     \<lparr>ve_program = lit ''head'', ve_flags = [],
      ve_opts = [\<lparr>mo_name = lit ''-n'', mo_value = lit ''3'', mo_type = TPositiveInteger\<rparr>],
      ve_args = [\<lparr>ma_index = 2, ma_type = TReadableFile, ma_value = lit ''a''\<rparr>],
      ve_system_path = [lit ''/usr/bin/head'']\<rparr>"

lemmas sample_defs = sample_regex_lib_def sample_head_def sample_stmts_def sample_call_def sample_exec_def

lemma sample_escapes: "escapes_literally sample_regex_lib [lit ''rm'', lit ''|'']"
  by (simp add: escapes_literally_def sample_regex_lib_def substrings_regex_source_def str_eval)

lemma sample_spec_check:
  "program_spec_check (spec_of_def sample_head [(lit ''-n'', opt_builtin (lit ''-n'') PositiveInteger None)])
     sample_call = Some (Inr (Match sample_exec))"
  by (simp add: program_spec_check_def sample_defs spec_of_def_def program_spec_new_def unwrap_or_def
      opt_builtin_def scan_arg_def scan_start_def matched_opt_new_def
      resolve_observed_args_with_patterns_def partition_args_def paritioned_args_default_def
      get_range_checked_def match_vararg_and_suffix_def match_vararg_def slice_def matched_arg_new_def
      finish_check_def parse_u64_def str_eval)

lemma sample_policy:
  "\<exists>policy. parse_policy sample_regex_lib sample_stmts = Inr policy \<and>
     policy_check policy sample_call = Some (Inr (Match sample_exec))"
proof -
  have "\<exists>policy. parse_policy sample_regex_lib sample_stmts = Inr policy"
    by (simp add: parse_policy_def sample_defs unwrap_or_def opt_builtin_def define_program_def
        forbid_substrings_def forbid_program_regex_def policy_builder_build_def policy_new_def)
  then obtain policy where policy: "parse_policy sample_regex_lib sample_stmts = Inr policy"
    by blast
  note effect = parse_policy_effect [OF policy]
  have "escapes_literally sample_regex_lib (concat (map stmt_substrings sample_stmts))"
    using sample_escapes by (simp add: sample_stmts_def)
  from effect(3) [OF this] have "\<not> list_ex (arg_forbidden policy) (call_args sample_call)"
    by (simp add: sample_stmts_def sample_call_def str_eval)
  moreover have "\<not> program_forbidden policy sample_call"
    by (simp add: program_forbidden_def effect(2) sample_defs str_eval)
  moreover have "get_vec (programs policy) (call_program sample_call) =
      [spec_of_def sample_head [(lit ''-n'', opt_builtin (lit ''-n'') PositiveInteger None)]]"
    by (simp add: effect(1) sample_stmts_def) (simp add: sample_head_def sample_call_def unwrap_or_def opt_builtin_def)
  ultimately have "policy_check policy sample_call = Some (Inr (Match sample_exec))"
    by (simp add: policy_check_allowed call_forbidden_def sample_spec_check)
  then show ?thesis
    using policy by blast
qed

text \<open> (C10)
  A policy file protects what it says. When the call is matched against a policy built from the
  file's statements, no argument contains a string that the file forbids, no regular expression the
  file forbids matches the program, and the file defines the program, without forbidding it, by a
  definition whose grammar accepts the arguments.
\<close>

theorem policy_file_match_sound:
  assumes "parse_policy lib stmts = Inr policy"
    and "escapes_literally lib (concat (map stmt_substrings stmts))"
    and "policy_check policy call = Some (Inr (Match exec))"
  shows "\<not> list_ex (\<lambda>arg. list_ex (str_contains arg) (concat (map stmt_substrings stmts))) (call_args call) \<and>
    \<not> list_ex (\<lambda>(r, _). r (call_program call)) (concat (map (stmt_regexes lib) stmts)) \<and>
    (\<exists>d options. DefineProgram d \<in> set stmts \<and> pd_program d = call_program call \<and>
      pd_forbidden d = None \<and> collect_options (unwrap_or (pd_options d) []) [] = Inr options \<and>
      accepted_as (spec_of_def d options) (call_args call) exec)"
proof (intro conjI)
  note effect = parse_policy_effect [OF assms(1)]
  note match = assms(3) [unfolded policy_check_Match]
  show "\<not> list_ex (\<lambda>arg. list_ex (str_contains arg) (concat (map stmt_substrings stmts))) (call_args call)"
    using match effect(3) [OF assms(2)] by (simp add: call_forbidden_def list_ex_iff)
  show "\<not> list_ex (\<lambda>(r, _). r (call_program call)) (concat (map (stmt_regexes lib) stmts))"
    using match effect(2) by (simp add: call_forbidden_def program_forbidden_def)
  from match obtain spec where spec: "spec \<in> set (get_vec (programs policy) (call_program call))"
      "accepted_as spec (call_args call) exec" "ps_forbidden spec = None"
    by (metis in_set_conv_decomp)
  then obtain d options where "DefineProgram d \<in> set stmts" "pd_program d = call_program call"
      "collect_options (unwrap_or (pd_options d) []) [] = Inr options" "spec = spec_of_def d options"
    using stmt_specs_sound effect(1) by metis
  then show "\<exists>d options. DefineProgram d \<in> set stmts \<and> pd_program d = call_program call \<and>
      pd_forbidden d = None \<and> collect_options (unwrap_or (pd_options d) []) [] = Inr options \<and>
      accepted_as (spec_of_def d options) (call_args call) exec"
    using spec(2,3) by (auto simp: spec_of_def_def program_spec_new_def)
qed

theorem policy_file_match_sound_witness:
  "\<exists>policy. parse_policy sample_regex_lib sample_stmts = Inr policy \<and>
     policy_check policy sample_call = Some (Inr (Match sample_exec)) \<and>
     \<not> list_ex (\<lambda>arg. list_ex (str_contains arg) (concat (map stmt_substrings sample_stmts)))
         (call_args sample_call)"
proof -
  obtain policy where policy: "parse_policy sample_regex_lib sample_stmts = Inr policy"
      "policy_check policy sample_call = Some (Inr (Match sample_exec))"
    using sample_policy by blast
  moreover have "escapes_literally sample_regex_lib (concat (map stmt_substrings sample_stmts))"
    using sample_escapes by (simp add: sample_stmts_def)
  ultimately show ?thesis
    using policy_file_match_sound by blast
qed

section \<open>The files of an accepted invocation\<close>

definition file_inside :: "exec_env \<Rightarrow> rstr option \<Rightarrow> rstr list \<Rightarrow> rstr \<Rightarrow> bool" where
  "file_inside env cwd folders v \<longleftrightarrow>
     (\<exists>file. ensure_absolute_path env v cwd = Inr file \<and> list_ex (path_starts_with file) folders)"

fun value_allowed :: "exec_env \<Rightarrow> rstr option \<Rightarrow> rstr list \<Rightarrow> rstr list \<Rightarrow> arg_type \<times> rstr \<Rightarrow> bool" where
  "value_allowed env cwd readable writeable (ty, v) \<longleftrightarrow>
     (ty = TReadableFile \<longrightarrow> file_inside env cwd readable v) \<and>
     (ty = TWriteableFile \<longrightarrow> file_inside env cwd writeable v)"

lemma check_file_arg_iff:
  "check_file_arg env cwd readable writeable a = Inr () \<longleftrightarrow> value_allowed env cwd readable writeable a"
  by (cases "(env, cwd, readable, writeable, a)" rule: check_file_arg.cases)
    (auto simp: file_inside_def check_file_in_folders_def split: if_splits)

lemma check_file_args_iff:
  "check_file_args env cwd readable writeable as = Inr () \<longleftrightarrow>
     list_all (value_allowed env cwd readable writeable) as"
  by (induction as) (auto simp: check_file_arg_iff)

text \<open> The file check lets an invocation through exactly when every value typed as a readable file names
  a path inside a readable folder and every value typed as a writeable file one inside a writeable
  folder, after it was made absolute; the program it names is then the first executable of the
  system paths, or the program itself when none is.
\<close>

theorem execv_check_iff:
  "execv_check env exec cwd readable writeable = Inr program \<longleftrightarrow>
     list_all (value_allowed env cwd readable writeable) (typed_values exec) \<and>
     (program = ve_program exec \<and> filter (is_executable_file env) (ve_system_path exec) = [] \<or>
      (\<exists>rest. filter (is_executable_file env) (ve_system_path exec) = program # rest))"
proof -
  have "find P xs = (case filter P xs of [] \<Rightarrow> None | x # _ \<Rightarrow> Some x)" for P and xs :: "rstr list"
    by (induction xs) simp_all
  then show ?thesis
    by (auto simp: execv_check_def check_file_args_iff split: list.split)
qed

text \<open>
  An invocation with no file argument passes whatever the folders are: for a program that lists the
  current directory when it is given no files, the directory is not checked.
\<close>

lemma no_arguments_not_checked:
  "ve_args exec = [] \<Longrightarrow> ve_opts exec = [] \<Longrightarrow> \<exists>program. execv_check env exec cwd [] [] = Inr program"
  by (simp add: execv_check_def typed_values_def)

section \<open>The verdict\<close>

lemma might_write_files_iff:
  "might_write_files exec \<longleftrightarrow> list_ex (\<lambda>(ty, v). ty = TWriteableFile \<or> ty = TUnknown) (typed_values exec)"
proof -
  have "might_write_file ty \<longleftrightarrow> ty = TWriteableFile \<or> ty = TUnknown" for ty
    by (cases ty) simp_all
  then show ?thesis
    by (auto simp: might_write_files_def typed_values_def list_ex_iff)
qed

text \<open> The strict exit code is sound. With \<open>--require-safe\<close> the tool exits with 0 exactly when the policy
  matches the call and no value of the invocation is typed as a writeable file or as unknown, and it
  then prints the invocation as safe.
\<close>

theorem strict_exit_zero_iff_safe:
  "check_command policy call True = Some (out, 0) \<longleftrightarrow>
     (\<exists>exec. policy_check policy call = Some (Inr (Match exec)) \<and> out = OutSafe exec \<and>
        \<not> list_ex (\<lambda>(ty, v). ty = TWriteableFile \<or> ty = TUnknown) (typed_values exec))"
  by (auto simp: check_command_def might_write_files_iff MATCHED_BUT_WRITES_FILES_EXIT_CODE_def
      MIGHT_BE_SAFE_EXIT_CODE_def FORBIDDEN_EXIT_CODE_def
      split: option.splits sum.splits matched_exec.splits if_splits)

text \<open> (C36)
  Accepted invocations are well typed: every value the policy reports for an argument or an option
  passes the validation of the type it is reported with, and every matched argument is the word of
  the command line at its index.
\<close>

theorem matched_exec_well_typed:
  assumes "policy_check policy call = Some (Inr (Match exec))"
  shows "well_typed_exec (call_args call) exec"
  using assms accepted_as_well_typed by (auto simp: policy_check_Match)

theorem matched_exec_well_typed_witness:
  "\<exists>policy. policy_check policy sample_call = Some (Inr (Match sample_exec)) \<and>
     well_typed_exec (call_args sample_call) sample_exec"
  using sample_policy matched_exec_well_typed by blast

end
