(* ===== verification/Sandbox_Policy.thy ===== *)
theory Sandbox_Policy
  imports Rust_Path
begin

text \<open>
  The approval and sandbox policies of a session (\<open>code-rs/core/src/protocol.rs\<close>) and the writable
  roots they give, with the path normalisation of \<open>code-rs/core/src/safety.rs\<close>.

  The model is that of the Unix builds; \<open>target_os\<close> stands for \<open>cfg!(target_os)\<close>. Which directories
  exist and the value of \<open>TMPDIR\<close> are fields of \<open>host_env\<close>.
\<close>

section \<open>Policies\<close>

record reject_config =
  rej_sandbox_approval :: bool
  rej_rules :: bool
  rej_skill_approval :: bool
  rej_request_permissions :: bool
  rej_mcp_elicitations :: bool

definition rejects_sandbox_approval :: "reject_config \<Rightarrow> bool" where
  "rejects_sandbox_approval c \<longleftrightarrow> rej_sandbox_approval c"

definition rejects_rules_approval :: "reject_config \<Rightarrow> bool" where
  "rejects_rules_approval c \<longleftrightarrow> rej_rules c"

datatype ask_for_approval = UnlessTrusted | OnFailure | OnRequest | RejectPrompts reject_config | Never

record workspace_write =
  ww_writable_roots :: "rstr list"
  ww_network_access :: bool
  ww_exclude_tmpdir_env_var :: bool
  ww_exclude_slash_tmp :: bool
  ww_allow_git_writes :: bool

datatype sandbox_policy = DangerFullAccess | ReadOnly | WorkspaceWrite workspace_write

definition has_full_disk_write_access :: "sandbox_policy \<Rightarrow> bool" where
  "has_full_disk_write_access p =
     (case p of DangerFullAccess \<Rightarrow> True | ReadOnly \<Rightarrow> False | WorkspaceWrite _ \<Rightarrow> False)"

definition has_full_network_access :: "sandbox_policy \<Rightarrow> bool" where
  "has_full_network_access p =
     (case p of DangerFullAccess \<Rightarrow> True | ReadOnly \<Rightarrow> False | WorkspaceWrite w \<Rightarrow> ww_network_access w)"

definition new_workspace_write_policy :: sandbox_policy where
  "new_workspace_write_policy =
     WorkspaceWrite \<lparr>ww_writable_roots = [], ww_network_access = False,
       ww_exclude_tmpdir_env_var = False, ww_exclude_slash_tmp = False, ww_allow_git_writes = True\<rparr>"

datatype target_os = MacOs | Linux | OtherUnix

datatype sandbox_type = NoSandbox | MacosSeatbelt | LinuxSeccomp

definition get_platform_sandbox :: "target_os \<Rightarrow> sandbox_type option" where
  "get_platform_sandbox os =
     (if os = MacOs then Some MacosSeatbelt else if os = Linux then Some LinuxSeccomp else None)"

section \<open>Writable roots\<close>

record host_env =
  host_os :: target_os
  is_dir :: "rstr \<Rightarrow> bool"
  tmpdir_var :: "rstr option"

record writable_root =
  root_path :: rstr
  read_only_subpaths :: "rstr list"

definition is_path_writable :: "writable_root \<Rightarrow> rstr \<Rightarrow> bool" where
  "is_path_writable r path \<longleftrightarrow>
     (if \<not> path_starts_with path (root_path r) then False
      else \<not> list_ex (path_starts_with path) (read_only_subpaths r))"

definition writable_root_of :: "host_env \<Rightarrow> bool \<Rightarrow> rstr \<Rightarrow> writable_root" where
  "writable_root_of env allow_git_writes root =
     \<lparr>root_path = root,
      read_only_subpaths =
        (let top_level_git = path_join root (lit ''.git'')
         in if \<not> allow_git_writes \<and> is_dir env top_level_git then [top_level_git] else [])\<rparr>"

definition get_writable_roots_with_cwd :: "host_env \<Rightarrow> sandbox_policy \<Rightarrow> rstr \<Rightarrow> writable_root list" where
  "get_writable_roots_with_cwd env p cwd =
     (case p of
        DangerFullAccess \<Rightarrow> []
      | ReadOnly \<Rightarrow> []
      | WorkspaceWrite w \<Rightarrow>
          (let roots = ww_writable_roots w;
               roots = roots @ [cwd];
               roots = (if \<not> ww_exclude_slash_tmp w \<and> is_dir env (lit ''/tmp'')
                        then roots @ [lit ''/tmp''] else roots);
               roots = (if \<not> ww_exclude_tmpdir_env_var w
                        then (case tmpdir_var env of
                                Some tmpdir \<Rightarrow> if tmpdir \<noteq> [] then roots @ [tmpdir] else roots
                              | None \<Rightarrow> roots)
                        else roots)
           in map (writable_root_of env (ww_allow_git_writes w)) roots))"

section \<open>Normalising a path\<close>

text \<open>
  One component of the loop of \<open>normalize\<close>. \<open>PathBuf::pop\<close> removes the last component, except that
  the root directory and the empty path have no parent and stay.
\<close>

definition normalize_component :: "rstr list \<Rightarrow> rstr \<Rightarrow> rstr list" where
  "normalize_component out c =
     (if c = [46, 46] then (if out = [[47]] then out else butlast out)
      else if c = [46] then out
      else out @ [c])"

definition normalize_path :: "rstr \<Rightarrow> rstr" where
  "normalize_path path = render_path (foldl normalize_component [] (path_key path))"

section \<open>Normalised paths have no way up\<close>

definition path_component :: "rstr \<Rightarrow> bool" where
  "path_component c \<longleftrightarrow> c \<noteq> [] \<and> c \<noteq> [46] \<and> 47 \<notin> set c"

lemma path_parts_component: "c \<in> set (path_parts path) \<Longrightarrow> path_component c"
  by (auto simp: path_parts_def path_component_def dest: split_on_elems)

lemma path_component_relative [simp]: "path_component c \<Longrightarrow> \<not> is_absolute c"
  by (cases c) (auto simp: path_component_def is_absolute_def starts_with_iff)

lemma path_component_ends [simp]:
  "path_component c \<Longrightarrow> c \<noteq> []" "path_component c \<Longrightarrow> last c \<noteq> 47"
  by (simp add: path_component_def) (metis last_in_set path_component_def)

lemma render_parts:
  assumes "list_all path_component cs" and "base \<noteq> []" and "last base \<noteq> 47"
  shows "foldl path_join base cs = join [47] (base # cs)"
  using assms
proof (induction cs arbitrary: base)
  case (Cons c cs)
  have "path_join base c = base @ [47] @ c" and "last (base @ [47] @ c) \<noteq> 47"
    using Cons.prems by (simp_all add: path_join_def)
  then show ?case
    using Cons by (cases cs) simp_all
qed simp

lemma render_relative: "list_all path_component cs \<Longrightarrow> render_path cs = join [47] cs"
proof (cases cs)
  case (Cons c cs')
  assume "list_all path_component cs"
  then have "path_join [] c = c" "c \<noteq> []" "last c \<noteq> 47"
    using Cons by (simp_all add: path_join_def)
  then show ?thesis
    using render_parts [of cs' c] Cons \<open>list_all path_component cs\<close> by (simp add: render_path_def)
qed (simp add: render_path_def)

lemma render_absolute:
  assumes "list_all path_component cs"
  shows "render_path ([47] # cs) = 47 # join [47] cs"
proof (cases cs)
  case (Cons c cs')
  have "path_join [] [47] = [47]" "path_join [47] c = 47 # c" "last (47 # c) \<noteq> 47"
    using assms Cons by (simp_all add: path_join_def)
  then show ?thesis
    using render_parts [of cs' "47 # c"] Cons assms by (cases cs') (simp_all add: render_path_def)
qed (simp add: render_path_def path_join_def is_absolute_def)

lemma filter_components [simp]:
  "list_all path_component cs \<Longrightarrow> filter (\<lambda>c. c \<noteq> [] \<and> c \<noteq> [46]) cs = cs"
  by (induction cs) (auto simp: path_component_def)

lemma path_parts_join:
  assumes "list_all path_component cs"
  shows "path_parts (join [47] cs) = cs"
proof (cases "cs = []")
  case False
  then have "split_on 47 (join [47] cs) = cs"
    using assms by (intro split_on_join) (auto simp: list_all_iff path_component_def)
  then show ?thesis
    using assms by (simp add: path_parts_def)
qed (simp add: path_parts_def)

lemma path_key_render_absolute:
  assumes "list_all path_component cs"
  shows "path_key (render_path ([47] # cs)) = [47] # cs"
  using path_parts_join [OF assms] render_absolute [OF assms]
  by (simp add: path_key_def is_absolute_def path_parts_def str_eval)

lemma path_key_absolute: "is_absolute path \<Longrightarrow> path_key path = [47] # path_parts path"
  by (simp add: path_key_def)

text \<open>The components of the normal form of an absolute path.\<close>

fun resolve_dots :: "rstr list \<Rightarrow> rstr list \<Rightarrow> rstr list" where
  "resolve_dots out [] = rev out"
| "resolve_dots out (c # cs) =
     (if c = [46, 46] then resolve_dots (drop 1 out) cs else resolve_dots (c # out) cs)"

lemma normalize_components_absolute:
  "list_all path_component cs \<Longrightarrow>
   foldl normalize_component ([47] # rev out) cs = [47] # resolve_dots out cs"
proof (induction out cs rule: resolve_dots.induct)
  case (2 out c cs)
  then have "normalize_component ([47] # rev out) c =
      [47] # rev (if c = [46, 46] then drop 1 out else c # out)"
    by (cases out) (auto simp: normalize_component_def path_component_def butlast_append)
  then show ?case
    using 2 by auto
qed simp

lemma resolve_dots_components:
  "list_all path_component out \<Longrightarrow> list_all path_component cs \<Longrightarrow> [46, 46] \<notin> set out \<Longrightarrow>
   list_all path_component (resolve_dots out cs) \<and> [46, 46] \<notin> set (resolve_dots out cs)"
  by (induction out cs rule: resolve_dots.induct)
    (auto simp: list_all_iff dest: in_set_dropD)

lemma path_key_normalize_path:
  assumes "is_absolute path"
  shows "path_key (normalize_path path) = [47] # resolve_dots [] (path_parts path)"
    and "[46, 46] \<notin> set (path_key (normalize_path path))"
proof -
  have parts: "list_all path_component (path_parts path)"
    by (simp add: list_all_iff path_parts_component)
  have "foldl normalize_component [] (path_key path) = [47] # resolve_dots [] (path_parts path)"
    using normalize_components_absolute [OF parts, of "[]"]
    by (simp add: path_key_absolute [OF assms] normalize_component_def)
  then show key: "path_key (normalize_path path) = [47] # resolve_dots [] (path_parts path)"
    unfolding normalize_path_def
    using path_key_render_absolute resolve_dots_components [OF _ parts, of "[]"] by simp
  show "[46, 46] \<notin> set (path_key (normalize_path path))"
    unfolding key using resolve_dots_components [OF _ parts, of "[]"] by simp
qed

end
