(* ===== verification/Command_Safety.thy ===== *)
theory Command_Safety
  imports Sandbox_Policy
begin

text \<open>
  Which shell commands run, and in which sandbox: the bash scripts the agent understands
  (\<open>code-rs/core/src/bash.rs\<close>), the commands known to be safe
  (\<open>core/src/command_safety/is_safe_command.rs\<close>), the commands the user approved for the session
  (\<open>core/src/codex/session.rs\<close>, \<open>core/src/util.rs\<close>), the assessment of a command
  (\<open>core/src/safety.rs\<close>) and its use when a command is about to run
  (\<open>core/src/codex/streaming.rs\<close>).

  Parameters: the tree-sitter parser, which maps a script to a syntax tree, and the \<open>shlex\<close>
  splitter. A tree-sitter node is the data the code reads from it: its kind, whether it is named,
  its first byte, its text (absent when the bytes are not UTF-8) and its children.
\<close>

section \<open>Syntax trees\<close>

datatype ts_node =
  TsNode (ts_kind: rstr) (ts_named: bool) (ts_start: nat) (ts_text: "rstr option") (ts_children: "ts_node list")

record ts_tree =
  root_node :: ts_node
  root_has_error :: bool

record shell_lib =
  try_parse_bash :: "rstr \<Rightarrow> ts_tree option"
  shlex_split :: "rstr \<Rightarrow> rstr list option"

definition ALLOWED_KINDS :: "rstr list" where
  "ALLOWED_KINDS = map lit [''program'', ''list'', ''pipeline'', ''command'', ''command_name'', ''word'',
     ''string'', ''string_content'', ''raw_string'', ''number'']"

definition ALLOWED_PUNCT_TOKENS :: "rstr list" where
  "ALLOWED_PUNCT_TOKENS = [lit ''&&'', lit ''||'', lit '';'', lit ''|'', [34], [39]]"

text \<open>The tests of the loop on one node: \<open>None\<close> is the early return.\<close>

definition node_allowed :: "ts_node \<Rightarrow> bool" where
  "node_allowed node \<longleftrightarrow>
     (if ts_named node then ts_kind node \<in> set ALLOWED_KINDS
      else if list_ex (\<lambda>c. c \<in> set (lit ''&;|'')) (ts_kind node) \<and> ts_kind node \<notin> set ALLOWED_PUNCT_TOKENS
      then False
      else ts_kind node \<in> set ALLOWED_PUNCT_TOKENS \<or> trim (ts_kind node) = [])"

definition is_command_node :: "ts_node \<Rightarrow> bool" where
  "is_command_node node \<longleftrightarrow> ts_named node \<and> ts_kind node = lit ''command''"

text \<open>The stack has its top first; the children of a node are pushed in order.\<close>

function collect_commands :: "ts_node list \<Rightarrow> ts_node list \<Rightarrow> ts_node list option" where
  "collect_commands [] command_nodes = Some command_nodes"
| "collect_commands (node # stack) command_nodes =
     (if \<not> node_allowed node then None
      else collect_commands (rev (ts_children node) @ stack)
             (if is_command_node node then command_nodes @ [node] else command_nodes))"
  by pat_completeness auto

lemma size_children: "sum_list (map size (ts_children node)) < size node"
proof (cases node)
  case (TsNode k n s t cs)
  have "sum_list (map size cs) \<le> size_list size cs" for cs :: "ts_node list"
    by (induction cs) simp_all
  then show ?thesis
    using TsNode by (simp add: le_imp_less_Suc)
qed

termination collect_commands
  by (relation "measure (\<lambda>(stack, _). sum_list (map size stack))")
    (auto simp: size_children simp flip: rev_map)

definition parse_plain_word :: "ts_node \<Rightarrow> rstr option" where
  "parse_plain_word child =
     (if ts_kind child = lit ''command_name'' then
        (case filter ts_named (ts_children child) of
           [] \<Rightarrow> None
         | word_node # _ \<Rightarrow> if ts_kind word_node \<noteq> lit ''word'' then None else ts_text word_node)
      else if ts_kind child \<in> {lit ''word'', lit ''number''} then ts_text child
      else if ts_kind child = lit ''string'' then
        (case ts_children child of
           [open_quote, content, close_quote] \<Rightarrow>
             if ts_kind open_quote = [34] \<and> ts_kind content = lit ''string_content'' \<and>
                ts_kind close_quote = [34]
             then ts_text content else None
         | _ \<Rightarrow> None)
      else if ts_kind child = lit ''raw_string'' then
        Option.bind (ts_text child) (\<lambda>raw_string.
          Option.bind (strip_prefix raw_string [39]) (\<lambda>s. strip_suffix s [39]))
      else None)"

fun those_words :: "ts_node list \<Rightarrow> rstr list option" where
  "those_words [] = Some []"
| "those_words (child # cs) =
     Option.bind (parse_plain_word child) (\<lambda>w. Option.bind (those_words cs) (\<lambda>ws. Some (w # ws)))"

definition parse_plain_command_from_node :: "ts_node \<Rightarrow> rstr list option" where
  "parse_plain_command_from_node cmd =
     (if ts_kind cmd \<noteq> lit ''command'' then None
      else those_words (filter ts_named (ts_children cmd)))"

fun parse_command_nodes :: "ts_node list \<Rightarrow> rstr list list option" where
  "parse_command_nodes [] = Some []"
| "parse_command_nodes (node # nodes) =
     Option.bind (parse_plain_command_from_node node) (\<lambda>words.
       Option.bind (parse_command_nodes nodes) (\<lambda>commands. Some (words # commands)))"

definition try_parse_word_only_commands_sequence :: "ts_tree \<Rightarrow> rstr list list option" where
  "try_parse_word_only_commands_sequence tree =
     (if root_has_error tree then None
      else Option.bind (collect_commands [root_node tree] []) (\<lambda>command_nodes.
             parse_command_nodes (sort_key ts_start command_nodes)))"

section \<open>Commands known to be safe\<close>

definition is_bash :: "rstr \<Rightarrow> bool" where
  "is_bash cmd =
     (let trimmed = trim_matches (\<lambda>c. c = 39) (trim_matches (\<lambda>c. c = 34) cmd);
          named = (\<lambda>s. eq_ignore_ascii_case s (lit ''bash'') \<or> eq_ignore_ascii_case s (lit ''bash.exe''))
      in if named trimmed then True
         else (case file_name trimmed of Some name \<Rightarrow> named name | None \<Rightarrow> False))"

definition is_valid_sed_n_arg :: "rstr option \<Rightarrow> bool" where
  "is_valid_sed_n_arg arg =
     (case arg of
        None \<Rightarrow> False
      | Some s \<Rightarrow>
          (case strip_suffix s (lit ''p'') of
             None \<Rightarrow> False
           | Some core \<Rightarrow>
               (case split_on 44 core of
                  [num] \<Rightarrow> num \<noteq> [] \<and> list_all is_ascii_digit num
                | [a, b] \<Rightarrow> a \<noteq> [] \<and> b \<noteq> [] \<and> list_all is_ascii_digit a \<and> list_all is_ascii_digit b
                | _ \<Rightarrow> False)))"

definition SAFE_COMMANDS :: "rstr list" where
  "SAFE_COMMANDS = map lit [''cat'', ''cd'', ''echo'', ''false'', ''grep'', ''head'', ''ls'', ''nl'',
     ''pwd'', ''tail'', ''true'', ''wc'', ''which'']"

definition UNSAFE_FIND_OPTIONS :: "rstr list" where
  "UNSAFE_FIND_OPTIONS = map lit [''-exec'', ''-execdir'', ''-ok'', ''-okdir'', ''-delete'', ''-fls'',
     ''-fprint'', ''-fprint0'', ''-fprintf'']"

definition UNSAFE_RIPGREP_OPTIONS_WITH_ARGS :: "rstr list" where
  "UNSAFE_RIPGREP_OPTIONS_WITH_ARGS = map lit [''--pre'', ''--hostname-bin'']"

definition UNSAFE_RIPGREP_OPTIONS_WITHOUT_ARGS :: "rstr list" where
  "UNSAFE_RIPGREP_OPTIONS_WITHOUT_ARGS = map lit [''--search-zip'', ''-z'']"

definition SAFE_GIT_SUBCOMMANDS :: "rstr list" where
  "SAFE_GIT_SUBCOMMANDS = map lit [''branch'', ''status'', ''log'', ''diff'', ''show'']"

definition get_arg :: "nat \<Rightarrow> 'a list \<Rightarrow> 'a option" where
  "get_arg i xs = (if i < length xs then Some (xs ! i) else None)"

definition is_safe_to_call_with_exec :: "rstr list \<Rightarrow> bool" where
  "is_safe_to_call_with_exec command =
     (case command of
        [] \<Rightarrow> False
      | cmd0 # _ \<Rightarrow>
          if cmd0 \<in> set SAFE_COMMANDS then True
          else if cmd0 = lit ''find'' then \<not> list_ex (\<lambda>arg. arg \<in> set UNSAFE_FIND_OPTIONS) command
          else if cmd0 = lit ''rg'' then
            \<not> list_ex (\<lambda>arg. arg \<in> set UNSAFE_RIPGREP_OPTIONS_WITHOUT_ARGS \<or>
                 list_ex (\<lambda>opt. arg = opt \<or> starts_with arg (opt @ lit ''=''))
                   UNSAFE_RIPGREP_OPTIONS_WITH_ARGS) command
          else if cmd0 = lit ''git'' then
            (case get_arg 1 command of Some sub \<Rightarrow> sub \<in> set SAFE_GIT_SUBCOMMANDS | None \<Rightarrow> False)
          else if cmd0 = lit ''cargo'' \<and> get_arg 1 command = Some (lit ''check'') then True
          else if cmd0 = lit ''sed'' \<and> length command = 4 \<and> get_arg 1 command = Some (lit ''-n'') \<and>
                  is_valid_sed_n_arg (get_arg 2 command) \<and>
                  map_option (\<lambda>s. s = []) (get_arg 3 command) = Some False then True
          else False)"

definition safe_script :: "shell_lib \<Rightarrow> rstr \<Rightarrow> bool" where
  "safe_script lib script =
     (case Option.bind (try_parse_bash lib script) try_parse_word_only_commands_sequence of
        Some all_commands \<Rightarrow> all_commands \<noteq> [] \<and> list_all is_safe_to_call_with_exec all_commands
      | None \<Rightarrow> False)"

definition is_known_safe_command :: "shell_lib \<Rightarrow> rstr list \<Rightarrow> bool" where
  "is_known_safe_command lib command =
     (if is_safe_to_call_with_exec command then True
      else (case command of
              [script] \<Rightarrow> safe_script lib script
            | [bash, flag, script] \<Rightarrow>
                is_bash bash \<and> flag = lit ''-lc'' \<and> safe_script lib script
            | _ \<Rightarrow> False))"

section \<open>Commands the user approved\<close>

definition is_shell_like_executable :: "rstr \<Rightarrow> bool" where
  "is_shell_like_executable token =
     (let trimmed = trim_matches (\<lambda>c. c = 39) (trim_matches (\<lambda>c. c = 34) token);
          name = to_ascii_lowercase (case file_name trimmed of Some n \<Rightarrow> n | None \<Rightarrow> trimmed)
      in name \<in> set (map lit [''bash'', ''bash.exe'', ''sh'', ''sh.exe'', ''zsh'', ''zsh.exe'', ''dash'',
           ''dash.exe'', ''ksh'', ''ksh.exe'', ''busybox'']))"

definition extract_shell_script :: "rstr list \<Rightarrow> (nat \<times> rstr) option" where
  "extract_shell_script command =
     (case command of
        [script] \<Rightarrow> Some (0, script)
      | [first, second, third] \<Rightarrow>
          (if is_shell_like_executable first \<and> (second = lit ''-lc'' \<or> second = lit ''-c'')
           then Some (2, third) else None)
      | _ \<Rightarrow> None)"

definition semantic_tokens :: "shell_lib \<Rightarrow> rstr list \<Rightarrow> rstr list option" where
  "semantic_tokens lib command =
     (if command = [] then None
      else (case extract_shell_script command of
              Some (_, script) \<Rightarrow>
                Some (case shlex_split lib script of Some ws \<Rightarrow> ws | None \<Rightarrow> [script])
            | None \<Rightarrow> Some command))"

datatype match_kind = MatchExact | MatchPrefix

record approved_pattern =
  ap_argv :: "rstr list"
  ap_kind :: match_kind
  ap_semantic_prefix :: "rstr list option"

definition approved_pattern_new :: "rstr list \<Rightarrow> match_kind \<Rightarrow> rstr list option \<Rightarrow> approved_pattern" where
  "approved_pattern_new argv kind semantic =
     \<lparr>ap_argv = argv, ap_kind = kind,
      ap_semantic_prefix =
        (if kind = MatchPrefix
         then (case semantic of Some s \<Rightarrow> Some s | None \<Rightarrow> Some argv) else None)\<rparr>"

definition list_starts_with :: "'a list \<Rightarrow> 'a list \<Rightarrow> bool" where
  "list_starts_with xs ys \<longleftrightarrow> take (length ys) xs = ys"

definition pattern_matches :: "shell_lib \<Rightarrow> approved_pattern \<Rightarrow> rstr list \<Rightarrow> bool" where
  "pattern_matches lib p command =
     (case ap_kind p of
        MatchExact \<Rightarrow> command = ap_argv p
      | MatchPrefix \<Rightarrow>
          if list_starts_with command (ap_argv p) then True
          else (case (ap_semantic_prefix p, semantic_tokens lib command) of
                  (Some pattern, Some candidate) \<Rightarrow> list_starts_with candidate pattern
                | _ \<Rightarrow> False))"

text \<open>The \<open>HashSet\<close> of approved patterns of the session state, as a list without repetitions.\<close>

definition add_approved_command :: "approved_pattern \<Rightarrow> approved_pattern list \<Rightarrow> approved_pattern list" where
  "add_approved_command p approved = (if p \<in> set approved then approved else approved @ [p])"

section \<open>Assessing a command\<close>

datatype safety_check =
    AutoApprove sandbox_type bool
  | AskUser
  | RejectCheck rstr

text \<open>The match on approval and sandbox policy of the source, arm by arm.\<close>

fun assess_safety_for_untrusted_command ::
    "target_os \<Rightarrow> ask_for_approval \<Rightarrow> sandbox_policy \<Rightarrow> bool \<Rightarrow> safety_check" where
  "assess_safety_for_untrusted_command os UnlessTrusted sandbox escalated = AskUser"
| "assess_safety_for_untrusted_command os (RejectPrompts config) DangerFullAccess escalated =
     AutoApprove NoSandbox False"
| "assess_safety_for_untrusted_command os (RejectPrompts config) sandbox escalated =
     (if rejects_sandbox_approval config \<or> rejects_rules_approval config
      then RejectCheck (lit ''auto-rejected by approval policy'')
      else if escalated then AskUser
      else (case get_platform_sandbox os of
              Some sandbox_type \<Rightarrow> AutoApprove sandbox_type False
            | None \<Rightarrow> AskUser))"
| "assess_safety_for_untrusted_command os approval DangerFullAccess escalated =
     AutoApprove NoSandbox False"
| "assess_safety_for_untrusted_command os OnRequest sandbox escalated =
     (if escalated then AskUser
      else (case get_platform_sandbox os of
              Some sandbox_type \<Rightarrow> AutoApprove sandbox_type False
            | None \<Rightarrow> AskUser))"
| "assess_safety_for_untrusted_command os approval sandbox escalated =
     (case get_platform_sandbox os of
        Some sandbox_type \<Rightarrow> AutoApprove sandbox_type False
      | None \<Rightarrow>
          (if approval = OnFailure then AskUser
           else RejectCheck (lit ''auto-rejected because command is not on trusted list'')))"

definition assess_command_safety ::
    "shell_lib \<Rightarrow> target_os \<Rightarrow> rstr list \<Rightarrow> ask_for_approval \<Rightarrow> sandbox_policy \<Rightarrow>
       approved_pattern list \<Rightarrow> bool \<Rightarrow> safety_check" where
  "assess_command_safety lib os command approval sandbox approved escalated =
     (if is_known_safe_command lib command \<or> list_ex (\<lambda>p. pattern_matches lib p command) approved
      then AutoApprove NoSandbox (list_ex (\<lambda>p. pattern_matches lib p command) approved)
      else assess_safety_for_untrusted_command os approval sandbox escalated)"

section \<open>Running a command\<close>

datatype review_decision = Approved | ApprovedForSession | Denied | Abort

text \<open>
  The decision when a command is about to run: the reply to the model when it does not run,
  otherwise its sandbox; and the approved patterns afterwards. \<open>decide\<close> is the user's answer, which
  is only asked for in the middle case.
\<close>

definition exec_decision ::
    "shell_lib \<Rightarrow> target_os \<Rightarrow> rstr list \<Rightarrow> ask_for_approval \<Rightarrow> sandbox_policy \<Rightarrow> bool \<Rightarrow>
       review_decision \<Rightarrow> approved_pattern list \<Rightarrow> (rstr + sandbox_type) \<times> approved_pattern list" where
  "exec_decision lib os command approval sandbox escalated decide approved =
     (case assess_command_safety lib os command approval sandbox approved escalated of
        AutoApprove sandbox_type user_explicitly_approved \<Rightarrow> (Inr sandbox_type, approved)
      | AskUser \<Rightarrow>
          (case decide of
             Approved \<Rightarrow> (Inr NoSandbox, approved)
           | ApprovedForSession \<Rightarrow>
               (Inr NoSandbox,
                add_approved_command (approved_pattern_new command MatchExact None) approved)
           | Denied \<Rightarrow> (Inl (lit ''exec command rejected by user''), approved)
           | Abort \<Rightarrow> (Inl (lit ''exec command rejected by user''), approved))
      | RejectCheck reason \<Rightarrow> (Inl (lit ''exec command rejected: '' @ reason), approved))"

definition resolve_internal_sandbox ::
    "target_os \<Rightarrow> ask_for_approval \<Rightarrow> sandbox_policy \<Rightarrow> bool \<Rightarrow> sandbox_type" where
  "resolve_internal_sandbox os approval sandbox escalated =
     (case assess_safety_for_untrusted_command os approval sandbox escalated of
        AutoApprove sandbox_type _ \<Rightarrow> sandbox_type
      | _ \<Rightarrow> (case get_platform_sandbox os of Some t \<Rightarrow> t | None \<Rightarrow> NoSandbox))"

section \<open>Safe scripts\<close>

fun tree_nodes :: "ts_node \<Rightarrow> ts_node list" where
  "tree_nodes (TsNode k n s t cs) = TsNode k n s t cs # concat (map tree_nodes cs)"

lemma tree_nodes_unfold: "tree_nodes node = node # concat (map tree_nodes (ts_children node))"
  by (cases node) simp

lemma collect_commands_allowed:
  "(\<exists>r. collect_commands stack acc = Some r) \<longleftrightarrow> list_all node_allowed (concat (map tree_nodes stack))"
proof (induction stack acc rule: collect_commands.induct)
  case (2 node stack acc)
  have "list_all node_allowed (tree_nodes node) \<longleftrightarrow>
      node_allowed node \<and> list_all node_allowed (concat (map tree_nodes (ts_children node)))"
    by (subst tree_nodes_unfold) simp
  then show ?case
    using 2 by (auto simp: list_all_iff)
qed simp

lemma collect_commands_set:
  "collect_commands stack acc = Some r \<Longrightarrow>
   set r = set acc \<union> set (filter is_command_node (concat (map tree_nodes stack)))"
proof (induction stack acc rule: collect_commands.induct)
  case (2 node stack acc)
  have "set (tree_nodes node) = insert node (set (concat (map tree_nodes (ts_children node))))"
    by (subst tree_nodes_unfold) simp
  then show ?case
    using 2 by (auto split: if_splits)
qed simp

lemma parse_command_nodes_iff:
  "parse_command_nodes nodes = Some cs \<longleftrightarrow> map parse_plain_command_from_node nodes = map Some cs"
proof (induction nodes arbitrary: cs)
  case (Cons n nodes)
  show ?case
    by (cases cs) (auto simp: Option.bind_eq_Some_conv Cons.IH)
qed auto

definition plain_safe_command :: "ts_node \<Rightarrow> bool" where
  "plain_safe_command node \<longleftrightarrow>
     (case parse_plain_command_from_node node of
        Some words \<Rightarrow> is_safe_to_call_with_exec words | None \<Rightarrow> False)"

lemma parsed_commands_safe:
  "(\<exists>cs. parse_command_nodes nodes = Some cs \<and> cs \<noteq> [] \<and> list_all is_safe_to_call_with_exec cs) \<longleftrightarrow>
     nodes \<noteq> [] \<and> list_all plain_safe_command nodes"
proof -
  have "(\<exists>cs. map parse_plain_command_from_node nodes = map Some cs \<and> list_all is_safe_to_call_with_exec cs) \<longleftrightarrow>
      list_all plain_safe_command nodes"
  proof (induction nodes)
    case (Cons n nodes)
    show ?case
      unfolding list.map list.pred_inject Cons.IH [symmetric]
      by (auto simp: plain_safe_command_def Cons_eq_map_conv split: option.split)
  qed simp
  moreover have "cs \<noteq> [] \<longleftrightarrow> nodes \<noteq> []"
    if "map parse_plain_command_from_node nodes = map Some cs" for cs
    using that by auto
  ultimately show ?thesis
    unfolding parse_command_nodes_iff by blast
qed

text \<open> (C26)
  A script is taken to be safe exactly when it parses without an error into a tree whose nodes all
  belong to the word-only language, that has at least one command, and every command of which,
  wherever it stands in the tree, is a list of plain words that is on the list of safe invocations:
  no command of the script escapes the check.
\<close>

theorem safe_script_iff:
  "safe_script lib script \<longleftrightarrow>
     (\<exists>tree. try_parse_bash lib script = Some tree \<and> \<not> root_has_error tree \<and>
        list_all node_allowed (tree_nodes (root_node tree)) \<and>
        list_ex is_command_node (tree_nodes (root_node tree)) \<and>
        list_all plain_safe_command (filter is_command_node (tree_nodes (root_node tree))))"
proof (cases "try_parse_bash lib script")
  case (Some tree)
  let ?nodes = "tree_nodes (root_node tree)"
  show ?thesis
  proof (cases "collect_commands [root_node tree] []")
    case None
    then have "\<not> list_all node_allowed ?nodes"
      using collect_commands_allowed [of "[root_node tree]" "[]"] by simp
    then show ?thesis
      using Some None by (simp add: safe_script_def try_parse_word_only_commands_sequence_def)
  next
    case r: (Some r)
    have nodes: "list_all node_allowed ?nodes" "set r = set (filter is_command_node ?nodes)"
      using collect_commands_allowed [of "[root_node tree]" "[]"] collect_commands_set [OF r] r by auto
    have "safe_script lib script \<longleftrightarrow> \<not> root_has_error tree \<and>
        (\<exists>cs. parse_command_nodes (sort_key ts_start r) = Some cs \<and> cs \<noteq> [] \<and>
           list_all is_safe_to_call_with_exec cs)"
      using Some r
      by (auto simp: safe_script_def try_parse_word_only_commands_sequence_def split: option.splits)
    also have "\<dots> \<longleftrightarrow> \<not> root_has_error tree \<and> r \<noteq> [] \<and> list_all plain_safe_command r"
      unfolding parsed_commands_safe by (simp add: list_all_iff) (metis set_empty set_sort)
    also have "r \<noteq> [] \<longleftrightarrow> list_ex is_command_node ?nodes"
      using nodes(2) by (auto simp: list_ex_iff simp flip: set_empty)
    also have "list_all plain_safe_command r \<longleftrightarrow> list_all plain_safe_command (filter is_command_node ?nodes)"
      using nodes(2) by (simp add: list_all_iff)
    finally show ?thesis
      using Some nodes(1) by simp
  qed
qed (simp add: safe_script_def)

section \<open>What may run without a sandbox\<close>

definition trusted_command :: "shell_lib \<Rightarrow> approved_pattern list \<Rightarrow> rstr list \<Rightarrow> bool" where
  "trusted_command lib approved command \<longleftrightarrow>
     is_known_safe_command lib command \<or> list_ex (\<lambda>p. pattern_matches lib p command) approved"

lemma platform_sandbox_encloses: "get_platform_sandbox os \<noteq> Some NoSandbox"
  by (simp add: get_platform_sandbox_def)

lemma untrusted_unsandboxed_iff:
  "assess_safety_for_untrusted_command os approval sandbox escalated = AutoApprove NoSandbox b \<longleftrightarrow>
     sandbox = DangerFullAccess \<and> approval \<noteq> UnlessTrusted \<and> \<not> b"
  using platform_sandbox_encloses [of os]
  by (cases "(os, approval, sandbox, escalated)" rule: assess_safety_for_untrusted_command.cases)
    (auto split: option.split)

lemma assess_trusted:
  "trusted_command lib approved command \<Longrightarrow>
   assess_command_safety lib os command approval sandbox approved escalated =
     AutoApprove NoSandbox (list_ex (\<lambda>p. pattern_matches lib p command) approved)"
  by (auto simp: assess_command_safety_def trusted_command_def)

lemma assess_untrusted:
  "\<not> trusted_command lib approved command \<Longrightarrow>
   assess_command_safety lib os command approval sandbox approved escalated =
     assess_safety_for_untrusted_command os approval sandbox escalated"
  by (auto simp: assess_command_safety_def trusted_command_def)

text \<open> (C2)
  A command runs outside a sandbox exactly when it is known to be safe or matches a pattern the user
  approved, or full access was granted and the policy is not to ask for everything untrusted, or the
  user is asked about this command and approves it.
\<close>

theorem unsandboxed_exec_justified:
  "fst (exec_decision lib os command approval sandbox escalated decide approved) = Inr NoSandbox \<longleftrightarrow>
     trusted_command lib approved command \<or>
     sandbox = DangerFullAccess \<and> approval \<noteq> UnlessTrusted \<or>
     assess_command_safety lib os command approval sandbox approved escalated = AskUser \<and>
       (decide = Approved \<or> decide = ApprovedForSession)"
proof (cases "trusted_command lib approved command")
  case True
  then show ?thesis
    by (simp add: exec_decision_def assess_trusted)
next
  case False
  have "fst (exec_decision lib os command approval sandbox escalated decide approved) = Inr NoSandbox \<longleftrightarrow>
      (\<exists>b. assess_command_safety lib os command approval sandbox approved escalated = AutoApprove NoSandbox b) \<or>
      assess_command_safety lib os command approval sandbox approved escalated = AskUser \<and>
        (decide = Approved \<or> decide = ApprovedForSession)"
    by (auto simp: exec_decision_def split: safety_check.split review_decision.split)
  then show ?thesis
    using False untrusted_unsandboxed_iff [of os approval sandbox escalated]
    by (auto simp: assess_untrusted)
qed

lemma pattern_matches_exact:
  "pattern_matches lib (approved_pattern_new c MatchExact semantic) d \<longleftrightarrow> d = c"
  by (simp add: pattern_matches_def approved_pattern_new_def)

text \<open> An approval for the session trusts exactly one command. When the user approved a command for the
  session, that command is later approved without asking, and the assessment of every other command
  is what it was before.
\<close>

theorem session_approval_is_exact:
  "assess_command_safety lib os d approval sandbox
     (add_approved_command (approved_pattern_new c MatchExact None) approved) escalated =
   (if d = c then AutoApprove NoSandbox True
    else assess_command_safety lib os d approval sandbox approved escalated)"
proof -
  have "list_ex (\<lambda>p. pattern_matches lib p d)
      (add_approved_command (approved_pattern_new c MatchExact None) approved) \<longleftrightarrow>
      d = c \<or> list_ex (\<lambda>p. pattern_matches lib p d) approved"
    using pattern_matches_exact [of lib c None] by (auto simp: add_approved_command_def list_ex_iff)
  then show ?thesis
    unfolding assess_command_safety_def by (cases "d = c") simp_all
qed

text \<open>Under the policy \<open>never\<close> the user is not asked about a command.\<close>

lemma never_not_asked:
  "assess_command_safety lib os command Never sandbox approved escalated \<noteq> AskUser"
  by (cases sandbox) (auto simp: assess_command_safety_def split: option.split)

end
