(* ===== verification/Patch_Seek.thy ===== *)
theory Patch_Seek
  imports Rust_Prelude
begin

text \<open>
  Locating the lines a patch talks about, \<open>code-rs/apply-patch/src/seek_sequence.rs\<close>: four passes
  over the file with decreasing strictness. Each pass compares line by line after a
  normalisation of both sides; \<open>first_match\<close> is the loop that all passes share.
\<close>

section \<open>Model\<close>

definition normalise_char :: "rchar \<Rightarrow> rchar" where
  "normalise_char c =
     (if c \<in> {8208, 8209, 8210, 8211, 8212, 8213, 8722} then 45
      else if c \<in> {8216, 8217, 8218, 8219} then 39
      else if c \<in> {8220, 8221, 8222, 8223} then 34
      else if c \<in> {160, 8194, 8195, 8196, 8197, 8198, 8199, 8200, 8201, 8202, 8239, 8287, 12288} then 32
      else c)"

definition normalise :: "rstr \<Rightarrow> rstr" where
  "normalise s = map normalise_char (trim s)"

text \<open>Whether the pattern matches at position \<open>i\<close>, both sides seen through \<open>view\<close>.\<close>

definition matches_at :: "(rstr \<Rightarrow> rstr) \<Rightarrow> rstr list \<Rightarrow> rstr list \<Rightarrow> nat \<Rightarrow> bool" where
  "matches_at view ls pattern i \<longleftrightarrow>
     map view (take (length pattern) (drop i ls)) = map view pattern"

definition first_match ::
    "(rstr \<Rightarrow> rstr) \<Rightarrow> rstr list \<Rightarrow> rstr list \<Rightarrow> nat \<Rightarrow> nat option" where
  "first_match view ls pattern search_start =
     find (matches_at view ls pattern) [search_start..<Suc (length ls - length pattern)]"

definition seek_sequence :: "rstr list \<Rightarrow> rstr list \<Rightarrow> nat \<Rightarrow> bool \<Rightarrow> nat option" where
  "seek_sequence ls pattern start eof =
     (if pattern = [] then Some start
      else if length pattern > length ls then None
      else
       (let search_start =
              (if eof \<and> length ls \<ge> length pattern then length ls - length pattern else start)
        in case first_match (\<lambda>s. s) ls pattern search_start of
             Some i \<Rightarrow> Some i
           | None \<Rightarrow>
              (case first_match trim_end ls pattern search_start of
                 Some i \<Rightarrow> Some i
               | None \<Rightarrow>
                  (case first_match trim ls pattern search_start of
                     Some i \<Rightarrow> Some i
                   | None \<Rightarrow> first_match normalise ls pattern search_start))))"

section \<open>Lemmas\<close>

lemma first_match_Some:
  "first_match view ls pattern s = Some i \<longleftrightarrow>
     s \<le> i \<and> i \<le> length ls - length pattern \<and> matches_at view ls pattern i \<and>
     (\<forall>j. s \<le> j \<and> j < i \<longrightarrow> \<not> matches_at view ls pattern j)"
proof
  assume "first_match view ls pattern s = Some i"
  then obtain k where k: "k < length [s..<Suc (length ls - length pattern)]"
      "matches_at view ls pattern ([s..<Suc (length ls - length pattern)] ! k)"
      "i = [s..<Suc (length ls - length pattern)] ! k"
      "\<forall>j<k. \<not> matches_at view ls pattern ([s..<Suc (length ls - length pattern)] ! j)"
    unfolding first_match_def find_Some_iff by blast
  then have i: "i = s + k" "i \<le> length ls - length pattern"
    by (simp_all del: upt_Suc)
  have "\<not> matches_at view ls pattern j" if "s \<le> j" "j < i" for j
  proof -
    from that i k(1) have "j - s < k" "[s..<Suc (length ls - length pattern)] ! (j - s) = j"
      by (simp_all del: upt_Suc)
    with k(4) show ?thesis by metis
  qed
  with i k(2,3) show "s \<le> i \<and> i \<le> length ls - length pattern \<and> matches_at view ls pattern i \<and>
     (\<forall>j. s \<le> j \<and> j < i \<longrightarrow> \<not> matches_at view ls pattern j)" by simp
next
  assume r: "s \<le> i \<and> i \<le> length ls - length pattern \<and> matches_at view ls pattern i \<and>
     (\<forall>j. s \<le> j \<and> j < i \<longrightarrow> \<not> matches_at view ls pattern j)"
  then show "first_match view ls pattern s = Some i"
    unfolding first_match_def find_Some_iff
    by (intro exI [of _ "i - s"]) (auto simp del: upt_Suc)
qed

lemma first_match_None:
  "first_match view ls pattern s = None \<longleftrightarrow>
     (\<forall>i. s \<le> i \<and> i \<le> length ls - length pattern \<longrightarrow> \<not> matches_at view ls pattern i)"
  by (auto simp: first_match_def find_None_iff)

text \<open>A stricter view only separates more lines.\<close>

definition coarser :: "(rstr \<Rightarrow> rstr) \<Rightarrow> (rstr \<Rightarrow> rstr) \<Rightarrow> bool" where
  "coarser f g \<longleftrightarrow> (\<forall>s t. f s = f t \<longrightarrow> g s = g t)"

lemma map_coarser: "map f xs = map f ys \<Longrightarrow> coarser f g \<Longrightarrow> map g xs = map g ys"
proof (induction xs arbitrary: ys)
  case (Cons x xs)
  then obtain y ys' where "ys = y # ys'" "f x = f y" "map f xs = map f ys'"
    by (cases ys) auto
  moreover have "g x = g y"
    using Cons.prems(2) \<open>f x = f y\<close> unfolding coarser_def by blast
  ultimately show ?case using Cons.IH [of ys'] Cons.prems(2) by simp
qed simp

lemma matches_coarser: "matches_at f ls pattern i \<Longrightarrow> coarser f g \<Longrightarrow> matches_at g ls pattern i"
  unfolding matches_at_def by (rule map_coarser)

lemma trim_via_trim_end: "trim s = trim_end (trim_start s)"
  by (simp add: trim_def trim_matches_def trim_end_def trim_start_def)

lemma trim_trim_end: "trim (trim_end s) = trim s"
proof -
  obtain b where b: "s = trim_end s @ b" "list_all is_whitespace b"
    using trim_end_split by blast
  have "trim (t @ b) = trim t" if "list_all is_whitespace b" for t b :: rstr
  proof (cases "list_all is_whitespace t")
    case True
    with that have "trim (t @ b) = []" "trim t = []"
      by (simp_all add: trim_eq_Nil_iff)
    then show ?thesis by simp
  next
    case False
    have "dropWhile is_whitespace (t @ b) = dropWhile is_whitespace t @ b"
      using False by (auto simp: list_all_iff intro: dropWhile_append1)
    moreover have "dropWhile is_whitespace (rev b @ u) = dropWhile is_whitespace u" for u
      using that by (intro dropWhile_append2) (simp add: list_all_iff)
    ultimately show ?thesis
      by (simp add: trim_def trim_matches_def trim_end_matches_def trim_start_matches_def)
  qed
  with b show ?thesis by metis
qed

lemma coarser_trim_end: "coarser trim_end trim"
  unfolding coarser_def
proof (intro allI impI)
  fix s t :: rstr
  assume "trim_end s = trim_end t"
  then have "trim (trim_end s) = trim (trim_end t)" by (rule arg_cong)
  then show "trim s = trim t" by (simp only: trim_trim_end)
qed

lemma coarser_comp: "coarser f (\<lambda>s. h (f s))"
  unfolding coarser_def by (intro allI impI) (erule arg_cong)

lemma coarser_views: "coarser (\<lambda>s. s) trim_end" "coarser trim normalise"
  using coarser_comp [of "\<lambda>s. s" trim_end] coarser_comp [of trim "map normalise_char"]
  by (simp_all only: normalise_def [abs_def])

lemma coarser_trans: "coarser f g \<Longrightarrow> coarser g h \<Longrightarrow> coarser f h"
  unfolding coarser_def by blast

lemma coarser_normalise:
  "coarser (\<lambda>s. s) normalise" "coarser trim_end normalise" "coarser trim normalise"
  using coarser_views coarser_trim_end coarser_trans by metis+

lemma matches_id: "matches_at (\<lambda>s. s) ls pattern i \<longleftrightarrow> take (length pattern) (drop i ls) = pattern"
  by (simp add: matches_at_def)

lemma matches_bound: "matches_at view ls pattern i \<Longrightarrow> pattern \<noteq> [] \<Longrightarrow> i + length pattern \<le> length ls"
  unfolding matches_at_def by (drule map_eq_imp_length_eq) (cases pattern, auto)

definition search_start :: "rstr list \<Rightarrow> rstr list \<Rightarrow> nat \<Rightarrow> bool \<Rightarrow> nat" where
  "search_start ls pattern start eof = (if eof then length ls - length pattern else start)"

lemma seek_sequence_passes:
  assumes "pattern \<noteq> []" and "length pattern \<le> length ls"
  shows "seek_sequence ls pattern start eof =
    (case List.map_filter (\<lambda>view. first_match view ls pattern (search_start ls pattern start eof))
        [\<lambda>s. s, trim_end, trim, normalise] of
       [] \<Rightarrow> None | i # _ \<Rightarrow> Some i)"
  using assms by (simp add: seek_sequence_def search_start_def Let_def split: option.split)

lemma seek_sequence_bound:
  assumes "seek_sequence ls pattern start eof = Some i" and "start \<le> length ls"
  shows "i + length pattern \<le> length ls \<and> (eof \<or> start \<le> i)"
proof (cases "pattern = []")
  case True
  with assms show ?thesis by (simp add: seek_sequence_def)
next
  case False
  with assms have len: "length pattern \<le> length ls"
    by (auto simp: seek_sequence_def split: if_splits)
  obtain view where "first_match view ls pattern (search_start ls pattern start eof) = Some i"
    using assms(1) unfolding seek_sequence_passes [OF False len]
    by (auto split: list.splits option.splits)
  then show ?thesis
    using False matches_bound by (auto simp: first_match_Some search_start_def split: if_splits)
qed

lemma seek_sequence_matches:
  assumes "seek_sequence ls pattern start eof = Some i" and "pattern \<noteq> []"
  shows "matches_at normalise ls pattern i"
proof -
  have len: "length pattern \<le> length ls"
    using assms by (auto simp: seek_sequence_def split: if_splits)
  have "coarser normalise normalise" by (simp add: coarser_def)
  then show ?thesis
    using assms(1) coarser_normalise matches_coarser unfolding seek_sequence_passes [OF assms(2) len]
    by (auto simp: first_match_Some split: list.splits option.splits)
qed

section \<open>Properties\<close>

text \<open>
  What \<open>seek_sequence\<close> finds. For a pattern with at least one line it fails exactly when no
  position from the start of the search on matches even after trimming and replacing typographic
  punctuation. A position it returns lies within the file, matches in that sense, and when any
  position matches literally, it is the first such one. For the end of the file the only position
  tried is the last one that fits, and the start is ignored.
\<close>

theorem seek_sequence_spec:
  fixes ls pattern :: "rstr list"
  assumes "pattern \<noteq> []" and "s = (if eof then length ls - length pattern else start)"
  shows "(seek_sequence ls pattern start eof = None \<longleftrightarrow>
        \<not> (\<exists>i. s \<le> i \<and> i + length pattern \<le> length ls \<and> matches_at normalise ls pattern i)) \<and>
    (\<forall>i. seek_sequence ls pattern start eof = Some i \<longrightarrow>
        s \<le> i \<and> i + length pattern \<le> length ls \<and> matches_at normalise ls pattern i \<and>
        (\<forall>j. s \<le> j \<and> take (length pattern) (drop j ls) = pattern \<longrightarrow>
           i \<le> j \<and> take (length pattern) (drop i ls) = pattern))"
proof (cases "length pattern \<le> length ls")
  case False
  then show ?thesis
    using assms(1) by (auto simp: seek_sequence_def)
next
  case True
  let ?m = "\<lambda>view. first_match view ls pattern s"
  have seek: "seek_sequence ls pattern start eof =
      (case List.map_filter ?m [\<lambda>s. s, trim_end, trim, normalise] of [] \<Rightarrow> None | i # _ \<Rightarrow> Some i)"
    using seek_sequence_passes [OF assms(1) True, of start eof] by (simp add: search_start_def assms(2))
  have some: "s \<le> i" "i + length pattern \<le> length ls" "matches_at normalise ls pattern i"
    if "?m view = Some i" "coarser view normalise" for view i
    using that True by (auto simp: first_match_Some intro: matches_coarser)
  have norm: "coarser normalise normalise" by (simp add: coarser_def)
  note views = coarser_normalise norm
  have none: "seek_sequence ls pattern start eof = None \<Longrightarrow> ?m normalise = None"
    unfolding seek by (auto split: list.splits option.splits)
  have bound: "i \<le> length ls - length pattern \<longleftrightarrow> i + length pattern \<le> length ls" for i
    using True by auto
  have found: "s \<le> i \<and> i + length pattern \<le> length ls \<and> matches_at normalise ls pattern i"
    if "seek_sequence ls pattern start eof = Some i" for i
    using that some views unfolding seek by (auto split: list.splits option.splits)
  have exact: "i \<le> j \<and> take (length pattern) (drop i ls) = pattern"
    if r: "seek_sequence ls pattern start eof = Some i"
      and j: "s \<le> j" "take (length pattern) (drop j ls) = pattern" for i j
  proof -
    have mj: "matches_at (\<lambda>s. s) ls pattern j" using j by (simp add: matches_id)
    then have "j + length pattern \<le> length ls" using assms(1) by (rule matches_bound)
    then have "?m (\<lambda>s. s) \<noteq> None"
      using mj j(1) by (auto simp: first_match_None bound)
    then have "?m (\<lambda>s. s) = Some i"
      using r unfolding seek by auto
    then show ?thesis
      using mj j(1) by (auto simp: first_match_Some matches_id not_le)
  qed
  have "seek_sequence ls pattern start eof = None \<longleftrightarrow>
      \<not> (\<exists>i. s \<le> i \<and> i + length pattern \<le> length ls \<and> matches_at normalise ls pattern i)"
    using none found unfolding first_match_None bound by (metis option.exhaust)
  with found exact show ?thesis by blast
qed

theorem seek_sequence_spec_witness:
  "seek_sequence [lit ''a'', lit ''b '', lit ''c''] [lit ''b''] 0 False = Some 1 \<and>
   seek_sequence [lit ''a'', lit ''b''] [lit ''a''] 0 True = None"
proof -
  have "\<not> (\<exists>i. (if True then length [lit ''a'', lit ''b''] - length [lit ''a''] else 0) \<le> i \<and>
      i + length [lit ''a''] \<le> length [lit ''a'', lit ''b''] \<and>
      matches_at normalise [lit ''a'', lit ''b''] [lit ''a''] i)"
  proof (intro notI, elim exE conjE)
    fix i assume b: "(if True then length [lit ''a'', lit ''b''] - length [lit ''a''] else 0) \<le> i"
      "i + length [lit ''a''] \<le> length [lit ''a'', lit ''b'']"
      and m: "matches_at normalise [lit ''a'', lit ''b''] [lit ''a''] i"
    from b have "i = 1" by simp
    with m show False
      by (simp add: matches_at_def normalise_def normalise_char_def str_eval)
  qed
  then have "seek_sequence [lit ''a'', lit ''b''] [lit ''a''] 0 True = None"
    using seek_sequence_spec [of "[lit ''a'']" 1 True "[lit ''a'', lit ''b'']" 0] by simp
  moreover have "seek_sequence [lit ''a'', lit ''b '', lit ''c''] [lit ''b''] 0 False = Some 1"
    by (simp add: seek_sequence_def first_match_def matches_at_def upt_rec str_eval)
  ultimately show ?thesis by simp
qed

end
