(* ===== verification/Patch_Parser.thy ===== *)
theory Patch_Parser
  imports Rust_Prelude
begin

text \<open>
  The parser of the patch format, \<open>code-rs/apply-patch/src/parser.rs\<close>. A patch is read line by
  line; every loop of the source is a recursive function over the remaining lines, and errors
  carry the message and line number the source reports. The inverse \<open>render_patch\<close> writes hunks
  in the documented grammar.
\<close>

section \<open>Data\<close>

datatype parse_error =
    InvalidPatchError rstr
  | InvalidHunkError rstr nat

record update_file_chunk =
  change_context :: "rstr option"
  old_lines :: "rstr list"
  new_lines :: "rstr list"
  is_end_of_file :: bool

datatype hunk =
    AddFile rstr rstr
  | DeleteFile rstr
  | UpdateFile rstr "rstr option" "update_file_chunk list"

datatype parse_mode = Strict | Lenient

record apply_patch_args =
  arg_patch :: rstr
  arg_hunks :: "hunk list"
  arg_workdir :: "rstr option"

definition BEGIN_PATCH_MARKER :: rstr where
  "BEGIN_PATCH_MARKER = lit ''*** Begin Patch''"

definition END_PATCH_MARKER :: rstr where
  "END_PATCH_MARKER = lit ''*** End Patch''"

definition ADD_FILE_MARKER :: rstr where
  "ADD_FILE_MARKER = lit ''*** Add File: ''"

definition DELETE_FILE_MARKER :: rstr where
  "DELETE_FILE_MARKER = lit ''*** Delete File: ''"

definition UPDATE_FILE_MARKER :: rstr where
  "UPDATE_FILE_MARKER = lit ''*** Update File: ''"

definition MOVE_TO_MARKER :: rstr where
  "MOVE_TO_MARKER = lit ''*** Move to: ''"

definition EOF_MARKER :: rstr where
  "EOF_MARKER = lit ''*** End of File''"

definition CHANGE_CONTEXT_MARKER :: rstr where
  "CHANGE_CONTEXT_MARKER = lit ''@@ ''"

definition EMPTY_CHANGE_CONTEXT_MARKER :: rstr where
  "EMPTY_CHANGE_CONTEXT_MARKER = lit ''@@''"

lemmas markers = BEGIN_PATCH_MARKER_def END_PATCH_MARKER_def ADD_FILE_MARKER_def
  DELETE_FILE_MARKER_def UPDATE_FILE_MARKER_def MOVE_TO_MARKER_def EOF_MARKER_def
  CHANGE_CONTEXT_MARKER_def EMPTY_CHANGE_CONTEXT_MARKER_def

definition PARSE_IN_STRICT_MODE :: bool where
  "PARSE_IN_STRICT_MODE = False"

section \<open>Chunks\<close>

definition no_lines_message :: rstr where
  "no_lines_message = lit ''Update hunk does not contain any lines''"

text \<open>The loop over the lines of a chunk; \<open>parsed\<close> counts the lines it has taken.\<close>

fun chunk_lines_loop ::
    "nat \<Rightarrow> rstr list \<Rightarrow> nat \<Rightarrow> update_file_chunk \<Rightarrow> parse_error + update_file_chunk \<times> nat" where
  "chunk_lines_loop line_number [] parsed chunk = Inr (chunk, parsed)"
| "chunk_lines_loop line_number (line # rest) parsed chunk =
     (if line = EOF_MARKER
      then (if parsed = 0 then Inl (InvalidHunkError no_lines_message (line_number + 1))
            else Inr (chunk\<lparr>is_end_of_file := True\<rparr>, parsed + 1))
      else (case line of
          [] \<Rightarrow> chunk_lines_loop line_number rest (parsed + 1)
                 (chunk\<lparr>old_lines := old_lines chunk @ [[]], new_lines := new_lines chunk @ [[]]\<rparr>)
        | c # cs \<Rightarrow>
            if c = 32 then chunk_lines_loop line_number rest (parsed + 1)
                 (chunk\<lparr>old_lines := old_lines chunk @ [cs], new_lines := new_lines chunk @ [cs]\<rparr>)
            else if c = 43 then chunk_lines_loop line_number rest (parsed + 1)
                 (chunk\<lparr>new_lines := new_lines chunk @ [cs]\<rparr>)
            else if c = 45 then chunk_lines_loop line_number rest (parsed + 1)
                 (chunk\<lparr>old_lines := old_lines chunk @ [cs]\<rparr>)
            else if parsed = 0
            then Inl (InvalidHunkError
                 (lit ''Unexpected line found in update hunk: '' @ [39] @ line @ [39] @
                  lit ''. Every line should start with '' @ [39, 32, 39] @
                  lit '' (context line), '' @ [39, 43, 39] @ lit '' (added line), or '' @
                  [39, 45, 39] @ lit '' (removed line)'') (line_number + 1))
            else Inr (chunk, parsed)))"

definition parse_change_context :: "rstr \<Rightarrow> nat \<Rightarrow> bool \<Rightarrow> parse_error + rstr option \<times> nat" where
  "parse_change_context line line_number allow_missing_context =
     (if line = EMPTY_CHANGE_CONTEXT_MARKER then Inr (None, 1)
      else (case strip_prefix line CHANGE_CONTEXT_MARKER of
          Some context \<Rightarrow> Inr (Some context, 1)
        | None \<Rightarrow>
            if \<not> allow_missing_context
            then Inl (InvalidHunkError
              (lit ''Expected update hunk to start with a @@ context marker, got: '' @
               [39] @ line @ [39]) line_number)
            else Inr (None, 0)))"

definition parse_update_file_chunk ::
    "rstr list \<Rightarrow> nat \<Rightarrow> bool \<Rightarrow> parse_error + update_file_chunk \<times> nat" where
  "parse_update_file_chunk ls line_number allow_missing_context =
     (if ls = [] then Inl (InvalidHunkError no_lines_message line_number)
      else and_then (parse_change_context (hd ls) line_number allow_missing_context)
        (\<lambda>(context, start_index).
           if start_index \<ge> length ls
           then Inl (InvalidHunkError no_lines_message (line_number + 1))
           else and_then
             (chunk_lines_loop line_number (drop start_index ls) 0
               \<lparr>change_context = context, old_lines = [], new_lines = [], is_end_of_file = False\<rparr>)
             (\<lambda>(chunk, parsed). Inr (chunk, parsed + start_index))))"

text \<open>A chunk that is accepted has taken at least one line and no more than there are.\<close>

lemma chunk_lines_loop_bounds:
  "chunk_lines_loop n ls parsed chunk = Inr (chunk', parsed') \<Longrightarrow>
     parsed \<le> parsed' \<and> parsed' \<le> parsed + length ls \<and> (ls \<noteq> [] \<longrightarrow> 0 < parsed')"
  by (induction n ls parsed chunk arbitrary: chunk' parsed' rule: chunk_lines_loop.induct)
    (fastforce split: if_splits list.splits)+

lemma parse_update_file_chunk_bounds:
  assumes "parse_update_file_chunk ls n b = Inr (chunk, k)"
  shows "0 < k \<and> k \<le> length ls"
proof -
  obtain start parsed c0 where "start < length ls"
      "chunk_lines_loop n (drop start ls) 0 c0 = Inr (chunk, parsed)" "k = parsed + start"
    using assms unfolding parse_update_file_chunk_def
    by (fastforce split: if_splits simp: not_le)
  then show ?thesis
    using chunk_lines_loop_bounds [of n "drop start ls" 0 c0 chunk parsed] by auto
qed

section \<open>Hunks\<close>

fun add_file_loop :: "rstr list \<Rightarrow> rstr \<Rightarrow> nat \<Rightarrow> rstr \<times> nat" where
  "add_file_loop [] contents parsed = (contents, parsed)"
| "add_file_loop (line # rest) contents parsed =
     (case strip_prefix line [43] of
        Some line_to_add \<Rightarrow> add_file_loop rest (contents @ line_to_add @ [10]) (parsed + 1)
      | None \<Rightarrow> (contents, parsed))"

function update_chunks_loop ::
    "nat \<Rightarrow> rstr list \<Rightarrow> nat \<Rightarrow> update_file_chunk list \<Rightarrow>
       parse_error + update_file_chunk list \<times> nat" where
  "update_chunks_loop line_number remaining parsed chunks =
     (case remaining of
        [] \<Rightarrow> Inr (chunks, parsed)
      | line # rest \<Rightarrow>
          if trim line = [] then update_chunks_loop line_number rest (parsed + 1) chunks
          else if starts_with line (lit ''***'') then Inr (chunks, parsed)
          else (case parse_update_file_chunk remaining (line_number + parsed) (chunks = []) of
              Inl e \<Rightarrow> Inl e
            | Inr (chunk, k) \<Rightarrow>
                update_chunks_loop line_number (drop k remaining) (parsed + k) (chunks @ [chunk])))"
  by pat_completeness auto
termination
proof (relation "measure (\<lambda>(_, remaining, _, _). length remaining)", goal_cases)
  case (3 line_number remaining parsed chunks line rest r chunk k)
  then show ?case
    using parse_update_file_chunk_bounds [of remaining "line_number + parsed" "chunks = []" chunk k]
    by auto
qed auto

declare update_chunks_loop.simps [simp del]

definition parse_move_path :: "rstr list \<Rightarrow> rstr option" where
  "parse_move_path remaining = (case remaining of [] \<Rightarrow> None | x # _ \<Rightarrow> strip_prefix x MOVE_TO_MARKER)"

definition parse_update_hunk :: "rstr \<Rightarrow> rstr list \<Rightarrow> nat \<Rightarrow> parse_error + hunk \<times> nat" where
  "parse_update_hunk path ls line_number =
     (let move_path = parse_move_path (tl ls);
          skip = (if move_path = None then 1 else 2)
      in and_then (update_chunks_loop line_number (drop skip ls) skip [])
        (\<lambda>(chunks, parsed).
           if chunks = []
           then Inl (InvalidHunkError
             (lit ''Update file hunk for path '' @ [39] @ path @ [39] @ lit '' is empty'') line_number)
           else Inr (UpdateFile path move_path chunks, parsed)))"

definition parse_one_hunk :: "rstr list \<Rightarrow> nat \<Rightarrow> parse_error + hunk \<times> nat" where
  "parse_one_hunk ls line_number =
     (let first_line = trim (hd ls)
      in case strip_prefix first_line ADD_FILE_MARKER of
           Some path \<Rightarrow>
             (let (contents, parsed) = add_file_loop (tl ls) [] 1
              in Inr (AddFile path contents, parsed))
         | None \<Rightarrow>
       (case strip_prefix first_line DELETE_FILE_MARKER of
           Some path \<Rightarrow> Inr (DeleteFile path, 1)
         | None \<Rightarrow>
       (case strip_prefix first_line UPDATE_FILE_MARKER of
           Some path \<Rightarrow> parse_update_hunk path ls line_number
         | None \<Rightarrow>
            Inl (InvalidHunkError
              ([39] @ first_line @ [39] @ lit '' is not a valid hunk header. Valid hunk headers: '' @
               [39] @ lit ''*** Add File: {path}'' @ [39] @ lit '', '' @
               [39] @ lit ''*** Delete File: {path}'' @ [39] @ lit '', '' @
               [39] @ lit ''*** Update File: {path}'' @ [39]) line_number))))"

lemma add_file_loop_bounds:
  "add_file_loop ls contents parsed = (contents', parsed') \<Longrightarrow>
     parsed \<le> parsed' \<and> parsed' \<le> parsed + length ls"
  by (induction ls contents parsed arbitrary: contents' parsed' rule: add_file_loop.induct)
    (fastforce split: option.splits)+

lemma update_chunks_loop_bounds:
  "update_chunks_loop n remaining parsed chunks = Inr (chunks', parsed') \<Longrightarrow>
     parsed \<le> parsed' \<and> parsed' \<le> parsed + length remaining"
proof (induction n remaining parsed chunks arbitrary: chunks' parsed'
    rule: update_chunks_loop.induct)
  case (1 n remaining parsed chunks)
  show ?case
  proof (cases remaining)
    case Nil
    with "1.prems" show ?thesis by (simp add: update_chunks_loop.simps)
  next
    case (Cons line rest)
    show ?thesis
    proof (cases "trim line = [] \<or> starts_with line (lit ''***'')")
      case True
      with "1.prems" "1.IH"(1) [OF Cons] Cons show ?thesis
        by (subst (asm) update_chunks_loop.simps) (fastforce split: if_splits)
    next
      case False
      then obtain chunk k where p: "parse_update_file_chunk remaining (n + parsed) (chunks = []) =
          Inr (chunk, k)"
          and rec: "update_chunks_loop n (drop k remaining) (parsed + k) (chunks @ [chunk]) =
            Inr (chunks', parsed')"
        using "1.prems" Cons
        by (subst (asm) update_chunks_loop.simps) (auto split: sum.splits)
      have "parsed + k \<le> parsed' \<and> parsed' \<le> parsed + k + length (drop k remaining)"
        using "1.IH"(2) [OF Cons _ _ p refl rec] False by auto
      then show ?thesis
        using parse_update_file_chunk_bounds [OF p] by auto
    qed
  qed
qed

lemma parse_update_hunk_bounds:
  assumes "parse_update_hunk path ls n = Inr (h, k)" and "ls \<noteq> []"
  shows "0 < k \<and> k \<le> length ls"
proof -
  let ?skip = "if parse_move_path (tl ls) = None then 1 else 2"
  obtain chunks where "update_chunks_loop n (drop ?skip ls) ?skip [] = Inr (chunks, k)"
    using assms(1) by (auto simp: parse_update_hunk_def Let_def split: if_split_asm)
  moreover have "?skip \<le> length ls"
    using assms(2) by (cases ls; cases "tl ls") (auto simp: parse_move_path_def)
  ultimately show ?thesis
    using update_chunks_loop_bounds [of n "drop ?skip ls" ?skip "[]" chunks k]
    by (auto split: if_splits)
qed

lemma parse_one_hunk_bounds:
  assumes "parse_one_hunk ls n = Inr (h, k)" and "ls \<noteq> []"
  shows "0 < k \<and> k \<le> length ls"
proof -
  consider (add) contents where "add_file_loop (tl ls) [] 1 = (contents, k)"
    | (delete) "k = 1"
    | (update) path where "parse_update_hunk path ls n = Inr (h, k)"
    using assms(1) unfolding parse_one_hunk_def Let_def
    by (auto split: option.splits prod.splits simp del: strip_prefix_Some)
  then show ?thesis
  proof cases
    case add
    then show ?thesis
      using add_file_loop_bounds [OF add] assms(2) by (cases ls) simp_all
  next
    case delete
    then show ?thesis using assms(2) by (cases ls) simp_all
  next
    case update
    then show ?thesis using assms(2) by (rule parse_update_hunk_bounds)
  qed
qed

function parse_hunks_loop :: "nat \<Rightarrow> rstr list \<Rightarrow> parse_error + hunk list" where
  "parse_hunks_loop line_number remaining =
     (if remaining = [] then Inr []
      else (case parse_one_hunk remaining line_number of
          Inl e \<Rightarrow> Inl e
        | Inr (h, k) \<Rightarrow>
            and_then (parse_hunks_loop (line_number + k) (drop k remaining)) (\<lambda>hs. Inr (h # hs))))"
  by pat_completeness auto
termination
proof (relation "measure (\<lambda>(_, remaining). length remaining)", goal_cases)
  case (2 line_number remaining r h k)
  then show ?case using parse_one_hunk_bounds [of remaining line_number h k] by auto
qed auto

declare parse_hunks_loop.simps [simp del]

section \<open>Patches\<close>

definition check_start_and_end_lines_strict ::
    "rstr option \<Rightarrow> rstr option \<Rightarrow> parse_error + unit" where
  "check_start_and_end_lines_strict first last_line =
     (if first = Some BEGIN_PATCH_MARKER \<and> last_line = Some END_PATCH_MARKER then Inr ()
      else if first \<noteq> None \<and> first \<noteq> Some BEGIN_PATCH_MARKER
      then Inl (InvalidPatchError (lit ''The first line of the patch must be '' @ [39] @
             lit ''*** Begin Patch'' @ [39]))
      else Inl (InvalidPatchError (lit ''The last line of the patch must be '' @ [39] @
             lit ''*** End Patch'' @ [39])))"

definition check_patch_boundaries_strict :: "rstr list \<Rightarrow> parse_error + unit" where
  "check_patch_boundaries_strict ls =
     (case ls of
        [] \<Rightarrow> check_start_and_end_lines_strict None None
      | first # _ \<Rightarrow> check_start_and_end_lines_strict (Some first) (Some (last ls)))"

definition heredoc_starts :: "rstr list" where
  "heredoc_starts = [lit ''<<EOF'', lit ''<<'' @ [39] @ lit ''EOF'' @ [39], lit ''<<'' @ [34] @ lit ''EOF'' @ [34]]"

definition check_patch_boundaries_lenient ::
    "rstr list \<Rightarrow> parse_error \<Rightarrow> parse_error + rstr list" where
  "check_patch_boundaries_lenient original_lines original_parse_error =
     (if length original_lines \<ge> 2
      then (if hd original_lines \<in> set heredoc_starts \<and>
               ends_with (last original_lines) (lit ''EOF'') \<and> length original_lines \<ge> 4
            then (let inner_lines = butlast (tl original_lines)
                  in and_then (check_patch_boundaries_strict inner_lines) (\<lambda>_. Inr inner_lines))
            else Inl original_parse_error)
      else Inl original_parse_error)"

definition parse_patch_text :: "rstr \<Rightarrow> parse_mode \<Rightarrow> parse_error + apply_patch_args" where
  "parse_patch_text patch mode =
     (let ls = str_lines (trim patch)
      in and_then
          (case check_patch_boundaries_strict ls of
             Inr _ \<Rightarrow> Inr ls
           | Inl e \<Rightarrow>
              (case mode of Strict \<Rightarrow> Inl e | Lenient \<Rightarrow> check_patch_boundaries_lenient ls e))
          (\<lambda>ls. and_then (parse_hunks_loop 2 (butlast (tl ls)))
             (\<lambda>hunks. Inr \<lparr>arg_patch = join [10] ls, arg_hunks = hunks, arg_workdir = None\<rparr>)))"

definition parse_patch :: "rstr \<Rightarrow> parse_error + apply_patch_args" where
  "parse_patch patch = parse_patch_text patch (if PARSE_IN_STRICT_MODE then Strict else Lenient)"

section \<open>Writing patches\<close>

definition render_chunk :: "update_file_chunk \<Rightarrow> rstr list" where
  "render_chunk c =
     (case change_context c of
        None \<Rightarrow> EMPTY_CHANGE_CONTEXT_MARKER
      | Some ctx \<Rightarrow> CHANGE_CONTEXT_MARKER @ ctx) #
     map ((#) 45) (old_lines c) @ map ((#) 43) (new_lines c) @
     (if is_end_of_file c then [EOF_MARKER] else [])"

fun render_hunk :: "hunk \<Rightarrow> rstr list" where
  "render_hunk (AddFile path contents) =
     (ADD_FILE_MARKER @ path) # map ((#) 43) (butlast (split_on 10 contents))"
| "render_hunk (DeleteFile path) = [DELETE_FILE_MARKER @ path]"
| "render_hunk (UpdateFile path move_path chunks) =
     (UPDATE_FILE_MARKER @ path) #
     (case move_path of None \<Rightarrow> [] | Some dest \<Rightarrow> [MOVE_TO_MARKER @ dest]) @
     concat (map render_chunk chunks)"

definition render_lines :: "hunk list \<Rightarrow> rstr list" where
  "render_lines hs = BEGIN_PATCH_MARKER # concat (map render_hunk hs) @ [END_PATCH_MARKER]"

definition render_patch :: "hunk list \<Rightarrow> rstr" where
  "render_patch hs = join [10] (render_lines hs)"

text \<open>
  What can be written: lines without a line feed and without a carriage return at their end,
  paths that do not end with white space, chunks with at least one line.
\<close>

definition line_ok :: "rstr \<Rightarrow> bool" where
  "line_ok s \<longleftrightarrow> 10 \<notin> set s \<and> (s = [] \<or> last s \<noteq> 13)"

definition path_ok :: "rstr \<Rightarrow> bool" where
  "path_ok p \<longleftrightarrow> p \<noteq> [] \<and> 10 \<notin> set p \<and> \<not> is_whitespace (last p)"

definition chunk_ok :: "update_file_chunk \<Rightarrow> bool" where
  "chunk_ok c \<longleftrightarrow>
     old_lines c @ new_lines c \<noteq> [] \<and> list_all line_ok (old_lines c @ new_lines c) \<and>
     (case change_context c of None \<Rightarrow> True | Some ctx \<Rightarrow> line_ok ctx)"

fun hunk_ok :: "hunk \<Rightarrow> bool" where
  "hunk_ok (AddFile path contents) \<longleftrightarrow>
     path_ok path \<and> (contents = [] \<or> last contents = 10) \<and>
     list_all line_ok (split_on 10 contents)"
| "hunk_ok (DeleteFile path) \<longleftrightarrow> path_ok path"
| "hunk_ok (UpdateFile path move_path chunks) \<longleftrightarrow>
     path_ok path \<and> (case move_path of None \<Rightarrow> True | Some dest \<Rightarrow> line_ok dest) \<and>
     chunks \<noteq> [] \<and> list_all chunk_ok chunks"

section \<open>Reading back a chunk\<close>

text \<open>A line that ends a chunk: what the renderer writes after it.\<close>

definition stops :: "rstr list \<Rightarrow> bool" where
  "stops rest \<longleftrightarrow> rest = [] \<or> (hd rest \<noteq> [] \<and> hd (hd rest) \<notin> {32, 43, 45} \<and> hd rest \<noteq> EOF_MARKER)"

lemma EOF_MARKER_Cons: "EOF_MARKER = 42 # tl EOF_MARKER"
  by (simp add: EOF_MARKER_def lit_def)

lemma diff_line_not_eof [simp]: "45 # l \<noteq> EOF_MARKER" "43 # l \<noteq> EOF_MARKER"
  by (simp_all add: EOF_MARKER_def lit_def)

lemma chunk_loop_old:
  "chunk_lines_loop n (map ((#) 45) ls @ rest) parsed c =
     chunk_lines_loop n rest (parsed + length ls) (c\<lparr>old_lines := old_lines c @ ls\<rparr>)"
  by (induction ls arbitrary: parsed c) simp_all

lemma chunk_loop_new:
  "chunk_lines_loop n (map ((#) 43) ls @ rest) parsed c =
     chunk_lines_loop n rest (parsed + length ls) (c\<lparr>new_lines := new_lines c @ ls\<rparr>)"
  by (induction ls arbitrary: parsed c) simp_all

lemma chunk_loop_stops:
  assumes "stops rest" and "0 < parsed"
  shows "chunk_lines_loop n rest parsed c = Inr (c, parsed)"
proof (cases rest)
  case Nil
  then show ?thesis by simp
next
  case (Cons line rest')
  then obtain x xs where "line = x # xs" "x \<noteq> 32" "x \<noteq> 43" "x \<noteq> 45" "line \<noteq> EOF_MARKER"
    using assms(1) by (cases line) (auto simp: stops_def)
  with assms(2) Cons show ?thesis by simp
qed

lemma change_context_render:
  "parse_change_context (hd (render_chunk c)) n b = Inr (change_context c, 1)"
  by (cases "change_context c")
    (simp_all add: render_chunk_def parse_change_context_def CHANGE_CONTEXT_MARKER_def
      EMPTY_CHANGE_CONTEXT_MARKER_def lit_def)

lemma parse_render_chunk:
  assumes "chunk_ok c" and "is_end_of_file c \<or> stops rest"
  shows "parse_update_file_chunk (render_chunk c @ rest) n b = Inr (c, length (render_chunk c))"
proof -
  let ?c0 = "\<lparr>change_context = change_context c, old_lines = [], new_lines = [],
    is_end_of_file = False\<rparr>"
  let ?tail = "(if is_end_of_file c then [EOF_MARKER] else []) @ rest"
  let ?m = "length (old_lines c) + length (new_lines c)"
  have m: "0 < ?m"
    using assms(1) by (auto simp: chunk_ok_def)
  have tl: "drop 1 (render_chunk c @ rest) =
      map ((#) 45) (old_lines c) @ map ((#) 43) (new_lines c) @ ?tail"
    by (simp add: render_chunk_def)
  have loop: "chunk_lines_loop n (drop 1 (render_chunk c @ rest)) 0 ?c0 =
      Inr (c, ?m + (if is_end_of_file c then 1 else 0))"
    unfolding tl chunk_loop_old chunk_loop_new
    using m assms(2) by (auto simp: chunk_loop_stops)
  have "hd (render_chunk c @ rest) = hd (render_chunk c)" "render_chunk c @ rest \<noteq> []"
      "1 < length (render_chunk c @ rest)"
    using m by (auto simp: render_chunk_def)
  moreover have "length (render_chunk c) = ?m + (if is_end_of_file c then 1 else 0) + 1"
    by (simp add: render_chunk_def)
  ultimately show ?thesis
    using loop change_context_render [of c n b]
    by (simp add: parse_update_file_chunk_def del: drop_append)
qed

section \<open>Reading back hunks\<close>

text \<open>What follows a hunk: another header or the end marker's place.\<close>

definition header_or_end :: "rstr list \<Rightarrow> bool" where
  "header_or_end rest \<longleftrightarrow> rest = [] \<or>
     (\<exists>marker path. hd rest = marker @ path \<and>
        marker \<in> {ADD_FILE_MARKER, DELETE_FILE_MARKER, UPDATE_FILE_MARKER})"

lemma header_facts:
  assumes "header_or_end rest" and "rest \<noteq> []"
  shows "trim (hd rest) \<noteq> []" and "starts_with (hd rest) (lit ''***'')"
    and "strip_prefix (hd rest) [43] = None" and "stops rest"
  using assms by (auto simp: header_or_end_def markers lit_def trim_eq_Nil_iff is_whitespace_def
      starts_with_iff stops_def)

lemma render_chunk_first:
  "\<exists>x xs. render_chunk c = (64 # 64 # x) # xs"
  by (cases "change_context c") (simp_all add: render_chunk_def markers lit_def)

lemma stops_chunks:
  assumes "header_or_end rest"
  shows "stops (concat (map render_chunk cs) @ rest)"
proof (cases cs)
  case Nil
  then show ?thesis
    using assms header_facts(4) by (cases "rest = []") (auto simp: stops_def)
next
  case (Cons c cs')
  obtain x xs where "render_chunk c = (64 # 64 # x) # xs"
    using render_chunk_first by blast
  with Cons show ?thesis by (simp add: stops_def EOF_MARKER_def lit_def)
qed

lemma update_loop_render:
  assumes "list_all chunk_ok cs" and "header_or_end rest"
  shows "update_chunks_loop n (concat (map render_chunk cs) @ rest) parsed acc =
    Inr (acc @ cs, parsed + length (concat (map render_chunk cs)))"
  using assms
proof (induction cs arbitrary: parsed acc)
  case Nil
  show ?case
  proof (cases rest)
    case (Cons line lines)
    with Nil have "trim line \<noteq> []" "starts_with line (lit ''***'')"
      using header_facts(1,2) [of rest] by simp_all
    with Cons show ?thesis by (subst update_chunks_loop.simps) simp
  qed (simp add: update_chunks_loop.simps)
next
  case (Cons c cs)
  let ?rest = "concat (map render_chunk cs) @ rest"
  obtain x xs where x: "render_chunk c = (64 # 64 # x) # xs"
    using render_chunk_first by blast
  have first: "trim (64 # 64 # x) \<noteq> []" "\<not> starts_with (64 # 64 # x) (lit ''***'')"
    by (simp_all add: trim_eq_Nil_iff is_whitespace_def starts_with_iff lit_def)
  have "parse_update_file_chunk (render_chunk c @ ?rest) (n + parsed) (acc = []) =
      Inr (c, length (render_chunk c))"
    using Cons.prems stops_chunks by (intro parse_render_chunk) auto
  then have "update_chunks_loop n (render_chunk c @ ?rest) parsed acc =
      update_chunks_loop n ?rest (parsed + length (render_chunk c)) (acc @ [c])"
    using first x by (subst update_chunks_loop.simps) simp
  with Cons show ?case by simp
qed

lemma add_loop_render:
  assumes "rest = [] \<or> strip_prefix (hd rest) [43] = None"
  shows "add_file_loop (map ((#) 43) ls @ rest) acc parsed =
    (acc @ concat (map (\<lambda>l. l @ [10]) ls), parsed + length ls)"
proof (induction ls arbitrary: acc parsed)
  case Nil
  then show ?case using assms by (cases rest) auto
qed simp

lemma concat_lines: "concat (map (\<lambda>l. l @ [10]) ls) = join [10] (ls @ [[]])"
  by (induction "[10 :: nat]" ls rule: join.induct) auto

lemma split_on_snoc: "split_on d (s @ [d]) = split_on d s @ [[]]"
  by (induction s) (auto split: list.split)

lemma contents_lines:
  assumes "contents = [] \<or> last contents = 10"
  shows "concat (map (\<lambda>l. l @ [10]) (butlast (split_on 10 contents))) = contents"
proof -
  have "last (split_on 10 contents) = []"
  proof (cases "contents = []")
    case False
    with assms have "contents = butlast contents @ [10]" by (metis append_butlast_last_id)
    then show ?thesis by (metis last_snoc split_on_snoc)
  qed simp
  then have "butlast (split_on 10 contents) @ [[]] = split_on 10 contents"
    by (metis append_butlast_last_id split_on_not_Nil)
  then show ?thesis
    by (simp add: concat_lines join_split_on)
qed

lemma trim_header:
  assumes "path_ok path" and "marker \<noteq> []" and "\<not> is_whitespace (hd marker)"
  shows "trim (marker @ path) = marker @ path"
  using assms by (intro trim_id) (auto simp: path_ok_def)

lemma not_whitespace_star: "\<not> is_whitespace 42"
  by (simp add: is_whitespace_def)

lemma headers_distinct [simp]:
  "strip_prefix (DELETE_FILE_MARKER @ p) ADD_FILE_MARKER = None"
  "strip_prefix (UPDATE_FILE_MARKER @ p) ADD_FILE_MARKER = None"
  "strip_prefix (UPDATE_FILE_MARKER @ p) DELETE_FILE_MARKER = None"
  by (simp_all add: markers lit_def)

lemma marker_hd [simp]:
  "ADD_FILE_MARKER \<noteq> []" "hd ADD_FILE_MARKER = 42" "DELETE_FILE_MARKER \<noteq> []" "hd DELETE_FILE_MARKER = 42"
  "UPDATE_FILE_MARKER \<noteq> []" "hd UPDATE_FILE_MARKER = 42"
  by (simp_all add: markers lit_def)

lemma parse_render_hunk:
  assumes "hunk_ok h" and "header_or_end rest"
  shows "parse_one_hunk (render_hunk h @ rest) n = Inr (h, length (render_hunk h))"
proof (cases h)
  case (AddFile path contents)
  have "rest = [] \<or> strip_prefix (hd rest) [43] = None"
    by (cases "rest = []") (simp, rule disjI2, rule header_facts(3) [OF assms(2)])
  then have "add_file_loop (map ((#) 43) (butlast (split_on 10 contents)) @ rest) [] 1 =
      (contents, 1 + length (butlast (split_on 10 contents)))"
    using assms(1) AddFile by (simp add: add_loop_render contents_lines)
  moreover have "trim (ADD_FILE_MARKER @ path) = ADD_FILE_MARKER @ path"
    using assms(1) AddFile by (intro trim_header) (simp_all add: not_whitespace_star)
  ultimately show ?thesis
    using AddFile by (simp add: parse_one_hunk_def)
next
  case (DeleteFile path)
  have "trim (DELETE_FILE_MARKER @ path) = DELETE_FILE_MARKER @ path"
    using assms(1) DeleteFile by (intro trim_header) (simp_all add: not_whitespace_star)
  then show ?thesis
    using DeleteFile by (simp add: parse_one_hunk_def)
next
  case (UpdateFile path move_path chunks)
  let ?cs = "concat (map render_chunk chunks)"
  have trimmed: "trim (UPDATE_FILE_MARKER @ path) = UPDATE_FILE_MARKER @ path"
    using assms(1) UpdateFile by (intro trim_header) (simp_all add: not_whitespace_star)
  have chunks: "chunks \<noteq> []" "list_all chunk_ok chunks"
    using assms(1) UpdateFile by simp_all
  obtain c cs where c: "chunks = c # cs" using chunks(1) by (cases chunks) auto
  obtain x xs where x: "render_chunk c = (64 # 64 # x) # xs"
    using render_chunk_first by blast
  have move: "parse_move_path (tl (render_hunk h @ rest)) = move_path"
    unfolding UpdateFile c
    by (cases move_path) (simp_all add: x parse_move_path_def MOVE_TO_MARKER_def lit_def)
  have "drop (if move_path = None then 1 else 2) (render_hunk h @ rest) = ?cs @ rest"
    using UpdateFile by (cases move_path) simp_all
  moreover have "length (render_hunk h) = (if move_path = None then 1 else 2) + length ?cs"
    using UpdateFile by (cases move_path) simp_all
  ultimately have "parse_update_hunk path (render_hunk h @ rest) n = Inr (h, length (render_hunk h))"
    unfolding parse_update_hunk_def Let_def move
    using UpdateFile chunks update_loop_render [OF chunks(2) assms(2), of n _ "[]"] by simp
  then show ?thesis
    using UpdateFile trimmed by (simp add: parse_one_hunk_def)
qed

lemma render_hunk_header: "header_or_end (render_hunk h @ rest)" "render_hunk h \<noteq> []"
  by (cases h; auto simp: header_or_end_def)+

lemma parse_render_hunks:
  assumes "list_all hunk_ok hs"
  shows "parse_hunks_loop n (concat (map render_hunk hs)) = Inr hs"
  using assms
proof (induction hs arbitrary: n)
  case Nil
  then show ?case by (simp add: parse_hunks_loop.simps)
next
  case (Cons h hs)
  have "header_or_end (concat (map render_hunk hs))"
  proof (cases hs)
    case (Cons a list)
    then show ?thesis using render_hunk_header(1) [of a "concat (map render_hunk list)"] by simp
  qed (simp add: header_or_end_def)
  with Cons have "parse_one_hunk (render_hunk h @ concat (map render_hunk hs)) n =
      Inr (h, length (render_hunk h))"
    by (intro parse_render_hunk) simp_all
  with Cons show ?case
    using render_hunk_header(2) [of h] by (subst parse_hunks_loop.simps) simp
qed

section \<open>The lines of a written patch\<close>

lemma line_ok_Cons: "line_ok s \<Longrightarrow> c \<noteq> 10 \<Longrightarrow> c \<noteq> 13 \<Longrightarrow> line_ok (c # s)"
  by (auto simp: line_ok_def)

lemma line_ok_append: "line_ok s \<Longrightarrow> line_ok m \<Longrightarrow> line_ok (m @ s)"
  by (auto simp: line_ok_def last_append split: if_splits)

lemma markers_ok [simp]:
  "line_ok BEGIN_PATCH_MARKER" "line_ok END_PATCH_MARKER" "line_ok ADD_FILE_MARKER"
  "line_ok DELETE_FILE_MARKER" "line_ok UPDATE_FILE_MARKER" "line_ok MOVE_TO_MARKER"
  "line_ok EOF_MARKER" "line_ok CHANGE_CONTEXT_MARKER" "line_ok EMPTY_CHANGE_CONTEXT_MARKER"
  by (simp_all add: line_ok_def markers lit_def)

lemma path_ok_line: "path_ok p \<Longrightarrow> line_ok p"
  by (auto simp: path_ok_def line_ok_def is_whitespace_def)

lemma render_chunk_lines: "chunk_ok c \<Longrightarrow> list_all line_ok (render_chunk c)"
  by (auto simp: chunk_ok_def render_chunk_def list_all_iff line_ok_Cons line_ok_append
      split: option.splits)

lemma render_hunk_lines: "hunk_ok h \<Longrightarrow> list_all line_ok (render_hunk h)"
proof (cases h)
  case (AddFile path contents)
  assume "hunk_ok h"
  with AddFile show ?thesis
    by (auto simp: list_all_iff line_ok_append path_ok_line line_ok_Cons dest: in_set_butlastD)
next
  case (DeleteFile path)
  assume "hunk_ok h"
  with DeleteFile show ?thesis by (simp add: line_ok_append path_ok_line)
next
  case (UpdateFile path move_path chunks)
  assume "hunk_ok h"
  with UpdateFile show ?thesis
    using render_chunk_lines
    by (auto simp: list_all_iff line_ok_append path_ok_line split: option.splits)
qed

lemma render_lines_ok: "list_all hunk_ok hs \<Longrightarrow> list_all line_ok (render_lines hs)"
  using render_hunk_lines by (auto simp: render_lines_def list_all_iff)

lemma str_lines_join_ok:
  assumes "list_all line_ok ls" and "ls \<noteq> []" and "last ls \<noteq> []"
  shows "str_lines (join [10] ls) = ls"
  using assms by (intro str_lines_join) (auto simp: list_all_iff line_ok_def)

lemma last_join: "ls \<noteq> [] \<Longrightarrow> last ls \<noteq> [] \<Longrightarrow> last (join sep ls) = last (last ls)"
proof (cases ls rule: rev_cases)
  case (snoc ws w)
  assume "last ls \<noteq> []"
  with snoc show ?thesis by (cases "ws = []") (simp_all add: join_snoc)
qed simp

lemma join_eq_Nil: "ls \<noteq> [] \<Longrightarrow> hd ls \<noteq> [] \<Longrightarrow> join sep ls \<noteq> [] \<and> hd (join sep ls) = hd (hd ls)"
  by (cases "(sep, ls)" rule: join.cases) auto

lemma trim_join:
  assumes "ls \<noteq> []" and "hd ls \<noteq> []" and "last ls \<noteq> []"
    and "\<not> is_whitespace (hd (hd ls))" and "\<not> is_whitespace (last (last ls))"
  shows "trim (join sep ls) = join sep ls"
  using assms last_join [of ls sep] join_eq_Nil [of ls sep] by (intro trim_id) simp

lemma boundary_lines [simp]:
  "BEGIN_PATCH_MARKER \<noteq> []" "END_PATCH_MARKER \<noteq> []"
  "\<not> is_whitespace (hd BEGIN_PATCH_MARKER)" "\<not> is_whitespace (last END_PATCH_MARKER)"
  by (simp_all add: markers lit_def is_whitespace_def)

lemma render_lines_facts:
  "render_lines hs \<noteq> []" "hd (render_lines hs) = BEGIN_PATCH_MARKER"
  "last (render_lines hs) = END_PATCH_MARKER" "2 \<le> length (render_lines hs)"
  "butlast (tl (render_lines hs)) = concat (map render_hunk hs)"
  by (simp_all add: render_lines_def)

lemma check_render_lines: "check_patch_boundaries_strict (render_lines hs) = Inr ()"
  using render_lines_facts [of hs]
  by (cases "render_lines hs")
    (simp_all add: check_patch_boundaries_strict_def check_start_and_end_lines_strict_def)

lemma lines_of_rendered:
  assumes "list_all hunk_ok hs"
  shows "str_lines (trim (render_patch hs)) = render_lines hs"
  using assms render_lines_facts [of hs]
  by (simp add: render_patch_def trim_join str_lines_join_ok render_lines_ok)

lemma lines_of_heredoc:
  assumes "list_all hunk_ok hs" and "start \<in> set heredoc_starts"
  shows "str_lines (trim (start @ [10] @ render_patch hs @ [10] @ lit ''EOF'')) =
    start # render_lines hs @ [lit ''EOF'']"
proof -
  have start: "start \<noteq> []" "line_ok start" "\<not> is_whitespace (hd start)"
    using assms(2) by (auto simp: heredoc_starts_def lit_def line_ok_def is_whitespace_def)
  have eof: "lit ''EOF'' \<noteq> []" "line_ok (lit ''EOF'')" "\<not> is_whitespace (last (lit ''EOF''))"
    by (simp_all add: lit_def line_ok_def is_whitespace_def)
  let ?ls = "start # render_lines hs @ [lit ''EOF'']"
  obtain l ls where l: "render_lines hs = l # ls"
    using render_lines_facts(1) by (meson list.exhaust)
  have "start @ [10] @ render_patch hs @ [10] @ lit ''EOF'' = join [10] ?ls"
    using join_snoc [of "start # render_lines hs" "[10]" "lit ''EOF''"]
    by (simp add: render_patch_def l)
  moreover have "trim (join [10] ?ls) = join [10] ?ls"
    using start eof by (intro trim_join) simp_all
  moreover have "str_lines (join [10] ?ls) = ?ls"
    using start eof render_lines_ok [OF assms(1)] by (intro str_lines_join_ok) simp_all
  ultimately show ?thesis by simp
qed

lemma check_heredoc:
  assumes "start \<in> set heredoc_starts"
  shows "\<exists>e. check_patch_boundaries_strict (start # render_lines hs @ [lit ''EOF'']) = Inl e \<and>
    check_patch_boundaries_lenient (start # render_lines hs @ [lit ''EOF'']) e = Inr (render_lines hs)"
proof -
  have "start \<noteq> BEGIN_PATCH_MARKER"
    using assms by (auto simp: heredoc_starts_def markers lit_def)
  then obtain e where e: "check_patch_boundaries_strict (start # render_lines hs @ [lit ''EOF'']) = Inl e"
    by (simp add: check_patch_boundaries_strict_def check_start_and_end_lines_strict_def)
  have "ends_with (lit ''EOF'') (lit ''EOF'')"
    by (simp add: ends_with_iff)
  then have "check_patch_boundaries_lenient (start # render_lines hs @ [lit ''EOF'']) e =
      Inr (render_lines hs)"
    using assms render_lines_facts(4) [of hs]
    by (simp add: check_patch_boundaries_lenient_def check_render_lines)
  with e show ?thesis by blast
qed

section \<open>The recorded patch text\<close>

lemma split_on_subset: "w \<in> set (split_on d s) \<Longrightarrow> set w \<subseteq> set s"
  by (induction s arbitrary: w) (fastforce split: if_splits list.splits)+

lemma str_lines_elems: "w \<in> set (str_lines s) \<Longrightarrow> 10 \<notin> set w \<and> set w \<subseteq> set s"
proof -
  assume "w \<in> set (str_lines s)"
  then obtain v where v: "v \<in> set (split_on 10 s)" "w = v \<or> w = strip_cr v"
    by (auto simp: str_lines_def Let_def split: if_splits dest: in_set_butlastD
        intro: last_in_set [OF split_on_not_Nil])
  have "set (strip_cr v) \<subseteq> set v"
    by (auto simp: strip_cr_def dest: in_set_butlastD)
  with v show ?thesis
    using split_on_elems [OF v(1)] split_on_subset [OF v(1)] by auto
qed

lemma set_trim: "set (trim s) \<subseteq> set s"
  using trim_split [of s] by (metis Un_upper1 Un_upper2 le_sup_iff set_append)

lemma set_inner: "set (butlast (tl ls)) \<subseteq> set ls"
  by (cases ls) (auto dest: in_set_butlastD)

lemma check_strict_ok:
  assumes "check_patch_boundaries_strict ls = Inr u"
  shows "ls \<noteq> []" and "hd ls = BEGIN_PATCH_MARKER" and "last ls = END_PATCH_MARKER"
  using assms
  by (auto simp: check_patch_boundaries_strict_def check_start_and_end_lines_strict_def
      split: list.splits if_splits)

lemma lines_of_recorded:
  assumes "check_patch_boundaries_strict ls = Inr u" and "list_all line_ok ls"
  shows "str_lines (trim (join [10] ls)) = ls"
  using check_strict_ok [OF assms(1)] assms(2) by (simp add: trim_join str_lines_join_ok)

lemma parse_render_plain:
  assumes "list_all hunk_ok hs"
  shows "parse_patch (render_patch hs) =
    Inr \<lparr>arg_patch = render_patch hs, arg_hunks = hs, arg_workdir = None\<rparr>"
proof -
  have "parse_hunks_loop 2 (butlast (tl (render_lines hs))) = Inr hs"
    using assms by (simp add: render_lines_facts parse_render_hunks)
  then show ?thesis
    unfolding parse_patch_def parse_patch_text_def PARSE_IN_STRICT_MODE_def Let_def
      lines_of_rendered [OF assms] check_render_lines
    by (simp add: render_patch_def)
qed

section \<open>Properties\<close>

text \<open>
  (C8) Round trip: every list of hunks that can be written in the patch format, with any mixture
  of added, deleted, updated and moved files, context lines and end-of-file chunks, is read back
  unchanged by \<open>parse_patch\<close>, whether the text is given plainly or wrapped in one of the three
  here-document forms; in both cases the recorded patch text is the plain one.
\<close>

theorem parse_render_patch:
  assumes "list_all hunk_ok hs" and "start \<in> set heredoc_starts"
  shows "parse_patch (render_patch hs) =
      Inr \<lparr>arg_patch = render_patch hs, arg_hunks = hs, arg_workdir = None\<rparr> \<and>
    parse_patch (start @ [10] @ render_patch hs @ [10] @ lit ''EOF'') =
      Inr \<lparr>arg_patch = render_patch hs, arg_hunks = hs, arg_workdir = None\<rparr>"
proof -
  have hunks: "parse_hunks_loop 2 (butlast (tl (render_lines hs))) = Inr hs"
    using assms(1) by (simp add: render_lines_facts parse_render_hunks)
  obtain e where e: "check_patch_boundaries_strict (start # render_lines hs @ [lit ''EOF'']) = Inl e"
      "check_patch_boundaries_lenient (start # render_lines hs @ [lit ''EOF'']) e = Inr (render_lines hs)"
    using check_heredoc [OF assms(2)] by blast
  note parse_render_plain [OF assms(1)]
  moreover have "parse_patch (start @ [10] @ render_patch hs @ [10] @ lit ''EOF'') =
      Inr \<lparr>arg_patch = render_patch hs, arg_hunks = hs, arg_workdir = None\<rparr>"
    unfolding parse_patch_def parse_patch_text_def PARSE_IN_STRICT_MODE_def Let_def
      lines_of_heredoc [OF assms] e
    by (simp add: e(2) hunks render_patch_def)
  ultimately show ?thesis ..
qed

theorem parse_render_patch_witness:
  "parse_patch (render_patch
      [AddFile (lit ''a.txt'') (lit ''hi'' @ [10]), DeleteFile (lit ''b''),
       UpdateFile (lit ''c'') (Some (lit ''d''))
         [\<lparr>change_context = Some (lit ''fn f''), old_lines = [lit ''x''], new_lines = [lit ''y''],
           is_end_of_file = True\<rparr>]]) =
   Inr \<lparr>arg_patch = render_patch
      [AddFile (lit ''a.txt'') (lit ''hi'' @ [10]), DeleteFile (lit ''b''),
       UpdateFile (lit ''c'') (Some (lit ''d''))
         [\<lparr>change_context = Some (lit ''fn f''), old_lines = [lit ''x''], new_lines = [lit ''y''],
           is_end_of_file = True\<rparr>]],
     arg_hunks = [AddFile (lit ''a.txt'') (lit ''hi'' @ [10]), DeleteFile (lit ''b''),
       UpdateFile (lit ''c'') (Some (lit ''d''))
         [\<lparr>change_context = Some (lit ''fn f''), old_lines = [lit ''x''], new_lines = [lit ''y''],
           is_end_of_file = True\<rparr>]],
     arg_workdir = None\<rparr>"
  by (rule parse_render_patch [where start = "lit ''<<EOF''", THEN conjunct1])
    (simp_all add: heredoc_starts_def path_ok_def line_ok_def chunk_ok_def is_whitespace_def lit_def)

text \<open>
  The recorded patch is a normal form: for a text without carriage returns that is accepted,
  with or without a here-document around it, the recorded patch text is accepted too and gives
  the same hunks and the same recorded text, so it can stand for the original argument.
\<close>

theorem recorded_patch_reparses:
  assumes "parse_patch patch = Inr args" and "13 \<notin> set patch"
  shows "parse_patch (arg_patch args) = Inr args"
proof -
  let ?ls = "str_lines (trim patch)"
  obtain ls u where ls: "check_patch_boundaries_strict ls = Inr u" "set ls \<subseteq> set ?ls"
      and args: "parse_hunks_loop 2 (butlast (tl ls)) = Inr (arg_hunks args)"
        "arg_patch args = join [10] ls" "arg_workdir args = None"
  proof (cases "check_patch_boundaries_strict ?ls")
    case (Inr u)
    with assms(1) show ?thesis
      by (intro that [of ?ls u])
        (auto simp: parse_patch_def parse_patch_text_def PARSE_IN_STRICT_MODE_def Let_def)
  next
    case (Inl e)
    with assms(1) obtain inner where inner: "check_patch_boundaries_lenient ?ls e = Inr inner"
        and rest: "parse_hunks_loop 2 (butlast (tl inner)) = Inr (arg_hunks args)"
          "arg_patch args = join [10] inner" "arg_workdir args = None"
      by (auto simp: parse_patch_def parse_patch_text_def PARSE_IN_STRICT_MODE_def Let_def)
    then have "inner = butlast (tl ?ls)" "check_patch_boundaries_strict inner = Inr ()"
      by (auto simp: check_patch_boundaries_lenient_def Let_def split: if_split_asm)
    with rest show ?thesis
      using set_inner [of ?ls] by (intro that [of inner "()"]) simp_all
  qed
  have "line_ok l" if "l \<in> set ls" for l
  proof -
    have "10 \<notin> set l" "set l \<subseteq> set patch"
      using that ls(2) str_lines_elems [of l "trim patch"] set_trim [of patch] by auto
    with assms(2) show ?thesis unfolding line_ok_def by (metis last_in_set subsetD)
  qed
  then have "str_lines (trim (join [10] ls)) = ls"
    using ls(1) by (intro lines_of_recorded) (auto simp: list_all_iff)
  with ls(1) args show ?thesis
    by (cases args) (simp add: parse_patch_def parse_patch_text_def PARSE_IN_STRICT_MODE_def Let_def)
qed

theorem recorded_patch_reparses_witness:
  "parse_patch (join [10] [BEGIN_PATCH_MARKER, lit ''*** Delete File: b'', END_PATCH_MARKER]) =
     Inr \<lparr>arg_patch = join [10] [BEGIN_PATCH_MARKER, lit ''*** Delete File: b'', END_PATCH_MARKER],
          arg_hunks = [DeleteFile (lit ''b'')], arg_workdir = None\<rparr>"
proof -
  let ?t = "join [10] [BEGIN_PATCH_MARKER, lit ''*** Delete File: b'', END_PATCH_MARKER]"
  have "parse_patch (32 # ?t) =
      Inr \<lparr>arg_patch = ?t, arg_hunks = [DeleteFile (lit ''b'')], arg_workdir = None\<rparr>"
    by (simp add: parse_patch_def parse_patch_text_def PARSE_IN_STRICT_MODE_def
        check_patch_boundaries_strict_def check_start_and_end_lines_strict_def
        parse_hunks_loop.simps parse_one_hunk_def markers str_eval)
  moreover have "13 \<notin> set (32 # ?t)"
    by (simp add: markers lit_def)
  ultimately show ?thesis
    using recorded_patch_reparses [of "32 # ?t"] by simp
qed

end
