(* ===== verification/Patch_Apply.thy ===== *)
theory Patch_Apply
  imports Patch_Seek Patch_Parser
begin

text \<open>
  Applying a parsed patch, \<open>code-rs/apply-patch/src/lib.rs\<close>: locating the chunks of an update and
  replacing their lines, writing the hunks to the file system, and recognising an \<open>apply_patch\<close>
  invocation in an argument vector.

  The disk maps file identities to texts; \<open>os_path\<close> says which file a path text names, so two
  texts may name one file. A file operation fails when \<open>io_fault\<close> has an error text for it (a
  failed write leaves the file as it was), or when the file to read or remove does not exist.
  Writing to stdout and stderr does not fail. The tree-sitter query that recognises a
  here-document and the \<open>similar\<close> crate's diff are parameters.
\<close>

section \<open>Line endings\<close>

datatype line_ending = Lf | Crlf

definition detect_line_ending :: "rstr \<Rightarrow> line_ending" where
  "detect_line_ending contents = (if str_contains contents [13, 10] then Crlf else Lf)"

fun joiner :: "line_ending \<Rightarrow> rstr" where
  "joiner Lf = [10]"
| "joiner Crlf = [13, 10]"

definition normalize_line_ending :: "rstr \<Rightarrow> rstr" where
  "normalize_line_ending line = (case strip_suffix line [13] of Some l \<Rightarrow> l | None \<Rightarrow> line)"

section \<open>Replacements\<close>

type_synonym replacement = "nat \<times> nat \<times> rstr list"

datatype apply_patch_error =
    ParseErr parse_error
  | IoErr rstr rstr
  | ComputeReplacements rstr
  | ImplicitInvocation
  | MalformedHeredocInvocation

definition last_is_empty :: "rstr list \<Rightarrow> bool" where
  "last_is_empty ls \<longleftrightarrow> ls \<noteq> [] \<and> last ls = []"

definition locate_context ::
    "rstr list \<Rightarrow> rstr \<Rightarrow> update_file_chunk \<Rightarrow> nat \<Rightarrow> apply_patch_error + nat" where
  "locate_context original_lines path chunk line_index =
     (case change_context chunk of
        None \<Rightarrow> Inr line_index
      | Some ctx_line \<Rightarrow>
         (case seek_sequence original_lines [ctx_line] line_index False of
            Some idx \<Rightarrow> Inr (idx + 1)
          | None \<Rightarrow> Inl (ComputeReplacements
              (lit ''Failed to find context '' @ [39] @ ctx_line @ [39] @ lit '' in '' @ path))))"

text \<open>Where the old lines are, and what replaces how many lines there.\<close>

definition locate_old_lines ::
    "rstr list \<Rightarrow> rstr \<Rightarrow> update_file_chunk \<Rightarrow> nat \<Rightarrow> apply_patch_error + replacement" where
  "locate_old_lines original_lines path chunk line_index =
     (let old = map normalize_line_ending (old_lines chunk);
          new = map normalize_line_ending (new_lines chunk);
          found = seek_sequence original_lines old line_index (is_end_of_file chunk);
          (pattern, new_slice, found) =
            (if found = None \<and> last_is_empty old
             then (let pattern = butlast old
                   in (pattern, if last_is_empty new then butlast new else new,
                       seek_sequence original_lines pattern line_index (is_end_of_file chunk)))
             else (old, new, found))
      in case found of
           Some start_idx \<Rightarrow> Inr (start_idx, length pattern, new_slice)
         | None \<Rightarrow> Inl (ComputeReplacements
             (lit ''Failed to find expected lines in '' @ path @ [58, 10] @ join [10] old)))"

fun replacements_loop ::
    "rstr list \<Rightarrow> rstr \<Rightarrow> update_file_chunk list \<Rightarrow> nat \<Rightarrow> apply_patch_error + replacement list" where
  "replacements_loop original_lines path [] line_index = Inr []"
| "replacements_loop original_lines path (chunk # chunks) line_index =
     and_then (locate_context original_lines path chunk line_index) (\<lambda>line_index.
       if old_lines chunk = []
       then (let insertion_idx = (if last_is_empty original_lines
                                  then length original_lines - 1 else length original_lines)
             in and_then (replacements_loop original_lines path chunks line_index) (\<lambda>rs.
                  Inr ((insertion_idx, 0, map normalize_line_ending (new_lines chunk)) # rs)))
       else and_then (locate_old_lines original_lines path chunk line_index) (\<lambda>r.
              and_then (replacements_loop original_lines path chunks (fst r + fst (snd r))) (\<lambda>rs.
                Inr (r # rs))))"

definition compute_replacements ::
    "rstr list \<Rightarrow> rstr \<Rightarrow> update_file_chunk list \<Rightarrow> apply_patch_error + replacement list" where
  "compute_replacements original_lines path chunks =
     and_then (replacements_loop original_lines path chunks 0) (\<lambda>rs. Inr (sort_key fst rs))"

text \<open>\<open>Vec::remove\<close> and \<open>Vec::insert\<close> in their loops; inserting past the end panics (\<open>None\<close>).\<close>

fun remove_old_lines :: "nat \<Rightarrow> nat \<Rightarrow> rstr list \<Rightarrow> rstr list" where
  "remove_old_lines 0 start_idx ls = ls"
| "remove_old_lines (Suc n) start_idx ls =
     remove_old_lines n start_idx
       (if start_idx < length ls then take start_idx ls @ drop (Suc start_idx) ls else ls)"

fun insert_new_lines :: "nat \<Rightarrow> rstr list \<Rightarrow> rstr list \<Rightarrow> rstr list option" where
  "insert_new_lines i [] ls = Some ls"
| "insert_new_lines i (new_line # new_segment) ls =
     (if i \<le> length ls
      then insert_new_lines (i + 1) new_segment (take i ls @ new_line # drop i ls) else None)"

fun apply_in_turn :: "replacement list \<Rightarrow> rstr list \<Rightarrow> rstr list option" where
  "apply_in_turn [] ls = Some ls"
| "apply_in_turn ((start_idx, old_len, new_segment) # rs) ls =
     Option.bind (insert_new_lines start_idx new_segment (remove_old_lines old_len start_idx ls))
       (apply_in_turn rs)"

definition apply_replacements :: "rstr list \<Rightarrow> replacement list \<Rightarrow> rstr list option" where
  "apply_replacements ls replacements = apply_in_turn (rev replacements) ls"

definition file_lines :: "rstr \<Rightarrow> rstr list" where
  "file_lines original_contents =
     (let ls = map normalize_line_ending (split_on 10 original_contents)
      in if last_is_empty ls then butlast ls else ls)"

text \<open>
  \<open>derive_new_contents_from_chunks\<close> after the file was read. A panic inside is the outer \<open>None\<close>.
\<close>

definition new_contents_from_chunks ::
    "rstr \<Rightarrow> rstr \<Rightarrow> update_file_chunk list \<Rightarrow> (apply_patch_error + rstr) option" where
  "new_contents_from_chunks path original_contents chunks =
     (let original_lines = file_lines original_contents
      in case compute_replacements original_lines path chunks of
           Inl e \<Rightarrow> Some (Inl e)
         | Inr replacements \<Rightarrow>
            map_option (\<lambda>new_lines.
                let new_lines = (if last_is_empty new_lines then new_lines else new_lines @ [[]])
                in Inr (join (joiner (detect_line_ending original_contents)) new_lines))
              (apply_replacements original_lines replacements))"

section \<open>Lemmas on replacements\<close>

lemma remove_old_lines_eq: "remove_old_lines n i ls = take i ls @ drop (i + n) ls"
proof (induction n arbitrary: ls)
  case (Suc n)
  then show ?case by (simp add: drop_drop min_def add.commute)
qed simp

lemma insert_new_lines_eq:
  "i \<le> length ls \<Longrightarrow> insert_new_lines i xs ls = Some (take i ls @ xs @ drop i ls)"
  by (induction xs arbitrary: i ls) (simp_all add: min_def)

definition splice_lines :: "nat \<Rightarrow> nat \<Rightarrow> rstr list \<Rightarrow> rstr list \<Rightarrow> rstr list" where
  "splice_lines i n xs ls = take i ls @ xs @ drop (i + n) ls"

lemma apply_in_turn_Cons:
  "i \<le> length ls \<Longrightarrow> apply_in_turn ((i, n, xs) # rs) ls = apply_in_turn rs (splice_lines i n xs ls)"
  by (simp add: remove_old_lines_eq insert_new_lines_eq splice_lines_def min_def)

lemma length_splice: "i \<le> length ls \<Longrightarrow> i \<le> length (splice_lines i n xs ls)"
  by (simp add: splice_lines_def)

lemma apply_in_turn_total:
  assumes "sorted (rev (map fst rs))" and "\<forall>r \<in> set rs. fst r \<le> length ls"
  shows "\<exists>ls'. apply_in_turn rs ls = Some ls'"
  using assms
proof (induction rs arbitrary: ls)
  case (Cons r rs)
  obtain i n xs where r: "r = (i, n, xs)" by (cases r)
  have i: "i \<le> length ls" using Cons.prems(2) r by simp
  have "\<forall>r' \<in> set rs. fst r' \<le> i"
    using Cons.prems(1) r by (auto simp: sorted_append)
  then have "\<forall>r' \<in> set rs. fst r' \<le> length (splice_lines i n xs ls)"
    using length_splice [OF i, of n xs] by fastforce
  then have "\<exists>ls'. apply_in_turn rs (splice_lines i n xs ls) = Some ls'"
    using Cons.prems(1) by (intro Cons.IH) (auto simp: sorted_append)
  then show ?case unfolding r apply_in_turn_Cons [OF i] .
qed simp

lemma locate_context_bound:
  assumes "locate_context ls path chunk i = Inr j" and "i \<le> length ls"
  shows "i \<le> j \<and> j \<le> length ls"
  using assms seek_sequence_bound [of ls "[the (change_context chunk)]" i False]
  by (fastforce simp: locate_context_def split: option.splits)

lemma locate_old_lines_cases:
  assumes "locate_old_lines ls path chunk i = Inr (s, n, xs)"
  obtains (whole) "seek_sequence ls (map normalize_line_ending (old_lines chunk)) i
        (is_end_of_file chunk) = Some s"
      and "n = length (old_lines chunk)" and "xs = map normalize_line_ending (new_lines chunk)"
  | (without_last) pattern where
      "map normalize_line_ending (old_lines chunk) = pattern @ [[]]"
      and "seek_sequence ls pattern i (is_end_of_file chunk) = Some s" and "n = length pattern"
proof (cases "seek_sequence ls (map normalize_line_ending (old_lines chunk)) i
    (is_end_of_file chunk) = None \<and> last_is_empty (map normalize_line_ending (old_lines chunk))")
  case True
  let ?old = "map normalize_line_ending (old_lines chunk)"
  have "?old = butlast ?old @ [[]]"
    using True by (metis append_butlast_last_id last_is_empty_def)
  with True assms show thesis
    by (intro without_last [of "butlast ?old"])
      (simp_all add: locate_old_lines_def Let_def split: option.splits)
next
  case False
  with assms show thesis
    by (intro whole) (simp_all add: locate_old_lines_def Let_def split: option.splits if_splits)
qed

lemma locate_old_lines_bound:
  assumes "locate_old_lines ls path chunk i = Inr (s, n, xs)" and "i \<le> length ls"
  shows "s + n \<le> length ls" and "is_end_of_file chunk \<or> i \<le> s"
  using assms(1)
  by (cases rule: locate_old_lines_cases;
      use seek_sequence_bound [OF _ assms(2)] in fastforce)+

lemma replacements_loop_bound:
  assumes "replacements_loop ls path chunks i = Inr rs" and "i \<le> length ls"
  shows "\<forall>r \<in> set rs. fst r + fst (snd r) \<le> length ls"
  using assms
proof (induction chunks arbitrary: i rs)
  case (Cons chunk chunks)
  obtain j where j: "locate_context ls path chunk i = Inr j"
    using Cons.prems(1) by auto
  then have jle: "j \<le> length ls" using locate_context_bound Cons.prems(2) by blast
  show ?case
  proof (cases "old_lines chunk = []")
    case True
    then obtain rs' where rs': "replacements_loop ls path chunks j = Inr rs'"
        "rs = (if last_is_empty ls then length ls - 1 else length ls, 0,
          map normalize_line_ending (new_lines chunk)) # rs'"
      using Cons.prems(1) j by (auto simp: Let_def)
    with Cons.IH [OF rs'(1) jle] show ?thesis by simp
  next
    case False
    then obtain s n xs rs' where r: "locate_old_lines ls path chunk j = Inr (s, n, xs)"
        "replacements_loop ls path chunks (s + n) = Inr rs'" "rs = (s, n, xs) # rs'"
      using Cons.prems(1) j by auto
    then have "s + n \<le> length ls" using locate_old_lines_bound(1) jle by blast
    with r Cons.IH [OF r(2)] show ?thesis by simp
  qed
qed simp

section \<open>Replacements in order\<close>

fun in_order :: "nat \<Rightarrow> replacement list \<Rightarrow> nat \<Rightarrow> bool" where
  "in_order pos [] len \<longleftrightarrow> pos \<le> len"
| "in_order pos ((s, n, xs) # rs) len \<longleftrightarrow> pos \<le> s \<and> in_order (s + n) rs len"

text \<open>The file from \<open>pos\<close> on with the blocks replaced and every other line kept.\<close>

fun patched :: "nat \<Rightarrow> replacement list \<Rightarrow> rstr list \<Rightarrow> rstr list" where
  "patched pos [] ls = drop pos ls"
| "patched pos ((s, n, xs) # rs) ls = take (s - pos) (drop pos ls) @ xs @ patched (s + n) rs ls"

text \<open>How a replacement relates to its chunk.\<close>

definition located :: "rstr list \<Rightarrow> update_file_chunk \<Rightarrow> replacement \<Rightarrow> bool" where
  "located ls chunk r \<longleftrightarrow>
     (case r of (s, n, xs) \<Rightarrow>
       (let old = map normalize_line_ending (old_lines chunk);
            new = map normalize_line_ending (new_lines chunk)
        in (n = length old \<and> matches_at normalise ls old s \<and> xs = new) \<or>
           (old = butlast old @ [[]] \<and> n = length (butlast old) \<and>
            matches_at normalise ls (butlast old) s \<and>
            xs = (if last_is_empty new then butlast new else new))))"

lemma in_order_le: "in_order pos rs len \<Longrightarrow> pos \<le> len"
  by (induction pos rs len rule: in_order.induct) auto

lemma in_order_sorted: "in_order pos rs len \<Longrightarrow> sorted (map fst rs) \<and> (\<forall>r \<in> set rs. pos \<le> fst r)"
  by (induction pos rs len rule: in_order.induct) fastforce+

lemma apply_in_turn_append:
  "apply_in_turn (rs @ rs') ls = Option.bind (apply_in_turn rs ls) (apply_in_turn rs')"
  by (induction rs ls rule: apply_in_turn.induct) (auto split: Option.bind_split)

lemma apply_in_order:
  "in_order pos rs (length ls) \<Longrightarrow> apply_in_turn (rev rs) ls = Some (take pos ls @ patched pos rs ls)"
proof (induction pos rs "length ls" rule: in_order.induct)
  case (1 pos)
  then show ?case by simp
next
  case (2 pos s n xs rs)
  have le: "s + n \<le> length ls" "pos \<le> s"
    using in_order_le [of "s + n" rs] 2 by simp_all
  let ?l = "take (s + n) ls @ patched (s + n) rs ls"
  have "apply_in_turn (rev rs) ls = Some ?l"
    using 2 by simp
  moreover have "s \<le> length ?l" using le by simp
  moreover have "splice_lines s n xs ?l = take s ls @ xs @ patched (s + n) rs ls"
    using le by (simp add: splice_lines_def min_def)
  moreover have "take s ls = take pos ls @ take (s - pos) (drop pos ls)"
    using le by (metis le_add_diff_inverse take_add)
  ultimately show ?case
    by (simp add: apply_in_turn_append apply_in_turn_Cons del: apply_in_turn.simps(2))
qed

lemma matches_Nil [simp]: "matches_at view ls [] i"
  by (simp add: matches_at_def)

lemma locate_old_lines_located:
  assumes "locate_old_lines ls path chunk i = Inr r"
  shows "located ls chunk r"
proof -
  let ?old = "map normalize_line_ending (old_lines chunk)"
  let ?seek = "\<lambda>p. seek_sequence ls p i (is_end_of_file chunk)"
  have match: "matches_at normalise ls p s" if "?seek p = Some s" for p s
    using that seek_sequence_matches by (cases "p = []") auto
  show ?thesis
  proof (cases "?seek ?old = None \<and> last_is_empty ?old")
    case True
    have "?old = butlast ?old @ [[]]"
      using True by (metis append_butlast_last_id last_is_empty_def)
    moreover have "\<exists>s. ?seek (butlast ?old) = Some s \<and> r = (s, length (butlast ?old),
        if last_is_empty (map normalize_line_ending (new_lines chunk))
        then butlast (map normalize_line_ending (new_lines chunk))
        else map normalize_line_ending (new_lines chunk))"
      using True assms by (auto simp: locate_old_lines_def Let_def split: option.splits)
    ultimately show ?thesis
      using match unfolding located_def Let_def by auto
  next
    case False
    then have "\<exists>s. ?seek ?old = Some s \<and> r = (s, length ?old, map normalize_line_ending (new_lines chunk))"
      using assms by (auto simp: locate_old_lines_def Let_def split: option.splits if_splits)
    then show ?thesis
      using match unfolding located_def Let_def by auto
  qed
qed

definition plain_chunk :: "update_file_chunk \<Rightarrow> bool" where
  "plain_chunk chunk \<longleftrightarrow> \<not> is_end_of_file chunk \<and> old_lines chunk \<noteq> []"

lemma replacements_loop_plain:
  assumes "replacements_loop ls path chunks i = Inr rs" and "list_all plain_chunk chunks"
    and "i \<le> length ls"
  shows "in_order i rs (length ls) \<and> list_all2 (located ls) chunks rs"
  using assms
proof (induction chunks arbitrary: i rs)
  case (Cons chunk chunks)
  obtain j where j: "locate_context ls path chunk i = Inr j"
    using Cons.prems(1) by auto
  then have jle: "i \<le> j" "j \<le> length ls" using locate_context_bound Cons.prems(3) by blast+
  have plain: "\<not> is_end_of_file chunk" "old_lines chunk \<noteq> []"
    using Cons.prems(2) by (simp_all add: plain_chunk_def)
  then obtain s n xs rs' where r: "locate_old_lines ls path chunk j = Inr (s, n, xs)"
      "replacements_loop ls path chunks (s + n) = Inr rs'" "rs = (s, n, xs) # rs'"
    using Cons.prems(1) j by auto
  have "s + n \<le> length ls" "j \<le> s"
    using locate_old_lines_bound [OF r(1) jle(2)] plain(1) by auto
  with r jle Cons.IH [OF r(2)] Cons.prems(2) show ?case
    by (simp add: locate_old_lines_located)
qed simp

lemma replacements_no_panic:
  assumes "compute_replacements original_lines path chunks = Inr replacements"
  shows "\<exists>new_lines. apply_replacements original_lines replacements = Some new_lines"
proof -
  obtain rs where rs: "replacements_loop original_lines path chunks 0 = Inr rs"
      "replacements = sort_key fst rs"
    using assms by (auto simp: compute_replacements_def)
  then have "\<forall>r \<in> set replacements. fst r \<le> length original_lines"
    using replacements_loop_bound [OF rs(1)] by fastforce
  moreover have "sorted (rev (map fst (rev replacements)))"
    by (simp add: rs(2) rev_map)
  ultimately show ?thesis
    unfolding apply_replacements_def by (intro apply_in_turn_total) simp_all
qed

section \<open>Properties of updates\<close>

text \<open>
  No panic: whatever the file and the chunks, when the replacements can be computed, removing
  and inserting their lines never indexes past the end of the vector, because they are applied
  from the last to the first and every one starts within the file.
\<close>

theorem apply_replacements_no_panic:
  assumes "compute_replacements original_lines path chunks = Inr replacements"
  shows "\<exists>new_lines. apply_replacements original_lines replacements = Some new_lines"
  using assms by (rule replacements_no_panic)

theorem apply_replacements_no_panic_witness:
  "\<exists>new_lines. apply_replacements [lit ''a'', lit ''b''] [(0, 1, [lit ''x'', lit ''y''])] = Some new_lines"
  by (rule apply_replacements_no_panic [where path = "[]" and chunks =
      "[\<lparr>change_context = None, old_lines = [lit ''a''], new_lines = [lit ''x'', lit ''y''],
        is_end_of_file = False\<rparr>]"])
    (simp add: compute_replacements_def locate_context_def locate_old_lines_def seek_sequence_def
      first_match_def matches_at_def upt_rec last_is_empty_def normalize_line_ending_def str_eval)

text \<open>
  (C32) Correctness of an update whose chunks all have old lines and no end-of-file mark: every
  chunk gets one replacement, in the order of the chunks; the replaced block matches the chunk's
  old lines up to white space at the ends of lines and typographic punctuation (without a final
  empty line when only that makes it match); the blocks do not overlap; and the result is the file
  with exactly these blocks replaced by the new lines and every other line kept.
\<close>

theorem update_replaces_located_blocks:
  assumes "compute_replacements original_lines path chunks = Inr replacements"
    and "list_all plain_chunk chunks"
  shows "list_all2 (located original_lines) chunks replacements \<and>
    in_order 0 replacements (length original_lines) \<and>
    apply_replacements original_lines replacements = Some (patched 0 replacements original_lines)"
proof -
  obtain rs where rs: "replacements_loop original_lines path chunks 0 = Inr rs"
      "replacements = sort_key fst rs"
    using assms(1) by (auto simp: compute_replacements_def)
  have order: "in_order 0 rs (length original_lines)" "list_all2 (located original_lines) chunks rs"
    using replacements_loop_plain [OF rs(1) assms(2)] by simp_all
  then have "replacements = rs"
    using rs(2) in_order_sorted sort_key_id_if_sorted by metis
  with order show ?thesis
    using apply_in_order [OF order(1)] by (simp add: apply_replacements_def)
qed

theorem update_replaces_located_blocks_witness:
  "apply_replacements [lit ''a'', lit ''b '', lit ''c''] [(1, 1, [lit ''x'', lit ''y''])] =
     Some (patched 0 [(1, 1, [lit ''x'', lit ''y''])] [lit ''a'', lit ''b '', lit ''c''])"
  by (rule update_replaces_located_blocks [where path = "[]" and chunks =
      "[\<lparr>change_context = Some (lit ''a''), old_lines = [lit ''b''],
        new_lines = [lit ''x'', lit ''y''], is_end_of_file = False\<rparr>]", THEN conjunct2, THEN conjunct2])
    (simp_all add: compute_replacements_def locate_context_def locate_old_lines_def seek_sequence_def
      first_match_def matches_at_def upt_rec last_is_empty_def normalize_line_ending_def
      plain_chunk_def str_eval)

text \<open>
  Without those restrictions lines are lost. An end-of-file chunk is searched at the end of the
  file even when an earlier chunk has already replaced the block there: in the file \<open>a\<close>, \<open>b\<close> the
  first chunk replaces both lines, the second replaces \<open>b\<close> at the end of the file, both are
  reported as applied and the second one's line is missing from the result. And added lines are
  inserted before a final blank line even when that line belongs to a replaced block: the first
  added line disappears and the blank line comes back.
\<close>

theorem overlapping_replacements_lose_lines:
  "compute_replacements [lit ''a'', lit ''b''] path
     [\<lparr>change_context = None, old_lines = [lit ''a'', lit ''b''], new_lines = [lit ''x''],
       is_end_of_file = False\<rparr>,
      \<lparr>change_context = None, old_lines = [lit ''b''], new_lines = [lit ''y''],
       is_end_of_file = True\<rparr>] = Inr [(0, 2, [lit ''x'']), (1, 1, [lit ''y''])] \<and>
   apply_replacements [lit ''a'', lit ''b''] [(0, 2, [lit ''x'']), (1, 1, [lit ''y''])] =
     Some [lit ''x''] \<and>
   compute_replacements [lit ''a'', []] path
     [\<lparr>change_context = None, old_lines = [lit ''a'', []], new_lines = [lit ''b'', []],
       is_end_of_file = False\<rparr>,
      \<lparr>change_context = None, old_lines = [], new_lines = [lit ''z'', lit ''w''],
       is_end_of_file = False\<rparr>] =
     Inr [(0, 2, [lit ''b'', []]), (1, 0, [lit ''z'', lit ''w''])] \<and>
   apply_replacements [lit ''a'', []] [(0, 2, [lit ''b'', []]), (1, 0, [lit ''z'', lit ''w''])] =
     Some [lit ''b'', [], lit ''w'', []]"
proof (intro conjI)
qed (simp_all add: compute_replacements_def locate_context_def locate_old_lines_def
    seek_sequence_def first_match_def matches_at_def upt_rec last_is_empty_def
    normalize_line_ending_def apply_replacements_def numeral_2_eq_2 str_eval)

end
