(* ===== verification/Framed_Steps.thy ===== *)
theory Framed_Steps
  imports Main
begin

text \<open>
  The contract between a routine that works through a list of items and stops at the first failure,
  and the operation it calls for each item: an item only changes the keys of the store that it
  names. Its clients are the two routines that write a patch to the disk.
\<close>

locale framed_steps =
  fixes step :: "'x \<Rightarrow> 's \<Rightarrow> ('k \<rightharpoonup> 'v) \<Rightarrow> ('e + 's) \<times> ('k \<rightharpoonup> 'v)"
    and loop :: "'x list \<Rightarrow> 's \<Rightarrow> ('k \<rightharpoonup> 'v) \<Rightarrow> ('e + 's) \<times> ('k \<rightharpoonup> 'v)"
    and keys :: "'x \<Rightarrow> 'k set"
  assumes loop_Nil: "loop [] s d = (Inr s, d)"
    and loop_Cons: "loop (x # xs) s d =
      (case step x s d of (r, d1) \<Rightarrow> (case r of Inl e \<Rightarrow> (Inl e, d1) | Inr s1 \<Rightarrow> loop xs s1 d1))"
    and step_frame: "k \<notin> keys x \<Longrightarrow> snd (step x s d) k = d k"
begin

lemma loop_frame: "k \<notin> \<Union> (keys ` set xs) \<Longrightarrow> snd (loop xs s d) k = d k"
proof (induction xs arbitrary: s d)
  case (Cons x xs)
  then have "snd (step x s d) k = d k"
    using step_frame by simp
  then show ?case
    using Cons by (auto simp: loop_Cons split: prod.split sum.split)
qed (simp add: loop_Nil)

lemma loop_prefix:
  "loop xs s d = (Inl e, d') \<Longrightarrow>
   \<exists>k s1 d1. k < length xs \<and> loop (take k xs) s d = (Inr s1, d1) \<and> step (xs ! k) s1 d1 = (Inl e, d')"
proof (induction xs arbitrary: s d)
  case (Cons x xs)
  obtain r d1 where step: "step x s d = (r, d1)"
    by fastforce
  show ?case
  proof (cases r)
    case (Inl e')
    then show ?thesis
      using Cons.prems step by (intro exI [of _ 0]) (simp add: loop_Cons loop_Nil)
  next
    case (Inr s1)
    then have "loop xs s1 d1 = (Inl e, d')"
      using Cons.prems step by (simp add: loop_Cons)
    then obtain k s2 d2 where "k < length xs" "loop (take k xs) s1 d1 = (Inr s2, d2)"
        "step (xs ! k) s2 d2 = (Inl e, d')"
      using Cons.IH by blast
    then show ?thesis
      using Inr step by (intro exI [of _ "Suc k"]) (auto simp: loop_Cons)
  qed
qed (simp add: loop_Nil)

lemma loop_changes:
  "snd (loop xs s d) k \<noteq> d k \<Longrightarrow> \<exists>x \<in> set xs. k \<in> keys x"
  using loop_frame by blast

end

end
