(* ===== verification/Patch_Files.thy ===== *)
theory Patch_Files
  imports Patch_Apply Rust_Path Framed_Steps
begin

text \<open>
  The rest of \<open>code-rs/apply-patch/src/lib.rs\<close>: writing hunks to the disk, reporting, recognising
  an \<open>apply_patch\<close> invocation and working out the changes it proposes without touching the disk.
  Conventions are those of theory \<open>Patch_Apply\<close>.
\<close>

section \<open>The disk\<close>

datatype fs_op = ReadFile rstr | WriteFile rstr | RemoveFile rstr | CreateDirAll rstr
  | RenameFile rstr rstr

record 'k disk_env =
  os_path :: "rstr \<Rightarrow> 'k"
  io_fault :: "fs_op \<Rightarrow> rstr option"
  not_found :: rstr

type_synonym 'k disk = "'k \<rightharpoonup> rstr"

definition read_disk :: "'k disk_env \<Rightarrow> rstr \<Rightarrow> 'k disk \<Rightarrow> rstr + rstr" where
  "read_disk env path disk =
     (case io_fault env (ReadFile path) of
        Some e \<Rightarrow> Inl e
      | None \<Rightarrow> (case disk (os_path env path) of None \<Rightarrow> Inl (not_found env) | Some c \<Rightarrow> Inr c))"

definition write_disk :: "'k disk_env \<Rightarrow> rstr \<Rightarrow> rstr \<Rightarrow> 'k disk \<Rightarrow> rstr + 'k disk" where
  "write_disk env path contents disk =
     (case io_fault env (WriteFile path) of
        Some e \<Rightarrow> Inl e
      | None \<Rightarrow> Inr (disk(os_path env path \<mapsto> contents)))"

definition remove_disk :: "'k disk_env \<Rightarrow> rstr \<Rightarrow> 'k disk \<Rightarrow> rstr + 'k disk" where
  "remove_disk env path disk =
     (case io_fault env (RemoveFile path) of
        Some e \<Rightarrow> Inl e
      | None \<Rightarrow> (if disk (os_path env path) = None then Inl (not_found env)
                 else Inr (disk(os_path env path := None))))"

section \<open>Applying hunks\<close>

record affected_paths =
  added :: "rstr list"
  modified :: "rstr list"
  deleted :: "rstr list"

text \<open>The \<open>anyhow\<close> errors of \<open>apply_hunks_to_files\<close>.\<close>

datatype hunk_error =
    Bail rstr
  | WithContext rstr rstr
  | Derived apply_patch_error

definition with_context :: "rstr + 'a \<Rightarrow> rstr \<Rightarrow> hunk_error + 'a" where
  "with_context r context = (case r of Inl e \<Rightarrow> Inl (WithContext context e) | Inr a \<Rightarrow> Inr a)"

definition create_parents :: "'k disk_env \<Rightarrow> rstr \<Rightarrow> hunk_error + unit" where
  "create_parents env path =
     (if has_parent_dir path
      then with_context
        (case io_fault env (CreateDirAll path) of Some e \<Rightarrow> Inl e | None \<Rightarrow> Inr ())
        (lit ''Failed to create parent directories for '' @ path)
      else Inr ())"

definition derive_new_contents_from_chunks ::
    "'k disk_env \<Rightarrow> rstr \<Rightarrow> update_file_chunk list \<Rightarrow> 'k disk \<Rightarrow>
       (apply_patch_error + rstr \<times> rstr) option" where
  "derive_new_contents_from_chunks env path chunks disk =
     (case read_disk env path disk of
        Inl e \<Rightarrow> Some (Inl (IoErr (lit ''Failed to read file to update '' @ path) e))
      | Inr original \<Rightarrow>
         map_option (\<lambda>r. and_then r (\<lambda>new. Inr (original, new)))
           (new_contents_from_chunks path original chunks))"

text \<open>The first case is a panic, which \<open>derive_never_panics\<close> below excludes.\<close>

definition derived_contents ::
    "'k disk_env \<Rightarrow> rstr \<Rightarrow> update_file_chunk list \<Rightarrow> 'k disk \<Rightarrow> hunk_error + rstr" where
  "derived_contents env path chunks disk =
     (case derive_new_contents_from_chunks env path chunks disk of
        None \<Rightarrow> Inl (Bail (lit ''panic''))
      | Some (Inl e) \<Rightarrow> Inl (Derived e)
      | Some (Inr (_, new)) \<Rightarrow> Inr new)"

text \<open>One iteration of the loop of \<open>apply_hunks_to_files\<close>.\<close>

fun apply_hunk ::
    "'k disk_env \<Rightarrow> hunk \<Rightarrow> affected_paths \<times> 'k disk \<Rightarrow> hunk_error + affected_paths \<times> 'k disk" where
  "apply_hunk env (AddFile path contents) (aff, disk) =
     and_then (create_parents env path) (\<lambda>_.
     and_then (with_context (write_disk env path contents disk)
                (lit ''Failed to write file '' @ path)) (\<lambda>disk.
       Inr (aff\<lparr>added := added aff @ [path]\<rparr>, disk)))"
| "apply_hunk env (DeleteFile path) (aff, disk) =
     and_then (with_context (remove_disk env path disk)
                (lit ''Failed to delete file '' @ path)) (\<lambda>disk.
       Inr (aff\<lparr>deleted := deleted aff @ [path]\<rparr>, disk))"
| "apply_hunk env (UpdateFile path None chunks) (aff, disk) =
     and_then (derived_contents env path chunks disk) (\<lambda>new_contents.
     and_then (with_context (write_disk env path new_contents disk)
                (lit ''Failed to write file '' @ path)) (\<lambda>disk.
       Inr (aff\<lparr>modified := modified aff @ [path]\<rparr>, disk)))"
| "apply_hunk env (UpdateFile path (Some dest) chunks) (aff, disk) =
     and_then (derived_contents env path chunks disk) (\<lambda>new_contents.
     and_then (create_parents env dest) (\<lambda>_.
     and_then (with_context (write_disk env dest new_contents disk)
                (lit ''Failed to write file '' @ dest)) (\<lambda>disk1.
       (case with_context (remove_disk env path disk1)
               (lit ''Failed to remove original '' @ path) of
          Inl e \<Rightarrow> Inl e
        | Inr disk2 \<Rightarrow> Inr (aff\<lparr>modified := modified aff @ [dest]\<rparr>, disk2)))))"

text \<open>
  What an iteration leaves on the disk when it fails: only a move that wrote its destination and
  could not remove the original has changed anything.
\<close>

fun disk_after_failure :: "'k disk_env \<Rightarrow> hunk \<Rightarrow> 'k disk \<Rightarrow> 'k disk" where
  "disk_after_failure env (UpdateFile path (Some dest) chunks) disk =
     (case derived_contents env path chunks disk of
        Inl _ \<Rightarrow> disk
      | Inr new_contents \<Rightarrow>
         (case create_parents env dest of
            Inl _ \<Rightarrow> disk
          | Inr _ \<Rightarrow>
             (case write_disk env dest new_contents disk of Inl _ \<Rightarrow> disk | Inr disk1 \<Rightarrow> disk1)))"
| "disk_after_failure env h disk = disk"

fun apply_hunks_loop ::
    "'k disk_env \<Rightarrow> hunk list \<Rightarrow> affected_paths \<times> 'k disk \<Rightarrow>
       (hunk_error + affected_paths) \<times> 'k disk" where
  "apply_hunks_loop env [] (aff, disk) = (Inr aff, disk)"
| "apply_hunks_loop env (h # hs) (aff, disk) =
     (case apply_hunk env h (aff, disk) of
        Inl e \<Rightarrow> (Inl e, disk_after_failure env h disk)
      | Inr s \<Rightarrow> apply_hunks_loop env hs s)"

definition apply_hunks_to_files ::
    "'k disk_env \<Rightarrow> hunk list \<Rightarrow> 'k disk \<Rightarrow> (hunk_error + affected_paths) \<times> 'k disk" where
  "apply_hunks_to_files env hunks disk =
     (if hunks = [] then (Inl (Bail (lit ''No files were modified.'')), disk)
      else apply_hunks_loop env hunks (\<lparr>added = [], modified = [], deleted = []\<rparr>, disk))"

section \<open>Reporting\<close>

fun show_parse_error :: "parse_error \<Rightarrow> rstr" where
  "show_parse_error (InvalidPatchError m) = lit ''invalid patch: '' @ m"
| "show_parse_error (InvalidHunkError m n) =
     lit ''invalid hunk at line '' @ show_nat n @ lit '', '' @ m"

definition argv_example :: rstr where
  "argv_example = lit ''['' @ [34] @ lit ''apply_patch'' @ [34] @ lit '', '' @ [34] @ lit ''<patch>'' @
     [34] @ lit '']''"

fun show_apply_patch_error :: "apply_patch_error \<Rightarrow> rstr" where
  "show_apply_patch_error (ParseErr e) = show_parse_error e"
| "show_apply_patch_error (IoErr context source) = context @ lit '': '' @ source"
| "show_apply_patch_error (ComputeReplacements m) = m"
| "show_apply_patch_error ImplicitInvocation =
     lit ''patch detected without explicit call to apply_patch. Rerun as '' @ argv_example"
| "show_apply_patch_error MalformedHeredocInvocation =
     lit ''apply_patch heredoc argv is malformed. Pass the patch as '' @ argv_example @
     lit '' or put the full heredoc in a single shell script string''"

fun show_hunk_error :: "hunk_error \<Rightarrow> rstr" where
  "show_hunk_error (Bail m) = m"
| "show_hunk_error (WithContext context _) = context"
| "show_hunk_error (Derived e) = show_apply_patch_error e"

definition print_summary :: "affected_paths \<Rightarrow> rstr" where
  "print_summary aff =
     concat (map (\<lambda>l. l @ [10])
       (lit ''Success. Updated the following files:'' #
        map (\<lambda>p. lit ''A '' @ p) (added aff) @ map (\<lambda>p. lit ''M '' @ p) (modified aff) @
        map (\<lambda>p. lit ''D '' @ p) (deleted aff)))"

record 'k applied =
  app_result :: "apply_patch_error + unit"
  app_stdout :: rstr
  app_stderr :: rstr
  app_disk :: "'k disk"

definition apply_hunks :: "'k disk_env \<Rightarrow> hunk list \<Rightarrow> 'k disk \<Rightarrow> 'k applied" where
  "apply_hunks env hunks disk =
     (case apply_hunks_to_files env hunks disk of
        (Inr affected, disk') \<Rightarrow>
          \<lparr>app_result = Inr (), app_stdout = print_summary affected, app_stderr = [],
           app_disk = disk'\<rparr>
      | (Inl err, disk') \<Rightarrow>
          \<lparr>app_result = Inl (case err of
               WithContext _ source \<Rightarrow> IoErr (lit ''I/O error'') source
             | _ \<Rightarrow> IoErr (show_hunk_error err) (show_hunk_error err)),
           app_stdout = [], app_stderr = show_hunk_error err @ [10], app_disk = disk'\<rparr>)"

definition apply_patch :: "'k disk_env \<Rightarrow> rstr \<Rightarrow> 'k disk \<Rightarrow> 'k applied" where
  "apply_patch env patch disk =
     (case parse_patch patch of
        Inl e \<Rightarrow>
          \<lparr>app_result = Inl (ParseErr e), app_stdout = [],
           app_stderr = (case e of
               InvalidPatchError m \<Rightarrow> lit ''Invalid patch: '' @ m
             | InvalidHunkError m n \<Rightarrow>
                 lit ''Invalid patch hunk on line '' @ show_nat n @ lit '': '' @ m) @ [10],
           app_disk = disk\<rparr>
      | Inr source \<Rightarrow> apply_hunks env (arg_hunks source) disk)"

section \<open>Invocations\<close>

definition APPLY_PATCH_COMMANDS :: "rstr list" where
  "APPLY_PATCH_COMMANDS = [lit ''apply_patch'', lit ''applypatch'']"

datatype apply_patch_shell = Unix | PowerShell | Cmd

definition classify_shell_name :: "rstr \<Rightarrow> rstr option" where
  "classify_shell_name shell = map_option to_ascii_lowercase (file_stem shell)"

definition classify_shell :: "rstr \<Rightarrow> rstr \<Rightarrow> apply_patch_shell option" where
  "classify_shell shell flag =
     (case classify_shell_name shell of
        None \<Rightarrow> None
      | Some name \<Rightarrow>
         if name \<in> {lit ''bash'', lit ''zsh'', lit ''sh''} \<and> flag \<in> {lit ''-lc'', lit ''-c''}
         then Some Unix
         else if name \<in> {lit ''pwsh'', lit ''powershell''} \<and>
                 eq_ignore_ascii_case flag (lit ''-command'') then Some PowerShell
         else if name = lit ''cmd'' \<and> eq_ignore_ascii_case flag (lit ''/c'') then Some Cmd
         else None)"

definition can_skip_flag :: "rstr \<Rightarrow> rstr \<Rightarrow> bool" where
  "can_skip_flag shell flag =
     (case classify_shell_name shell of
        None \<Rightarrow> False
      | Some name \<Rightarrow> name \<in> {lit ''pwsh'', lit ''powershell''} \<and>
                     eq_ignore_ascii_case flag (lit ''-noprofile''))"

definition parse_shell_script :: "rstr list \<Rightarrow> (apply_patch_shell \<times> rstr) option" where
  "parse_shell_script argv =
     (case argv of
        [shell, flag, script] \<Rightarrow> map_option (\<lambda>t. (t, script)) (classify_shell shell flag)
      | [shell, skip_flag, flag, script] \<Rightarrow>
          if can_skip_flag shell skip_flag
          then map_option (\<lambda>t. (t, script)) (classify_shell shell flag) else None
      | _ \<Rightarrow> None)"

datatype extract_heredoc_error =
    CommandDidNotStartWithApplyPatch
  | FailedToLoadBashGrammar
  | HeredocNotUtf8
  | FailedToParsePatchIntoAst
  | FailedToFindHeredocBody

text \<open>
  The captures of one match of the tree-sitter query; the query itself, run on a script, is the
  parameter \<open>query\<close>, which gives the matches in order or the error of the parser.
\<close>

datatype capture = HeredocCapture rstr | CdPathCapture rstr | CdRawStringCapture rstr | OtherCapture

type_synonym bash_query = "rstr \<Rightarrow> extract_heredoc_error + capture list list"

fun read_captures :: "capture list \<Rightarrow> rstr option \<times> rstr option \<Rightarrow> rstr option \<times> rstr option" where
  "read_captures [] s = s"
| "read_captures (HeredocCapture t # cs) (_, cd) =
     read_captures cs (Some (trim_end_matches (\<lambda>c. c = 10) t), cd)"
| "read_captures (CdPathCapture t # cs) (h, _) = read_captures cs (h, Some t)"
| "read_captures (CdRawStringCapture raw # cs) (h, _) =
     read_captures cs (h, Some (case Option.bind (strip_prefix raw [39]) (\<lambda>t. strip_suffix t [39]) of
        Some t \<Rightarrow> t | None \<Rightarrow> raw))"
| "read_captures (OtherCapture # cs) s = read_captures cs s"

fun first_heredoc :: "capture list list \<Rightarrow> extract_heredoc_error + rstr \<times> rstr option" where
  "first_heredoc [] = Inl CommandDidNotStartWithApplyPatch"
| "first_heredoc (m # ms) =
     (case read_captures m (None, None) of
        (Some heredoc, cd_path) \<Rightarrow> Inr (heredoc, cd_path)
      | (None, _) \<Rightarrow> first_heredoc ms)"

definition extract_apply_patch_from_bash ::
    "bash_query \<Rightarrow> rstr \<Rightarrow> extract_heredoc_error + rstr \<times> rstr option" where
  "extract_apply_patch_from_bash query src = and_then (query src) first_heredoc"

fun extract_apply_patch_from_shell ::
    "bash_query \<Rightarrow> apply_patch_shell \<Rightarrow> rstr \<Rightarrow> extract_heredoc_error + rstr \<times> rstr option" where
  "extract_apply_patch_from_shell query Unix script = extract_apply_patch_from_bash query script"
| "extract_apply_patch_from_shell query PowerShell script = extract_apply_patch_from_bash query script"
| "extract_apply_patch_from_shell query Cmd script = extract_apply_patch_from_bash query script"

datatype maybe_apply_patch =
    Body apply_patch_args
  | ShellParseError extract_heredoc_error
  | PatchParseError parse_error
  | NotApplyPatch

definition from_extracted ::
    "extract_heredoc_error + rstr \<times> rstr option \<Rightarrow> maybe_apply_patch" where
  "from_extracted r =
     (case r of
        Inr (body, workdir) \<Rightarrow>
          (case parse_patch body of
             Inr source \<Rightarrow> Body (source\<lparr>arg_workdir := workdir\<rparr>) | Inl e \<Rightarrow> PatchParseError e)
      | Inl CommandDidNotStartWithApplyPatch \<Rightarrow> NotApplyPatch
      | Inl e \<Rightarrow> ShellParseError e)"

definition maybe_parse_apply_patch :: "bash_query \<Rightarrow> rstr list \<Rightarrow> maybe_apply_patch" where
  "maybe_parse_apply_patch query argv =
     (let shell_form =
            (case parse_shell_script argv of
               Some (shell, script) \<Rightarrow> from_extracted (extract_apply_patch_from_shell query shell script)
             | None \<Rightarrow> NotApplyPatch)
      in case argv of
           [script] \<Rightarrow> from_extracted (extract_apply_patch_from_bash query script)
         | [cmd, body] \<Rightarrow>
             if cmd \<in> set APPLY_PATCH_COMMANDS
             then (case parse_patch body of Inr source \<Rightarrow> Body source | Inl e \<Rightarrow> PatchParseError e)
             else shell_form
         | _ \<Rightarrow> shell_form)"

section \<open>Verified changes\<close>

datatype file_change =
    Add rstr
  | Delete rstr
  | Update rstr "rstr option" rstr

type_synonym changes = "(rstr \<times> file_change) list"

text \<open>\<open>HashMap::insert\<close>: the old key stays when an equal one is inserted.\<close>

fun changes_insert :: "rstr \<Rightarrow> file_change \<Rightarrow> changes \<Rightarrow> changes" where
  "changes_insert path c [] = [(path, c)]"
| "changes_insert path c ((p, d) # cs) =
     (if path_key p = path_key path then (p, c) # cs else (p, d) # changes_insert path c cs)"

record apply_patch_action =
  act_changes :: changes
  act_patch :: rstr
  act_cwd :: rstr

datatype maybe_apply_patch_verified =
    VerifiedBody apply_patch_action
  | VerifiedShellParseError extract_heredoc_error
  | CorrectnessError apply_patch_error
  | VerifiedNotApplyPatch

fun resolve_path :: "hunk \<Rightarrow> rstr \<Rightarrow> rstr" where
  "resolve_path (AddFile path _) cwd = path_join cwd path"
| "resolve_path (DeleteFile path) cwd = path_join cwd path"
| "resolve_path (UpdateFile path _ _) cwd = path_join cwd path"

text \<open>\<open>TextDiff::from_lines(..).unified_diff()\<close> with one line of context, the parameter \<open>diff\<close>.\<close>

type_synonym text_diff = "rstr \<Rightarrow> rstr \<Rightarrow> rstr"

definition unified_diff_from_chunks ::
    "text_diff \<Rightarrow> 'k disk_env \<Rightarrow> rstr \<Rightarrow> update_file_chunk list \<Rightarrow> 'k disk \<Rightarrow>
       (apply_patch_error + rstr \<times> rstr) option" where
  "unified_diff_from_chunks diff env path chunks disk =
     map_option (\<lambda>r. and_then r (\<lambda>(original, new). Inr (diff original new, new)))
       (derive_new_contents_from_chunks env path chunks disk)"

definition change_of ::
    "text_diff \<Rightarrow> 'k disk_env \<Rightarrow> rstr \<Rightarrow> 'k disk \<Rightarrow> hunk \<Rightarrow> apply_patch_error + file_change" where
  "change_of diff env cwd disk h =
     (let path = resolve_path h cwd
      in case h of
           AddFile _ contents \<Rightarrow> Inr (Add contents)
         | DeleteFile _ \<Rightarrow>
             (case read_disk env path disk of
                Inr content \<Rightarrow> Inr (Delete content)
              | Inl e \<Rightarrow> Inl (IoErr (lit ''Failed to read '' @ path) e))
         | UpdateFile _ move_path chunks \<Rightarrow>
             (case unified_diff_from_chunks diff env path chunks disk of
                None \<Rightarrow> Inl (IoErr (lit ''panic'') [])
              | Some (Inl e) \<Rightarrow> Inl e
              | Some (Inr (unified_diff, contents)) \<Rightarrow>
                  Inr (Update unified_diff (map_option (path_join cwd) move_path) contents)))"

fun changes_loop ::
    "text_diff \<Rightarrow> 'k disk_env \<Rightarrow> rstr \<Rightarrow> 'k disk \<Rightarrow> hunk list \<Rightarrow> changes \<Rightarrow>
       apply_patch_error + changes" where
  "changes_loop diff env cwd disk [] cs = Inr cs"
| "changes_loop diff env cwd disk (h # hs) cs =
     and_then (change_of diff env cwd disk h) (\<lambda>c.
       changes_loop diff env cwd disk hs (changes_insert (resolve_path h cwd) c cs))"

definition maybe_parse_apply_patch_verified ::
    "bash_query \<Rightarrow> text_diff \<Rightarrow> 'k disk_env \<Rightarrow> rstr list \<Rightarrow> rstr \<Rightarrow> 'k disk \<Rightarrow>
       maybe_apply_patch_verified" where
  "maybe_parse_apply_patch_verified query diff env argv cwd disk =
     (if argv \<noteq> [] \<and> hd argv \<in> set APPLY_PATCH_COMMANDS \<and>
         list_ex (\<lambda>arg. starts_with (trim_start arg) (lit ''<<'')) (tl argv)
      then CorrectnessError MalformedHeredocInvocation
      else if length argv = 1 \<and> \<not> isl (parse_patch (hd argv)) then CorrectnessError ImplicitInvocation
      else if (case parse_shell_script argv of
                 Some (_, script) \<Rightarrow> \<not> isl (parse_patch script) | None \<Rightarrow> False)
      then CorrectnessError ImplicitInvocation
      else (case maybe_parse_apply_patch query argv of
          Body source \<Rightarrow>
           (let effective_cwd =
                  (case arg_workdir source of
                     Some dir \<Rightarrow> if is_absolute dir then dir else path_join cwd dir
                   | None \<Rightarrow> cwd)
            in case changes_loop diff env effective_cwd disk (arg_hunks source) [] of
                 Inl e \<Rightarrow> CorrectnessError e
               | Inr cs \<Rightarrow> VerifiedBody \<lparr>act_changes = cs, act_patch = arg_patch source,
                                         act_cwd = effective_cwd\<rparr>)
        | ShellParseError e \<Rightarrow> VerifiedShellParseError e
        | PatchParseError e \<Rightarrow> CorrectnessError (ParseErr e)
        | NotApplyPatch \<Rightarrow> VerifiedNotApplyPatch))"

section \<open>Lemmas\<close>

lemma derive_never_panics: "derive_new_contents_from_chunks env path chunks disk \<noteq> None"
proof (cases "read_disk env path disk")
  case (Inr original)
  have "new_contents_from_chunks path original chunks \<noteq> None"
    using replacements_no_panic [of "file_lines original" path chunks]
    by (cases "compute_replacements (file_lines original) path chunks")
      (auto simp: new_contents_from_chunks_def Let_def)
  with Inr show ?thesis by (simp add: derive_new_contents_from_chunks_def)
qed (simp add: derive_new_contents_from_chunks_def)

text \<open>The hunk with its paths resolved, and what a change means for the disk.\<close>

fun resolve_hunk :: "rstr \<Rightarrow> hunk \<Rightarrow> hunk" where
  "resolve_hunk cwd (AddFile path contents) = AddFile (path_join cwd path) contents"
| "resolve_hunk cwd (DeleteFile path) = DeleteFile (path_join cwd path)"
| "resolve_hunk cwd (UpdateFile path move_path chunks) =
     UpdateFile (path_join cwd path) (map_option (path_join cwd) move_path) chunks"

fun apply_change :: "'k disk_env \<Rightarrow> rstr \<times> file_change \<Rightarrow> 'k disk \<Rightarrow> 'k disk" where
  "apply_change env (path, Add contents) disk = disk(os_path env path \<mapsto> contents)"
| "apply_change env (path, Delete _) disk = disk(os_path env path := None)"
| "apply_change env (path, Update _ None contents) disk = disk(os_path env path \<mapsto> contents)"
| "apply_change env (path, Update _ (Some dest) contents) disk =
     disk(os_path env dest \<mapsto> contents, os_path env path := None)"

text \<open>The files a hunk touches.\<close>

fun touched :: "'k disk_env \<Rightarrow> rstr \<Rightarrow> hunk \<Rightarrow> 'k list" where
  "touched env cwd (AddFile path _) = [os_path env (path_join cwd path)]"
| "touched env cwd (DeleteFile path) = [os_path env (path_join cwd path)]"
| "touched env cwd (UpdateFile path None _) = [os_path env (path_join cwd path)]"
| "touched env cwd (UpdateFile path (Some dest) _) =
     [os_path env (path_join cwd path), os_path env (path_join cwd dest)]"

definition no_faults :: "'k disk_env \<Rightarrow> bool" where
  "no_faults env \<longleftrightarrow> (\<forall>opn. io_fault env opn = None)"

definition keys_name_files :: "'k disk_env \<Rightarrow> bool" where
  "keys_name_files env \<longleftrightarrow> (\<forall>p q. path_key p = path_key q \<longrightarrow> os_path env p = os_path env q)"

lemma no_faults_simps:
  assumes "no_faults env"
  shows "read_disk env path disk =
      (case disk (os_path env path) of None \<Rightarrow> Inl (not_found env) | Some c \<Rightarrow> Inr c)"
    and "write_disk env path contents disk = Inr (disk(os_path env path \<mapsto> contents))"
    and "remove_disk env path disk = (if disk (os_path env path) = None then Inl (not_found env)
      else Inr (disk(os_path env path := None)))"
    and "create_parents env path = Inr ()"
  using assms by (simp_all add: no_faults_def read_disk_def write_disk_def remove_disk_def
      create_parents_def with_context_def)

lemma touched_resolve: "os_path env (resolve_path h cwd) \<in> set (touched env cwd h)"
  by (cases h; cases "case h of UpdateFile _ m _ \<Rightarrow> m | _ \<Rightarrow> None") auto

lemma derive_same:
  assumes "no_faults env" and "d (os_path env path) = disk (os_path env path)"
  shows "derive_new_contents_from_chunks env path chunks d =
    derive_new_contents_from_chunks env path chunks disk"
  using assms by (simp add: derive_new_contents_from_chunks_def no_faults_simps)

lemma derived_of_change:
  assumes "change_of diff env cwd disk (UpdateFile path move chunks) = Inr c"
  obtains original contents where "c = Update (diff original contents) (map_option (path_join cwd) move) contents"
    and "derive_new_contents_from_chunks env (path_join cwd path) chunks disk =
      Some (Inr (original, contents))"
proof -
  obtain r where r: "derive_new_contents_from_chunks env (path_join cwd path) chunks disk = Some r"
    using derive_never_panics by blast
  with assms that show thesis
    by (cases r) (auto simp: change_of_def unified_diff_from_chunks_def)
qed

lemma derive_reads:
  "no_faults env \<Longrightarrow> derive_new_contents_from_chunks env path chunks disk = Some (Inr r) \<Longrightarrow>
    disk (os_path env path) \<noteq> None"
  by (auto simp: derive_new_contents_from_chunks_def no_faults_simps split: option.splits)

lemma apply_hunk_of_change:
  assumes "no_faults env" and "change_of diff env cwd disk h = Inr c" and "distinct (touched env cwd h)"
    and same: "d (os_path env (resolve_path h cwd)) = disk (os_path env (resolve_path h cwd))"
  shows "\<exists>aff'. apply_hunk env (resolve_hunk cwd h) (aff, d) =
    Inr (aff', apply_change env (resolve_path h cwd, c) d)"
proof (cases h)
  case (AddFile path contents)
  with assms show ?thesis by (auto simp: no_faults_simps with_context_def change_of_def)
next
  case (DeleteFile path)
  with assms show ?thesis
    by (auto simp: no_faults_simps with_context_def change_of_def Let_def split: option.splits)
next
  case (UpdateFile path move chunks)
  obtain original contents where
    c: "c = Update (diff original contents) (map_option (path_join cwd) move) contents"
    and derive: "derive_new_contents_from_chunks env (path_join cwd path) chunks disk =
      Some (Inr (original, contents))"
    using assms(2) unfolding UpdateFile by (rule derived_of_change)
  have d: "derived_contents env (path_join cwd path) chunks d = Inr contents"
    using derive derive_same [OF assms(1), of d "path_join cwd path" disk] same UpdateFile
    by (simp add: derived_contents_def)
  have "d (os_path env (path_join cwd path)) \<noteq> None"
    using derive_reads [OF assms(1) derive] same UpdateFile by simp
  then show ?thesis
    using UpdateFile c d assms(1,3) by (cases move) (auto simp: no_faults_simps with_context_def)
qed

lemma apply_change_other:
  assumes "change_of diff env cwd disk h = Inr c" and "k \<notin> set (touched env cwd h)"
  shows "apply_change env (resolve_path h cwd, c) d k = d k"
proof (cases h)
  case (UpdateFile path move chunks)
  obtain original contents where
    "c = Update (diff original contents) (map_option (path_join cwd) move) contents"
    using assms(1) unfolding UpdateFile by (rule derived_of_change)
  with UpdateFile assms(2) show ?thesis by (cases move) auto
qed (use assms in \<open>auto simp: change_of_def Let_def split: sum.splits\<close>)

fun change_list ::
    "text_diff \<Rightarrow> 'k disk_env \<Rightarrow> rstr \<Rightarrow> 'k disk \<Rightarrow> hunk list \<Rightarrow> apply_patch_error + changes" where
  "change_list diff env cwd disk [] = Inr []"
| "change_list diff env cwd disk (h # hs) =
     and_then (change_of diff env cwd disk h) (\<lambda>c.
     and_then (change_list diff env cwd disk hs) (\<lambda>cs. Inr ((resolve_path h cwd, c) # cs)))"

lemma changes_insert_new:
  "path_key p \<notin> (path_key \<circ> fst) ` set cs \<Longrightarrow> changes_insert p c cs = cs @ [(p, c)]"
  by (induction cs) auto

lemma changes_loop_distinct:
  assumes "distinct (map (\<lambda>h. path_key (resolve_path h cwd)) hs)"
    and "\<forall>h \<in> set hs. path_key (resolve_path h cwd) \<notin> (path_key \<circ> fst) ` set acc"
  shows "changes_loop diff env cwd disk hs acc =
    and_then (change_list diff env cwd disk hs) (\<lambda>cs. Inr (acc @ cs))"
  using assms
proof (induction hs arbitrary: acc)
  case (Cons h hs)
  show ?case
  proof (cases "change_of diff env cwd disk h")
    case (Inr c)
    have "changes_loop diff env cwd disk hs (acc @ [(resolve_path h cwd, c)]) =
        and_then (change_list diff env cwd disk hs) (\<lambda>cs. Inr ((acc @ [(resolve_path h cwd, c)]) @ cs))"
    proof (rule Cons.IH)
      show "distinct (map (\<lambda>h. path_key (resolve_path h cwd)) hs)"
        using Cons.prems(1) by simp
      have "path_key (resolve_path h' cwd) \<noteq> path_key (resolve_path h cwd)" if "h' \<in> set hs" for h'
        using Cons.prems(1) that by (auto simp: image_iff)
      then show "\<forall>h' \<in> set hs. path_key (resolve_path h' cwd) \<notin>
          (path_key \<circ> fst) ` set (acc @ [(resolve_path h cwd, c)])"
        using Cons.prems(2) by auto
    qed
    with Inr Cons.prems show ?thesis
      by (cases "change_list diff env cwd disk hs") (simp_all add: changes_insert_new)
  qed simp
qed simp

lemma apply_loop_of_changes:
  assumes "no_faults env" and "change_list diff env cwd disk hs = Inr cs"
    and "distinct (concat (map (touched env cwd) hs))"
    and "\<forall>h \<in> set hs. \<forall>k \<in> set (touched env cwd h). d k = disk k"
  shows "\<exists>aff'. apply_hunks_loop env (map (resolve_hunk cwd) hs) (aff, d) =
    (Inr aff', fold (apply_change env) cs d)"
  using assms(2-4)
proof (induction hs arbitrary: cs aff d)
  case (Cons h hs)
  then obtain c cs' where c: "change_of diff env cwd disk h = Inr c"
      "change_list diff env cwd disk hs = Inr cs'" "cs = (resolve_path h cwd, c) # cs'"
    by auto
  have dist: "distinct (touched env cwd h)" "distinct (concat (map (touched env cwd) hs))"
      "set (touched env cwd h) \<inter> set (concat (map (touched env cwd) hs)) = {}"
    using Cons.prems(2) by auto
  have "d (os_path env (resolve_path h cwd)) = disk (os_path env (resolve_path h cwd))"
    using Cons.prems(3) touched_resolve [of env h cwd] by simp
  then obtain aff1 where step: "apply_hunk env (resolve_hunk cwd h) (aff, d) =
      Inr (aff1, apply_change env (resolve_path h cwd, c) d)"
    using apply_hunk_of_change [OF assms(1) c(1) dist(1)] by blast
  have "\<forall>h' \<in> set hs. \<forall>k \<in> set (touched env cwd h').
      apply_change env (resolve_path h cwd, c) d k = disk k"
    using Cons.prems(3) dist(3) apply_change_other [OF c(1)] by fastforce
  then obtain aff' where "apply_hunks_loop env (map (resolve_hunk cwd) hs)
      (aff1, apply_change env (resolve_path h cwd, c) d) =
      (Inr aff', fold (apply_change env) cs' (apply_change env (resolve_path h cwd, c) d))"
    using Cons.IH [OF c(2) dist(2)] by blast
  with step c(3) show ?case by auto
qed simp

text \<open>A disk without faults on which every path text names its own file.\<close>

definition sample_disk_env :: "rstr list disk_env" where
  "sample_disk_env = \<lparr>os_path = path_key, io_fault = (\<lambda>_. None), not_found = []\<rparr>"

lemma sample_disk_env_ok: "no_faults sample_disk_env" "keys_name_files sample_disk_env"
  by (simp_all add: sample_disk_env_def no_faults_def keys_name_files_def)

section \<open>Properties\<close>

text \<open>
  (C11) What was verified is what is applied. If an invocation is verified to a set of changes, its
  hunks touch pairwise different files and no file operation fails, then applying the patch in the
  verified working directory succeeds, and the disk afterwards is the disk before with exactly the
  verified changes made: added and updated files have the verified contents, deleted and moved
  files are gone.
\<close>

theorem verified_changes_are_applied:
  assumes "maybe_parse_apply_patch_verified query diff env argv cwd disk = VerifiedBody action"
    and "maybe_parse_apply_patch query argv = Body source" and "arg_hunks source \<noteq> []"
    and "no_faults env" and "keys_name_files env"
    and "distinct (concat (map (touched env (act_cwd action)) (arg_hunks source)))"
  shows "\<exists>aff. apply_hunks_to_files env (map (resolve_hunk (act_cwd action)) (arg_hunks source)) disk =
    (Inr aff, fold (apply_change env) (act_changes action) disk)"
proof -
  let ?hs = "arg_hunks source" and ?cwd = "act_cwd action"
  have "changes_loop diff env ?cwd disk ?hs [] = Inr (act_changes action)"
    using assms(1,2)
    by (auto simp: maybe_parse_apply_patch_verified_def Let_def split: if_split_asm sum.splits)
  moreover have "distinct (map (\<lambda>h. path_key (resolve_path h ?cwd)) hs)"
    if "distinct (concat (map (touched env ?cwd) hs))" for hs
    using that
  proof (induction hs)
    case (Cons h hs)
    have "path_key (resolve_path h ?cwd) \<noteq> path_key (resolve_path h' ?cwd)" if "h' \<in> set hs" for h'
    proof
      assume "path_key (resolve_path h ?cwd) = path_key (resolve_path h' ?cwd)"
      then have "os_path env (resolve_path h ?cwd) = os_path env (resolve_path h' ?cwd)"
        using assms(5) unfolding keys_name_files_def by blast
      then show False
        using Cons.prems that touched_resolve [of env h ?cwd] touched_resolve [of env h' ?cwd] by auto
    qed
    with Cons show ?case by auto
  qed simp
  ultimately have "change_list diff env ?cwd disk ?hs = Inr (act_changes action)"
    using changes_loop_distinct [of ?cwd ?hs "[]" diff env disk] assms(6) by auto
  then show ?thesis
    using apply_loop_of_changes [OF assms(4) _ assms(6), of diff disk "act_changes action" disk] assms(3)
    by (simp add: apply_hunks_to_files_def)
qed

theorem verified_changes_are_applied_witness:
  "\<exists>aff. apply_hunks_to_files sample_disk_env
      (map (resolve_hunk (lit ''/w'')) [AddFile (lit ''a'') (lit ''x'' @ [10]), DeleteFile (lit ''b'')])
      (Map.empty(path_key (lit ''/w/b'') \<mapsto> lit ''old'')) =
    (Inr aff, fold (apply_change sample_disk_env)
       [(lit ''/w/a'', Add (lit ''x'' @ [10])), (lit ''/w/b'', Delete (lit ''old''))]
       (Map.empty(path_key (lit ''/w/b'') \<mapsto> lit ''old'')))"
proof -
  let ?hs = "[AddFile (lit ''a'') (lit ''x'' @ [10]), DeleteFile (lit ''b'')]"
  let ?disk = "Map.empty(path_key (lit ''/w/b'') \<mapsto> lit ''old'')"
  let ?cs = "[(lit ''/w/a'', Add (lit ''x'' @ [10])), (lit ''/w/b'', Delete (lit ''old''))]"
  let ?query = "\<lambda>_. Inl CommandDidNotStartWithApplyPatch :: extract_heredoc_error + capture list list"
  let ?diff = "\<lambda>_ _. []" and ?argv = "[lit ''apply_patch'', render_patch ?hs]"
  let ?source = "\<lparr>arg_patch = render_patch ?hs, arg_hunks = ?hs, arg_workdir = None\<rparr>"
  have parse: "parse_patch (render_patch ?hs) = Inr ?source"
    using parse_render_plain [of ?hs]
    by (simp add: path_ok_def line_ok_def is_whitespace_def lit_def)
  have body: "maybe_parse_apply_patch ?query ?argv = Body ?source"
    by (simp add: maybe_parse_apply_patch_def APPLY_PATCH_COMMANDS_def parse Let_def)
  have "trim_start (render_patch ?hs) = render_patch ?hs \<and> \<not> starts_with (render_patch ?hs) (lit ''<<'')"
    by (simp add: render_patch_def render_lines_def markers str_eval)
  moreover have "changes_loop ?diff sample_disk_env (lit ''/w'') ?disk ?hs [] = Inr ?cs"
    by (simp add: change_of_def sample_disk_env_def read_disk_def path_join_def is_absolute_def
        path_key_def path_parts_def str_eval)
  ultimately have verified: "maybe_parse_apply_patch_verified ?query ?diff sample_disk_env ?argv
      (lit ''/w'') ?disk = VerifiedBody \<lparr>act_changes = ?cs, act_patch = render_patch ?hs,
        act_cwd = lit ''/w''\<rparr>"
    unfolding maybe_parse_apply_patch_verified_def body
    by (simp add: parse_shell_script_def APPLY_PATCH_COMMANDS_def Let_def del: changes_loop.simps)
  show ?thesis
    using verified_changes_are_applied [OF verified body] sample_disk_env_ok
    by (simp add: sample_disk_env_def path_join_def is_absolute_def path_key_def path_parts_def str_eval)
qed

text \<open>One round of the loop over the hunks, and the files it may change.\<close>

definition hunk_step ::
    "'k disk_env \<Rightarrow> hunk \<Rightarrow> affected_paths \<Rightarrow> 'k disk \<Rightarrow> (hunk_error + affected_paths) \<times> 'k disk" where
  "hunk_step env h aff disk =
     (case apply_hunk env h (aff, disk) of
        Inl e \<Rightarrow> (Inl e, disk_after_failure env h disk)
      | Inr (aff', disk') \<Rightarrow> (Inr aff', disk'))"

fun hunk_keys :: "'k disk_env \<Rightarrow> hunk \<Rightarrow> 'k set" where
  "hunk_keys env (UpdateFile path (Some dest) _) = {os_path env path, os_path env dest}"
| "hunk_keys env (AddFile path _) = {os_path env path}"
| "hunk_keys env (DeleteFile path) = {os_path env path}"
| "hunk_keys env (UpdateFile path None _) = {os_path env path}"

lemma hunk_step_Inl:
  "hunk_step env h aff d = (Inl e, d') \<longleftrightarrow>
     apply_hunk env h (aff, d) = Inl e \<and> d' = disk_after_failure env h d"
  by (auto simp: hunk_step_def split: sum.split)

lemma write_disk_frame: "write_disk env p c d = Inr d' \<Longrightarrow> k \<noteq> os_path env p \<Longrightarrow> d' k = d k"
  by (auto simp: write_disk_def split: option.splits)

lemma remove_disk_frame: "remove_disk env p d = Inr d' \<Longrightarrow> k \<noteq> os_path env p \<Longrightarrow> d' k = d k"
  by (auto simp: remove_disk_def split: option.splits if_splits)

lemma with_context_Inr [simp]: "with_context r c = Inr a \<longleftrightarrow> r = Inr a"
  by (simp add: with_context_def split: sum.split)

lemma with_context_case:
  "(case with_context r c of Inl e \<Rightarrow> Inl e | Inr a \<Rightarrow> Inr (f a)) = Inr s \<longleftrightarrow> (\<exists>a. r = Inr a \<and> s = f a)"
  by (cases r) (auto simp: with_context_def)

lemma apply_move_Inr:
  "apply_hunk env (UpdateFile path (Some dest) chunks) (aff, d) = Inr s \<longleftrightarrow>
     (\<exists>new d1 d2. derived_contents env path chunks d = Inr new \<and> create_parents env dest = Inr () \<and>
        write_disk env dest new d = Inr d1 \<and> remove_disk env path d1 = Inr d2 \<and>
        s = (aff\<lparr>modified := modified aff @ [dest]\<rparr>, d2))"
  by (auto simp: with_context_case)

lemma hunk_step_frame:
  assumes "k \<notin> hunk_keys env h"
  shows "snd (hunk_step env h aff d) k = d k"
proof (cases "apply_hunk env h (aff, d)")
  case (Inl e)
  then show ?thesis
    using assms
    by (cases "(env, h, d)" rule: disk_after_failure.cases)
      (auto simp: hunk_step_def split: sum.split dest: write_disk_frame)
next
  case (Inr s)
  then have "snd s k = d k"
    using assms
    by (cases "(env, h)" rule: hunk_keys.cases)
      (auto simp: apply_move_Inr simp del: apply_hunk.simps(4)
        dest!: write_disk_frame remove_disk_frame)
  then show ?thesis
    using Inr by (simp add: hunk_step_def split_beta)
qed

interpretation hunk_steps:
  framed_steps "hunk_step env" "\<lambda>hs aff d. apply_hunks_loop env hs (aff, d)" "hunk_keys env" for env
proof
  show "apply_hunks_loop env (h # hs) (aff, d) =
      (case hunk_step env h aff d of
         (r, d1) \<Rightarrow> (case r of Inl e \<Rightarrow> (Inl e, d1) | Inr aff1 \<Rightarrow> apply_hunks_loop env hs (aff1, d1)))"
    for h hs aff d
    by (auto simp: hunk_step_def split: sum.split)
qed (simp_all add: hunk_step_frame)

text \<open>
  A patch is not atomic. When applying hunks fails, there is one hunk that failed: all hunks
  before it have been applied and stay applied, none after it has been tried, and the failing hunk
  itself changed nothing unless it is a move whose new file was written before its original could
  not be removed.
\<close>

theorem failed_patch_keeps_prefix:
  assumes "apply_hunks_to_files env hunks disk = (Inl e, disk')" and "hunks \<noteq> []"
  shows "\<exists>k aff d. k < length hunks \<and>
    apply_hunks_loop env (take k hunks) (\<lparr>added = [], modified = [], deleted = []\<rparr>, disk) = (Inr aff, d) \<and>
    apply_hunk env (hunks ! k) (aff, d) = Inl e \<and> disk' = disk_after_failure env (hunks ! k) d"
proof -
  have "apply_hunks_loop env hunks (\<lparr>added = [], modified = [], deleted = []\<rparr>, disk) = (Inl e, disk')"
    using assms by (simp add: apply_hunks_to_files_def)
  from hunk_steps.loop_prefix [OF this] show ?thesis
    by (auto simp: hunk_step_Inl)
qed

theorem failed_patch_keeps_prefix_witness:
  "\<exists>k aff d. k < length [AddFile (lit ''a'') [], DeleteFile (lit ''b'')] \<and>
    apply_hunks_loop sample_disk_env (take k [AddFile (lit ''a'') [], DeleteFile (lit ''b'')])
      (\<lparr>added = [], modified = [], deleted = []\<rparr>, Map.empty) = (Inr aff, d) \<and>
    apply_hunk sample_disk_env ([AddFile (lit ''a'') [], DeleteFile (lit ''b'')] ! k) (aff, d) =
      Inl (WithContext (lit ''Failed to delete file b'') []) \<and>
    Map.empty(path_key (lit ''a'') \<mapsto> []) =
      disk_after_failure sample_disk_env ([AddFile (lit ''a'') [], DeleteFile (lit ''b'')] ! k) d"
  by (rule failed_patch_keeps_prefix)
    (simp_all add: apply_hunks_to_files_def sample_disk_env_def create_parents_def has_parent_dir_def
      is_absolute_def path_parts_def path_key_def with_context_def write_disk_def remove_disk_def
      str_eval)

end
