(* ===== verification/Patch_Approval.thy ===== *)
theory Patch_Approval
  imports Command_Safety Patch_Files
begin

text \<open>
  Approving and writing a patch: \<open>assess_patch_safety\<close> of \<open>code-rs/core/src/safety.rs\<close> and the
  functions of \<open>code-rs/core/src/apply_patch.rs\<close>, on the verified changes of theory \<open>Patch_Files\<close>
  and the policies of theory \<open>Sandbox_Policy\<close>.

  The changes of an action are a \<open>HashMap\<close>; the order in which its iterator visits them is an
  argument of the operations, and the theorems hold for every order. The validation harness only
  reports and is left out.
\<close>

section \<open>Assessing a patch\<close>

text \<open>The closure \<open>is_path_writable\<close> of \<open>is_write_patch_constrained_to_writable_paths\<close>.\<close>

definition patch_path_writable :: "writable_root list \<Rightarrow> rstr \<Rightarrow> rstr \<Rightarrow> bool" where
  "patch_path_writable roots cwd p =
     (let abs_path = normalize_path (if is_absolute p then p else path_join cwd p)
      in list_ex (\<lambda>root. is_path_writable root abs_path) roots)"

fun change_writable :: "writable_root list \<Rightarrow> rstr \<Rightarrow> rstr \<times> file_change \<Rightarrow> bool" where
  "change_writable roots cwd (path, Add _) \<longleftrightarrow> patch_path_writable roots cwd path"
| "change_writable roots cwd (path, Delete _) \<longleftrightarrow> patch_path_writable roots cwd path"
| "change_writable roots cwd (path, Update _ move_path _) \<longleftrightarrow>
     (if \<not> patch_path_writable roots cwd path then False
      else (case move_path of Some dest \<Rightarrow> patch_path_writable roots cwd dest | None \<Rightarrow> True))"

definition is_write_patch_constrained_to_writable_paths ::
    "host_env \<Rightarrow> changes \<Rightarrow> sandbox_policy \<Rightarrow> rstr \<Rightarrow> bool" where
  "is_write_patch_constrained_to_writable_paths host cs sandbox cwd =
     (case sandbox of
        ReadOnly \<Rightarrow> False
      | DangerFullAccess \<Rightarrow> True
      | WorkspaceWrite _ \<Rightarrow>
          list_all (change_writable (get_writable_roots_with_cwd host sandbox cwd) cwd) cs)"

definition assess_patch_safety ::
    "host_env \<Rightarrow> changes \<Rightarrow> ask_for_approval \<Rightarrow> sandbox_policy \<Rightarrow> rstr \<Rightarrow> safety_check" where
  "assess_patch_safety host cs policy sandbox cwd =
     (if cs = [] then RejectCheck (lit ''empty patch'')
      else if sandbox = ReadOnly then
        (case policy of
           Never \<Rightarrow> RejectCheck
             (lit ''write operations require approval but approval policy is set to never'')
         | RejectPrompts config \<Rightarrow>
             (if rejects_sandbox_approval config \<or> rejects_rules_approval config
              then RejectCheck
                (lit ''write operations require approval but approval policy is set to reject'')
              else AskUser)
         | _ \<Rightarrow> AskUser)
      else if policy = UnlessTrusted then AskUser
      else if is_write_patch_constrained_to_writable_paths host cs sandbox cwd \<or> policy = OnFailure then
        (case get_platform_sandbox (host_os host) of
           Some sandbox_type \<Rightarrow> AutoApprove sandbox_type False
         | None \<Rightarrow>
             (if sandbox = DangerFullAccess then AutoApprove NoSandbox False else AskUser))
      else if policy = Never then
        RejectCheck (lit ''writing outside of the project; rejected by user approval settings'')
      else AskUser)"

section \<open>Writing the changes\<close>

definition rename_disk :: "'k disk_env \<Rightarrow> rstr \<Rightarrow> rstr \<Rightarrow> 'k disk \<Rightarrow> rstr + 'k disk" where
  "rename_disk env src dest disk =
     (case io_fault env (RenameFile src dest) of
        Some e \<Rightarrow> Inl e
      | None \<Rightarrow>
          (case disk (os_path env src) of
             None \<Rightarrow> Inl (not_found env)
           | Some c \<Rightarrow> Inr (disk(os_path env src := None, os_path env dest \<mapsto> c))))"

text \<open>
  One round of the loop of \<open>apply_changes_from_apply_patch\<close>: the outcome and the disk, which keeps
  what was done before a failure. A write whose error is passed on without context has the empty
  context.
\<close>

fun apply_one_change ::
    "'k disk_env \<Rightarrow> rstr \<times> file_change \<Rightarrow> affected_paths \<Rightarrow> 'k disk \<Rightarrow>
       (hunk_error + affected_paths) \<times> 'k disk" where
  "apply_one_change env (path, Add content) aff disk =
     (case create_parents env path of
        Inl e \<Rightarrow> (Inl e, disk)
      | Inr _ \<Rightarrow>
          (case write_disk env path content disk of
             Inl e \<Rightarrow> (Inl (WithContext (lit ''Failed to write file '' @ path) e), disk)
           | Inr disk \<Rightarrow> (Inr (aff\<lparr>added := added aff @ [path]\<rparr>), disk)))"
| "apply_one_change env (path, Delete _) aff disk =
     (case remove_disk env path disk of
        Inl e \<Rightarrow> (Inl (WithContext (lit ''Failed to delete file '' @ path) e), disk)
      | Inr disk \<Rightarrow> (Inr (aff\<lparr>deleted := deleted aff @ [path]\<rparr>), disk))"
| "apply_one_change env (path, Update _ (Some dest) new_content) aff disk =
     (case create_parents env dest of
        Inl e \<Rightarrow> (Inl e, disk)
      | Inr _ \<Rightarrow>
          (case rename_disk env path dest disk of
             Inl e \<Rightarrow> (Inl (WithContext (lit ''Failed to rename file '' @ path) e), disk)
           | Inr disk \<Rightarrow>
               (case write_disk env dest new_content disk of
                  Inl e \<Rightarrow> (Inl (Bail e), disk)
                | Inr disk \<Rightarrow>
                    (Inr (aff\<lparr>modified := modified aff @ [dest], deleted := deleted aff @ [path]\<rparr>), disk))))"
| "apply_one_change env (path, Update _ None new_content) aff disk =
     (case write_disk env path new_content disk of
        Inl e \<Rightarrow> (Inl (Bail e), disk)
      | Inr disk \<Rightarrow> (Inr (aff\<lparr>modified := modified aff @ [path]\<rparr>), disk))"

fun apply_changes_loop ::
    "'k disk_env \<Rightarrow> changes \<Rightarrow> affected_paths \<Rightarrow> 'k disk \<Rightarrow> (hunk_error + affected_paths) \<times> 'k disk" where
  "apply_changes_loop env [] aff disk = (Inr aff, disk)"
| "apply_changes_loop env (c # cs) aff disk =
     (case apply_one_change env c aff disk of
        (Inl e, disk) \<Rightarrow> (Inl e, disk)
      | (Inr aff, disk) \<Rightarrow> apply_changes_loop env cs aff disk)"

definition apply_changes_from_apply_patch ::
    "'k disk_env \<Rightarrow> changes \<Rightarrow> 'k disk \<Rightarrow> (hunk_error + affected_paths) \<times> 'k disk" where
  "apply_changes_from_apply_patch env cs disk =
     apply_changes_loop env cs \<lparr>added = [], modified = [], deleted = []\<rparr> disk"

text \<open>Reporting, with the error chain in one line (\<open>{err:#}\<close>); the outcome is always \<open>Ok(())\<close>.\<close>

fun show_error_chain :: "hunk_error \<Rightarrow> rstr" where
  "show_error_chain (WithContext context source) = context @ lit '': '' @ source"
| "show_error_chain err = show_hunk_error err"

record 'k reported =
  rep_stdout :: rstr
  rep_stderr :: rstr
  rep_ok :: bool
  rep_disk :: "'k disk"

definition apply_changes_from_apply_patch_and_report :: "'k disk_env \<Rightarrow> changes \<Rightarrow> 'k disk \<Rightarrow> 'k reported" where
  "apply_changes_from_apply_patch_and_report env cs disk =
     (case apply_changes_from_apply_patch env cs disk of
        (Inr affected, disk') \<Rightarrow>
          \<lparr>rep_stdout = print_summary affected, rep_stderr = [], rep_ok = True, rep_disk = disk'\<rparr>
      | (Inl err, disk') \<Rightarrow>
          \<lparr>rep_stdout = [], rep_stderr = show_error_chain err @ [10], rep_ok = True, rep_disk = disk'\<rparr>)"

section \<open>The tool call\<close>

record apply_patch_run =
  run_auto_approved :: bool
  run_stdout :: rstr
  run_stderr :: rstr
  run_success :: bool

datatype patch_result =
    PatchReply rstr
  | PatchApplied apply_patch_run

text \<open>
  \<open>apply_patch\<close>: the reply that the patch was rejected, or the report of applying it with whether it
  was approved without asking. \<open>decide\<close> is the user's answer and \<open>visit\<close> the order in which the
  changes are visited.
\<close>

definition run_patch ::
    "'k disk_env \<Rightarrow> changes \<Rightarrow> bool \<Rightarrow> 'k disk \<Rightarrow> patch_result \<times> 'k disk" where
  "run_patch env cs auto_approved disk =
     (let result = apply_changes_from_apply_patch_and_report env cs disk
      in (PatchApplied \<lparr>run_auto_approved = auto_approved, run_stdout = rep_stdout result,
            run_stderr = rep_stderr result, run_success = rep_ok result\<rparr>,
          rep_disk result))"

definition apply_patch_call ::
    "'k disk_env \<Rightarrow> host_env \<Rightarrow> ask_for_approval \<Rightarrow> sandbox_policy \<Rightarrow> rstr \<Rightarrow> review_decision \<Rightarrow>
       (changes \<Rightarrow> changes) \<Rightarrow> apply_patch_action \<Rightarrow> 'k disk \<Rightarrow> patch_result \<times> 'k disk" where
  "apply_patch_call env host policy sandbox cwd decide visit action disk =
     (case assess_patch_safety host (act_changes action) policy sandbox cwd of
        AutoApprove _ _ \<Rightarrow> run_patch env (visit (act_changes action)) True disk
      | AskUser \<Rightarrow>
          (case decide of
             Approved \<Rightarrow> run_patch env (visit (act_changes action)) False disk
           | ApprovedForSession \<Rightarrow> run_patch env (visit (act_changes action)) False disk
           | Denied \<Rightarrow> (PatchReply (lit ''patch rejected by user''), disk)
           | Abort \<Rightarrow> (PatchReply (lit ''patch rejected by user''), disk))
      | RejectCheck reason \<Rightarrow> (PatchReply (lit ''patch rejected: '' @ reason), disk))"


section \<open>A patch writes only where it was assessed\<close>

text \<open>The paths a change names.\<close>

fun change_paths :: "rstr \<times> file_change \<Rightarrow> rstr list" where
  "change_paths (path, Update _ (Some dest) _) = [path, dest]"
| "change_paths (path, _) = [path]"

lemma change_writable_iff:
  "change_writable roots cwd c \<longleftrightarrow> list_all (patch_path_writable roots cwd) (change_paths c)"
  by (cases c rule: change_paths.cases) simp_all

lemma rename_disk_frame:
  "rename_disk env p q d = Inr d' \<Longrightarrow> k \<noteq> os_path env p \<Longrightarrow> k \<noteq> os_path env q \<Longrightarrow> d' k = d k"
  by (auto simp: rename_disk_def split: option.splits)

lemma apply_one_change_frame:
  "k \<notin> os_path env ` set (change_paths c) \<Longrightarrow> snd (apply_one_change env c aff disk) k = disk k"
  by (cases c rule: change_paths.cases)
    (auto split: sum.split dest: write_disk_frame remove_disk_frame rename_disk_frame,
      metis write_disk_frame rename_disk_frame)

interpretation core_changes:
  framed_steps "apply_one_change env" "apply_changes_loop env" "\<lambda>c. os_path env ` set (change_paths c)" for env
proof
  show "apply_changes_loop env (c # cs) aff d =
      (case apply_one_change env c aff d of
         (r, d1) \<Rightarrow> (case r of Inl e \<Rightarrow> (Inl e, d1) | Inr aff1 \<Rightarrow> apply_changes_loop env cs aff1 d1))"
    for c cs aff d
    by (auto split: prod.split sum.split)
qed (simp_all add: apply_one_change_frame)

lemma run_patch_disk:
  "snd (run_patch env cs b disk) = snd (apply_changes_from_apply_patch env cs disk)"
  by (auto simp: run_patch_def apply_changes_from_apply_patch_and_report_def Let_def
      split: prod.split sum.split)

lemma auto_approved_constrained:
  assumes "assess_patch_safety host cs policy (WorkspaceWrite w) cwd = AutoApprove t b" and "policy \<noteq> OnFailure"
  shows "list_all (change_writable (get_writable_roots_with_cwd host (WorkspaceWrite w) cwd) cwd) cs"
  using assms
  by (auto simp: assess_patch_safety_def is_write_patch_constrained_to_writable_paths_def
      split: if_splits option.splits)

lemma not_auto_approved:
  assumes "fst (apply_patch_call env host policy sandbox cwd decide visit action disk) = PatchApplied run"
    and "run_auto_approved run"
  shows "\<exists>t b. assess_patch_safety host (act_changes action) policy sandbox cwd = AutoApprove t b"
  using assms
  by (auto simp: apply_patch_call_def run_patch_def Let_def
      split: safety_check.splits review_decision.splits)

text \<open>The absolute normal form in which a path of a patch is assessed.\<close>

definition assessed_path :: "rstr \<Rightarrow> rstr \<Rightarrow> rstr" where
  "assessed_path cwd p = normalize_path (if is_absolute p then p else path_join cwd p)"

lemma patch_path_writable_iff:
  "patch_path_writable roots cwd p \<longleftrightarrow> (\<exists>root \<in> set roots. is_path_writable root (assessed_path cwd p))"
  by (simp add: patch_path_writable_def assessed_path_def list_ex_iff)

lemma path_join_absolute: "is_absolute cwd \<Longrightarrow> is_absolute (path_join cwd p)"
  by (auto simp: path_join_def is_absolute_def starts_with_iff)

lemma assessed_path_no_parent:
  "is_absolute cwd \<Longrightarrow> [46, 46] \<notin> set (path_key (assessed_path cwd p))"
  unfolding assessed_path_def by (intro path_key_normalize_path(2)) (simp add: path_join_absolute)

definition sample_host :: host_env where
  "sample_host = \<lparr>host_os = Linux, is_dir = (\<lambda>_. False), tmpdir_var = None\<rparr>"

definition sample_workspace :: workspace_write where
  "sample_workspace =
     \<lparr>ww_writable_roots = [], ww_network_access = False, ww_exclude_tmpdir_env_var = True,
      ww_exclude_slash_tmp = True, ww_allow_git_writes = True\<rparr>"

definition sample_action :: apply_patch_action where
  "sample_action = \<lparr>act_changes = [(lit ''/w/x/../a'', Add [])], act_patch = [], act_cwd = lit ''/w''\<rparr>"

lemmas sample_patch_defs = sample_host_def sample_workspace_def sample_action_def sample_disk_env_def

lemma sample_patch_approved:
  "assess_patch_safety sample_host (act_changes sample_action) OnRequest (WorkspaceWrite sample_workspace)
     (lit ''/w'') = AutoApprove LinuxSeccomp False"
  by (simp add: assess_patch_safety_def is_write_patch_constrained_to_writable_paths_def sample_patch_defs
      get_writable_roots_with_cwd_def writable_root_of_def patch_path_writable_def is_path_writable_def
      path_starts_with_def get_platform_sandbox_def normalize_path_def normalize_component_def
      render_path_def path_join_def path_key_def path_parts_def is_absolute_def Let_def str_eval)

lemma sample_patch_run:
  "\<exists>run. apply_patch_call sample_disk_env sample_host OnRequest (WorkspaceWrite sample_workspace)
      (lit ''/w'') Denied (\<lambda>cs. cs) sample_action Map.empty =
      (PatchApplied run, Map.empty(path_key (lit ''/w/x/../a'') \<mapsto> [])) \<and> run_auto_approved run"
  by (simp add: apply_patch_call_def sample_patch_approved run_patch_def
      apply_changes_from_apply_patch_and_report_def apply_changes_from_apply_patch_def)
    (simp add: sample_action_def sample_disk_env_def create_parents_def with_context_def write_disk_def)

text \<open> (C1)
  A patch that is applied without asking changes only files it names, and these stay inside the
  workspace unless the policy is to ask only after a failure. Under a workspace policy, with an absolute
  directory of the session: whatever file such a patch changes, even when applying it fails half way and
  in whatever order its changes are visited, is the file of a path of one of its changes; the normal form
  of that path has no parent component and, for every approval policy but \<open>on-failure\<close>, lies under a
  writable root and under none of the root's read-only subpaths.
\<close>

theorem auto_approved_patch_confined:
  assumes "fst (apply_patch_call env host policy (WorkspaceWrite w) cwd decide visit action disk) = PatchApplied run"
    and "run_auto_approved run" and "is_absolute cwd"
    and "set (visit (act_changes action)) = set (act_changes action)"
    and "snd (apply_patch_call env host policy (WorkspaceWrite w) cwd decide visit action disk) k \<noteq> disk k"
  shows "\<exists>c \<in> set (act_changes action). \<exists>p \<in> set (change_paths c). os_path env p = k \<and>
    [46, 46] \<notin> set (path_key (assessed_path cwd p)) \<and>
    (policy = OnFailure \<or>
     (\<exists>root \<in> set (get_writable_roots_with_cwd host (WorkspaceWrite w) cwd).
        is_path_writable root (assessed_path cwd p)))"
proof -
  let ?roots = "get_writable_roots_with_cwd host (WorkspaceWrite w) cwd"
  obtain t b where auto: "assess_patch_safety host (act_changes action) policy (WorkspaceWrite w) cwd = AutoApprove t b"
    using not_auto_approved [OF assms(1,2)] by blast
  have "snd (apply_changes_from_apply_patch env (visit (act_changes action)) disk) k \<noteq> disk k"
    using assms(5) by (simp add: apply_patch_call_def auto run_patch_disk)
  then obtain c where c: "c \<in> set (act_changes action)" "k \<in> os_path env ` set (change_paths c)"
    using core_changes.loop_changes assms(4) unfolding apply_changes_from_apply_patch_def by metis
  then obtain p where p: "os_path env p = k" "p \<in> set (change_paths c)"
    by auto
  have "patch_path_writable ?roots cwd p" if "policy \<noteq> OnFailure"
  proof -
    have "change_writable ?roots cwd c"
      using auto_approved_constrained [OF auto that] c(1) by (simp add: list_all_iff)
    then show ?thesis
      using p(2) by (simp add: change_writable_iff list_all_iff)
  qed
  then show ?thesis
    using c(1) p assessed_path_no_parent [OF assms(3)] by (auto simp: patch_path_writable_iff)
qed

theorem auto_approved_patch_confined_witness:
  "\<exists>c \<in> set (act_changes sample_action). \<exists>p \<in> set (change_paths c).
    os_path sample_disk_env p = path_key (lit ''/w/x/../a'') \<and>
    [46, 46] \<notin> set (path_key (assessed_path (lit ''/w'') p)) \<and>
    (OnRequest = OnFailure \<or>
     (\<exists>root \<in> set (get_writable_roots_with_cwd sample_host (WorkspaceWrite sample_workspace) (lit ''/w'')).
       is_path_writable root (assessed_path (lit ''/w'') p)))"
proof -
  obtain run where run: "apply_patch_call sample_disk_env sample_host OnRequest (WorkspaceWrite sample_workspace)
      (lit ''/w'') Denied (\<lambda>cs. cs) sample_action Map.empty =
      (PatchApplied run, Map.empty(path_key (lit ''/w/x/../a'') \<mapsto> []))" "run_auto_approved run"
    using sample_patch_run by blast
  moreover have "is_absolute (lit ''/w'')"
    by (simp add: is_absolute_def str_eval)
  ultimately show ?thesis
    by (intro auto_approved_patch_confined [of sample_disk_env sample_host OnRequest sample_workspace
          "lit ''/w''" Denied "\<lambda>cs. cs" sample_action Map.empty run]) simp_all
qed

text \<open>
  The exception is real. Under \<open>on-failure\<close> every patch that is not empty is approved where a sandbox
  exists, whatever it names, and it is then written by the process itself, which is in no sandbox.
\<close>

lemma on_failure_patch_approved:
  assumes "cs \<noteq> []" and "sandbox \<noteq> ReadOnly" and "get_platform_sandbox (host_os host) = Some t"
  shows "assess_patch_safety host cs OnFailure sandbox cwd = AutoApprove t False"
  using assms by (simp add: assess_patch_safety_def)

lemma on_failure_patch_writes_anywhere:
  "\<exists>run. apply_patch_call sample_disk_env sample_host OnFailure (WorkspaceWrite sample_workspace) (lit ''/w'') Denied
      (\<lambda>cs. cs) (sample_action\<lparr>act_changes := [(lit ''/etc/passwd'', Add [])]\<rparr>) Map.empty =
      (PatchApplied run, Map.empty(path_key (lit ''/etc/passwd'') \<mapsto> [])) \<and> run_auto_approved run \<and>
    \<not> is_write_patch_constrained_to_writable_paths sample_host [(lit ''/etc/passwd'', Add [])]
        (WorkspaceWrite sample_workspace) (lit ''/w'')"
proof -
  have "assess_patch_safety sample_host [(lit ''/etc/passwd'', Add [])] OnFailure (WorkspaceWrite sample_workspace) (lit ''/w'') =
      AutoApprove LinuxSeccomp False"
    by (rule on_failure_patch_approved) (simp_all add: get_platform_sandbox_def sample_host_def)
  then show ?thesis
    by (simp add: apply_patch_call_def run_patch_def apply_changes_from_apply_patch_and_report_def
        apply_changes_from_apply_patch_def sample_disk_env_def create_parents_def with_context_def write_disk_def)
      (simp add: is_write_patch_constrained_to_writable_paths_def sample_patch_defs
        get_writable_roots_with_cwd_def writable_root_of_def patch_path_writable_def is_path_writable_def
        path_starts_with_def normalize_path_def normalize_component_def
        render_path_def path_join_def path_key_def path_parts_def is_absolute_def Let_def str_eval)
qed

text \<open>The user is asked under \<open>never\<close> exactly when a confined patch has no sandbox to run in.\<close>

lemma patch_never_asks_iff:
  "assess_patch_safety host cs Never sandbox cwd = AskUser \<longleftrightarrow>
     cs \<noteq> [] \<and> (\<exists>w. sandbox = WorkspaceWrite w) \<and> get_platform_sandbox (host_os host) = None \<and>
     is_write_patch_constrained_to_writable_paths host cs sandbox cwd"
  by (cases sandbox) (auto simp: assess_patch_safety_def split: option.split)



end
