(* ===== verification/Retention.thy ===== *)
theory Retention
  imports Rust_Prelude
begin

text \<open>
  Pruning the history of a conversation, \<open>code-rs/core/src/retention.rs\<close>: the categories of
  history items, the retention policy and its statistics, and the two variants of the pruning, on a
  borrowed and on an owned history.

  A history item carries the fields the module reads; \<open>'r\<close> stands for its other fields. The display
  text of a tool output is part of the item. Byte counts are natural numbers; where the owned
  variant saturates, that is written out, and the variants are shown to agree as long as the
  history has at most \<open>usize::MAX\<close> bytes.
\<close>

section \<open>Items, policy and statistics\<close>

datatype content_item = InputText rstr | InputImage rstr | OutputText rstr

datatype 'r response_item =
    Message rstr "content_item list" 'r
  | FunctionCall rstr 'r
  | FunctionCallOutput rstr 'r
  | CustomToolCall rstr 'r
  | CustomToolCallOutput rstr 'r
  | Reasoning "nat option" 'r
  | OtherItem 'r

record retention_policy =
  max_env_deltas :: nat
  max_browser_snapshots :: nat
  max_total_bytes :: nat
  keep_latest_baseline :: bool

definition default_retention_policy :: retention_policy where
  "default_retention_policy =
     \<lparr>max_env_deltas = 3, max_browser_snapshots = 2, max_total_bytes = 100 * 1024,
      keep_latest_baseline = True\<rparr>"

record retention_stats =
  removed_env_baselines :: nat
  removed_env_deltas :: nat
  removed_browser_snapshots :: nat
  removed_screenshots :: nat
  removed_status :: nat
  kept_env_deltas :: nat
  kept_browser_snapshots :: nat
  kept_recent_screenshots :: nat
  bytes_removed :: nat
  bytes_kept :: nat
  dropped_for_budget :: nat

definition default_retention_stats :: retention_stats where
  "default_retention_stats =
     \<lparr>removed_env_baselines = 0, removed_env_deltas = 0, removed_browser_snapshots = 0,
      removed_screenshots = 0, removed_status = 0, kept_env_deltas = 0, kept_browser_snapshots = 0,
      kept_recent_screenshots = 0, bytes_removed = 0, bytes_kept = 0, dropped_for_budget = 0\<rparr>"

definition any_removed :: "retention_stats \<Rightarrow> bool" where
  "any_removed s \<longleftrightarrow> removed_screenshots s > 0 \<or> removed_status s > 0 \<or> removed_env_baselines s > 0 \<or>
     removed_env_deltas s > 0 \<or> removed_browser_snapshots s > 0"

definition bytes_saved :: "retention_stats \<Rightarrow> nat" where
  "bytes_saved s = bytes_removed s"

definition total_delta_count :: "retention_stats \<Rightarrow> nat" where
  "total_delta_count s = kept_env_deltas s + removed_env_deltas s"

datatype item_category =
    RealUserMessage | StatusMessage | EnvBaseline | EnvDelta | BrowserSnapshot | Screenshot | OtherCategory

fun content_size :: "content_item \<Rightarrow> nat" where
  "content_size (InputText t) = byte_len t"
| "content_size (OutputText t) = byte_len t"
| "content_size (InputImage url) = byte_len url"

fun estimate_item_size :: "'r response_item \<Rightarrow> nat" where
  "estimate_item_size (Message _ content _) = sum_list (map content_size content)"
| "estimate_item_size (FunctionCall arguments _) = byte_len arguments"
| "estimate_item_size (FunctionCallOutput output _) = byte_len output"
| "estimate_item_size (CustomToolCall input _) = byte_len input"
| "estimate_item_size (CustomToolCallOutput output _) = byte_len output"
| "estimate_item_size (Reasoning content _) = (case content of Some n \<Rightarrow> n | None \<Rightarrow> 0)"
| "estimate_item_size (OtherItem _) = 0"

definition ENV_CTX_OPEN :: rstr where "ENV_CTX_OPEN = lit ''<environment_context>''"
definition ENV_CTX_DELTA_OPEN :: rstr where "ENV_CTX_DELTA_OPEN = lit ''<environment_context_delta>''"
definition BROWSER_SNAPSHOT_OPEN :: rstr where "BROWSER_SNAPSHOT_OPEN = lit ''<browser_snapshot>''"

definition any_input_text :: "(rstr \<Rightarrow> bool) \<Rightarrow> content_item list \<Rightarrow> bool" where
  "any_input_text P content \<longleftrightarrow> list_ex (\<lambda>c. case c of InputText t \<Rightarrow> P t | _ \<Rightarrow> False) content"

definition is_status_text :: "rstr \<Rightarrow> bool" where
  "is_status_text t \<longleftrightarrow> str_contains t (lit ''== System Status =='') \<or>
     str_contains t (lit ''Current working directory:'') \<or> str_contains t (lit ''Git branch:'')"

fun categorize_item :: "'r response_item \<Rightarrow> item_category" where
  "categorize_item (Message role content _) =
     (if role \<noteq> lit ''user'' then OtherCategory
      else if any_input_text (\<lambda>t. str_contains t ENV_CTX_OPEN \<and> \<not> str_contains t ENV_CTX_DELTA_OPEN) content
      then EnvBaseline
      else if any_input_text (\<lambda>t. str_contains t ENV_CTX_DELTA_OPEN) content then EnvDelta
      else if any_input_text (\<lambda>t. str_contains t BROWSER_SNAPSHOT_OPEN) content then BrowserSnapshot
      else if any_input_text is_status_text content then StatusMessage
      else if list_ex (\<lambda>c. case c of InputImage _ \<Rightarrow> True | _ \<Rightarrow> False) content then Screenshot
      else if any_input_text (\<lambda>t. \<not> is_status_text t \<and> trim t \<noteq> [] \<and> \<not> str_contains t ENV_CTX_OPEN \<and>
                \<not> str_contains t ENV_CTX_DELTA_OPEN \<and> \<not> str_contains t BROWSER_SNAPSHOT_OPEN) content
      then RealUserMessage
      else StatusMessage)"
| "categorize_item _ = OtherCategory"

record 'r categorized_item =
  ci_item :: "'r response_item"
  ci_category :: item_category
  ci_size :: nat
  ci_index :: nat

definition categorized_item_new :: "nat \<Rightarrow> 'r response_item \<Rightarrow> 'r categorized_item" where
  "categorized_item_new idx item =
     \<lparr>ci_item = item, ci_category = categorize_item item, ci_size = estimate_item_size item,
      ci_index = idx\<rparr>"

definition categorize_all :: "'r response_item list \<Rightarrow> 'r categorized_item list" where
  "categorize_all items = map (\<lambda>(idx, item). categorized_item_new idx item) (enumerate 0 items)"

text \<open>The loop that distributes the items keeps the order within each category.\<close>

definition of_category :: "item_category \<Rightarrow> 'r categorized_item list \<Rightarrow> 'r categorized_item list" where
  "of_category c items = filter (\<lambda>i. ci_category i = c) items"

definition other_items :: "'r categorized_item list \<Rightarrow> 'r categorized_item list" where
  "other_items items = filter (\<lambda>i. ci_category i \<in> {RealUserMessage, OtherCategory}) items"

definition sizes :: "'r categorized_item list \<Rightarrow> nat" where
  "sizes items = sum_list (map ci_size items)"

section \<open>Steps 1 to 5\<close>

text \<open>
  What a category loses and keeps, as each variant decides it: the borrowed one tests for a latest
  item and pops it, and splits a list that is too long; the owned one pops what there is, and drains
  the excess.
\<close>

definition pop_latest :: "bool \<Rightarrow> 'a list \<Rightarrow> 'a list \<times> 'a list" where
  "pop_latest keep xs = (if keep \<and> xs \<noteq> [] then (butlast xs, [last xs]) else (xs, []))"

definition keep_last :: "nat \<Rightarrow> 'a list \<Rightarrow> 'a list \<times> 'a list" where
  "keep_last n xs =
     (if length xs \<le> n then ([], xs) else (let to_drop = length xs - n in (take to_drop xs, drop to_drop xs)))"

definition pop_latest_owned :: "bool \<Rightarrow> 'a list \<Rightarrow> 'a list \<times> 'a list" where
  "pop_latest_owned keep xs =
     (if keep
      then (case rev xs of latest # older \<Rightarrow> (rev older, [latest]) | [] \<Rightarrow> (xs, []))
      else (xs, []))"

definition drain_excess :: "nat \<Rightarrow> 'a list \<Rightarrow> 'a list \<times> 'a list" where
  "drain_excess n xs = (if length xs > n then (take (length xs - n) xs, drop (length xs - n) xs) else ([], xs))"

text \<open>The items kept and the statistics from the lists of each category.\<close>

definition collect_selection ::
    "'r categorized_item list \<Rightarrow> 'r categorized_item list \<times> 'r categorized_item list \<Rightarrow>
     'r categorized_item list \<times> 'r categorized_item list \<Rightarrow> 'r categorized_item list \<times> 'r categorized_item list \<Rightarrow>
     'r categorized_item list \<Rightarrow> 'r categorized_item list \<times> 'r categorized_item list \<Rightarrow>
       'r categorized_item list \<times> retention_stats" where
  "collect_selection others baselines deltas snapshots status screenshots =
     (let kept = others @ snd baselines @ snd deltas @ snd snapshots @ snd screenshots;
          removed = fst baselines @ fst deltas @ fst snapshots @ status @ fst screenshots
      in (kept,
          default_retention_stats
            \<lparr>removed_env_baselines := length (fst baselines), removed_env_deltas := length (fst deltas),
             removed_browser_snapshots := length (fst snapshots),
             removed_screenshots := length (fst screenshots), removed_status := length status,
             kept_env_deltas := length (snd deltas), kept_browser_snapshots := length (snd snapshots),
             kept_recent_screenshots := length (snd screenshots),
             bytes_removed := sizes removed, bytes_kept := sizes kept\<rparr>))"

definition select_items ::
    "retention_policy \<Rightarrow> 'r categorized_item list \<Rightarrow> 'r categorized_item list \<times> retention_stats" where
  "select_items policy items =
     collect_selection (other_items items)
       (pop_latest (keep_latest_baseline policy) (of_category EnvBaseline items))
       (keep_last (max_env_deltas policy) (of_category EnvDelta items))
       (keep_last (max_browser_snapshots policy) (of_category BrowserSnapshot items))
       (of_category StatusMessage items)
       (pop_latest True (of_category Screenshot items))"

definition select_items_owned ::
    "retention_policy \<Rightarrow> 'r categorized_item list \<Rightarrow> 'r categorized_item list \<times> retention_stats" where
  "select_items_owned policy items =
     collect_selection (other_items items)
       (pop_latest_owned (keep_latest_baseline policy) (of_category EnvBaseline items))
       (drain_excess (max_env_deltas policy) (of_category EnvDelta items))
       (drain_excess (max_browser_snapshots policy) (of_category BrowserSnapshot items))
       (of_category StatusMessage items)
       (pop_latest_owned True (of_category Screenshot items))"

section \<open>The byte budget\<close>

text \<open>The loop of the borrowed variant, from the most recent item on; it measures the item again.\<close>

fun budget_loop ::
    "nat \<Rightarrow> (nat \<times> 'r response_item) list \<Rightarrow> nat \<Rightarrow> (nat \<times> 'r response_item) list \<Rightarrow> retention_stats \<Rightarrow>
       (nat \<times> 'r response_item) list \<times> retention_stats" where
  "budget_loop limit [] cumulative final s = (final, s)"
| "budget_loop limit ((idx, item) # rest) cumulative final s =
     (let item_size = estimate_item_size item
      in if cumulative + item_size \<le> limit
         then budget_loop limit rest (cumulative + item_size) (final @ [(idx, item)]) s
         else budget_loop limit rest cumulative final
                (s\<lparr>dropped_for_budget := dropped_for_budget s + 1,
                   bytes_removed := bytes_removed s + item_size,
                   bytes_kept := bytes_kept s - item_size\<rparr>))"

definition apply_retention_policy ::
    "'r response_item list \<Rightarrow> retention_policy \<Rightarrow> 'r response_item list \<times> retention_stats" where
  "apply_retention_policy items policy =
     (let (selected, s) = select_items policy (categorize_all items);
          kept = map (\<lambda>i. (ci_index i, ci_item i)) selected
      in if bytes_kept s > max_total_bytes policy
         then (let kept = sort_key fst kept;
                   (final, s) = budget_loop (max_total_bytes policy) (rev kept) 0 [] s
               in (map snd (sort_key fst final), s))
         else (map snd (sort_key fst kept), s))"

text \<open>The loop of the owned variant, with saturating arithmetic and its own count of bytes.\<close>

fun budget_loop_owned ::
    "nat \<Rightarrow> 'r categorized_item list \<Rightarrow> nat \<Rightarrow> 'r categorized_item list \<Rightarrow> nat \<Rightarrow> retention_stats \<Rightarrow>
       'r categorized_item list \<times> nat \<times> retention_stats" where
  "budget_loop_owned limit [] cumulative final kept_bytes s = (final, kept_bytes, s)"
| "budget_loop_owned limit (i # rest) cumulative final kept_bytes s =
     (if usize_saturating_add cumulative (ci_size i) \<le> limit
      then budget_loop_owned limit rest (usize_saturating_add cumulative (ci_size i)) (final @ [i])
             kept_bytes s
      else budget_loop_owned limit rest cumulative final (kept_bytes - ci_size i)
             (s\<lparr>dropped_for_budget := dropped_for_budget s + 1,
                bytes_removed := bytes_removed s + ci_size i\<rparr>))"

definition apply_retention_policy_owned ::
    "'r response_item list \<Rightarrow> retention_policy \<Rightarrow> 'r response_item list \<times> retention_stats" where
  "apply_retention_policy_owned items policy =
     (let (selected, s) = select_items_owned policy (categorize_all items);
          kept = sort_key ci_index selected
      in if bytes_kept s > max_total_bytes policy
         then (let (final, kept_bytes, s1) =
                     budget_loop_owned (max_total_bytes policy) (rev kept) 0 [] (bytes_kept s) s;
                   s2 = s1\<lparr>bytes_kept := kept_bytes\<rparr>
               in (map ci_item (sort_key ci_index final), s2))
         else (map ci_item kept, s))"

section \<open>The two variants agree\<close>

lemma pop_latest_owned_eq: "pop_latest_owned keep xs = pop_latest keep xs"
  by (cases xs rule: rev_cases) (auto simp: pop_latest_owned_def pop_latest_def)

lemma drain_excess_eq: "drain_excess n xs = keep_last n xs"
  by (simp add: drain_excess_def keep_last_def Let_def)

lemma select_items_owned_eq: "select_items_owned policy items = select_items policy items"
  by (simp add: select_items_owned_def select_items_def pop_latest_owned_eq drain_excess_eq)

definition keyed :: "'r categorized_item \<Rightarrow> nat \<times> 'r response_item" where
  "keyed i = (ci_index i, ci_item i)"

lemma insort_map: "insort_key f (g x) (map g xs) = map g (insort_key (\<lambda>y. f (g y)) x xs)"
  by (induction xs) simp_all

lemma sort_key_map: "sort_key f (map g xs) = map g (sort_key (\<lambda>y. f (g y)) xs)"
  by (induction xs) (simp_all add: insort_map)

lemma sort_keyed: "sort_key fst (map keyed xs) = map keyed (sort_key ci_index xs)"
  by (simp add: sort_key_map keyed_def)

definition measured :: "'r categorized_item list \<Rightarrow> bool" where
  "measured xs \<longleftrightarrow> list_all (\<lambda>i. ci_size i = estimate_item_size (ci_item i)) xs"

lemma budget_loop_owned_eq:
  "measured xs \<Longrightarrow> cumulative + sizes xs \<le> usize_max \<Longrightarrow>
   budget_loop limit (map keyed xs) cumulative (map keyed final) (s\<lparr>bytes_kept := kb\<rparr>) =
     (case budget_loop_owned limit xs cumulative final kb s of
        (final', kb', s') \<Rightarrow> (map keyed final', s'\<lparr>bytes_kept := kb'\<rparr>))"
proof (induction xs arbitrary: cumulative final kb s)
  case (Cons i xs)
  let ?s = "s\<lparr>dropped_for_budget := dropped_for_budget s + 1, bytes_removed := bytes_removed s + ci_size i\<rparr>"
  have i: "ci_size i = estimate_item_size (ci_item i)" "measured xs"
    using Cons.prems by (simp_all add: measured_def)
  have sat: "usize_saturating_add cumulative (ci_size i) = cumulative + ci_size i"
    using Cons.prems by (simp add: usize_saturating_add_def sizes_def)
  have "cumulative + sizes xs \<le> usize_max" "cumulative + ci_size i + sizes xs \<le> usize_max"
    using Cons.prems by (simp_all add: sizes_def)
  note IH = Cons.IH [OF i(2) this(1), of final "kb - ci_size i" ?s]
    Cons.IH [OF i(2) this(2), of "final @ [i]" kb s]
  show ?case
    using IH by (simp add: keyed_def i(1) sat [simplified i(1)] Let_def)
qed simp

section \<open>What the selection keeps\<close>

lemma sizes_simps [simp]:
  "sizes [] = 0" "sizes (i # xs) = ci_size i + sizes xs" "sizes (xs @ ys) = sizes xs + sizes ys"
  "sizes (rev xs) = sizes xs"
  by (simp_all add: sizes_def rev_map [symmetric])

lemma pop_latest_split: "fst (pop_latest keep xs) @ snd (pop_latest keep xs) = xs"
  by (simp add: pop_latest_def)

lemma keep_last_split: "fst (keep_last n xs) @ snd (keep_last n xs) = xs"
  by (simp add: keep_last_def Let_def)

lemma split_subset:
  assumes "xs @ ys = zs"
  shows "set ys \<subseteq> set zs" and "distinct zs \<Longrightarrow> distinct ys"
  using assms by auto

lemmas kept_parts = split_subset [OF pop_latest_split] split_subset [OF keep_last_split]

lemma sizes_parts:
  "sizes (fst (pop_latest keep xs)) + sizes (snd (pop_latest keep xs)) = sizes xs"
  "sizes (fst (keep_last n ys)) + sizes (snd (keep_last n ys)) = sizes ys"
  by (simp_all only: sizes_simps(3) [symmetric] pop_latest_split keep_last_split)

lemma sizes_categories:
  "sizes items = sizes (other_items items) + sizes (of_category EnvBaseline items) +
     sizes (of_category EnvDelta items) + sizes (of_category BrowserSnapshot items) +
     sizes (of_category StatusMessage items) + sizes (of_category Screenshot items)"
proof (induction items)
  case (Cons i items)
  then show ?case
    by (cases "ci_category i") (simp_all add: other_items_def of_category_def)
qed (simp add: other_items_def of_category_def)

lemma select_items_bytes:
  "bytes_kept (snd (select_items policy items)) = sizes (fst (select_items policy items))"
  "bytes_kept (snd (select_items policy items)) + bytes_removed (snd (select_items policy items)) = sizes items"
  using sizes_parts(1) [of "keep_latest_baseline policy" "of_category EnvBaseline items"]
    sizes_parts(1) [of True "of_category Screenshot items"]
    sizes_parts(2) [of "max_env_deltas policy" "of_category EnvDelta items"]
    sizes_parts(2) [of "max_browser_snapshots policy" "of_category BrowserSnapshot items"]
    sizes_categories [of items]
  by (simp_all add: select_items_def collect_selection_def Let_def)

lemma in_category [simp]:
  "i \<in> set (of_category c items) \<longleftrightarrow> i \<in> set items \<and> ci_category i = c"
  "i \<in> set (other_items items) \<longleftrightarrow> i \<in> set items \<and> ci_category i \<in> {RealUserMessage, OtherCategory}"
  by (auto simp: of_category_def other_items_def)

lemma select_items_set:
  "set (fst (select_items policy items)) \<subseteq> set items"
  "distinct items \<Longrightarrow> distinct (fst (select_items policy items))"
proof -
  let ?b = "snd (pop_latest (keep_latest_baseline policy) (of_category EnvBaseline items))"
    and ?d = "snd (keep_last (max_env_deltas policy) (of_category EnvDelta items))"
    and ?n = "snd (keep_last (max_browser_snapshots policy) (of_category BrowserSnapshot items))"
    and ?s = "snd (pop_latest True (of_category Screenshot items))"
  have kept: "fst (select_items policy items) = other_items items @ ?b @ ?d @ ?n @ ?s"
    by (simp add: select_items_def collect_selection_def Let_def)
  have parts: "\<And>i. i \<in> set ?b \<Longrightarrow> i \<in> set items \<and> ci_category i = EnvBaseline"
      "\<And>i. i \<in> set ?d \<Longrightarrow> i \<in> set items \<and> ci_category i = EnvDelta"
      "\<And>i. i \<in> set ?n \<Longrightarrow> i \<in> set items \<and> ci_category i = BrowserSnapshot"
      "\<And>i. i \<in> set ?s \<Longrightarrow> i \<in> set items \<and> ci_category i = Screenshot"
    using kept_parts(1,3) by (metis in_category(1) subsetD)+
  show "set (fst (select_items policy items)) \<subseteq> set items"
    unfolding kept using parts by auto
  assume "distinct items"
  then have "distinct (other_items items)" "distinct (of_category c items)" for c
    by (simp_all add: other_items_def of_category_def)
  then have "distinct (other_items items)" "distinct ?b" "distinct ?d" "distinct ?n" "distinct ?s"
    using kept_parts(2,4) by blast+
  then show "distinct (fst (select_items policy items))"
    unfolding kept by (auto dest!: parts)
qed

lemma measured_select: "measured items \<Longrightarrow> measured (fst (select_items policy items))"
  using select_items_set(1) by (auto simp: measured_def list_all_iff)

section \<open>What the budget keeps\<close>

lemma subseq_elements:
  assumes "subseq ys xs"
  shows "set ys \<subseteq> set xs" and "distinct xs \<Longrightarrow> distinct ys"
  using assms by (induction rule: list_emb.induct) auto

lemma budget_loop_owned_spec:
  assumes "cumulative \<le> limit" and "cumulative + sizes xs \<le> usize_max"
    and "sizes xs \<le> kb" and "budget_loop_owned limit xs cumulative final kb s = (final', kb', s')"
  shows "\<exists>ys. final' = final @ ys \<and> subseq ys xs \<and> cumulative + sizes ys \<le> limit \<and>
    sizes ys \<le> sizes xs \<and> kb' + sizes xs = kb + sizes ys \<and>
    bytes_removed s' + sizes ys = bytes_removed s + sizes xs"
  using assms
proof (induction xs arbitrary: cumulative final kb s)
  case (Cons i xs)
  have sat: "usize_saturating_add cumulative (ci_size i) = cumulative + ci_size i"
    using Cons.prems(2) by (simp add: usize_saturating_add_def)
  show ?case
  proof (cases "cumulative + ci_size i \<le> limit")
    case True
    then have run: "budget_loop_owned limit xs (cumulative + ci_size i) (final @ [i]) kb s = (final', kb', s')"
      using Cons.prems(4) sat by simp
    obtain ys where "final' = (final @ [i]) @ ys" "subseq ys xs" "cumulative + ci_size i + sizes ys \<le> limit"
        "sizes ys \<le> sizes xs" "kb' + sizes xs = kb + sizes ys"
        "bytes_removed s' + sizes ys = bytes_removed s + sizes xs"
      using Cons.IH [OF True _ _ run] Cons.prems(2,3) by auto
    then show ?thesis
      by (intro exI [of _ "i # ys"]) auto
  next
    case False
    let ?s = "s\<lparr>dropped_for_budget := dropped_for_budget s + 1, bytes_removed := bytes_removed s + ci_size i\<rparr>"
    have run: "budget_loop_owned limit xs cumulative final (kb - ci_size i) ?s = (final', kb', s')"
      using Cons.prems(4) sat False by simp
    have "cumulative + sizes xs \<le> usize_max" "sizes xs \<le> kb - ci_size i"
      using Cons.prems(2,3) by auto
    from Cons.IH [OF Cons.prems(1) this run] obtain ys where "final' = final @ ys" "subseq ys xs"
        "cumulative + sizes ys \<le> limit" "sizes ys \<le> sizes xs" "kb' + sizes xs = kb - ci_size i + sizes ys"
        "bytes_removed s' + sizes ys = bytes_removed s + ci_size i + sizes xs"
      by auto
    then show ?thesis
      using Cons.prems(3) by (intro exI [of _ ys]) (auto intro: list_emb_Cons)
  qed
qed simp

section \<open>Order\<close>

lemma categorize_all_index: "map ci_index (categorize_all items) = [0..<length items]"
  by (simp add: categorize_all_def categorized_item_new_def split_beta comp_def)

lemma categorize_all_items: "map ci_item (categorize_all items) = items"
  by (simp add: categorize_all_def categorized_item_new_def split_beta comp_def)

lemma categorize_all_measured: "measured (categorize_all items)"
  by (auto simp: measured_def list_all_iff categorize_all_def categorized_item_new_def)

lemma categorize_all_distinct:
  "distinct (categorize_all items)" "inj_on ci_index (set (categorize_all items))"
  using categorize_all_index [of items] distinct_map [of ci_index "categorize_all items"] by simp_all

lemma sort_selected:
  assumes "set ks \<subseteq> set (categorize_all items)" and "distinct ks"
  shows "sort_key ci_index ks = filter (\<lambda>i. i \<in> set ks) (categorize_all items)" (is "?a = ?b")
proof (rule map_sorted_distinct_set_unique [of ci_index])
  have "distinct (map ci_index (categorize_all items))" "sorted (map ci_index (categorize_all items))"
    by (simp_all only: categorize_all_index distinct_upt sorted_upt)
  then show "sorted (map ci_index ?b)" "distinct (map ci_index ?b)"
    by (simp_all add: sorted_filter distinct_map_filter)
  show "inj_on ci_index (set ?a \<union> set ?b)"
    using assms(1) by (intro inj_on_subset [OF categorize_all_distinct(2) [of items]]) auto
  show "distinct (map ci_index ?a)"
    using assms inj_on_subset [OF categorize_all_distinct(2) assms(1)] by (simp add: distinct_map)
  show "sorted (map ci_index ?a)" "set ?a = set ?b"
    using assms(1) by auto
qed

lemma selected_in_order:
  assumes "set ks \<subseteq> set (categorize_all items)" and "distinct ks"
  shows "subseq (map ci_item (sort_key ci_index ks)) items"
proof -
  have "subseq (sort_key ci_index ks) (categorize_all items)"
    unfolding sort_selected [OF assms] by (rule subseq_filter_left)
  then have "subseq (map ci_item (sort_key ci_index ks)) (map ci_item (categorize_all items))"
    by (rule subseq_map)
  then show ?thesis
    by (simp only: categorize_all_items)
qed

section \<open>Properties\<close>

definition item_bytes :: "'r response_item list \<Rightarrow> nat" where
  "item_bytes items = sum_list (map estimate_item_size items)"

lemma sizes_measured: "measured xs \<Longrightarrow> sizes xs = item_bytes (map ci_item xs)"
  by (induction xs) (simp_all add: measured_def item_bytes_def)

lemma sizes_sort_key: "sizes (sort_key f xs) = sizes xs"
proof -
  have "sizes (insort_key f x xs) = ci_size x + sizes xs" for x xs
    by (induction xs) simp_all
  then show ?thesis
    by (induction xs) simp_all
qed

text \<open>The outcome of the owned variant, over and under the budget.\<close>

lemma owned_outcome:
  assumes bytes: "item_bytes items \<le> usize_max"
    and run: "apply_retention_policy_owned items policy = (kept, s)"
  obtains ks where "kept = map ci_item (sort_key ci_index ks)" "set ks \<subseteq> set (fst (select_items policy (categorize_all items)))"
    "distinct ks" "sizes ks \<le> max_total_bytes policy" "bytes_kept s = sizes ks"
    "bytes_kept s + bytes_removed s = item_bytes items"
    "item_bytes items \<le> max_total_bytes policy \<Longrightarrow> ks = fst (select_items policy (categorize_all items))"
proof -
  obtain sel st where sel: "select_items policy (categorize_all items) = (sel, st)"
    by fastforce
  note cats = categorize_all_distinct(1) [of items] categorize_all_measured [of items]
  have all: "sizes (categorize_all items) = item_bytes items"
    using sizes_measured [OF cats(2)] by (simp only: categorize_all_items)
  have st: "bytes_kept st = sizes sel" "bytes_kept st + bytes_removed st = item_bytes items" "distinct sel"
    using select_items_bytes [of policy "categorize_all items"] select_items_set(2) [OF cats(1), of policy] sel all
    by simp_all
  show thesis
  proof (cases "bytes_kept st > max_total_bytes policy")
    case False
    then have "kept = map ci_item (sort_key ci_index sel)" "s = st"
      using run sel by (simp_all add: apply_retention_policy_owned_def select_items_owned_eq)
    then show thesis
      using that [of sel] st sel False by simp
  next
    case True
    obtain final kb s1 where loop: "budget_loop_owned (max_total_bytes policy) (rev (sort_key ci_index sel)) 0 []
        (bytes_kept st) st = (final, kb, s1)"
      using prod_cases3 by blast
    then have out: "kept = map ci_item (sort_key ci_index final)" "s = s1\<lparr>bytes_kept := kb\<rparr>"
      using run sel True by (simp_all add: apply_retention_policy_owned_def select_items_owned_eq Let_def)
    have "sizes (rev (sort_key ci_index sel)) = bytes_kept st"
      by (simp add: sizes_sort_key st(1))
    with budget_loop_owned_spec [OF _ _ _ loop] st(2) bytes
    obtain ys where ys: "final = ys" "subseq ys (rev (sort_key ci_index sel))" "sizes ys \<le> max_total_bytes policy"
        "kb = sizes ys" "bytes_removed s1 + sizes ys = bytes_removed st + bytes_kept st"
      by auto
    then have "set final \<subseteq> set sel" "distinct final"
      using st(3) subseq_elements(1) [OF ys(2)] subseq_elements(2) [OF ys(2)] by simp_all
    then show thesis
      using that [of final] out ys st(2) sel True by simp
  qed
qed


text \<open>Both variants make the same selection, so their outcomes agree.\<close>

lemma categorize_all_bytes: "sizes (categorize_all items) = item_bytes items"
  using sizes_measured [OF categorize_all_measured, of items] by (simp only: categorize_all_items)

lemma measured_subset: "measured xs \<Longrightarrow> set ys \<subseteq> set xs \<Longrightarrow> measured ys"
  by (auto simp: measured_def list_all_iff)

lemma variants_agree:
  assumes bytes: "item_bytes items \<le> usize_max"
  shows "apply_retention_policy items policy = apply_retention_policy_owned items policy"
proof -
  obtain sel st where sel: "select_items policy (categorize_all items) = (sel, st)"
    by fastforce
  have st: "sizes sel \<le> usize_max" "measured sel"
    using select_items_bytes [of policy "categorize_all items"] bytes sel categorize_all_bytes [of items]
      measured_select [OF categorize_all_measured, of policy items] by simp_all
  let ?run = "rev (sort_key ci_index sel)"
  have keyed: "(\<lambda>i. (ci_index i, ci_item i)) = keyed"
    by (auto simp: keyed_def)
  have "measured ?run"
    by (rule measured_subset [OF st(2)]) simp
  then have loop: "budget_loop limit (map keyed ?run) 0 [] st =
      (case budget_loop_owned limit ?run 0 [] (bytes_kept st) st of
         (final, kb, s) \<Rightarrow> (map keyed final, s\<lparr>bytes_kept := kb\<rparr>))" for limit
    using budget_loop_owned_eq [where xs = ?run and cumulative = 0 and final = "[]" and s = st
        and kb = "bytes_kept st"] st(1)
    by (simp add: sizes_sort_key)
  have snd_keyed: "map snd (map keyed xs) = map ci_item xs" for xs :: "'a categorized_item list"
    by (simp add: keyed_def)
  show ?thesis
    unfolding apply_retention_policy_def apply_retention_policy_owned_def select_items_owned_eq sel keyed
    by (simp only: Let_def prod.case sort_keyed rev_map loop snd_keyed split: prod.split if_split)
      (simp add: sort_keyed snd_keyed del: map_map)
qed

section \<open>What is kept of each category\<close>

definition count_category :: "item_category \<Rightarrow> 'r response_item list \<Rightarrow> nat" where
  "count_category c items = length (filter (\<lambda>i. categorize_item i = c) items)"

definition injected_marks :: "rstr list" where
  "injected_marks = map lit [''<environment_context>'', ''<environment_context_delta>'', ''<browser_snapshot>'',
     ''== System Status =='', ''Current working directory:'', ''Git branch:'']"

fun has_mark :: "content_item \<Rightarrow> bool" where
  "has_mark (InputText t) \<longleftrightarrow> list_ex (str_contains t) injected_marks"
| "has_mark (InputImage _) \<longleftrightarrow> True"
| "has_mark (OutputText _) \<longleftrightarrow> False"

fun has_words :: "content_item \<Rightarrow> bool" where
  "has_words (InputText t) \<longleftrightarrow> trim t \<noteq> []"
| "has_words _ \<longleftrightarrow> False"

fun in_conversation :: "'r response_item \<Rightarrow> bool" where
  "in_conversation (Message role content _) \<longleftrightarrow>
     role = lit ''user'' \<longrightarrow> \<not> list_ex has_mark content \<and> list_ex has_words content"
| "in_conversation _ \<longleftrightarrow> True"

definition conversation :: "'r response_item list \<Rightarrow> 'r response_item list" where
  "conversation items = filter in_conversation items"

lemma has_mark_InputText:
  "has_mark (InputText t) \<longleftrightarrow> str_contains t ENV_CTX_OPEN \<or> str_contains t ENV_CTX_DELTA_OPEN \<or>
     str_contains t BROWSER_SNAPSHOT_OPEN \<or> is_status_text t"
  by (auto simp: injected_marks_def ENV_CTX_OPEN_def ENV_CTX_DELTA_OPEN_def BROWSER_SNAPSHOT_OPEN_def is_status_text_def)

lemma user_category:
  "categorize_item (Message (lit ''user'') content r) = RealUserMessage \<longleftrightarrow>
     \<not> list_ex has_mark content \<and> list_ex has_words content"
proof -
  have marks: "list_ex has_mark content \<longleftrightarrow>
      any_input_text (\<lambda>t. str_contains t ENV_CTX_OPEN \<and> \<not> str_contains t ENV_CTX_DELTA_OPEN) content \<or>
      any_input_text (\<lambda>t. str_contains t ENV_CTX_DELTA_OPEN) content \<or>
      any_input_text (\<lambda>t. str_contains t BROWSER_SNAPSHOT_OPEN) content \<or> any_input_text is_status_text content \<or>
      list_ex (\<lambda>c. case c of InputImage _ \<Rightarrow> True | _ \<Rightarrow> False) content"
    by (induction content)
      (auto simp: any_input_text_def has_mark_InputText simp del: has_mark.simps(1) split: content_item.splits)
  have words: "any_input_text (\<lambda>t. \<not> is_status_text t \<and> trim t \<noteq> [] \<and> \<not> str_contains t ENV_CTX_OPEN \<and>
        \<not> str_contains t ENV_CTX_DELTA_OPEN \<and> \<not> str_contains t BROWSER_SNAPSHOT_OPEN) content \<longleftrightarrow>
      list_ex has_words content" if "\<not> list_ex has_mark content"
    using that
    by (induction content)
      (auto simp: any_input_text_def has_mark_InputText simp del: has_mark.simps(1) split: content_item.splits)
  show ?thesis
    using marks words by (auto simp: any_input_text_def)
qed

lemma in_conversation_iff: "categorize_item i \<in> {RealUserMessage, OtherCategory} \<longleftrightarrow> in_conversation i"
proof (cases i)
  case (Message role content r)
  have "categorize_item (Message (lit ''user'') content r) \<noteq> OtherCategory"
    by simp
  then have user: "categorize_item (Message (lit ''user'') content r) \<in> {RealUserMessage, OtherCategory} \<longleftrightarrow>
      in_conversation (Message (lit ''user'') content r)"
    using user_category [of content r] by (simp del: categorize_item.simps(1))
  show ?thesis
  proof (cases "role = lit ''user''")
    case True
    show ?thesis
      unfolding Message True by (rule user)
  qed (simp add: Message)
qed simp_all

lemma conversation_categories:
  "conversation items = filter (\<lambda>i. categorize_item i \<in> {RealUserMessage, OtherCategory}) items"
  by (simp only: conversation_def in_conversation_iff)

definition category_limit :: "retention_policy \<Rightarrow> item_category \<Rightarrow> nat" where
  "category_limit policy c =
     (case c of EnvBaseline \<Rightarrow> (if keep_latest_baseline policy then 1 else 0)
      | EnvDelta \<Rightarrow> max_env_deltas policy
      | BrowserSnapshot \<Rightarrow> max_browser_snapshots policy
      | Screenshot \<Rightarrow> 1 | _ \<Rightarrow> 0)"

lemma categorize_all_category:
  "i \<in> set (categorize_all items) \<Longrightarrow> ci_category i = categorize_item (ci_item i)"
  by (auto simp: categorize_all_def categorized_item_new_def)

lemma filter_category:
  assumes "set ks \<subseteq> set (categorize_all items)"
  shows "filter (\<lambda>i. P (categorize_item i)) (map ci_item ks) = map ci_item (filter (\<lambda>i. P (ci_category i)) ks)"
proof -
  have "filter (\<lambda>i. P (categorize_item (ci_item i))) ks = filter (\<lambda>i. P (ci_category i)) ks"
    using assms by (intro filter_cong) (auto simp: categorize_all_category)
  then show ?thesis
    by (simp add: filter_map comp_def)
qed

lemma of_category_append: "of_category c (xs @ ys) = of_category c xs @ of_category c ys"
  by (simp add: of_category_def)

lemma of_category_subset:
  assumes "set xs \<subseteq> set (of_category d items)"
  shows "of_category c xs = (if c = d then xs else [])"
proof -
  have "\<forall>i\<in>set xs. ci_category i = d"
    using assms by auto
  then show ?thesis
    by (simp add: of_category_def filter_empty_conv filter_id_conv)
qed

lemmas of_category_parts = of_category_subset [OF kept_parts(1)] of_category_subset [OF kept_parts(3)]

lemma part_lengths:
  "length (snd (pop_latest keep xs)) \<le> (if keep then 1 else 0)" "length (snd (keep_last n xs)) \<le> n"
  by (simp_all add: pop_latest_def keep_last_def Let_def)

lemma selected_count:
  assumes "c \<notin> {RealUserMessage, OtherCategory}"
  shows "length (of_category c (fst (select_items policy items))) \<le> category_limit policy c"
proof -
  have none: "of_category c (other_items items) = []"
    using assms by (auto simp: of_category_def other_items_def filter_empty_conv)
  show ?thesis
    using assms none part_lengths(1) [of True "of_category Screenshot items"]
    by (cases c) (simp_all add: select_items_def collect_selection_def Let_def of_category_append
        of_category_parts category_limit_def part_lengths part_lengths(1) [simplified])
qed

lemma kept_count:
  assumes "set ks \<subseteq> set sel" and "distinct ks" and "set sel \<subseteq> set (categorize_all items)"
  shows "count_category c (map ci_item (sort_key ci_index ks)) \<le> length (of_category c sel)"
proof -
  have "count_category c (map ci_item (sort_key ci_index ks)) = length (filter (\<lambda>i. ci_category i = c) (sort_key ci_index ks))"
    unfolding count_category_def using filter_category [of "sort_key ci_index ks" items "\<lambda>d. d = c"] assms
    by simp
  also have "\<dots> = card (set (filter (\<lambda>i. ci_category i = c) (sort_key ci_index ks)))"
    using assms(2) by (intro distinct_card [symmetric]) simp
  also have "\<dots> \<le> card (set (of_category c sel))"
    using assms(1) by (intro card_mono) auto
  also have "\<dots> \<le> length (of_category c sel)"
    by (rule card_length)
  finally show ?thesis .
qed

lemma conversation_kept:
  assumes "set (other_items (categorize_all items)) \<subseteq> set ks" and "set ks \<subseteq> set (categorize_all items)"
    and "distinct ks"
  shows "conversation (map ci_item (sort_key ci_index ks)) = conversation items"
proof -
  let ?P = "\<lambda>c. c \<in> {RealUserMessage, OtherCategory}"
  have "filter (\<lambda>i. ?P (ci_category i)) (filter (\<lambda>i. i \<in> set ks) (categorize_all items)) =
      filter (\<lambda>i. ?P (ci_category i)) (categorize_all items)"
    using assms(1) by (auto simp: filter_filter other_items_def intro!: filter_cong)
  moreover have "conversation (map ci_item xs) = map ci_item (filter (\<lambda>i. ?P (ci_category i)) xs)"
    if "set xs \<subseteq> set (categorize_all items)" for xs
    unfolding conversation_categories by (rule filter_category [OF that, of ?P])
  ultimately have "conversation (map ci_item (sort_key ci_index ks)) = conversation (map ci_item (categorize_all items))"
    by (simp add: sort_selected [OF assms(2,3)])
  then show ?thesis
    by (simp only: categorize_all_items)
qed

section \<open>The pruned history\<close>

text \<open>
  (C38) What pruning a history of at most \<open>usize::MAX\<close> bytes leaves is a subsequence of it, in its
  order; the statistics count its bytes and those dropped exactly, within the byte budget; no
  category exceeds its limit, status messages are gone; and when the whole history fits into the
  budget, all items are kept that are no user messages, such as the assistant's messages and the tool calls,
  and all user messages with words, without an image and without one of the six marks of injected texts.
\<close>

theorem retention_within_policy:
  assumes "item_bytes items \<le> usize_max" and "apply_retention_policy_owned items policy = (kept, s)"
  shows "subseq kept items \<and> item_bytes kept = bytes_kept s \<and> bytes_kept s \<le> max_total_bytes policy \<and>
    bytes_kept s + bytes_removed s = item_bytes items \<and>
    count_category EnvBaseline kept \<le> (if keep_latest_baseline policy then 1 else 0) \<and>
    count_category EnvDelta kept \<le> max_env_deltas policy \<and>
    count_category BrowserSnapshot kept \<le> max_browser_snapshots policy \<and>
    count_category Screenshot kept \<le> 1 \<and> count_category StatusMessage kept = 0 \<and>
    (item_bytes items \<le> max_total_bytes policy \<longrightarrow> conversation kept = conversation items)"
proof -
  let ?sel = "fst (select_items policy (categorize_all items))"
  obtain ks where ks: "kept = map ci_item (sort_key ci_index ks)" "set ks \<subseteq> set ?sel" "distinct ks"
      "sizes ks \<le> max_total_bytes policy" "bytes_kept s = sizes ks"
      "bytes_kept s + bytes_removed s = item_bytes items"
      "item_bytes items \<le> max_total_bytes policy \<Longrightarrow> ks = ?sel"
    using owned_outcome [OF assms] by blast
  have sel: "set ?sel \<subseteq> set (categorize_all items)"
    by (rule select_items_set(1))
  then have sub: "set ks \<subseteq> set (categorize_all items)"
    using ks(2) by blast
  have "measured (sort_key ci_index ks)"
    using measured_subset [OF categorize_all_measured sub] by (rule measured_subset) simp
  from sizes_measured [OF this] have bytes: "item_bytes kept = bytes_kept s"
    by (simp add: ks(1,5) sizes_sort_key)
  have count: "count_category c kept \<le> category_limit policy c" if "c \<notin> {RealUserMessage, OtherCategory}" for c
    using kept_count [OF ks(2,3) sel, of c] selected_count [OF that, of policy "categorize_all items"]
    by (simp add: ks(1))
  have "set (other_items (categorize_all items)) \<subseteq> set ?sel"
    by (simp add: select_items_def collect_selection_def Let_def)
  then have "item_bytes items \<le> max_total_bytes policy \<longrightarrow> conversation kept = conversation items"
    using conversation_kept [OF _ sub ks(3)] ks(7) unfolding ks(1) by metis
  then show ?thesis
    using selected_in_order [OF sub ks(3)] bytes ks count [of EnvBaseline] count [of EnvDelta]
      count [of BrowserSnapshot] count [of Screenshot] count [of StatusMessage]
    by (simp add: category_limit_def)
qed

definition sample_history :: "unit response_item list" where
  "sample_history =
     [Message (lit ''user'') [InputText (lit ''<environment_context>'')] (),
      Message (lit ''user'') [InputText (lit ''Git branch: main'')] (),
      Message (lit ''user'') [InputText (lit ''fix'')] (),
      FunctionCall (lit ''abcdef'') ()]"

definition sample_policy :: retention_policy where
  "sample_policy = default_retention_policy\<lparr>max_total_bytes := 10\<rparr>"

lemma sample_categories:
  "map categorize_item sample_history = [EnvBaseline, StatusMessage, RealUserMessage, OtherCategory]"
  "map estimate_item_size sample_history = [21, 16, 3, 6]"
  by (simp_all add: sample_history_def any_input_text_def is_status_text_def ENV_CTX_OPEN_def
      ENV_CTX_DELTA_OPEN_def BROWSER_SNAPSHOT_OPEN_def byte_len_def utf8_len_def str_eval)

definition sample_stats :: retention_stats where
  "sample_stats = default_retention_stats
     \<lparr>removed_status := 1, bytes_removed := 37, bytes_kept := 9, dropped_for_budget := 1\<rparr>"

lemma sample_run: "apply_retention_policy_owned sample_history sample_policy = (drop 2 sample_history, sample_stats)"
proof -
  obtain a b c d where items: "sample_history = [a, b, c, d]"
    by (simp add: sample_history_def)
  have "categorize_item a = EnvBaseline" "categorize_item b = StatusMessage"
      "categorize_item c = RealUserMessage" "categorize_item d = OtherCategory"
      "estimate_item_size a = 21" "estimate_item_size b = 16" "estimate_item_size c = 3"
      "estimate_item_size d = 6"
    using sample_categories by (simp_all add: items)
  then show ?thesis
    by (simp add: items apply_retention_policy_owned_def categorize_all_def categorized_item_new_def
        sample_policy_def default_retention_policy_def select_items_owned_def collect_selection_def Let_def
        other_items_def of_category_def pop_latest_owned_def drain_excess_def sizes_def
        default_retention_stats_def sample_stats_def usize_saturating_add_def usize_max_def)
qed

lemma sample_bytes: "item_bytes sample_history = 46" "item_bytes sample_history \<le> usize_max"
  using sample_categories(2) by (simp_all add: item_bytes_def usize_max_def)

theorem retention_within_policy_witness:
  "apply_retention_policy_owned sample_history sample_policy = (drop 2 sample_history, sample_stats) \<and>
   subseq (drop 2 sample_history) sample_history \<and> item_bytes (drop 2 sample_history) \<le> 10 \<and>
   count_category EnvBaseline (drop 2 sample_history) \<le> 1"
  using retention_within_policy [OF sample_bytes(2) sample_run] sample_run
  by (simp add: sample_policy_def default_retention_policy_def)

text \<open>
  Other prompts of a user are not safe: one with an image counts as a screenshot, of which the latest is
  kept, and one that mentions a mark such as \<open>Git branch:\<close> as a status message, and is dropped.
\<close>

lemma image_prompts_dropped:
  fixes first second :: "unit response_item"
  defines "first \<equiv> Message (lit ''user'') [InputText (lit ''fix a''), InputImage (lit ''x'')] ()"
    and "second \<equiv> Message (lit ''user'') [InputText (lit ''fix b''), InputImage (lit ''y'')] ()"
  shows "fst (apply_retention_policy_owned [first, second] default_retention_policy) = [second]"
proof -
  have "categorize_item first = Screenshot" "categorize_item second = Screenshot"
      "estimate_item_size first = 6" "estimate_item_size second = 6"
    by (simp_all add: first_def second_def any_input_text_def is_status_text_def ENV_CTX_OPEN_def
        ENV_CTX_DELTA_OPEN_def BROWSER_SNAPSHOT_OPEN_def byte_len_def utf8_len_def str_eval)
  then show ?thesis
    by (simp add: apply_retention_policy_owned_def categorize_all_def categorized_item_new_def
        default_retention_policy_def select_items_owned_def collect_selection_def Let_def
        other_items_def of_category_def pop_latest_owned_def drain_excess_def sizes_def
        default_retention_stats_def usize_saturating_add_def usize_max_def)
qed

lemma marked_prompt_dropped:
  "fst (apply_retention_policy_owned [Message (lit ''user'') [InputText (lit ''Git branch: why?'')] ()]
     default_retention_policy) = []"
proof -
  have "categorize_item (Message (lit ''user'') [InputText (lit ''Git branch: why?'')] ()) = StatusMessage"
    by (simp add: any_input_text_def is_status_text_def ENV_CTX_OPEN_def ENV_CTX_DELTA_OPEN_def
        BROWSER_SNAPSHOT_OPEN_def str_eval)
  then show ?thesis
    by (simp add: apply_retention_policy_owned_def categorize_all_def categorized_item_new_def
        default_retention_policy_def select_items_owned_def collect_selection_def Let_def
        other_items_def of_category_def pop_latest_owned_def drain_excess_def sizes_def
        default_retention_stats_def del: categorize_item.simps)
qed

text \<open>
  The variant that takes the history by value, with its saturating counters, returns the same
  history and the same statistics as the variant that borrows it, for every history of at most
  \<open>usize::MAX\<close> bytes.
\<close>

theorem retention_variants_agree:
  assumes "item_bytes items \<le> usize_max"
  shows "apply_retention_policy items policy = apply_retention_policy_owned items policy"
  using assms by (rule variants_agree)

theorem retention_variants_agree_witness:
  "apply_retention_policy sample_history sample_policy = (drop 2 sample_history, sample_stats)"
  using retention_variants_agree [OF sample_bytes(2), of sample_policy] sample_run by simp

text \<open>
  The budget outranks the rule that the latest baseline is kept, and what it drops does not count as
  removed: here the only baseline is lost, and the statistics report no removal.
\<close>

lemma budget_drops_latest_baseline:
  assumes "categorize_item a = EnvBaseline" and "estimate_item_size a > max_total_bytes policy"
    and "estimate_item_size a \<le> usize_max" and "keep_latest_baseline policy"
  shows "fst (apply_retention_policy_owned [a] policy) = [] \<and>
    \<not> any_removed (snd (apply_retention_policy_owned [a] policy)) \<and>
    dropped_for_budget (snd (apply_retention_policy_owned [a] policy)) = 1"
  using assms
  by (simp add: apply_retention_policy_owned_def categorize_all_def categorized_item_new_def
      select_items_owned_def collect_selection_def Let_def other_items_def of_category_def
      pop_latest_owned_def drain_excess_def sizes_def default_retention_stats_def usize_saturating_add_def
      any_removed_def)

end
