(* ===== verification/Auth_Accounts.thy ===== *)
theory Auth_Accounts
  imports Rust_Prelude
begin

text \<open>
  The stored accounts and the active credentials, \<open>code-rs/core/src/auth_accounts.rs\<close> and the
  part of \<open>code-rs/core/src/auth.rs\<close> that logs in and out, activates an account and loads the
  credentials of a session.

  The two files of the code home are explicit: a file is absent, unreadable or has a text. What is
  outside the crate is a parameter: the derived JSON readers and writers and the decoding of an
  identity token are the fields of \<^emph>\<open>auth_codec\<close>; the clock, fresh identifiers and whether a write
  succeeds may differ from call to call and are added in \<^emph>\<open>auth_env\<close>. A time is an integer; the
  client and path fields of the credentials of a session are left out.
\<close>

section \<open>Data\<close>

datatype auth_mode = ApiKey | Chatgpt | ChatgptAuthTokens

fun is_chatgpt :: "auth_mode \<Rightarrow> bool" where
  "is_chatgpt ApiKey \<longleftrightarrow> False"
| "is_chatgpt Chatgpt \<longleftrightarrow> True"
| "is_chatgpt ChatgptAuthTokens \<longleftrightarrow> True"

datatype known_plan = FreePlan | PlusPlan | ProPlan | ProLitePlan | TeamPlan | BusinessPlan | EnterprisePlan | EduPlan

datatype plan_type = KnownPlan known_plan | UnknownPlan rstr

record id_token_info =
  email :: "rstr option"
  chatgpt_plan_type :: "plan_type option"
  chatgpt_account_is_fedramp :: bool
  raw_jwt :: rstr

record token_data =
  id_token :: id_token_info
  access_token :: rstr
  refresh_token :: rstr
  token_account_id :: "rstr option"

record stored_account =
  acc_id :: rstr
  acc_mode :: auth_mode
  acc_label :: "rstr option"
  acc_api_key :: "rstr option"
  acc_tokens :: "token_data option"
  acc_last_refresh :: "int option"
  acc_created_at :: "int option"
  acc_last_used_at :: "int option"

record accounts_file =
  file_version :: u32
  active_account_id :: "rstr option"
  stored_accounts :: "stored_account list"

definition default_version :: u32 where "default_version = 1"

definition default_accounts_file :: accounts_file where
  "default_accounts_file = \<lparr>file_version = default_version, active_account_id = None, stored_accounts = []\<rparr>"

record auth_dot_json =
  auth_mode_field :: "auth_mode option"
  auth_api_key :: "rstr option"
  auth_tokens :: "token_data option"
  auth_last_refresh :: "int option"

datatype auth_error =
    AuthIoError
  | AuthJsonError
  | IdTokenError
  | AccountNotFound rstr
  | KeyMissing
  | TokensMissing
  | NotFoundError

datatype stored_text = Absent | Unreadable | Text rstr

record auth_home =
  accounts_json :: stored_text
  auth_json :: stored_text

record id_claims =
  claims_email :: "rstr option"
  claims_auth :: "(plan_type option \<times> bool) option"

record auth_codec =
  accounts_from_str :: "rstr \<Rightarrow> accounts_file option"
  accounts_stream :: "rstr \<Rightarrow> accounts_file option list"
  accounts_to_str :: "accounts_file \<Rightarrow> rstr option"
  auth_from_str :: "rstr \<Rightarrow> auth_dot_json option"
  auth_to_str :: "auth_dot_json \<Rightarrow> rstr option"
  decode_claims :: "rstr \<Rightarrow> id_claims option"

record auth_env = auth_codec +
  accounts_writable :: bool
  auth_writable :: bool
  auth_removable :: bool
  clock_created :: int
  clock_used :: int
  clock_refresh :: int
  next_id :: rstr
  legacy_auth_json :: stored_text
  openai_api_key_env :: "rstr option"

text \<open>A step of the code that reads or writes the files, and the \<open>?\<close> operator on such steps.\<close>

type_synonym 'a auth_io = "auth_home \<Rightarrow> (auth_error + 'a) \<times> auth_home"

definition io_ok :: "'a \<Rightarrow> 'a auth_io" where
  "io_ok a home = (Inr a, home)"

definition io_err :: "auth_error \<Rightarrow> 'a auth_io" where
  "io_err e home = (Inl e, home)"

definition io_then :: "'a auth_io \<Rightarrow> ('a \<Rightarrow> 'b auth_io) \<Rightarrow> 'b auth_io" where
  "io_then step f home =
     (case step home of (Inl e, home') \<Rightarrow> (Inl e, home') | (Inr a, home') \<Rightarrow> f a home')"

section \<open>Identity tokens\<close>

text \<open>The claims are the JSON in the second of three non-empty parts of the token.\<close>

definition decode_jwt_payload :: "'c auth_codec_scheme \<Rightarrow> rstr \<Rightarrow> id_claims option" where
  "decode_jwt_payload codec jwt =
     (case split_on 46 jwt of
        h # p # s # _ \<Rightarrow> if h \<noteq> [] \<and> p \<noteq> [] \<and> s \<noteq> [] then decode_claims codec p else None
      | _ \<Rightarrow> None)"

definition parse_id_token :: "'c auth_codec_scheme \<Rightarrow> rstr \<Rightarrow> id_token_info option" where
  "parse_id_token codec jwt =
     (case decode_jwt_payload codec jwt of
        None \<Rightarrow> None
      | Some claims \<Rightarrow>
          Some \<lparr>email = claims_email claims,
                chatgpt_plan_type = Option.bind (claims_auth claims) fst,
                chatgpt_account_is_fedramp = (case claims_auth claims of Some auth \<Rightarrow> snd auth | None \<Rightarrow> False),
                raw_jwt = jwt\<rparr>)"

section \<open>The accounts file\<close>

text \<open>The loop over the values of a file that holds several: any error gives the original error.\<close>

fun recover_values :: "accounts_file option list \<Rightarrow> nat \<Rightarrow> accounts_file option \<Rightarrow> (nat \<times> accounts_file option) option" where
  "recover_values [] recovered_count latest = Some (recovered_count, latest)"
| "recover_values (Some parsed # rest) recovered_count latest = recover_values rest (recovered_count + 1) (Some parsed)"
| "recover_values (None # rest) recovered_count latest = None"

definition parse_accounts_file :: "auth_env \<Rightarrow> rstr \<Rightarrow> auth_error + accounts_file \<times> bool" where
  "parse_accounts_file env contents =
     (if trim contents = [] then Inr (default_accounts_file, False)
      else case accounts_from_str env contents of
        Some parsed \<Rightarrow> Inr (parsed, False)
      | None \<Rightarrow>
          (case recover_values (accounts_stream env contents) 0 None of
             Some (count, Some parsed) \<Rightarrow> if count > 1 then Inr (parsed, True) else Inl AuthJsonError
           | _ \<Rightarrow> Inl AuthJsonError))"

text \<open>The new text replaces the file at once (a temporary file is renamed), or nothing changes.\<close>

definition write_accounts_file :: "auth_env \<Rightarrow> accounts_file \<Rightarrow> unit auth_io" where
  "write_accounts_file env data home =
     (case accounts_to_str env data of
        None \<Rightarrow> (Inl AuthJsonError, home)
      | Some json \<Rightarrow>
          if accounts_writable env then (Inr (), home\<lparr>accounts_json := Text json\<rparr>) else (Inl AuthIoError, home))"

definition read_accounts_file :: "auth_env \<Rightarrow> accounts_file auth_io" where
  "read_accounts_file env home =
     (case accounts_json home of
        Absent \<Rightarrow> (Inr default_accounts_file, home)
      | Unreadable \<Rightarrow> (Inl AuthIoError, home)
      | Text contents \<Rightarrow>
          (case parse_accounts_file env contents of
             Inl e \<Rightarrow> (Inl e, home)
           | Inr (parsed, repaired) \<Rightarrow>
               if repaired then io_then (write_accounts_file env parsed) (\<lambda>_. io_ok parsed) home
               else (Inr parsed, home)))"

definition normalize_email :: "rstr \<Rightarrow> rstr" where
  "normalize_email e = to_ascii_lowercase (trim e)"

fun both_equal :: "('a \<Rightarrow> 'b) \<Rightarrow> 'a option \<Rightarrow> 'a option \<Rightarrow> bool" where
  "both_equal f (Some a) (Some b) \<longleftrightarrow> f a = f b"
| "both_equal f _ _ \<longleftrightarrow> False"

definition match_chatgpt_account :: "stored_account \<Rightarrow> token_data \<Rightarrow> bool" where
  "match_chatgpt_account existing tokens \<longleftrightarrow>
     is_chatgpt (acc_mode existing) \<and>
     (case acc_tokens existing of
        None \<Rightarrow> False
      | Some existing_tokens \<Rightarrow>
          both_equal (\<lambda>a. a) (token_account_id existing_tokens) (token_account_id tokens) \<and>
          both_equal normalize_email (email (id_token existing_tokens)) (email (id_token tokens)))"

definition match_api_key_account :: "stored_account \<Rightarrow> rstr \<Rightarrow> bool" where
  "match_api_key_account existing api_key \<longleftrightarrow> acc_mode existing = ApiKey \<and> acc_api_key existing = Some api_key"

definition touch_account :: "auth_env \<Rightarrow> bool \<Rightarrow> stored_account \<Rightarrow> stored_account" where
  "touch_account env used account =
     (let account = (if acc_created_at account = None
                     then account\<lparr>acc_created_at := Some (clock_created env)\<rparr> else account)
      in if used then account\<lparr>acc_last_used_at := Some (clock_used env)\<rparr> else account)"

definition existing_index :: "accounts_file \<Rightarrow> stored_account \<Rightarrow> nat option" where
  "existing_index data new_account =
     (if is_chatgpt (acc_mode new_account)
      then (case acc_tokens new_account of
              None \<Rightarrow> None
            | Some tokens \<Rightarrow> position (\<lambda>acc. match_chatgpt_account acc tokens) (stored_accounts data))
      else (case acc_api_key new_account of
              None \<Rightarrow> None
            | Some api_key \<Rightarrow> position (\<lambda>acc. match_api_key_account acc api_key) (stored_accounts data)))"

text \<open>A field of the new account replaces the stored one where it is set.\<close>

definition merge_account :: "stored_account \<Rightarrow> stored_account \<Rightarrow> stored_account" where
  "merge_account account new_account = account
     \<lparr>acc_label := or_else (acc_label new_account) (acc_label account),
      acc_last_refresh := or_else (acc_last_refresh new_account) (acc_last_refresh account),
      acc_tokens := or_else (acc_tokens new_account) (acc_tokens account),
      acc_api_key := or_else (acc_api_key new_account) (acc_api_key account),
      acc_last_used_at := or_else (acc_last_used_at new_account) (acc_last_used_at account)\<rparr>"

definition upsert_account :: "auth_env \<Rightarrow> accounts_file \<Rightarrow> stored_account \<Rightarrow> accounts_file \<times> stored_account" where
  "upsert_account env data new_account =
     (case existing_index data new_account of
        Some idx \<Rightarrow>
          (let account = merge_account (stored_accounts data ! idx) new_account
           in (data\<lparr>stored_accounts := (stored_accounts data)[idx := account]\<rparr>, account))
      | None \<Rightarrow>
          (let new_account = (if acc_created_at new_account = None
                              then new_account\<lparr>acc_created_at := Some (clock_created env)\<rparr> else new_account)
           in (data\<lparr>stored_accounts := stored_accounts data @ [new_account]\<rparr>, new_account)))"

definition list_accounts :: "auth_env \<Rightarrow> stored_account list auth_io" where
  "list_accounts env = io_then (read_accounts_file env) (\<lambda>data. io_ok (stored_accounts data))"

definition get_active_account_id :: "auth_env \<Rightarrow> rstr option auth_io" where
  "get_active_account_id env = io_then (read_accounts_file env) (\<lambda>data. io_ok (active_account_id data))"

definition find_account :: "auth_env \<Rightarrow> rstr \<Rightarrow> stored_account option auth_io" where
  "find_account env account_id =
     io_then (read_accounts_file env) (\<lambda>data. io_ok (find (\<lambda>acc. acc_id acc = account_id) (stored_accounts data)))"

text \<open>\<open>iter_mut().find\<close> followed by a change: the first account with the id is touched.\<close>

fun touch_first :: "auth_env \<Rightarrow> rstr \<Rightarrow> stored_account list \<Rightarrow> stored_account list \<times> stored_account option" where
  "touch_first env i [] = ([], None)"
| "touch_first env i (acc # accs) =
     (if acc_id acc = i then (touch_account env True acc # accs, Some (touch_account env True acc))
      else (let (accs', found) = touch_first env i accs in (acc # accs', found)))"

text \<open>The operations that change the file read it, change the data and write it back.\<close>

definition update_accounts :: "auth_env \<Rightarrow> (accounts_file \<Rightarrow> accounts_file \<times> 'a) \<Rightarrow> 'a auth_io" where
  "update_accounts env change =
     io_then (read_accounts_file env)
       (\<lambda>data. let (data, r) = change data in io_then (write_accounts_file env data) (\<lambda>_. io_ok r))"

definition mark_active :: "auth_env \<Rightarrow> rstr option \<Rightarrow> accounts_file \<Rightarrow> accounts_file \<times> stored_account option" where
  "mark_active env account_id data =
     (case account_id of
        Some i \<Rightarrow>
          (let (accs, found) = touch_first env i (stored_accounts data)
           in (data\<lparr>active_account_id := account_id, stored_accounts := accs\<rparr>, found))
      | None \<Rightarrow> (data\<lparr>active_account_id := None\<rparr>, None))"

definition set_active_account_id :: "auth_env \<Rightarrow> rstr option \<Rightarrow> stored_account option auth_io" where
  "set_active_account_id env account_id = update_accounts env (mark_active env account_id)"

definition drop_account :: "rstr \<Rightarrow> accounts_file \<Rightarrow> accounts_file \<times> stored_account option" where
  "drop_account account_id data =
     (let (accs, removed) =
            (case position (\<lambda>acc. acc_id acc = account_id) (stored_accounts data) of
               Some pos \<Rightarrow> (take pos (stored_accounts data) @ drop (Suc pos) (stored_accounts data),
                            Some (stored_accounts data ! pos))
             | None \<Rightarrow> (stored_accounts data, None));
          active = (if active_account_id data = Some account_id then None else active_account_id data)
      in (data\<lparr>stored_accounts := accs, active_account_id := active\<rparr>, removed))"

definition remove_account :: "auth_env \<Rightarrow> rstr \<Rightarrow> stored_account option auth_io" where
  "remove_account env account_id = update_accounts env (drop_account account_id)"

definition upsert_and_mark :: "auth_env \<Rightarrow> stored_account \<Rightarrow> bool \<Rightarrow> accounts_file \<Rightarrow> accounts_file \<times> stored_account" where
  "upsert_and_mark env new_account make_active data =
     (let (data, stored) = upsert_account env data new_account
      in if make_active
         then (let (data, found) = mark_active env (Some (acc_id stored)) data
               in (data, case found of Some account \<Rightarrow> account | None \<Rightarrow> stored))
         else (data, stored))"

definition upsert_api_key_account :: "auth_env \<Rightarrow> rstr \<Rightarrow> rstr option \<Rightarrow> bool \<Rightarrow> stored_account auth_io" where
  "upsert_api_key_account env api_key label make_active =
     update_accounts env (upsert_and_mark env
       \<lparr>acc_id = next_id env, acc_mode = ApiKey, acc_label = label, acc_api_key = Some api_key,
        acc_tokens = None, acc_last_refresh = None, acc_created_at = None, acc_last_used_at = None\<rparr> make_active)"

definition upsert_chatgpt_account ::
    "auth_env \<Rightarrow> token_data \<Rightarrow> int \<Rightarrow> rstr option \<Rightarrow> bool \<Rightarrow> stored_account auth_io" where
  "upsert_chatgpt_account env tokens last_refresh label make_active =
     update_accounts env (upsert_and_mark env
       \<lparr>acc_id = next_id env, acc_mode = Chatgpt, acc_label = label, acc_api_key = None,
        acc_tokens = Some tokens, acc_last_refresh = Some last_refresh, acc_created_at = None,
        acc_last_used_at = None\<rparr> make_active)"

section \<open>Logging in and out\<close>

definition write_auth_json :: "auth_env \<Rightarrow> auth_dot_json \<Rightarrow> unit auth_io" where
  "write_auth_json env auth home =
     (case auth_to_str env auth of
        None \<Rightarrow> (Inl AuthJsonError, home)
      | Some json \<Rightarrow>
          if auth_writable env then (Inr (), home\<lparr>auth_json := Text json\<rparr>) else (Inl AuthIoError, home))"

definition remove_auth_file :: "auth_env \<Rightarrow> bool auth_io" where
  "remove_auth_file env home =
     (if auth_json home = Absent then (Inr False, home)
      else if auth_removable env then (Inr True, home\<lparr>auth_json := Absent\<rparr>) else (Inl AuthIoError, home))"

definition logout :: "auth_env \<Rightarrow> bool auth_io" where
  "logout env =
     io_then (remove_auth_file env)
       (\<lambda>removed. io_then (set_active_account_id env None) (\<lambda>_. io_ok removed))"

definition login_with_api_key :: "auth_env \<Rightarrow> rstr \<Rightarrow> unit auth_io" where
  "login_with_api_key env api_key =
     io_then (write_auth_json env
                \<lparr>auth_mode_field = Some ApiKey, auth_api_key = Some api_key, auth_tokens = None,
                 auth_last_refresh = None\<rparr>)
       (\<lambda>_. io_then (upsert_api_key_account env api_key None True) (\<lambda>_. io_ok ()))"

definition plan_of_name :: "rstr \<Rightarrow> plan_type" where
  "plan_of_name plan =
     (let name = to_ascii_lowercase (trim plan)
      in if name = lit ''free'' then KnownPlan FreePlan
         else if name = lit ''plus'' then KnownPlan PlusPlan
         else if name = lit ''pro'' then KnownPlan ProPlan
         else if name = lit ''prolite'' then KnownPlan ProLitePlan
         else if name = lit ''team'' then KnownPlan TeamPlan
         else if name = lit ''business'' then KnownPlan BusinessPlan
         else if name = lit ''enterprise'' then KnownPlan EnterprisePlan
         else if name = lit ''edu'' then KnownPlan EduPlan
         else UnknownPlan plan)"

definition login_with_chatgpt_auth_tokens :: "auth_env \<Rightarrow> rstr \<Rightarrow> rstr \<Rightarrow> rstr option \<Rightarrow> unit auth_io" where
  "login_with_chatgpt_auth_tokens env access chatgpt_account_id plan =
     (case parse_id_token env access of
        None \<Rightarrow> io_err IdTokenError
      | Some info \<Rightarrow>
          let info = (case plan of Some p \<Rightarrow> info\<lparr>chatgpt_plan_type := Some (plan_of_name p)\<rparr> | None \<Rightarrow> info);
              tokens = \<lparr>id_token = info, access_token = access, refresh_token = [],
                        token_account_id = Some chatgpt_account_id\<rparr>
          in io_then (write_auth_json env
                        \<lparr>auth_mode_field = Some ChatgptAuthTokens, auth_api_key = None,
                         auth_tokens = Some tokens, auth_last_refresh = Some (clock_refresh env)\<rparr>)
               (\<lambda>_. io_then (upsert_chatgpt_account env tokens (clock_refresh env) (email info) True)
                      (\<lambda>_. io_ok ())))"

definition credentials_of :: "stored_account \<Rightarrow> auth_error + auth_dot_json" where
  "credentials_of account =
     (if is_chatgpt (acc_mode account)
      then (case acc_tokens account of
              None \<Rightarrow> Inl TokensMissing
            | Some tokens \<Rightarrow>
                Inr \<lparr>auth_mode_field = Some (acc_mode account), auth_api_key = None,
                     auth_tokens = Some tokens, auth_last_refresh = acc_last_refresh account\<rparr>)
      else (case acc_api_key account of
              None \<Rightarrow> Inl KeyMissing
            | Some api_key \<Rightarrow>
                Inr \<lparr>auth_mode_field = Some ApiKey, auth_api_key = Some api_key, auth_tokens = None,
                     auth_last_refresh = None\<rparr>))"

definition activate_account :: "auth_env \<Rightarrow> rstr \<Rightarrow> unit auth_io" where
  "activate_account env account_id =
     io_then (find_account env account_id)
       (\<lambda>found. case found of
          None \<Rightarrow> io_err (AccountNotFound account_id)
        | Some account \<Rightarrow>
            (case credentials_of account of
               Inl e \<Rightarrow> io_err e
             | Inr auth \<Rightarrow>
                 io_then (write_auth_json env auth)
                   (\<lambda>_. io_then (set_active_account_id env (Some (acc_id account))) (\<lambda>_. io_ok ()))))"

section \<open>The credentials of a session\<close>

record codex_auth =
  ca_mode :: auth_mode
  ca_api_key :: "rstr option"
  ca_auth_dot_json :: "auth_dot_json option"

definition from_api_key :: "rstr \<Rightarrow> codex_auth" where
  "from_api_key api_key = \<lparr>ca_mode = ApiKey, ca_api_key = Some api_key, ca_auth_dot_json = None\<rparr>"

definition get_current_token_data :: "codex_auth \<Rightarrow> token_data option" where
  "get_current_token_data auth = Option.bind (ca_auth_dot_json auth) auth_tokens"

definition get_account_id :: "codex_auth \<Rightarrow> rstr option" where
  "get_account_id auth = Option.bind (get_current_token_data auth) token_account_id"

text \<open>When \<open>auth.json\<close> does not exist, the file of an older version of the program may be read.\<close>

definition try_read_auth_json :: "auth_env \<Rightarrow> auth_home \<Rightarrow> auth_error + auth_dot_json" where
  "try_read_auth_json env home =
     (case (if auth_json home = Absent then legacy_auth_json env else auth_json home) of
        Absent \<Rightarrow> Inl NotFoundError
      | Unreadable \<Rightarrow> Inl AuthIoError
      | Text contents \<Rightarrow> (case auth_from_str env contents of None \<Rightarrow> Inl AuthJsonError | Some auth \<Rightarrow> Inr auth))"

definition plan_requires_api_key :: "token_data option \<Rightarrow> bool" where
  "plan_requires_api_key tokens \<longleftrightarrow>
     Option.bind tokens (\<lambda>t. chatgpt_plan_type (id_token t)) = Some (KnownPlan EnterprisePlan)"

definition chatgpt_auth :: "auth_mode \<Rightarrow> token_data option \<Rightarrow> int option \<Rightarrow> codex_auth" where
  "chatgpt_auth mode tokens last_refresh =
     \<lparr>ca_mode = mode, ca_api_key = None,
      ca_auth_dot_json = Some \<lparr>auth_mode_field = Some mode, auth_api_key = None, auth_tokens = tokens,
                               auth_last_refresh = last_refresh\<rparr>\<rparr>"

definition load_auth_fields :: "auth_mode \<Rightarrow> auth_dot_json \<Rightarrow> auth_error + codex_auth" where
  "load_auth_fields preferred auth =
     (case auth_mode_field auth of
        Some ApiKey \<Rightarrow>
          (case auth_api_key auth of None \<Rightarrow> Inl KeyMissing | Some api_key \<Rightarrow> Inr (from_api_key api_key))
      | Some ChatgptAuthTokens \<Rightarrow>
          (case auth_tokens auth of
             None \<Rightarrow> Inl TokensMissing
           | Some tokens \<Rightarrow> Inr (chatgpt_auth ChatgptAuthTokens (Some tokens) (auth_last_refresh auth)))
      | _ \<Rightarrow>
          (let effective_preference = (if auth_mode_field auth = Some Chatgpt then Chatgpt else preferred);
               chatgpt = chatgpt_auth Chatgpt (auth_tokens auth) (auth_last_refresh auth)
           in case auth_api_key auth of
                None \<Rightarrow> Inr chatgpt
              | Some api_key \<Rightarrow>
                  if plan_requires_api_key (auth_tokens auth) then Inr (from_api_key api_key)
                  else (case auth_tokens auth of
                          Some _ \<Rightarrow> if effective_preference = ApiKey then Inr (from_api_key api_key) else Inr chatgpt
                        | None \<Rightarrow> Inr (from_api_key api_key))))"

definition load_auth :: "auth_env \<Rightarrow> bool \<Rightarrow> auth_mode \<Rightarrow> auth_home \<Rightarrow> auth_error + codex_auth option" where
  "load_auth env include_env_var preferred home =
     (case try_read_auth_json env home of
        Inl e \<Rightarrow> if e = NotFoundError \<and> include_env_var then Inr (map_option from_api_key (openai_api_key_env env)) else Inl e
      | Inr auth \<Rightarrow> (case load_auth_fields preferred auth of Inl e \<Rightarrow> Inl e | Inr ca \<Rightarrow> Inr (Some ca)))"

section \<open>Reading back what was written\<close>

text \<open>
  An identity token is written as its text alone and decoded again when the file is read; apart from
  that, the derived readers and writers give back what was written.
\<close>

definition reread_tokens :: "'c auth_codec_scheme \<Rightarrow> token_data \<Rightarrow> token_data" where
  "reread_tokens codec t =
     (case parse_id_token codec (raw_jwt (id_token t)) of Some i \<Rightarrow> t\<lparr>id_token := i\<rparr> | None \<Rightarrow> t)"

definition reread_account :: "'c auth_codec_scheme \<Rightarrow> stored_account \<Rightarrow> stored_account" where
  "reread_account codec acc = acc\<lparr>acc_tokens := map_option (reread_tokens codec) (acc_tokens acc)\<rparr>"

definition reread_file :: "'c auth_codec_scheme \<Rightarrow> accounts_file \<Rightarrow> accounts_file" where
  "reread_file codec f = f\<lparr>stored_accounts := map (reread_account codec) (stored_accounts f)\<rparr>"

definition reread_auth :: "'c auth_codec_scheme \<Rightarrow> auth_dot_json \<Rightarrow> auth_dot_json" where
  "reread_auth codec a = a\<lparr>auth_tokens := map_option (reread_tokens codec) (auth_tokens a)\<rparr>"

definition readable :: "'c auth_codec_scheme \<Rightarrow> token_data option \<Rightarrow> bool" where
  "readable codec tokens \<longleftrightarrow>
     (case tokens of
        None \<Rightarrow> True
      | Some t \<Rightarrow>
          (case parse_id_token codec (raw_jwt (id_token t)) of
             None \<Rightarrow> False | Some i \<Rightarrow> email i = email (id_token t)))"

definition file_readable :: "'c auth_codec_scheme \<Rightarrow> accounts_file \<Rightarrow> bool" where
  "file_readable codec f \<longleftrightarrow> list_all (\<lambda>acc. readable codec (acc_tokens acc)) (stored_accounts f)"

definition json_laws :: "'c auth_codec_scheme \<Rightarrow> bool" where
  "json_laws codec \<longleftrightarrow>
     (\<forall>f. file_readable codec f \<longrightarrow>
        (\<exists>t. accounts_to_str codec f = Some t \<and> trim t \<noteq> [] \<and>
             accounts_from_str codec t = Some (reread_file codec f))) \<and>
     (\<forall>a. readable codec (auth_tokens a) \<longrightarrow>
        (\<exists>t. auth_to_str codec a = Some t \<and> auth_from_str codec t = Some (reread_auth codec a)))"

text \<open>The accounts that a code home holds: those that reading the file gives.\<close>

definition holds :: "'c auth_codec_scheme \<Rightarrow> auth_home \<Rightarrow> accounts_file \<Rightarrow> bool" where
  "holds codec home f \<longleftrightarrow>
     accounts_json home = Absent \<and> f = default_accounts_file \<or>
     (\<exists>g t. accounts_json home = Text t \<and> accounts_to_str codec g = Some t \<and> file_readable codec g \<and>
        f = reread_file codec g)"

lemma io_simps [simp]:
  "io_then (io_ok a) f = f a" "io_then (io_err e) f = io_err e"
  by (simp_all add: io_then_def io_ok_def io_err_def fun_eq_iff)

lemma io_then_apply:
  "io_then m f home = (case m home of (Inl e, home') \<Rightarrow> (Inl e, home') | (Inr a, home') \<Rightarrow> f a home')"
  by (simp add: io_then_def)

lemma read_holds:
  assumes laws: "json_laws env" and "holds env home f"
  shows "read_accounts_file env home = (Inr f, home)"
proof -
  have "\<exists>t. accounts_to_str env g = Some t \<and> trim t \<noteq> [] \<and> accounts_from_str env t = Some (reread_file env g)"
    if "file_readable env g" for g
    using laws that unfolding json_laws_def by blast
  then show ?thesis
    using assms(2) by (fastforce simp: read_accounts_file_def holds_def parse_accounts_file_def)
qed

lemma holds_unique:
  fixes env :: auth_env
  assumes "json_laws env" and "holds env home f" and "holds env home g"
  shows "f = g"
  using read_holds [OF assms(1,2)] read_holds [OF assms(1,3)] by simp

definition with_accounts :: "auth_env \<Rightarrow> accounts_file \<Rightarrow> auth_home \<Rightarrow> auth_home" where
  "with_accounts env f home = home\<lparr>accounts_json := Text (the (accounts_to_str env f))\<rparr>"

lemma with_accounts_holds:
  assumes "json_laws env" and "file_readable env f"
  shows "holds env (with_accounts env f home) (reread_file env f)"
proof -
  obtain t where "accounts_to_str env f = Some t"
    using assms unfolding json_laws_def by blast
  then show ?thesis
    using assms(2) by (auto simp: holds_def with_accounts_def)
qed

lemma with_accounts_auth [simp]: "auth_json (with_accounts env f home) = auth_json home"
  by (simp add: with_accounts_def)

lemma update_accounts_eq:
  assumes laws: "json_laws env" and f: "holds env home f" and g: "change f = (f', r)" "file_readable env f'"
  shows "update_accounts env change home =
    (if accounts_writable env then (Inr r, with_accounts env f' home) else (Inl AuthIoError, home))"
proof -
  obtain t where "accounts_to_str env f' = Some t"
    using laws g(2) unfolding json_laws_def by blast
  then show ?thesis
    using read_holds [OF laws f] g(1)
    by (simp add: update_accounts_def io_then_apply write_accounts_file_def with_accounts_def io_ok_def)
qed

section \<open>The invariant of the accounts\<close>

datatype account_key = ChatgptIdentity rstr rstr | KeyIdentity rstr

definition account_identity :: "stored_account \<Rightarrow> account_key option" where
  "account_identity acc =
     (if is_chatgpt (acc_mode acc)
      then (case acc_tokens acc of
              None \<Rightarrow> None
            | Some t \<Rightarrow>
                (case (token_account_id t, email (id_token t)) of
                   (Some a, Some e) \<Rightarrow> Some (ChatgptIdentity a (normalize_email e))
                 | _ \<Rightarrow> None))
      else map_option KeyIdentity (acc_api_key acc))"

definition identities :: "stored_account list \<Rightarrow> account_key list" where
  "identities accs = List.map_filter (\<lambda>k. k) (map account_identity accs)"

definition accounts_ok :: "'c auth_codec_scheme \<Rightarrow> accounts_file \<Rightarrow> bool" where
  "accounts_ok codec f \<longleftrightarrow>
     distinct (map acc_id (stored_accounts f)) \<and> distinct (identities (stored_accounts f)) \<and>
     file_readable codec f \<and>
     (case active_account_id f of None \<Rightarrow> True | Some i \<Rightarrow> i \<in> acc_id ` set (stored_accounts f))"

lemma identities_simps [simp]:
  "identities [] = []" "identities (xs @ ys) = identities xs @ identities ys"
  "identities (a # xs) = (case account_identity a of None \<Rightarrow> identities xs | Some k \<Rightarrow> k # identities xs)"
  by (simp_all add: identities_def map_filter_def split: option.split)

lemma match_chatgpt_iff:
  assumes "is_chatgpt (acc_mode new)" and "acc_tokens new = Some tokens"
  shows "match_chatgpt_account acc tokens \<longleftrightarrow>
    account_identity new \<noteq> None \<and> account_identity acc = account_identity new"
  using assms
  by (auto simp: match_chatgpt_account_def account_identity_def split: option.splits)

lemma match_api_key_iff:
  assumes "\<not> is_chatgpt (acc_mode new)" and "acc_api_key new = Some key"
  shows "match_api_key_account acc key \<longleftrightarrow> account_identity acc = account_identity new"
  using assms
  by (cases "acc_mode acc") (auto simp: match_api_key_account_def account_identity_def split: option.splits)

lemma existing_index_eq:
  "existing_index data new =
     (case account_identity new of
        None \<Rightarrow> None
      | Some k \<Rightarrow> position (\<lambda>acc. account_identity acc = Some k) (stored_accounts data))"
proof (cases "is_chatgpt (acc_mode new)")
  case True
  then show ?thesis
    using match_chatgpt_iff [OF True]
    by (auto simp: existing_index_def position_None_iff account_identity_def [of new] split: option.splits)
next
  case False
  then show ?thesis
    using match_api_key_iff [OF False]
    by (auto simp: existing_index_def account_identity_def [of new] split: option.splits)
qed

lemma merge_account_keeps [simp]:
  "acc_id (merge_account acc new) = acc_id acc" "acc_mode (merge_account acc new) = acc_mode acc"
  by (simp_all add: merge_account_def)

lemma merge_account_identity:
  assumes "account_identity acc = Some k" and "account_identity new = Some k"
  shows "account_identity (merge_account acc new) = Some k"
  using assms
  by (auto simp: account_identity_def merge_account_def or_else_def split: if_splits option.splits)

lemma touch_account_keeps [simp]:
  "acc_id (touch_account env used acc) = acc_id acc" "acc_mode (touch_account env used acc) = acc_mode acc"
  "acc_tokens (touch_account env used acc) = acc_tokens acc" "acc_api_key (touch_account env used acc) = acc_api_key acc"
  "acc_last_refresh (touch_account env used acc) = acc_last_refresh acc"
  by (simp_all add: touch_account_def Let_def)

text \<open>Touching an account keeps everything but its times.\<close>

definition acc_key :: "stored_account \<Rightarrow> rstr \<times> auth_mode \<times> token_data option \<times> rstr option \<times> int option" where
  "acc_key acc = (acc_id acc, acc_mode acc, acc_tokens acc, acc_api_key acc, acc_last_refresh acc)"

lemma touch_first_keys: "map acc_key (fst (touch_first env i accs)) = map acc_key accs"
  by (induction accs) (simp_all add: acc_key_def split_beta Let_def)

lemma touch_first_found: "snd (touch_first env i accs) = map_option (touch_account env True) (find (\<lambda>acc. acc_id acc = i) accs)"
  by (induction accs) (simp_all add: split_beta Let_def)

text \<open>What depends on the keys only.\<close>

lemma map_by_key:
  assumes "map g xs = map g ys" and "\<And>a b. g a = g b \<Longrightarrow> f a = f b"
  shows "map f xs = map f ys"
  using assms(1)
proof (induction xs ys rule: list_induct2')
  case (4 x xs y ys)
  then show ?case
    using assms(2) [of x y] by simp
qed simp_all

lemma acc_key_determines:
  assumes "map acc_key accs = map acc_key accs'"
  shows "map acc_id accs = map acc_id accs'" "map account_identity accs = map account_identity accs'"
    "map acc_tokens accs = map acc_tokens accs'"
  by (rule map_by_key [OF assms], simp add: acc_key_def account_identity_def)+

lemma accounts_ok_by_key:
  assumes "map acc_key (stored_accounts f) = map acc_key (stored_accounts g)" and "accounts_ok codec g"
    and "active_account_id f \<in> {None, active_account_id g} \<union> Some ` acc_id ` set (stored_accounts g)"
  shows "accounts_ok codec f"
proof -
  note same = acc_key_determines [OF assms(1)]
  have "acc_id ` set (stored_accounts f) = acc_id ` set (stored_accounts g)"
    using same(1) by (metis list.set_map)
  moreover have "file_readable codec f = file_readable codec g"
    unfolding file_readable_def using arg_cong [OF same(3), of "list_all (readable codec)"]
    by (simp add: list.pred_map comp_def)
  ultimately show ?thesis
    using assms(2,3) same by (auto simp: accounts_ok_def identities_def split: option.splits)
qed

lemma mark_active_ok:
  assumes "accounts_ok env f" and "\<And>i. account_id = Some i \<Longrightarrow> i \<in> acc_id ` set (stored_accounts f)"
  shows "accounts_ok env (fst (mark_active env account_id f))"
proof (rule accounts_ok_by_key [OF _ assms(1)])
  show "map acc_key (stored_accounts (fst (mark_active env account_id f))) = map acc_key (stored_accounts f)"
    by (simp add: mark_active_def split_beta Let_def touch_first_keys split: option.split)
  show "active_account_id (fst (mark_active env account_id f)) \<in>
      {None, active_account_id f} \<union> Some ` acc_id ` set (stored_accounts f)"
    using assms(2) by (auto simp: mark_active_def split_beta Let_def split: option.split)
qed

lemma drop_account_ok:
  assumes "accounts_ok codec f"
  shows "accounts_ok codec (fst (drop_account account_id f))"
proof (cases "position (\<lambda>acc. acc_id acc = account_id) (stored_accounts f)")
  case None
  then show ?thesis
    using assms by (auto simp: drop_account_def accounts_ok_def file_readable_def split: option.splits)
next
  case (Some pos)
  let ?accs = "stored_accounts f"
  have pos: "pos < length ?accs" "acc_id (?accs ! pos) = account_id"
    using position_Some [OF Some] by simp_all
  have split: "?accs = take pos ?accs @ ?accs ! pos # drop (Suc pos) ?accs"
    using pos(1) by (rule id_take_nth_drop)
  define xs where "xs = take pos ?accs"
  define y where "y = ?accs ! pos"
  define zs where "zs = drop (Suc pos) ?accs"
  have accs: "?accs = xs @ y # zs"
    using split by (simp add: xs_def y_def zs_def)
  have "distinct (identities (xs @ zs))"
    using assms by (auto simp: accounts_ok_def accs split: option.splits)
  moreover have "fst (drop_account account_id f) =
      f\<lparr>stored_accounts := xs @ zs,
        active_account_id := if active_account_id f = Some account_id then None else active_account_id f\<rparr>"
    using Some by (simp add: drop_account_def xs_def zs_def)
  ultimately show ?thesis
    using assms pos(2) [folded y_def] by (auto simp: accounts_ok_def accs file_readable_def split: option.splits)
qed

lemma upsert_account_ok:
  assumes ok: "accounts_ok env f" and fresh: "acc_id new \<notin> acc_id ` set (stored_accounts f)"
    and parsed: "readable env (acc_tokens new)" and run: "upsert_account env f new = (f', stored)"
  shows "accounts_ok env f'" "stored \<in> set (stored_accounts f')"
proof -
  have "accounts_ok env f' \<and> stored \<in> set (stored_accounts f')"
  proof (cases "existing_index f new")
    case None
    define n where "n = (if acc_created_at new = None then new\<lparr>acc_created_at := Some (clock_created env)\<rparr> else new)"
    have n: "acc_id n = acc_id new" "account_identity n = account_identity new" "acc_tokens n = acc_tokens new"
      by (simp_all add: n_def account_identity_def)
    have "case account_identity new of None \<Rightarrow> True | Some k \<Rightarrow> k \<notin> set (identities (stored_accounts f))"
      using None by (auto simp: existing_index_eq position_None_iff identities_def map_filter_def split: option.splits)
    moreover have "f' = f\<lparr>stored_accounts := stored_accounts f @ [n]\<rparr>" "stored = n"
      using run None by (auto simp: upsert_account_def Let_def n_def)
    ultimately show ?thesis
      using ok fresh parsed n
      by (auto simp: accounts_ok_def file_readable_def split: option.splits)
  next
    case (Some idx)
    let ?accs = "stored_accounts f"
    define m where "m = merge_account (?accs ! idx) new"
    obtain k where k: "account_identity new = Some k" "idx < length ?accs" "account_identity (?accs ! idx) = Some k"
      using Some position_Some by (auto simp: existing_index_eq split: option.splits)
    then have "account_identity m = Some k"
      by (simp add: m_def merge_account_identity)
    then have maps: "map account_identity (?accs[idx := m]) = map account_identity ?accs"
        "map acc_id (?accs[idx := m]) = map acc_id ?accs"
      using k by (simp_all add: map_update list_update_same_conv m_def)
    have "readable env (acc_tokens (?accs ! idx))"
      using ok k(2) by (simp add: accounts_ok_def file_readable_def list_all_length)
    then have "readable env (acc_tokens m)"
      using parsed by (auto simp: m_def merge_account_def or_else_def split: option.split)
    then have "list_all (\<lambda>acc. readable env (acc_tokens acc)) (?accs[idx := m])"
      using ok by (auto simp: accounts_ok_def file_readable_def list_all_iff dest: set_update_subset_insert [THEN subsetD])
    moreover have "f' = f\<lparr>stored_accounts := ?accs[idx := m]\<rparr>" "stored = m"
      using run Some by (auto simp: upsert_account_def Let_def m_def)
    moreover have "acc_id ` set (?accs[idx := m]) = acc_id ` set ?accs"
      using maps(2) by (metis list.set_map)
    ultimately show ?thesis
      using ok maps k(2)
      by (auto simp: accounts_ok_def identities_def file_readable_def set_update_memI split: option.splits)
  qed
  then show "accounts_ok env f'" "stored \<in> set (stored_accounts f')"
    by simp_all
qed

lemma upsert_and_mark_ok:
  assumes "accounts_ok env f" and "acc_id new \<notin> acc_id ` set (stored_accounts f)"
    and "readable env (acc_tokens new)"
  shows "accounts_ok env (fst (upsert_and_mark env new make_active f))"
proof -
  obtain f' stored where run: "upsert_account env f new = (f', stored)"
    by fastforce
  show ?thesis
    using upsert_account_ok [OF assms run] mark_active_ok [of env f' "Some (acc_id stored)"]
    by (simp add: upsert_and_mark_def run split_beta Let_def)
qed

text \<open>Reading the file again changes no identity.\<close>

lemma reread_account_simps [simp]:
  "acc_id (reread_account codec acc) = acc_id acc" "acc_mode (reread_account codec acc) = acc_mode acc"
  "acc_api_key (reread_account codec acc) = acc_api_key acc"
  "acc_last_refresh (reread_account codec acc) = acc_last_refresh acc"
  "acc_tokens (reread_account codec acc) = map_option (reread_tokens codec) (acc_tokens acc)"
  by (simp_all add: reread_account_def)

lemma reread_file_simps [simp]:
  "active_account_id (reread_file codec f) = active_account_id f"
  "stored_accounts (reread_file codec f) = map (reread_account codec) (stored_accounts f)"
  by (simp_all add: reread_file_def)

lemma parse_id_token_raw: "parse_id_token codec jwt = Some i \<Longrightarrow> raw_jwt i = jwt"
  by (auto simp: parse_id_token_def split: option.splits)

lemma reread_tokens_readable:
  "readable codec (Some t) \<Longrightarrow> readable codec (Some (reread_tokens codec t)) \<and>
     email (id_token (reread_tokens codec t)) = email (id_token t)"
  by (auto simp: readable_def reread_tokens_def parse_id_token_raw split: option.splits)

lemma reread_tokens_account_id [simp]: "token_account_id (reread_tokens codec t) = token_account_id t"
  by (simp add: reread_tokens_def split: option.split)

lemma reread_account_identity:
  "readable codec (acc_tokens acc) \<Longrightarrow> account_identity (reread_account codec acc) = account_identity acc"
  using reread_tokens_readable [of codec] by (auto simp: account_identity_def split: option.split)

lemma reread_tokens_idem [simp]: "reread_tokens codec (reread_tokens codec t) = reread_tokens codec t"
  by (cases "parse_id_token codec (raw_jwt (id_token t))")
    (simp_all add: reread_tokens_def parse_id_token_raw)

lemma holds_reread:
  assumes "holds codec home f" and "account \<in> set (stored_accounts f)"
  shows "map_option (reread_tokens codec) (acc_tokens account) = acc_tokens account"
  using assms by (auto simp: holds_def default_accounts_file_def option.map_comp comp_def)

lemma reread_file_ok:
  assumes "accounts_ok codec f"
  shows "accounts_ok codec (reread_file codec f)"
proof -
  have readable: "\<forall>acc\<in>set (stored_accounts f). readable codec (acc_tokens acc)"
    using assms by (simp add: accounts_ok_def file_readable_def list_all_iff)
  then have "map account_identity (map (reread_account codec) (stored_accounts f)) =
      map account_identity (stored_accounts f)"
    by (simp add: reread_account_identity)
  then have "identities (map (reread_account codec) (stored_accounts f)) = identities (stored_accounts f)"
    by (simp only: identities_def)
  moreover have "readable codec (map_option (reread_tokens codec) (acc_tokens acc))"
    if "acc \<in> set (stored_accounts f)" for acc
    using readable that reread_tokens_readable [of codec] by (cases "acc_tokens acc") auto
  ultimately show ?thesis
    using assms
    by (cases "active_account_id f") (simp_all add: accounts_ok_def file_readable_def list_all_iff comp_def image_image)
qed

lemma update_accounts_ok:
  assumes laws: "json_laws env" and f: "holds env home f" and ok: "accounts_ok env (fst (change f))"
  shows "\<exists>f'. holds env (snd (update_accounts env change home)) f' \<and> (f' = f \<or> accounts_ok env f')"
proof -
  obtain f' r where run: "change f = (f', r)"
    by fastforce
  have readable: "file_readable env f'"
    using ok run by (simp add: accounts_ok_def)
  show ?thesis
    unfolding update_accounts_eq [where change = change, OF laws f run readable]
    using f with_accounts_holds [OF laws readable] reread_file_ok ok run by auto
qed

section \<open>Every history of the store\<close>

text \<open>
  One call of the public interface, in any environment with the same readers and writers. A new
  account gets a fresh identifier, and the tokens handed in are ones that can be read back.
\<close>

definition fresh_id :: "auth_env \<Rightarrow> auth_home \<Rightarrow> bool" where
  "fresh_id env home \<longleftrightarrow>
     (case fst (read_accounts_file env home) of
        Inl e \<Rightarrow> True | Inr f \<Rightarrow> next_id env \<notin> acc_id ` set (stored_accounts f))"

inductive account_step :: "auth_codec \<Rightarrow> auth_home \<Rightarrow> auth_home \<Rightarrow> bool" for codec where
  add_key: "account_step codec home (snd (upsert_api_key_account env api_key label make_active home))"
    if "auth_codec.truncate env = codec" and "fresh_id env home"
| add_chatgpt: "account_step codec home (snd (upsert_chatgpt_account env tokens last_refresh label make_active home))"
    if "auth_codec.truncate env = codec" and "fresh_id env home" and "readable codec (Some tokens)"
| login_key: "account_step codec home (snd (login_with_api_key env api_key home))"
    if "auth_codec.truncate env = codec" and "fresh_id env home"
| login_tokens: "account_step codec home (snd (login_with_chatgpt_auth_tokens env access chatgpt_id plan home))"
    if "auth_codec.truncate env = codec" and "fresh_id env home"
| log_out: "account_step codec home (snd (logout env home))" if "auth_codec.truncate env = codec"
| activate: "account_step codec home (snd (activate_account env account_id home))"
    if "auth_codec.truncate env = codec"
| remove: "account_step codec home (snd (remove_account env account_id home))"
    if "auth_codec.truncate env = codec"

definition store_ok :: "'c auth_codec_scheme \<Rightarrow> auth_home \<Rightarrow> bool" where
  "store_ok codec home \<longleftrightarrow> (\<exists>f. holds codec home f \<and> accounts_ok codec f)"

text \<open>The invariant only looks at the readers and writers, and at the accounts file.\<close>

lemma codec_fields:
  assumes "auth_codec.truncate env = codec"
  shows "accounts_from_str env = accounts_from_str codec" "accounts_to_str env = accounts_to_str codec"
    "auth_from_str env = auth_from_str codec" "auth_to_str env = auth_to_str codec"
    "decode_claims env = decode_claims codec"
  using assms by (auto simp: auth_codec.truncate_def)

lemma parse_id_token_cong:
  assumes "decode_claims env = decode_claims codec"
  shows "parse_id_token env = parse_id_token codec"
  by (rule ext) (unfold parse_id_token_def decode_jwt_payload_def assms, rule refl)

lemma reread_cong:
  assumes "decode_claims env = decode_claims codec"
  shows "readable env = readable codec" "file_readable env = file_readable codec"
    "reread_file env = reread_file codec" "reread_auth env = reread_auth codec"
proof -
  have tokens: "reread_tokens env = reread_tokens codec"
    by (unfold fun_eq_iff reread_tokens_def parse_id_token_cong [OF assms]) simp
  show "reread_file env = reread_file codec" "reread_auth env = reread_auth codec"
    by (unfold fun_eq_iff reread_file_def reread_account_def reread_auth_def tokens) simp_all
  show "readable env = readable codec" "file_readable env = file_readable codec"
    by (unfold fun_eq_iff readable_def file_readable_def parse_id_token_cong [OF assms]) simp_all
qed

lemma codec_store:
  assumes "auth_codec.truncate env = codec"
  shows "json_laws env = json_laws codec" "store_ok env home = store_ok codec home"
    "holds env = holds codec" "accounts_ok env = accounts_ok codec" "readable env = readable codec"
  using codec_fields [OF assms] reread_cong [OF codec_fields(5) [OF assms]]
  by (simp_all add: fun_eq_iff holds_def accounts_ok_def json_laws_def store_ok_def)

lemma update_accounts_store:
  assumes laws: "json_laws env" and ok: "store_ok env home"
    and change: "\<And>f. holds env home f \<Longrightarrow> accounts_ok env f \<Longrightarrow> accounts_ok env (fst (change f))"
  shows "store_ok env (snd (update_accounts env change home))"
  using ok update_accounts_ok [OF laws, where change = change] change
  unfolding store_ok_def by blast

lemma store_ok_auth_json [simp]: "store_ok env (home\<lparr>auth_json := t\<rparr>) = store_ok env home"
  by (simp add: store_ok_def holds_def)

lemma holds_auth_json [simp]: "holds env (home\<lparr>auth_json := t\<rparr>) = holds env home"
  by (simp add: fun_eq_iff holds_def)

lemma write_auth_json_cases:
  assumes "write_auth_json env auth home = (r, home')"
  obtains t where "home' = home\<lparr>auth_json := t\<rparr>"
  using assms that [of "auth_json home"] by (auto simp: write_auth_json_def split: option.splits if_splits)

text \<open>Triples over steps: from every home with \<open>P\<close> the step, failing or not, leads to one with \<open>Q\<close>.\<close>

definition io_triple :: "(auth_home \<Rightarrow> bool) \<Rightarrow> 'a auth_io \<Rightarrow> (auth_home \<Rightarrow> bool) \<Rightarrow> bool" where
  "io_triple P step Q \<longleftrightarrow> (\<forall>home. P home \<longrightarrow> Q (snd (step home)))"

lemma io_tripleD: "io_triple P step Q \<Longrightarrow> P home \<Longrightarrow> Q (snd (step home))"
  by (simp add: io_triple_def)

lemma io_triple_simple [simp]: "io_triple P (io_ok a) P" "io_triple P (io_err e) P"
  by (simp_all add: io_triple_def io_ok_def io_err_def)

lemma io_triple_then:
  assumes "io_triple P step R" and "\<And>a. io_triple R (f a) Q" and "\<And>home. R home \<Longrightarrow> Q home"
  shows "io_triple P (io_then step f) Q"
  unfolding io_triple_def
proof (intro allI impI)
  fix home assume "P home"
  then have "R (snd (step home))"
    using assms(1) by (rule io_tripleD [rotated])
  then show "Q (snd (io_then step f home))"
    using io_tripleD [OF assms(2)] assms(3)
    by (cases "step home") (auto simp: io_then_apply split: sum.split)
qed

definition fresh_in :: "auth_env \<Rightarrow> auth_home \<Rightarrow> bool" where
  "fresh_in env home \<longleftrightarrow> (\<forall>f. holds env home f \<longrightarrow> next_id env \<notin> acc_id ` set (stored_accounts f))"

lemma fresh_in_auth_json [simp]: "fresh_in env (home\<lparr>auth_json := t\<rparr>) = fresh_in env home"
  by (simp add: fresh_in_def)

lemma fresh_id_in: "json_laws env \<Longrightarrow> fresh_id env home \<Longrightarrow> fresh_in env home"
  by (auto simp: fresh_in_def fresh_id_def read_holds)

lemma update_triple:
  assumes "json_laws env"
    and "\<And>home f. P home \<Longrightarrow> holds env home f \<Longrightarrow> accounts_ok env f \<Longrightarrow> accounts_ok env (fst (change f))"
  shows "io_triple (\<lambda>home. store_ok env home \<and> P home) (update_accounts env change) (store_ok env)"
  unfolding io_triple_def using assms update_accounts_store by blast

lemma upsert_triple:
  assumes "json_laws env" and "readable env (acc_tokens new)" and "acc_id new = next_id env"
  shows "io_triple (\<lambda>home. store_ok env home \<and> fresh_in env home)
    (update_accounts env (upsert_and_mark env new make_active)) (store_ok env)"
  using assms by (intro update_triple upsert_and_mark_ok) (auto simp: fresh_in_def)

lemma upsert_key_triple:
  assumes "json_laws env"
  shows "io_triple (\<lambda>home. store_ok env home \<and> fresh_in env home)
    (upsert_api_key_account env api_key label make_active) (store_ok env)"
  unfolding upsert_api_key_account_def using assms by (rule upsert_triple) (simp_all add: readable_def)

lemma upsert_chatgpt_triple:
  assumes "json_laws env" and "readable env (Some tokens)"
  shows "io_triple (\<lambda>home. store_ok env home \<and> fresh_in env home)
    (upsert_chatgpt_account env tokens last_refresh label make_active) (store_ok env)"
  unfolding upsert_chatgpt_account_def using assms(1) by (rule upsert_triple) (simp_all add: assms(2))

lemma write_auth_triple:
  "io_triple (\<lambda>home. store_ok env home \<and> fresh_in env home) (write_auth_json env auth)
     (\<lambda>home. store_ok env home \<and> fresh_in env home)"
  "io_triple (store_ok env) (write_auth_json env auth) (store_ok env)"
  by (simp_all add: io_triple_def write_auth_json_def split: option.split)

lemma set_active_triple:
  assumes "json_laws env"
    and "\<And>home f i. P home \<Longrightarrow> holds env home f \<Longrightarrow> account_id = Some i \<Longrightarrow> i \<in> acc_id ` set (stored_accounts f)"
  shows "io_triple (\<lambda>home. store_ok env home \<and> P home) (set_active_account_id env account_id) (store_ok env)"
  unfolding set_active_account_id_def using assms(1)
proof (rule update_triple)
  fix home f assume "P home" "holds env home f" "accounts_ok env f"
  then show "accounts_ok env (fst (mark_active env account_id f))"
    using assms(2) by (intro mark_active_ok)
qed

lemma login_key_triple:
  assumes "json_laws env"
  shows "io_triple (\<lambda>home. store_ok env home \<and> fresh_in env home) (login_with_api_key env api_key) (store_ok env)"
  unfolding login_with_api_key_def
  by (intro io_triple_then [OF write_auth_triple(1)] io_triple_then [OF upsert_key_triple [OF assms]]) simp_all

lemma login_tokens_triple:
  assumes "json_laws env"
  shows "io_triple (\<lambda>home. store_ok env home \<and> fresh_in env home)
    (login_with_chatgpt_auth_tokens env access chatgpt_id plan) (store_ok env)"
proof (cases "parse_id_token env access")
  case None
  then show ?thesis
    by (simp add: login_with_chatgpt_auth_tokens_def io_triple_def io_err_def)
next
  case (Some info)
  let ?info = "case plan of Some p \<Rightarrow> info\<lparr>chatgpt_plan_type := Some (plan_of_name p)\<rparr> | None \<Rightarrow> info"
  have "readable env (Some \<lparr>id_token = ?info, access_token = access, refresh_token = [],
      token_account_id = Some chatgpt_id\<rparr>)"
    using Some parse_id_token_raw [OF Some] by (simp add: readable_def split: option.split)
  note upsert = upsert_chatgpt_triple [OF assms this]
  show ?thesis
    by (simp only: login_with_chatgpt_auth_tokens_def Some option.case Let_def)
      (intro io_triple_then [OF write_auth_triple(1)] io_triple_then [OF upsert]; simp)
qed

lemma logout_triple:
  assumes "json_laws env"
  shows "io_triple (store_ok env) (logout env) (store_ok env)"
proof -
  have "io_triple (store_ok env) (remove_auth_file env) (store_ok env)"
    by (simp add: io_triple_def remove_auth_file_def)
  moreover have "io_triple (store_ok env) (set_active_account_id env None) (store_ok env)"
    using set_active_triple [OF assms, of "\<lambda>_. True" None] by simp
  ultimately show ?thesis
    unfolding logout_def by (intro io_triple_then) simp_all
qed

lemma find_account_eq:
  assumes "json_laws env" and "holds env home f"
  shows "find_account env i home = (Inr (find (\<lambda>acc. acc_id acc = i) (stored_accounts f)), home)"
  using read_holds [OF assms] by (simp add: find_account_def io_then_apply io_ok_def)

lemma activate_account_eq:
  assumes "json_laws env" and "holds env home f"
  shows "activate_account env i home =
    (case find (\<lambda>acc. acc_id acc = i) (stored_accounts f) of
       None \<Rightarrow> (Inl (AccountNotFound i), home)
     | Some account \<Rightarrow>
         (case credentials_of account of
            Inl e \<Rightarrow> (Inl e, home)
          | Inr auth \<Rightarrow>
              io_then (write_auth_json env auth)
                (\<lambda>_. io_then (set_active_account_id env (Some (acc_id account))) (\<lambda>_. io_ok ())) home))"
  using find_account_eq [OF assms, of i]
  by (simp add: activate_account_def io_then_apply io_err_def split: option.split sum.split)

lemma activate_triple:
  assumes "json_laws env"
  shows "io_triple (store_ok env) (activate_account env i) (store_ok env)"
  unfolding io_triple_def
proof (intro allI impI)
  fix home assume ok: "store_ok env home"
  then obtain f where f: "holds env home f"
    by (auto simp: store_ok_def)
  show "store_ok env (snd (activate_account env i home))"
  proof (cases "find (\<lambda>acc. acc_id acc = i) (stored_accounts f)")
    case None
    then show ?thesis
      using ok by (simp add: activate_account_eq [OF assms f])
  next
    case (Some account)
    let ?P = "\<lambda>home. store_ok env home \<and> holds env home f"
    have member: "acc_id account \<in> acc_id ` set (stored_accounts f)"
      using Some by (auto simp: find_Some_iff)
    have active: "io_triple ?P (set_active_account_id env (Some (acc_id account))) (store_ok env)"
      using assms by (rule set_active_triple) (metis assms member holds_unique option.inject)
    have "io_triple ?P (write_auth_json env auth) ?P" for auth
      by (simp add: io_triple_def write_auth_json_def split: option.split)
    then have "io_triple ?P (io_then (write_auth_json env auth)
        (\<lambda>_. io_then (set_active_account_id env (Some (acc_id account))) (\<lambda>_. io_ok ()))) (store_ok env)" for auth
      by (rule io_triple_then) (simp_all add: io_triple_then [OF active])
    then show ?thesis
      using ok f Some by (auto simp: activate_account_eq [OF assms f] dest: io_tripleD split: sum.split)
  qed
qed

lemma remove_triple:
  assumes "json_laws env"
  shows "io_triple (store_ok env) (remove_account env i) (store_ok env)"
  unfolding remove_account_def
  using update_triple [where P = "\<lambda>_. True" and change = "drop_account i", OF assms] by (simp add: drop_account_ok)

lemma account_step_ok:
  assumes "account_step codec home home'" and "json_laws codec" and "store_ok codec home"
  shows "store_ok codec home'"
  using assms
proof (cases rule: account_step.cases)
  case (add_key env api_key label make_active)
  then show ?thesis
    using assms(2,3) io_tripleD [OF upsert_key_triple] fresh_id_in by (metis codec_store(1,2))
next
  case (add_chatgpt env tokens last_refresh label make_active)
  then show ?thesis
    using assms(2,3) io_tripleD [OF upsert_chatgpt_triple] fresh_id_in by (metis codec_store(1,2,5))
next
  case (login_key env api_key)
  then show ?thesis
    using assms(2,3) io_tripleD [OF login_key_triple] fresh_id_in by (metis codec_store(1,2))
next
  case (login_tokens env access chatgpt_id plan)
  then show ?thesis
    using assms(2,3) io_tripleD [OF login_tokens_triple] fresh_id_in by (metis codec_store(1,2))
next
  case (log_out env)
  then show ?thesis
    using assms(2,3) io_tripleD [OF logout_triple] by (metis codec_store(1,2))
next
  case (activate env account_id)
  then show ?thesis
    using assms(2,3) io_tripleD [OF activate_triple] by (metis codec_store(1,2))
next
  case (remove env account_id)
  then show ?thesis
    using assms(2,3) io_tripleD [OF remove_triple] by (metis codec_store(1,2))
qed

lemma find_distinct:
  assumes "distinct (map f xs)" and "x \<in> set xs"
  shows "find (\<lambda>y. f y = f x) xs = Some x"
  using assms by (induction xs) auto

end
