(* ===== verification/Auth_Props.thy ===== *)
theory Auth_Props
  imports Auth_Accounts "HOL-Library.Countable"
begin

text \<open>
  The properties of the stored accounts and of the active credentials, and a concrete instance of
  the JSON readers and writers that satisfies their laws.
\<close>

section \<open>An instance of the readers and writers\<close>

instance auth_mode :: countable
  by countable_datatype

instance known_plan :: countable
  by countable_datatype

instance plan_type :: countable
  by countable_datatype

definition tokens_tuple where
  "tokens_tuple t = (email (id_token t), chatgpt_plan_type (id_token t), chatgpt_account_is_fedramp (id_token t),
     raw_jwt (id_token t), access_token t, refresh_token t, token_account_id t)"

fun tokens_of where
  "tokens_of (e, p, d, r, a, f, i) =
     \<lparr>id_token = \<lparr>email = e, chatgpt_plan_type = p, chatgpt_account_is_fedramp = d, raw_jwt = r\<rparr>,
      access_token = a, refresh_token = f, token_account_id = i\<rparr>"

definition account_tuple where
  "account_tuple a = (acc_id a, acc_mode a, acc_label a, acc_api_key a, map_option tokens_tuple (acc_tokens a),
     acc_last_refresh a, acc_created_at a, acc_last_used_at a)"

fun account_of where
  "account_of (i, m, l, k, t, r, c, u) =
     \<lparr>acc_id = i, acc_mode = m, acc_label = l, acc_api_key = k, acc_tokens = map_option tokens_of t,
      acc_last_refresh = r, acc_created_at = c, acc_last_used_at = u\<rparr>"

definition file_tuple where
  "file_tuple f = (uint (file_version f), active_account_id f, map account_tuple (stored_accounts f))"

fun file_of where
  "file_of (v, i, accs) = \<lparr>file_version = word_of_int v, active_account_id = i, stored_accounts = map account_of accs\<rparr>"

definition auth_tuple where
  "auth_tuple a = (auth_mode_field a, auth_api_key a, map_option tokens_tuple (auth_tokens a), auth_last_refresh a)"

fun auth_of where
  "auth_of (m, k, t, r) =
     \<lparr>auth_mode_field = m, auth_api_key = k, auth_tokens = map_option tokens_of t, auth_last_refresh = r\<rparr>"

lemma tokens_inverse [simp]: "tokens_of (tokens_tuple t) = t"
  by (simp add: tokens_tuple_def)

lemma map_inverse: "(\<And>x. g (f x) = x) \<Longrightarrow> map_option g (map_option f a) = a" "(\<And>x. g (f x) = x) \<Longrightarrow> map g (map f xs) = xs"
  by (simp_all add: option.map_comp comp_def option.map_ident)

lemma account_inverse [simp]: "account_of (account_tuple a) = a"
  unfolding account_tuple_def account_of.simps map_inverse(1) [where g = tokens_of, OF tokens_inverse] by simp

lemma file_inverse [simp]: "file_of (file_tuple f) = f"
  unfolding file_tuple_def file_of.simps map_inverse(2) [where g = account_of, OF account_inverse] by simp

lemma auth_inverse [simp]: "auth_of (auth_tuple j) = j"
  unfolding auth_tuple_def auth_of.simps map_inverse(1) [where g = tokens_of, OF tokens_inverse] by simp

definition sample_claims :: "rstr \<Rightarrow> id_claims option" where
  "sample_claims payload = Some \<lparr>claims_email = Some payload, claims_auth = Some (Some (KnownPlan ProPlan), False)\<rparr>"

definition blank_codec :: auth_codec where
  "blank_codec = \<lparr>accounts_from_str = \<lambda>_. None, accounts_stream = \<lambda>_. [], accounts_to_str = \<lambda>_. None,
     auth_from_str = \<lambda>_. None, auth_to_str = \<lambda>_. None, decode_claims = sample_claims\<rparr>"

definition sample_codec :: auth_codec where
  "sample_codec =
     \<lparr>accounts_from_str = \<lambda>t. (case t of [_, n] \<Rightarrow> Some (reread_file blank_codec (file_of (from_nat n))) | _ \<Rightarrow> None),
      accounts_stream = \<lambda>_. [],
      accounts_to_str = \<lambda>f. Some [123, to_nat (file_tuple f)],
      auth_from_str = \<lambda>t. (case t of [_, n] \<Rightarrow> Some (reread_auth blank_codec (auth_of (from_nat n))) | _ \<Rightarrow> None),
      auth_to_str = \<lambda>a. Some [123, to_nat (auth_tuple a)],
      decode_claims = sample_claims\<rparr>"

lemma sample_codec_laws: "json_laws sample_codec"
proof -
  have "decode_claims sample_codec = decode_claims blank_codec"
    by (simp add: sample_codec_def blank_codec_def)
  from reread_cong [OF this] show ?thesis
    by (auto simp: json_laws_def sample_codec_def trim_def trim_matches_def trim_start_matches_def
        trim_end_matches_def is_whitespace_def)
qed

section \<open>Properties\<close>

text \<open>
  (C25) Starting without an accounts file, after any sequence of logins, insertions, activations,
  removals and logouts, with any failures of the disk, the accounts file can be read and lists
  accounts with distinct identifiers, of which no two have the same API key and no two of ChatGPT have both
  the same account id and the same e-mail address (in its normal form), and the active account is one of
  them. Nothing is claimed of accounts of ChatGPT without an account id or an e-mail address.
\<close>

theorem account_store_invariant:
  assumes "json_laws codec" and "accounts_json home = Absent" and "(account_step codec)\<^sup>*\<^sup>* home home'"
  shows "\<exists>f. holds codec home' f \<and> distinct (map acc_id (stored_accounts f)) \<and>
    distinct (identities (stored_accounts f)) \<and>
    (\<forall>i. active_account_id f = Some i \<longrightarrow> i \<in> acc_id ` set (stored_accounts f)) \<and>
    (\<forall>env. auth_codec.truncate env = codec \<longrightarrow> list_accounts env home' = (Inr (stored_accounts f), home'))"
proof -
  have "store_ok codec home'"
    using assms(3)
  proof (induction rule: rtranclp_induct)
    case base
    then show ?case
      using assms(2) by (auto simp: store_ok_def holds_def accounts_ok_def default_accounts_file_def file_readable_def)
  next
    case (step home1 home2)
    then show ?case
      using account_step_ok assms(1) by blast
  qed
  then obtain f where f: "holds codec home' f" "accounts_ok codec f"
    by (auto simp: store_ok_def)
  have "list_accounts env home' = (Inr (stored_accounts f), home')" if "auth_codec.truncate env = codec" for env
    using read_holds [of env home' f] assms(1) f(1) codec_store(1,3) [OF that]
    by (simp add: list_accounts_def io_then_apply io_ok_def)
  then show ?thesis
    using f by (auto simp: accounts_ok_def)
qed

definition sample_env :: auth_env where
  "sample_env = auth_codec.extend sample_codec
     \<lparr>accounts_writable = True, auth_writable = True, auth_removable = True, clock_created = 1, clock_used = 2,
      clock_refresh = 3, next_id = lit ''id-1'', legacy_auth_json = Absent, openai_api_key_env = None\<rparr>"

definition empty_home :: auth_home where
  "empty_home = \<lparr>accounts_json = Absent, auth_json = Absent\<rparr>"

lemma sample_env_codec: "auth_codec.truncate sample_env = sample_codec"
  by (simp add: sample_env_def sample_codec_def auth_codec.defs)

lemma sample_env_laws: "json_laws sample_env"
  using codec_store(1) [OF sample_env_codec] sample_codec_laws by simp

lemma sample_login: "(account_step sample_codec)\<^sup>*\<^sup>* empty_home (snd (login_with_api_key sample_env (lit ''key'') empty_home))"
  by (intro r_into_rtranclp account_step.login_key [OF sample_env_codec])
    (simp add: fresh_id_def read_accounts_file_def empty_home_def default_accounts_file_def)

theorem account_store_invariant_witness:
  "\<exists>f. holds sample_codec (snd (login_with_api_key sample_env (lit ''key'') empty_home)) f \<and>
     distinct (map acc_id (stored_accounts f))"
  using account_store_invariant [OF sample_codec_laws _ sample_login] by (auto simp: empty_home_def)

text \<open>Such an account is never recognised, so every login with it is stored as a further account.\<close>

lemma account_without_email_stored_again:
  assumes "is_chatgpt (acc_mode new)" and "acc_tokens new = Some t"
    and "email (id_token t) = None \<or> token_account_id t = None"
  shows "\<exists>created. stored_accounts (fst (upsert_account env f new)) =
    stored_accounts f @ [new\<lparr>acc_created_at := created\<rparr>]"
proof -
  have "position (\<lambda>acc. match_chatgpt_account acc t) (stored_accounts f) = None"
    using assms(3) by (auto simp: position_None_iff match_chatgpt_account_def split: option.split)
  then have "existing_index f new = None"
    using assms(1,2) by (simp add: existing_index_def)
  moreover have "\<exists>created. new = new\<lparr>acc_created_at := created\<rparr>"
    by (rule exI [of _ "acc_created_at new"]) simp
  ultimately show ?thesis
    by (auto simp: upsert_account_def Let_def)
qed

lemma reread_by_key:
  assumes "map acc_key xs = map acc_key ys"
    and "\<forall>y\<in>set ys. map_option (reread_tokens codec) (acc_tokens y) = acc_tokens y"
  shows "map acc_key (map (reread_account codec) xs) = map acc_key ys"
proof -
  have "map (\<lambda>acc. acc_key (reread_account codec acc)) xs = map (\<lambda>acc. acc_key (reread_account codec acc)) ys"
    by (rule map_by_key [OF assms(1)]) (simp add: acc_key_def)
  also have "\<dots> = map acc_key ys"
    using assms(2) by (simp add: acc_key_def)
  finally show ?thesis
    by (simp add: comp_def)
qed

lemma load_credentials:
  assumes "credentials_of account = Inr auth" and "auth_json home = Text t"
    and "auth_from_str env t = Some (reread_auth env auth)"
    and "map_option (reread_tokens env) (acc_tokens account) = acc_tokens account"
  shows "\<exists>ca. load_auth env include_env_var preferred home = Inr (Some ca) \<and> ca_mode ca = acc_mode account \<and>
    (if is_chatgpt (acc_mode account) then get_current_token_data ca = acc_tokens account
     else ca_api_key ca = acc_api_key account)"
  using assms
  by (cases "acc_mode account"; cases "acc_tokens account")
    (auto simp: load_auth_def try_read_auth_json_def credentials_of_def reread_auth_def load_auth_fields_def
      from_api_key_def chatgpt_auth_def get_current_token_data_def split: option.splits)

lemma activation_ok:
  assumes laws: "json_laws env" and f: "holds env home f" "accounts_ok env f"
    and account: "account \<in> set (stored_accounts f)" "credentials_of account = Inr auth"
    and writable: "accounts_writable env" "auth_writable env"
  shows "\<exists>home' f' ca. activate_account env (acc_id account) home = (Inr (), home') \<and> holds env home' f' \<and>
    active_account_id f' = Some (acc_id account) \<and>
    map acc_key (stored_accounts f') = map acc_key (stored_accounts f) \<and>
    load_auth env include_env_var preferred home' = Inr (Some ca) \<and> ca_mode ca = acc_mode account \<and>
    (if is_chatgpt (acc_mode account) then get_current_token_data ca = acc_tokens account
     else ca_api_key ca = acc_api_key account)"
proof -
  have found: "find (\<lambda>acc. acc_id acc = acc_id account) (stored_accounts f) = Some account"
    using f(2) account(1) by (intro find_distinct) (simp add: accounts_ok_def)
  have "readable env (acc_tokens account)"
    using f(2) account(1) by (auto simp: accounts_ok_def file_readable_def list_all_iff)
  then have "readable env (auth_tokens auth)"
    using account(2) by (auto simp: credentials_of_def readable_def split: if_splits option.splits)
  then obtain t where t: "auth_to_str env auth = Some t" "auth_from_str env t = Some (reread_auth env auth)"
    using laws unfolding json_laws_def by blast
  let ?home = "home\<lparr>auth_json := Text t\<rparr>" and ?marked = "fst (mark_active env (Some (acc_id account)) f)"
  have "accounts_ok env ?marked"
    using f(2) account(1) by (intro mark_active_ok) auto
  then have readable: "file_readable env ?marked"
    by (simp add: accounts_ok_def)
  have holds: "holds env ?home f"
    using f(1) by simp
  have set: "set_active_account_id env (Some (acc_id account)) ?home =
      (Inr (snd (mark_active env (Some (acc_id account)) f)), with_accounts env ?marked ?home)"
    unfolding set_active_account_id_def
    using update_accounts_eq [where change = "mark_active env (Some (acc_id account))", OF laws holds prod.collapse [symmetric] readable]
      writable(1) by simp
  let ?home' = "with_accounts env ?marked ?home"
  have "activate_account env (acc_id account) home = (Inr (), ?home')"
    using found account(2) t(1) writable(2) set
    by (simp add: activate_account_eq [OF laws f(1)] write_auth_json_def io_then_apply io_ok_def)
  moreover have "holds env ?home' (reread_file env ?marked)"
    by (rule with_accounts_holds [OF laws readable])
  moreover have "map acc_key (stored_accounts (reread_file env ?marked)) = map acc_key (stored_accounts f)"
    using holds_reread [OF f(1)]
    by (simp only: reread_file_simps) (intro reread_by_key; simp add: mark_active_def split_beta touch_first_keys)
  moreover have "active_account_id (reread_file env ?marked) = Some (acc_id account)"
    by (simp add: mark_active_def split_beta)
  ultimately show ?thesis
    using load_credentials [OF account(2) _ t(2) holds_reread [OF f(1) account(1)], of ?home'] by (simp; blast)
qed

text \<open>
  Activating a stored account that has credentials makes it the active account and the
  credentials of the next session: loading them gives the mode of the account and exactly its key or
  its tokens. The stored accounts keep their identifiers, modes and credentials.
\<close>

theorem activation_roundtrip:
  assumes "json_laws env" and "holds env home f" "accounts_ok env f"
    and "account \<in> set (stored_accounts f)" "credentials_of account = Inr auth"
    and "accounts_writable env" "auth_writable env"
  shows "\<exists>home' f' ca. activate_account env (acc_id account) home = (Inr (), home') \<and> holds env home' f' \<and>
    active_account_id f' = Some (acc_id account) \<and>
    map acc_key (stored_accounts f') = map acc_key (stored_accounts f) \<and>
    load_auth env include_env_var preferred home' = Inr (Some ca) \<and> ca_mode ca = acc_mode account \<and>
    (if is_chatgpt (acc_mode account) then get_current_token_data ca = acc_tokens account
     else ca_api_key ca = acc_api_key account)"
  using assms by (rule activation_ok)

definition sample_info :: "rstr \<Rightarrow> id_token_info" where
  "sample_info jwt = \<lparr>email = Some (lit ''a''), chatgpt_plan_type = Some (KnownPlan ProPlan),
     chatgpt_account_is_fedramp = False, raw_jwt = jwt\<rparr>"

definition sample_tokens :: "rstr \<Rightarrow> rstr \<Rightarrow> token_data" where
  "sample_tokens jwt chatgpt_id =
     \<lparr>id_token = sample_info jwt, access_token = jwt, refresh_token = [], token_account_id = Some chatgpt_id\<rparr>"

definition chatgpt_account :: "rstr \<Rightarrow> token_data \<Rightarrow> stored_account" where
  "chatgpt_account i tokens =
     \<lparr>acc_id = i, acc_mode = Chatgpt, acc_label = None, acc_api_key = None, acc_tokens = Some tokens,
      acc_last_refresh = None, acc_created_at = None, acc_last_used_at = None\<rparr>"

definition sample_file :: accounts_file where
  "sample_file = default_accounts_file
     \<lparr>stored_accounts := [chatgpt_account (lit ''id-0'') (sample_tokens (lit ''h.a.s'') (lit ''ws-0'')),
                          chatgpt_account (lit ''id-1'') (sample_tokens (lit ''g.a.s'') (lit ''ws-1''))]\<rparr>"

lemma sample_parse:
  "parse_id_token sample_env (lit ''h.a.s'') = Some (sample_info (lit ''h.a.s''))"
  "parse_id_token sample_env (lit ''g.a.s'') = Some (sample_info (lit ''g.a.s''))"
  by (simp_all add: parse_id_token_def decode_jwt_payload_def sample_env_def sample_codec_def auth_codec.defs
      sample_claims_def sample_info_def str_eval)

lemma sample_tokens_simps [simp]:
  "raw_jwt (sample_info jwt) = jwt" "id_token (sample_tokens jwt i) = sample_info jwt"
  "token_account_id (sample_tokens jwt i) = Some i" "email (sample_info jwt) = Some (lit ''a'')"
  "(sample_tokens jwt i)\<lparr>id_token := sample_info jwt\<rparr> = sample_tokens jwt i"
  by (simp_all add: sample_tokens_def sample_info_def)

lemma chatgpt_account_simps [simp]:
  "acc_id (chatgpt_account i t) = i" "acc_mode (chatgpt_account i t) = Chatgpt"
  "acc_tokens (chatgpt_account i t) = Some t" "(chatgpt_account i t)\<lparr>acc_tokens := Some u\<rparr> = chatgpt_account i u"
  by (simp_all add: chatgpt_account_def)

lemma sample_file_readable: "file_readable sample_env sample_file" "reread_file sample_env sample_file = sample_file"
  by (simp_all add: file_readable_def readable_def sample_file_def sample_parse reread_file_def reread_account_def
      reread_tokens_def)

lemma sample_file_holds: "holds sample_env (with_accounts sample_env sample_file empty_home) sample_file"
  using with_accounts_holds [OF sample_env_laws sample_file_readable(1), of empty_home]
  by (simp add: sample_file_readable(2))

lemma sample_file_ok: "accounts_ok sample_env sample_file"
  using sample_file_readable(1)
  by (simp add: accounts_ok_def sample_file_def default_accounts_file_def account_identity_def)
    (simp add: str_eval)

lemma sample_account:
  fixes i j w
  defines "account \<equiv> chatgpt_account i (sample_tokens j w)"
  shows "credentials_of account = Inr \<lparr>auth_mode_field = Some Chatgpt, auth_api_key = None,
    auth_tokens = Some (sample_tokens j w), auth_last_refresh = None\<rparr>"
  by (simp add: account_def credentials_of_def) (simp add: chatgpt_account_def)

lemma sample_env_simps [simp]:
  "accounts_writable sample_env" "auth_writable sample_env"
  by (simp_all add: sample_env_def auth_codec.defs)

lemma sample_member:
  "chatgpt_account (lit ''id-1'') (sample_tokens (lit ''g.a.s'') (lit ''ws-1'')) \<in> set (stored_accounts sample_file)"
  by (simp add: sample_file_def)

theorem activation_roundtrip_witness:
  "\<exists>home' ca. activate_account sample_env (lit ''id-1'') (with_accounts sample_env sample_file empty_home) = (Inr (), home') \<and>
     load_auth sample_env True ApiKey home' = Inr (Some ca) \<and> ca_mode ca = Chatgpt \<and>
     get_current_token_data ca = Some (sample_tokens (lit ''g.a.s'') (lit ''ws-1''))"
  using activation_roundtrip [OF sample_env_laws sample_file_holds sample_file_ok sample_member sample_account,
      where include_env_var = True and preferred = ApiKey]
  by auto

text \<open>
  A login with external tokens takes the plan from its argument, but only the text of the identity
  token is written: the credentials of the next session have the plan of that text.
\<close>

lemma accounts_keep_auth:
  defines "P a \<equiv> \<lambda>home. auth_json home = a"
  shows "io_triple (P a) (write_accounts_file env f) (P a)" "io_triple (P a) (read_accounts_file env) (P a)"
    "io_triple (P a) (update_accounts env change) (P a)"
proof -
  show written: "io_triple (P a) (write_accounts_file env f) (P a)" for f
    by (simp add: io_triple_def P_def write_accounts_file_def split: option.split)
  then have repair: "io_triple (P a) (io_then (write_accounts_file env f) (\<lambda>_. io_ok f)) (P a)" for f
    by (rule io_triple_then) simp_all
  then show read: "io_triple (P a) (read_accounts_file env) (P a)"
    by (simp add: io_triple_def P_def read_accounts_file_def split: stored_text.split sum.split)
  have "io_triple (P a) (io_then (write_accounts_file env f) (\<lambda>_. io_ok r)) (P a)" for f r
    using written by (rule io_triple_then) simp_all
  then show "io_triple (P a) (update_accounts env change) (P a)"
    unfolding update_accounts_def using read by (intro io_triple_then) (simp_all add: split_beta)
qed

lemma update_accounts_auth: "update_accounts env change home = (r, home') \<Longrightarrow> auth_json home' = auth_json home"
  using io_tripleD [OF accounts_keep_auth(3), of home "auth_json home" env change] by simp

lemma external_plan_forgotten:
  assumes laws: "json_laws env" and info: "parse_id_token env access = Some info"
    and login: "login_with_chatgpt_auth_tokens env access chatgpt_id plan home = (Inr (), home')"
  shows "\<exists>ca t. load_auth env include_env_var preferred home' = Inr (Some ca) \<and> get_current_token_data ca = Some t \<and>
    chatgpt_plan_type (id_token t) = chatgpt_plan_type info"
proof -
  define info' where "info' = (case plan of Some p \<Rightarrow> info\<lparr>chatgpt_plan_type := Some (plan_of_name p)\<rparr> | None \<Rightarrow> info)"
  define tokens where "tokens = \<lparr>id_token = info', access_token = access, refresh_token = [], token_account_id = Some chatgpt_id\<rparr>"
  define auth where "auth = \<lparr>auth_mode_field = Some ChatgptAuthTokens, auth_api_key = None, auth_tokens = Some tokens,
      auth_last_refresh = Some (clock_refresh env)\<rparr>"
  have raw: "raw_jwt info' = access" "email info' = email info"
    using parse_id_token_raw [OF info] by (simp_all add: info'_def split: option.split)
  then have "readable env (auth_tokens auth)"
    using info by (simp add: auth_def readable_def tokens_def)
  then obtain t where t: "auth_to_str env auth = Some t" "auth_from_str env t = Some (reread_auth env auth)"
    using laws unfolding json_laws_def by blast
  have "auth_json home' = Text t"
    using login info t(1)
    by (auto dest!: update_accounts_auth simp: login_with_chatgpt_auth_tokens_def Let_def io_then_apply io_ok_def write_auth_json_def upsert_chatgpt_account_def
        info'_def [symmetric] tokens_def [symmetric] auth_def [symmetric] split: if_splits prod.splits sum.splits)
  then show ?thesis
    using t(2) info raw(1)
    by (simp add: load_auth_def try_read_auth_json_def load_auth_fields_def reread_auth_def auth_def chatgpt_auth_def
        get_current_token_data_def reread_tokens_def tokens_def)
qed

end
