(* ===== verification/Account_Usage.thy ===== *)
theory Account_Usage
  imports Rust_Prelude Complex_Main
begin

text \<open>
  The usage kept per account, \<open>code-rs/core/src/account_usage.rs\<close>: token totals with their hourly,
  daily and monthly buckets, the rate limit snapshots with their reset times, and the log of the
  warnings already shown.

  A time is an integer count of nanoseconds since the epoch, in the range of the time library; the
  first instant of a month comes from that library and is a parameter. A floating point number is a
  rational, an infinity or not a number. A usage file is blank, text that is not usage data, or usage
  data; \<^emph>\<open>json_reread\<close> stands for what the JSON library reads of the data it has written.
\<close>

section \<open>Numbers and times\<close>

datatype f64 = Finite rat | PosInf | NegInf | NaN

definition f64_max :: "f64 \<Rightarrow> f64 \<Rightarrow> f64" where
  "f64_max a b =
     (case (a, b) of
        (NaN, _) \<Rightarrow> b | (_, NaN) \<Rightarrow> a
      | (PosInf, _) \<Rightarrow> PosInf | (_, PosInf) \<Rightarrow> PosInf
      | (NegInf, _) \<Rightarrow> b | (_, NegInf) \<Rightarrow> a
      | (Finite x, Finite y) \<Rightarrow> Finite (max x y))"

definition EPSILON :: rat where "EPSILON = 1 / 2 ^ 52"

text \<open>\<open>(a - b).abs() < f64::EPSILON\<close>; a difference with an infinity is infinite or not a number.\<close>

definition f64_close :: "f64 \<Rightarrow> f64 \<Rightarrow> bool" where
  "f64_close a b \<longleftrightarrow> (case (a, b) of (Finite x, Finite y) \<Rightarrow> \<bar>x - y\<bar> < EPSILON | _ \<Rightarrow> False)"

definition seconds :: "int \<Rightarrow> int" where "seconds n = n * 1000000000"
definition hours :: "int \<Rightarrow> int" where "hours n = seconds (n * 3600)"
definition days :: "int \<Rightarrow> int" where "days n = hours (n * 24)"

definition USAGE_VERSION :: u32 where "USAGE_VERSION = 1"
definition HOURLY_HISTORY_DAYS :: int where "HOURLY_HISTORY_DAYS = 183"
definition UNKNOWN_RESET_RELOG_INTERVAL :: int where "UNKNOWN_RESET_RELOG_INTERVAL = hours 24"
definition RESET_PASSED_TOLERANCE :: int where "RESET_PASSED_TOLERANCE = seconds 5"

definition truncate_to_hour :: "int \<Rightarrow> int" where
  "truncate_to_hour ts = ts - ts mod hours 1"

definition truncate_to_day :: "int \<Rightarrow> int" where
  "truncate_to_day ts = ts - ts mod days 1"

section \<open>Token totals\<close>

record token_totals =
  input_tokens :: u64
  cached_input_tokens :: u64
  output_tokens :: u64
  reasoning_output_tokens :: u64
  total_tokens :: u64

record token_usage =
  usage_input :: u64
  usage_cached_input :: u64
  usage_output :: u64
  usage_reasoning_output :: u64
  usage_total :: u64

definition default_totals :: token_totals where
  "default_totals = \<lparr>input_tokens = 0, cached_input_tokens = 0, output_tokens = 0, reasoning_output_tokens = 0, total_tokens = 0\<rparr>"

definition add_usage :: "token_totals \<Rightarrow> token_usage \<Rightarrow> token_totals" where
  "add_usage t usage = t
     \<lparr>input_tokens := saturating_add (input_tokens t) (usage_input usage),
      cached_input_tokens := saturating_add (cached_input_tokens t) (usage_cached_input usage),
      output_tokens := saturating_add (output_tokens t) (usage_output usage),
      reasoning_output_tokens := saturating_add (reasoning_output_tokens t) (usage_reasoning_output usage),
      total_tokens := saturating_add (total_tokens t) (usage_total usage)\<rparr>"

definition add_totals :: "token_totals \<Rightarrow> token_totals \<Rightarrow> token_totals" where
  "add_totals t other = t
     \<lparr>input_tokens := saturating_add (input_tokens t) (input_tokens other),
      cached_input_tokens := saturating_add (cached_input_tokens t) (cached_input_tokens other),
      output_tokens := saturating_add (output_tokens t) (output_tokens other),
      reasoning_output_tokens := saturating_add (reasoning_output_tokens t) (reasoning_output_tokens other),
      total_tokens := saturating_add (total_tokens t) (total_tokens other)\<rparr>"

definition from_usage :: "token_usage \<Rightarrow> token_totals" where
  "from_usage usage = add_usage default_totals usage"

record token_window_entry =
  entry_timestamp :: int
  entry_tokens :: token_totals

record aggregated_usage_entry =
  period_start :: int
  bucket_tokens :: token_totals

record rate_limit_warning_record =
  log_threshold :: f64
  log_reset_at :: "int option"
  logged_at :: "int option"

record rate_limit_snapshot_event =
  primary_used_percent :: f64
  secondary_used_percent :: f64
  primary_to_secondary_ratio_percent :: f64
  primary_window_minutes :: u64
  secondary_window_minutes :: u64
  primary_reset_after_seconds :: "u64 option"
  secondary_reset_after_seconds :: "u64 option"

record rate_limit_info =
  rli_snapshot :: "rate_limit_snapshot_event option"
  observed_at :: "int option"
  primary_next_reset_at :: "int option"
  secondary_next_reset_at :: "int option"
  last_refresh_attempt_at :: "int option"
  last_usage_limit_hit_at :: "int option"
  primary_threshold_logs :: "rate_limit_warning_record list"
  secondary_threshold_logs :: "rate_limit_warning_record list"

definition default_rate_limit_info :: rate_limit_info where
  "default_rate_limit_info =
     \<lparr>rli_snapshot = None, observed_at = None, primary_next_reset_at = None, secondary_next_reset_at = None,
      last_refresh_attempt_at = None, last_usage_limit_hit_at = None, primary_threshold_logs = [],
      secondary_threshold_logs = []\<rparr>"

record account_usage_data =
  usage_version :: u32
  usage_account_id :: rstr
  usage_plan :: "rstr option"
  last_updated :: int
  totals :: token_totals
  hourly_entries :: "token_window_entry list"
  hourly_buckets :: "aggregated_usage_entry list"
  daily_buckets :: "aggregated_usage_entry list"
  monthly_buckets :: "aggregated_usage_entry list"
  tokens_last_hour :: token_totals
  rate_limit :: "rate_limit_info option"

definition account_usage_data_new :: "int \<Rightarrow> rstr \<Rightarrow> account_usage_data" where
  "account_usage_data_new now account_id =
     \<lparr>usage_version = USAGE_VERSION, usage_account_id = account_id, usage_plan = None, last_updated = now,
      totals = default_totals, hourly_entries = [], hourly_buckets = [], daily_buckets = [],
      monthly_buckets = [], tokens_last_hour = default_totals, rate_limit = None\<rparr>"

definition apply_plan :: "rstr option \<Rightarrow> account_usage_data \<Rightarrow> account_usage_data" where
  "apply_plan plan data =
     (case plan of
        None \<Rightarrow> data
      | Some p \<Rightarrow> if usage_plan data \<noteq> Some p then data\<lparr>usage_plan := Some p\<rparr> else data)"

section \<open>Buckets\<close>

text \<open>
  The binary search, on a slice that is sorted by start: the index of the bucket, or the index at
  which a bucket with this start goes.
\<close>

definition bucket_search :: "aggregated_usage_entry list \<Rightarrow> int \<Rightarrow> nat + nat" where
  "bucket_search buckets start =
     (let i = length (takeWhile (\<lambda>e. period_start e < start) buckets)
      in if i < length buckets \<and> period_start (buckets ! i) = start then Inr i else Inl i)"

definition add_to_bucket ::
    "aggregated_usage_entry list \<Rightarrow> int \<Rightarrow> token_totals \<Rightarrow> aggregated_usage_entry list" where
  "add_to_bucket buckets start tokens =
     (case bucket_search buckets start of
        Inr idx \<Rightarrow>
          buckets[idx := (buckets ! idx)\<lparr>bucket_tokens := add_totals (bucket_tokens (buckets ! idx)) tokens\<rparr>]
      | Inl idx \<Rightarrow>
          take idx buckets @ \<lparr>period_start = start, bucket_tokens = tokens\<rparr> # drop idx buckets)"

text \<open>
  \<open>BTreeMap::entry(k).or_insert_with(default).add_totals(t)\<close>, and the iteration in the order of the
  keys: the map is the list of its entries in that order.
\<close>

fun rollover_add :: "(int \<times> token_totals) list \<Rightarrow> int \<Rightarrow> token_totals \<Rightarrow> (int \<times> token_totals) list" where
  "rollover_add [] k t = [(k, add_totals default_totals t)]"
| "rollover_add ((k', t') # m) k t =
     (if k < k' then (k, add_totals default_totals t) # (k', t') # m
      else if k = k' then (k', add_totals t' t) # m
      else (k', t') # rollover_add m k t)"

definition compact_hourly_buckets :: "int \<Rightarrow> account_usage_data \<Rightarrow> account_usage_data" where
  "compact_hourly_buckets now data =
     (if hourly_buckets data = [] then data
      else (let cutoff = truncate_to_hour now - hours 24;
                remaining = filter (\<lambda>e. period_start e \<ge> cutoff) (hourly_buckets data)
            in data\<lparr>hourly_buckets := sort_key period_start remaining\<rparr>))"

definition compact_daily_buckets :: "(int \<Rightarrow> int) \<Rightarrow> int \<Rightarrow> account_usage_data \<Rightarrow> account_usage_data" where
  "compact_daily_buckets truncate_to_month now data =
     (if daily_buckets data = [] then data
      else (let cutoff = truncate_to_day now - days 30;
                old = filter (\<lambda>e. period_start e < cutoff) (daily_buckets data);
                remaining = filter (\<lambda>e. \<not> period_start e < cutoff) (daily_buckets data);
                monthly_rollover = fold (\<lambda>e m. rollover_add m (truncate_to_month (period_start e)) (bucket_tokens e)) old []
            in data\<lparr>daily_buckets := sort_key period_start remaining,
                    monthly_buckets := fold (\<lambda>(start, tokens) b. add_to_bucket b start tokens) monthly_rollover (monthly_buckets data)\<rparr>))"

definition compact_usage :: "(int \<Rightarrow> int) \<Rightarrow> int \<Rightarrow> account_usage_data \<Rightarrow> account_usage_data" where
  "compact_usage truncate_to_month now data =
     (let recent_cutoff = now - hours 1;
          recent = filter (\<lambda>e. entry_timestamp e \<ge> recent_cutoff) (hourly_entries data);
          old = filter (\<lambda>e. \<not> entry_timestamp e \<ge> recent_cutoff) (hourly_entries data);
          rollover = fold (\<lambda>e m. rollover_add m (truncate_to_hour (entry_timestamp e)) (entry_tokens e)) old [];
          data = data\<lparr>hourly_entries := recent\<rparr>;
          data = fold (\<lambda>(start, tokens) d. d
                   \<lparr>daily_buckets := add_to_bucket (daily_buckets d) (truncate_to_day start) tokens,
                    hourly_buckets := add_to_bucket (hourly_buckets d) start tokens\<rparr>) rollover data
      in compact_daily_buckets truncate_to_month now (compact_hourly_buckets now data))"

definition update_last_hour :: "(int \<Rightarrow> int) \<Rightarrow> int \<Rightarrow> account_usage_data \<Rightarrow> account_usage_data" where
  "update_last_hour truncate_to_month now data =
     (let data = compact_usage truncate_to_month now data;
          hourly_cutoff = now - hours 1;
          history_cutoff = now - days HOURLY_HISTORY_DAYS;
          entries = filter (\<lambda>e. entry_timestamp e \<ge> history_cutoff) (hourly_entries data);
          last_hour = fold (\<lambda>e t. if entry_timestamp e < hourly_cutoff then t else add_totals t (entry_tokens e))
                        entries default_totals
      in data\<lparr>hourly_entries := entries, tokens_last_hour := last_hour\<rparr>)"

section \<open>What is recorded\<close>

definition record_token_usage_data ::
    "(int \<Rightarrow> int) \<Rightarrow> token_usage \<Rightarrow> int \<Rightarrow> account_usage_data \<Rightarrow> account_usage_data" where
  "record_token_usage_data truncate_to_month usage tick data =
     update_last_hour truncate_to_month tick
       (data\<lparr>last_updated := tick, totals := add_usage (totals data) usage,
             hourly_entries := hourly_entries data @ [\<lparr>entry_timestamp = tick, entry_tokens = from_usage usage\<rparr>]\<rparr>)"

text \<open>\<open>seconds as i64\<close> reads the 64 bits as a signed number.\<close>

definition reset_after :: "int \<Rightarrow> u64 \<Rightarrow> int" where
  "reset_after tick s = tick + seconds (sint s)"

definition unwrap_info :: "account_usage_data \<Rightarrow> rate_limit_info" where
  "unwrap_info data = (case rate_limit data of Some info \<Rightarrow> info | None \<Rightarrow> default_rate_limit_info)"

definition record_rate_limit_snapshot_data ::
    "rate_limit_snapshot_event \<Rightarrow> int \<Rightarrow> account_usage_data \<Rightarrow> account_usage_data" where
  "record_rate_limit_snapshot_data snapshot tick data =
     data\<lparr>last_updated := tick,
          rate_limit := Some ((unwrap_info data)
            \<lparr>rli_snapshot := Some snapshot, observed_at := Some tick,
             primary_next_reset_at := map_option (reset_after tick) (primary_reset_after_seconds snapshot),
             secondary_next_reset_at := map_option (reset_after tick) (secondary_reset_after_seconds snapshot)\<rparr>)\<rparr>"

definition record_usage_limit_hint_data :: "u64 option \<Rightarrow> int \<Rightarrow> account_usage_data \<Rightarrow> account_usage_data" where
  "record_usage_limit_hint_data resets_in_seconds tick data =
     (let info = (unwrap_info data)\<lparr>last_usage_limit_hit_at := Some tick\<rparr>;
          info = (case resets_in_seconds of
                    None \<Rightarrow> info
                  | Some s \<Rightarrow> info\<lparr>primary_next_reset_at := Some (reset_after tick s),
                                   secondary_next_reset_at := Some (reset_after tick s)\<rparr>)
      in data\<lparr>last_updated := tick, rate_limit := Some info\<rparr>)"

definition refresh_due :: "rate_limit_info \<Rightarrow> int option \<Rightarrow> int \<Rightarrow> int \<Rightarrow> bool" where
  "refresh_due info reset_at now stale_interval \<longleftrightarrow>
     (let last_attempt = last_refresh_attempt_at info;
          stale = (case last_attempt of Some attempt \<Rightarrow> now - attempt \<ge> stale_interval | None \<Rightarrow> True)
      in case reset_at of
           Some reset \<Rightarrow>
             if now + RESET_PASSED_TOLERANCE < reset then False
             else if (case observed_at info of Some obs \<Rightarrow> obs + RESET_PASSED_TOLERANCE \<ge> reset | None \<Rightarrow> False) then False
             else if \<not> (case last_attempt of Some attempt \<Rightarrow> attempt \<ge> reset | None \<Rightarrow> False) then True
             else stale
         | None \<Rightarrow> stale)"

definition mark_rate_limit_refresh_attempt_data ::
    "int option \<Rightarrow> int \<Rightarrow> int \<Rightarrow> account_usage_data \<Rightarrow> account_usage_data \<times> bool" where
  "mark_rate_limit_refresh_attempt_data reset_at now stale_interval data =
     (let info = unwrap_info data; due = refresh_due info reset_at now stale_interval;
          info = (if due then info\<lparr>last_refresh_attempt_at := Some now\<rparr> else info)
      in (if due \<or> rate_limit data \<noteq> None then data\<lparr>rate_limit := Some info\<rparr> else data, due))"

section \<open>Warnings\<close>

datatype rate_limit_warning_scope = Primary | Secondary

definition should_clear :: "rate_limit_warning_record \<Rightarrow> int option \<Rightarrow> int \<Rightarrow> bool" where
  "should_clear existing new_reset tick \<longleftrightarrow>
     (let previous_reset = log_reset_at existing; previous_logged = logged_at existing;
          reset_moved_earlier =
            (case (previous_reset, new_reset) of
               (Some prev, Some nxt) \<Rightarrow> nxt + RESET_PASSED_TOLERANCE < prev | _ \<Rightarrow> False);
          logged_after_prev_reset =
            (case (previous_logged, previous_reset) of (Some logged, Some prev) \<Rightarrow> logged \<ge> prev | _ \<Rightarrow> False);
          prev_reset_elapsed = (case previous_reset of Some prev \<Rightarrow> tick + RESET_PASSED_TOLERANCE \<ge> prev | None \<Rightarrow> False);
          unknown_reset_elapsed =
            ((previous_reset = None \<or> new_reset = None) \<and>
             (case previous_logged of Some logged \<Rightarrow> tick - logged \<ge> UNKNOWN_RESET_RELOG_INTERVAL | None \<Rightarrow> False))
      in reset_moved_earlier \<or> (prev_reset_elapsed \<and> \<not> logged_after_prev_reset) \<or> unknown_reset_elapsed)"

definition relog :: "rate_limit_warning_record \<Rightarrow> int option \<Rightarrow> int \<Rightarrow> rate_limit_warning_record \<times> bool" where
  "relog existing new_reset tick =
     (let cleared = should_clear existing new_reset tick;
          existing = existing\<lparr>log_reset_at := new_reset\<rparr>;
          existing = (if cleared then existing\<lparr>logged_at := None\<rparr> else existing)
      in if logged_at existing = None then (existing\<lparr>logged_at := Some tick\<rparr>, True) else (existing, False))"

fun record_threshold_log ::
    "rate_limit_warning_record list \<Rightarrow> f64 \<Rightarrow> int option \<Rightarrow> int \<Rightarrow> rate_limit_warning_record list \<times> bool" where
  "record_threshold_log [] threshold reset_at tick =
     ([\<lparr>log_threshold = threshold, log_reset_at = reset_at, logged_at = Some tick\<rparr>], True)"
| "record_threshold_log (entry # logs) threshold reset_at tick =
     (if f64_close (log_threshold entry) threshold
      then (let (entry, shown) = relog entry reset_at tick in (entry # logs, shown))
      else (let (logs, shown) = record_threshold_log logs threshold reset_at tick in (entry # logs, shown)))"

definition record_rate_limit_warning_data ::
    "rate_limit_warning_scope \<Rightarrow> f64 \<Rightarrow> int option \<Rightarrow> int \<Rightarrow> account_usage_data \<Rightarrow> account_usage_data \<times> bool" where
  "record_rate_limit_warning_data scope threshold reset_at tick data =
     (let info = unwrap_info data
      in case scope of
           Primary \<Rightarrow>
             (let (logs, shown) = record_threshold_log (primary_threshold_logs info) threshold reset_at tick
              in (data\<lparr>last_updated := tick, rate_limit := Some (info\<lparr>primary_threshold_logs := logs\<rparr>)\<rparr>, shown))
         | Secondary \<Rightarrow>
             (let (logs, shown) = record_threshold_log (secondary_threshold_logs info) threshold reset_at tick
              in (data\<lparr>last_updated := tick, rate_limit := Some (info\<lparr>secondary_threshold_logs := logs\<rparr>)\<rparr>, shown)))"

section \<open>Counting tokens\<close>

definition token_fields :: "(token_totals \<Rightarrow> u64) set" where
  "token_fields = {input_tokens, cached_input_tokens, output_tokens, reasoning_output_tokens, total_tokens}"

abbreviation u64_limit :: nat where "u64_limit \<equiv> 18446744073709551616"

lemma saturating_add_exact:
  fixes a b :: u64
  assumes "unat a + unat b < u64_limit"
  shows "unat (saturating_add a b) = unat a + unat b"
  using assms by (simp add: unat_saturating_add)

lemma add_totals_exact:
  assumes "c \<in> token_fields" and "unat (c t) + unat (c u) < u64_limit"
  shows "unat (c (add_totals t u)) = unat (c t) + unat (c u)"
  using assms by (auto simp: token_fields_def add_totals_def saturating_add_exact)

lemma default_totals_zero: "c \<in> token_fields \<Longrightarrow> c default_totals = 0"
  by (auto simp: token_fields_def default_totals_def)

lemma add_usage_exact:
  assumes "c \<in> token_fields" and "unat (c t) + unat (c (from_usage u)) < u64_limit"
  shows "unat (c (add_usage t u)) = unat (c t) + unat (c (from_usage u))"
proof -
  have "add_usage t u = add_totals t (from_usage u)"
    by (simp add: add_usage_def add_totals_def from_usage_def default_totals_def saturating_add_def)
  then show ?thesis
    using assms add_totals_exact by simp
qed

definition entries_sum :: "(token_totals \<Rightarrow> u64) \<Rightarrow> token_window_entry list \<Rightarrow> nat" where
  "entries_sum c es = sum_list (map (\<lambda>e. unat (c (entry_tokens e))) es)"

definition buckets_sum :: "(token_totals \<Rightarrow> u64) \<Rightarrow> aggregated_usage_entry list \<Rightarrow> nat" where
  "buckets_sum c bs = sum_list (map (\<lambda>b. unat (c (bucket_tokens b))) bs)"

definition rollover_sum :: "(token_totals \<Rightarrow> u64) \<Rightarrow> (int \<times> token_totals) list \<Rightarrow> nat" where
  "rollover_sum c m = sum_list (map (\<lambda>(_, t). unat (c t)) m)"

lemma sums_simps [simp]:
  "entries_sum c [] = 0" "entries_sum c (e # es) = unat (c (entry_tokens e)) + entries_sum c es"
  "entries_sum c (es @ es') = entries_sum c es + entries_sum c es'"
  "buckets_sum c [] = 0" "buckets_sum c (b # bs) = unat (c (bucket_tokens b)) + buckets_sum c bs"
  "buckets_sum c (bs @ bs') = buckets_sum c bs + buckets_sum c bs'"
  "rollover_sum c [] = 0" "rollover_sum c ((k, t) # m) = unat (c t) + rollover_sum c m"
  by (simp_all add: entries_sum_def buckets_sum_def rollover_sum_def)

lemma entries_sum_split:
  "entries_sum c (filter P es) + entries_sum c (filter (\<lambda>e. \<not> P e) es) = entries_sum c es"
  by (induction es) simp_all

lemma buckets_sum_split:
  "buckets_sum c (filter P bs) + buckets_sum c (filter (\<lambda>b. \<not> P b) bs) = buckets_sum c bs"
  by (induction bs) simp_all

lemma buckets_sum_sort [simp]: "buckets_sum c (sort_key f bs) = buckets_sum c bs"
proof -
  have "buckets_sum c (insort_key f b bs) = unat (c (bucket_tokens b)) + buckets_sum c bs" for b bs
    by (induction bs) simp_all
  then show ?thesis
    by (induction bs) simp_all
qed

lemma add_to_bucket_sum:
  assumes c: "c \<in> token_fields" and limit: "buckets_sum c bs + unat (c t) < u64_limit"
  shows "buckets_sum c (add_to_bucket bs start t) = buckets_sum c bs + unat (c t)"
proof (cases "bucket_search bs start")
  case (Inl i)
  have "buckets_sum c (take i bs) + buckets_sum c (drop i bs) = buckets_sum c bs"
    by (simp only: sums_simps(6) [symmetric] append_take_drop_id)
  then show ?thesis
    using Inl by (simp add: add_to_bucket_def)
next
  case (Inr i)
  then have i: "i < length bs"
    by (auto simp: bucket_search_def Let_def split: if_splits)
  define pre b post where "pre = take i bs" and "b = bs ! i" and "post = drop (Suc i) bs"
  have bs: "bs = pre @ b # post"
    unfolding pre_def b_def post_def using i by (rule id_take_nth_drop)
  have "length pre = i"
    using i by (simp add: pre_def)
  then have "add_to_bucket bs start t = pre @ b\<lparr>bucket_tokens := add_totals (bucket_tokens b) t\<rparr> # post"
    using Inr by (simp add: add_to_bucket_def bs nth_append list_update_append)
  then show ?thesis
    using limit add_totals_exact [OF c, of "bucket_tokens b" t] by (simp add: bs)
qed

lemma rollover_add_sum:
  assumes "c \<in> token_fields" and "rollover_sum c m + unat (c t) < u64_limit"
  shows "rollover_sum c (rollover_add m k t) = rollover_sum c m + unat (c t)"
  using assms(2)
proof (induction m k t rule: rollover_add.induct)
  case (1 k t)
  then show ?case
    using assms(1) by (simp add: add_totals_exact default_totals_zero)
next
  case (2 k' t' m k t)
  then show ?case
    using assms(1) by (auto simp: add_totals_exact default_totals_zero)
qed

lemma rollover_fold_sum:
  assumes "c \<in> token_fields" and "rollover_sum c m + sum_list (map (\<lambda>x. unat (c (tokens x))) xs) < u64_limit"
  shows "rollover_sum c (fold (\<lambda>x m. rollover_add m (key x) (tokens x)) xs m) =
    rollover_sum c m + sum_list (map (\<lambda>x. unat (c (tokens x))) xs)"
  using assms(2)
proof (induction xs arbitrary: m)
  case (Cons x xs)
  then show ?case
    using rollover_add_sum [OF assms(1), of m "tokens x" "key x"] by simp
qed simp

lemma bucket_fold_sum:
  assumes "c \<in> token_fields" and "buckets_sum c bs + rollover_sum c m < u64_limit"
  shows "buckets_sum c (fold (\<lambda>(start, t) b. add_to_bucket b (key start) t) m bs) = buckets_sum c bs + rollover_sum c m"
  using assms(2)
proof (induction m arbitrary: bs)
  case (Cons x m)
  obtain start t where x: "x = (start, t)"
    by fastforce
  then show ?case
    using Cons add_to_bucket_sum [OF assms(1), of bs t "key start"] by simp
qed simp

section \<open>Compaction keeps every token\<close>

text \<open>The tokens of the data: in recent entries, in days and in months.\<close>

definition counted :: "(token_totals \<Rightarrow> u64) \<Rightarrow> account_usage_data \<Rightarrow> nat" where
  "counted c d = entries_sum c (hourly_entries d) + buckets_sum c (daily_buckets d) + buckets_sum c (monthly_buckets d)"

lemma compact_hourly_simps [simp]:
  "hourly_entries (compact_hourly_buckets now d) = hourly_entries d"
  "daily_buckets (compact_hourly_buckets now d) = daily_buckets d"
  "monthly_buckets (compact_hourly_buckets now d) = monthly_buckets d"
  "totals (compact_hourly_buckets now d) = totals d"
  by (simp_all add: compact_hourly_buckets_def Let_def)

lemma compact_daily_counted:
  assumes c: "c \<in> token_fields" and limit: "counted c d < u64_limit"
  shows "counted c (compact_daily_buckets months now d) = counted c d"
proof (cases "daily_buckets d = []")
  case False
  define old where "old = filter (\<lambda>e. period_start e < truncate_to_day now - days 30) (daily_buckets d)"
  define remaining where "remaining = filter (\<lambda>e. \<not> period_start e < truncate_to_day now - days 30) (daily_buckets d)"
  define m where "m = fold (\<lambda>e m. rollover_add m (months (period_start e)) (bucket_tokens e)) old []"
  have split: "buckets_sum c old + buckets_sum c remaining = buckets_sum c (daily_buckets d)"
    unfolding old_def remaining_def by (rule buckets_sum_split)
  then have small: "buckets_sum c old + buckets_sum c (monthly_buckets d) < u64_limit"
    using limit by (simp add: counted_def)
  then have "rollover_sum c m = buckets_sum c old"
    unfolding m_def using rollover_fold_sum [OF c, of "[]" bucket_tokens old "\<lambda>e. months (period_start e)"]
    by (simp add: buckets_sum_def)
  then have "buckets_sum c (fold (\<lambda>(start, t) b. add_to_bucket b start t) m (monthly_buckets d)) =
      buckets_sum c (monthly_buckets d) + buckets_sum c old"
    using bucket_fold_sum [OF c, of "monthly_buckets d" m "\<lambda>x. x"] small by simp
  then show ?thesis
    using False split
    by (simp add: compact_daily_buckets_def Let_def counted_def old_def [symmetric] remaining_def [symmetric]
        m_def [symmetric])
qed (simp add: compact_daily_buckets_def)

lemma compact_daily_simps [simp]:
  "hourly_entries (compact_daily_buckets months now d) = hourly_entries d"
  "totals (compact_daily_buckets months now d) = totals d"
  by (simp_all add: compact_daily_buckets_def Let_def)

lemma roll_into_days:
  fixes rollover d
  defines "d' \<equiv> fold (\<lambda>(start, tokens) d. d
      \<lparr>daily_buckets := add_to_bucket (daily_buckets d) (truncate_to_day start) tokens,
       hourly_buckets := add_to_bucket (hourly_buckets d) start tokens\<rparr>) rollover d"
  shows "hourly_entries d' = hourly_entries d" "monthly_buckets d' = monthly_buckets d" "totals d' = totals d"
    "daily_buckets d' = fold (\<lambda>(start, t) b. add_to_bucket b (truncate_to_day start) t) rollover (daily_buckets d)"
    "hourly_buckets d' = fold (\<lambda>(start, t) b. add_to_bucket b start t) rollover (hourly_buckets d)"
  unfolding d'_def by (induction rollover arbitrary: d) auto

lemma compact_usage_counted:
  assumes c: "c \<in> token_fields" and limit: "counted c d < u64_limit"
  shows "counted c (compact_usage months now d) = counted c d"
proof -
  define recent where "recent = filter (\<lambda>e. entry_timestamp e \<ge> now - hours 1) (hourly_entries d)"
  define old where "old = filter (\<lambda>e. \<not> entry_timestamp e \<ge> now - hours 1) (hourly_entries d)"
  define m where "m = fold (\<lambda>e m. rollover_add m (truncate_to_hour (entry_timestamp e)) (entry_tokens e)) old []"
  define d' where "d' = fold (\<lambda>(start, tokens) d. d
      \<lparr>daily_buckets := add_to_bucket (daily_buckets d) (truncate_to_day start) tokens,
       hourly_buckets := add_to_bucket (hourly_buckets d) start tokens\<rparr>) m (d\<lparr>hourly_entries := recent\<rparr>)"
  have split: "entries_sum c recent + entries_sum c old = entries_sum c (hourly_entries d)"
    unfolding old_def recent_def by (rule entries_sum_split)
  then have small: "entries_sum c old + buckets_sum c (daily_buckets d) < u64_limit"
    using limit by (simp add: counted_def)
  then have "rollover_sum c m = entries_sum c old"
    unfolding m_def using rollover_fold_sum [OF c, of "[]" entry_tokens old "\<lambda>e. truncate_to_hour (entry_timestamp e)"]
    by (simp add: entries_sum_def)
  then have "buckets_sum c (daily_buckets d') = buckets_sum c (daily_buckets d) + entries_sum c old"
    unfolding d'_def roll_into_days using bucket_fold_sum [OF c, of "daily_buckets d" m truncate_to_day] small by simp
  then have "counted c (compact_hourly_buckets now d') = counted c d"
    using split by (simp add: counted_def) (simp add: d'_def roll_into_days)
  moreover have "compact_usage months now d = compact_daily_buckets months now (compact_hourly_buckets now d')"
    by (simp add: compact_usage_def Let_def d'_def m_def recent_def old_def)
  ultimately show ?thesis
    using compact_daily_counted [OF c] limit by simp
qed

lemma compact_usage_entries:
  "hourly_entries (compact_usage months now d) = filter (\<lambda>e. entry_timestamp e \<ge> now - hours 1) (hourly_entries d)"
  "totals (compact_usage months now d) = totals d"
  by (simp_all add: compact_usage_def Let_def roll_into_days)

lemma update_last_hour_counted:
  assumes "c \<in> token_fields" and "counted c d < u64_limit"
  shows "counted c (update_last_hour months now d) = counted c d" "totals (update_last_hour months now d) = totals d"
proof -
  have "filter (\<lambda>e. entry_timestamp e \<ge> now - days HOURLY_HISTORY_DAYS) (hourly_entries (compact_usage months now d)) =
      hourly_entries (compact_usage months now d)"
    by (rule filter_True) (auto simp: compact_usage_entries days_def hours_def seconds_def HOURLY_HISTORY_DAYS_def)
  then show "counted c (update_last_hour months now d) = counted c d" "totals (update_last_hour months now d) = totals d"
    using compact_usage_counted [OF assms, of months now]
    by (simp_all add: update_last_hour_def Let_def counted_def compact_usage_entries(2))
qed

section \<open>Buckets stay sorted\<close>

definition bucket_sorted :: "aggregated_usage_entry list \<Rightarrow> bool" where
  "bucket_sorted bs \<longleftrightarrow> sorted_wrt (<) (map period_start bs)"

lemma bucket_sorted_simps [simp]:
  "bucket_sorted []"
  "bucket_sorted (b # bs) \<longleftrightarrow> (\<forall>x\<in>set bs. period_start b < period_start x) \<and> bucket_sorted bs"
  "bucket_sorted (bs @ bs') \<longleftrightarrow>
     bucket_sorted bs \<and> bucket_sorted bs' \<and> (\<forall>x\<in>set bs. \<forall>y\<in>set bs'. period_start x < period_start y)"
  by (auto simp: bucket_sorted_def sorted_wrt_append)

lemma takeWhile_take: "take (length (takeWhile P xs)) xs = takeWhile P xs" "drop (length (takeWhile P xs)) xs = dropWhile P xs"
  by (simp_all add: takeWhile_eq_take [symmetric] dropWhile_eq_drop)

lemma bucket_dropWhile:
  assumes "bucket_sorted bs" and "b \<in> set (dropWhile (\<lambda>e. period_start e < start) bs)"
  shows "start \<le> period_start b"
  using assms by (induction bs) (auto split: if_splits)

lemma add_to_bucket_sorted:
  assumes sorted: "bucket_sorted bs"
  shows "bucket_sorted (add_to_bucket bs start t)"
proof (cases "bucket_search bs start")
  case (Inr i)
  then have "i < length bs"
    by (auto simp: bucket_search_def Let_def split: if_splits)
  then have "map period_start (add_to_bucket bs start t) = map period_start bs"
    using Inr by (simp add: add_to_bucket_def map_update list_update_same_conv)
  then show ?thesis
    using sorted by (simp only: bucket_sorted_def)
next
  case (Inl i)
  let ?P = "\<lambda>e. period_start e < start"
  have i: "i = length (takeWhile ?P bs)"
    using Inl by (auto simp: bucket_search_def Let_def split: if_splits)
  have "start < period_start b" if b: "b \<in> set (dropWhile ?P bs)" for b
  proof -
    obtain h rest where rest: "dropWhile ?P bs = h # rest"
      using b by (cases "dropWhile ?P bs") auto
    have "period_start h \<noteq> start"
      using Inl i rest takeWhile_take(2) [of ?P bs] by (auto simp: bucket_search_def Let_def nth_via_drop split: if_splits)
    then have "start < period_start h"
      using bucket_dropWhile [OF sorted, of h start] rest by simp
    moreover have "bucket_sorted (h # rest)"
      using sorted unfolding rest [symmetric] bucket_sorted_def
      by (metis dropWhile_eq_drop drop_map sorted_wrt_drop)
    ultimately show ?thesis
      using b rest by auto
  qed
  moreover have "period_start x < start" if "x \<in> set (takeWhile ?P bs)" for x
    using set_takeWhileD [OF that] by simp
  moreover have "bucket_sorted (takeWhile ?P bs)" "bucket_sorted (dropWhile ?P bs)"
      "\<forall>x\<in>set (takeWhile ?P bs). \<forall>y\<in>set (dropWhile ?P bs). period_start x < period_start y"
    using sorted bucket_sorted_simps(3) [of "takeWhile ?P bs" "dropWhile ?P bs"] by simp_all
  ultimately show ?thesis
    using Inl by (simp add: add_to_bucket_def i takeWhile_take)
qed

lemma sort_sorted_key: "sorted (map f xs) \<Longrightarrow> sort_key f xs = xs"
  by (rule sort_key_id_if_sorted)

lemma compact_sorted:
  assumes "bucket_sorted bs"
  shows "bucket_sorted (sort_key period_start (filter P bs))"
proof -
  have "bucket_sorted (filter P bs)"
    using assms by (induction bs) simp_all
  moreover from this have "sorted (map period_start (filter P bs))"
    unfolding bucket_sorted_def by (simp add: strict_sorted_imp_sorted)
  ultimately show ?thesis
    by (simp add: sort_sorted_key)
qed

lemma bucket_fold_sorted:
  "bucket_sorted bs \<Longrightarrow> bucket_sorted (fold (\<lambda>(start, t) b. add_to_bucket b (key start) t) m bs)"
  by (induction m arbitrary: bs) (auto simp: add_to_bucket_sorted)

definition usage_sorted :: "account_usage_data \<Rightarrow> bool" where
  "usage_sorted d \<longleftrightarrow> bucket_sorted (hourly_buckets d) \<and> bucket_sorted (daily_buckets d) \<and> bucket_sorted (monthly_buckets d)"

lemma usage_sorted_update [simp]:
  "usage_sorted (d\<lparr>hourly_entries := es\<rparr>) = usage_sorted d" "usage_sorted (d\<lparr>tokens_last_hour := t\<rparr>) = usage_sorted d"
  "usage_sorted (d\<lparr>totals := t\<rparr>) = usage_sorted d" "usage_sorted (d\<lparr>last_updated := n\<rparr>) = usage_sorted d"
  by (simp_all add: usage_sorted_def)

lemma compact_hourly_sorted: "usage_sorted d \<Longrightarrow> usage_sorted (compact_hourly_buckets now d)"
  by (simp add: usage_sorted_def compact_hourly_buckets_def Let_def compact_sorted)

lemma compact_daily_sorted: "usage_sorted d \<Longrightarrow> usage_sorted (compact_daily_buckets months now d)"
  using bucket_fold_sorted [where key = "\<lambda>x. x"]
  by (simp add: usage_sorted_def compact_daily_buckets_def Let_def compact_sorted)

lemma roll_into_days_sorted:
  assumes "usage_sorted d"
  shows "usage_sorted (fold (\<lambda>(start, tokens) d. d
      \<lparr>daily_buckets := add_to_bucket (daily_buckets d) (truncate_to_day start) tokens,
       hourly_buckets := add_to_bucket (hourly_buckets d) start tokens\<rparr>) rollover d)"
  using assms bucket_fold_sorted [where key = truncate_to_day] bucket_fold_sorted [where key = "\<lambda>x. x"]
  by (simp add: usage_sorted_def roll_into_days)

lemma update_last_hour_sorted: "usage_sorted d \<Longrightarrow> usage_sorted (update_last_hour months now d)"
  by (simp add: update_last_hour_def compact_usage_def Let_def compact_daily_sorted compact_hourly_sorted
      roll_into_days_sorted)

lemma record_token_usage_sorted: "usage_sorted d \<Longrightarrow> usage_sorted (record_token_usage_data months u tick d)"
  by (simp add: record_token_usage_data_def update_last_hour_sorted)

section \<open>Properties\<close>

definition record_all :: "(int \<Rightarrow> int) \<Rightarrow> (token_usage \<times> int) list \<Rightarrow> account_usage_data \<Rightarrow> account_usage_data" where
  "record_all months usages d = fold (\<lambda>(u, tick). record_token_usage_data months u tick) usages d"

definition reported :: "(token_totals \<Rightarrow> u64) \<Rightarrow> (token_usage \<times> int) list \<Rightarrow> nat" where
  "reported c usages = sum_list (map (\<lambda>(u, _). unat (c (from_usage u))) usages)"

lemma record_all_counted:
  assumes c: "c \<in> token_fields" and "counted c d + reported c usages < u64_limit"
    and "unat (c (totals d)) = counted c d" and "usage_sorted d"
  shows "counted c (record_all months usages d) = counted c d + reported c usages \<and>
    unat (c (totals (record_all months usages d))) = counted c d + reported c usages \<and>
    usage_sorted (record_all months usages d)"
  using assms(2-)
proof (induction usages arbitrary: d)
  case (Cons x usages)
  obtain u tick where x: "x = (u, tick)"
    by fastforce
  let ?d = "record_token_usage_data months u tick d"
  let ?pushed = "d\<lparr>last_updated := tick, totals := add_usage (totals d) u,
    hourly_entries := hourly_entries d @ [\<lparr>entry_timestamp = tick, entry_tokens = from_usage u\<rparr>]\<rparr>"
  have d0: "counted c ?pushed = counted c d + unat (c (from_usage u))"
    by (simp add: counted_def)
  have small: "counted c d + unat (c (from_usage u)) < u64_limit"
    using Cons.prems(1) by (simp add: x reported_def)
  then have "counted c ?d = counted c d + unat (c (from_usage u))" "totals ?d = add_usage (totals d) u"
    using update_last_hour_counted [OF c, of ?pushed months tick] d0 by (simp_all add: record_token_usage_data_def)
  moreover from this have "unat (c (totals ?d)) = counted c ?d"
    using add_usage_exact [OF c, of "totals d" u] small Cons.prems(2) by simp
  moreover have "usage_sorted ?d"
    using Cons.prems(3) by (rule record_token_usage_sorted)
  ultimately show ?case
    using Cons.IH [of ?d] Cons.prems(1) by (simp add: x record_all_def reported_def)
qed (simp add: record_all_def reported_def)

text \<open>
  (C24) No token is lost or counted twice: after any sequence of reports at any times, as long as
  their sum fits into 64 bits, each total is the sum of the reports and equals what the recent
  entries, the daily and the monthly buckets hold together; the buckets of each kind have distinct
  starts in ascending order.
\<close>

theorem token_usage_conserved:
  assumes "c \<in> token_fields" and "reported c usages < u64_limit"
  shows "let d = record_all months usages (account_usage_data_new now account_id) in
    unat (c (totals d)) = reported c usages \<and>
    entries_sum c (hourly_entries d) + buckets_sum c (daily_buckets d) + buckets_sum c (monthly_buckets d) = reported c usages \<and>
    bucket_sorted (hourly_buckets d) \<and> bucket_sorted (daily_buckets d) \<and> bucket_sorted (monthly_buckets d)"
proof -
  let ?new = "account_usage_data_new now account_id"
  have new: "counted c ?new = 0" "unat (c (totals ?new)) = 0" "usage_sorted ?new"
    using default_totals_zero [OF assms(1)]
    by (simp_all add: account_usage_data_new_def counted_def usage_sorted_def bucket_sorted_def)
  show ?thesis
    using record_all_counted [OF assms(1), of ?new usages months] new assms(2)
    by (simp add: Let_def usage_sorted_def) (simp add: counted_def)
qed

theorem token_usage_conserved_witness:
  "let d = record_all (\<lambda>ts. 0)
         [(\<lparr>usage_input = 7, usage_cached_input = 0, usage_output = 2, usage_reasoning_output = 0, usage_total = 9\<rparr>, 0),
          (\<lparr>usage_input = 1, usage_cached_input = 0, usage_output = 1, usage_reasoning_output = 0, usage_total = 2\<rparr>, hours 2)]
         (account_usage_data_new 0 (lit ''a''))
   in unat (total_tokens (totals d)) = 11 \<and>
      entries_sum total_tokens (hourly_entries d) + buckets_sum total_tokens (daily_buckets d) +
        buckets_sum total_tokens (monthly_buckets d) = 11"
  using token_usage_conserved [of total_tokens
      "[(\<lparr>usage_input = 7, usage_cached_input = 0, usage_output = 2, usage_reasoning_output = 0, usage_total = 9\<rparr>, 0),
        (\<lparr>usage_input = 1, usage_cached_input = 0, usage_output = 1, usage_reasoning_output = 0, usage_total = 2\<rparr>, hours 2)]"
      "\<lambda>ts. 0" 0 "lit ''a''"]
  by (simp add: token_fields_def reported_def from_usage_def add_usage_def default_totals_def saturating_add_def Let_def)

text \<open>
  A warning is shown once per window. A poll is a time with the reset time the backend reports, and
  the window stays open while the poll is more than the tolerance before the stored reset and the
  backend repeats or extends the reset.
\<close>

fun window_open :: "int \<Rightarrow> (int \<times> int) list \<Rightarrow> bool" where
  "window_open reset [] \<longleftrightarrow> True"
| "window_open reset ((tick, reset') # polls) \<longleftrightarrow>
     tick + RESET_PASSED_TOLERANCE < reset \<and> reset \<le> reset' + RESET_PASSED_TOLERANCE \<and> window_open reset' polls"

fun poll_all ::
    "f64 \<Rightarrow> rate_limit_warning_record list \<Rightarrow> (int \<times> int) list \<Rightarrow> rate_limit_warning_record list \<times> bool list" where
  "poll_all threshold logs [] = (logs, [])"
| "poll_all threshold logs ((tick, reset) # polls) =
     (let (logs, shown) = record_threshold_log logs threshold (Some reset) tick;
          (logs, rest) = poll_all threshold logs polls
      in (logs, shown # rest))"

text \<open>The first record of the log with this threshold.\<close>

definition logged_record :: "rate_limit_warning_record list \<Rightarrow> f64 \<Rightarrow> rate_limit_warning_record option" where
  "logged_record logs threshold = find (\<lambda>e. f64_close (log_threshold e) threshold) logs"

lemma f64_close_refl: "f64_close (Finite x) (Finite x)"
  by (simp add: f64_close_def EPSILON_def)

lemma relog_threshold: "log_threshold (fst (relog e reset tick)) = log_threshold e"
  by (simp add: relog_def Let_def)

lemma record_threshold_log_found:
  assumes "logged_record logs threshold = Some e"
  shows "logged_record (fst (record_threshold_log logs threshold reset tick)) threshold = Some (fst (relog e reset tick)) \<and>
    snd (record_threshold_log logs threshold reset tick) = snd (relog e reset tick)"
  using assms by (induction logs) (auto simp: logged_record_def split_beta Let_def relog_threshold split: if_splits)

lemma record_threshold_log_new:
  assumes "logged_record logs (Finite x) = None"
  shows "logged_record (fst (record_threshold_log logs (Finite x) reset tick)) (Finite x) =
      Some \<lparr>log_threshold = Finite x, log_reset_at = reset, logged_at = Some tick\<rparr> \<and>
    snd (record_threshold_log logs (Finite x) reset tick)"
  using assms by (induction logs) (auto simp: logged_record_def split_beta Let_def f64_close_refl split: if_splits)

lemma relog_silent:
  assumes "logged_at e = Some t" and "log_reset_at e = Some reset" and "tick + RESET_PASSED_TOLERANCE < reset"
    and "reset \<le> reset' + RESET_PASSED_TOLERANCE"
  shows "relog e (Some reset') tick = (e\<lparr>log_reset_at := Some reset'\<rparr>, False)"
  using assms by (simp add: relog_def should_clear_def Let_def)

lemma polls_silent:
  assumes "logged_record logs threshold = Some e" and "logged_at e = Some t" and "log_reset_at e = Some reset"
    and "window_open reset polls"
  shows "snd (poll_all threshold logs polls) = replicate (length polls) False"
  using assms
proof (induction polls arbitrary: logs e reset)
  case (Cons p polls)
  obtain tick reset' where p: "p = (tick, reset')"
    by fastforce
  have quiet: "relog e (Some reset') tick = (e\<lparr>log_reset_at := Some reset'\<rparr>, False)"
    using Cons.prems p by (intro relog_silent) auto
  let ?logs = "fst (record_threshold_log logs threshold (Some reset') tick)"
  have found: "logged_record ?logs threshold = Some (e\<lparr>log_reset_at := Some reset'\<rparr>)"
      "\<not> snd (record_threshold_log logs threshold (Some reset') tick)"
    using record_threshold_log_found [OF Cons.prems(1), of "Some reset'" tick] quiet by simp_all
  have "snd (poll_all threshold ?logs polls) = replicate (length polls) False"
    using Cons.prems p by (intro Cons.IH [OF found(1)]) auto
  then show ?case
    using found(2) by (simp add: p split_beta Let_def)
qed simp

text \<open>
  Once a warning for a threshold is shown, polls more than five seconds before the stored reset
  stay silent, however often the backend repeats or extends the reset time: a window shows exactly
  one warning.
\<close>

theorem one_warning_per_window:
  assumes "logged_record logs (Finite x) = None" and "window_open reset polls"
  shows "snd (poll_all (Finite x) logs ((tick, reset) # polls)) = True # replicate (length polls) False"
  using record_threshold_log_new [OF assms(1), of "Some reset" tick]
    polls_silent [where t = tick, OF _ _ _ assms(2)]
  by (simp add: split_beta Let_def)

theorem one_warning_per_window_witness:
  "snd (poll_all (Finite 75) [] [(0, hours 5), (hours 1, hours 5), (hours 2, hours 6), (hours 5, hours 6)]) =
     [True, False, False, False]"
  using one_warning_per_window [of "[]" 75 "hours 5" "[(hours 1, hours 5), (hours 2, hours 6), (hours 5, hours 6)]" 0]
  by (simp add: logged_record_def hours_def seconds_def RESET_PASSED_TOLERANCE_def)

definition in_tolerance :: "int \<Rightarrow> int \<Rightarrow> bool" where
  "in_tolerance reset tick \<longleftrightarrow> reset \<le> tick + RESET_PASSED_TOLERANCE \<and> tick < reset"

lemma polls_repeat:
  assumes "logged_record logs threshold = Some e" and "logged_at e = Some t" and "t < reset"
    and "log_reset_at e = Some reset" and "list_all (in_tolerance reset) ticks"
  shows "snd (poll_all threshold logs (map (\<lambda>tick. (tick, reset)) ticks)) = replicate (length ticks) True"
  using assms
proof (induction ticks arbitrary: logs e t)
  case (Cons tick ticks)
  let ?e = "e\<lparr>logged_at := Some tick\<rparr>"
  have again: "relog e (Some reset) tick = (?e, True)"
    using Cons.prems by (simp add: relog_def should_clear_def Let_def in_tolerance_def)
  let ?logs = "fst (record_threshold_log logs threshold (Some reset) tick)"
  have found: "logged_record ?logs threshold = Some ?e" "snd (record_threshold_log logs threshold (Some reset) tick)"
    using record_threshold_log_found [OF Cons.prems(1), of "Some reset" tick] again by simp_all
  have "snd (poll_all threshold ?logs (map (\<lambda>tick. (tick, reset)) ticks)) = replicate (length ticks) True"
    using Cons.prems by (intro Cons.IH [OF found(1), of tick]) (auto simp: in_tolerance_def)
  then show ?case
    using found(2) by (simp add: split_beta Let_def)
qed simp

text \<open>
  Within the five seconds before the stored reset the warning is shown again on every poll: the
  reset counts as passed there, while a warning shown before the reset never counts as shown after it.
\<close>

theorem warning_repeats_before_reset:
  assumes "logged_record logs (Finite x) = None" and "tick < reset" and "list_all (in_tolerance reset) ticks"
  shows "snd (poll_all (Finite x) logs ((tick, reset) # map (\<lambda>t. (t, reset)) ticks)) =
    replicate (Suc (length ticks)) True"
  using record_threshold_log_new [OF assms(1), of "Some reset" tick] polls_repeat [where t = tick, OF _ _ assms(2) _ assms(3)]
  by (simp add: split_beta Let_def)

theorem warning_repeats_before_reset_witness:
  "snd (poll_all (Finite 75) [] [(0, hours 1), (hours 1 - seconds 4, hours 1), (hours 1 - seconds 3, hours 1),
     (hours 1 - seconds 2, hours 1)]) = [True, True, True, True]"
  using warning_repeats_before_reset [of "[]" 75 0 "hours 1" "[hours 1 - seconds 4, hours 1 - seconds 3, hours 1 - seconds 2]"]
  by (simp add: logged_record_def in_tolerance_def hours_def seconds_def RESET_PASSED_TOLERANCE_def numeral_nat)

end
