(* ===== verification/Usage_Files.thy ===== *)
theory Usage_Files
  imports Account_Usage
begin

text \<open>
  The usage files of \<open>code-rs/core/src/account_usage.rs\<close>: the guarded read-modify-write of one
  account's file, the operations of the module over it, the listing of the rate limit snapshots, and
  what happens when two processes update the same file.

  A path leads to an inode and an inode has a content, since the lock of the code is on the inode that
  was opened while the new content is renamed over the path. The order in which a directory lists its
  entries is a parameter.
\<close>

section \<open>Files\<close>

datatype usage_text = BlankText | InvalidText | JsonText account_usage_data

datatype usage_error = UsageIoError | UsageLogError | UsageJsonError

record warning_line =
  line_account :: rstr
  line_plan :: "rstr option"
  line_scope :: rate_limit_warning_scope
  line_threshold :: f64
  line_reset :: "int option"
  line_observed :: int
  line_message :: rstr

record usage_fs =
  usage_paths :: "rstr \<Rightarrow> nat option"
  usage_inodes :: "nat \<Rightarrow> usage_text"
  next_inode :: nat
  warning_log :: "warning_line list"

record usage_env =
  json_reread :: "account_usage_data \<Rightarrow> account_usage_data"
  usage_opens :: bool
  usage_replaces :: bool
  log_opens :: bool
  usage_now :: int
  month_start :: "int \<Rightarrow> int"

text \<open>The file is created empty when it does not exist.\<close>

definition open_usage_file :: "usage_env \<Rightarrow> rstr \<Rightarrow> usage_fs \<Rightarrow> usage_error + nat \<times> usage_fs" where
  "open_usage_file env account_id fs =
     (if \<not> usage_opens env then Inl UsageIoError
      else case usage_paths fs account_id of
        Some n \<Rightarrow> Inr (n, fs)
      | None \<Rightarrow>
          Inr (next_inode fs, fs\<lparr>usage_paths := (usage_paths fs)(account_id := Some (next_inode fs)),
                                 usage_inodes := (usage_inodes fs)(next_inode fs := BlankText),
                                 next_inode := next_inode fs + 1\<rparr>))"

definition read_usage :: "usage_env \<Rightarrow> rstr \<Rightarrow> nat \<Rightarrow> usage_fs \<Rightarrow> account_usage_data" where
  "read_usage env account_id n fs =
     (case usage_inodes fs n of
        JsonText parsed \<Rightarrow> if usage_version parsed \<noteq> USAGE_VERSION then parsed\<lparr>usage_version := USAGE_VERSION\<rparr> else parsed
      | _ \<Rightarrow> account_usage_data_new (usage_now env) account_id)"

definition replace_usage :: "usage_env \<Rightarrow> rstr \<Rightarrow> account_usage_data \<Rightarrow> usage_fs \<Rightarrow> (usage_error + unit) \<times> usage_fs" where
  "replace_usage env account_id data fs =
     (if usage_replaces env
      then (Inr (), fs\<lparr>usage_paths := (usage_paths fs)(account_id := Some (next_inode fs)),
                       usage_inodes := (usage_inodes fs)(next_inode fs := JsonText (json_reread env data)),
                       next_inode := next_inode fs + 1\<rparr>)
      else (Inl UsageIoError, fs))"

definition with_usage_file ::
    "usage_env \<Rightarrow> rstr \<Rightarrow> rstr option \<Rightarrow> (account_usage_data \<Rightarrow> account_usage_data \<times> 'a) \<Rightarrow> usage_fs \<Rightarrow>
       (usage_error + 'a) \<times> usage_fs" where
  "with_usage_file env account_id plan update fs =
     (case open_usage_file env account_id fs of
        Inl e \<Rightarrow> (Inl e, fs)
      | Inr (n, fs) \<Rightarrow>
          (let (data, r) = update (apply_plan plan (read_usage env account_id n fs))
           in case replace_usage env account_id data fs of
                (Inl e, fs) \<Rightarrow> (Inl e, fs)
              | (Inr _, fs) \<Rightarrow> (Inr r, fs)))"

section \<open>Operations\<close>

definition record_token_usage ::
    "usage_env \<Rightarrow> rstr \<Rightarrow> rstr option \<Rightarrow> token_usage \<Rightarrow> int \<Rightarrow> usage_fs \<Rightarrow> (usage_error + unit) \<times> usage_fs" where
  "record_token_usage env account_id plan usage tick =
     with_usage_file env account_id plan (\<lambda>data. (record_token_usage_data (month_start env) usage tick data, ()))"

definition record_rate_limit_snapshot ::
    "usage_env \<Rightarrow> rstr \<Rightarrow> rstr option \<Rightarrow> rate_limit_snapshot_event \<Rightarrow> int \<Rightarrow> usage_fs \<Rightarrow> (usage_error + unit) \<times> usage_fs" where
  "record_rate_limit_snapshot env account_id plan snapshot tick =
     with_usage_file env account_id plan (\<lambda>data. (record_rate_limit_snapshot_data snapshot tick data, ()))"

definition record_usage_limit_hint ::
    "usage_env \<Rightarrow> rstr \<Rightarrow> rstr option \<Rightarrow> u64 option \<Rightarrow> int \<Rightarrow> usage_fs \<Rightarrow> (usage_error + unit) \<times> usage_fs" where
  "record_usage_limit_hint env account_id plan resets_in_seconds tick =
     with_usage_file env account_id plan (\<lambda>data. (record_usage_limit_hint_data resets_in_seconds tick data, ()))"

definition mark_rate_limit_refresh_attempt_if_due ::
    "usage_env \<Rightarrow> rstr \<Rightarrow> rstr option \<Rightarrow> int option \<Rightarrow> int \<Rightarrow> int \<Rightarrow> usage_fs \<Rightarrow> (usage_error + bool) \<times> usage_fs" where
  "mark_rate_limit_refresh_attempt_if_due env account_id plan reset_at now stale_interval =
     with_usage_file env account_id plan (mark_rate_limit_refresh_attempt_data reset_at now stale_interval)"

definition record_rate_limit_warning ::
    "usage_env \<Rightarrow> rstr \<Rightarrow> rstr option \<Rightarrow> rate_limit_warning_scope \<Rightarrow> f64 \<Rightarrow> int option \<Rightarrow> int \<Rightarrow> rstr \<Rightarrow> usage_fs \<Rightarrow>
       (usage_error + bool) \<times> usage_fs" where
  "record_rate_limit_warning env account_id plan scope threshold reset_at tick message fs =
     (case with_usage_file env account_id plan (record_rate_limit_warning_data scope threshold reset_at tick) fs of
        (Inl e, fs) \<Rightarrow> (Inl e, fs)
      | (Inr False, fs) \<Rightarrow> (Inr False, fs)
      | (Inr True, fs) \<Rightarrow>
          if log_opens env
          then (Inr True, fs\<lparr>warning_log := warning_log fs @
                  [\<lparr>line_account = account_id, line_plan = plan, line_scope = scope, line_threshold = threshold,
                    line_reset = reset_at, line_observed = tick, line_message = message\<rparr>]\<rparr>)
          else (Inl UsageLogError, fs))"

record stored_rate_limit_snapshot =
  srs_account_id :: rstr
  srs_plan :: "rstr option"
  srs_snapshot :: "rate_limit_snapshot_event option"
  srs_observed_at :: "int option"
  srs_primary_next_reset_at :: "int option"
  srs_secondary_next_reset_at :: "int option"
  srs_last_usage_limit_hit_at :: "int option"

definition stored_snapshot :: "account_usage_data \<Rightarrow> stored_rate_limit_snapshot" where
  "stored_snapshot data =
     (let rate = unwrap_info data
      in \<lparr>srs_account_id = usage_account_id data, srs_plan = usage_plan data, srs_snapshot = rli_snapshot rate,
          srs_observed_at = observed_at rate, srs_primary_next_reset_at = primary_next_reset_at rate,
          srs_secondary_next_reset_at =
            (case secondary_next_reset_at rate of Some t \<Rightarrow> Some t | None \<Rightarrow> primary_next_reset_at rate),
          srs_last_usage_limit_hit_at = last_usage_limit_hit_at rate\<rparr>)"

text \<open>
  The directory entries with the extension \<open>json\<close>, in the order listed: the file of every account
  whose identifier is not empty (the name \<open>.json\<close> alone has no extension).
\<close>

definition list_rate_limit_snapshots :: "rstr list \<Rightarrow> usage_fs \<Rightarrow> stored_rate_limit_snapshot list" where
  "list_rate_limit_snapshots order fs =
     List.map_filter
       (\<lambda>account_id.
          if account_id = [] then None
          else case usage_paths fs account_id of
            None \<Rightarrow> None
          | Some n \<Rightarrow> (case usage_inodes fs n of JsonText data \<Rightarrow> Some (stored_snapshot data) | _ \<Rightarrow> None))
       order"

record stored_usage_summary =
  sum_account_id :: rstr
  sum_plan :: "rstr option"
  sum_totals :: token_totals
  sum_last_updated :: int
  sum_hourly_entries :: "token_window_entry list"
  sum_hourly_buckets :: "aggregated_usage_entry list"
  sum_daily_buckets :: "aggregated_usage_entry list"
  sum_monthly_buckets :: "aggregated_usage_entry list"

definition load_account_usage :: "rstr \<Rightarrow> usage_fs \<Rightarrow> usage_error + stored_usage_summary option" where
  "load_account_usage account_id fs =
     (case usage_paths fs account_id of
        None \<Rightarrow> Inr None
      | Some n \<Rightarrow>
          (case usage_inodes fs n of
             JsonText data \<Rightarrow>
               Inr (Some \<lparr>sum_account_id = usage_account_id data, sum_plan = usage_plan data, sum_totals = totals data,
                          sum_last_updated = last_updated data, sum_hourly_entries = hourly_entries data,
                          sum_hourly_buckets = hourly_buckets data, sum_daily_buckets = daily_buckets data,
                          sum_monthly_buckets = monthly_buckets data\<rparr>)
           | _ \<Rightarrow> Inl UsageJsonError))"

section \<open>What an update leaves\<close>

definition content :: "usage_fs \<Rightarrow> rstr \<Rightarrow> usage_text option" where
  "content fs account_id = map_option (usage_inodes fs) (usage_paths fs account_id)"

definition stored_data :: "usage_env \<Rightarrow> rstr \<Rightarrow> usage_fs \<Rightarrow> account_usage_data" where
  "stored_data env account_id fs =
     (case content fs account_id of
        Some (JsonText parsed) \<Rightarrow> parsed\<lparr>usage_version := USAGE_VERSION\<rparr>
      | _ \<Rightarrow> account_usage_data_new (usage_now env) account_id)"

lemma read_usage_opened:
  assumes "open_usage_file env account_id fs = Inr (n, fs')"
  shows "read_usage env account_id n fs' = stored_data env account_id fs"
  using assms
  by (auto simp: open_usage_file_def read_usage_def stored_data_def content_def
      split: if_splits option.splits usage_text.splits)

lemma content_replace:
  "usage_replaces env \<Longrightarrow>
   content (snd (replace_usage env account_id data fs)) account_id = Some (JsonText (json_reread env data))"
  by (simp add: replace_usage_def content_def)

lemma with_usage_file_ok:
  assumes "usage_opens env" and "usage_replaces env"
    and "update (apply_plan plan (stored_data env account_id fs)) = (data, r)"
  obtains fs' where "with_usage_file env account_id plan update fs = (Inr r, fs')"
    "content fs' account_id = Some (JsonText (json_reread env data))"
proof -
  obtain n fs1 where opened: "open_usage_file env account_id fs = Inr (n, fs1)"
    using assms(1) by (cases "usage_paths fs account_id") (simp_all add: open_usage_file_def)
  obtain fs2 where "replace_usage env account_id data fs1 = (Inr (), fs2)"
    using assms(2) by (simp add: replace_usage_def)
  then show thesis
    using that [of fs2] content_replace [OF assms(2), of account_id data fs1] assms(3)
    by (simp add: with_usage_file_def opened read_usage_opened [OF opened])
qed

section \<open>Two processes\<close>

text \<open>
  The phases of \<open>with_usage_file\<close> as steps of processes that share the files: open, take the lock of
  the inode and read, replace the path and release. A process waits while the lock is held.
\<close>

datatype usage_phase = NotStarted | Opened nat | Holding nat account_usage_data | Finished

record usage_world =
  world_fs :: usage_fs
  world_locks :: "nat set"
  world_phase :: "nat \<Rightarrow> usage_phase"

inductive usage_step ::
    "usage_env \<Rightarrow> rstr \<Rightarrow> (nat \<Rightarrow> account_usage_data \<Rightarrow> account_usage_data) \<Rightarrow> usage_world \<Rightarrow> usage_world \<Rightarrow> bool"
  for env account_id update where
  step_open: "usage_step env account_id update w
      (w\<lparr>world_fs := fs, world_phase := (world_phase w)(p := Opened n)\<rparr>)"
    if "world_phase w p = NotStarted" and "open_usage_file env account_id (world_fs w) = Inr (n, fs)"
| step_lock: "usage_step env account_id update w
      (w\<lparr>world_locks := insert n (world_locks w),
         world_phase := (world_phase w)(p := Holding n (read_usage env account_id n (world_fs w)))\<rparr>)"
    if "world_phase w p = Opened n" and "n \<notin> world_locks w"
| step_replace: "usage_step env account_id update w
      (w\<lparr>world_fs := fs, world_locks := world_locks w - {n}, world_phase := (world_phase w)(p := Finished)\<rparr>)"
    if "world_phase w p = Holding n data" and "replace_usage env account_id (update p data) (world_fs w) = (Inr (), fs)"

text \<open>
  Two processes that update the usage of the same account can both succeed with one update lost:
  the second opens the file before the first replaces it, gets the lock of the old inode once the
  first releases it, and reads the content from before the first update.
\<close>

theorem usage_update_lost:
  assumes "usage_opens env" and "usage_replaces env" and "world_phase w = (\<lambda>p. NotStarted)" and "world_locks w = {}"
    and "usage_paths (world_fs w) account_id = Some n" and "n < next_inode (world_fs w)"
  shows "\<exists>w'. (usage_step env account_id update)\<^sup>*\<^sup>* w w' \<and> world_phase w' 0 = Finished \<and> world_phase w' 1 = Finished \<and>
    content (world_fs w') account_id =
      Some (JsonText (json_reread env (update 1 (stored_data env account_id (world_fs w)))))"
proof -
  let ?fs = "world_fs w" and ?step = "usage_step env account_id update"
  define d where "d = stored_data env account_id ?fs"
  have opened: "open_usage_file env account_id ?fs = Inr (n, ?fs)"
    using assms(1,5) by (simp add: open_usage_file_def)
  have read: "read_usage env account_id n fs = d" if "usage_inodes fs n = usage_inodes ?fs n" for fs
    using read_usage_opened [OF opened] that by (simp add: d_def read_usage_def)
  obtain fs1 where fs1: "replace_usage env account_id (update 0 d) ?fs = (Inr (), fs1)"
    using assms(2) by (simp add: replace_usage_def)
  then have same: "usage_inodes fs1 n = usage_inodes ?fs n"
    using assms(6) by (auto simp: replace_usage_def split: if_splits)
  obtain fs2 where fs2: "replace_usage env account_id (update 1 d) fs1 = (Inr (), fs2)"
    using assms(2) by (simp add: replace_usage_def)
  define w1 where "w1 = w\<lparr>world_fs := ?fs, world_phase := (world_phase w)(0 := Opened n)\<rparr>"
  define w2 where "w2 = w1\<lparr>world_fs := ?fs, world_phase := (world_phase w1)(1 := Opened n)\<rparr>"
  define w3 where "w3 = w2\<lparr>world_locks := insert n (world_locks w2), world_phase := (world_phase w2)(0 := Holding n d)\<rparr>"
  define w4 where "w4 = w3\<lparr>world_fs := fs1, world_locks := world_locks w3 - {n}, world_phase := (world_phase w3)(0 := Finished)\<rparr>"
  define w5 where "w5 = w4\<lparr>world_locks := insert n (world_locks w4), world_phase := (world_phase w4)(1 := Holding n d)\<rparr>"
  define w6 where "w6 = w5\<lparr>world_fs := fs2, world_locks := world_locks w5 - {n}, world_phase := (world_phase w5)(1 := Finished)\<rparr>"
  have "?step w w1" "?step w1 w2"
    unfolding w1_def w2_def by (rule step_open; simp add: assms(3) opened)+
  moreover have "?step w2 w3"
    unfolding w3_def using step_lock [of w2 0 n env account_id update] read [of ?fs]
    by (simp add: w2_def w1_def assms(4))
  moreover have "?step w3 w4"
    unfolding w4_def using fs1 by (intro step_replace) (simp_all add: w3_def w2_def w1_def)
  moreover have "?step w4 w5"
    unfolding w5_def using step_lock [of w4 1 n env account_id update] read [OF same]
    by (simp add: w4_def w3_def w2_def w1_def assms(4))
  moreover have "?step w5 w6"
    unfolding w6_def using fs2 by (intro step_replace) (simp_all add: w5_def w4_def w3_def)
  ultimately have "?step\<^sup>*\<^sup>* w w6"
    by (meson converse_rtranclp_into_rtranclp rtranclp.rtrancl_refl)
  moreover have "content fs2 account_id = Some (JsonText (json_reread env (update 1 d)))"
    using content_replace [OF assms(2), of account_id "update 1 d" fs1] fs2 by simp
  ultimately show ?thesis
    by (intro exI [of _ w6]) (simp add: w6_def w5_def w4_def w3_def d_def)
qed

definition sample_usage :: "u64 \<Rightarrow> token_usage" where
  "sample_usage n = \<lparr>usage_input = n, usage_cached_input = 0, usage_output = 0, usage_reasoning_output = 0, usage_total = n\<rparr>"

definition sample_usage_env :: usage_env where
  "sample_usage_env = \<lparr>json_reread = \<lambda>d. d, usage_opens = True, usage_replaces = True, log_opens = True, usage_now = 0,
     month_start = \<lambda>t. 0\<rparr>"

definition sample_world :: usage_world where
  "sample_world = \<lparr>world_fs = \<lparr>usage_paths = [lit ''a'' \<mapsto> 0], usage_inodes = \<lambda>n. BlankText, next_inode = 1, warning_log = []\<rparr>,
     world_locks = {}, world_phase = \<lambda>p. NotStarted\<rparr>"

lemma sample_world_simps:
  "usage_opens sample_usage_env" "usage_replaces sample_usage_env" "world_phase sample_world = (\<lambda>p. NotStarted)"
  "world_locks sample_world = {}" "usage_paths (world_fs sample_world) (lit ''a'') = Some 0"
  "0 < next_inode (world_fs sample_world)"
  by (simp_all add: sample_usage_env_def sample_world_def)

theorem usage_update_lost_witness:
  "\<exists>(w' :: usage_world) d. world_phase w' 0 = Finished \<and> world_phase w' 1 = Finished \<and>
     content (world_fs w') (lit ''a'') = Some (JsonText d) \<and> total_tokens (totals d) = 5"
proof -
  let ?update = "\<lambda>p::nat. record_token_usage_data (\<lambda>t. 0) (sample_usage (if p = 0 then 3 else 5)) 0"
  let ?d = "?update 1 (stored_data sample_usage_env (lit ''a'') (world_fs sample_world))"
  obtain w' :: usage_world where w': "world_phase w' 0 = Finished" "world_phase w' 1 = Finished"
      "content (world_fs w') (lit ''a'') = Some (JsonText (json_reread sample_usage_env ?d))"
    using usage_update_lost [OF sample_world_simps, of ?update] by blast
  have "total_tokens (totals (json_reread sample_usage_env ?d)) = 5"
    by (simp add: stored_data_def content_def sample_world_def sample_usage_env_def account_usage_data_new_def
        record_token_usage_data_def update_last_hour_def compact_usage_entries(2) Let_def add_usage_def sample_usage_def
        default_totals_def saturating_add_def)
  with w' show ?thesis
    by blast
qed

section \<open>Limits seen by others\<close>

lemma usage_account_id_kept:
  "usage_account_id (apply_plan plan d) = usage_account_id d"
  "usage_account_id (record_usage_limit_hint_data s tick d) = usage_account_id d"
  by (simp_all add: apply_plan_def record_usage_limit_hint_data_def Let_def split: option.split)

text \<open>A usage limit that was recorded with its reset time is listed with that reset time.\<close>

lemma hint_is_listed:
  assumes "usage_opens env" and "usage_replaces env" and "json_reread env = (\<lambda>d. d)" and "account_id \<noteq> []"
    and "usage_account_id (stored_data env account_id fs) = account_id" and "account_id \<in> set order"
  shows "\<exists>fs' s. record_usage_limit_hint env account_id plan (Some secs) tick fs = (Inr (), fs') \<and>
    s \<in> set (list_rate_limit_snapshots order fs') \<and> srs_account_id s = account_id \<and>
    srs_primary_next_reset_at s = Some (reset_after tick secs) \<and>
    srs_secondary_next_reset_at s = Some (reset_after tick secs)"
proof -
  let ?d = "record_usage_limit_hint_data (Some secs) tick (apply_plan plan (stored_data env account_id fs))"
  obtain fs' where fs': "record_usage_limit_hint env account_id plan (Some secs) tick fs = (Inr (), fs')"
      "content fs' account_id = Some (JsonText ?d)"
    using with_usage_file_ok [OF assms(1,2), of "\<lambda>data. (record_usage_limit_hint_data (Some secs) tick data, ())" plan account_id fs]
    unfolding record_usage_limit_hint_def by (auto simp: assms(3))
  then have "stored_snapshot ?d \<in> set (list_rate_limit_snapshots order fs')"
    using assms(4,6) by (force simp: list_rate_limit_snapshots_def content_def map_filter_def)
  moreover have "srs_account_id (stored_snapshot ?d) = account_id"
      "srs_primary_next_reset_at (stored_snapshot ?d) = Some (reset_after tick secs)"
      "srs_secondary_next_reset_at (stored_snapshot ?d) = Some (reset_after tick secs)"
    using assms(5) by (simp_all add: stored_snapshot_def Let_def usage_account_id_kept unwrap_info_def
        record_usage_limit_hint_data_def)
  ultimately show ?thesis
    using fs'(1) by blast
qed

end
