(* ===== verification/Account_Switching.thy ===== *)
theory Account_Switching
  imports Auth_Props Usage_Files "HOL-Library.List_Lexorder"
begin

text \<open>
  Switching to another account when a usage limit is hit, \<open>code-rs/core/src/account_switching.rs\<close>
  and its caller in the turn loop of \<open>code-rs/core/src/codex/streaming.rs\<close>, over the stored
  accounts, the active credentials and the rate limit snapshots of the other theories.

  Identifiers are compared as lists of code points, the order of their UTF-8 bytes.
\<close>

section \<open>The state of a turn\<close>

record rate_limit_switch_state =
  tried_accounts :: "rstr set"
  limited_chatgpt_accounts :: "rstr set"
  blocked_until_of :: "rstr \<Rightarrow> int option"

definition default_switch_state :: rate_limit_switch_state where
  "default_switch_state = \<lparr>tried_accounts = {}, limited_chatgpt_accounts = {}, blocked_until_of = \<lambda>_. None\<rparr>"

definition mark_limited :: "rstr \<Rightarrow> auth_mode \<Rightarrow> int option \<Rightarrow> rate_limit_switch_state \<Rightarrow> rate_limit_switch_state" where
  "mark_limited account_id mode blocked_until st =
     (let st = st\<lparr>tried_accounts := insert account_id (tried_accounts st)\<rparr>;
          st = (if is_chatgpt mode
                then st\<lparr>limited_chatgpt_accounts := insert account_id (limited_chatgpt_accounts st)\<rparr> else st)
      in case blocked_until of
           None \<Rightarrow> st
         | Some until \<Rightarrow>
             st\<lparr>blocked_until_of := (blocked_until_of st)(account_id :=
                  (case blocked_until_of st account_id of
                     Some existing \<Rightarrow> Some (if until > existing then until else existing)
                   | None \<Rightarrow> Some until))\<rparr>)"

definition has_tried :: "rate_limit_switch_state \<Rightarrow> rstr \<Rightarrow> bool" where
  "has_tried st account_id \<longleftrightarrow> account_id \<in> tried_accounts st"

section \<open>Choosing an account\<close>

definition account_has_credentials :: "stored_account \<Rightarrow> bool" where
  "account_has_credentials account \<longleftrightarrow>
     (if is_chatgpt (acc_mode account) then acc_tokens account \<noteq> None else acc_api_key account \<noteq> None)"

text \<open>The larger of the values that are there (\<open>into_iter().chain(..).max()\<close> of two options).\<close>

definition latest :: "int option \<Rightarrow> int option \<Rightarrow> int option" where
  "latest a b = (case (a, b) of (Some x, Some y) \<Rightarrow> Some (max x y) | (None, _) \<Rightarrow> b | (_, None) \<Rightarrow> a)"

definition usage_reset_blocked_until :: "stored_rate_limit_snapshot \<Rightarrow> int option" where
  "usage_reset_blocked_until s = latest (srs_primary_next_reset_at s) (srs_secondary_next_reset_at s)"

definition usage_used_percent :: "stored_rate_limit_snapshot \<Rightarrow> rat option" where
  "usage_used_percent s =
     (case srs_snapshot s of
        None \<Rightarrow> None
      | Some e \<Rightarrow> (case f64_max (primary_used_percent e) (secondary_used_percent e) of Finite q \<Rightarrow> Some q | _ \<Rightarrow> None))"

definition is_blocked :: "int \<Rightarrow> int option \<Rightarrow> bool" where
  "is_blocked now blocked_until \<longleftrightarrow> (case blocked_until of Some until \<Rightarrow> until > now | None \<Rightarrow> False)"

definition snapshot_map :: "stored_rate_limit_snapshot list \<Rightarrow> rstr \<Rightarrow> stored_rate_limit_snapshot option" where
  "snapshot_map snapshots = map_of (rev (map (\<lambda>s. (srs_account_id s, s)) snapshots))"

definition account_blocked ::
    "int \<Rightarrow> rate_limit_switch_state \<Rightarrow> stored_rate_limit_snapshot list \<Rightarrow> stored_account \<Rightarrow> bool" where
  "account_blocked now st snapshots account =
     is_blocked now (latest (blocked_until_of st (acc_id account))
       (Option.bind (snapshot_map snapshots (acc_id account)) usage_reset_blocked_until))"

definition used_percent :: "stored_rate_limit_snapshot list \<Rightarrow> stored_account \<Rightarrow> rat" where
  "used_percent snapshots account =
     (case Option.bind (snapshot_map snapshots (acc_id account)) usage_used_percent of Some q \<Rightarrow> q | None \<Rightarrow> 0)"

definition skipped :: "rate_limit_switch_state \<Rightarrow> rstr option \<Rightarrow> stored_account \<Rightarrow> bool" where
  "skipped st current account \<longleftrightarrow> current = Some (acc_id account) \<or> has_tried st (acc_id account)"

fun best_chatgpt ::
    "int \<Rightarrow> rate_limit_switch_state \<Rightarrow> stored_rate_limit_snapshot list \<Rightarrow> rstr option \<Rightarrow> stored_account list \<Rightarrow>
       (stored_account \<times> rat) option \<Rightarrow> (stored_account \<times> rat) option" where
  "best_chatgpt now st snapshots current [] best = best"
| "best_chatgpt now st snapshots current (account # accounts) best =
     (if skipped st current account \<or> account_blocked now st snapshots account
      then best_chatgpt now st snapshots current accounts best
      else (let score = used_percent snapshots account
            in best_chatgpt now st snapshots current accounts
                 (case best of
                    None \<Rightarrow> Some (account, score)
                  | Some (_, best_score) \<Rightarrow> if score < best_score then Some (account, score) else best)))"

definition chatgpt_accounts :: "stored_account list \<Rightarrow> stored_account list" where
  "chatgpt_accounts accounts =
     sort_key acc_id (filter account_has_credentials (filter (\<lambda>acc. is_chatgpt (acc_mode acc)) accounts))"

definition api_key_accounts :: "stored_account list \<Rightarrow> stored_account list" where
  "api_key_accounts accounts =
     sort_key acc_id (filter account_has_credentials (filter (\<lambda>acc. acc_mode acc = ApiKey) accounts))"

definition chatgpt_unavailable ::
    "int \<Rightarrow> rate_limit_switch_state \<Rightarrow> stored_rate_limit_snapshot list \<Rightarrow> stored_account \<Rightarrow> bool" where
  "chatgpt_unavailable now st snapshots account \<longleftrightarrow>
     account_blocked now st snapshots account \<or>
     (has_tried st (acc_id account) \<and> acc_id account \<in> limited_chatgpt_accounts st)"

definition choose_account ::
    "rate_limit_switch_state \<Rightarrow> bool \<Rightarrow> int \<Rightarrow> rstr option \<Rightarrow> stored_rate_limit_snapshot list \<Rightarrow> stored_account list \<Rightarrow>
       rstr option" where
  "choose_account st allow_api_key_fallback now current snapshots accounts =
     (case best_chatgpt now st snapshots current (chatgpt_accounts accounts) None of
        Some (account, _) \<Rightarrow> Some (acc_id account)
      | None \<Rightarrow>
          if \<not> allow_api_key_fallback then None
          else if chatgpt_accounts accounts \<noteq> [] \<and>
                  \<not> list_all (chatgpt_unavailable now st snapshots) (chatgpt_accounts accounts) then None
          else map_option acc_id (find (\<lambda>account. \<not> skipped st current account) (api_key_accounts accounts)))"

definition select_next_account_id ::
    "auth_env \<Rightarrow> stored_rate_limit_snapshot list \<Rightarrow> rate_limit_switch_state \<Rightarrow> bool \<Rightarrow> int \<Rightarrow> rstr option \<Rightarrow> rstr option auth_io" where
  "select_next_account_id env snapshots st allow_api_key_fallback now current_account_id =
     io_then (case current_account_id of Some i \<Rightarrow> io_ok (Some i) | None \<Rightarrow> get_active_account_id env)
       (\<lambda>current. io_then (list_accounts env)
          (\<lambda>accounts. io_ok (choose_account st allow_api_key_fallback now current snapshots accounts)))"

definition switch_active_account_on_rate_limit ::
    "auth_env \<Rightarrow> stored_rate_limit_snapshot list \<Rightarrow> bool \<Rightarrow> int \<Rightarrow> rstr \<Rightarrow> auth_mode \<Rightarrow> int option \<Rightarrow>
       rate_limit_switch_state \<Rightarrow> auth_home \<Rightarrow> (auth_error + rstr option) \<times> rate_limit_switch_state \<times> auth_home" where
  "switch_active_account_on_rate_limit env snapshots allow_api_key_fallback now current_account_id current_mode
       blocked_until st home =
     (let st = mark_limited current_account_id current_mode blocked_until st;
          (r, home) =
            io_then (select_next_account_id env snapshots st allow_api_key_fallback now (Some current_account_id))
              (\<lambda>next. case next of
                 None \<Rightarrow> io_ok None
               | Some i \<Rightarrow> io_then (activate_account env i) (\<lambda>_. io_ok (Some i))) home
      in (r, st, home))"

section \<open>The turn loop\<close>

text \<open>
  What the loop does when an attempt hits the usage limit and switching is enabled: it names the
  account of the current credentials, switches, and loads the credentials again. \<open>preferred\<close> is the
  preference of the credentials manager.
\<close>

record switch_round =
  round_env :: auth_env
  round_snapshots :: "stored_rate_limit_snapshot list"
  round_now :: int
  round_resets_in :: "u64 option"

definition current_account :: "auth_env \<Rightarrow> codex_auth option \<Rightarrow> auth_home \<Rightarrow> rstr option \<times> auth_home" where
  "current_account env auth home =
     (case Option.bind auth get_account_id of
        Some i \<Rightarrow> (Some i, home)
      | None \<Rightarrow> (case get_active_account_id env home of (Inr i, home) \<Rightarrow> (i, home) | (Inl _, home) \<Rightarrow> (None, home)))"

definition reload_auth :: "auth_env \<Rightarrow> auth_mode \<Rightarrow> auth_home \<Rightarrow> codex_auth option" where
  "reload_auth env preferred home = (case load_auth env True preferred home of Inr auth \<Rightarrow> auth | Inl _ \<Rightarrow> None)"

record turn_world =
  turn_auth :: "codex_auth option"
  turn_state :: rate_limit_switch_state
  turn_home :: auth_home

definition usage_limit_switch :: "bool \<Rightarrow> auth_mode \<Rightarrow> switch_round \<Rightarrow> turn_world \<Rightarrow> rstr option \<times> turn_world" where
  "usage_limit_switch allow_api_key_fallback preferred x t =
     (case current_account (round_env x) (turn_auth t) (turn_home t) of
        (None, home) \<Rightarrow> (None, t\<lparr>turn_home := home\<rparr>)
      | (Some current, home) \<Rightarrow>
          (case switch_active_account_on_rate_limit (round_env x) (round_snapshots x) allow_api_key_fallback
                  (round_now x) current (case turn_auth t of Some auth \<Rightarrow> ca_mode auth | None \<Rightarrow> ApiKey)
                  (map_option (reset_after (round_now x)) (round_resets_in x)) (turn_state t) home of
             (Inr (Some i), st, home) \<Rightarrow>
               (Some i, \<lparr>turn_auth = reload_auth (round_env x) preferred home, turn_state = st, turn_home = home\<rparr>)
           | (_, st, home) \<Rightarrow> (None, t\<lparr>turn_state := st, turn_home := home\<rparr>)))"

section \<open>The account chosen\<close>

text \<open>The first element with the smallest score, as a reference for the loop.\<close>

fun first_min :: "('a \<Rightarrow> 'b::linorder) \<Rightarrow> 'a list \<Rightarrow> 'a option" where
  "first_min f [] = None"
| "first_min f (x # xs) =
     (case first_min f xs of None \<Rightarrow> Some x | Some y \<Rightarrow> if f x \<le> f y then Some x else Some y)"

lemma first_min_None: "first_min f xs = None \<longleftrightarrow> xs = []"
  by (cases xs) (auto split: option.splits)

lemma first_min_Some:
  assumes "first_min f xs = Some x"
  shows "x \<in> set xs \<and> (\<forall>y\<in>set xs. f x \<le> f y)"
  using assms by (induction xs arbitrary: x) (auto simp: first_min_None split: option.splits if_splits)

lemma first_min_sorted:
  assumes "first_min f xs = Some x" and "sorted (map g xs)" and "y \<in> set xs" and "f y = f x"
  shows "g x \<le> g y"
  using assms
proof (induction xs arbitrary: x)
  case (Cons a xs)
  then show ?case
    by (cases "first_min f xs") (auto simp: first_min_None split: if_splits dest: first_min_Some)
qed simp

definition eligible ::
    "int \<Rightarrow> rate_limit_switch_state \<Rightarrow> stored_rate_limit_snapshot list \<Rightarrow> rstr option \<Rightarrow> stored_account \<Rightarrow> bool" where
  "eligible now st snapshots current account \<longleftrightarrow>
     \<not> skipped st current account \<and> \<not> account_blocked now st snapshots account"

lemma best_chatgpt_from:
  "best_chatgpt now st snapshots current accounts (Some (b, used_percent snapshots b)) =
     (case first_min (used_percent snapshots) (filter (eligible now st snapshots current) accounts) of
        None \<Rightarrow> Some (b, used_percent snapshots b)
      | Some a \<Rightarrow> if used_percent snapshots a < used_percent snapshots b then Some (a, used_percent snapshots a)
                  else Some (b, used_percent snapshots b))"
  by (induction accounts arbitrary: b) (auto simp: eligible_def Let_def split: option.split)

lemma best_chatgpt_eq:
  "best_chatgpt now st snapshots current accounts None =
     map_option (\<lambda>a. (a, used_percent snapshots a))
       (first_min (used_percent snapshots) (filter (eligible now st snapshots current) accounts))"
  by (induction accounts) (auto simp: eligible_def Let_def best_chatgpt_from [unfolded eligible_def] split: option.split)

lemma account_lists:
  "set (chatgpt_accounts accounts) = {a \<in> set accounts. is_chatgpt (acc_mode a) \<and> account_has_credentials a}"
  "set (api_key_accounts accounts) = {a \<in> set accounts. acc_mode a = ApiKey \<and> account_has_credentials a}"
  "sorted (map acc_id (chatgpt_accounts accounts))" "sorted (map acc_id (api_key_accounts accounts))"
  by (auto simp: chatgpt_accounts_def api_key_accounts_def)

lemma find_sorted:
  assumes "find P xs = Some x" and "sorted (map f xs)" and "y \<in> set xs" and "P y"
  shows "f x \<le> f y"
  using assms by (induction xs) (auto split: if_splits simp: find_Some_iff)

text \<open>A stored ChatGPT account that can be switched to.\<close>

definition usable_chatgpt ::
    "int \<Rightarrow> rate_limit_switch_state \<Rightarrow> stored_rate_limit_snapshot list \<Rightarrow> rstr option \<Rightarrow> stored_account list \<Rightarrow>
       stored_account \<Rightarrow> bool" where
  "usable_chatgpt now st snapshots current accounts a \<longleftrightarrow>
     a \<in> set accounts \<and> is_chatgpt (acc_mode a) \<and> account_has_credentials a \<and> eligible now st snapshots current a"

lemma choose_chatgpt:
  assumes "best_chatgpt now st snapshots current (chatgpt_accounts accounts) None = Some (a, q)"
  shows "choose_account st allow now current snapshots accounts = Some (acc_id a)"
    "usable_chatgpt now st snapshots current accounts a"
    "usable_chatgpt now st snapshots current accounts b \<Longrightarrow>
      used_percent snapshots a < used_percent snapshots b \<or>
      used_percent snapshots a = used_percent snapshots b \<and> acc_id a \<le> acc_id b"
proof -
  let ?cs = "filter (eligible now st snapshots current) (chatgpt_accounts accounts)"
  have a: "first_min (used_percent snapshots) ?cs = Some a"
    using assms by (auto simp: best_chatgpt_eq)
  show "choose_account st allow now current snapshots accounts = Some (acc_id a)"
    using assms by (simp add: choose_account_def)
  show "usable_chatgpt now st snapshots current accounts a"
    using first_min_Some [OF a] by (simp add: usable_chatgpt_def account_lists)
  assume "usable_chatgpt now st snapshots current accounts b"
  then have b: "b \<in> set ?cs"
    by (simp add: usable_chatgpt_def account_lists)
  have "sorted (map acc_id ?cs)"
    using account_lists(3) by (rule sorted_filter)
  then show "used_percent snapshots a < used_percent snapshots b \<or>
      used_percent snapshots a = used_percent snapshots b \<and> acc_id a \<le> acc_id b"
    using first_min_Some [OF a] first_min_sorted [OF a _ b] b by force
qed

lemma choose_other:
  assumes "best_chatgpt now st snapshots current (chatgpt_accounts accounts) None = None"
  shows "\<not> usable_chatgpt now st snapshots current accounts a"
    "choose_account st allow now current snapshots accounts =
      (if allow \<and> list_all (chatgpt_unavailable now st snapshots) (chatgpt_accounts accounts)
       then map_option acc_id (find (\<lambda>a. \<not> skipped st current a) (api_key_accounts accounts)) else None)"
proof -
  show "\<not> usable_chatgpt now st snapshots current accounts a"
    using assms by (auto simp: best_chatgpt_eq first_min_None filter_empty_conv usable_chatgpt_def account_lists)
  show "choose_account st allow now current snapshots accounts =
      (if allow \<and> list_all (chatgpt_unavailable now st snapshots) (chatgpt_accounts accounts)
       then map_option acc_id (find (\<lambda>a. \<not> skipped st current a) (api_key_accounts accounts)) else None)"
    using assms by (auto simp: choose_account_def)
qed

lemma chosen_account:
  assumes "choose_account st allow now current snapshots accounts = Some i"
  shows "\<exists>a\<in>set accounts. acc_id a = i \<and> account_has_credentials a \<and> \<not> skipped st current a"
proof (cases "best_chatgpt now st snapshots current (chatgpt_accounts accounts) None")
  case None
  then show ?thesis
    using assms by (auto simp: choose_other(2) find_Some_iff split: if_splits)
      (metis (no_types, lifting) account_lists(2) mem_Collect_eq nth_mem)
next
  case (Some best)
  obtain a q where "best = (a, q)"
    by fastforce
  with Some have "best_chatgpt now st snapshots current (chatgpt_accounts accounts) None = Some (a, q)"
    by simp
  from choose_chatgpt(1,2) [OF this] assms show ?thesis
    by (auto simp: usable_chatgpt_def eligible_def)
qed

section \<open>Switching ends\<close>

text \<open>
  An interface for anything that switches between named accounts: it remembers the accounts it was
  told are limited, and moves only to known ones that it does not remember.
\<close>

fun switch_rounds :: "('x \<Rightarrow> rstr \<Rightarrow> 'w \<Rightarrow> rstr option \<times> 'w) \<Rightarrow> 'x list \<Rightarrow> rstr \<Rightarrow> 'w \<Rightarrow> rstr list" where
  "switch_rounds switch [] current w = []"
| "switch_rounds switch (x # xs) current w =
     (case switch x current w of
        (Some i, w') \<Rightarrow> i # switch_rounds switch xs i w'
      | (None, _) \<Rightarrow> [])"

locale exhaustive_switch =
  fixes valid :: "'w \<Rightarrow> bool" and known :: "'w \<Rightarrow> rstr set" and tried :: "'w \<Rightarrow> rstr set"
    and switch :: "'x \<Rightarrow> rstr \<Rightarrow> 'w \<Rightarrow> rstr option \<times> 'w"
  assumes switch_valid: "valid w \<Longrightarrow> valid (snd (switch x current w))"
    and switch_known: "valid w \<Longrightarrow> known (snd (switch x current w)) = known w"
    and switch_tried: "valid w \<Longrightarrow> tried (snd (switch x current w)) = insert current (tried w)"
    and switch_fresh: "valid w \<Longrightarrow> fst (switch x current w) = Some i \<Longrightarrow> i \<in> known w \<and> i \<notin> insert current (tried w)"
    and known_finite: "valid w \<Longrightarrow> finite (known w)"
begin

lemma rounds_distinct:
  assumes "valid w"
  shows "distinct (switch_rounds switch xs current w) \<and>
    set (switch_rounds switch xs current w) \<subseteq> known w - insert current (tried w)"
  using assms
proof (induction xs arbitrary: current w)
  case (Cons x xs)
  show ?case
  proof (cases "fst (switch x current w)")
    case None
    then show ?thesis
      by (cases "switch x current w") simp
  next
    case (Some i)
    obtain w' where w': "switch x current w = (Some i, w')"
      using Some by (cases "switch x current w") simp
    have "valid w'" "known w' = known w" "tried w' = insert current (tried w)"
        "i \<in> known w" "i \<notin> insert current (tried w)"
      using switch_valid [OF Cons.prems, of x current] switch_known [OF Cons.prems, of x current]
        switch_tried [OF Cons.prems, of x current] switch_fresh [OF Cons.prems Some] w' by simp_all
    with Cons.IH [of w' i] w' show ?thesis
      by auto
  qed
qed simp

lemma rounds_bounded:
  assumes "valid w"
  shows "length (switch_rounds switch xs current w) \<le> card (known w - {current})"
proof -
  let ?chosen = "switch_rounds switch xs current w"
  have "length ?chosen = card (set ?chosen)"
    using rounds_distinct [OF assms] by (metis distinct_card)
  also have "\<dots> \<le> card (known w - {current})"
    using rounds_distinct [OF assms, of xs current] known_finite [OF assms] by (intro card_mono) auto
  finally show ?thesis .
qed

end

text \<open>The code as such a switch: over the readers and writers, the state of the turn and the files.\<close>

type_synonym switch_world = "auth_codec \<times> rate_limit_switch_state \<times> auth_home"

definition with_codec :: "auth_codec \<Rightarrow> auth_env \<Rightarrow> auth_env" where
  "with_codec codec env = auth_codec.extend codec (auth_codec.more env)"

fun switch_stored ::
    "bool \<Rightarrow> switch_round \<times> auth_mode \<Rightarrow> rstr \<Rightarrow> switch_world \<Rightarrow> rstr option \<times> switch_world" where
  "switch_stored allow (x, mode) current (codec, st, home) =
     (let (r, st, home) =
            switch_active_account_on_rate_limit (with_codec codec (round_env x)) (round_snapshots x) allow (round_now x)
              current mode (map_option (reset_after (round_now x)) (round_resets_in x)) st home
      in (case r of Inr (Some i) \<Rightarrow> Some i | _ \<Rightarrow> None, codec, st, home))"

definition stored_ids :: "'c auth_codec_scheme \<Rightarrow> auth_home \<Rightarrow> rstr set" where
  "stored_ids codec home = {acc_id a | a f. holds codec home f \<and> a \<in> set (stored_accounts f)}"

lemma stored_ids_holds:
  fixes env :: auth_env
  assumes "json_laws env" and "holds env home f"
  shows "stored_ids env home = acc_id ` set (stored_accounts f)"
proof -
  have "holds env home g \<longleftrightarrow> g = f" for g
    using holds_unique [OF assms] assms(2) by blast
  then show ?thesis
    by (auto simp: stored_ids_def)
qed

lemma with_codec_truncate: "auth_codec.truncate (with_codec codec env) = codec"
  by (simp add: with_codec_def auth_codec.defs)

lemma finite_stored_ids:
  fixes codec :: auth_codec
  assumes "json_laws codec" and "store_ok codec home"
  shows "finite (stored_ids codec home)"
proof -
  obtain f where f: "holds codec home f"
    using assms(2) by (auto simp: store_ok_def)
  let ?env = "with_codec codec sample_env"
  note same = codec_store [OF with_codec_truncate, of codec sample_env]
  have "stored_ids ?env home = acc_id ` set (stored_accounts f)"
    using stored_ids_holds [of ?env home f] assms(1) f same by simp
  then show ?thesis
    using same(3) by (simp add: stored_ids_def)
qed

lemma mark_limited_tried: "tried_accounts (mark_limited i mode until st) = insert i (tried_accounts st)"
  by (simp add: mark_limited_def Let_def split: option.split)

lemma select_next_eq:
  assumes "json_laws env" and "holds env home f"
  shows "select_next_account_id env snapshots st allow now (Some current) home =
    (Inr (choose_account st allow now (Some current) snapshots (stored_accounts f)), home)"
  using read_holds [OF assms]
  by (simp add: select_next_account_id_def list_accounts_def io_then_apply io_ok_def)

lemma set_active_ids:
  assumes laws: "json_laws env" and f: "holds env home f" "accounts_ok env f" and i: "i \<in> acc_id ` set (stored_accounts f)"
  shows "\<exists>f'. holds env (snd (set_active_account_id env (Some i) home)) f' \<and> accounts_ok env f' \<and>
    map acc_id (stored_accounts f') = map acc_id (stored_accounts f)"
proof -
  let ?marked = "fst (mark_active env (Some i) f)"
  have ok: "accounts_ok env ?marked"
    using f(2) i by (intro mark_active_ok) auto
  then have readable: "file_readable env ?marked"
    by (simp add: accounts_ok_def)
  have keys: "map acc_key (stored_accounts ?marked) = map acc_key (stored_accounts f)"
    by (simp add: mark_active_def split_beta touch_first_keys)
  have "map acc_id (stored_accounts (reread_file env ?marked)) = map acc_id (stored_accounts ?marked)"
    by simp
  also have "\<dots> = map acc_id (stored_accounts f)"
    by (rule acc_key_determines(1) [OF keys])
  finally show ?thesis
    unfolding set_active_account_id_def
    using update_accounts_eq [where change = "mark_active env (Some i)", OF laws f(1) prod.collapse [symmetric] readable]
      with_accounts_holds [OF laws readable, of home] reread_file_ok [OF ok] f by auto
qed

lemma activate_ids:
  assumes laws: "json_laws env" and f: "holds env home f" "accounts_ok env f"
  shows "\<exists>f'. holds env (snd (activate_account env i home)) f' \<and> accounts_ok env f' \<and>
    map acc_id (stored_accounts f') = map acc_id (stored_accounts f)"
proof (cases "find (\<lambda>acc. acc_id acc = i) (stored_accounts f)")
  case None
  then show ?thesis
    using f by (auto simp: activate_account_eq [OF laws f(1)])
next
  case (Some account)
  have member: "acc_id account \<in> acc_id ` set (stored_accounts f)"
    using Some by (auto simp: find_Some_iff)
  show ?thesis
  proof (cases "credentials_of account")
    case (Inl e)
    then show ?thesis
      using f Some by (auto simp: activate_account_eq [OF laws f(1)])
  next
    case (Inr auth)
    obtain r home1 where run: "write_auth_json env auth home = (r, home1)"
      by fastforce
    then obtain t where "home1 = home\<lparr>auth_json := t\<rparr>"
      by (rule write_auth_json_cases)
    then have holds: "holds env home1 f"
      using f(1) by simp
    have "snd (activate_account env i home) \<in> {home1, snd (set_active_account_id env (Some (acc_id account)) home1)}"
      using Some Inr run
      by (auto simp: activate_account_eq [OF laws f(1)] io_then_apply io_ok_def split: sum.split prod.split)
    then show ?thesis
      using holds f(2) set_active_ids [OF laws holds f(2) member] by auto
  qed
qed

lemma switch_active_eq:
  assumes "json_laws env" and "holds env home f"
  shows "switch_active_account_on_rate_limit env snapshots allow now current mode until st home =
    (let st = mark_limited current mode until st
     in case choose_account st allow now (Some current) snapshots (stored_accounts f) of
          None \<Rightarrow> (Inr None, st, home)
        | Some i \<Rightarrow>
            (case activate_account env i home of
               (Inl e, home) \<Rightarrow> (Inl e, st, home)
             | (Inr _, home) \<Rightarrow> (Inr (Some i), st, home)))"
  by (simp add: switch_active_account_on_rate_limit_def Let_def io_then_apply select_next_eq [OF assms] io_ok_def
      split: option.split prod.split sum.split)

definition valid_world :: "switch_world \<Rightarrow> bool" where
  "valid_world = (\<lambda>(codec, st, home). json_laws codec \<and> store_ok codec home)"

lemma switch_stored_step:
  assumes "valid_world (codec, st, home)"
  shows "\<exists>home'. snd (switch_stored allow x current (codec, st, home)) =
      (codec, mark_limited current (snd x) (map_option (reset_after (round_now (fst x))) (round_resets_in (fst x))) st, home') \<and>
    store_ok codec home' \<and> stored_ids codec home' = stored_ids codec home \<and>
    (\<forall>i. fst (switch_stored allow x current (codec, st, home)) = Some i \<longrightarrow>
       i \<in> stored_ids codec home \<and> i \<noteq> current \<and> i \<notin> tried_accounts st)"
proof -
  obtain r mode where x: "x = (r, mode)"
    by fastforce
  define env where "env = with_codec codec (round_env r)"
  have codec: "auth_codec.truncate env = codec"
    by (simp add: env_def with_codec_truncate)
  note same = codec_store [OF codec]
  obtain f where f: "holds env home f" "accounts_ok env f"
    using assms same by (auto simp: valid_world_def store_ok_def)
  have laws: "json_laws env"
    using assms same(1) by (simp add: valid_world_def)
  define st' where "st' = mark_limited current mode (map_option (reset_after (round_now r)) (round_resets_in r)) st"
  define chosen where "chosen = choose_account st' allow (round_now r) (Some current) (round_snapshots r) (stored_accounts f)"
  define home' where "home' = (case chosen of None \<Rightarrow> home | Some i \<Rightarrow> snd (activate_account env i home))"
  have step: "snd (switch_stored allow x current (codec, st, home)) = (codec, st', home')"
      "fst (switch_stored allow x current (codec, st, home)) = Some i \<Longrightarrow> chosen = Some i" for i
    by (simp_all add: x env_def [symmetric] switch_active_eq [OF laws f(1)] st'_def [symmetric] chosen_def [symmetric]
        home'_def Let_def split: option.splits prod.splits sum.splits)
  obtain f' where f': "holds env home' f'" "accounts_ok env f'" "map acc_id (stored_accounts f') = map acc_id (stored_accounts f)"
    using f activate_ids [OF laws f] by (cases chosen) (auto simp: home'_def)
  have ids: "stored_ids env home' = stored_ids env home"
    using stored_ids_holds [OF laws] f(1) f'(1,3) by (metis list.set_map)
  have fresh: "i \<in> stored_ids env home \<and> i \<noteq> current \<and> i \<notin> tried_accounts st" if "chosen = Some i" for i
    using chosen_account [OF that [unfolded chosen_def]] stored_ids_holds [OF laws f(1)]
    by (auto simp: skipped_def has_tried_def st'_def mark_limited_tried)
  show ?thesis
    using step f'(1,2) ids fresh same by (auto simp: x st'_def store_ok_def stored_ids_def)
qed

interpretation stored_switch: exhaustive_switch valid_world
    "\<lambda>(codec, st, home). stored_ids codec home" "\<lambda>(codec, st, home). tried_accounts st" "switch_stored allow" for allow
proof
  show "valid_world (snd (switch_stored allow x current w))" if "valid_world w" for w x current
    using that switch_stored_step [of "fst w" "fst (snd w)" "snd (snd w)" allow x current]
    by (auto simp: valid_world_def split_beta)
next
  show "(\<lambda>(codec, st, home). stored_ids codec home) (snd (switch_stored allow x current w)) =
      (\<lambda>(codec, st, home). stored_ids codec home) w" if "valid_world w" for w x current
    using that switch_stored_step [of "fst w" "fst (snd w)" "snd (snd w)" allow x current] by (auto simp: split_beta)
next
  show "(\<lambda>(codec, st, home). tried_accounts st) (snd (switch_stored allow x current w)) =
      insert current ((\<lambda>(codec, st, home). tried_accounts st) w)" if "valid_world w" for w x current
    using that switch_stored_step [of "fst w" "fst (snd w)" "snd (snd w)" allow x current]
    by (auto simp: split_beta mark_limited_tried)
next
  show "i \<in> (\<lambda>(codec, st, home). stored_ids codec home) w \<and> i \<notin> insert current ((\<lambda>(codec, st, home). tried_accounts st) w)"
    if "valid_world w" "fst (switch_stored allow x current w) = Some i" for w x current i
    using that switch_stored_step [of "fst w" "fst (snd w)" "snd (snd w)" allow x current] by (auto simp: split_beta)
next
  show "finite ((\<lambda>(codec, st, home). stored_ids codec home) w)" if "valid_world w" for w
    using that finite_stored_ids by (auto simp: valid_world_def split_beta)
qed

section \<open>The account the turn loop reports\<close>

text \<open>
  The turn loop reports a limit for the account identifier of the tokens, which is not the identifier
  of the stored account.
\<close>

fun turn_rounds :: "bool \<Rightarrow> auth_mode \<Rightarrow> switch_round list \<Rightarrow> turn_world \<Rightarrow> rstr option list" where
  "turn_rounds allow preferred [] t = []"
| "turn_rounds allow preferred (x # xs) t =
     (let (r, t) = usage_limit_switch allow preferred x t in r # turn_rounds allow preferred xs t)"

text \<open>A turn on the stored account with the smallest identifier, and a round that meets its limit.\<close>

definition on_account :: "auth_codec \<Rightarrow> rstr set \<Rightarrow> stored_account \<Rightarrow> rstr \<Rightarrow> turn_world \<Rightarrow> bool" where
  "on_account codec ids account chatgpt_id t \<longleftrightarrow>
     (\<exists>f a tokens auth. holds codec (turn_home t) f \<and> accounts_ok codec f \<and> acc_id ` set (stored_accounts f) = ids \<and>
        a \<in> set (stored_accounts f) \<and> acc_key a = acc_key account \<and> is_chatgpt (acc_mode a) \<and>
        acc_tokens a = Some tokens \<and> token_account_id tokens = Some chatgpt_id \<and>
        turn_auth t = Some auth \<and> get_account_id auth = Some chatgpt_id \<and>
        acc_id a \<notin> tried_accounts (turn_state t) \<and> blocked_until_of (turn_state t) (acc_id a) = None)"

definition limit_round :: "auth_codec \<Rightarrow> rstr set \<Rightarrow> switch_round \<Rightarrow> bool" where
  "limit_round codec ids x \<longleftrightarrow>
     auth_codec.truncate (round_env x) = codec \<and> accounts_writable (round_env x) \<and> auth_writable (round_env x) \<and>
     list_all (\<lambda>s. srs_account_id s \<notin> ids) (round_snapshots x)"

lemma no_snapshot:
  assumes "list_all (\<lambda>s. srs_account_id s \<notin> ids) snapshots" and "acc_id a \<in> ids"
  shows "snapshot_map snapshots (acc_id a) = None" "used_percent snapshots a = 0"
proof -
  show none: "snapshot_map snapshots (acc_id a) = None"
    using assms by (auto simp: snapshot_map_def map_of_eq_None_iff list_all_iff)
  show "used_percent snapshots a = 0"
    by (simp add: used_percent_def none)
qed

lemma mark_limited_other:
  "i \<noteq> j \<Longrightarrow> blocked_until_of (mark_limited i mode until st) j = blocked_until_of st j"
  by (simp add: mark_limited_def Let_def split: option.split)

lemma chooses_smallest:
  assumes a: "a \<in> set accounts" "is_chatgpt (acc_mode a)" "account_has_credentials a"
    and free: "current \<noteq> Some (acc_id a)" "acc_id a \<notin> tried_accounts st" "blocked_until_of st (acc_id a) = None"
    and snapshots: "list_all (\<lambda>s. srs_account_id s \<notin> acc_id ` set accounts) snapshots"
    and smallest: "\<forall>b\<in>set accounts. acc_id a \<le> acc_id b"
  shows "choose_account st allow now current snapshots accounts = Some (acc_id a)"
proof -
  have none: "snapshot_map snapshots (acc_id b) = None" "used_percent snapshots b = 0" if "b \<in> set accounts" for b
    using that no_snapshot [OF snapshots] by simp_all
  have usable: "usable_chatgpt now st snapshots current accounts a"
    using a free none(1) [OF a(1)]
    by (simp add: usable_chatgpt_def eligible_def skipped_def has_tried_def account_blocked_def is_blocked_def latest_def)
  then obtain b q where best: "best_chatgpt now st snapshots current (chatgpt_accounts accounts) None = Some (b, q)"
    using choose_other(1) by (cases "best_chatgpt now st snapshots current (chatgpt_accounts accounts) None") auto
  have b: "b \<in> set accounts"
    using choose_chatgpt(2) [OF best] by (simp add: usable_chatgpt_def)
  have "acc_id b \<le> acc_id a"
    using choose_chatgpt(3) [OF best usable] none(2) [OF a(1)] none(2) [OF b] by simp
  then have "acc_id b = acc_id a"
    using smallest b by (simp add: order_antisym)
  then show ?thesis
    using choose_chatgpt(1) [OF best] by simp
qed

lemma limit_round_repeats:
  assumes laws: "json_laws codec" and on: "on_account codec ids account chatgpt_id t" and round: "limit_round codec ids x"
    and other: "chatgpt_id \<notin> ids" and smallest: "\<forall>i\<in>ids. acc_id account \<le> i"
  shows "\<exists>t'. usage_limit_switch allow preferred x t = (Some (acc_id account), t') \<and> on_account codec ids account chatgpt_id t'"
proof -
  define env where "env = round_env x"
  obtain f a tokens auth where f: "holds codec (turn_home t) f" "accounts_ok codec f" "acc_id ` set (stored_accounts f) = ids"
    and a: "a \<in> set (stored_accounts f)" "acc_key a = acc_key account" "is_chatgpt (acc_mode a)" "acc_tokens a = Some tokens"
      "token_account_id tokens = Some chatgpt_id"
    and auth: "turn_auth t = Some auth" "get_account_id auth = Some chatgpt_id"
    and st: "acc_id a \<notin> tried_accounts (turn_state t)" "blocked_until_of (turn_state t) (acc_id a) = None"
    using on unfolding on_account_def by blast
  have codec: "auth_codec.truncate env = codec" "accounts_writable env" "auth_writable env"
      "list_all (\<lambda>s. srs_account_id s \<notin> acc_id ` set (stored_accounts f)) (round_snapshots x)"
    using round f(3) by (simp_all add: limit_round_def env_def)
  note same = codec_store [OF codec(1)]
  have env: "json_laws env" "holds env (turn_home t) f" "accounts_ok env f"
    using laws f same by simp_all
  have key: "acc_id a = acc_id account"
    using a(2) by (simp add: acc_key_def)
  have apart: "chatgpt_id \<noteq> acc_id a"
    using other a(1) f(3) by auto
  define st' where "st' = mark_limited chatgpt_id (ca_mode auth)
      (map_option (reset_after (round_now x)) (round_resets_in x)) (turn_state t)"
  have free: "acc_id a \<notin> tried_accounts st'" "blocked_until_of st' (acc_id a) = None"
    using st apart by (auto simp: st'_def mark_limited_tried mark_limited_other)
  have chosen: "choose_account st' allow (round_now x) (Some chatgpt_id) (round_snapshots x) (stored_accounts f) = Some (acc_id a)"
    using a free apart codec(4) smallest f(3) key
    by (intro chooses_smallest) (auto simp: account_has_credentials_def)
  have "credentials_of a = Inr \<lparr>auth_mode_field = Some (acc_mode a), auth_api_key = None, auth_tokens = Some tokens,
      auth_last_refresh = acc_last_refresh a\<rparr>"
    using a(3,4) by (simp add: credentials_of_def)
  from activation_ok [OF env a(1) this codec(2,3), of True preferred] a(3)
  obtain home' f' ca where act: "activate_account env (acc_id a) (turn_home t) = (Inr (), home')" "holds env home' f'"
      "map acc_key (stored_accounts f') = map acc_key (stored_accounts f)" "load_auth env True preferred home' = Inr (Some ca)"
      "get_current_token_data ca = acc_tokens a"
    by auto
  define t' where "t' = \<lparr>turn_auth = Some ca, turn_state = st', turn_home = home'\<rparr>"
  have "usage_limit_switch allow preferred x t = (Some (acc_id a), t')"
    using auth chosen act(1,4)
    by (simp add: usage_limit_switch_def current_account_def env_def [symmetric] switch_active_eq [OF env(1,2)] Let_def
        st'_def [symmetric] reload_auth_def t'_def)
  moreover have "on_account codec ids account chatgpt_id t'"
  proof -
    obtain f'' where "holds env home' f''" "accounts_ok env f''" "map acc_id (stored_accounts f'') = map acc_id (stored_accounts f)"
      using activate_ids [OF env, of "acc_id a"] act(1) by auto
    then have f': "accounts_ok env f'" "acc_id ` set (stored_accounts f') = ids"
      using holds_unique [OF env(1) act(2)] f(3) by (metis list.set_map)+
    obtain a' where a': "a' \<in> set (stored_accounts f')" "acc_key a' = acc_key a"
      using a(1) act(3) by (metis (no_types, lifting) image_iff list.set_map)
    have "acc_id a' = acc_id a" "acc_mode a' = acc_mode a" "acc_tokens a' = Some tokens" "acc_key a' = acc_key account"
      using a' a(2,4) by (simp_all add: acc_key_def)
    moreover have "get_account_id ca = Some chatgpt_id"
      using act(5) a(4,5) by (simp add: get_account_id_def)
    ultimately show ?thesis
      unfolding on_account_def t'_def turn_world.simps
      using f' a'(1) act(2) a(3,5) free same(3,4)
      by (intro exI [of _ f'], intro exI [of _ a'], intro exI [of _ tokens], intro exI [of _ ca]) simp
  qed
  ultimately show ?thesis
    using key by auto
qed

section \<open>Properties\<close>

text \<open>Two stored ChatGPT accounts and a turn on the first of them.\<close>

definition sample_home :: auth_home where
  "sample_home = with_accounts sample_env sample_file empty_home"

definition sample_auth :: codex_auth where
  "sample_auth = chatgpt_auth Chatgpt (Some (sample_tokens (lit ''h.a.s'') (lit ''ws-0''))) None"

definition sample_round :: switch_round where
  "sample_round = \<lparr>round_env = sample_env, round_snapshots = [], round_now = 0, round_resets_in = Some 60\<rparr>"

definition sample_turn :: turn_world where
  "sample_turn = \<lparr>turn_auth = Some sample_auth, turn_state = default_switch_state, turn_home = sample_home\<rparr>"

abbreviation first_account :: stored_account where
  "first_account \<equiv> chatgpt_account (lit ''id-0'') (sample_tokens (lit ''h.a.s'') (lit ''ws-0''))"

lemma sample_home_ok: "holds sample_codec sample_home sample_file" "accounts_ok sample_codec sample_file"
    "store_ok sample_codec sample_home"
  using sample_file_holds sample_file_ok codec_store [OF sample_env_codec]
  by (auto simp: sample_home_def store_ok_def)

lemma sample_ids: "acc_id ` set (stored_accounts sample_file) = {lit ''id-0'', lit ''id-1''}"
  by (simp add: sample_file_def)

lemma sample_stored_ids: "stored_ids sample_codec sample_home = {lit ''id-0'', lit ''id-1''}"
  using stored_ids_holds [OF sample_env_laws, of sample_home sample_file] sample_home_ok(1)
    codec_store(3) [OF sample_env_codec] sample_ids by (simp add: stored_ids_def)

lemma sample_smallest: "\<forall>i\<in>{lit ''id-0'', lit ''id-1''}. lit ''id-0'' \<le> i"
  by (simp add: str_eval)

lemma sample_first: "first_account \<in> set (stored_accounts sample_file)"
  by (simp add: sample_file_def)

lemma sample_choice:
  "choose_account default_switch_state False 0 (Some (lit ''ws-0'')) [] (stored_accounts sample_file) = Some (lit ''id-0'')"
proof -
  have "\<forall>b\<in>set (stored_accounts sample_file). acc_id first_account \<le> acc_id b"
    using sample_smallest unfolding sample_ids [symmetric] by simp
  from chooses_smallest [OF sample_first _ _ _ _ _ _ this, of "Some (lit ''ws-0'')" default_switch_state "[]" False 0]
  show ?thesis
    by (simp add: account_has_credentials_def default_switch_state_def str_eval)
qed

lemma sample_on_account: "on_account sample_codec {lit ''id-0'', lit ''id-1''} first_account (lit ''ws-0'') sample_turn"
  unfolding on_account_def
  by (rule exI [of _ sample_file], rule exI [of _ first_account],
      rule exI [of _ "sample_tokens (lit ''h.a.s'') (lit ''ws-0'')"], rule exI [of _ sample_auth])
    (simp add: sample_turn_def sample_home_ok sample_ids sample_first default_switch_state_def sample_auth_def
      chatgpt_auth_def get_account_id_def get_current_token_data_def)

lemma sample_limit_round: "limit_round sample_codec ids sample_round"
  by (simp add: limit_round_def sample_round_def sample_env_codec)

text \<open>
  The account switched to is a stored account with credentials that is neither the current one
  nor one already tried. Among the ChatGPT accounts that are not blocked it is the one with the
  lowest usage, the one with the smallest identifier among equals. An API key is used only when that
  is allowed, no such ChatGPT account is left and every ChatGPT account is blocked or was tried and
  is limited.
\<close>

theorem account_choice:
  assumes "choose_account st allow now current snapshots accounts = Some i"
  shows "\<exists>a\<in>set accounts. acc_id a = i \<and> account_has_credentials a \<and> \<not> skipped st current a \<and>
    (if is_chatgpt (acc_mode a)
     then \<not> account_blocked now st snapshots a \<and>
       (\<forall>b. usable_chatgpt now st snapshots current accounts b \<longrightarrow>
          used_percent snapshots a < used_percent snapshots b \<or>
          used_percent snapshots a = used_percent snapshots b \<and> acc_id a \<le> acc_id b)
     else allow \<and> (\<forall>b. \<not> usable_chatgpt now st snapshots current accounts b) \<and>
       (\<forall>b\<in>set (chatgpt_accounts accounts). chatgpt_unavailable now st snapshots b) \<and>
       (\<forall>b\<in>set (api_key_accounts accounts). \<not> skipped st current b \<longrightarrow> acc_id a \<le> acc_id b))"
proof (cases "best_chatgpt now st snapshots current (chatgpt_accounts accounts) None")
  case None
  note other = choose_other [OF None]
  obtain a where a: "find (\<lambda>a. \<not> skipped st current a) (api_key_accounts accounts) = Some a" "acc_id a = i" "allow"
      "list_all (chatgpt_unavailable now st snapshots) (chatgpt_accounts accounts)"
    using assms by (auto simp: other(2) split: if_splits)
  have "a \<in> set (api_key_accounts accounts)" "\<not> skipped st current a"
    using a(1) by (auto simp: find_Some_iff)
  then show ?thesis
    using a other(1) find_sorted [OF a(1) account_lists(4)]
    by (intro bexI [of _ a]) (auto simp: account_lists(2) list_all_iff)
next
  case (Some best)
  obtain a q where "best = (a, q)"
    by fastforce
  with Some have best: "best_chatgpt now st snapshots current (chatgpt_accounts accounts) None = Some (a, q)"
    by simp
  show ?thesis
    using choose_chatgpt(1,2) [OF best] choose_chatgpt(3) [OF best] assms
    by (intro bexI [of _ a]) (auto simp: usable_chatgpt_def eligible_def)
qed

theorem account_choice_witness:
  "\<exists>a\<in>set (stored_accounts sample_file). acc_id a = lit ''id-0'' \<and> account_has_credentials a \<and>
     \<not> skipped default_switch_state (Some (lit ''ws-0'')) a"
  using account_choice [OF sample_choice] by blast

text \<open>
  (C22) Switching ends: when each limit is reported for the stored account in use, a turn switches at
  most once per other stored account, whatever limits, snapshots, disk failures and settings it
  meets, and never returns to an account it left.
\<close>

theorem account_switching_terminates:
  assumes "json_laws codec" and "store_ok codec home"
  shows "distinct (current # switch_rounds (switch_stored allow) xs current (codec, st, home)) \<and>
    length (switch_rounds (switch_stored allow) xs current (codec, st, home)) \<le> card (stored_ids codec home - {current})"
  using stored_switch.rounds_distinct [of "(codec, st, home)" allow xs current]
    stored_switch.rounds_bounded [of "(codec, st, home)" allow xs current] assms
  by (auto simp: valid_world_def)

theorem account_switching_terminates_witness:
  "length (switch_rounds (switch_stored False) (replicate 9 (sample_round, Chatgpt)) (lit ''id-0'')
     (sample_codec, default_switch_state, sample_home)) \<le> 1"
  using account_switching_terminates [OF sample_codec_laws sample_home_ok(3), of "lit ''id-0''" False
      "replicate 9 (sample_round, Chatgpt)" default_switch_state]
  by (simp add: sample_stored_ids insert_Diff_if str_eval)

text \<open>
  The turn loop switches for ever to the account whose limit it has hit: it reports the limit
  for the account identifier in the tokens, which no stored account has, so that the stored account
  of the smallest identifier counts as untried and unblocked every time; with a limit in every round
  it is chosen in every round.
\<close>

theorem limited_account_chosen_again:
  assumes "json_laws codec" and "on_account codec ids account chatgpt_id t" and "\<forall>x\<in>set xs. limit_round codec ids x"
    and "chatgpt_id \<notin> ids" and "\<forall>i\<in>ids. acc_id account \<le> i"
  shows "turn_rounds allow preferred xs t = replicate (length xs) (Some (acc_id account))"
  using assms(2,3)
proof (induction xs arbitrary: t)
  case (Cons x xs)
  have "limit_round codec ids x"
    using Cons.prems(2) by simp
  from limit_round_repeats [OF assms(1) Cons.prems(1) this assms(4,5), of allow preferred]
  obtain t' where "usage_limit_switch allow preferred x t = (Some (acc_id account), t')"
      "on_account codec ids account chatgpt_id t'"
    by blast
  then show ?case
    using Cons.IH Cons.prems(2) by simp
qed simp

theorem limited_account_chosen_again_witness:
  "turn_rounds False Chatgpt [sample_round, sample_round, sample_round] sample_turn =
     [Some (lit ''id-0''), Some (lit ''id-0''), Some (lit ''id-0'')]"
  using limited_account_chosen_again [OF sample_codec_laws sample_on_account, of "[sample_round, sample_round, sample_round]" False Chatgpt]
    sample_smallest sample_limit_round
  by (simp add: str_eval numeral_nat)

end
