(* ===== verification/User_Shell.thy ===== *)
theory User_Shell
  imports Rust_Path
begin

text \<open>The user's shell, \<open>Shell\<close> of \<open>code-rs/core/src/shell.rs\<close>, with the paths of its start-up files.\<close>

datatype shell = Zsh rstr rstr | Bash rstr rstr | PowerShellConfig rstr "rstr option" | UnknownShell

text \<open>\<open>Shell::name\<close>.\<close>

fun shell_name :: "shell \<Rightarrow> rstr option" where
  "shell_name (Zsh path _) = file_name path"
| "shell_name (Bash path _) = file_name path"
| "shell_name (PowerShellConfig exe _) = Some exe"
| "shell_name UnknownShell = None"

end
