(* ===== verification/Env_Context.thy ===== *)
theory Env_Context
  imports Sandbox_Policy User_Shell Retention "HOL-Library.List_Lexorder" "HOL-Library.Countable"
begin

text \<open>
  The environment context that the model is told of, \<open>code-rs/core/src/environment_context.rs\<close>: what
  it holds, its XML form, its snapshots with their fingerprints, the difference of two snapshots and
  its application, and the tracker that decides what to emit.

  Paths and texts are strings. JSON (serde), SHA-1 and the probing of the host (\<open>os_info\<close>,
  \<open>which\<close>, the clock) are other crates: they are the fields of \<open>env_serde\<close> and \<open>env_host\<close>.
\<close>

section \<open>Ordered maps\<close>

text \<open>A \<open>BTreeMap\<close> is the list of its entries in the order of the keys.\<close>

fun btree_insert :: "'k::linorder \<Rightarrow> 'v \<Rightarrow> ('k \<times> 'v) list \<Rightarrow> ('k \<times> 'v) list" where
  "btree_insert k v [] = [(k, v)]"
| "btree_insert k v ((k', v') # m) =
     (if k < k' then (k, v) # (k', v') # m
      else if k = k' then (k, v) # m
      else (k', v') # btree_insert k v m)"

section \<open>The environment context\<close>

datatype network_access = Restricted | Enabled

datatype sandbox_mode = ReadOnlyMode | WorkspaceWriteMode | DangerFullAccessMode

record operating_system_info =
  os_family :: "rstr option"
  os_version :: "rstr option"
  os_architecture :: "rstr option"

record environment_context =
  ctx_cwd :: "rstr option"
  ctx_approval_policy :: "ask_for_approval option"
  ctx_sandbox_mode :: "sandbox_mode option"
  ctx_network_access :: "network_access option"
  ctx_writable_roots :: "rstr list option"
  ctx_operating_system :: "operating_system_info option"
  ctx_common_tools :: "rstr list option"
  ctx_shell :: "shell option"
  ctx_current_date :: "rstr option"

record tool_candidate =
  tool_label :: rstr
  detection_names :: "rstr list"

definition tool :: "string \<Rightarrow> tool_candidate" where
  "tool name = \<lparr>tool_label = lit name, detection_names = [lit name]\<rparr>"

definition TOOL_CANDIDATES :: "tool_candidate list" where
  "TOOL_CANDIDATES =
     [tool ''git'', tool ''gh'', tool ''rg'',
      \<lparr>tool_label = lit ''fd'', detection_names = [lit ''fd'', lit ''fdfind'']\<rparr>,
      tool ''fzf'', tool ''jq'', tool ''yq'', tool ''sed'', tool ''awk'', tool ''xargs'', tool ''parallel'',
      tool ''curl'', tool ''wget'', tool ''tar'', tool ''unzip'', tool ''gzip'', tool ''zstd'', tool ''make'',
      tool ''just'', tool ''node'', tool ''npm'', tool ''pnpm'', tool ''python3'', tool ''pipx'', tool ''go'',
      tool ''rustup'', tool ''cargo'', tool ''rustc'', tool ''shellcheck'', tool ''shfmt'', tool ''docker'',
      \<lparr>tool_label = lit ''docker compose'', detection_names = [lit ''docker'', lit ''docker-compose'']\<rparr>,
      tool ''sqlite3'', tool ''duckdb'', tool ''rsync'', tool ''openssl'', tool ''ssh'', tool ''dig'',
      \<lparr>tool_label = lit ''nc'', detection_names = [lit ''nc'', lit ''netcat'']\<rparr>,
      tool ''lsof'',
      \<lparr>tool_label = lit ''ripgrep-all'', detection_names = [lit ''ripgrep-all'', lit ''rga'']\<rparr>,
      tool ''entr'', tool ''watchexec'', tool ''hyperfine'', tool ''pv'', tool ''bat'', tool ''delta'',
      tool ''tree'', tool ''python'', tool ''deno'', tool ''bun'', tool ''js'']"

text \<open>
  What the host answers: the type and version texts of \<open>os_info\<close> (\<open>None\<close> for its \<open>Unknown\<close>), the
  architecture of the build, which programs \<open>which\<close> finds, and the local date.
\<close>

record env_host =
  host_os_type :: "rstr option"
  host_os_version :: "rstr option"
  host_arch :: rstr
  on_path :: "rstr \<Rightarrow> bool"
  local_date :: rstr

definition detect_operating_system_info :: "env_host \<Rightarrow> operating_system_info option" where
  "detect_operating_system_info host =
     (let family = host_os_type host;
          version = (case host_os_version host of
                       None \<Rightarrow> None
                     | Some t \<Rightarrow> if trim t = [] then None else Some t);
          architecture = (if host_arch host = [] then None else Some (host_arch host))
      in if family = None \<and> version = None \<and> architecture = None then None
         else Some \<lparr>os_family = family, os_version = version, os_architecture = architecture\<rparr>)"

definition detect_common_tools :: "env_host \<Rightarrow> rstr list option" where
  "detect_common_tools host =
     (let available = map tool_label
            (filter (\<lambda>candidate. list_ex (on_path host)
               (if detection_names candidate = [] then [tool_label candidate] else detection_names candidate))
             TOOL_CANDIDATES)
      in if available = [] then None else Some available)"

definition new_environment_context ::
    "env_host \<Rightarrow> rstr option \<Rightarrow> ask_for_approval option \<Rightarrow> sandbox_policy option \<Rightarrow> shell option \<Rightarrow>
     environment_context" where
  "new_environment_context host cwd approval policy shell =
     \<lparr>ctx_cwd = cwd,
      ctx_approval_policy = approval,
      ctx_sandbox_mode =
        (case policy of
           Some DangerFullAccess \<Rightarrow> Some DangerFullAccessMode
         | Some ReadOnly \<Rightarrow> Some ReadOnlyMode
         | Some (WorkspaceWrite _) \<Rightarrow> Some WorkspaceWriteMode
         | None \<Rightarrow> None),
      ctx_network_access =
        (case policy of
           Some DangerFullAccess \<Rightarrow> Some Enabled
         | Some ReadOnly \<Rightarrow> Some Restricted
         | Some (WorkspaceWrite w) \<Rightarrow> if ww_network_access w then Some Enabled else Some Restricted
         | None \<Rightarrow> None),
      ctx_writable_roots =
        (case policy of
           Some (WorkspaceWrite w) \<Rightarrow> if ww_writable_roots w = [] then None else Some (ww_writable_roots w)
         | _ \<Rightarrow> None),
      ctx_operating_system = detect_operating_system_info host,
      ctx_common_tools = detect_common_tools host,
      ctx_shell = shell,
      ctx_current_date = Some (local_date host)\<rparr>"

section \<open>Display texts and XML\<close>

fun show_approval :: "ask_for_approval \<Rightarrow> rstr" where
  "show_approval UnlessTrusted = lit ''untrusted''"
| "show_approval OnFailure = lit ''on-failure''"
| "show_approval OnRequest = lit ''on-request''"
| "show_approval (RejectPrompts _) = lit ''reject''"
| "show_approval Never = lit ''never''"

fun show_mode :: "sandbox_mode \<Rightarrow> rstr" where
  "show_mode ReadOnlyMode = lit ''read-only''"
| "show_mode WorkspaceWriteMode = lit ''workspace-write''"
| "show_mode DangerFullAccessMode = lit ''danger-full-access''"

fun show_access :: "network_access \<Rightarrow> rstr" where
  "show_access Restricted = lit ''restricted''"
| "show_access Enabled = lit ''enabled''"

definition ENVIRONMENT_CONTEXT_OPEN_TAG :: rstr where
  "ENVIRONMENT_CONTEXT_OPEN_TAG = lit ''<environment_context>''"
definition ENVIRONMENT_CONTEXT_CLOSE_TAG :: rstr where
  "ENVIRONMENT_CONTEXT_CLOSE_TAG = lit ''</environment_context>''"
definition ENVIRONMENT_CONTEXT_DELTA_OPEN_TAG :: rstr where
  "ENVIRONMENT_CONTEXT_DELTA_OPEN_TAG = lit ''<environment_context_delta>''"
definition ENVIRONMENT_CONTEXT_DELTA_CLOSE_TAG :: rstr where
  "ENVIRONMENT_CONTEXT_DELTA_CLOSE_TAG = lit ''</environment_context_delta>''"

definition element :: "string \<Rightarrow> string \<Rightarrow> rstr \<Rightarrow> rstr" where
  "element indent tag body =
     lit indent @ lit ''<'' @ lit tag @ lit ''>'' @ body @ lit ''</'' @ lit tag @ lit ''>''"

definition opt_lines :: "'a option \<Rightarrow> ('a \<Rightarrow> rstr list) \<Rightarrow> rstr list" where
  "opt_lines v f = (case v of None \<Rightarrow> [] | Some x \<Rightarrow> f x)"

definition serialize_to_xml :: "environment_context \<Rightarrow> rstr" where
  "serialize_to_xml ctx =
     join [10]
       ([ENVIRONMENT_CONTEXT_OPEN_TAG]
        @ opt_lines (ctx_cwd ctx) (\<lambda>cwd. [element ''  '' ''cwd'' cwd])
        @ opt_lines (ctx_approval_policy ctx) (\<lambda>p. [element ''  '' ''approval_policy'' (show_approval p)])
        @ opt_lines (ctx_sandbox_mode ctx) (\<lambda>m. [element ''  '' ''sandbox_mode'' (show_mode m)])
        @ opt_lines (ctx_network_access ctx) (\<lambda>n. [element ''  '' ''network_access'' (show_access n)])
        @ opt_lines (ctx_writable_roots ctx) (\<lambda>roots.
            [lit ''  <writable_roots>''] @ map (element ''    '' ''root'') roots @ [lit ''  </writable_roots>''])
        @ opt_lines (ctx_operating_system ctx) (\<lambda>os.
            [lit ''  <operating_system>'']
            @ opt_lines (os_family os) (\<lambda>t. [element ''    '' ''family'' t])
            @ opt_lines (os_version os) (\<lambda>t. [element ''    '' ''version'' t])
            @ opt_lines (os_architecture os) (\<lambda>t. [element ''    '' ''architecture'' t])
            @ [lit ''  </operating_system>''])
        @ opt_lines (ctx_common_tools ctx) (\<lambda>tools.
            if tools = [] then []
            else [lit ''  <common_tools>''] @ map (element ''    '' ''tool'') tools @ [lit ''  </common_tools>''])
        @ opt_lines (ctx_current_date ctx) (\<lambda>d. [element ''  '' ''current_date'' d])
        @ opt_lines (ctx_shell ctx) (\<lambda>s. opt_lines (shell_name s) (\<lambda>n. [element ''  '' ''shell'' n]))
        @ [ENVIRONMENT_CONTEXT_CLOSE_TAG])"

section \<open>Snapshots and deltas\<close>

datatype json_value =
    JNull | JBool bool | JNumber rstr | JString rstr
  | JArray "json_value list" | JObject "(rstr \<times> json_value) list"

instance json_value :: countable
  by countable_datatype

record env_snapshot =
  snap_version :: u32
  snap_cwd :: "rstr option"
  snap_approval_policy :: "ask_for_approval option"
  snap_sandbox_mode :: "sandbox_mode option"
  snap_network_access :: "network_access option"
  snap_writable_roots :: "rstr list"
  snap_operating_system :: "operating_system_info option"
  snap_common_tools :: "rstr list"
  snap_shell :: "shell option"
  snap_git_branch :: "rstr option"
  snap_reasoning_effort :: "rstr option"

record env_delta =
  delta_version :: u32
  base_fingerprint :: rstr
  delta_changes :: "(rstr \<times> json_value) list"

text \<open>
  \<open>serde_json::to_value\<close> and \<open>from_value\<close> at one type, the hexadecimal SHA-1 of the JSON text of a
  map of strings, and the pretty-printed JSON texts of snapshots and deltas with their readers.
\<close>

record 'a serde =
  to_value :: "'a \<Rightarrow> json_value option"
  from_value :: "json_value \<Rightarrow> 'a option"

record env_serde =
  approval_serde :: "ask_for_approval serde"
  mode_serde :: "sandbox_mode serde"
  access_serde :: "network_access serde"
  os_serde :: "operating_system_info serde"
  shell_serde :: "shell serde"
  map_digest :: "(rstr \<times> rstr) list \<Rightarrow> rstr"
  snapshot_to_text :: "env_snapshot \<Rightarrow> rstr option"
  snapshot_of_text :: "rstr \<Rightarrow> env_snapshot option"
  delta_to_text :: "env_delta \<Rightarrow> rstr option"
  delta_of_text :: "rstr \<Rightarrow> env_delta option"

definition SNAPSHOT_VERSION :: u32 where "SNAPSHOT_VERSION = 1"

definition from_context :: "environment_context \<Rightarrow> env_snapshot" where
  "from_context ctx =
     \<lparr>snap_version = SNAPSHOT_VERSION,
      snap_cwd = ctx_cwd ctx,
      snap_approval_policy = ctx_approval_policy ctx,
      snap_sandbox_mode = ctx_sandbox_mode ctx,
      snap_network_access = ctx_network_access ctx,
      snap_writable_roots = (case ctx_writable_roots ctx of Some roots \<Rightarrow> roots | None \<Rightarrow> []),
      snap_operating_system = ctx_operating_system ctx,
      snap_common_tools = (case ctx_common_tools ctx of Some tools \<Rightarrow> tools | None \<Rightarrow> []),
      snap_shell = ctx_shell ctx,
      snap_git_branch = None,
      snap_reasoning_effort = None\<rparr>"

definition with_metadata :: "rstr option \<Rightarrow> rstr option \<Rightarrow> env_snapshot \<Rightarrow> env_snapshot" where
  "with_metadata branch effort s = s\<lparr>snap_git_branch := branch, snap_reasoning_effort := effort\<rparr>"

definition insert_some :: "rstr \<Rightarrow> 'v option \<Rightarrow> (rstr \<times> 'v) list \<Rightarrow> (rstr \<times> 'v) list" where
  "insert_some k v m = (case v of None \<Rightarrow> m | Some x \<Rightarrow> btree_insert k x m)"

definition fingerprint_fields :: "env_snapshot \<Rightarrow> (rstr \<times> rstr) list" where
  "fingerprint_fields s =
     (let m = insert_some (lit ''cwd'') (snap_cwd s) [];
          m = insert_some (lit ''approval_policy'') (map_option show_approval (snap_approval_policy s)) m;
          m = insert_some (lit ''sandbox_mode'') (map_option show_mode (snap_sandbox_mode s)) m;
          m = insert_some (lit ''network_access'') (map_option show_access (snap_network_access s)) m;
          m = (if snap_writable_roots s \<noteq> []
               then btree_insert (lit ''writable_roots'') (join (lit ''|'') (snap_writable_roots s)) m else m);
          m = insert_some (lit ''git_branch'') (snap_git_branch s) m
      in insert_some (lit ''reasoning_effort'') (snap_reasoning_effort s) m)"

definition fingerprint :: "env_serde \<Rightarrow> env_snapshot \<Rightarrow> rstr" where
  "fingerprint serde s = map_digest serde (fingerprint_fields s)"

definition option_string_to_json :: "rstr option \<Rightarrow> json_value" where
  "option_string_to_json v = (case v of Some t \<Rightarrow> JString t | None \<Rightarrow> JNull)"

text \<open>\<open>to_value\<close> of an option, with \<open>unwrap_or(Null)\<close>: \<open>None\<close> is \<open>null\<close>.\<close>

definition option_to_value :: "'a serde \<Rightarrow> 'a option \<Rightarrow> json_value" where
  "option_to_value t v =
     (case v of None \<Rightarrow> JNull | Some x \<Rightarrow> (case to_value t x of Some j \<Rightarrow> j | None \<Rightarrow> JNull))"

definition insert_if :: "bool \<Rightarrow> rstr \<Rightarrow> 'v \<Rightarrow> (rstr \<times> 'v) list \<Rightarrow> (rstr \<times> 'v) list" where
  "insert_if c k v m = (if c then btree_insert k v m else m)"

definition diff_changes :: "env_serde \<Rightarrow> env_snapshot \<Rightarrow> env_snapshot \<Rightarrow> (rstr \<times> json_value) list" where
  "diff_changes serde s previous =
     (let m = insert_if (snap_cwd s \<noteq> snap_cwd previous)
                (lit ''cwd'') (option_string_to_json (snap_cwd s)) [];
          m = insert_if (snap_approval_policy s \<noteq> snap_approval_policy previous)
                (lit ''approval_policy'') (option_to_value (approval_serde serde) (snap_approval_policy s)) m;
          m = insert_if (snap_sandbox_mode s \<noteq> snap_sandbox_mode previous)
                (lit ''sandbox_mode'') (option_to_value (mode_serde serde) (snap_sandbox_mode s)) m;
          m = insert_if (snap_network_access s \<noteq> snap_network_access previous)
                (lit ''network_access'') (option_to_value (access_serde serde) (snap_network_access s)) m;
          m = insert_if (snap_writable_roots s \<noteq> snap_writable_roots previous)
                (lit ''writable_roots'') (JArray (map JString (snap_writable_roots s))) m;
          m = insert_if (snap_operating_system s \<noteq> snap_operating_system previous)
                (lit ''operating_system'') (option_to_value (os_serde serde) (snap_operating_system s)) m;
          m = insert_if (snap_common_tools s \<noteq> snap_common_tools previous)
                (lit ''common_tools'') (JArray (map JString (snap_common_tools s))) m;
          m = insert_if (snap_shell s \<noteq> snap_shell previous)
                (lit ''shell'') (option_to_value (shell_serde serde) (snap_shell s)) m;
          m = insert_if (snap_git_branch s \<noteq> snap_git_branch previous)
                (lit ''git_branch'') (option_string_to_json (snap_git_branch s)) m
      in insert_if (snap_reasoning_effort s \<noteq> snap_reasoning_effort previous)
           (lit ''reasoning_effort'') (option_string_to_json (snap_reasoning_effort s)) m)"

definition diff_from :: "env_serde \<Rightarrow> env_snapshot \<Rightarrow> env_snapshot \<Rightarrow> env_delta" where
  "diff_from serde s previous =
     \<lparr>delta_version = SNAPSHOT_VERSION,
      base_fingerprint = fingerprint serde previous,
      delta_changes = diff_changes serde s previous\<rparr>"

fun as_str :: "json_value \<Rightarrow> rstr option" where
  "as_str (JString t) = Some t"
| "as_str _ = None"

fun strings_of_value :: "json_value \<Rightarrow> rstr list option" where
  "strings_of_value (JArray vs) = those (map as_str vs)"
| "strings_of_value _ = None"

text \<open>What a present value does to an optional field, and \<open>git_branch\<close>'s match.\<close>

definition if_ok :: "'a option \<Rightarrow> 'a option \<Rightarrow> 'a option" where
  "if_ok parsed old = (case parsed of Some x \<Rightarrow> Some x | None \<Rightarrow> old)"

fun nullable_string :: "json_value \<Rightarrow> rstr option \<Rightarrow> rstr option" where
  "nullable_string JNull old = None"
| "nullable_string (JString t) old = Some t"
| "nullable_string _ old = old"

definition apply_change :: "env_serde \<Rightarrow> rstr \<times> json_value \<Rightarrow> env_snapshot \<Rightarrow> env_snapshot" where
  "apply_change serde kv s =
     (let (key, v) = kv
      in if key = lit ''cwd'' then s\<lparr>snap_cwd := as_str v\<rparr>
         else if key = lit ''approval_policy''
         then s\<lparr>snap_approval_policy := if_ok (from_value (approval_serde serde) v) (snap_approval_policy s)\<rparr>
         else if key = lit ''sandbox_mode''
         then s\<lparr>snap_sandbox_mode := if_ok (from_value (mode_serde serde) v) (snap_sandbox_mode s)\<rparr>
         else if key = lit ''network_access''
         then s\<lparr>snap_network_access := if_ok (from_value (access_serde serde) v) (snap_network_access s)\<rparr>
         else if key = lit ''writable_roots''
         then s\<lparr>snap_writable_roots := (case strings_of_value v of Some roots \<Rightarrow> roots | None \<Rightarrow> snap_writable_roots s)\<rparr>
         else if key = lit ''operating_system''
         then s\<lparr>snap_operating_system := if_ok (from_value (os_serde serde) v) (snap_operating_system s)\<rparr>
         else if key = lit ''common_tools''
         then s\<lparr>snap_common_tools := (case strings_of_value v of Some tools \<Rightarrow> tools | None \<Rightarrow> snap_common_tools s)\<rparr>
         else if key = lit ''shell''
         then s\<lparr>snap_shell := if_ok (from_value (shell_serde serde) v) (snap_shell s)\<rparr>
         else if key = lit ''git_branch''
         then s\<lparr>snap_git_branch := nullable_string v (snap_git_branch s)\<rparr>
         else if key = lit ''reasoning_effort''
         then s\<lparr>snap_reasoning_effort := nullable_string v (snap_reasoning_effort s)\<rparr>
         else s)"

definition apply_delta :: "env_serde \<Rightarrow> env_snapshot \<Rightarrow> env_delta \<Rightarrow> env_snapshot" where
  "apply_delta serde s d = fold (apply_change serde) (delta_changes d) s"

section \<open>Items for the model\<close>

text \<open>
  The last argument of \<open>Message\<close> is the id of the item; the other optional fields of an emitted
  message are \<open>None\<close>. Errors of the JSON writer are \<open>None\<close>.
\<close>

type_synonym env_item = "rstr option response_item"

definition tagged_item :: "rstr \<Rightarrow> rstr \<Rightarrow> rstr option \<Rightarrow> rstr \<Rightarrow> env_item" where
  "tagged_item open_tag close_tag stream_id json =
     Message (lit ''user'') [InputText (open_tag @ [10] @ json @ [10] @ close_tag)] stream_id"

definition snapshot_to_response_item :: "env_serde \<Rightarrow> env_snapshot \<Rightarrow> rstr option \<Rightarrow> env_item option" where
  "snapshot_to_response_item serde s stream_id =
     map_option (tagged_item ENVIRONMENT_CONTEXT_OPEN_TAG ENVIRONMENT_CONTEXT_CLOSE_TAG stream_id)
       (snapshot_to_text serde s)"

definition delta_to_response_item :: "env_serde \<Rightarrow> env_delta \<Rightarrow> rstr option \<Rightarrow> env_item option" where
  "delta_to_response_item serde d stream_id =
     map_option (tagged_item ENVIRONMENT_CONTEXT_DELTA_OPEN_TAG ENVIRONMENT_CONTEXT_DELTA_CLOSE_TAG stream_id)
       (delta_to_text serde d)"

definition legacy_context_item :: "environment_context \<Rightarrow> env_item" where
  "legacy_context_item ctx = Message (lit ''user'') [InputText (serialize_to_xml ctx)] None"

section \<open>The tracker\<close>

record env_tracker =
  trk_next_sequence :: u64
  trk_last_snapshot :: "env_snapshot option"

definition new_tracker :: env_tracker where
  "new_tracker = \<lparr>trk_next_sequence = 0, trk_last_snapshot = None\<rparr>"

datatype emission =
    FullEmission (emitted_sequence: u64) (emitted_snapshot: env_snapshot)
  | DeltaEmission (emitted_sequence: u64) (emitted_snapshot: env_snapshot) env_delta

definition observe :: "env_serde \<Rightarrow> env_snapshot \<Rightarrow> env_tracker \<Rightarrow> emission option \<times> env_tracker" where
  "observe serde s t =
     (let n = trk_next_sequence t + 1;
          t' = t\<lparr>trk_next_sequence := n, trk_last_snapshot := Some s\<rparr>
      in case trk_last_snapshot t of
           None \<Rightarrow> (Some (FullEmission n s), t')
         | Some previous \<Rightarrow>
             if fingerprint serde s = fingerprint serde previous then (None, t)
             else (Some (DeltaEmission n s (diff_from serde s previous)), t'))"

fun emission_items :: "env_serde \<Rightarrow> rstr option \<Rightarrow> emission \<Rightarrow> env_item list option" where
  "emission_items serde stream_id (FullEmission _ s) =
     map_option (\<lambda>item. [item]) (snapshot_to_response_item serde s stream_id)"
| "emission_items serde stream_id (DeltaEmission _ _ d) =
     map_option (\<lambda>item. [item]) (delta_to_response_item serde d stream_id)"

datatype 'a json_result = JsonErr | JsonOk 'a

definition emit_response_items ::
    "env_serde \<Rightarrow> environment_context \<Rightarrow> rstr option \<Rightarrow> rstr option \<Rightarrow> rstr option \<Rightarrow> env_tracker \<Rightarrow>
     (emission \<times> env_item list) option json_result \<times> env_tracker" where
  "emit_response_items serde ctx branch effort stream_id t =
     (case observe serde (with_metadata branch effort (from_context ctx)) t of
        (None, t') \<Rightarrow> (JsonOk None, t')
      | (Some e, t') \<Rightarrow>
          (case emission_items serde stream_id e of
             None \<Rightarrow> (JsonErr, t')
           | Some items \<Rightarrow> (JsonOk (Some (e, items)), t')))"

definition restore :: "env_snapshot \<Rightarrow> u64 \<Rightarrow> env_tracker \<Rightarrow> env_tracker" where
  "restore s n t = t\<lparr>trk_last_snapshot := Some s, trk_next_sequence := max n 1\<rparr>"

section \<open>Ordered maps and changes\<close>

lemma map_of_btree_insert [simp]: "map_of (btree_insert k v m) = (map_of m)(k \<mapsto> v)"
  by (induction k v m rule: btree_insert.induct) (auto simp: fun_eq_iff)

lemma keys_btree_insert [simp]: "fst ` set (btree_insert k v m) = insert k (fst ` set m)"
  by (induction k v m rule: btree_insert.induct) auto

lemma sorted_btree_insert:
  "sorted_wrt (<) (map fst m) \<Longrightarrow> sorted_wrt (<) (map fst (btree_insert k v m))"
  by (induction k v m rule: btree_insert.induct) fastforce+

lemma sorted_insert_if:
  "sorted_wrt (<) (map fst m) \<Longrightarrow> sorted_wrt (<) (map fst (insert_if c k v m))"
  by (simp add: insert_if_def sorted_btree_insert)

lemma map_of_insert_if [simp]:
  "map_of (insert_if c k v m) k' = (if c \<and> k' = k then Some v else map_of m k')"
  by (simp add: insert_if_def)

lemma diff_changes_distinct: "distinct (map fst (diff_changes serde s previous))"
proof -
  have "sorted_wrt (<) (map fst (diff_changes serde s previous))"
    unfolding diff_changes_def Let_def by (intro sorted_insert_if) simp
  then show ?thesis
    by (simp add: strict_sorted_iff)
qed

text \<open>
  A field that a change with key \<open>k\<close> sets by \<open>eff\<close>, and no other change touches, depends after all
  the changes only on the value under \<open>k\<close>.
\<close>

lemma fold_changes_field:
  assumes field: "\<And>kv s. get (apply_change serde kv s) = (if fst kv = k then eff (snd kv) (get s) else get s)"
    and "distinct (map fst m)"
  shows "get (fold (apply_change serde) m s) = (case map_of m k of None \<Rightarrow> get s | Some v \<Rightarrow> eff v (get s))"
  using assms(2)
proof (induction m arbitrary: s)
  case (Cons kv m)
  then show ?case
    by (auto simp: field map_of_eq_None_iff image_iff split: option.splits)
qed simp

lemma apply_change_fields:
  "snap_version (apply_change serde kv s) = snap_version s"
  "snap_cwd (apply_change serde kv s) = (if fst kv = lit ''cwd'' then as_str (snd kv) else snap_cwd s)"
  "snap_approval_policy (apply_change serde kv s) = (if fst kv = lit ''approval_policy''
     then if_ok (from_value (approval_serde serde) (snd kv)) (snap_approval_policy s) else snap_approval_policy s)"
  "snap_sandbox_mode (apply_change serde kv s) = (if fst kv = lit ''sandbox_mode''
     then if_ok (from_value (mode_serde serde) (snd kv)) (snap_sandbox_mode s) else snap_sandbox_mode s)"
  "snap_network_access (apply_change serde kv s) = (if fst kv = lit ''network_access''
     then if_ok (from_value (access_serde serde) (snd kv)) (snap_network_access s) else snap_network_access s)"
  "snap_writable_roots (apply_change serde kv s) = (if fst kv = lit ''writable_roots''
     then (case strings_of_value (snd kv) of Some r \<Rightarrow> r | None \<Rightarrow> snap_writable_roots s) else snap_writable_roots s)"
  "snap_operating_system (apply_change serde kv s) = (if fst kv = lit ''operating_system''
     then if_ok (from_value (os_serde serde) (snd kv)) (snap_operating_system s) else snap_operating_system s)"
  "snap_common_tools (apply_change serde kv s) = (if fst kv = lit ''common_tools''
     then (case strings_of_value (snd kv) of Some r \<Rightarrow> r | None \<Rightarrow> snap_common_tools s) else snap_common_tools s)"
  "snap_shell (apply_change serde kv s) = (if fst kv = lit ''shell''
     then if_ok (from_value (shell_serde serde) (snd kv)) (snap_shell s) else snap_shell s)"
  "snap_git_branch (apply_change serde kv s) = (if fst kv = lit ''git_branch''
     then nullable_string (snd kv) (snap_git_branch s) else snap_git_branch s)"
  "snap_reasoning_effort (apply_change serde kv s) = (if fst kv = lit ''reasoning_effort''
     then nullable_string (snd kv) (snap_reasoning_effort s) else snap_reasoning_effort s)"
  by (simp_all add: apply_change_def split_beta lit_def)

lemma apply_changes_version: "snap_version (fold (apply_change serde) m s) = snap_version s"
  by (induction m arbitrary: s) (simp_all add: apply_change_fields)

lemmas apply_changes_fields =
  apply_change_fields(2) [THEN fold_changes_field [where get = snap_cwd and eff = "\<lambda>v _. as_str v"]]
  apply_change_fields(3) [THEN fold_changes_field [where get = snap_approval_policy]]
  apply_change_fields(4) [THEN fold_changes_field [where get = snap_sandbox_mode]]
  apply_change_fields(5) [THEN fold_changes_field [where get = snap_network_access]]
  apply_change_fields(6) [THEN fold_changes_field [where get = snap_writable_roots]]
  apply_change_fields(7) [THEN fold_changes_field [where get = snap_operating_system]]
  apply_change_fields(8) [THEN fold_changes_field [where get = snap_common_tools]]
  apply_change_fields(9) [THEN fold_changes_field [where get = snap_shell]]
  apply_change_fields(10) [THEN fold_changes_field [where get = snap_git_branch]]
  apply_change_fields(11) [THEN fold_changes_field [where get = snap_reasoning_effort]]

section \<open>Differences carry the changes\<close>

text \<open>
  What is relied on of serde at a type: a value is written and read back, and \<open>null\<close> is not a
  value of the type.
\<close>

definition serde_ok :: "'a serde \<Rightarrow> bool" where
  "serde_ok t \<longleftrightarrow> from_value t JNull = None \<and> (\<forall>x. \<exists>v. to_value t x = Some v \<and> from_value t v = Some x)"

definition fields_serde_ok :: "env_serde \<Rightarrow> bool" where
  "fields_serde_ok serde \<longleftrightarrow> serde_ok (approval_serde serde) \<and> serde_ok (mode_serde serde) \<and>
     serde_ok (access_serde serde) \<and> serde_ok (os_serde serde) \<and> serde_ok (shell_serde serde)"

text \<open>Whether a snapshot keeps the version and loses none of the fields that are not plain strings.\<close>

definition no_field_cleared :: "env_snapshot \<Rightarrow> env_snapshot \<Rightarrow> bool" where
  "no_field_cleared s previous \<longleftrightarrow>
     snap_version s = snap_version previous \<and>
     (snap_approval_policy s = None \<longrightarrow> snap_approval_policy previous = None) \<and>
     (snap_sandbox_mode s = None \<longrightarrow> snap_sandbox_mode previous = None) \<and>
     (snap_network_access s = None \<longrightarrow> snap_network_access previous = None) \<and>
     (snap_operating_system s = None \<longrightarrow> snap_operating_system previous = None) \<and>
     (snap_shell s = None \<longrightarrow> snap_shell previous = None)"

lemma if_ok_option_to_value:
  assumes "serde_ok t"
  shows "if_ok (from_value t (option_to_value t v)) old = (if v = None then old else v)"
proof (cases v)
  case (Some x)
  obtain j where "to_value t x = Some j" "from_value t j = Some x"
    using assms unfolding serde_ok_def by blast
  with Some show ?thesis
    by (simp add: option_to_value_def if_ok_def)
qed (use assms in \<open>simp add: option_to_value_def if_ok_def serde_ok_def\<close>)

lemma strings_of_strings [simp]: "strings_of_value (JArray (map JString ts)) = Some ts"
  by (induction ts) (auto simp: o_def)

lemma those_strings [simp]: "those (map (as_str \<circ> JString) ts) = Some ts"
  by (induction ts) auto

lemma string_json [simp]:
  "as_str (option_string_to_json v) = v" "nullable_string (option_string_to_json v) old = v"
  by (cases v; simp add: option_string_to_json_def)+

lemma diff_changes_lookup:
  "map_of (diff_changes serde s p) (lit ''cwd'') =
     (if snap_cwd s \<noteq> snap_cwd p then Some (option_string_to_json (snap_cwd s)) else None)"
  "map_of (diff_changes serde s p) (lit ''approval_policy'') =
     (if snap_approval_policy s \<noteq> snap_approval_policy p then Some (option_to_value (approval_serde serde) (snap_approval_policy s)) else None)"
  "map_of (diff_changes serde s p) (lit ''sandbox_mode'') =
     (if snap_sandbox_mode s \<noteq> snap_sandbox_mode p then Some (option_to_value (mode_serde serde) (snap_sandbox_mode s)) else None)"
  "map_of (diff_changes serde s p) (lit ''network_access'') =
     (if snap_network_access s \<noteq> snap_network_access p then Some (option_to_value (access_serde serde) (snap_network_access s)) else None)"
  "map_of (diff_changes serde s p) (lit ''writable_roots'') =
     (if snap_writable_roots s \<noteq> snap_writable_roots p then Some (JArray (map JString (snap_writable_roots s))) else None)"
  "map_of (diff_changes serde s p) (lit ''operating_system'') =
     (if snap_operating_system s \<noteq> snap_operating_system p then Some (option_to_value (os_serde serde) (snap_operating_system s)) else None)"
  "map_of (diff_changes serde s p) (lit ''common_tools'') =
     (if snap_common_tools s \<noteq> snap_common_tools p then Some (JArray (map JString (snap_common_tools s))) else None)"
  "map_of (diff_changes serde s p) (lit ''shell'') =
     (if snap_shell s \<noteq> snap_shell p then Some (option_to_value (shell_serde serde) (snap_shell s)) else None)"
  "map_of (diff_changes serde s p) (lit ''git_branch'') =
     (if snap_git_branch s \<noteq> snap_git_branch p then Some (option_string_to_json (snap_git_branch s)) else None)"
  "map_of (diff_changes serde s p) (lit ''reasoning_effort'') =
     (if snap_reasoning_effort s \<noteq> snap_reasoning_effort p then Some (option_string_to_json (snap_reasoning_effort s)) else None)"
  by (simp_all add: diff_changes_def lit_def)

lemma apply_diff_fields:
  assumes "fields_serde_ok serde"
  shows "snap_version (apply_delta serde p (diff_from serde s p)) = snap_version p"
    "snap_cwd (apply_delta serde p (diff_from serde s p)) = snap_cwd s"
    "snap_approval_policy (apply_delta serde p (diff_from serde s p)) =
       (if snap_approval_policy s = None then snap_approval_policy p else snap_approval_policy s)"
    "snap_sandbox_mode (apply_delta serde p (diff_from serde s p)) =
       (if snap_sandbox_mode s = None then snap_sandbox_mode p else snap_sandbox_mode s)"
    "snap_network_access (apply_delta serde p (diff_from serde s p)) =
       (if snap_network_access s = None then snap_network_access p else snap_network_access s)"
    "snap_writable_roots (apply_delta serde p (diff_from serde s p)) = snap_writable_roots s"
    "snap_operating_system (apply_delta serde p (diff_from serde s p)) =
       (if snap_operating_system s = None then snap_operating_system p else snap_operating_system s)"
    "snap_common_tools (apply_delta serde p (diff_from serde s p)) = snap_common_tools s"
    "snap_shell (apply_delta serde p (diff_from serde s p)) =
       (if snap_shell s = None then snap_shell p else snap_shell s)"
    "snap_git_branch (apply_delta serde p (diff_from serde s p)) = snap_git_branch s"
    "snap_reasoning_effort (apply_delta serde p (diff_from serde s p)) = snap_reasoning_effort s"
  using assms
  by (simp_all add: fields_serde_ok_def apply_delta_def diff_from_def
        apply_changes_fields [OF diff_changes_distinct] apply_changes_version diff_changes_lookup if_ok_option_to_value)

lemma snapshot_eq_iff:
  "(s :: env_snapshot) = s' \<longleftrightarrow> snap_version s = snap_version s' \<and> snap_cwd s = snap_cwd s' \<and>
     snap_approval_policy s = snap_approval_policy s' \<and> snap_sandbox_mode s = snap_sandbox_mode s' \<and>
     snap_network_access s = snap_network_access s' \<and> snap_writable_roots s = snap_writable_roots s' \<and>
     snap_operating_system s = snap_operating_system s' \<and> snap_common_tools s = snap_common_tools s' \<and>
     snap_shell s = snap_shell s' \<and> snap_git_branch s = snap_git_branch s' \<and>
     snap_reasoning_effort s = snap_reasoning_effort s'"
  by (cases s; cases s') simp

lemma diff_base [simp]: "base_fingerprint (diff_from serde s previous) = fingerprint serde previous"
  by (simp add: diff_from_def)

lemma apply_diff_iff:
  assumes "fields_serde_ok serde"
  shows "apply_delta serde previous (diff_from serde s previous) = s \<longleftrightarrow> no_field_cleared s previous"
  unfolding snapshot_eq_iff apply_diff_fields [OF assms] no_field_cleared_def by auto

end
