(* ===== verification/Context_Timeline.thy ===== *)
theory Context_Timeline
  imports Env_Context
begin

text \<open>
  The timeline of environment contexts of a session (\<open>code-rs/core/src/context_timeline/timeline.rs\<close>),
  what a session does with it when it emits a context and when it builds a prompt
  (\<open>codex/session.rs\<close>), and its reconstruction from a rollout (\<open>codex/streaming.rs\<close>).

  Timestamps are an argument: the readings of one call are taken to be the same text, which only the
  size estimate reads. The snapshots are a \<open>HashMap\<close>; its entries are listed in the order of their
  insertion, which no operation depends on. The counters of the telemetry wrap around.
\<close>

section \<open>The timeline\<close>

datatype timeline_error =
    BaselineAlreadySet | BaselineNotSet | DeltaSequenceOutOfOrder u64 u64
  | SnapshotAlreadyExists rstr | DeltaNotFound u64 | SnapshotNotFound rstr

record delta_entry =
  entry_sequence :: u64
  entry_delta :: env_delta
  delta_recorded_at :: rstr

record snapshot_entry =
  entry_fingerprint :: rstr
  entry_snapshot :: env_snapshot
  snapshot_recorded_at :: rstr

record context_timeline =
  tl_baseline :: "env_snapshot option"
  tl_deltas :: "(u64 \<times> delta_entry) list"
  tl_snapshots :: "(rstr \<times> snapshot_entry) list"
  tl_next_sequence :: u64

definition new_timeline :: context_timeline where
  "new_timeline = \<lparr>tl_baseline = None, tl_deltas = [], tl_snapshots = [], tl_next_sequence = 1\<rparr>"

definition add_baseline_once :: "env_snapshot \<Rightarrow> context_timeline \<Rightarrow> (timeline_error + unit) \<times> context_timeline" where
  "add_baseline_once s tml =
     (if tl_baseline tml \<noteq> None then (Inl BaselineAlreadySet, tml)
      else (Inr (), tml\<lparr>tl_baseline := Some s\<rparr>))"

definition timeline_apply_delta ::
    "rstr \<Rightarrow> u64 \<Rightarrow> env_delta \<Rightarrow> context_timeline \<Rightarrow> (timeline_error + unit) \<times> context_timeline" where
  "timeline_apply_delta now n d tml =
     (if tl_baseline tml = None then (Inl BaselineNotSet, tml)
      else if n \<noteq> tl_next_sequence tml then (Inl (DeltaSequenceOutOfOrder (tl_next_sequence tml) n), tml)
      else (let entry = \<lparr>entry_sequence = n, entry_delta = d, delta_recorded_at = now\<rparr>
            in (Inr (), tml\<lparr>tl_deltas := btree_insert n entry (tl_deltas tml),
                           tl_next_sequence := tl_next_sequence tml + 1\<rparr>)))"

definition record_snapshot ::
    "env_serde \<Rightarrow> rstr \<Rightarrow> env_snapshot \<Rightarrow> context_timeline \<Rightarrow> (timeline_error + bool) \<times> context_timeline" where
  "record_snapshot serde now s tml =
     (let fp = fingerprint serde s
      in if map_of (tl_snapshots tml) fp \<noteq> None then (Inr False, tml)
         else (let entry = \<lparr>entry_fingerprint = fp, entry_snapshot = s, snapshot_recorded_at = now\<rparr>
               in (Inr True, tml\<lparr>tl_snapshots := tl_snapshots tml @ [(fp, entry)]\<rparr>)))"

definition get_delta :: "context_timeline \<Rightarrow> u64 \<Rightarrow> delta_entry option" where
  "get_delta tml n = map_of (tl_deltas tml) n"

definition get_snapshot :: "context_timeline \<Rightarrow> rstr \<Rightarrow> snapshot_entry option" where
  "get_snapshot tml fp = map_of (tl_snapshots tml) fp"

definition delta_sequences :: "context_timeline \<Rightarrow> u64 list" where
  "delta_sequences tml = map fst (tl_deltas tml)"

definition snapshot_fingerprints :: "context_timeline \<Rightarrow> rstr list" where
  "snapshot_fingerprints tml = map fst (tl_snapshots tml)"

definition delta_count :: "context_timeline \<Rightarrow> nat" where
  "delta_count tml = length (tl_deltas tml)"

definition snapshot_count :: "context_timeline \<Rightarrow> nat" where
  "snapshot_count tml = length (tl_snapshots tml)"

definition timeline_is_empty :: "context_timeline \<Rightarrow> bool" where
  "timeline_is_empty tml \<longleftrightarrow> tl_baseline tml = None \<and> tl_deltas tml = []"

text \<open>\<open>assemble_prompt_items\<close>; a failing JSON writer makes it fail.\<close>

definition assemble_prompt_items ::
    "env_serde \<Rightarrow> nat \<Rightarrow> rstr option \<Rightarrow> context_timeline \<Rightarrow> env_item list option" where
  "assemble_prompt_items serde max_deltas stream_id tml =
     (let baseline_items =
            (case tl_baseline tml of None \<Rightarrow> [] | Some s \<Rightarrow> [snapshot_to_response_item serde s stream_id]);
          recent = rev (take max_deltas (rev (map snd (tl_deltas tml))));
          delta_items =
            (if max_deltas > 0 then map (\<lambda>e. delta_to_response_item serde (entry_delta e) stream_id) recent else [])
      in those (baseline_items @ delta_items))"

definition estimate_bytes_of :: "('a \<Rightarrow> rstr option) \<Rightarrow> 'a \<Rightarrow> nat" where
  "estimate_bytes_of to_json x = (case to_json x of Some t \<Rightarrow> byte_len t | None \<Rightarrow> 0)"

definition estimated_bytes ::
    "(env_snapshot \<Rightarrow> rstr option) \<Rightarrow> (env_delta \<Rightarrow> rstr option) \<Rightarrow> context_timeline \<Rightarrow> nat" where
  "estimated_bytes snapshot_json delta_json tml =
     (case tl_baseline tml of None \<Rightarrow> 0 | Some s \<Rightarrow> estimate_bytes_of snapshot_json s) +
     sum_list (map (\<lambda>(_, e). estimate_bytes_of delta_json (entry_delta e) + byte_len (delta_recorded_at e) + 8)
       (tl_deltas tml)) +
     sum_list (map (\<lambda>(_, e). estimate_bytes_of snapshot_json (entry_snapshot e)) (tl_snapshots tml))"

section \<open>A session emits a context\<close>

record env_telemetry =
  total_dedup_drops :: u64
  total_snapshot_attempts :: u64
  total_snapshot_dedup_hits :: u64
  total_baseline_resends :: u64
  total_delta_gaps :: u64

definition record_dedup_drop :: "env_telemetry \<Rightarrow> env_telemetry" where
  "record_dedup_drop m = m\<lparr>total_dedup_drops := total_dedup_drops m + 1,
     total_snapshot_attempts := total_snapshot_attempts m + 1,
     total_snapshot_dedup_hits := total_snapshot_dedup_hits m + 1\<rparr>"

definition record_snapshot_commit :: "env_telemetry \<Rightarrow> env_telemetry" where
  "record_snapshot_commit m = m\<lparr>total_snapshot_attempts := total_snapshot_attempts m + 1\<rparr>"

definition record_baseline_resend :: "env_telemetry \<Rightarrow> env_telemetry" where
  "record_baseline_resend m = m\<lparr>total_baseline_resends := total_baseline_resends m + 1\<rparr>"

definition record_delta_gap :: "env_telemetry \<Rightarrow> env_telemetry" where
  "record_delta_gap m = m\<lparr>total_delta_gaps := total_delta_gaps m + 1\<rparr>"

record stream_registry =
  env_stream :: "rstr option"
  browser_stream :: "rstr option"

definition default_registry :: stream_registry where
  "default_registry = \<lparr>env_stream = None, browser_stream = None\<rparr>"

definition env_stream_id :: "rstr \<Rightarrow> stream_registry \<Rightarrow> rstr \<times> stream_registry" where
  "env_stream_id session_id r =
     (let v = (case env_stream r of Some t \<Rightarrow> t | None \<Rightarrow> lit ''env-context-'' @ session_id)
      in (v, r\<lparr>env_stream := Some v\<rparr>))"

definition browser_stream_id :: "rstr \<Rightarrow> stream_registry \<Rightarrow> rstr \<times> stream_registry" where
  "browser_stream_id session_id r =
     (let v = (case browser_stream r of Some t \<Rightarrow> t | None \<Rightarrow> lit ''browser-context-'' @ session_id)
      in (v, r\<lparr>browser_stream := Some v\<rparr>))"

text \<open>
  An event tells the user interface of an emission: the stream, the emission's sequence number, its
  JSON and, for a delta, the fingerprint it starts from.
\<close>

datatype env_event =
    EnvironmentContextFullEvent rstr u64 json_value
  | EnvironmentContextDeltaEvent rstr u64 json_value rstr

text \<open>The flag \<open>CTX_UI\<close> of the process is also what turns the context timeline on.\<close>

record env_config =
  ctx_ui :: bool
  cfg_session_id :: rstr
  cfg_max_env_deltas :: nat
  snapshot_value :: "env_snapshot \<Rightarrow> json_value option"
  delta_value :: "env_delta \<Rightarrow> json_value option"

definition env_ctx_v2 :: "env_config \<Rightarrow> bool" where
  "env_ctx_v2 cfg = ctx_ui cfg"

record env_state =
  st_timeline :: context_timeline
  st_tracker :: env_tracker
  st_env_seq :: u64
  st_last_env :: "env_snapshot option"
  st_streams :: stream_registry
  st_telemetry :: env_telemetry
  st_events :: "env_event list"

definition commit_snapshot ::
    "env_serde \<Rightarrow> rstr \<Rightarrow> env_snapshot \<Rightarrow> context_timeline \<times> env_telemetry \<Rightarrow> context_timeline \<times> env_telemetry" where
  "commit_snapshot serde now s w =
     (let (tml, m) = w;
          (r, tml') = record_snapshot serde now s tml
      in (tml', case r of Inr True \<Rightarrow> record_snapshot_commit m | Inr False \<Rightarrow> record_dedup_drop m | Inl _ \<Rightarrow> m))"

fun note_emission ::
    "env_serde \<Rightarrow> rstr \<Rightarrow> emission \<Rightarrow> context_timeline \<times> env_telemetry \<Rightarrow> context_timeline \<times> env_telemetry" where
  "note_emission serde now (FullEmission n s) (tml, m) =
     commit_snapshot serde now s (snd (add_baseline_once s tml), m)"
| "note_emission serde now (DeltaEmission n s d) (tml, m) =
     (let tml = (if tl_baseline tml = None then snd (add_baseline_once s tml) else tml);
          (r, tml) = timeline_apply_delta now n d tml;
          m = (case r of Inl (DeltaSequenceOutOfOrder _ _) \<Rightarrow> record_delta_gap m | _ \<Rightarrow> m)
      in commit_snapshot serde now s (tml, m))"

fun env_context_event :: "env_config \<Rightarrow> rstr \<Rightarrow> emission \<Rightarrow> env_event option" where
  "env_context_event cfg stream (FullEmission n s) =
     map_option (EnvironmentContextFullEvent stream n) (snapshot_value cfg s)"
| "env_context_event cfg stream (DeltaEmission n s d) =
     map_option (\<lambda>v. EnvironmentContextDeltaEvent stream n v (base_fingerprint d)) (delta_value cfg d)"

definition emit_env_context_event :: "env_config \<Rightarrow> rstr \<Rightarrow> emission \<Rightarrow> env_event list \<Rightarrow> env_event list" where
  "emit_env_context_event cfg stream e events =
     (case env_context_event cfg stream e of None \<Rightarrow> events | Some ev \<Rightarrow> events @ [ev])"

definition maybe_emit_env_ctx_messages ::
    "env_serde \<Rightarrow> env_config \<Rightarrow> rstr \<Rightarrow> environment_context \<Rightarrow> rstr option \<Rightarrow> rstr option \<Rightarrow> env_state \<Rightarrow>
     env_item list option \<times> env_state" where
  "maybe_emit_env_ctx_messages serde cfg now ctx branch effort st =
     (if \<not> env_ctx_v2 cfg then (None, st)
      else
        (let (stream, streams) = env_stream_id (cfg_session_id cfg) (st_streams st);
             (r, tracker) = emit_response_items serde ctx branch effort (Some stream) (st_tracker st);
             st = st\<lparr>st_streams := streams, st_tracker := tracker\<rparr>
         in case r of
              JsonOk (Some (e, items)) \<Rightarrow>
                (let (tml, m) = note_emission serde now e (st_timeline st, st_telemetry st);
                     st = st\<lparr>st_env_seq := emitted_sequence e, st_last_env := Some (emitted_snapshot e),
                             st_timeline := tml, st_telemetry := m\<rparr>;
                     items = (if env_ctx_v2 cfg \<and> ctx_ui cfg then [] else items);
                     st = (if ctx_ui cfg then st\<lparr>st_events := emit_env_context_event cfg stream e (st_events st)\<rparr>
                           else st)
                 in (Some items, st))
            | JsonOk None \<Rightarrow> (None, st)
            | JsonErr \<Rightarrow> (if ctx_ui cfg then (Some [legacy_context_item ctx], st) else (None, st))))"

definition assemble_from_timeline :: "env_serde \<Rightarrow> env_config \<Rightarrow> env_state \<Rightarrow> env_item list option \<times> env_state" where
  "assemble_from_timeline serde cfg st =
     (if \<not> env_ctx_v2 cfg then (None, st)
      else if timeline_is_empty (st_timeline st) then (None, st)
      else
        (let (stream, streams) = env_stream_id (cfg_session_id cfg) (st_streams st)
         in (case assemble_prompt_items serde (cfg_max_env_deltas cfg) (Some stream) (st_timeline st) of
               Some items \<Rightarrow> if items \<noteq> [] then Some items else None
             | None \<Rightarrow> None,
             st\<lparr>st_streams := streams\<rparr>)))"

section \<open>Replaying a rollout\<close>

fun str_find :: "rstr \<Rightarrow> rstr \<Rightarrow> nat option" where
  "str_find [] p = (if p = [] then Some 0 else None)"
| "str_find (c # s) p = (if take (length p) (c # s) = p then Some 0 else map_option Suc (str_find s p))"

fun str_rfind :: "rstr \<Rightarrow> rstr \<Rightarrow> nat option" where
  "str_rfind [] p = (if p = [] then Some 0 else None)"
| "str_rfind (c # s) p =
     (case str_rfind s p of
        Some i \<Rightarrow> Some (Suc i)
      | None \<Rightarrow> if take (length p) (c # s) = p then Some 0 else None)"

definition extract_tagged_json :: "rstr \<Rightarrow> rstr \<Rightarrow> rstr \<Rightarrow> rstr option" where
  "extract_tagged_json t open_tag close_tag =
     (case str_find t open_tag of
        None \<Rightarrow> None
      | Some i \<Rightarrow>
          (let start = i + length open_tag
           in case str_rfind t close_tag of
                None \<Rightarrow> None
              | Some stop \<Rightarrow> if stop \<le> start then None else Some (trim (take (stop - start) (drop start t)))))"

text \<open>The first piece of a user's message that gives a value.\<close>

fun first_input_text :: "(rstr \<Rightarrow> 'a option) \<Rightarrow> content_item list \<Rightarrow> 'a option" where
  "first_input_text f [] = None"
| "first_input_text f (InputText t # cs) = (case f t of Some x \<Rightarrow> Some x | None \<Rightarrow> first_input_text f cs)"
| "first_input_text f (_ # cs) = first_input_text f cs"

fun from_user_message :: "(rstr \<Rightarrow> 'a option) \<Rightarrow> env_item \<Rightarrow> 'a option" where
  "from_user_message f (Message role content _) = (if role \<noteq> lit ''user'' then None else first_input_text f content)"
| "from_user_message f _ = None"

definition parse_env_snapshot_from_response :: "env_serde \<Rightarrow> env_item \<Rightarrow> env_snapshot option" where
  "parse_env_snapshot_from_response serde =
     from_user_message (\<lambda>t. case extract_tagged_json t ENVIRONMENT_CONTEXT_OPEN_TAG ENVIRONMENT_CONTEXT_CLOSE_TAG of
       None \<Rightarrow> None | Some json \<Rightarrow> snapshot_of_text serde json)"

definition parse_env_delta_from_response :: "env_serde \<Rightarrow> env_item \<Rightarrow> env_delta option" where
  "parse_env_delta_from_response serde =
     from_user_message (\<lambda>t.
       case extract_tagged_json t ENVIRONMENT_CONTEXT_DELTA_OPEN_TAG ENVIRONMENT_CONTEXT_DELTA_CLOSE_TAG of
         None \<Rightarrow> None | Some json \<Rightarrow> delta_of_text serde json)"

definition has_system_status :: "rstr \<Rightarrow> bool" where
  "has_system_status t \<longleftrightarrow> str_contains t (lit ''== System Status =='')"

fun is_legacy_system_status :: "env_item \<Rightarrow> bool" where
  "is_legacy_system_status (Message role content _) \<longleftrightarrow>
     role = lit ''user'' \<and> list_ex (\<lambda>c. case c of InputText t \<Rightarrow> has_system_status t | _ \<Rightarrow> False) content"
| "is_legacy_system_status _ \<longleftrightarrow> False"

definition legacy_status_line :: "rstr \<Rightarrow> rstr option \<times> rstr option \<Rightarrow> rstr option \<times> rstr option" where
  "legacy_status_line line w =
     (let (cwd, branch) = w;
          trimmed = trim line
      in case strip_prefix trimmed (lit ''cwd:'') of
           Some rest \<Rightarrow> (let v = trim rest in if v \<noteq> [] then (Some v, branch) else (cwd, branch))
         | None \<Rightarrow>
             (case strip_prefix trimmed (lit ''branch:'') of
                Some rest \<Rightarrow>
                  (let v = trim rest in if v \<noteq> [] \<and> v \<noteq> lit ''unknown'' then (cwd, Some v) else (cwd, branch))
              | None \<Rightarrow> (cwd, branch)))"

definition legacy_status_snapshot :: "rstr \<Rightarrow> env_snapshot option" where
  "legacy_status_snapshot t =
     (if \<not> has_system_status t then None
      else (let (cwd, branch) = fold legacy_status_line (str_lines t) (None, None)
            in Some \<lparr>snap_version = SNAPSHOT_VERSION, snap_cwd = cwd, snap_approval_policy = None,
                 snap_sandbox_mode = None, snap_network_access = None, snap_writable_roots = [],
                 snap_operating_system = None, snap_common_tools = [], snap_shell = None,
                 snap_git_branch = branch, snap_reasoning_effort = None\<rparr>))"

definition parse_legacy_status_snapshot :: "env_item \<Rightarrow> env_snapshot option" where
  "parse_legacy_status_snapshot = from_user_message legacy_status_snapshot"

record replay_context =
  rp_timeline :: context_timeline
  rp_next_sequence :: u64
  rp_last_snapshot :: "env_snapshot option"
  rp_legacy_baseline :: "env_snapshot option"

definition default_replay :: replay_context where
  "default_replay = \<lparr>rp_timeline = new_timeline, rp_next_sequence = 1, rp_last_snapshot = None,
     rp_legacy_baseline = None\<rparr>"

definition replay_snapshot ::
    "env_serde \<Rightarrow> rstr \<Rightarrow> env_snapshot \<Rightarrow> replay_context \<times> env_telemetry \<Rightarrow> replay_context \<times> env_telemetry" where
  "replay_snapshot serde now s w =
     (let (ctx, m) = w;
          tml = (if tl_baseline (rp_timeline ctx) = None then snd (add_baseline_once s (rp_timeline ctx))
                else rp_timeline ctx);
          (tml, m) = commit_snapshot serde now s (tml, m)
      in (ctx\<lparr>rp_timeline := tml, rp_last_snapshot := Some s\<rparr>, m))"

definition replay_delta ::
    "env_serde \<Rightarrow> rstr \<Rightarrow> env_delta \<Rightarrow> replay_context \<times> env_telemetry \<Rightarrow> replay_context \<times> env_telemetry" where
  "replay_delta serde now d w =
     (let (ctx, m) = w
      in case rp_last_snapshot ctx of
           None \<Rightarrow> (ctx, record_delta_gap m)
         | Some base \<Rightarrow>
             if base_fingerprint d \<noteq> fingerprint serde base
             then (ctx\<lparr>rp_timeline := new_timeline, rp_last_snapshot := None, rp_legacy_baseline := None,
                       rp_next_sequence := 1\<rparr>,
                   record_delta_gap (record_baseline_resend m))
             else
               (case timeline_apply_delta now (rp_next_sequence ctx) d (rp_timeline ctx) of
                  (Inl _, tml) \<Rightarrow> (ctx\<lparr>rp_timeline := tml\<rparr>, record_delta_gap m)
                | (Inr _, tml) \<Rightarrow>
                    (let next_snapshot = apply_delta serde base d;
                         (tml, m) = commit_snapshot serde now next_snapshot (tml, m)
                     in (ctx\<lparr>rp_timeline := tml, rp_next_sequence := saturating_add (rp_next_sequence ctx) 1,
                              rp_last_snapshot := Some next_snapshot\<rparr>, m))))"

definition process_rollout_env_item ::
    "env_serde \<Rightarrow> rstr \<Rightarrow> env_item \<Rightarrow> replay_context \<times> env_telemetry \<Rightarrow> replay_context \<times> env_telemetry" where
  "process_rollout_env_item serde now item w =
     (case parse_env_snapshot_from_response serde item of
        Some s \<Rightarrow> replay_snapshot serde now s w
      | None \<Rightarrow>
          (case parse_env_delta_from_response serde item of
             Some d \<Rightarrow> replay_delta serde now d w
           | None \<Rightarrow>
               (let (ctx, m) = w
                in if rp_legacy_baseline ctx = None \<and> is_legacy_system_status item
                   then (case parse_legacy_status_snapshot item of
                           Some s \<Rightarrow> (ctx\<lparr>rp_legacy_baseline := Some s\<rparr>, m)
                         | None \<Rightarrow> (ctx, m))
                   else (ctx, m))))"

text \<open>
  A rollout item; a compaction and the other events leave the environment alone. The history that
  \<open>reconstruct_history_from_rollout\<close> returns is not part of the model: here is what it does to the
  environment state of the session. The contexts that \<open>build_initial_context\<close> emits on the way are
  overwritten at the end, apart from the counts of the telemetry and the events, which are left out.
\<close>

datatype rollout_item =
    RolloutResponseItem env_item | RolloutCompacted | RolloutUserMessage rstr rstr | RolloutOther

fun replay_rollout_item ::
    "env_serde \<Rightarrow> rstr \<Rightarrow> rollout_item \<Rightarrow> replay_context \<times> env_telemetry \<Rightarrow> replay_context \<times> env_telemetry" where
  "replay_rollout_item serde now (RolloutResponseItem item) w = process_rollout_env_item serde now item w"
| "replay_rollout_item serde now (RolloutUserMessage msg_id t) w =
     process_rollout_env_item serde now (Message (lit ''user'') [InputText t] (Some msg_id)) w"
| "replay_rollout_item serde now _ w = w"

definition finish_replay ::
    "env_serde \<Rightarrow> rstr \<Rightarrow> replay_context \<times> env_telemetry \<Rightarrow> replay_context \<times> env_telemetry" where
  "finish_replay serde now w =
     (let (ctx, m) = w
      in if tl_baseline (rp_timeline ctx) = None
         then (case rp_legacy_baseline ctx of
                 Some s \<Rightarrow>
                   (let (tml, m) = commit_snapshot serde now s (snd (add_baseline_once s (rp_timeline ctx)), m)
                    in (ctx\<lparr>rp_timeline := tml, rp_last_snapshot := Some s\<rparr>, m))
               | None \<Rightarrow> (ctx, m))
         else (ctx, m))"

definition reconstruct_env_state :: "env_serde \<Rightarrow> rstr \<Rightarrow> rollout_item list \<Rightarrow> env_state \<Rightarrow> env_state" where
  "reconstruct_env_state serde now rollout st =
     (let (ctx, m) = finish_replay serde now
                       (fold (replay_rollout_item serde now) rollout (default_replay, st_telemetry st));
          st = st\<lparr>st_timeline := rp_timeline ctx, st_env_seq := saturating_sub (rp_next_sequence ctx) 1,
                  st_streams := default_registry, st_telemetry := m\<rparr>
      in case rp_last_snapshot ctx of
           Some s \<Rightarrow> st\<lparr>st_last_env := Some s, st_tracker := restore s (rp_next_sequence ctx) (st_tracker st)\<rparr>
         | None \<Rightarrow> st\<lparr>st_last_env := None, st_tracker := new_tracker\<rparr>)"

end
