(* ===== verification/Context_Props.thy ===== *)
theory Context_Props
  imports Context_Timeline
begin

text \<open>
  Properties of the environment timeline: its invariant, how the sequence numbers of the tracker and
  of the timeline drift apart in a running session, that replaying the items of its emissions would restore
  what the session observed, and that the session never hands these items out.
\<close>

section \<open>Sequence numbers and ordered insertion\<close>

lemma unat_succ: "unat (w :: u64) + 1 < 2 ^ 64 \<Longrightarrow> unat (w + 1) = unat w + 1"
  by (simp add: unat_word_ariths)

lemma btree_insert_snoc: "\<forall>k \<in> fst ` set m. k < n \<Longrightarrow> btree_insert n v m = m @ [(n, v)]"
  by (induction n v m rule: btree_insert.induct) auto

lemma upto_words_less:
  "k \<in> set (map word_of_nat [1..<unat (n :: u64)]) \<Longrightarrow> (k :: u64) < n"
  using unat_u64_less [of n] by (auto simp: word_less_nat_alt unat_of_nat)

section \<open>The invariant of the timeline\<close>

text \<open>
  The deltas of a well-formed timeline carry the sequence numbers from one up to the next one,
  without gaps and in order; without a baseline there are none; and each stored snapshot is filed
  once, under its own fingerprint.
\<close>

definition timeline_ok :: "env_serde \<Rightarrow> context_timeline \<Rightarrow> bool" where
  "timeline_ok serde tml \<longleftrightarrow>
     1 \<le> unat (tl_next_sequence tml) \<and>
     delta_sequences tml = map word_of_nat [1..<unat (tl_next_sequence tml)] \<and>
     (\<forall>(n, e) \<in> set (tl_deltas tml). entry_sequence e = n) \<and>
     (tl_baseline tml = None \<longrightarrow> tl_deltas tml = []) \<and>
     distinct (snapshot_fingerprints tml) \<and>
     (\<forall>(fp, e) \<in> set (tl_snapshots tml). entry_fingerprint e = fp \<and> fingerprint serde (entry_snapshot e) = fp)"

datatype timeline_call =
    AddBaselineOnce env_snapshot | ApplyDelta rstr u64 env_delta | RecordSnapshot rstr env_snapshot

fun timeline_run :: "env_serde \<Rightarrow> timeline_call \<Rightarrow> context_timeline \<Rightarrow> context_timeline" where
  "timeline_run serde (AddBaselineOnce s) tml = snd (add_baseline_once s tml)"
| "timeline_run serde (ApplyDelta now n d) tml = snd (timeline_apply_delta now n d tml)"
| "timeline_run serde (RecordSnapshot now s) tml = snd (record_snapshot serde now s tml)"

lemma timeline_ok_new: "timeline_ok serde new_timeline"
  by (simp add: timeline_ok_def new_timeline_def delta_sequences_def snapshot_fingerprints_def)

lemma timeline_ok_baseline: "timeline_ok serde tml \<Longrightarrow> timeline_ok serde (snd (add_baseline_once s tml))"
  by (auto simp: timeline_ok_def add_baseline_once_def delta_sequences_def snapshot_fingerprints_def)

lemma timeline_ok_snapshot: "timeline_ok serde tml \<Longrightarrow> timeline_ok serde (snd (record_snapshot serde now s tml))"
  by (auto simp: timeline_ok_def record_snapshot_def delta_sequences_def snapshot_fingerprints_def Let_def
      map_of_eq_None_iff)

lemma timeline_ok_delta:
  assumes ok: "timeline_ok serde tml" and room: "unat (tl_next_sequence tml) + 1 < 2 ^ 64"
  shows "timeline_ok serde (snd (timeline_apply_delta now n d tml))"
proof (cases "tl_baseline tml = None \<or> n \<noteq> tl_next_sequence tml")
  case True
  then show ?thesis
    using ok by (auto simp: timeline_apply_delta_def)
next
  case False
  have keys: "map fst (tl_deltas tml) = map word_of_nat [1..<unat (tl_next_sequence tml)]"
    and pos: "1 \<le> unat (tl_next_sequence tml)"
    using ok by (simp_all add: timeline_ok_def delta_sequences_def)
  have "k < tl_next_sequence tml" if "k \<in> fst ` set (tl_deltas tml)" for k
    using that upto_words_less [of k "tl_next_sequence tml"] unfolding keys [symmetric] by simp
  then have "btree_insert (tl_next_sequence tml) e (tl_deltas tml) = tl_deltas tml @ [(tl_next_sequence tml, e)]" for e
    by (intro btree_insert_snoc) simp
  then show ?thesis
    using False ok pos keys unat_succ [OF room]
    by (auto simp: timeline_ok_def timeline_apply_delta_def Let_def delta_sequences_def snapshot_fingerprints_def)
qed

lemma next_sequence_grows:
  "unat (tl_next_sequence (timeline_run serde c tml)) \<le> unat (tl_next_sequence tml) + 1"
  by (cases c) (auto simp: add_baseline_once_def timeline_apply_delta_def record_snapshot_def Let_def unat_word_ariths)

lemma timeline_ok_run:
  assumes "timeline_ok serde tml" and "unat (tl_next_sequence tml) + length calls < 2 ^ 64"
  shows "timeline_ok serde (fold (timeline_run serde) calls tml)"
  using assms
proof (induction calls arbitrary: tml)
  case (Cons c calls)
  have "timeline_ok serde (timeline_run serde c tml)"
    using Cons.prems by (cases c) (simp_all add: timeline_ok_baseline timeline_ok_snapshot timeline_ok_delta)
  moreover have "unat (tl_next_sequence (timeline_run serde c tml)) + length calls < 2 ^ 64"
    using Cons.prems(2) next_sequence_grows [of serde c tml] by simp
  ultimately show ?case
    using Cons.IH by simp
qed simp

section \<open>A running session\<close>

datatype session_call =
    EmitContext rstr environment_context "rstr option" "rstr option"
  | ReplayRollout rstr "rollout_item list"
  | BuildPrompt

fun session_run :: "env_serde \<Rightarrow> env_config \<Rightarrow> session_call \<Rightarrow> env_state \<Rightarrow> env_state" where
  "session_run serde cfg (EmitContext now ctx branch effort) st =
     snd (maybe_emit_env_ctx_messages serde cfg now ctx branch effort st)"
| "session_run serde cfg (ReplayRollout now rollout) st = reconstruct_env_state serde now rollout st"
| "session_run serde cfg BuildPrompt st = snd (assemble_from_timeline serde cfg st)"

definition new_env_state :: "env_telemetry \<Rightarrow> env_state" where
  "new_env_state m = \<lparr>st_timeline = new_timeline, st_tracker = new_tracker, st_env_seq = 0, st_last_env = None,
     st_streams = default_registry, st_telemetry = m, st_events = []\<rparr>"

text \<open>An upper bound of what a call adds to the sequence numbers.\<close>

fun call_weight :: "session_call \<Rightarrow> nat" where
  "call_weight (EmitContext _ _ _ _) = 1"
| "call_weight (ReplayRollout _ rollout) = length rollout + 1"
| "call_weight BuildPrompt = 0"

text \<open>
  The tracker numbers the emissions from one, the baseline included; the timeline expects the deltas
  numbered from one. So the tracker is never behind, and its next number never the expected one.
\<close>

definition tracker_ahead :: "nat \<Rightarrow> env_tracker \<Rightarrow> context_timeline \<Rightarrow> bool" where
  "tracker_ahead k t tml \<longleftrightarrow>
     unat (trk_next_sequence t) \<le> k \<and>
     (if trk_last_snapshot t = None then tl_next_sequence tml = 1
      else unat (tl_next_sequence tml) \<le> unat (trk_next_sequence t))"

lemma commit_snapshot_frame [simp]:
  "tl_deltas (fst (commit_snapshot serde now s w)) = tl_deltas (fst w)"
  "tl_next_sequence (fst (commit_snapshot serde now s w)) = tl_next_sequence (fst w)"
  "tl_baseline (fst (commit_snapshot serde now s w)) = tl_baseline (fst w)"
  by (auto simp: commit_snapshot_def record_snapshot_def Let_def split_beta)

lemma add_baseline_frame [simp]:
  "tl_deltas (snd (add_baseline_once s tml)) = tl_deltas tml"
  "tl_next_sequence (snd (add_baseline_once s tml)) = tl_next_sequence tml"
  "tl_snapshots (snd (add_baseline_once s tml)) = tl_snapshots tml"
  "tl_baseline (snd (add_baseline_once s tml)) = (if tl_baseline tml = None then Some s else tl_baseline tml)"
  by (auto simp: add_baseline_once_def)

lemma note_full_frame:
  "tl_deltas (fst (note_emission serde now (FullEmission n s) w)) = tl_deltas (fst w)"
  "tl_next_sequence (fst (note_emission serde now (FullEmission n s) w)) = tl_next_sequence (fst w)"
  by (cases w; simp)+

lemma note_delta_frame:
  assumes "n \<noteq> tl_next_sequence (fst w)"
  shows "tl_deltas (fst (note_emission serde now (DeltaEmission n s d) w)) = tl_deltas (fst w)"
    "tl_next_sequence (fst (note_emission serde now (DeltaEmission n s d) w)) = tl_next_sequence (fst w)"
  using assms by (cases w; auto simp: timeline_apply_delta_def Let_def split_beta)+

text \<open>What emitting a context does to the tracker and to the timeline.\<close>

lemma observe_Some:
  assumes "observe serde s t = (Some e, t')"
  shows "trk_next_sequence t' = trk_next_sequence t + 1" and "trk_last_snapshot t' = Some s"
    and "trk_last_snapshot t = None \<and> e = FullEmission (trk_next_sequence t + 1) s \<or>
      (\<exists>previous. trk_last_snapshot t = Some previous \<and> fingerprint serde s \<noteq> fingerprint serde previous \<and>
         e = DeltaEmission (trk_next_sequence t + 1) s (diff_from serde s previous))"
  using assms by (auto simp: observe_def Let_def split: option.splits if_splits)

lemma emit_cases:
  obtains (unchanged) "st_tracker (snd (maybe_emit_env_ctx_messages serde cfg now ctx branch effort st)) = st_tracker st"
      "st_timeline (snd (maybe_emit_env_ctx_messages serde cfg now ctx branch effort st)) = st_timeline st"
  | (emitted) e t where "observe serde (with_metadata branch effort (from_context ctx)) (st_tracker st) = (Some e, t)"
      "st_tracker (snd (maybe_emit_env_ctx_messages serde cfg now ctx branch effort st)) = t"
      "st_timeline (snd (maybe_emit_env_ctx_messages serde cfg now ctx branch effort st)) \<in>
         {st_timeline st, fst (note_emission serde now e (st_timeline st, st_telemetry st))}"
proof (cases "env_ctx_v2 cfg")
  case False
  then show ?thesis
    by (intro unchanged) (simp_all add: maybe_emit_env_ctx_messages_def)
next
  case True
  show ?thesis
  proof (cases "observe serde (with_metadata branch effort (from_context ctx)) (st_tracker st)")
    case (Pair r t)
    show ?thesis
    proof (cases r)
      case None
      then have "t = st_tracker st"
        using Pair by (auto simp: observe_def Let_def split: option.splits if_splits)
      then show ?thesis
        using True Pair None
        by (intro unchanged) (simp_all add: maybe_emit_env_ctx_messages_def emit_response_items_def split_beta Let_def)
    next
      case (Some e)
      then show ?thesis
        using True Pair
        by (intro emitted [of e t])
           (auto simp: maybe_emit_env_ctx_messages_def emit_response_items_def split_beta Let_def split: option.splits)
    qed
  qed
qed

lemma emit_keeps_deltas:
  fixes serde cfg now ctx branch effort
  assumes ahead: "tracker_ahead k (st_tracker st) (st_timeline st)" and room: "k + 1 < 2 ^ 64"
  defines "st' \<equiv> snd (maybe_emit_env_ctx_messages serde cfg now ctx branch effort st)"
  shows "tl_deltas (st_timeline st') = tl_deltas (st_timeline st)"
    and "tracker_ahead (k + 1) (st_tracker st') (st_timeline st')"
proof -
  have bound: "unat (trk_next_sequence (st_tracker st)) \<le> k"
    using ahead by (simp add: tracker_ahead_def)
  then have succ: "unat (trk_next_sequence (st_tracker st) + 1) = unat (trk_next_sequence (st_tracker st)) + 1"
    using room by (intro unat_succ) simp
  have "tl_deltas (st_timeline st') = tl_deltas (st_timeline st) \<and>
        tracker_ahead (k + 1) (st_tracker st') (st_timeline st')"
  proof (rule emit_cases [of serde cfg now ctx branch effort st, folded st'_def])
    assume "st_tracker st' = st_tracker st" "st_timeline st' = st_timeline st"
    then show ?thesis
      using ahead by (auto simp: tracker_ahead_def)
  next
    fix e t
    assume seen: "observe serde (with_metadata branch effort (from_context ctx)) (st_tracker st) = (Some e, t)"
      and t: "st_tracker st' = t"
      and tml: "st_timeline st' \<in> {st_timeline st, fst (note_emission serde now e (st_timeline st, st_telemetry st))}"
    note after = observe_Some [OF seen]
    have "tl_deltas (st_timeline st') = tl_deltas (st_timeline st) \<and>
          tl_next_sequence (st_timeline st') = tl_next_sequence (st_timeline st)"
    proof (cases "trk_last_snapshot (st_tracker st)")
      case None
      then show ?thesis
        using after(3) tml by (auto simp: note_full_frame simp del: note_emission.simps)
    next
      case (Some previous)
      then have "trk_next_sequence (st_tracker st) + 1 \<noteq> tl_next_sequence (st_timeline st)"
        using ahead succ by (auto simp: tracker_ahead_def)
      then show ?thesis
        using Some after(3) tml by (auto simp: note_delta_frame simp del: note_emission.simps)
    qed
    moreover have "unat (tl_next_sequence (st_timeline st)) \<le> unat (trk_next_sequence (st_tracker st)) + 1"
      using ahead by (auto simp: tracker_ahead_def split: if_splits)
    ultimately show ?thesis
      using after(1,2) t bound succ by (simp add: tracker_ahead_def)
  qed
  then show "tl_deltas (st_timeline st') = tl_deltas (st_timeline st)"
    and "tracker_ahead (k + 1) (st_tracker st') (st_timeline st')"
    by simp_all
qed

lemma saturating_succ: "unat (w :: u64) + 1 < 2 ^ 64 \<Longrightarrow> saturating_add w 1 = w + 1"
  by (simp add: saturating_add_def word_le_nat_alt unat_succ)

definition replay_ok :: "nat \<Rightarrow> replay_context \<Rightarrow> bool" where
  "replay_ok k ctx \<longleftrightarrow>
     rp_next_sequence ctx = tl_next_sequence (rp_timeline ctx) \<and>
     1 \<le> unat (rp_next_sequence ctx) \<and> unat (rp_next_sequence ctx) \<le> k + 1 \<and>
     (rp_last_snapshot ctx = None \<longrightarrow> rp_next_sequence ctx = 1)"

lemma replay_ok_snapshot: "replay_ok k (fst w) \<Longrightarrow> replay_ok (k + 1) (fst (replay_snapshot serde now s w))"
  by (auto simp: replay_snapshot_def replay_ok_def Let_def split_beta)

lemma replay_ok_delta:
  assumes "replay_ok k (fst w)" and room: "k + 2 < 2 ^ 64"
  shows "replay_ok (k + 1) (fst (replay_delta serde now d w))"
proof -
  have "unat (rp_next_sequence (fst w)) + 1 < 2 ^ 64"
    using assms by (auto simp: replay_ok_def)
  from unat_succ [OF this] saturating_succ [OF this] show ?thesis
    using assms(1)
    by (auto simp: replay_delta_def replay_ok_def Let_def split_beta timeline_apply_delta_def new_timeline_def
        split: option.splits prod.splits sum.splits)
qed

lemma replay_ok_mono: "replay_ok k ctx \<Longrightarrow> replay_ok (k + 1) ctx"
  by (auto simp: replay_ok_def)

lemma replay_ok_item:
  assumes "replay_ok k (fst w)" and "k + 2 < 2 ^ 64"
  shows "replay_ok (k + 1) (fst (process_rollout_env_item serde now item w))"
proof -
  have legacy: "replay_ok (k + 1) (ctx\<lparr>rp_legacy_baseline := v\<rparr>)" if "replay_ok (k + 1) ctx" for ctx v
    using that by (auto simp: replay_ok_def)
  show ?thesis
    unfolding process_rollout_env_item_def
    by (auto simp: split_beta Let_def split: option.splits
        intro!: replay_ok_snapshot [OF assms(1), simplified] replay_ok_delta [OF assms, simplified]
          legacy [simplified] replay_ok_mono [OF assms(1), simplified])
qed

lemma replay_ok_rollout:
  assumes "replay_ok k (fst w)" and "k + length rollout + 1 < 2 ^ 64"
  shows "replay_ok (k + length rollout) (fst (fold (replay_rollout_item serde now) rollout w))"
  using assms
proof (induction rollout arbitrary: k w)
  case (Cons item rollout)
  have "replay_ok (k + 1) (fst (replay_rollout_item serde now item w))"
    using Cons.prems by (cases item) (simp_all add: replay_ok_item [simplified] replay_ok_mono [simplified])
  from Cons.IH [OF this] Cons.prems(2) show ?case
    by simp
qed simp

lemma replay_ok_finish: "replay_ok k (fst w) \<Longrightarrow> replay_ok k (fst (finish_replay serde now w))"
  by (auto simp: finish_replay_def replay_ok_def Let_def split_beta split: option.splits)

lemma tracker_ahead_replay:
  assumes "length rollout + 1 < 2 ^ 64"
  shows "tracker_ahead (length rollout + 1) (st_tracker (reconstruct_env_state serde now rollout st))
           (st_timeline (reconstruct_env_state serde now rollout st))"
proof -
  have "replay_ok 0 default_replay"
    by (simp add: replay_ok_def default_replay_def new_timeline_def)
  then have "replay_ok (length rollout)
    (fst (finish_replay serde now (fold (replay_rollout_item serde now) rollout (default_replay, st_telemetry st))))"
    using replay_ok_rollout [of 0 "(default_replay, st_telemetry st)" rollout serde now] assms
    by (intro replay_ok_finish) simp
  then show ?thesis
    by (auto simp: reconstruct_env_state_def tracker_ahead_def replay_ok_def new_tracker_def restore_def max_def
        word_le_nat_alt Let_def split_beta split: option.splits)
qed

lemma tracker_ahead_mono: "tracker_ahead k t tml \<Longrightarrow> k \<le> k' \<Longrightarrow> tracker_ahead k' t tml"
  by (simp add: tracker_ahead_def)

lemma tracker_ahead_run:
  assumes "tracker_ahead k (st_tracker st) (st_timeline st)"
    and "k + sum_list (map call_weight calls) < 2 ^ 64"
  shows "tracker_ahead (k + sum_list (map call_weight calls))
           (st_tracker (fold (session_run serde cfg) calls st)) (st_timeline (fold (session_run serde cfg) calls st))"
  using assms
proof (induction calls arbitrary: k st)
  case (Cons c calls)
  let ?st = "session_run serde cfg c st"
  have "tracker_ahead (k + call_weight c) (st_tracker ?st) (st_timeline ?st)"
  proof (cases c)
    case (EmitContext now ctx branch effort)
    then show ?thesis
      using Cons.prems emit_keeps_deltas(2) [OF Cons.prems(1)] by simp
  next
    case (ReplayRollout now rollout)
    then show ?thesis
      using Cons.prems(2) by (auto intro: tracker_ahead_mono [OF tracker_ahead_replay])
  next
    case BuildPrompt
    then show ?thesis
      using Cons.prems(1) by (simp add: assemble_from_timeline_def split_beta)
  qed
  from Cons.IH [OF this] Cons.prems(2) show ?case
    by (simp add: add.assoc)
qed simp

lemma live_deltas_lost:
  assumes "sum_list (map call_weight calls) + 1 < 2 ^ 64"
    and "st = fold (session_run serde cfg) calls (new_env_state m)"
  shows "tl_deltas (st_timeline (snd (maybe_emit_env_ctx_messages serde cfg now ctx branch effort st))) =
         tl_deltas (st_timeline st)"
proof -
  have "tracker_ahead 0 (st_tracker (new_env_state m)) (st_timeline (new_env_state m))"
    by (simp add: tracker_ahead_def new_env_state_def new_tracker_def new_timeline_def)
  from tracker_ahead_run [OF this, of calls serde cfg]
  have "tracker_ahead (sum_list (map call_weight calls)) (st_tracker st) (st_timeline st)"
    using assms by simp
  then show ?thesis
    using assms(1) by (rule emit_keeps_deltas(1))
qed

section \<open>Reading back what was emitted\<close>

lemma str_find_append: "p \<noteq> [] \<Longrightarrow> str_find (p @ r) p = Some 0"
  by (cases p) simp_all

lemma take_prefix_iff: "take (length p) s = p \<longleftrightarrow> (\<exists>r. s = p @ r)"
  by (metis append_eq_conv_conj append_take_drop_id)

lemma str_find_None: "str_find s p = None \<longleftrightarrow> \<not> str_contains s p"
  by (induction s p rule: str_find.induct) (auto simp: starts_with_iff take_prefix_iff)

lemma str_rfind_short: "length s < length p \<Longrightarrow> str_rfind s p = None"
  by (induction s p rule: str_rfind.induct) auto

lemma str_rfind_append: "p \<noteq> [] \<Longrightarrow> str_rfind (s @ p) p = Some (length s)"
proof (induction s)
  case Nil
  then show ?case
    by (cases p) (simp_all add: str_rfind_short)
qed simp

lemma trim_newlines: "trim ([10] @ t @ [10]) = trim t"
proof -
  have ws: "is_whitespace 10"
    by (simp add: is_whitespace_def)
  show ?thesis
  proof (cases "\<forall>c \<in> set t. is_whitespace c")
    case True
    then have "trim ([10] @ t @ [10]) = [] \<and> trim t = []"
      using ws by (auto simp: trim_eq_Nil_iff list_all_iff)
    then show ?thesis
      by simp
  next
    case False
    then show ?thesis
      using ws by (auto simp: trim_def trim_matches_def trim_start_matches_def trim_end_matches_def dropWhile_append)
  qed
qed

lemma extract_tagged_json_tagged:
  assumes "open_tag \<noteq> []" and "close_tag \<noteq> []"
  shows "extract_tagged_json (open_tag @ [10] @ t @ [10] @ close_tag) open_tag close_tag = Some (trim t)"
proof -
  have "str_rfind (open_tag @ [10] @ t @ [10] @ close_tag) close_tag = Some (length open_tag + length t + 2)"
    using str_rfind_append [OF assms(2), of "open_tag @ [10] @ t @ [10]"] by simp
  moreover have "take (length t + 2) ([10] @ t @ [10] @ close_tag) = [10] @ t @ [10]"
    by simp
  ultimately show ?thesis
    using trim_newlines [of t]
    by (simp add: extract_tagged_json_def str_find_append [OF assms(1)])
qed

lemma sublist_across:
  assumes "sublist p (x @ [c] @ y)" and "c \<notin> set p"
  shows "sublist p x \<or> sublist p y"
proof -
  obtain u v where "x @ [c] @ y = u @ p @ v"
    using assms(1) unfolding sublist_def by blast
  then consider zs where "x = u @ zs" "zs @ [c] @ y = p @ v" | zs where "u = x @ zs" "[c] @ y = zs @ p @ v"
    by (auto simp: append_eq_append_conv2)
  then show ?thesis
  proof cases
    case 1
    from 1(2) consider ws where "zs = p @ ws" | ws where "p = zs @ ws" "[c] @ y = ws @ v"
      by (auto simp: append_eq_append_conv2)
    then show ?thesis
    proof cases
      case 2
      then have "ws = []"
        using assms(2) by (cases ws) auto
      with 2 1 show ?thesis
        by (auto simp: sublist_def intro: exI [of _ u])
    qed (use 1 in \<open>auto simp: sublist_def\<close>)
  next
    case 2
    then show ?thesis
    proof (cases zs)
      case Nil
      with 2(2) assms(2) have "p = []"
        by (cases p) auto
      then show ?thesis
        by simp
    qed (auto simp: sublist_def)
  qed
qed

lemma delta_text_plain:
  assumes "\<not> str_contains t ENVIRONMENT_CONTEXT_OPEN_TAG"
  shows "\<not> str_contains (ENVIRONMENT_CONTEXT_DELTA_OPEN_TAG @ [10] @ t @ [10] @ ENVIRONMENT_CONTEXT_DELTA_CLOSE_TAG)
           ENVIRONMENT_CONTEXT_OPEN_TAG"
proof -
  have "\<not> str_contains ENVIRONMENT_CONTEXT_DELTA_OPEN_TAG ENVIRONMENT_CONTEXT_OPEN_TAG"
    "\<not> str_contains ENVIRONMENT_CONTEXT_DELTA_CLOSE_TAG ENVIRONMENT_CONTEXT_OPEN_TAG"
    "10 \<notin> set ENVIRONMENT_CONTEXT_OPEN_TAG"
    by (simp_all add: str_eval ENVIRONMENT_CONTEXT_DELTA_OPEN_TAG_def ENVIRONMENT_CONTEXT_OPEN_TAG_def
        ENVIRONMENT_CONTEXT_DELTA_CLOSE_TAG_def)
  with assms show ?thesis
    unfolding str_contains_iff by (metis sublist_across)
qed

text \<open>
  What is relied on of the JSON texts: a snapshot and a delta are written, and their text is read
  back as they were.
\<close>

definition texts_ok :: "env_serde \<Rightarrow> bool" where
  "texts_ok serde \<longleftrightarrow>
     (\<forall>s. \<exists>t. snapshot_to_text serde s = Some t \<and> snapshot_of_text serde (trim t) = Some s) \<and>
     (\<forall>d. \<exists>t. delta_to_text serde d = Some t \<and> delta_of_text serde (trim t) = Some d)"

lemma tags_not_Nil:
  "ENVIRONMENT_CONTEXT_OPEN_TAG \<noteq> []" "ENVIRONMENT_CONTEXT_CLOSE_TAG \<noteq> []"
  "ENVIRONMENT_CONTEXT_DELTA_OPEN_TAG \<noteq> []" "ENVIRONMENT_CONTEXT_DELTA_CLOSE_TAG \<noteq> []"
  by (simp_all add: ENVIRONMENT_CONTEXT_OPEN_TAG_def ENVIRONMENT_CONTEXT_CLOSE_TAG_def
      ENVIRONMENT_CONTEXT_DELTA_OPEN_TAG_def ENVIRONMENT_CONTEXT_DELTA_CLOSE_TAG_def lit_def)

lemma snapshot_item_read:
  assumes "texts_ok serde"
  obtains item where "snapshot_to_response_item serde s sid = Some item"
    "parse_env_snapshot_from_response serde item = Some s"
proof -
  obtain t where "snapshot_to_text serde s = Some t" "snapshot_of_text serde (trim t) = Some s"
    using assms unfolding texts_ok_def by blast
  then show ?thesis
    using extract_tagged_json_tagged [OF tags_not_Nil(1,2), of t]
    by (intro that [of "tagged_item ENVIRONMENT_CONTEXT_OPEN_TAG ENVIRONMENT_CONTEXT_CLOSE_TAG sid t"])
       (simp_all add: snapshot_to_response_item_def tagged_item_def parse_env_snapshot_from_response_def)
qed

definition plain_delta :: "env_serde \<Rightarrow> env_delta \<Rightarrow> bool" where
  "plain_delta serde d \<longleftrightarrow>
     (\<forall>t. delta_to_text serde d = Some t \<longrightarrow> \<not> str_contains t ENVIRONMENT_CONTEXT_OPEN_TAG)"

lemma delta_item_read:
  assumes "texts_ok serde" and "plain_delta serde d"
  obtains item where "delta_to_response_item serde d sid = Some item"
    "parse_env_snapshot_from_response serde item = None" "parse_env_delta_from_response serde item = Some d"
proof -
  obtain t where t: "delta_to_text serde d = Some t" "delta_of_text serde (trim t) = Some d"
    using assms(1) unfolding texts_ok_def by blast
  then have none: "extract_tagged_json
      (ENVIRONMENT_CONTEXT_DELTA_OPEN_TAG @ [10] @ t @ [10] @ ENVIRONMENT_CONTEXT_DELTA_CLOSE_TAG)
      ENVIRONMENT_CONTEXT_OPEN_TAG ENVIRONMENT_CONTEXT_CLOSE_TAG = None"
    using assms(2) str_find_None [THEN iffD2, OF delta_text_plain, of t]
    by (simp add: plain_delta_def extract_tagged_json_def)
  then show ?thesis
    using t none extract_tagged_json_tagged [OF tags_not_Nil(3,4), of t]
    by (intro that [of "tagged_item ENVIRONMENT_CONTEXT_DELTA_OPEN_TAG ENVIRONMENT_CONTEXT_DELTA_CLOSE_TAG sid t"])
       (simp_all add: delta_to_response_item_def tagged_item_def parse_env_delta_from_response_def
          parse_env_snapshot_from_response_def)
qed

section \<open>Replaying an emitted history\<close>

type_synonym observed = "environment_context \<times> rstr option \<times> rstr option"

definition observed_snapshot :: "observed \<Rightarrow> env_snapshot" where
  "observed_snapshot c = (case c of (ctx, branch, effort) \<Rightarrow> with_metadata branch effort (from_context ctx))"

text \<open>
  A session observes one context after the other; the items its tracker renders for them (which the
  session drops, see \<open>context_items_never_sent\<close>), and its state.
\<close>

definition rendered :: "env_serde \<Rightarrow> env_config \<Rightarrow> observed \<Rightarrow> env_state \<Rightarrow> env_item list" where
  "rendered serde cfg c st =
     (case c of (ctx, branch, effort) \<Rightarrow>
        (case fst (emit_response_items serde ctx branch effort
             (Some (fst (env_stream_id (cfg_session_id cfg) (st_streams st)))) (st_tracker st)) of
           JsonOk (Some (_, items)) \<Rightarrow> items
         | _ \<Rightarrow> []))"

fun emit_all ::
    "env_serde \<Rightarrow> env_config \<Rightarrow> rstr \<Rightarrow> observed list \<Rightarrow> env_state \<Rightarrow> env_item list \<times> env_state" where
  "emit_all serde cfg now [] st = ([], st)"
| "emit_all serde cfg now ((ctx, branch, effort) # cs) st =
     (let st' = snd (maybe_emit_env_ctx_messages serde cfg now ctx branch effort st);
          (items, st'') = emit_all serde cfg now cs st'
      in (rendered serde cfg (ctx, branch, effort) st @ items, st''))"

text \<open>A context that names the policies, the system and the shell, as the ones of a session do.\<close>

definition complete_snapshot :: "env_snapshot \<Rightarrow> bool" where
  "complete_snapshot s \<longleftrightarrow> snap_version s = SNAPSHOT_VERSION \<and> snap_approval_policy s \<noteq> None \<and>
     snap_sandbox_mode s \<noteq> None \<and> snap_network_access s \<noteq> None \<and> snap_operating_system s \<noteq> None \<and>
     snap_shell s \<noteq> None"

lemma complete_not_cleared: "complete_snapshot s \<Longrightarrow> complete_snapshot p \<Longrightarrow> no_field_cleared s p"
  by (auto simp: complete_snapshot_def no_field_cleared_def)

text \<open>A session and the replay of the \<open>n\<close> items rendered for it.\<close>

definition replayed :: "env_serde \<Rightarrow> env_snapshot set \<Rightarrow> nat \<Rightarrow> env_state \<Rightarrow> replay_context \<Rightarrow> bool" where
  "replayed serde S n st ctx \<longleftrightarrow>
     rp_last_snapshot ctx = trk_last_snapshot (st_tracker st) \<and>
     st_last_env st = trk_last_snapshot (st_tracker st) \<and>
     (trk_last_snapshot (st_tracker st) = None \<longleftrightarrow> n = 0) \<and>
     (\<forall>s. trk_last_snapshot (st_tracker st) = Some s \<longrightarrow> s \<in> S) \<and>
     tl_baseline (rp_timeline ctx) = tl_baseline (st_timeline st) \<and>
     (tl_baseline (st_timeline st) = None \<longleftrightarrow> n = 0) \<and>
     snapshot_fingerprints (rp_timeline ctx) = snapshot_fingerprints (st_timeline st) \<and>
     rp_legacy_baseline ctx = None \<and>
     timeline_ok serde (rp_timeline ctx) \<and>
     rp_next_sequence ctx = tl_next_sequence (rp_timeline ctx) \<and>
     unat (rp_next_sequence ctx) = max 1 n"

lemma replayed_events [simp]: "replayed serde S n (st\<lparr>st_events := ev\<rparr>) ctx \<longleftrightarrow> replayed serde S n st ctx"
  by (simp add: replayed_def)

lemma commit_fingerprints:
  "snapshot_fingerprints (fst (commit_snapshot serde now s (tml, m))) =
     (let fps = snapshot_fingerprints tml; fp = fingerprint serde s in if fp \<in> set fps then fps else fps @ [fp])"
  by (auto simp: commit_snapshot_def record_snapshot_def snapshot_fingerprints_def Let_def map_of_eq_None_iff)

lemma commit_ok: "timeline_ok serde tml \<Longrightarrow> timeline_ok serde (fst (commit_snapshot serde now s (tml, m)))"
  by (simp add: commit_snapshot_def split_beta timeline_ok_snapshot)

lemma replay_snapshot_first:
  assumes "replayed serde S 0 st ctx" and "s \<in> S" and "trk_last_snapshot t = Some s"
  shows "replayed serde S 1
    (st\<lparr>st_streams := x, st_tracker := t, st_env_seq := y, st_last_env := Some s,
        st_timeline := fst (note_emission serde now (FullEmission n s) (st_timeline st, m')), st_telemetry := z\<rparr>)
    (fst (replay_snapshot serde now' s (ctx, m)))"
  using assms
  by (simp add: replayed_def replay_snapshot_def Let_def split_beta commit_fingerprints commit_ok timeline_ok_baseline)
     (auto simp: snapshot_fingerprints_def)

lemma replay_delta_next:
  assumes sim: "replayed serde S n st ctx" and n: "0 < n" "n + 1 < 2 ^ 64"
    and previous: "trk_last_snapshot (st_tracker st) = Some previous"
    and clear: "apply_delta serde previous (diff_from serde s previous) = s" and "s \<in> S"
    and gap: "k \<noteq> tl_next_sequence (st_timeline st)" and t: "trk_last_snapshot t = Some s"
  shows "replayed serde S (n + 1)
    (st\<lparr>st_streams := x, st_tracker := t, st_env_seq := y, st_last_env := Some s,
        st_timeline := fst (note_emission serde now (DeltaEmission k s d) (st_timeline st, m')), st_telemetry := z\<rparr>)
    (fst (replay_delta serde now' (diff_from serde s previous) (ctx, m)))"
proof -
  let ?d = "diff_from serde s previous"
  have base: "rp_last_snapshot ctx = Some previous" and baseline: "tl_baseline (rp_timeline ctx) \<noteq> None"
    and num: "rp_next_sequence ctx = tl_next_sequence (rp_timeline ctx)" "unat (rp_next_sequence ctx) = n"
    and ok: "timeline_ok serde (rp_timeline ctx)"
    using sim previous n by (auto simp: replayed_def)
  have room: "unat (tl_next_sequence (rp_timeline ctx)) + 1 < 2 ^ 64"
    using num n by simp
  define tml where "tml = snd (timeline_apply_delta now' (rp_next_sequence ctx) ?d (rp_timeline ctx))"
  have tml: "timeline_apply_delta now' (rp_next_sequence ctx) ?d (rp_timeline ctx) = (Inr (), tml)"
    "tl_baseline tml = tl_baseline (rp_timeline ctx)" "tl_next_sequence tml = rp_next_sequence ctx + 1"
    "snapshot_fingerprints tml = snapshot_fingerprints (rp_timeline ctx)"
    using baseline num(1) by (simp_all add: tml_def timeline_apply_delta_def snapshot_fingerprints_def Let_def)
  have "timeline_ok serde tml"
    unfolding tml_def by (rule timeline_ok_delta [OF ok room])
  moreover have "fst (replay_delta serde now' ?d (ctx, m)) =
      ctx\<lparr>rp_timeline := fst (commit_snapshot serde now' s (tml, m)), rp_next_sequence := rp_next_sequence ctx + 1,
          rp_last_snapshot := Some s\<rparr>"
    using base tml(1) clear room num(1)
    by (simp add: replay_delta_def split_beta saturating_succ)
  moreover have "note_emission serde now (DeltaEmission k s d) (st_timeline st, m') =
      commit_snapshot serde now s (st_timeline st, record_delta_gap m')"
    using gap baseline sim by (auto simp: replayed_def timeline_apply_delta_def Let_def)
  ultimately show ?thesis
    using sim n num tml(2-4) t \<open>s \<in> S\<close> unat_succ [OF room]
    by (simp add: replayed_def commit_fingerprints commit_ok max_def)
qed

lemma emit_result:
  assumes "env_ctx_v2 cfg"
    and "observe serde (with_metadata branch effort (from_context ctx)) (st_tracker st) = (Some e, t)"
    and "emission_items serde (Some (fst (env_stream_id (cfg_session_id cfg) (st_streams st)))) e = Some items"
  shows "rendered serde cfg (ctx, branch, effort) st = items"
    and "replayed serde S n
      (st\<lparr>st_streams := snd (env_stream_id (cfg_session_id cfg) (st_streams st)), st_tracker := t,
       st_env_seq := emitted_sequence e, st_last_env := Some (emitted_snapshot e),
       st_timeline := fst (note_emission serde now e (st_timeline st, st_telemetry st)),
       st_telemetry := snd (note_emission serde now e (st_timeline st, st_telemetry st))\<rparr>) rctx \<Longrightarrow>
      replayed serde S n (snd (maybe_emit_env_ctx_messages serde cfg now ctx branch effort st)) rctx"
  using assms
  by (auto simp: rendered_def env_ctx_v2_def maybe_emit_env_ctx_messages_def emit_response_items_def split_beta Let_def)

lemma emit_nothing:
  assumes "env_ctx_v2 cfg"
    and "observe serde (with_metadata branch effort (from_context ctx)) (st_tracker st) = (None, t)"
  shows "rendered serde cfg (ctx, branch, effort) st = []"
    and "snd (maybe_emit_env_ctx_messages serde cfg now ctx branch effort st) =
    st\<lparr>st_streams := snd (env_stream_id (cfg_session_id cfg) (st_streams st)), st_tracker := t\<rparr>"
  using assms by (simp_all add: rendered_def maybe_emit_env_ctx_messages_def emit_response_items_def split_beta Let_def)

definition env_laws :: "env_serde \<Rightarrow> env_snapshot set \<Rightarrow> bool" where
  "env_laws serde S \<longleftrightarrow> fields_serde_ok serde \<and> texts_ok serde \<and>
     (\<forall>s \<in> S. complete_snapshot s) \<and> (\<forall>s \<in> S. \<forall>p \<in> S. plain_delta serde (diff_from serde s p))"

lemma replayed_step:
  assumes laws: "env_laws serde S" and cfg: "env_ctx_v2 cfg"
    and sim: "replayed serde S n st ctx" and room: "n + 1 < 2 ^ 64"
    and ahead: "tracker_ahead k (st_tracker st) (st_timeline st)" "k + 1 < 2 ^ 64"
    and s: "with_metadata branch effort (from_context c) \<in> S"
  shows "replayed serde S (n + length (rendered serde cfg (c, branch, effort) st))
      (snd (maybe_emit_env_ctx_messages serde cfg now c branch effort st))
      (fst (fold (process_rollout_env_item serde now') (rendered serde cfg (c, branch, effort) st) (ctx, m))) \<and>
    length (rendered serde cfg (c, branch, effort) st) \<le> 1"
proof -
  let ?s = "with_metadata branch effort (from_context c)"
  let ?sid = "Some (fst (env_stream_id (cfg_session_id cfg) (st_streams st)))"
  obtain o' t where seen: "observe serde ?s (st_tracker st) = (o', t)"
    by fastforce
  show ?thesis
  proof (cases o')
    case None
    then have "t = st_tracker st"
      using seen by (auto simp: observe_def Let_def split: option.splits if_splits)
    then show ?thesis
      using None seen emit_nothing [OF cfg, of serde branch effort c st] sim
      by (auto simp: replayed_def)
  next
    case (Some e)
    note seen = seen [unfolded Some]
    note after = observe_Some [OF seen]
    from after(3) show ?thesis
    proof (elim disjE exE conjE)
      assume none: "trk_last_snapshot (st_tracker st) = None"
        and e: "e = FullEmission (trk_next_sequence (st_tracker st) + 1) ?s"
      obtain item where item: "snapshot_to_response_item serde ?s ?sid = Some item"
          "parse_env_snapshot_from_response serde item = Some ?s"
        using laws snapshot_item_read unfolding env_laws_def by metis
      have "n = 0"
        using sim none by (simp add: replayed_def)
      then show ?thesis
        using emit_result(1) [OF cfg seen, of "[item]"] item e
          emit_result(2) [OF cfg seen, of "[item]" S 1]
          replay_snapshot_first [OF sim [unfolded \<open>n = 0\<close>] s after(2)]
        by (auto simp: process_rollout_env_item_def simp del: note_emission.simps)
    next
      fix previous
      assume some: "trk_last_snapshot (st_tracker st) = Some previous"
        and e: "e = DeltaEmission (trk_next_sequence (st_tracker st) + 1) ?s (diff_from serde ?s previous)"
      have p: "previous \<in> S" and n: "0 < n"
        using sim some by (auto simp: replayed_def)
      then obtain item where item: "delta_to_response_item serde (diff_from serde ?s previous) ?sid = Some item"
          "parse_env_snapshot_from_response serde item = None"
          "parse_env_delta_from_response serde item = Some (diff_from serde ?s previous)"
        using laws s delta_item_read unfolding env_laws_def by metis
      have clear: "apply_delta serde previous (diff_from serde ?s previous) = ?s"
        using laws s p by (simp add: env_laws_def apply_diff_iff complete_not_cleared)
      have "unat (trk_next_sequence (st_tracker st) + 1) = unat (trk_next_sequence (st_tracker st)) + 1"
        using ahead by (intro unat_succ) (simp add: tracker_ahead_def)
      then have "trk_next_sequence (st_tracker st) + 1 \<noteq> tl_next_sequence (st_timeline st)"
        using ahead(1) some by (auto simp: tracker_ahead_def)
      then show ?thesis
        using emit_result(1) [OF cfg seen, of "[item]"] item e
          emit_result(2) [OF cfg seen, of "[item]" S "n + 1"]
          replay_delta_next [OF sim n room some clear s _ after(2)]
        by (auto simp: process_rollout_env_item_def simp del: note_emission.simps)
    qed
  qed
qed

lemma replayed_all:
  assumes laws: "env_laws serde S" and cfg: "env_ctx_v2 cfg"
    and "replayed serde S n st ctx" and "n + length cs < 2 ^ 64"
    and "tracker_ahead k (st_tracker st) (st_timeline st)" and "k + length cs < 2 ^ 64"
    and "observed_snapshot ` set cs \<subseteq> S"
    and "emit_all serde cfg now cs st = (items, st')"
  shows "replayed serde S (n + length items) st' (fst (fold (process_rollout_env_item serde now') items (ctx, m))) \<and>
    tl_deltas (st_timeline st') = tl_deltas (st_timeline st)"
  using assms(3-)
proof (induction cs arbitrary: n k st ctx m items)
  case (Cons c cs)
  obtain env branch effort where c: "c = (env, branch, effort)"
    by (cases c)
  define st1 where "st1 = snd (maybe_emit_env_ctx_messages serde cfg now env branch effort st)"
  define r where "r = rendered serde cfg (env, branch, effort) st"
  obtain rest where rest: "emit_all serde cfg now cs st1 = (rest, st')" "items = r @ rest"
    using Cons.prems(6) by (auto simp: c st1_def r_def Let_def split: prod.splits)
  obtain ctx1 m1 where replay: "fold (process_rollout_env_item serde now') r (ctx, m) = (ctx1, m1)"
    by fastforce
  have sim: "replayed serde S (n + length r) st1 ctx1 \<and> length r \<le> 1"
    using replayed_step [OF laws cfg Cons.prems(1) _ Cons.prems(3), of branch effort env now now' m] Cons.prems(2,4,5) replay
    by (simp add: c observed_snapshot_def r_def st1_def)
  have "tracker_ahead (k + 1) (st_tracker st1) (st_timeline st1) \<and> tl_deltas (st_timeline st1) = tl_deltas (st_timeline st)"
    using emit_keeps_deltas [OF Cons.prems(3), of serde cfg now env branch effort] Cons.prems(4) st1_def by simp
  then show ?case
    using Cons.IH [of "n + length r" st1 ctx1 "k + 1" rest m1] Cons.prems(2,4,5) sim rest replay
    by (simp add: add.assoc)
qed simp

lemma replayed_new: "replayed serde S 0 (new_env_state m) default_replay"
  by (simp add: replayed_def new_env_state_def default_replay_def new_tracker_def timeline_ok_new)
     (simp add: new_timeline_def)

lemma fold_response_items:
  "fold (replay_rollout_item serde now) (map RolloutResponseItem items) w = fold (process_rollout_env_item serde now) items w"
  by (induction items arbitrary: w) simp_all

lemma finish_without_legacy: "rp_legacy_baseline (fst w) = None \<Longrightarrow> finish_replay serde now w = w"
  by (simp add: finish_replay_def split_beta)

section \<open>An instance of serde\<close>

definition enum_serde :: "'a list \<Rightarrow> ('a \<Rightarrow> rstr) \<Rightarrow> 'a serde" where
  "enum_serde xs name = \<lparr>to_value = \<lambda>x. Some (JString (name x)),
     from_value = \<lambda>j. (case j of JString t \<Rightarrow> find (\<lambda>x. name x = t) xs | _ \<Rightarrow> None)\<rparr>"

fun reject_bits :: "reject_config \<Rightarrow> bool list" where
  "reject_bits c = [rej_sandbox_approval c, rej_rules c, rej_skill_approval c, rej_request_permissions c,
     rej_mcp_elicitations c]"

definition reject_of_bits :: "bool list \<Rightarrow> reject_config" where
  "reject_of_bits bs = \<lparr>rej_sandbox_approval = bs ! 0, rej_rules = bs ! 1, rej_skill_approval = bs ! 2,
     rej_request_permissions = bs ! 3, rej_mcp_elicitations = bs ! 4\<rparr>"

definition approval_sample :: "ask_for_approval serde" where
  "approval_sample =
     \<lparr>to_value = \<lambda>a. Some (case a of RejectPrompts c \<Rightarrow> JArray (map JBool (reject_bits c)) | _ \<Rightarrow> JString (show_approval a)),
      from_value = \<lambda>j. (case j of
          JArray vs \<Rightarrow> Some (RejectPrompts (reject_of_bits (map (\<lambda>v. v = JBool True) vs)))
        | JString t \<Rightarrow> find (\<lambda>a. show_approval a = t) [UnlessTrusted, OnFailure, OnRequest, Never]
        | _ \<Rightarrow> None)\<rparr>"

definition os_sample :: "operating_system_info serde" where
  "os_sample =
     \<lparr>to_value = \<lambda>i. Some (JArray (map option_string_to_json [os_family i, os_version i, os_architecture i])),
      from_value = \<lambda>j. (case j of
          JArray vs \<Rightarrow> Some \<lparr>os_family = as_str (vs ! 0), os_version = as_str (vs ! 1), os_architecture = as_str (vs ! 2)\<rparr>
        | _ \<Rightarrow> None)\<rparr>"

fun shell_json :: "shell \<Rightarrow> json_value" where
  "shell_json (Zsh a b) = JArray [JString a, JString b]"
| "shell_json (Bash a b) = JArray [JString a, JString b, JNull]"
| "shell_json (PowerShellConfig a b) = JArray [JString a, option_string_to_json b, JNull, JNull]"
| "shell_json UnknownShell = JArray []"

definition shell_sample :: "shell serde" where
  "shell_sample =
     \<lparr>to_value = \<lambda>s. Some (shell_json s),
      from_value = \<lambda>j. (case j of
          JArray vs \<Rightarrow>
            Some (if length vs = 2 then Zsh (the (as_str (vs ! 0))) (the (as_str (vs ! 1)))
                  else if length vs = 3 then Bash (the (as_str (vs ! 0))) (the (as_str (vs ! 1)))
                  else if length vs = 4 then PowerShellConfig (the (as_str (vs ! 0))) (as_str (vs ! 1))
                  else UnknownShell)
        | _ \<Rightarrow> None)\<rparr>"

lemma serde_okI:
  assumes "\<And>x. to_value t x = Some (f x)" and "\<And>x. from_value t (f x) = Some x" and "from_value t JNull = None"
  shows "serde_ok t"
  using assms by (simp add: serde_ok_def)

lemma approval_sample_ok: "serde_ok approval_sample"
proof (rule serde_okI [where f = "\<lambda>a. the (to_value approval_sample a)"])
  show "from_value approval_sample (the (to_value approval_sample a)) = Some a" for a
    by (cases a) (simp_all add: approval_sample_def lit_def reject_of_bits_def)
qed (simp_all add: approval_sample_def)

lemma mode_sample_ok: "serde_ok (enum_serde [ReadOnlyMode, WorkspaceWriteMode, DangerFullAccessMode] show_mode)"
proof (rule serde_okI [where f = "\<lambda>x. JString (show_mode x)"])
  show "from_value (enum_serde [ReadOnlyMode, WorkspaceWriteMode, DangerFullAccessMode] show_mode) (JString (show_mode x)) =
      Some x" for x
    by (cases x) (simp_all add: enum_serde_def lit_def)
qed (simp_all add: enum_serde_def)

lemma access_sample_ok: "serde_ok (enum_serde [Restricted, Enabled] show_access)"
proof (rule serde_okI [where f = "\<lambda>x. JString (show_access x)"])
  show "from_value (enum_serde [Restricted, Enabled] show_access) (JString (show_access x)) = Some x" for x
    by (cases x) (simp_all add: enum_serde_def lit_def)
qed (simp_all add: enum_serde_def)

lemma os_sample_ok: "serde_ok os_sample"
  by (simp add: serde_ok_def os_sample_def)

lemma shell_sample_ok: "serde_ok shell_sample"
proof (rule serde_okI [where f = shell_json])
  show "from_value shell_sample (shell_json x) = Some x" for x
    by (cases x) (simp_all add: shell_sample_def)
qed (simp_all add: shell_sample_def)

text \<open>The texts of the instance: braces around the number of the JSON value.\<close>

definition fields_sample :: env_serde where
  "fields_sample =
     \<lparr>approval_serde = approval_sample,
      mode_serde = enum_serde [ReadOnlyMode, WorkspaceWriteMode, DangerFullAccessMode] show_mode,
      access_serde = enum_serde [Restricted, Enabled] show_access,
      os_serde = os_sample, shell_serde = shell_sample,
      map_digest = \<lambda>m. concat (map (\<lambda>(k, v). k @ v) m),
      snapshot_to_text = \<lambda>_. None, snapshot_of_text = \<lambda>_. None, delta_to_text = \<lambda>_. None, delta_of_text = \<lambda>_. None\<rparr>"

definition snapshot_json :: "env_snapshot \<Rightarrow> json_value" where
  "snapshot_json s = JArray
     [JNumber [unat (snap_version s)], option_string_to_json (snap_cwd s),
      option_to_value (approval_serde fields_sample) (snap_approval_policy s),
      option_to_value (mode_serde fields_sample) (snap_sandbox_mode s),
      option_to_value (access_serde fields_sample) (snap_network_access s),
      JArray (map JString (snap_writable_roots s)),
      option_to_value (os_serde fields_sample) (snap_operating_system s),
      JArray (map JString (snap_common_tools s)),
      option_to_value (shell_serde fields_sample) (snap_shell s),
      option_string_to_json (snap_git_branch s), option_string_to_json (snap_reasoning_effort s)]"

definition snapshot_of_json :: "json_value \<Rightarrow> env_snapshot option" where
  "snapshot_of_json j =
     (case j of
        JArray vs \<Rightarrow> Some
          \<lparr>snap_version = (case vs ! 0 of JNumber ns \<Rightarrow> word_of_nat (hd ns) | _ \<Rightarrow> 0), snap_cwd = as_str (vs ! 1),
           snap_approval_policy = from_value (approval_serde fields_sample) (vs ! 2),
           snap_sandbox_mode = from_value (mode_serde fields_sample) (vs ! 3),
           snap_network_access = from_value (access_serde fields_sample) (vs ! 4),
           snap_writable_roots = the (strings_of_value (vs ! 5)),
           snap_operating_system = from_value (os_serde fields_sample) (vs ! 6),
           snap_common_tools = the (strings_of_value (vs ! 7)),
           snap_shell = from_value (shell_serde fields_sample) (vs ! 8),
           snap_git_branch = as_str (vs ! 9), snap_reasoning_effort = as_str (vs ! 10)\<rparr>
      | _ \<Rightarrow> None)"

definition delta_parts :: "env_delta \<Rightarrow> nat \<times> rstr \<times> (rstr \<times> json_value) list" where
  "delta_parts d = (unat (delta_version d), base_fingerprint d, delta_changes d)"

fun delta_of_parts :: "nat \<times> rstr \<times> (rstr \<times> json_value) list \<Rightarrow> env_delta" where
  "delta_of_parts (v, fp, m) = \<lparr>delta_version = word_of_nat v, base_fingerprint = fp, delta_changes = m\<rparr>"

definition sample_serde :: env_serde where
  "sample_serde = fields_sample
     \<lparr>snapshot_to_text := \<lambda>s. Some [123, to_nat (snapshot_json s), 125],
      snapshot_of_text := \<lambda>t. snapshot_of_json (from_nat (t ! 1)),
      delta_to_text := \<lambda>d. Some [123, to_nat (delta_parts d), 125],
      delta_of_text := \<lambda>t. Some (delta_of_parts (from_nat (t ! 1)))\<rparr>"

lemma fields_sample_ok: "fields_serde_ok sample_serde" "fields_serde_ok fields_sample"
  by (simp_all add: fields_serde_ok_def sample_serde_def fields_sample_def approval_sample_ok mode_sample_ok
      access_sample_ok os_sample_ok shell_sample_ok)

lemma from_option_to_value: "serde_ok t \<Longrightarrow> from_value t (option_to_value t v) = v"
  using if_ok_option_to_value [of t v None] by (auto simp: if_ok_def split: option.splits if_splits)

lemma snapshot_json_inverse: "snapshot_of_json (snapshot_json s) = Some s"
  using fields_sample_ok(2) unfolding fields_serde_ok_def
  by (simp add: snapshot_of_json_def snapshot_json_def from_option_to_value snapshot_eq_iff)

lemma trim_braces: "trim [123, n, 125] = [123, n, 125]"
  by (rule trim_id) (simp add: is_whitespace_def)

lemma sample_texts_ok: "texts_ok sample_serde"
  by (simp add: texts_ok_def sample_serde_def trim_braces snapshot_json_inverse delta_parts_def)

lemma sample_plain: "plain_delta sample_serde d"
proof -
  have "\<not> str_contains [123, n, 125] ENVIRONMENT_CONTEXT_OPEN_TAG" for n
    unfolding str_contains_iff
    by (auto dest!: sublist_length_le simp: ENVIRONMENT_CONTEXT_OPEN_TAG_def lit_def)
  then show ?thesis
    by (simp add: plain_delta_def sample_serde_def)
qed

definition sample_host :: env_host where
  "sample_host = \<lparr>host_os_type = Some (lit ''Linux''), host_os_version = None, host_arch = lit ''x86_64'',
     on_path = \<lambda>_. False, local_date = lit ''2025-01-02''\<rparr>"

definition sample_context :: "rstr \<Rightarrow> environment_context" where
  "sample_context cwd =
     new_environment_context sample_host (Some cwd) (Some OnRequest) (Some ReadOnly) (Some UnknownShell)"

definition sample_config :: env_config where
  "sample_config = \<lparr>ctx_ui = True, cfg_session_id = lit ''7'', cfg_max_env_deltas = 3,
     snapshot_value = \<lambda>_. None, delta_value = \<lambda>_. None\<rparr>"

definition no_telemetry :: env_telemetry where
  "no_telemetry = \<lparr>total_dedup_drops = 0, total_snapshot_attempts = 0, total_snapshot_dedup_hits = 0,
     total_baseline_resends = 0, total_delta_gaps = 0\<rparr>"

lemma sample_complete: "complete_snapshot (observed_snapshot (sample_context cwd, branch, effort))"
  by (simp add: complete_snapshot_def observed_snapshot_def with_metadata_def from_context_def sample_context_def
      new_environment_context_def detect_operating_system_info_def sample_host_def lit_def)

lemma sample_laws: "env_laws sample_serde (observed_snapshot ` {(sample_context a, None, None), (sample_context b, None, None)})"
  by (simp add: env_laws_def fields_sample_ok sample_texts_ok sample_plain sample_complete)

text \<open>In the instance, a change of the directory is a second emission.\<close>

lemma sample_fingerprint:
  "fingerprint sample_serde (with_metadata None None (from_context (sample_context cwd))) =
     lit ''approval_policyon-requestcwd'' @ cwd @ lit ''network_accessrestrictedsandbox_moderead-only''"
  by (simp add: fingerprint_def fingerprint_fields_def sample_serde_def fields_sample_def with_metadata_def
      from_context_def sample_context_def new_environment_context_def insert_some_def lit_def)

lemma emit_tracker:
  "st_tracker (snd (maybe_emit_env_ctx_messages serde cfg now ctx branch effort st)) =
     (if env_ctx_v2 cfg then snd (observe serde (with_metadata branch effort (from_context ctx)) (st_tracker st))
      else st_tracker st)"
  by (cases "observe serde (with_metadata branch effort (from_context ctx)) (st_tracker st)")
     (auto simp: maybe_emit_env_ctx_messages_def emit_response_items_def split_beta Let_def split: option.splits)

lemma sample_emission_sequence:
  "trk_next_sequence (st_tracker (snd (maybe_emit_env_ctx_messages sample_serde sample_config []
     (sample_context (lit ''/b'')) None None
     (snd (maybe_emit_env_ctx_messages sample_serde sample_config [] (sample_context (lit ''/a'')) None None
       (new_env_state no_telemetry)))))) = 2"
proof -
  have fp: "fingerprint sample_serde (with_metadata None None (from_context (sample_context (lit ''/b'')))) \<noteq>
      fingerprint sample_serde (with_metadata None None (from_context (sample_context (lit ''/a''))))"
    unfolding sample_fingerprint by (simp add: lit_def)
  show ?thesis
    using fp by (simp add: emit_tracker sample_config_def env_ctx_v2_def observe_def new_env_state_def new_tracker_def Let_def)
qed

section \<open>Further facts\<close>

text \<open>
  A restored tracker does not number its next emission with the number it was given, but with the
  one after it.
\<close>

lemma restored_tracker_skips:
  assumes "fingerprint serde s \<noteq> fingerprint serde previous" and "1 \<le> n"
  shows "fst (observe serde s (restore previous n t)) = Some (DeltaEmission (n + 1) s (diff_from serde s previous))"
  using assms by (simp add: observe_def restore_def max_def Let_def)

text \<open>
  The fingerprint does not tell the rejection settings apart, so a change of them is never emitted.
\<close>

lemma rejection_settings_not_emitted:
  assumes "trk_last_snapshot t = Some (s\<lparr>snap_approval_policy := Some (RejectPrompts a)\<rparr>)"
  shows "observe serde (s\<lparr>snap_approval_policy := Some (RejectPrompts b)\<rparr>) t = (None, t)"
  using assms by (simp add: observe_def fingerprint_def fingerprint_fields_def Let_def)

text \<open>
  The prompts of a session that only emits keep the first context: its timeline has no delta.
\<close>

lemma prompt_without_deltas:
  assumes "tl_deltas (st_timeline st) = []" and "tl_baseline (st_timeline st) = Some s" and "env_ctx_v2 cfg"
  shows "fst (assemble_from_timeline serde cfg st) =
    map_option (\<lambda>item. [item])
      (snapshot_to_response_item serde s (Some (fst (env_stream_id (cfg_session_id cfg) (st_streams st)))))"
  using assms
  by (auto simp: assemble_from_timeline_def assemble_prompt_items_def timeline_is_empty_def split_beta Let_def
      split: option.splits)

section \<open>Claims\<close>

text \<open>
  (C21) Applying the difference of two snapshots to the older one gives the newer one exactly when the
  newer one keeps the version and clears none of the approval policy, sandbox mode, network access,
  operating system and shell: a \<open>null\<close> for one of these is not read back, so the receiver keeps
  the old value.
\<close>

theorem delta_restores_snapshot:
  assumes "fields_serde_ok serde"
  shows "apply_delta serde previous (diff_from serde s previous) = s \<longleftrightarrow> no_field_cleared s previous"
  using assms by (rule apply_diff_iff)

theorem delta_restores_snapshot_witness:
  "let p = from_context (sample_context (lit ''/a'')); s = from_context (sample_context (lit ''/b''));
       c = s\<lparr>snap_approval_policy := None\<rparr>
   in apply_delta sample_serde p (diff_from sample_serde s p) = s \<and>
      apply_delta sample_serde p (diff_from sample_serde c p) \<noteq> c"
  unfolding Let_def delta_restores_snapshot [OF fields_sample_ok(1)]
  by (simp add: no_field_cleared_def from_context_def sample_context_def new_environment_context_def)

text \<open>
  (C39) Whatever calls a timeline gets, fewer than the sequence numbers a \<open>u64\<close> has: its deltas carry
  the numbers from one up to the next one, in order and without gaps, there are none without a
  baseline, and every snapshot is filed once under its own fingerprint.
\<close>

theorem timeline_invariant:
  assumes "length calls + 1 < 2 ^ 64"
  shows "timeline_ok serde (fold (timeline_run serde) calls new_timeline)"
  using assms by (intro timeline_ok_run timeline_ok_new) (simp add: new_timeline_def)

theorem timeline_invariant_witness:
  "let s = from_context (sample_context (lit ''/a''));
       d = \<lparr>delta_version = 1, base_fingerprint = [], delta_changes = []\<rparr>;
       tml = fold (timeline_run sample_serde)
               [ApplyDelta [] 1 d, AddBaselineOnce s, ApplyDelta [] 2 d, ApplyDelta [] 1 d, ApplyDelta [] 2 d] new_timeline
   in timeline_ok sample_serde tml \<and> delta_sequences tml = [1, 2]"
  unfolding Let_def
  by (rule conjI, rule timeline_invariant)
     (simp_all add: timeline_apply_delta_def add_baseline_once_def new_timeline_def delta_sequences_def)

text \<open>
  (C20) In a session that starts with an empty timeline, whatever contexts it emits, prompts it builds
  and rollouts it replays before, fewer than the sequence numbers a \<open>u64\<close> has: emitting a further
  context never stores a delta in the timeline, although the timeline is what the later prompts are
  built from. The tracker numbers the baseline too, so the number of a delta is never the one the
  timeline expects.
\<close>

theorem live_deltas_never_stored:
  assumes "sum_list (map call_weight calls) + 1 < 2 ^ 64"
    and "st = fold (session_run serde cfg) calls (new_env_state m)"
  shows "tl_deltas (st_timeline (snd (maybe_emit_env_ctx_messages serde cfg now ctx branch effort st))) =
         tl_deltas (st_timeline st)"
  using assms by (rule live_deltas_lost)

theorem live_deltas_never_stored_witness:
  "let st = fold (session_run sample_serde sample_config)
              [EmitContext [] (sample_context (lit ''/a'')) None None] (new_env_state no_telemetry);
       st' = snd (maybe_emit_env_ctx_messages sample_serde sample_config [] (sample_context (lit ''/b'')) None None st)
   in tl_deltas (st_timeline st') = tl_deltas (st_timeline st) \<and> trk_next_sequence (st_tracker st') = 2"
  unfolding Let_def
  by (rule conjI, rule live_deltas_never_stored [OF _ refl], simp)
     (simp add: sample_emission_sequence)

text \<open>
  Replaying the items rendered for the contexts of a session, contexts that all name their policies,
  system and shell, restores the snapshot the session observed last, its baseline and its set of
  fingerprints, and a timeline with all the deltas, numbered from one; the session itself had none
  of them in its timeline.
\<close>

lemma rendered_items_replay:
  assumes "env_laws serde (observed_snapshot ` set cs)" and "ctx_ui cfg"
    and "length cs < 2 ^ 64" and "emit_all serde cfg now cs (new_env_state m) = (items, st)"
    and "r = reconstruct_env_state serde now' (map RolloutResponseItem items) st\<^sub>0"
  shows "trk_last_snapshot (st_tracker r) = trk_last_snapshot (st_tracker st) \<and>
    st_last_env r = st_last_env st \<and>
    tl_baseline (st_timeline r) = tl_baseline (st_timeline st) \<and>
    snapshot_fingerprints (st_timeline r) = snapshot_fingerprints (st_timeline st) \<and>
    delta_sequences (st_timeline r) = map word_of_nat [1..<length items] \<and>
    delta_sequences (st_timeline st) = []"
proof -
  let ?ctx = "fst (fold (process_rollout_env_item serde now') items (default_replay, st_telemetry st\<^sub>0))"
  have "env_ctx_v2 cfg"
    using assms(2) by (simp add: env_ctx_v2_def)
  have "tracker_ahead 0 (st_tracker (new_env_state m)) (st_timeline (new_env_state m))"
    by (simp add: tracker_ahead_def new_env_state_def new_tracker_def new_timeline_def)
  from replayed_all [OF assms(1) \<open>env_ctx_v2 cfg\<close> replayed_new _ this _ subset_refl assms(4), of now' "st_telemetry st\<^sub>0"]
  have sim: "replayed serde (observed_snapshot ` set cs) (length items) st ?ctx"
    and live: "tl_deltas (st_timeline st) = []"
    using assms(3) by (simp_all add: new_env_state_def new_timeline_def)
  have "delta_sequences (rp_timeline ?ctx) = map word_of_nat [1..<length items]"
    using sim by (cases "length items") (auto simp: replayed_def timeline_ok_def)
  then show ?thesis
    using sim live assms(5)
    by (auto simp: reconstruct_env_state_def fold_response_items finish_without_legacy replayed_def split_beta Let_def
        restore_def new_tracker_def delta_sequences_def split: option.splits)
qed

text \<open>
  But a session never hands such an item out: the flag that turns the timeline on also clears the items of
  every emission, so that rollouts hold none of them. What is left is the legacy item, when the
  snapshot cannot be rendered.
\<close>

lemma context_items_never_sent:
  "fst (maybe_emit_env_ctx_messages serde cfg now ctx branch effort st) \<in> {None, Some [], Some [legacy_context_item ctx]}"
  by (auto simp: maybe_emit_env_ctx_messages_def env_ctx_v2_def split_beta Let_def split: json_result.split option.split)

end
