(* ===== verification/Retry.thy ===== *)
theory Retry
  imports Account_Switching Env_Context
begin

text \<open>
  Retrying the requests of the Auto Drive coordinator, \<open>code-rs/code-auto-drive-core/src/retry.rs\<close>,
  and the classification of the errors that decides on a retry
  (\<open>code-rs/code-auto-drive-core/src/auto_coordinator.rs\<close>).

  Instants and durations are numbers of nanoseconds. Time passes while a request runs and while the
  loop sleeps; reading the clock and classifying an error take none. What a request returns, how long
  it takes, when the run is cancelled and what the random generator draws are the fields of a
  \<open>retry_world\<close>. Delays are computed on rationals: the rounding of \<open>f64\<close> is not modelled.
\<close>

section \<open>Options, decisions and statuses\<close>

definition secs :: "nat \<Rightarrow> nat" where "secs n = n * 1000000000"

record retry_options =
  base_delay :: nat
  delay_factor :: rat
  max_delay :: nat
  max_elapsed :: nat

definition with_defaults :: "nat \<Rightarrow> retry_options" where
  "with_defaults elapsed = \<lparr>base_delay = secs 1, delay_factor = 2, max_delay = secs (15 * 60), max_elapsed = elapsed\<rparr>"

datatype 'e retry_decision = RetryAfterBackoff rstr | RateLimited nat rstr | FatalDecision 'e

record retry_status =
  status_attempt :: u32
  status_elapsed :: nat
  status_sleep :: "nat option"
  status_resume_at :: "nat option"
  status_reason :: rstr
  is_rate_limit :: bool

text \<open>A timeout keeps the last error and the context that is added to it, if any.\<close>

datatype 'e retry_error = Aborted | RetryTimeout nat 'e "rstr option" | FatalError 'e

record ('e, 'v) retry_world =
  run_takes :: "nat \<Rightarrow> nat"
  run_output :: "nat \<Rightarrow> 'e + 'v"
  classify :: "nat \<Rightarrow> nat \<Rightarrow> 'e \<Rightarrow> 'e retry_decision"
  cancelled_at :: "nat option"
  draw_below :: "nat \<Rightarrow> rat \<Rightarrow> nat"
  show_duration :: "nat \<Rightarrow> rstr"

definition as_secs :: "nat \<Rightarrow> rat" where "as_secs d = of_nat d / 1000000000"

definition compute_delay :: "('e, 'v) retry_world \<Rightarrow> retry_options \<Rightarrow> nat \<Rightarrow> u32 \<Rightarrow> nat" where
  "compute_delay w opts i attempt =
     (let exponent = sint (saturating_sub attempt 1);
          base = as_secs (base_delay opts) * (delay_factor opts powi exponent);
          capped = min base (as_secs (max_delay opts))
      in if capped \<le> EPSILON then 0 else draw_below w i capped)"

definition is_cancelled :: "('e, 'v) retry_world \<Rightarrow> nat \<Rightarrow> bool" where
  "is_cancelled w now \<longleftrightarrow> (case cancelled_at w of None \<Rightarrow> False | Some c \<Rightarrow> c \<le> now)"

text \<open>
  Sleeping ends at its time or, before that, with the cancellation. When both fall on the same
  instant either may win; the loop then finds the cancellation in its next round.
\<close>

definition wait_with_cancel :: "('e, 'v) retry_world \<Rightarrow> nat \<Rightarrow> nat \<Rightarrow> bool \<times> nat" where
  "wait_with_cancel w now d =
     (if d = 0 then (True, now)
      else (case cancelled_at w of
              Some c \<Rightarrow> if c < now + d then (False, max c now) else (True, now + d)
            | None \<Rightarrow> (True, now + d)))"

section \<open>The loop\<close>

datatype ('e, 'v) round_result =
    Finished "'e retry_error + 'v" nat "retry_status list"
  | RetryFrom nat "retry_status list"

definition budget_exceeded :: "('e, 'v) retry_world \<Rightarrow> string \<Rightarrow> nat \<Rightarrow> nat \<Rightarrow> rstr" where
  "budget_exceeded w what sleep remaining =
     lit what @ show_duration w sleep @ lit '' exceeds remaining retry budget '' @ show_duration w remaining"

text \<open>One round: \<open>i\<close> counts the requests, \<open>attempt\<close> is the counter of the loop, \<open>now\<close> the time.\<close>

definition retry_round ::
    "('e, 'v) retry_world \<Rightarrow> retry_options \<Rightarrow> nat \<Rightarrow> nat \<Rightarrow> u32 \<Rightarrow> nat \<Rightarrow> retry_status list \<Rightarrow> ('e, 'v) round_result" where
  "retry_round w opts start i attempt now sts =
     (let now = now + run_takes w i
      in case run_output w i of
           Inr v \<Rightarrow> Finished (Inr v) now sts
         | Inl e \<Rightarrow>
             (let elapsed = now - start
              in if max_elapsed opts \<le> elapsed then Finished (Inl (RetryTimeout elapsed e None)) now sts
                 else
                   (let remaining = max_elapsed opts - elapsed;
                        status = \<lparr>status_attempt = attempt, status_elapsed = elapsed, status_sleep = None,
                          status_resume_at = None, status_reason = [], is_rate_limit = False\<rparr>
                    in case classify w i now e of
                         FatalDecision fatal \<Rightarrow> Finished (Inl (FatalError fatal)) now sts
                       | RateLimited wait_until reason \<Rightarrow>
                           if wait_until \<le> now then RetryFrom now sts
                           else
                             (let sleep = wait_until - now
                              in if remaining < sleep
                                 then (let r = budget_exceeded w ''rate-limit wait '' sleep remaining
                                       in Finished (Inl (RetryTimeout elapsed e (Some r))) now
                                            (sts @ [status\<lparr>status_reason := r, is_rate_limit := True\<rparr>]))
                                 else
                                   (let sts = sts @ [status\<lparr>status_sleep := Some sleep,
                                          status_resume_at := Some wait_until, status_reason := reason,
                                          is_rate_limit := True\<rparr>]
                                    in case wait_with_cancel w now sleep of
                                         (False, now) \<Rightarrow> Finished (Inl Aborted) now sts
                                       | (True, now) \<Rightarrow>
                                           RetryFrom now (sts @ [status\<lparr>status_elapsed := now - start,
                                             status_reason := lit ''rate limit window cleared'',
                                             is_rate_limit := True\<rparr>])))
                       | RetryAfterBackoff reason \<Rightarrow>
                           (let sleep = compute_delay w opts i attempt
                            in if remaining < sleep
                               then (let r = budget_exceeded w ''retry delay '' sleep remaining
                                     in Finished (Inl (RetryTimeout elapsed e (Some r))) now
                                          (sts @ [status\<lparr>status_reason := r\<rparr>]))
                               else
                                 (let sts = sts @ [status\<lparr>status_sleep := Some sleep,
                                        status_resume_at := Some (now + sleep), status_reason := reason\<rparr>]
                                  in case wait_with_cancel w now sleep of
                                       (False, now) \<Rightarrow> Finished (Inl Aborted) now sts
                                     | (True, now) \<Rightarrow> RetryFrom now sts)))))"

text \<open>
  What the loop returns: the result, the time, the number of requests made and the statuses reported.
  \<open>None\<close> stands for a loop that does not end.
\<close>

type_synonym ('e, 'v) retry_out = "('e retry_error + 'v) \<times> nat \<times> nat \<times> retry_status list"

partial_function (option) retry_loop ::
    "('e, 'v) retry_world \<Rightarrow> retry_options \<Rightarrow> nat \<Rightarrow> nat \<Rightarrow> u32 \<Rightarrow> nat \<Rightarrow> retry_status list \<Rightarrow> ('e, 'v) retry_out option" where
  "retry_loop w opts start i attempt now sts =
     (if is_cancelled w now then Some (Inl Aborted, now, i, sts)
      else
        (let attempt = saturating_add attempt 1
         in case retry_round w opts start i attempt now sts of
              Finished r now sts \<Rightarrow> Some (r, now, i + 1, sts)
            | RetryFrom now sts \<Rightarrow> retry_loop w opts start (i + 1) attempt now sts))"

definition retry_with_backoff :: "('e, 'v) retry_world \<Rightarrow> retry_options \<Rightarrow> nat \<Rightarrow> ('e, 'v) retry_out option" where
  "retry_with_backoff w opts start = retry_loop w opts start 0 0 start []"

section \<open>The budget of a run and the hints of a provider\<close>

definition RATE_LIMIT_BUFFER :: nat where "RATE_LIMIT_BUFFER = secs 5"
definition MAX_RETRY_ELAPSED :: nat where "MAX_RETRY_ELAPSED = secs (7 * 24 * 60 * 60)"

definition retry_max_elapsed :: "nat \<Rightarrow> nat option \<Rightarrow> nat" where
  "retry_max_elapsed now deadline =
     (case deadline of
        None \<Rightarrow> MAX_RETRY_ELAPSED
      | Some d \<Rightarrow> min (d - now - RATE_LIMIT_BUFFER) MAX_RETRY_ELAPSED)"

text \<open>
  What other crates and the host do for the hints: the JSON reader, the reader of floating point
  numbers (with the sign, which minus zero and not-a-number have too), the reader of dates, the wall
  clock, and the jitter drawn, in nanoseconds.
\<close>

record hint_env =
  parse_json :: "rstr \<Rightarrow> json_value option"
  parse_f64 :: "rstr \<Rightarrow> (bool \<times> f64) option"
  parse_date :: "rstr \<Rightarrow> int option"
  wall_clock :: int
  drawn_jitter :: nat

definition compute_rate_limit_wait :: "hint_env \<Rightarrow> nat \<Rightarrow> nat \<Rightarrow> nat" where
  "compute_rate_limit_wait env now base = now + (base + RATE_LIMIT_BUFFER + drawn_jitter env)"

datatype 'a ran = Panic | Ran 'a

text \<open>\<open>Duration::from_secs_f64\<close> panics on a negative, too large or undefined number.\<close>

definition from_secs_f64 :: "f64 \<Rightarrow> nat ran" where
  "from_secs_f64 x =
     (case x of
        Finite r \<Rightarrow> if 0 \<le> r \<and> r < 2 ^ 64 then Ran (nat (round (r * 1000000000))) else Panic
      | _ \<Rightarrow> Panic)"

fun json_get :: "json_value \<Rightarrow> rstr \<Rightarrow> json_value option" where
  "json_get (JObject m) key = map_of m key"
| "json_get _ _ = None"

fun hint_number :: "hint_env \<Rightarrow> json_value \<Rightarrow> (bool \<times> f64) option" where
  "hint_number env (JNumber t) = parse_f64 env t"
| "hint_number env (JString t) = parse_f64 env t"
| "hint_number env _ = None"

fun first_seconds :: "hint_env \<Rightarrow> json_value \<Rightarrow> rstr list \<Rightarrow> nat option ran" where
  "first_seconds env v [] = Ran None"
| "first_seconds env v (key # keys) =
     (case Option.bind (json_get v key) (hint_number env) of
        Some (negative, x) \<Rightarrow>
          if negative then first_seconds env v keys
          else (case from_secs_f64 x of Panic \<Rightarrow> Panic | Ran d \<Rightarrow> Ran (Some d))
      | None \<Rightarrow> first_seconds env v keys)"

definition extract_seconds :: "hint_env \<Rightarrow> json_value \<Rightarrow> nat option ran" where
  "extract_seconds env v =
     first_seconds env v [lit ''reset_seconds'', lit ''reset_in_seconds'', lit ''resets_in_seconds'',
       lit ''x-ratelimit-reset'', lit ''x-ratelimit-reset-requests'']"

definition extract_reset_at :: "hint_env \<Rightarrow> nat \<Rightarrow> json_value \<Rightarrow> nat option" where
  "extract_reset_at env now v =
     (case Option.bind (Option.bind (json_get v (lit ''reset_at'')) as_str) (parse_date env) of
        None \<Rightarrow> None
      | Some t \<Rightarrow> Some (compute_rate_limit_wait env now (nat (t - wall_clock env))))"

definition parse_rate_limit_hint :: "hint_env \<Rightarrow> nat \<Rightarrow> rstr \<Rightarrow> nat option ran" where
  "parse_rate_limit_hint env now body =
     (case parse_json env body of
        None \<Rightarrow> Ran None
      | Some v \<Rightarrow>
          (let error_obj = (case json_get v (lit ''error'') of Some e \<Rightarrow> e | None \<Rightarrow> v)
           in case extract_seconds env error_obj of
                Panic \<Rightarrow> Panic
              | Ran (Some d) \<Rightarrow> Ran (Some (compute_rate_limit_wait env now d))
              | Ran None \<Rightarrow> Ran (extract_reset_at env now error_obj)))"

section \<open>Classifying errors\<close>

record reqwest_error =
  rq_is_timeout :: bool
  rq_is_connect :: bool
  rq_is_request :: bool
  rq_status :: "nat option"
  rq_text :: rstr

text \<open>The variants of \<open>CodexErr\<close> that the classification tells apart.\<close>

datatype codex_err =
    StreamErr rstr | TimeoutErr | UnexpectedStatus nat rstr | UsageLimitReached "u64 option" | UsageNotIncluded
  | AuthRefreshPermanent | QuotaExceeded | ServerErr | RetryLimit nat bool | ReqwestErr reqwest_error | IoErr bool
  | OtherCodexErr

text \<open>An error by its text and by what its chain of causes holds of each type.\<close>

record model_error =
  error_text :: rstr
  chain_codex :: "codex_err option"
  chain_reqwest :: "reqwest_error option"
  chain_io_timed_out :: "bool option"

definition is_client_error :: "nat \<Rightarrow> bool" where "is_client_error status \<longleftrightarrow> 400 \<le> status \<and> status < 500"
definition is_server_error :: "nat \<Rightarrow> bool" where "is_server_error status \<longleftrightarrow> 500 \<le> status \<and> status < 600"

definition classify_reqwest_error :: "(nat \<Rightarrow> rstr) \<Rightarrow> reqwest_error \<Rightarrow> rstr retry_decision" where
  "classify_reqwest_error show_status err =
     (if rq_is_timeout err \<or> rq_is_connect err \<or> rq_is_request err \<and> rq_status err = None
      then RetryAfterBackoff (lit ''network error: '' @ rq_text err)
      else case rq_status err of
             None \<Rightarrow> FatalDecision (rq_text err)
           | Some status \<Rightarrow>
               if status = 429 then RetryAfterBackoff (lit ''rate limited (429)'')
               else if status = 408 then RetryAfterBackoff (lit ''provider returned '' @ show_status status)
               else if status = 499 then RetryAfterBackoff (lit ''client closed request (499)'')
               else if is_server_error status then RetryAfterBackoff (lit ''server error '' @ show_status status)
               else if is_client_error status then FatalDecision (rq_text err)
               else FatalDecision (rq_text err))"

definition classify_causes :: "(nat \<Rightarrow> rstr) \<Rightarrow> model_error \<Rightarrow> rstr retry_decision" where
  "classify_causes show_status err =
     (case chain_reqwest err of
        Some r \<Rightarrow> classify_reqwest_error show_status r
      | None \<Rightarrow> if chain_io_timed_out err = Some True then RetryAfterBackoff (lit ''network timeout'')
                else FatalDecision (error_text err))"

definition classify_model_error ::
    "hint_env \<Rightarrow> (nat \<Rightarrow> rstr) \<Rightarrow> nat \<Rightarrow> model_error \<Rightarrow> rstr retry_decision ran" where
  "classify_model_error env show_status now err =
     (case chain_codex err of
        None \<Rightarrow> Ran (classify_causes show_status err)
      | Some code_err \<Rightarrow>
          (case code_err of
             StreamErr message \<Rightarrow> Ran (RetryAfterBackoff (lit ''model stream error: '' @ message))
           | TimeoutErr \<Rightarrow> Ran (RetryAfterBackoff (lit ''model request timed out''))
           | UnexpectedStatus status body \<Rightarrow>
               if status = 408 then Ran (RetryAfterBackoff (lit ''provider returned '' @ show_status status))
               else if status = 499 then Ran (RetryAfterBackoff (lit ''client closed request (499)''))
               else if status = 429
               then (case parse_rate_limit_hint env now body of
                       Panic \<Rightarrow> Panic
                     | Ran (Some wait_until) \<Rightarrow> Ran (RateLimited wait_until (lit ''rate limited; waiting for reset''))
                     | Ran None \<Rightarrow> Ran (RetryAfterBackoff (lit ''rate limited (429)'')))
               else if is_client_error status then Ran (FatalDecision (error_text err))
               else if is_server_error status
               then Ran (RetryAfterBackoff (lit ''server error '' @ show_status status))
               else Ran (classify_causes show_status err)
           | UsageLimitReached (Some n) \<Rightarrow>
               Ran (RateLimited (compute_rate_limit_wait env now (secs (unat n))) (lit ''usage limit reached''))
           | UsageLimitReached None \<Rightarrow> Ran (FatalDecision (error_text err))
           | UsageNotIncluded \<Rightarrow> Ran (FatalDecision (error_text err))
           | AuthRefreshPermanent \<Rightarrow> Ran (FatalDecision (error_text err))
           | QuotaExceeded \<Rightarrow> Ran (FatalDecision (error_text err))
           | ServerErr \<Rightarrow> Ran (RetryAfterBackoff (error_text err))
           | RetryLimit status retryable \<Rightarrow>
               if retryable
               then Ran (RetryAfterBackoff (lit ''retry limit exceeded (status '' @ show_status status @
                           lit ''), treating as transient''))
               else Ran (FatalDecision (lit ''retry limit exceeded (status '' @ show_status status @ lit '')''))
           | ReqwestErr r \<Rightarrow> Ran (classify_reqwest_error show_status r)
           | IoErr timed_out \<Rightarrow>
               if timed_out then Ran (RetryAfterBackoff (lit ''network timeout''))
               else Ran (classify_causes show_status err)
           | OtherCodexErr \<Rightarrow> Ran (classify_causes show_status err)))"

text \<open>
  The account switch of the coordinator. The state is that of a turn: the credentials of the manager,
  the state of the switches and the code home; the last component collects the messages sent.
\<close>

record switch_client =
  auto_switch_accounts :: bool
  api_key_in_env :: bool
  has_auth_manager :: bool
  api_key_fallback :: bool
  preferred_mode :: auth_mode

definition account_mode :: "auth_env \<Rightarrow> codex_auth option \<Rightarrow> rstr \<Rightarrow> auth_home \<Rightarrow> auth_mode option \<times> auth_home" where
  "account_mode env auth account_id home =
     (case auth of
        Some a \<Rightarrow> (Some (ca_mode a), home)
      | None \<Rightarrow>
          (case find_account env account_id home of
             (Inr acc, home) \<Rightarrow> (map_option acc_mode acc, home)
           | (Inl _, home) \<Rightarrow> (None, home)))"

definition account_label_or_id :: "auth_env \<Rightarrow> rstr \<Rightarrow> auth_home \<Rightarrow> rstr \<times> auth_home" where
  "account_label_or_id env account_id home =
     (case find_account env account_id home of
        (Inr (Some acc), home) \<Rightarrow> (case acc_label acc of Some label \<Rightarrow> (label, home) | None \<Rightarrow> (account_id, home))
      | (_, home) \<Rightarrow> (account_id, home))"

definition coordinator_switch ::
    "switch_client \<Rightarrow> switch_round \<Rightarrow> turn_world \<times> rstr list \<Rightarrow> bool \<times> turn_world \<times> rstr list" where
  "coordinator_switch client x w =
     (let (t, events) = w; env = round_env x
      in case current_account env (turn_auth t) (turn_home t) of
           (None, home) \<Rightarrow> (False, t\<lparr>turn_home := home\<rparr>, events)
         | (Some current, home) \<Rightarrow>
             (case account_mode env (turn_auth t) current home of
                (None, home) \<Rightarrow> (False, t\<lparr>turn_home := home\<rparr>, events)
              | (Some mode, home) \<Rightarrow>
                  (case switch_active_account_on_rate_limit env (round_snapshots x) (api_key_fallback client)
                          (round_now x) current mode (map_option (reset_after (round_now x)) (round_resets_in x))
                          (turn_state t) home of
                     (Inr (Some i), st, home) \<Rightarrow>
                       (let (label, home) = account_label_or_id env i home
                        in (True,
                            \<lparr>turn_auth = reload_auth env (preferred_mode client) home, turn_state = st, turn_home = home\<rparr>,
                            events @ [lit ''Auto-switch: now using '' @ label @ lit '' due to usage limit.'']))
                   | (_, st, home) \<Rightarrow> (False, t\<lparr>turn_state := st, turn_home := home\<rparr>, events))))"

definition classify_model_error_with_auto_switch ::
    "hint_env \<Rightarrow> (nat \<Rightarrow> rstr) \<Rightarrow> switch_client \<Rightarrow> switch_round \<Rightarrow> nat \<Rightarrow> model_error \<Rightarrow> turn_world \<times> rstr list \<Rightarrow>
     rstr retry_decision ran \<times> turn_world \<times> rstr list" where
  "classify_model_error_with_auto_switch henv show_status client x now err w =
     (case chain_codex err of
        Some (UsageLimitReached _) \<Rightarrow>
          if auto_switch_accounts client \<and> \<not> api_key_in_env client \<and> has_auth_manager client
          then (case coordinator_switch client x w of
                  (True, w) \<Rightarrow> (Ran (RateLimited now (lit ''usage limit reached; switched accounts'')), w)
                | (False, w) \<Rightarrow> (classify_model_error henv show_status now err, w))
          else (classify_model_error henv show_status now err, w)
      | _ \<Rightarrow> (classify_model_error henv show_status now err, w))"

section \<open>Within the budget\<close>

lemma wait_ends: "wait_with_cancel w now d = (ok, now') \<Longrightarrow> now' \<le> now + d \<and> (ok \<longrightarrow> now' = now + d)"
  by (auto simp: wait_with_cancel_def split: if_splits option.splits)

text \<open>A status that announces a sleep fits the budget.\<close>

definition sleeps_within :: "retry_options \<Rightarrow> retry_status list \<Rightarrow> bool" where
  "sleeps_within opts sts \<longleftrightarrow>
     (\<forall>s \<in> set sts. \<forall>d. status_sleep s = Some d \<longrightarrow> status_elapsed s + d \<le> max_elapsed opts)"

lemma round_retries:
  assumes "retry_round w opts start i attempt now sts = RetryFrom now' sts'" and "start \<le> now"
  shows "now + run_takes w i < start + max_elapsed opts" and "now + run_takes w i \<le> now'"
    and "now' \<le> start + max_elapsed opts" and "sleeps_within opts sts \<Longrightarrow> sleeps_within opts sts'"
    and "\<exists>e. run_output w i = Inl e \<and> (\<forall>fatal. classify w i (now + run_takes w i) e \<noteq> FatalDecision fatal)"
  using assms
  by (auto simp: retry_round_def Let_def sleeps_within_def
      split: sum.splits if_splits retry_decision.splits prod.splits bool.splits dest!: wait_ends)

lemma round_finishes:
  assumes "retry_round w opts start i attempt now sts = Finished r now' sts'"
    and "start \<le> now" and "now \<le> start + max_elapsed opts"
  shows "now' \<le> start + max_elapsed opts + run_takes w i"
    and "sleeps_within opts sts \<Longrightarrow> sleeps_within opts sts'"
    and "r = Inr v \<Longrightarrow> run_output w i = Inr v"
  using assms
  by (auto simp: retry_round_def Let_def sleeps_within_def
      split: sum.splits if_splits retry_decision.splits prod.splits bool.splits dest!: wait_ends)

text \<open>
  What is promised of a returned value: the requests made, at most one per nanosecond of the budget
  and one more; the end, within the budget but for the last request; the announced sleeps; and that a
  value is the output of the last request, all the earlier ones having failed.
\<close>

definition retry_kept_budget :: "('e, 'v) retry_world \<Rightarrow> retry_options \<Rightarrow> nat \<Rightarrow> nat \<Rightarrow> ('e, 'v) retry_out \<Rightarrow> bool" where
  "retry_kept_budget w opts start i out \<longleftrightarrow>
     (case out of (r, stop, n, sts) \<Rightarrow>
        i \<le> n \<and> n \<le> max_elapsed opts + 1 \<and>
        stop \<le> start + max_elapsed opts + (if n = 0 then 0 else run_takes w (n - 1)) \<and>
        sleeps_within opts sts \<and>
        (\<forall>v. r = Inr v \<longrightarrow> i < n \<and> run_output w (n - 1) = Inr v) \<and>
        (\<forall>j. i \<le> j \<and> j + 1 < n \<longrightarrow> (\<exists>e. run_output w j = Inl e)))"

lemma retry_kept_budget_step:
  assumes "retry_kept_budget w opts start (i + 1) out" and "run_output w i = Inl e"
  shows "retry_kept_budget w opts start i out"
proof -
  have "\<exists>e. run_output w j = Inl e" if "i \<le> j" "j + 1 < n"
      and "\<forall>j. Suc i \<le> j \<and> Suc j < n \<longrightarrow> (\<exists>e. run_output w j = Inl e)" for j n
    using that assms(2) by (cases "j = i") auto
  then show ?thesis
    using assms(1) by (auto simp: retry_kept_budget_def)
qed

lemma retry_loop_returns:
  assumes takes: "\<And>i. 0 < run_takes w i"
    and "start \<le> now" "now \<le> start + max_elapsed opts" "i \<le> now - start" "sleeps_within opts sts"
  shows "\<exists>out. retry_loop w opts start i attempt now sts = Some out \<and> retry_kept_budget w opts start i out"
  using assms(2-)
proof (induction "start + max_elapsed opts - now" arbitrary: i attempt now sts rule: less_induct)
  case less
  show ?case
  proof (cases "is_cancelled w now")
    case True
    then show ?thesis
      using less.prems by (subst retry_loop.simps) (auto simp: retry_kept_budget_def)
  next
    case False
    let ?attempt = "saturating_add attempt 1"
    show ?thesis
    proof (cases "retry_round w opts start i ?attempt now sts")
      case (Finished r stop sts')
      note fin = round_finishes [OF Finished less.prems(1,2)]
      have "retry_loop w opts start i attempt now sts = Some (r, stop, i + 1, sts')"
        using False Finished by (subst retry_loop.simps) simp
      moreover have "retry_kept_budget w opts start i (r, stop, i + 1, sts')"
        using fin less.prems by (auto simp: retry_kept_budget_def)
      ultimately show ?thesis
        by blast
    next
      case (RetryFrom now' sts')
      note more = round_retries [OF RetryFrom less.prems(1)]
      have "now < now'"
        using more(2) takes [of i] by linarith
      then have "\<exists>out. retry_loop w opts start (i + 1) ?attempt now' sts' = Some out \<and>
          retry_kept_budget w opts start (i + 1) out"
        using less.prems more by (intro less.hyps) auto
      moreover have "retry_loop w opts start i attempt now sts = retry_loop w opts start (i + 1) ?attempt now' sts'"
        using False RetryFrom by (subst retry_loop.simps) simp
      ultimately show ?thesis
        using more(5) retry_kept_budget_step by fastforce
    qed
  qed
qed

section \<open>Retrying after an account switch\<close>

lemma account_label_home:
  assumes "json_laws env" and "holds env home f"
  shows "snd (account_label_or_id env i home) = home"
  using read_holds [OF assms] by (simp add: account_label_or_id_def find_account_def io_then_def io_ok_def split: option.splits)

text \<open>With credentials at hand the coordinator switches accounts as the turn loop does.\<close>

lemma coordinator_switch_eq:
  assumes "usage_limit_switch (api_key_fallback client) (preferred_mode client) x t = (Some i, t')"
    and "turn_auth t = Some auth" and "json_laws (round_env x)" and "holds (round_env x) (turn_home t') f"
  shows "\<exists>event. coordinator_switch client x (t, events) = (True, t', events @ [event])"
  using assms(1,2) account_label_home [OF assms(3,4), of i]
  by (auto simp: usage_limit_switch_def coordinator_switch_def account_mode_def Let_def split_beta
      split: prod.splits option.splits sum.splits)

lemma retried_at_once:
  assumes "run_output w i = Inl e" and "now + run_takes w i < start + max_elapsed opts" and "start \<le> now"
    and "classify w i (now + run_takes w i) e = RateLimited (now + run_takes w i) reason"
  shows "retry_round w opts start i attempt now sts = RetryFrom (now + run_takes w i) sts"
  using assms by (auto simp: retry_round_def Let_def)

text \<open>
  While the coordinator is on the stored account with the smallest identifier, each usage limit makes
  it switch to that very account and retry at once, as often as the limit is reported.
\<close>

lemma limited_account_retried_at_once:
  assumes laws: "json_laws codec" and on: "on_account codec ids account chatgpt_id t" and round: "limit_round codec ids x"
    and other: "chatgpt_id \<notin> ids" "\<forall>i\<in>ids. acc_id account \<le> i"
    and client: "auto_switch_accounts client" "\<not> api_key_in_env client" "has_auth_manager client"
    and err: "chain_codex err = Some (UsageLimitReached resets)"
  shows "\<exists>t' event. on_account codec ids account chatgpt_id t' \<and>
    classify_model_error_with_auto_switch henv show_status client x now err (t, events) =
      (Ran (RateLimited now (lit ''usage limit reached; switched accounts'')), t', events @ [event])"
proof -
  obtain t' where t': "usage_limit_switch (api_key_fallback client) (preferred_mode client) x t = (Some (acc_id account), t')"
      "on_account codec ids account chatgpt_id t'"
    using limit_round_repeats [OF laws on round other] by blast
  obtain f auth where "holds codec (turn_home t') f" "turn_auth t = Some auth"
    using t'(2) on unfolding on_account_def by blast
  moreover note codec_store [of "round_env x" codec]
  ultimately obtain event where "coordinator_switch client x (t, events) = (True, t', events @ [event])"
    using coordinator_switch_eq [OF t'(1)] laws round unfolding limit_round_def by metis
  then show ?thesis
    using t'(2) client err by (auto simp: classify_model_error_with_auto_switch_def)
qed

text \<open>A rate limit response that names an absurd number of seconds makes the classification panic.\<close>

lemma absurd_reset_panics:
  assumes "chain_codex err = Some (UnexpectedStatus 429 body)"
    and "parse_json env body = Some (JObject [(lit ''reset_seconds'', JNumber n)])"
    and "parse_f64 env n = Some (False, Finite x)" and "2 ^ 64 \<le> x"
  shows "classify_model_error env show_status now err = Panic"
  using assms
  by (simp add: classify_model_error_def parse_rate_limit_hint_def extract_seconds_def from_secs_f64_def lit_def)

section \<open>Claims\<close>

text \<open>
  (C23) The retry loop ends within its budget: when every request takes some time, it returns, after
  at most one request per nanosecond of the budget and one more, no later than the budget allows but
  for the time of the last request; it announces no sleep that goes beyond the budget; and a value it
  returns is the output of the last request, all the earlier ones having failed.
\<close>

theorem retry_within_budget:
  assumes "\<And>i. 0 < run_takes w i"
  shows "\<exists>out. retry_with_backoff w opts start = Some out \<and> retry_kept_budget w opts start 0 out"
  unfolding retry_with_backoff_def
  by (rule retry_loop_returns) (simp_all add: assms sleeps_within_def)

definition sample_world :: "(nat, nat) retry_world" where
  "sample_world = \<lparr>run_takes = \<lambda>_. 5, run_output = \<lambda>i. if i < 2 then Inl i else Inr 7,
     classify = \<lambda>i now e. RateLimited (now + 3) [], cancelled_at = None, draw_below = \<lambda>_ _. 0, show_duration = \<lambda>_. []\<rparr>"

theorem retry_within_budget_witness:
  "\<exists>r stop n sts. retry_with_backoff sample_world (with_defaults 100) 0 = Some (r, stop, n, sts) \<and>
     n \<le> 101 \<and> stop \<le> 105 \<and> sleeps_within (with_defaults 100) sts"
  using retry_within_budget [of sample_world "with_defaults 100" 0]
  by (fastforce simp: retry_kept_budget_def sample_world_def with_defaults_def split: if_splits)

end
