(* ===== verification/Drive_History.thy ===== *)
theory Drive_History
  imports Account_Usage Retention
begin

text \<open>
  The transcript that Auto Drive keeps between the turns of its coordinator,
  \<open>code-rs/code-auto-drive-core/src/auto_drive_history.rs\<close>, with the counts of
  \<open>session_metrics.rs\<close> and the rebuilding of the transcript in \<open>tui/src/chatwidget.rs\<close>.

  An item is a message or another item with the number of bytes the token estimate counts for it;
  \<open>'r\<close> stands for the other fields. The elements of queues and lists are in their order.
\<close>

section \<open>Metrics\<close>

definition default_usage :: token_usage where
  "default_usage = \<lparr>usage_input = 0, usage_cached_input = 0, usage_output = 0, usage_reasoning_output = 0, usage_total = 0\<rparr>"

definition usage_is_zero :: "token_usage \<Rightarrow> bool" where
  "usage_is_zero u \<longleftrightarrow> usage_total u = 0"

definition non_cached_input :: "token_usage \<Rightarrow> u64" where
  "non_cached_input u = saturating_sub (usage_input u) (usage_cached_input u)"

definition blended_total :: "token_usage \<Rightarrow> u64" where
  "blended_total u = non_cached_input u + usage_output u"

definition add_assign :: "token_usage \<Rightarrow> token_usage \<Rightarrow> token_usage" where
  "add_assign u v = u
     \<lparr>usage_input := usage_input u + usage_input v, usage_cached_input := usage_cached_input u + usage_cached_input v,
      usage_output := usage_output u + usage_output v,
      usage_reasoning_output := usage_reasoning_output u + usage_reasoning_output v,
      usage_total := usage_total u + usage_total v\<rparr>"

record session_metrics =
  running_total :: token_usage
  last_turn :: token_usage
  turn_count :: u32
  replay_updates :: u32
  duplicate_items :: u32
  recent_prompt_tokens :: "u64 list"
  metrics_window :: nat

definition new_metrics :: "nat \<Rightarrow> session_metrics" where
  "new_metrics window =
     \<lparr>running_total = default_usage, last_turn = default_usage, turn_count = 0, replay_updates = 0,
      duplicate_items = 0, recent_prompt_tokens = [], metrics_window = max window 1\<rparr>"

definition push_prompt_observation :: "u64 \<Rightarrow> session_metrics \<Rightarrow> session_metrics" where
  "push_prompt_observation tokens m =
     (if tokens = 0 then m
      else (let recent = (if length (recent_prompt_tokens m) = metrics_window m
                          then drop 1 (recent_prompt_tokens m) else recent_prompt_tokens m)
            in m\<lparr>recent_prompt_tokens := recent @ [tokens]\<rparr>))"

definition record_turn :: "token_usage \<Rightarrow> session_metrics \<Rightarrow> session_metrics" where
  "record_turn usage m =
     push_prompt_observation (non_cached_input usage)
       (m\<lparr>running_total := add_assign (running_total m) usage, last_turn := usage,
          turn_count := saturating_add (turn_count m) 1\<rparr>)"

definition record_turn_without_usage :: "u64 \<Rightarrow> session_metrics \<Rightarrow> session_metrics" where
  "record_turn_without_usage estimated m =
     push_prompt_observation estimated (m\<lparr>turn_count := saturating_add (turn_count m) 1\<rparr>)"

definition sync_absolute :: "token_usage \<Rightarrow> token_usage \<Rightarrow> u32 \<Rightarrow> session_metrics \<Rightarrow> session_metrics" where
  "sync_absolute whole latest count m =
     push_prompt_observation (non_cached_input latest)
       (m\<lparr>running_total := whole, last_turn := latest, turn_count := count, replay_updates := 0, duplicate_items := 0,
          recent_prompt_tokens := []\<rparr>)"

definition has_recorded_usage :: "session_metrics \<Rightarrow> bool" where
  "has_recorded_usage m \<longleftrightarrow> \<not> usage_is_zero (running_total m) \<or> \<not> usage_is_zero (last_turn m)"

definition DEFAULT_PROMPT_ESTIMATE :: u64 where "DEFAULT_PROMPT_ESTIMATE = 4000"

text \<open>The sum of the recent observations is a \<open>u64\<close> and wraps around in a release build.\<close>

definition estimated_next_prompt_tokens :: "session_metrics \<Rightarrow> u64" where
  "estimated_next_prompt_tokens m =
     (if recent_prompt_tokens m \<noteq> []
      then sum_list (recent_prompt_tokens m) div word_of_nat (length (recent_prompt_tokens m))
      else (let fallback = non_cached_input (last_turn m) in if fallback > 0 then fallback else DEFAULT_PROMPT_ESTIMATE))"

definition reset_metrics :: "session_metrics \<Rightarrow> session_metrics" where
  "reset_metrics m = new_metrics (metrics_window m)"

definition record_replay :: "session_metrics \<Rightarrow> session_metrics" where
  "record_replay m = m\<lparr>replay_updates := saturating_add (replay_updates m) 1\<rparr>"

definition record_duplicate_items :: "nat \<Rightarrow> session_metrics \<Rightarrow> session_metrics" where
  "record_duplicate_items count m =
     (if count = 0 then m
      else m\<lparr>duplicate_items := saturating_add (duplicate_items m) (word_of_nat (min count (2 ^ 32 - 1)))\<rparr>)"

text \<open>The three warnings of \<open>loop_detection_warning\<close>; each text names the count it carries here.\<close>

datatype loop_warning = LoopDetected u32 | PotentialLoop u32 | Repetition u32

definition loop_detection_warning :: "session_metrics \<Rightarrow> loop_warning option" where
  "loop_detection_warning m =
     (if replay_updates m \<ge> 4 then Some (LoopDetected (replay_updates m))
      else if replay_updates m \<ge> 2 then Some (PotentialLoop (replay_updates m))
      else if duplicate_items m \<ge> 3 then Some (Repetition (duplicate_items m))
      else None)"

section \<open>The transcript\<close>

datatype 'r drive_item = DriveMessage rstr "content_item list" 'r | DriveOther nat 'r

record normalized_message =
  msg_role :: rstr
  msg_content :: "content_item list"

record 'r drive_history =
  converted :: "'r drive_item list"
  raw_items :: "'r drive_item list"
  pending_duplicates :: "normalized_message list"
  prev_compact_summary :: "rstr option"
  drive_metrics :: session_metrics

definition new_history :: "'r drive_history" where
  "new_history = \<lparr>converted = [], raw_items = [], pending_duplicates = [], prev_compact_summary = None,
     drive_metrics = new_metrics 3\<rparr>"

fun normalize_message :: "'r drive_item \<Rightarrow> normalized_message option" where
  "normalize_message (DriveMessage role content _) = Some \<lparr>msg_role = role, msg_content = content\<rparr>"
| "normalize_message (DriveOther _ _) = None"

fun content_text :: "content_item \<Rightarrow> rstr" where
  "content_text (InputText t) = t"
| "content_text (OutputText t) = t"
| "content_text (InputImage t) = t"

fun is_user_message :: "'r drive_item \<Rightarrow> bool" where
  "is_user_message (DriveMessage role _ _) \<longleftrightarrow> role = lit ''user''"
| "is_user_message (DriveOther _ _) \<longleftrightarrow> False"

definition same_text :: "'r drive_item \<Rightarrow> normalized_message \<Rightarrow> bool" where
  "same_text item expected \<longleftrightarrow>
     (case normalize_message item of
        None \<Rightarrow> False
      | Some message \<Rightarrow>
          msg_role message = msg_role expected \<and>
          map content_text (msg_content message) = map content_text (msg_content expected))"

definition should_skip_entire_tail :: "normalized_message list \<Rightarrow> 'r drive_item list \<Rightarrow> bool" where
  "should_skip_entire_tail pending items \<longleftrightarrow>
     pending \<noteq> [] \<and> length items = length pending + 1 \<and>
     (case items of [] \<Rightarrow> False | item # _ \<Rightarrow> is_user_message item) \<and>
     list_all (\<lambda>(item, expected). same_text item expected) (zip (drop 1 items) pending)"

text \<open>The loop over the tail: matched items leave the queue, the first mismatch empties it.\<close>

fun filter_duplicates ::
    "'r drive_item list \<Rightarrow> normalized_message list \<Rightarrow> session_metrics \<Rightarrow>
     'r drive_item list \<times> normalized_message list \<times> session_metrics" where
  "filter_duplicates [] queue m = ([], queue, m)"
| "filter_duplicates (item # items) queue m =
     (case queue of
        expected # rest \<Rightarrow>
          if normalize_message item = Some expected
          then filter_duplicates items rest (record_duplicate_items 1 m)
          else (let (kept, queue, m) = filter_duplicates items [] m in (item # kept, queue, m))
      | [] \<Rightarrow> (let (kept, queue, m) = filter_duplicates items [] m in (item # kept, queue, m)))"

definition replace_converted :: "'r drive_item list \<Rightarrow> 'r drive_history \<Rightarrow> 'r drive_item list \<times> 'r drive_history" where
  "replace_converted items h =
     (let prev_len = length (converted h);
          h = h\<lparr>converted := items\<rparr>;
          new_items = (if length items \<le> prev_len then [] else drop prev_len items)
      in if new_items = [] then ([], h)
         else if should_skip_entire_tail (pending_duplicates h) new_items
         then ([], h\<lparr>drive_metrics := record_replay (record_duplicate_items (length new_items - 1) (drive_metrics h)),
                    pending_duplicates := []\<rparr>)
         else if pending_duplicates h = [] then (new_items, h)
         else (let (kept, queue, m) = filter_duplicates new_items (pending_duplicates h) (drive_metrics h)
               in (kept, h\<lparr>pending_duplicates := queue, drive_metrics := m\<rparr>)))"

definition append_raw :: "'r drive_item list \<Rightarrow> 'r drive_history \<Rightarrow> 'r drive_history" where
  "append_raw items h =
     (if items = [] then h
      else h\<lparr>raw_items := raw_items h @ items,
             pending_duplicates := pending_duplicates h @ List.map_filter normalize_message items\<rparr>)"

definition append_converted_tail :: "'r drive_item list \<Rightarrow> 'r drive_history \<Rightarrow> 'r drive_history" where
  "append_converted_tail items h = (if items = [] then h else h\<lparr>raw_items := raw_items h @ items\<rparr>)"

definition replace_all :: "'r drive_item list \<Rightarrow> 'r drive_history \<Rightarrow> 'r drive_history" where
  "replace_all items h = h\<lparr>converted := items, raw_items := items, pending_duplicates := []\<rparr>"

definition clear_history :: "'r drive_history \<Rightarrow> 'r drive_history" where
  "clear_history h = h\<lparr>converted := [], raw_items := [], pending_duplicates := [], prev_compact_summary := None,
     drive_metrics := reset_metrics (drive_metrics h)\<rparr>"

definition apply_token_metrics ::
    "token_usage \<Rightarrow> token_usage \<Rightarrow> u32 \<Rightarrow> u32 \<Rightarrow> u32 \<Rightarrow> 'r drive_history \<Rightarrow> 'r drive_history" where
  "apply_token_metrics whole latest count duplicates replays h =
     h\<lparr>drive_metrics := (sync_absolute whole latest count (drive_metrics h))
         \<lparr>duplicate_items := duplicates, replay_updates := replays\<rparr>\<rparr>"

text \<open>\<open>rebuild_auto_history\<close> of the chat widget, for the conversation it exports.\<close>

definition rebuild_auto_history :: "'r drive_item list \<Rightarrow> 'r drive_history \<Rightarrow> 'r drive_item list \<times> 'r drive_history" where
  "rebuild_auto_history exported h =
     (let (new_items, h) = replace_converted exported h;
          h = (if new_items \<noteq> [] then append_converted_tail new_items h else h)
      in (raw_items h, h))"

section \<open>Compaction\<close>

fun content_bytes :: "content_item \<Rightarrow> nat" where
  "content_bytes (InputText t) = byte_len t"
| "content_bytes (OutputText t) = byte_len t"
| "content_bytes (InputImage url) = byte_len url div 10"

fun item_bytes :: "'r drive_item \<Rightarrow> nat" where
  "item_bytes (DriveMessage _ content _) = sum_list (map content_bytes content)"
| "item_bytes (DriveOther n _) = n"

definition estimate_item_tokens :: "'r drive_item \<Rightarrow> nat" where
  "estimate_item_tokens item = (item_bytes item + 3) div 4"

definition estimate_tokens :: "'r drive_item list \<Rightarrow> nat" where
  "estimate_tokens items = sum_list (map estimate_item_tokens items)"

fun goal_index :: "'r drive_item list \<Rightarrow> nat option" where
  "goal_index [] = None"
| "goal_index (item # items) = (if is_user_message item then Some 0 else map_option Suc (goal_index items))"

text \<open>The index at which the accumulated tokens reach the target, if any.\<close>

fun reach_target :: "nat \<Rightarrow> nat \<Rightarrow> 'r drive_item list \<Rightarrow> nat option" where
  "reach_target target acc [] = None"
| "reach_target target acc (item # items) =
     (let acc = acc + estimate_item_tokens item
      in if acc \<ge> target then Some 0 else map_option Suc (reach_target target acc items))"

definition advance_to_turn_boundary :: "'r drive_item list \<Rightarrow> nat \<Rightarrow> nat" where
  "advance_to_turn_boundary items start =
     (if start < length items then start + length (takeWhile (\<lambda>item. \<not> is_user_message item) (drop start items))
      else start)"

definition compact_item :: "'r \<Rightarrow> rstr \<Rightarrow> 'r drive_item" where
  "compact_item meta summary =
     DriveMessage (lit ''user'') [InputText (lit ''<compact_summary>'' @ [10] @ summary @ [10] @ lit ''</compact_summary>'')] meta"

definition compact_slice :: "'r \<Rightarrow> ('r drive_item list \<Rightarrow> rstr) \<Rightarrow> 'r drive_history \<Rightarrow> bool \<times> 'r drive_history" where
  "compact_slice meta summarizer h =
     (case goal_index (converted h) of
        None \<Rightarrow> (False, h)
      | Some goal \<Rightarrow>
          if length (converted h) \<le> goal + 3 then (False, h)
          else
            (let after_goal = drop (goal + 1) (converted h);
                 tokens = estimate_tokens after_goal
             in if tokens < 1000 then (False, h)
                else
                  (let midpoint = goal + 1 + (case reach_target (tokens div 2) 0 after_goal of Some i \<Rightarrow> i | None \<Rightarrow> 0);
                       slice_end = advance_to_turn_boundary (converted h) midpoint
                   in if slice_end \<le> goal + 1 then (False, h)
                      else
                        (let slice = take (slice_end - (goal + 1)) after_goal;
                             summary = summarizer slice
                         in (True, h\<lparr>converted := take (goal + 1) (converted h) @ [compact_item meta summary] @
                                        drop slice_end (converted h),
                                     prev_compact_summary := Some summary\<rparr>)))))"

section \<open>What a rebuild adds\<close>

text \<open>How many items at the front are the pending messages, in their order.\<close>

fun matched :: "'r drive_item list \<Rightarrow> normalized_message list \<Rightarrow> nat" where
  "matched (item # items) (expected # queue) = (if normalize_message item = Some expected then Suc (matched items queue) else 0)"
| "matched _ _ = 0"

lemma filter_nothing: "filter_duplicates items [] m = (items, [], m)"
  by (induction items) simp_all

lemma filter_duplicates_eq:
  "fst (filter_duplicates items queue m) = drop (matched items queue) items"
  "fst (snd (filter_duplicates items queue m)) =
     (if matched items queue = length items then drop (length items) queue else [])"
  by (induction items queue m rule: filter_duplicates.induct) (auto simp: filter_nothing split: list.splits)

lemma matched_all:
  "map normalize_message shown = map Some pending \<Longrightarrow> matched (shown @ us) pending = length pending"
proof (induction shown arbitrary: pending)
  case Nil
  then show ?case
    by (cases us) simp_all
next
  case (Cons item shown)
  then show ?case
    by (cases pending) auto
qed

lemma replace_converted_new_items:
  assumes "\<not> should_skip_entire_tail (pending_duplicates h) new_items"
  shows "fst (replace_converted (converted h @ new_items) h) =
    drop (matched new_items (pending_duplicates h)) new_items"
proof (cases "pending_duplicates h")
  case Nil
  then show ?thesis
    using assms by (cases new_items) (simp_all add: replace_converted_def Let_def)
next
  case (Cons expected queue)
  then show ?thesis
    using assms by (cases "new_items = []") (simp_all add: replace_converted_def Let_def split_beta filter_duplicates_eq)
qed

lemma matched_spec:
  "matched items queue \<le> length items \<and> matched items queue \<le> length queue \<and>
   map normalize_message (take (matched items queue) items) = map Some (take (matched items queue) queue) \<and>
   (matched items queue = length items \<or> matched items queue = length queue \<or>
    normalize_message (items ! matched items queue) \<noteq> Some (queue ! matched items queue))"
  by (induction items queue rule: matched.induct) auto

lemma skip_iff:
  "should_skip_entire_tail pending items \<longleftrightarrow>
     (\<exists>u rest. items = u # rest \<and> is_user_message u \<and> pending \<noteq> [] \<and> list_all2 same_text rest pending)"
  by (cases items) (auto simp: should_skip_entire_tail_def list_all2_iff list_all_iff)

lemma replace_converted_pending:
  "pending_duplicates (snd (replace_converted items h)) =
     (let new_items = drop (length (converted h)) items; k = matched new_items (pending_duplicates h)
      in if should_skip_entire_tail (pending_duplicates h) new_items \<or> k < length new_items then []
         else drop k (pending_duplicates h))"
proof -
  let ?new = "drop (length (converted h)) items"
  have "matched ?new (pending_duplicates h) \<le> length ?new"
    using matched_spec by blast
  then show ?thesis
    by (cases "?new = []"; cases "pending_duplicates h")
      (auto simp: replace_converted_def Let_def split_beta filter_duplicates_eq should_skip_entire_tail_def)
qed

lemma replace_converted_added:
  "fst (replace_converted items h) =
     (let new_items = drop (length (converted h)) items
      in if should_skip_entire_tail (pending_duplicates h) new_items then []
         else drop (matched new_items (pending_duplicates h)) new_items)"
proof -
  let ?new = "drop (length (converted h)) items"
  show ?thesis
    by (cases "?new = []"; cases "pending_duplicates h")
      (auto simp: replace_converted_def Let_def split_beta filter_duplicates_eq)
qed

lemma replace_converted_raw [simp]: "raw_items (snd (replace_converted items h)) = raw_items h"
  by (simp add: replace_converted_def Let_def split_beta)

lemma replace_converted_converted [simp]: "converted (snd (replace_converted items h)) = items"
  by (simp add: replace_converted_def Let_def split_beta)

lemma rebuild_fields:
  "converted (snd (rebuild_auto_history items h)) = items"
  "pending_duplicates (snd (rebuild_auto_history items h)) = pending_duplicates (snd (replace_converted items h))"
  by (simp_all add: rebuild_auto_history_def append_converted_tail_def Let_def split_beta)

lemma rebuild_raw: "fst (rebuild_auto_history items h) = raw_items h @ fst (replace_converted items h)"
  by (simp add: rebuild_auto_history_def append_converted_tail_def Let_def split_beta)

lemma normalized_messages:
  "list_all (\<lambda>item. normalize_message item \<noteq> None) items \<Longrightarrow>
     map Some (List.map_filter normalize_message items) = map normalize_message items"
  by (induction items) (auto simp: map_filter_simps)

text \<open>
  So the messages that the coordinator has put into the transcript itself stay there once, when no others
  are pending and the widget shows them first of all, unless that counts as a replay.
\<close>

lemma own_messages_once:
  assumes "pending_duplicates h = []" and "list_all (\<lambda>item. normalize_message item \<noteq> None) own"
    and shown: "map normalize_message shown = map normalize_message own"
    and skip: "\<not> should_skip_entire_tail (List.map_filter normalize_message own) (shown @ others)"
  shows "fst (rebuild_auto_history (converted h @ shown @ others) (append_raw own h)) = raw_items h @ own @ others"
proof -
  let ?h = "append_raw own h" and ?pending = "List.map_filter normalize_message own"
  have h: "pending_duplicates ?h = ?pending" "converted ?h = converted h" "raw_items ?h = raw_items h @ own"
    using assms(1) by (simp_all add: append_raw_def map_filter_simps)
  have "map normalize_message shown = map Some ?pending"
    using shown normalized_messages [OF assms(2)] by simp
  note matched_all [OF this, of others] and map_eq_imp_length_eq [OF this]
  then have "fst (replace_converted (converted h @ shown @ others) ?h) = others"
    using replace_converted_new_items [of ?h "shown @ others"] skip h by simp
  then show ?thesis
    by (simp add: rebuild_raw h)
qed

text \<open>
  A user message that is the same as the one before it is taken for a replay: when both turn up in
  one rebuild, the second one never reaches the transcript.
\<close>

lemma repeated_message_lost:
  assumes "pending_duplicates h = []" and "is_user_message item"
  shows "fst (rebuild_auto_history (converted h @ [item, item]) (append_raw [item] h)) = raw_items h @ [item]"
  using assms
  by (cases item)
     (simp_all add: rebuild_raw replace_converted_def append_raw_def should_skip_entire_tail_def same_text_def map_filter_simps)

section \<open>What a compaction keeps\<close>

lemma goal_index_Some:
  "goal_index items = Some i \<Longrightarrow>
     i < length items \<and> is_user_message (items ! i) \<and> list_all (\<lambda>x. \<not> is_user_message x) (take i items)"
  by (induction items arbitrary: i) (auto split: if_splits)

lemma turn_boundary:
  assumes "start \<le> length items"
  shows "start \<le> advance_to_turn_boundary items start" and "advance_to_turn_boundary items start \<le> length items"
    and "advance_to_turn_boundary items start < length items \<Longrightarrow>
           is_user_message (items ! advance_to_turn_boundary items start)"
    and "list_all (\<lambda>x. \<not> is_user_message x)
           (take (advance_to_turn_boundary items start - start) (drop start items))"
proof -
  let ?P = "\<lambda>x. \<not> is_user_message x"
  let ?n = "length (takeWhile ?P (drop start items))"
  have n: "?n \<le> length items - start"
    using length_takeWhile_le [of ?P "drop start items"] by simp
  have eq: "advance_to_turn_boundary items start = start + ?n"
    using assms by (auto simp: advance_to_turn_boundary_def)
  show "start \<le> advance_to_turn_boundary items start" "advance_to_turn_boundary items start \<le> length items"
    using n assms by (simp_all add: eq)
  show "is_user_message (items ! advance_to_turn_boundary items start)"
    if "advance_to_turn_boundary items start < length items"
    using that nth_length_takeWhile [of ?P "drop start items"] assms by (simp add: eq)
  show "list_all ?P (take (advance_to_turn_boundary items start - start) (drop start items))"
    using takeWhile_eq_take [of ?P "drop start items"] set_takeWhileD [of _ ?P "drop start items"]
    by (auto simp: eq list_all_iff)
qed

lemma reach_target_bound: "reach_target target acc items = Some i \<Longrightarrow> i < length items"
  by (induction items arbitrary: acc i) (auto simp: Let_def split: if_splits)

lemma goal_index_append: "goal_index items = Some i \<Longrightarrow> goal_index (take (i + 1) items @ rest) = Some i"
  by (induction items arbitrary: i) (auto split: if_splits)

lemma compaction_keeps_turns:
  assumes "compact_slice meta summarizer h = (True, h')"
  obtains goal slice_end where "goal_index (converted h) = Some goal" "goal + 1 < slice_end" "slice_end \<le> length (converted h)"
    "slice_end = length (converted h) \<or> is_user_message (converted h ! slice_end)"
    "converted h' = take (goal + 1) (converted h) @
       [compact_item meta (summarizer (take (slice_end - (goal + 1)) (drop (goal + 1) (converted h))))] @
       drop slice_end (converted h)"
    "goal_index (converted h') = Some goal" "raw_items h' = raw_items h"
proof -
  obtain goal where goal: "goal_index (converted h) = Some goal"
    using assms by (auto simp: compact_slice_def split: option.splits)
  let ?after = "drop (goal + 1) (converted h)"
  define start where
    "start = goal + 1 + (case reach_target (estimate_tokens ?after div 2) 0 ?after of Some i \<Rightarrow> i | None \<Rightarrow> 0)"
  define stop where "stop = advance_to_turn_boundary (converted h) start"
  have big: "goal + 3 < length (converted h)"
    using assms goal by (auto simp: compact_slice_def split: if_splits)
  have "(case reach_target (estimate_tokens ?after div 2) 0 ?after of Some i \<Rightarrow> i | None \<Rightarrow> 0) < length ?after"
    using big reach_target_bound [of "estimate_tokens ?after div 2" 0 ?after] by (auto split: option.split)
  then have "start \<le> length (converted h)"
    by (simp add: start_def)
  note boundary = turn_boundary [OF this]
  have h': "goal + 1 < stop" "h' = h\<lparr>converted := take (goal + 1) (converted h) @
       [compact_item meta (summarizer (take (stop - (goal + 1)) ?after))] @ drop stop (converted h),
       prev_compact_summary := Some (summarizer (take (stop - (goal + 1)) ?after))\<rparr>"
    using assms goal by (auto simp: compact_slice_def Let_def start_def stop_def split: if_splits)
  show ?thesis
    using goal h' boundary(2,3) goal_index_append [OF goal]
    by (intro that [of goal stop]) (auto simp: stop_def le_less)
qed

section \<open>The observations of the metrics\<close>

definition metrics_ok :: "session_metrics \<Rightarrow> bool" where
  "metrics_ok m \<longleftrightarrow> 1 \<le> metrics_window m \<and> length (recent_prompt_tokens m) \<le> metrics_window m \<and>
     0 \<notin> set (recent_prompt_tokens m)"

lemma metrics_ok_push: "metrics_ok m \<Longrightarrow> metrics_ok (push_prompt_observation n m)"
  by (auto simp: metrics_ok_def push_prompt_observation_def Let_def dest: in_set_dropD)

lemma metrics_ok_ops:
  "metrics_ok (new_metrics w)" "metrics_ok (reset_metrics m)"
  "metrics_ok m \<Longrightarrow> metrics_ok (record_turn usage m)"
  "metrics_ok m \<Longrightarrow> metrics_ok (record_turn_without_usage n m)"
  "metrics_ok m \<Longrightarrow> metrics_ok (sync_absolute whole latest count m)"
  "metrics_ok m \<Longrightarrow> metrics_ok (record_replay m)"
  "metrics_ok m \<Longrightarrow> metrics_ok (record_duplicate_items k m)"
  unfolding record_turn_def record_turn_without_usage_def sync_absolute_def
  by (auto intro!: metrics_ok_push)
     (auto simp: metrics_ok_def new_metrics_def reset_metrics_def record_replay_def record_duplicate_items_def)

section \<open>Claims\<close>

text \<open>
  (C40) What a rebuild adds to the transcript, for every exported conversation and every history. Of
  the exported items only the tail behind as many as were exported before counts. When
  the tail is a user message followed by items with the texts of all pending messages, nothing is added.
  Otherwise its longest part in front that repeats the pending messages one by one is left out and
  the rest is added. Pending messages stay pending only when the tail ended before they were all seen.
\<close>

theorem rebuild_adds_rest:
  assumes "tail = drop (length (converted h)) exported" and "pending = pending_duplicates h"
    and "rebuild_auto_history exported h = (transcript, h')"
  shows "if \<exists>u rest. tail = u # rest \<and> is_user_message u \<and> pending \<noteq> [] \<and> list_all2 same_text rest pending
    then transcript = raw_items h \<and> pending_duplicates h' = []
    else \<exists>k. k \<le> length tail \<and> k \<le> length pending \<and>
      map normalize_message (take k tail) = map Some (take k pending) \<and>
      (k = length tail \<or> k = length pending \<or> normalize_message (tail ! k) \<noteq> Some (pending ! k)) \<and>
      transcript = raw_items h @ drop k tail \<and>
      pending_duplicates h' = (if k = length tail then drop k pending else [])"
proof (cases "should_skip_entire_tail pending tail")
  case True
  then have "transcript = raw_items h" "pending_duplicates h' = []"
    using assms rebuild_raw [of exported h] rebuild_fields(2) [of exported h]
    by (simp_all add: replace_converted_added replace_converted_pending)
  then show ?thesis
    using True by (simp add: skip_iff)
next
  case False
  let ?k = "matched tail pending"
  have "transcript = raw_items h @ drop ?k tail"
    using assms rebuild_raw [of exported h] False by (simp add: replace_converted_added)
  moreover have "pending_duplicates h' = (if ?k = length tail then drop ?k pending else [])"
    using assms rebuild_fields(2) [of exported h] False matched_spec [of tail pending]
    by (simp add: replace_converted_pending Let_def)
  ultimately show ?thesis
    using False matched_spec [of tail pending] unfolding skip_iff by (simp only: if_False) blast
qed

theorem rebuild_adds_rest_witness:
  "let own = DriveMessage (lit ''assistant'') [OutputText (lit ''plan'')] True;
       shown = DriveMessage (lit ''assistant'') [OutputText (lit ''plan'')] False;
       prompt = DriveMessage (lit ''user'') [InputText (lit ''go'')] False
   in fst (rebuild_auto_history [shown, prompt] (append_raw [own] new_history)) = [own, prompt]"
proof -
  let ?own = "DriveMessage (lit ''assistant'') [OutputText (lit ''plan'')] True"
  let ?shown = "DriveMessage (lit ''assistant'') [OutputText (lit ''plan'')] False"
  let ?prompt = "DriveMessage (lit ''user'') [InputText (lit ''go'')] False"
  let ?h = "append_raw [?own] new_history"
  let ?pending = "[\<lparr>msg_role = lit ''assistant'', msg_content = [OutputText (lit ''plan'')]\<rparr>]"
  obtain transcript h' where run: "rebuild_auto_history [?shown, ?prompt] ?h = (transcript, h')"
    by fastforce
  have h: "raw_items ?h = [?own]" "[?shown, ?prompt] = drop (length (converted ?h)) [?shown, ?prompt]" "?pending = pending_duplicates ?h"
    by (simp_all add: append_raw_def new_history_def map_filter_simps)
  have "\<not> is_user_message ?shown"
    by (simp add: lit_def)
  with rebuild_adds_rest [OF h(2,3) run] obtain k where k: "k \<le> 1" "transcript = [?own] @ drop k [?shown, ?prompt]"
      "k = 1 \<or> normalize_message ([?shown, ?prompt] ! k) \<noteq> Some (?pending ! k)"
    by (auto simp: h(1))
  then have "k = 1"
    by (cases k) auto
  then show ?thesis
    using k(2) by (simp add: run Let_def)
qed

end
