(* ===== verification/Tool_Cycle.thy ===== *)
theory Tool_Cycle
  imports Env_Context
begin

text \<open>
  The guard against a model that repeats the same tool calls, \<open>code-rs/core/src/codex/repeated_tool_cycle.rs\<close>.

  Items carry the fields that the module matches on and those it leaves out (identifiers and
  statuses); values that are only turned into JSON are JSON values. The text of a JSON value is a
  function of the JSON library.
\<close>

section \<open>Fingerprints\<close>

type_synonym json_text = "json_value \<Rightarrow> rstr"

datatype turn_item =
    TurnFunctionCall "rstr option" rstr "rstr option" rstr rstr
  | TurnLocalShellCall "rstr option" "rstr option" rstr json_value
  | TurnCustomToolCall "rstr option" "rstr option" rstr rstr "rstr option" rstr
  | TurnToolSearchCall "rstr option" "rstr option" "rstr option" rstr json_value
  | TurnOtherItem json_value

datatype turn_response =
    FunctionCallOutputResponse rstr json_value
  | CustomToolCallOutputResponse rstr "rstr option" json_value
  | McpToolCallOutputResponse rstr json_value
  | ToolSearchOutputResponse rstr rstr rstr "json_value list"
  | OtherResponse json_value

fun call_json :: "turn_item \<Rightarrow> json_value option" where
  "call_json (TurnFunctionCall _ name ns arguments _) =
     Some (JObject [(lit ''type'', JString (lit ''function_call'')), (lit ''name'', JString name),
       (lit ''namespace'', option_string_to_json ns), (lit ''arguments'', JString arguments)])"
| "call_json (TurnLocalShellCall _ _ _ action) =
     Some (JObject [(lit ''type'', JString (lit ''local_shell_call'')), (lit ''action'', action)])"
| "call_json (TurnCustomToolCall _ _ _ name ns input) =
     Some (JObject [(lit ''type'', JString (lit ''custom_tool_call'')), (lit ''name'', JString name),
       (lit ''namespace'', option_string_to_json ns), (lit ''input'', JString input)])"
| "call_json (TurnToolSearchCall _ _ _ execution arguments) =
     Some (JObject [(lit ''type'', JString (lit ''tool_search_call'')), (lit ''execution'', JString execution),
       (lit ''arguments'', arguments)])"
| "call_json (TurnOtherItem _) = None"

fun output_json :: "turn_response \<Rightarrow> json_value option" where
  "output_json (FunctionCallOutputResponse _ out) =
     Some (JObject [(lit ''type'', JString (lit ''function_call_output'')), (lit ''output'', out)])"
| "output_json (CustomToolCallOutputResponse _ name out) =
     Some (JObject [(lit ''type'', JString (lit ''custom_tool_call_output'')), (lit ''name'', option_string_to_json name),
       (lit ''output'', out)])"
| "output_json (McpToolCallOutputResponse _ r) =
     Some (JObject [(lit ''type'', JString (lit ''mcp_tool_call_output'')), (lit ''result'', r)])"
| "output_json (ToolSearchOutputResponse _ status execution tools) =
     Some (JObject [(lit ''type'', JString (lit ''tool_search_output'')), (lit ''status'', JString status),
       (lit ''execution'', JString execution), (lit ''tools'', JArray tools)])"
| "output_json (OtherResponse _) = None"

definition tool_call_fingerprint :: "json_text \<Rightarrow> turn_item \<Rightarrow> rstr option" where
  "tool_call_fingerprint to_text item = map_option to_text (call_json item)"

definition tool_output_fingerprint :: "json_text \<Rightarrow> turn_response \<Rightarrow> rstr option" where
  "tool_output_fingerprint to_text item = map_option to_text (output_json item)"

record tool_cycle_fingerprint =
  tool_calls :: "rstr list"
  tool_outputs :: "rstr list"

definition from_turn :: "json_text \<Rightarrow> turn_item list \<Rightarrow> turn_response list \<Rightarrow> tool_cycle_fingerprint option" where
  "from_turn to_text items responses =
     (let calls = List.map_filter (tool_call_fingerprint to_text) items
      in if calls = [] \<or> responses = [] then None
         else (let outputs = List.map_filter (tool_output_fingerprint to_text) responses
               in if outputs = [] then None else Some \<lparr>tool_calls = calls, tool_outputs = outputs\<rparr>))"

section \<open>The guard\<close>

record tool_cycle_guard =
  previous_cycle :: "tool_cycle_fingerprint option"

definition default_guard :: tool_cycle_guard where
  "default_guard = \<lparr>previous_cycle = None\<rparr>"

datatype guard_error = UnsupportedOperation rstr

definition check_cycle ::
    "json_text \<Rightarrow> turn_item list \<Rightarrow> turn_response list \<Rightarrow> tool_cycle_guard \<Rightarrow> (guard_error + unit) \<times> tool_cycle_guard" where
  "check_cycle to_text items responses g =
     (case from_turn to_text items responses of
        None \<Rightarrow> (Inr (), g\<lparr>previous_cycle := None\<rparr>)
      | Some current \<Rightarrow>
          if previous_cycle g = Some current
          then (Inl (UnsupportedOperation
                  (lit ''repeated identical tool-use cycle detected; refusing to continue after duplicate tool calls: '' @
                   join (lit '', '') (tool_calls current))), g)
          else (Inr (), g\<lparr>previous_cycle := Some current\<rparr>))"

section \<open>When a turn is refused\<close>

text \<open>A turn without the fields that the fingerprints leave out.\<close>

fun bare_call :: "turn_item \<Rightarrow> turn_item option" where
  "bare_call (TurnFunctionCall _ name ns arguments _) = Some (TurnFunctionCall None name ns arguments [])"
| "bare_call (TurnLocalShellCall _ _ _ action) = Some (TurnLocalShellCall None None [] action)"
| "bare_call (TurnCustomToolCall _ _ _ name ns input) = Some (TurnCustomToolCall None None [] name ns input)"
| "bare_call (TurnToolSearchCall _ _ _ execution arguments) = Some (TurnToolSearchCall None None None execution arguments)"
| "bare_call (TurnOtherItem _) = None"

fun bare_output :: "turn_response \<Rightarrow> turn_response option" where
  "bare_output (FunctionCallOutputResponse _ out) = Some (FunctionCallOutputResponse [] out)"
| "bare_output (CustomToolCallOutputResponse _ name out) = Some (CustomToolCallOutputResponse [] name out)"
| "bare_output (McpToolCallOutputResponse _ r) = Some (McpToolCallOutputResponse [] r)"
| "bare_output (ToolSearchOutputResponse _ status execution tools) = Some (ToolSearchOutputResponse [] status execution tools)"
| "bare_output (OtherResponse _) = None"

type_synonym tool_turn = "turn_item list \<times> turn_response list"

definition bare_turn :: "tool_turn \<Rightarrow> turn_item list \<times> turn_response list" where
  "bare_turn t = (List.map_filter bare_call (fst t), List.map_filter bare_output (snd t))"

definition uses_tools :: "tool_turn \<Rightarrow> bool" where
  "uses_tools t \<longleftrightarrow> fst (bare_turn t) \<noteq> [] \<and> snd (bare_turn t) \<noteq> []"

lemma option_string_inject [simp]: "option_string_to_json v = option_string_to_json v' \<longleftrightarrow> v = v'"
  by (metis string_json(1))

lemma map_filter_map_option: "List.map_filter (\<lambda>x. map_option h (f x)) xs = map h (List.map_filter f xs)"
  by (induction xs) (auto simp: map_filter_simps split: option.splits)

lemma map_filter_range: "y \<in> set (List.map_filter f xs) \<Longrightarrow> \<exists>x. f x = Some y"
  by (induction xs) (auto simp: map_filter_simps split: option.splits)

text \<open>The fingerprint of a call is that of the bare call, and tells bare calls apart.\<close>

lemma call_json_bare: "call_json c = map_option (\<lambda>b. the (call_json b)) (bare_call c)"
  by (cases c) simp_all

lemma call_json_inj: "inj_on (\<lambda>b. the (call_json b)) {b. \<exists>c. bare_call c = Some b}"
proof (rule inj_onI, clarify)
  fix a b c d
  assume "bare_call c = Some a" "bare_call d = Some b" "the (call_json a) = the (call_json b)"
  then show "a = b"
    by (cases c; cases d) (auto simp: lit_def)
qed

lemma output_json_bare: "output_json c = map_option (\<lambda>b. the (output_json b)) (bare_output c)"
  by (cases c) simp_all

lemma output_json_inj: "inj_on (\<lambda>b. the (output_json b)) {b. \<exists>c. bare_output c = Some b}"
proof (rule inj_onI, clarify)
  fix a b c d
  assume "bare_output c = Some a" "bare_output d = Some b" "the (output_json a) = the (output_json b)"
  then show "a = b"
    by (cases c; cases d) (auto simp: lit_def)
qed

lemma fingerprints_of_bare:
  "List.map_filter (tool_call_fingerprint to_text) items =
     map (\<lambda>b. to_text (the (call_json b))) (List.map_filter bare_call items)"
  "List.map_filter (tool_output_fingerprint to_text) responses =
     map (\<lambda>b. to_text (the (output_json b))) (List.map_filter bare_output responses)"
  unfolding tool_call_fingerprint_def tool_output_fingerprint_def
  by (subst call_json_bare, simp only: option.map_comp comp_def map_filter_map_option)
     (subst output_json_bare, simp only: option.map_comp comp_def map_filter_map_option)

lemma map_inj_on_iff:
  assumes "inj to_text" and "inj_on h A" and "set xs \<subseteq> A" and "set ys \<subseteq> A"
  shows "map (\<lambda>x. to_text (h x)) xs = map (\<lambda>x. to_text (h x)) ys \<longleftrightarrow> xs = ys"
proof -
  have "inj_on (to_text \<circ> h) (set xs \<union> set ys)"
    using assms by (intro comp_inj_on) (auto intro: inj_on_subset)
  then show ?thesis
    by (simp add: inj_on_map_eq_map comp_def)
qed

lemma from_turn_eq:
  "from_turn to_text items responses =
     (if uses_tools (items, responses)
      then Some \<lparr>tool_calls = map (\<lambda>b. to_text (the (call_json b))) (fst (bare_turn (items, responses))),
                tool_outputs = map (\<lambda>b. to_text (the (output_json b))) (snd (bare_turn (items, responses)))\<rparr>
      else None)"
  by (auto simp: from_turn_def uses_tools_def bare_turn_def fingerprints_of_bare Let_def map_filter_simps)

lemma from_turn_same:
  assumes "inj to_text" and "uses_tools t"
  shows "from_turn to_text (fst u) (snd u) = from_turn to_text (fst t) (snd t) \<longleftrightarrow> bare_turn u = bare_turn t"
proof -
  note calls = map_inj_on_iff [OF assms(1) call_json_inj, of "fst (bare_turn u)" "fst (bare_turn t)"]
  note outs = map_inj_on_iff [OF assms(1) output_json_inj, of "snd (bare_turn u)" "snd (bare_turn t)"]
  have "set (fst (bare_turn v)) \<subseteq> {b. \<exists>c. bare_call c = Some b}" "set (snd (bare_turn v)) \<subseteq> {b. \<exists>c. bare_output c = Some b}" for v
    by (auto simp: bare_turn_def dest: map_filter_range)
  then show ?thesis
    using calls outs assms(2) by (auto simp: from_turn_eq uses_tools_def prod_eq_iff)
qed

section \<open>Claims\<close>

text \<open>The results of the guard for the turns of a task, whether each one is refused.\<close>

fun guard_run :: "json_text \<Rightarrow> tool_turn list \<Rightarrow> tool_cycle_guard \<Rightarrow> bool list" where
  "guard_run to_text [] g = []"
| "guard_run to_text (t # ts) g =
     (let (r, g) = check_cycle to_text (fst t) (snd t) g in (case r of Inl _ \<Rightarrow> True | Inr _ \<Rightarrow> False) # guard_run to_text ts g)"

lemma check_keeps_fingerprint:
  "previous_cycle (snd (check_cycle to_text items responses g)) = from_turn to_text items responses"
  by (auto simp: check_cycle_def split: option.splits)

lemma check_refuses:
  "(\<exists>e. fst (check_cycle to_text items responses g) = Inl e) \<longleftrightarrow>
     from_turn to_text items responses \<noteq> None \<and> previous_cycle g = from_turn to_text items responses"
  by (auto simp: check_cycle_def split: option.splits)

lemma guard_run_nth:
  assumes "k < length ts"
  shows "guard_run to_text ts g ! k \<longleftrightarrow>
    from_turn to_text (fst (ts ! k)) (snd (ts ! k)) \<noteq> None \<and>
    (if k = 0 then previous_cycle g else from_turn to_text (fst (ts ! (k - 1))) (snd (ts ! (k - 1)))) =
      from_turn to_text (fst (ts ! k)) (snd (ts ! k))"
  using assms
proof (induction ts arbitrary: g k)
  case (Cons t ts)
  have first: "guard_run to_text (t # ts) g ! 0 \<longleftrightarrow> (\<exists>e. fst (check_cycle to_text (fst t) (snd t) g) = Inl e)"
    by (auto simp: split_beta split: sum.split)
  show ?case
  proof (cases k)
    case 0
    then show ?thesis
      using first by (simp add: check_refuses)
  next
    case (Suc j)
    then show ?thesis
      using Cons.IH [of j "snd (check_cycle to_text (fst t) (snd t) g)"] Cons.prems
      by (cases j) (simp_all add: split_beta check_keeps_fingerprint)
  qed
qed simp

text \<open>
  With a JSON writer that tells values apart, a turn is refused exactly when it calls tools and
  has outputs, and the turn right before it made the same calls with the same outputs in the same
  order, whatever the identifiers and statuses of the calls.
\<close>

theorem only_exact_repeats_refused:
  assumes "inj to_text" and "k < length ts"
  shows "guard_run to_text ts default_guard ! k \<longleftrightarrow>
    uses_tools (ts ! k) \<and> 0 < k \<and> bare_turn (ts ! (k - 1)) = bare_turn (ts ! k)"
proof (cases "uses_tools (ts ! k)")
  case True
  then have "from_turn to_text (fst (ts ! k)) (snd (ts ! k)) \<noteq> None"
    by (simp add: from_turn_eq uses_tools_def)
  then show ?thesis
    using guard_run_nth [OF assms(2), of to_text default_guard] from_turn_same [OF assms(1) True] True
    by (auto simp: default_guard_def)
next
  case False
  then have "from_turn to_text (fst (ts ! k)) (snd (ts ! k)) = None"
    by (simp add: from_turn_eq uses_tools_def)
  then show ?thesis
    using guard_run_nth [OF assms(2), of to_text default_guard] False by simp
qed

definition numbered :: json_text where
  "numbered j = [to_nat j]"

definition sample_tool_turn :: "string \<Rightarrow> tool_turn" where
  "sample_tool_turn call_id =
     ([TurnFunctionCall None (lit ''shell'') None (lit ''true'') (lit call_id)],
      [FunctionCallOutputResponse (lit call_id) (JString (lit ''ok''))])"

theorem only_exact_repeats_refused_witness:
  "guard_run numbered [sample_tool_turn ''call-1'', sample_tool_turn ''call-2''] default_guard ! 1"
proof -
  have "inj numbered"
    by (simp add: inj_on_def numbered_def)
  from only_exact_repeats_refused [OF this, of 1 "[sample_tool_turn ''call-1'', sample_tool_turn ''call-2'']"]
  show ?thesis
    by (simp add: sample_tool_turn_def uses_tools_def bare_turn_def map_filter_simps)
qed

end
