(* ===== verification/Parse_Command.thy ===== *)
theory Parse_Command
  imports Command_Safety
begin

text \<open>
  The summary of a command line, \<open>code-rs/core/src/parse_command.rs\<close>: what the user is shown of a
  command, and what the dry-run guard looks at. A script is split into its simple commands, small
  formatting helpers are dropped, each command is classified and the list is simplified.

  The two directions of the \<open>shlex\<close> crate and the tree-sitter parser are parameters;
  \<open>is_valid_sed_n_arg\<close> is the same code as in theory \<open>Command_Safety\<close>.
\<close>

section \<open>Definitions\<close>

datatype parsed_command =
    Read (pc_cmd: rstr) (pc_name: rstr)
  | ListFiles (pc_cmd: rstr) (pc_path: "rstr option")
  | Search (pc_cmd: rstr) (pc_query: "rstr option") (pc_path: "rstr option")
  | ReadCommand (pc_cmd: rstr)
  | Unknown (pc_cmd: rstr)

record parse_lib = shell_lib +
  shlex_try_join :: "rstr list \<Rightarrow> rstr option"

definition shlex_join :: "parse_lib \<Rightarrow> rstr list \<Rightarrow> rstr" where
  "shlex_join lib tokens =
     (case shlex_try_join lib tokens of Some s \<Rightarrow> s | None \<Rightarrow> lit ''<command included NUL byte>'')"

definition simple_space_join :: "rstr list \<Rightarrow> rstr option" where
  "simple_space_join tokens =
     (if list_ex (list_ex is_whitespace) tokens then None else Some (join (lit '' '') tokens))"

subsection \<open>Tokens\<close>

definition connectors :: "rstr list" where
  "connectors = map lit [''&&'', ''||'', ''|'', '';'']"

definition normalize_tokens :: "parse_lib \<Rightarrow> rstr list \<Rightarrow> rstr list" where
  "normalize_tokens lib cmd =
     (case cmd of
        first # second # rest \<Rightarrow>
          (if (first = lit ''yes'' \<or> first = lit ''y'') \<and> second = lit ''|'' then rest
           else if (first = lit ''no'' \<or> first = lit ''n'') \<and> second = lit ''|'' then rest
           else (case rest of
                   [script] \<Rightarrow>
                     (if is_shell_like_executable first \<and> (second = lit ''-c'' \<or> second = lit ''-lc'')
                      then (case shlex_split lib script of
                              Some tokens \<Rightarrow> tokens
                            | None \<Rightarrow> [lit ''bash'', second, script])
                      else cmd)
                 | _ \<Rightarrow> cmd))
      | _ \<Rightarrow> cmd)"

definition contains_connectors :: "rstr list \<Rightarrow> bool" where
  "contains_connectors tokens \<longleftrightarrow> list_ex (\<lambda>t. t \<in> set connectors) tokens"

fun split_on_connectors :: "rstr list \<Rightarrow> rstr list \<Rightarrow> rstr list list" where
  "split_on_connectors cur [] = (if cur = [] then [] else [cur])"
| "split_on_connectors cur (t # ts) =
     (if t \<in> set connectors
      then (if cur = [] then split_on_connectors [] ts else cur # split_on_connectors [] ts)
      else split_on_connectors (cur @ [t]) ts)"

definition trim_at_connector :: "rstr list \<Rightarrow> rstr list" where
  "trim_at_connector tokens =
     take (case position (\<lambda>t. t \<in> set connectors) tokens of Some idx \<Rightarrow> idx | None \<Rightarrow> length tokens) tokens"

definition short_display_path :: "rstr \<Rightarrow> rstr" where
  "short_display_path path =
     (let normalized = map (\<lambda>c. if c = 92 then 47 else c) path;
          trimmed = trim_end_matches (\<lambda>c. c = 47) normalized;
          parts = filter (\<lambda>p. p \<noteq> [] \<and> p \<notin> set (map lit [''build'', ''dist'', ''node_modules'', ''src'']))
                    (rev (split_on 47 trimmed))
      in case parts of p # _ \<Rightarrow> p | [] \<Rightarrow> trimmed)"

fun skip_flag_values :: "rstr list \<Rightarrow> rstr list \<Rightarrow> rstr list" where
  "skip_flag_values flags [] = []"
| "skip_flag_values flags (a # args) =
     (if a = lit ''--'' then args
      else if starts_with a (lit ''--'') \<and> 61 \<in> set a then skip_flag_values flags args
      else if a \<in> set flags then (case args of [] \<Rightarrow> [] | _ # rest \<Rightarrow> skip_flag_values flags rest)
      else a # skip_flag_values flags args)"

definition is_pathish :: "rstr \<Rightarrow> bool" where
  "is_pathish s \<longleftrightarrow>
     s = lit ''.'' \<or> s = lit ''..'' \<or> starts_with s (lit ''./'') \<or> starts_with s (lit ''../'') \<or>
     47 \<in> set s \<or> 92 \<in> set s"

abbreviation is_flag :: "rstr \<Rightarrow> bool" where
  "is_flag s \<equiv> starts_with s [45]"

subsection \<open>Queries and paths of search commands\<close>

definition parse_fd_query_and_path :: "rstr list \<Rightarrow> rstr option \<times> rstr option" where
  "parse_fd_query_and_path tail =
     (let candidates = skip_flag_values (map lit [''-t'', ''--type'', ''-e'', ''--extension'', ''-E'',
                         ''--exclude'', ''--search-path'']) (trim_at_connector tail);
          non_flags = filter (\<lambda>p. \<not> is_flag p) candidates
      in case non_flags of
           [] \<Rightarrow> (None, None)
         | [one] \<Rightarrow> if is_pathish one then (None, Some (short_display_path one)) else (Some one, None)
         | q # p # _ \<Rightarrow> (Some q, Some (short_display_path p)))"

fun find_query :: "rstr list \<Rightarrow> rstr option" where
  "find_query [] = None"
| "find_query (a # args) =
     (if a \<in> set (map lit [''-name'', ''-iname'', ''-path'', ''-regex''])
      then (case args of [] \<Rightarrow> None | v # _ \<Rightarrow> Some v)
      else find_query args)"

definition parse_find_query_and_path :: "rstr list \<Rightarrow> rstr option \<times> rstr option" where
  "parse_find_query_and_path tail =
     (let args = trim_at_connector tail;
          path = map_option short_display_path
                   (find (\<lambda>a. \<not> is_flag a \<and> a \<notin> set (map lit [''!'', ''('', '')''])) args)
      in (find_query args, path))"

fun jq_operands :: "rstr option \<Rightarrow> rstr option \<Rightarrow> rstr list \<Rightarrow> rstr option \<times> rstr option" where
  "jq_operands query path [] = (query, path)"
| "jq_operands query path (a # args) =
     (if query = None then jq_operands (Some a) path args
      else if path = None then (query, Some a)
      else jq_operands query path args)"

definition jq_flag_values :: "rstr \<Rightarrow> nat" where
  "jq_flag_values flag =
     (if flag \<in> set (map lit [''-f'', ''--from-file'', ''-L'', ''--module-path'', ''--indent'']) then 1
      else if flag \<in> set (map lit [''--arg'', ''--argjson'', ''--argfile'', ''--rawfile'', ''--slurpfile'']) then 2
      else 0)"

function jq_loop :: "rstr option \<Rightarrow> rstr option \<Rightarrow> rstr list \<Rightarrow> rstr option \<times> rstr option" where
  "jq_loop query path [] = (query, path)"
| "jq_loop query path (a # args) =
     (if a = lit ''--'' then jq_operands query path args
      else if is_flag a then jq_loop query path (drop (jq_flag_values a) args)
      else if query = None then jq_loop (Some a) path args
      else if path = None then (query, Some a)
      else jq_loop query path args)"
  by pat_completeness auto
termination
  by (relation "measure (\<lambda>(q, p, args). length args)") auto

definition parse_jq_filter_and_path :: "rstr list \<Rightarrow> rstr option \<times> rstr option" where
  "parse_jq_filter_and_path args = jq_loop None None args"

definition git_grep_flag_consumes_value :: "rstr \<Rightarrow> bool" where
  "git_grep_flag_consumes_value flag \<longleftrightarrow>
     flag \<in> set (map lit [''-e'', ''-f'', ''-g'', ''-O'', ''-A'', ''-B'', ''-C'', ''--before-context'',
       ''--after-context'', ''--context'', ''--max-depth'', ''--threads''])"

function git_grep_loop :: "rstr option \<Rightarrow> rstr option \<Rightarrow> bool \<Rightarrow> rstr list \<Rightarrow> rstr option \<times> rstr option" where
  "git_grep_loop query path after_double_dash [] = (query, path)"
| "git_grep_loop query path after_double_dash (a # args) =
     (if after_double_dash
      then git_grep_loop query (if path = None \<and> a \<noteq> [] then Some (short_display_path a) else path) True args
      else if a = lit ''--'' then git_grep_loop query path True args
      else if a = lit ''-e''
      then git_grep_loop (if args \<noteq> [] \<and> query = None then Some (hd args) else query) path False (drop 1 args)
      else if a = lit ''-f'' then git_grep_loop query path False (drop 1 args)
      else if is_flag a
      then (if git_grep_flag_consumes_value a then git_grep_loop query path False (drop 1 args)
            else git_grep_loop query path False args)
      else if query = None then git_grep_loop (Some a) path False args
      else git_grep_loop query (if path = None then Some (short_display_path a) else path) False args)"
  by pat_completeness auto
termination
  by (relation "measure (\<lambda>(q, p, d, args). length args)") auto

definition parse_git_grep_query_and_path :: "rstr list \<Rightarrow> rstr option \<times> rstr option" where
  "parse_git_grep_query_and_path args = git_grep_loop None None False args"

subsection \<open>Git commands that only read\<close>

definition git_flag_consumes_value :: "rstr \<Rightarrow> bool" where
  "git_flag_consumes_value flag \<longleftrightarrow>
     flag \<in> set (map lit [''-C'', ''-c'', ''--git-dir'', ''--work-tree'', ''--namespace'', ''--super-prefix'',
       ''--config'', ''--config-env''])"

function git_subcommand_from :: "nat \<Rightarrow> rstr list \<Rightarrow> nat option" where
  "git_subcommand_from i [] = None"
| "git_subcommand_from i (token # args) =
     (if token = lit ''--'' then (if args \<noteq> [] then Some (i + 1) else None)
      else if is_flag token
      then (if git_flag_consumes_value token \<and> args \<noteq> [] then git_subcommand_from (i + 2) (drop 1 args)
            else git_subcommand_from (i + 1) args)
      else Some i)"
  by pat_completeness auto
termination
  by (relation "measure (\<lambda>(i, args). length args)") auto

definition git_subcommand_index :: "rstr list \<Rightarrow> nat option" where
  "git_subcommand_index args = git_subcommand_from 0 args"

definition MUTATING_LONG_FLAGS :: "rstr list" where
  "MUTATING_LONG_FLAGS = map lit [''--delete'', ''--move'', ''--copy'', ''--create-reflog'', ''--force'',
     ''--set-upstream-to'', ''--set-upstream'', ''--unset-upstream'', ''--track'', ''--edit-description'']"

definition SAFE_VALUE_FLAGS :: "rstr list" where
  "SAFE_VALUE_FLAGS = map lit [''--contains'', ''--merged'', ''--no-merged'', ''--points-at'', ''--format'',
     ''--sort'', ''--color'', ''--column'']"

definition SAFE_SHORT_FLAGS :: rstr where
  "SAFE_SHORT_FLAGS = lit ''arvql''"

definition MUTATING_SHORT_FLAGS :: rstr where
  "MUTATING_SHORT_FLAGS = lit ''dDmMcCfFbBtu''"

text \<open>The letters of a short option; \<open>None\<close> is the early return of \<open>false\<close>.\<close>

fun branch_short_flags :: "bool \<Rightarrow> rstr \<Rightarrow> bool option" where
  "branch_short_flags allow_patterns [] = Some allow_patterns"
| "branch_short_flags allow_patterns (ch # chars) =
     (if ch \<in> set MUTATING_SHORT_FLAGS then None
      else if ch \<notin> set SAFE_SHORT_FLAGS then None
      else branch_short_flags (ch = 108 \<or> allow_patterns) chars)"

fun branch_args_read_only :: "bool \<Rightarrow> bool \<Rightarrow> rstr list \<Rightarrow> bool" where
  "branch_args_read_only expect_value allow_patterns [] = True"
| "branch_args_read_only expect_value allow_patterns (arg # args) =
     (if expect_value then branch_args_read_only False allow_patterns args
      else case strip_prefix arg (lit ''--'') of
        Some stripped \<Rightarrow>
          (let (flag, has_value) =
             (case split_once 61 stripped of
                Some (head, _) \<Rightarrow> (lit ''--'' @ head, True)
              | None \<Rightarrow> (lit ''--'' @ stripped, False))
           in if flag \<in> set MUTATING_LONG_FLAGS then False
              else if flag \<in> set SAFE_VALUE_FLAGS
              then branch_args_read_only (\<not> has_value) allow_patterns args
              else if flag = lit ''--list'' then branch_args_read_only False True args
              else branch_args_read_only False allow_patterns args)
      | None \<Rightarrow>
          (if is_flag arg
           then (case branch_short_flags allow_patterns (drop 1 arg) of
                   None \<Rightarrow> False
                 | Some allow \<Rightarrow> branch_args_read_only False allow args)
           else if allow_patterns then branch_args_read_only False allow_patterns args
           else False))"

definition git_branch_is_read_only :: "rstr list \<Rightarrow> bool" where
  "git_branch_is_read_only args \<longleftrightarrow> args = [] \<or> branch_args_read_only False False args"

definition git_command_is_read_only :: "rstr \<Rightarrow> rstr list \<Rightarrow> bool" where
  "git_command_is_read_only subcmd args \<longleftrightarrow>
     (if subcmd = lit ''status'' then True
      else if subcmd = lit ''diff''
      then list_all (\<lambda>arg. \<not> (arg = lit ''-o'' \<or> arg = lit ''--output'' \<or> starts_with arg (lit ''--output=''))) args
      else if subcmd = lit ''log'' \<or> subcmd = lit ''show'' then True
      else if subcmd = lit ''branch'' then git_branch_is_read_only args
      else subcmd \<in> set (map lit [''rev-parse'', ''rev-list'', ''describe'', ''ls-files'', ''ls-tree'']))"

subsection \<open>Classifying one command\<close>

definition all_digits :: "rstr \<Rightarrow> bool" where
  "all_digits s \<longleftrightarrow> list_all is_ascii_digit s"

definition plus_digits :: "rstr \<Rightarrow> bool" where
  "plus_digits n \<longleftrightarrow>
     (let s = (case strip_prefix n (lit ''+'') of Some r \<Rightarrow> r | None \<Rightarrow> n) in s \<noteq> [] \<and> list_all is_ascii_digit s)"

text \<open>
  The arms for \<open>head\<close> and \<open>tail\<close> differ in the numbers they accept after \<open>-n\<close>, which is the test
  \<open>number\<close>.
\<close>

definition has_valid_n :: "(rstr \<Rightarrow> bool) \<Rightarrow> rstr list \<Rightarrow> bool" where
  "has_valid_n number tail =
     (case tail of
        [] \<Rightarrow> False
      | first # rest \<Rightarrow>
          (if first = lit ''-n'' then (case rest of [] \<Rightarrow> False | n # _ \<Rightarrow> number n)
           else if starts_with first (lit ''-n'') then number (drop 2 first) else False))"

definition operands_after_n :: "(rstr \<Rightarrow> bool) \<Rightarrow> rstr list \<Rightarrow> rstr list" where
  "operands_after_n number tail =
     (case tail of a # n # rest \<Rightarrow> if a = lit ''-n'' \<and> number n then rest else tail | _ \<Rightarrow> tail)"

definition summarize_lines :: "parse_lib \<Rightarrow> (rstr \<Rightarrow> bool) \<Rightarrow> rstr list \<Rightarrow> rstr list \<Rightarrow> parsed_command" where
  "summarize_lines lib number main_cmd tail =
     (if has_valid_n number tail
      then (case find (\<lambda>p. \<not> is_flag p) (operands_after_n number tail) of
              Some p \<Rightarrow> Read (shlex_join lib main_cmd) (short_display_path p)
            | None \<Rightarrow> Unknown (shlex_join lib main_cmd))
      else Unknown (shlex_join lib main_cmd))"

definition summarize_git :: "parse_lib \<Rightarrow> rstr list \<Rightarrow> rstr list \<Rightarrow> parsed_command" where
  "summarize_git lib main_cmd tail =
     (let cmd = (if get_arg 1 main_cmd = Some (lit ''branch'')
                 then (case simple_space_join main_cmd of Some s \<Rightarrow> s | None \<Rightarrow> shlex_join lib main_cmd)
                 else shlex_join lib main_cmd)
      in case git_subcommand_index tail of
           None \<Rightarrow> Unknown cmd
         | Some idx \<Rightarrow>
             (let sub = tail ! idx; rest = drop (idx + 1) tail
              in if sub = lit ''grep''
                 then (let (query, path) = parse_git_grep_query_and_path rest in Search cmd query path)
                 else if git_command_is_read_only sub rest then ReadCommand cmd
                 else Unknown cmd))"

definition summarize_main_tokens :: "parse_lib \<Rightarrow> rstr list \<Rightarrow> parsed_command" where
  "summarize_main_tokens lib main_cmd =
     (let cmd = shlex_join lib main_cmd
      in case main_cmd of
        [] \<Rightarrow> Unknown cmd
      | head # tail \<Rightarrow>
          (if head = lit ''ls''
           then ListFiles cmd
                  (map_option short_display_path
                     (find (\<lambda>p. \<not> is_flag p)
                        (skip_flag_values (map lit [''-I'', ''-w'', ''--block-size'', ''--format'',
                           ''--time-style'', ''--color'', ''--quoting-style'']) tail)))
           else if head = lit ''git'' then summarize_git lib main_cmd tail
           else if head = lit ''rg''
           then (let args = trim_at_connector tail;
                     non_flags = filter (\<lambda>p. \<not> is_flag p) args
                 in if lit ''--files'' \<in> set args
                    then Search cmd None (map_option short_display_path (get_arg 0 non_flags))
                    else Search cmd (get_arg 0 non_flags) (map_option short_display_path (get_arg 1 non_flags)))
           else if head = lit ''fd''
           then (let (query, path) = parse_fd_query_and_path tail in Search cmd query path)
           else if head = lit ''find''
           then (let (query, path) = parse_find_query_and_path tail in Search cmd query path)
           else if head = lit ''grep''
           then (let non_flags = filter (\<lambda>p. \<not> is_flag p) (trim_at_connector tail)
                 in Search cmd (get_arg 0 non_flags) (map_option short_display_path (get_arg 1 non_flags)))
           else if head = lit ''jq''
           then (let (query, path) = parse_jq_filter_and_path (trim_at_connector tail) in Search cmd query path)
           else if head = lit ''cat''
           then (case (if get_arg 0 tail = Some (lit ''--'') then drop 1 tail else tail) of
                   [p] \<Rightarrow> Read cmd (short_display_path p)
                 | _ \<Rightarrow> Unknown cmd)
           else if head = lit ''head'' then summarize_lines lib all_digits main_cmd tail
           else if head = lit ''tail'' then summarize_lines lib plus_digits main_cmd tail
           else if head = lit ''nl''
           then (case find (\<lambda>p. \<not> is_flag p)
                        (skip_flag_values (map lit [''-s'', ''-w'', ''-v'', ''-i'', ''-b'']) tail) of
                   Some p \<Rightarrow> Read cmd (short_display_path p)
                 | None \<Rightarrow> Unknown cmd)
           else if head = lit ''sed'' \<and> 3 \<le> length tail \<and> tail ! 0 = lit ''-n'' \<and>
                   is_valid_sed_n_arg (get_arg 1 tail)
           then Read cmd (short_display_path (tail ! 2))
           else Unknown cmd))"

subsection \<open>Simplifying a list of commands\<close>

fun unknown_with :: "(rstr \<Rightarrow> bool) \<Rightarrow> parsed_command \<Rightarrow> bool" where
  "unknown_with P (Unknown cmd) = P cmd"
| "unknown_with P _ = False"

definition first_word_is :: "parse_lib \<Rightarrow> string \<Rightarrow> rstr \<Rightarrow> bool" where
  "first_word_is lib w cmd =
     (case shlex_split lib cmd of Some (t # _) \<Rightarrow> t = lit w | _ \<Rightarrow> False)"

definition is_plain_nl :: "parse_lib \<Rightarrow> rstr \<Rightarrow> bool" where
  "is_plain_nl lib cmd =
     (case shlex_split lib cmd of
        Some (t # tokens) \<Rightarrow> t = lit ''nl'' \<and> list_all is_flag tokens
      | _ \<Rightarrow> False)"

definition without_nth :: "nat \<Rightarrow> 'a list \<Rightarrow> 'a list" where
  "without_nth idx xs = take idx xs @ drop (idx + 1) xs"

definition simplify_once :: "parse_lib \<Rightarrow> parsed_command list \<Rightarrow> parsed_command list option" where
  "simplify_once lib commands =
     (if length commands \<le> 1 then None
      else if unknown_with (first_word_is lib ''echo'') (hd commands) then Some (drop 1 commands)
      else
       (let drop_true_or_nl =
          (case position (unknown_with (\<lambda>cmd. cmd = lit ''true'')) commands of
             Some idx \<Rightarrow> Some (without_nth idx commands)
           | None \<Rightarrow>
               (case position (unknown_with (is_plain_nl lib)) commands of
                  Some idx \<Rightarrow> Some (without_nth idx commands)
                | None \<Rightarrow> None))
        in case position (unknown_with (first_word_is lib ''cd'')) commands of
             Some idx \<Rightarrow>
               (if idx + 1 < length commands then Some (without_nth idx commands) else drop_true_or_nl)
           | None \<Rightarrow> drop_true_or_nl))"

lemma position_less: "position P xs = Some i \<Longrightarrow> i < length xs"
  using position_Some by blast

lemma without_nth_length: "idx < length xs \<Longrightarrow> length (without_nth idx xs) < length xs"
  by (simp add: without_nth_def)

lemma simplify_once_shorter: "simplify_once lib commands = Some next \<Longrightarrow> length next < length commands"
  by (auto simp: simplify_once_def Let_def without_nth_length position_less split: if_splits option.splits)

function simplify :: "parse_lib \<Rightarrow> parsed_command list \<Rightarrow> parsed_command list" where
  "simplify lib commands =
     (case simplify_once lib commands of Some next \<Rightarrow> simplify lib next | None \<Rightarrow> commands)"
  by pat_completeness auto
termination
  by (relation "measure (\<lambda>(lib, commands). length commands)") (auto dest: simplify_once_shorter)

declare simplify.simps [simp del]

lemma simplify_single: "simplify lib [pc] = [pc]"
  by (simp add: simplify.simps [of lib "[pc]"] simplify_once_def)

subsection \<open>Scripts\<close>

definition is_small_formatting_command :: "rstr list \<Rightarrow> bool" where
  "is_small_formatting_command tokens =
     (case tokens of
        [] \<Rightarrow> False
      | cmd # _ \<Rightarrow>
          (if cmd \<in> set (map lit [''wc'', ''tr'', ''cut'', ''sort'', ''uniq'', ''xargs'', ''tee'', ''column'',
                ''awk'', ''yes'', ''printf'']) then True
           else if cmd = lit ''head'' then length tokens < 3
           else if cmd = lit ''tail'' then length tokens < 3
           else if cmd = lit ''sed''
           then length tokens < 4 \<or> \<not> (tokens ! 1 = lit ''-n'' \<and> is_valid_sed_n_arg (get_arg 2 tokens))
           else False))"

definition drop_small_formatting_commands :: "rstr list list \<Rightarrow> rstr list list" where
  "drop_small_formatting_commands commands = filter (\<lambda>tokens. \<not> is_small_formatting_command tokens) commands"

definition fallback_shell_script_tokens :: "rstr \<Rightarrow> rstr option \<Rightarrow> rstr list" where
  "fallback_shell_script_tokens script shell_flag =
     (case shell_flag of Some flag \<Rightarrow> [lit ''bash'', flag, script] | None \<Rightarrow> [script])"

definition summarize_parts :: "parse_lib \<Rightarrow> rstr list \<Rightarrow> parsed_command list" where
  "summarize_parts lib normalized =
     simplify lib (map (summarize_main_tokens lib)
       (if contains_connectors normalized then split_on_connectors [] normalized else [normalized]))"

text \<open>A single command that is left is shown with the text of the whole script.\<close>

definition attribute_script :: "parse_lib \<Rightarrow> rstr \<Rightarrow> rstr list \<Rightarrow> bool \<Rightarrow> parsed_command \<Rightarrow> parsed_command" where
  "attribute_script lib script script_tokens had_connectors pc =
     (case pc of
        Read cmd name \<Rightarrow>
          (if had_connectors
           then (if lit ''|'' \<in> set script_tokens \<and>
                    list_ex (\<lambda>(a, b). a = lit ''sed'' \<and> b = lit ''-n'') (zip script_tokens (drop 1 script_tokens))
                 then Read script name else Read cmd name)
           else Read (shlex_join lib script_tokens) name)
      | ListFiles cmd path \<Rightarrow>
          (if had_connectors then ListFiles cmd path else ListFiles (shlex_join lib script_tokens) path)
      | Search cmd query path \<Rightarrow>
          (if had_connectors then Search cmd query path else Search (shlex_join lib script_tokens) query path)
      | other \<Rightarrow> other)"

definition parse_plain_script ::
    "parse_lib \<Rightarrow> rstr \<Rightarrow> rstr option \<Rightarrow> rstr list list \<Rightarrow> parsed_command list option" where
  "parse_plain_script lib script shell_flag all_commands =
     (if all_commands = [] then None
      else
       (let script_tokens = (case shlex_split lib script of
                               Some tokens \<Rightarrow> tokens
                             | None \<Rightarrow> fallback_shell_script_tokens script shell_flag);
            had_multiple_commands = 1 < length all_commands;
            filtered_commands = rev (drop_small_formatting_commands all_commands)
        in if filtered_commands = [] then None
           else
            (let commands = map (summarize_main_tokens lib) filtered_commands;
                 commands =
                   (if 1 < length commands
                    then simplify lib (filter (\<lambda>pc. \<not> unknown_with (\<lambda>cmd. cmd = lit ''true'') pc) commands)
                    else commands);
                 had_connectors = (had_multiple_commands \<or> contains_connectors script_tokens)
             in Some (if length commands = 1
                      then map (attribute_script lib script script_tokens had_connectors) commands
                      else commands))))"

definition parse_shell_script_text :: "parse_lib \<Rightarrow> rstr \<Rightarrow> rstr option \<Rightarrow> parsed_command list option" where
  "parse_shell_script_text lib script shell_flag =
     (case Option.bind (try_parse_bash lib script) try_parse_word_only_commands_sequence of
        Some all_commands \<Rightarrow> parse_plain_script lib script shell_flag all_commands
      | None \<Rightarrow>
          (let tokens = (case shlex_split lib script of Some ws \<Rightarrow> ws | None \<Rightarrow> [script])
           in Some (summarize_parts lib (normalize_tokens lib tokens))))"

definition parse_shell_script_commands :: "parse_lib \<Rightarrow> rstr list \<Rightarrow> parsed_command list option" where
  "parse_shell_script_commands lib original =
     (case original of
        [script] \<Rightarrow> parse_shell_script_text lib script None
      | _ \<Rightarrow>
          (let shell_flag =
             (case original of
                [bash, flag, _] \<Rightarrow>
                  (if is_shell_like_executable bash \<and> (flag = lit ''-lc'' \<or> flag = lit ''-c'')
                   then Some flag else None)
              | _ \<Rightarrow> None)
           in Option.bind (extract_shell_script original) (\<lambda>(_, script).
                parse_shell_script_text lib script shell_flag)))"

definition parse_command_impl :: "parse_lib \<Rightarrow> rstr list \<Rightarrow> parsed_command list" where
  "parse_command_impl lib command =
     (case parse_shell_script_commands lib command of
        Some commands \<Rightarrow> commands
      | None \<Rightarrow> summarize_parts lib (normalize_tokens lib command))"

fun push_unless_repeated :: "parsed_command list \<Rightarrow> parsed_command list \<Rightarrow> parsed_command list" where
  "push_unless_repeated deduped [] = deduped"
| "push_unless_repeated deduped (cmd # parsed) =
     (if deduped \<noteq> [] \<and> last deduped = cmd then push_unless_repeated deduped parsed
      else push_unless_repeated (deduped @ [cmd]) parsed)"

definition parse_command :: "parse_lib \<Rightarrow> rstr list \<Rightarrow> parsed_command list" where
  "parse_command lib command = push_unless_repeated [] (parse_command_impl lib command)"

section \<open>Simplification\<close>

text \<open>The commands that a summary leaves out in front of others.\<close>

definition removable :: "parse_lib \<Rightarrow> parsed_command \<Rightarrow> bool" where
  "removable lib pc \<longleftrightarrow>
     unknown_with (\<lambda>cmd. first_word_is lib ''echo'' cmd \<or> first_word_is lib ''cd'' cmd \<or>
                          cmd = lit ''true'' \<or> is_plain_nl lib cmd) pc"

lemma unknown_with_removable:
  assumes "\<not> removable lib pc"
  shows "\<not> unknown_with (first_word_is lib ''echo'') pc" "\<not> unknown_with (first_word_is lib ''cd'') pc"
    "\<not> unknown_with (\<lambda>cmd. cmd = lit ''true'') pc" "\<not> unknown_with (is_plain_nl lib) pc"
  using assms by (cases pc; simp add: removable_def)+

lemma without_nth_Cons_Suc: "without_nth (Suc i) (x # xs) = x # without_nth i xs"
  by (simp add: without_nth_def)

lemma without_later_keeps_head:
  "\<not> P pc \<Longrightarrow> position P (pc # rest) = Some idx \<Longrightarrow> \<exists>rest'. without_nth idx (pc # rest) = pc # rest'"
  by (auto simp: without_nth_Cons_Suc)

lemma simplify_once_keeps_head:
  assumes "\<not> removable lib pc" "simplify_once lib (pc # rest) = Some next"
  obtains rest' where "next = pc # rest'"
proof -
  note kept = without_later_keeps_head [of "unknown_with (first_word_is lib ''cd'')" pc rest, OF unknown_with_removable(2) [OF assms(1)]]
    without_later_keeps_head [of "unknown_with (\<lambda>cmd. cmd = lit ''true'')" pc rest, OF unknown_with_removable(3) [OF assms(1)]]
    without_later_keeps_head [of "unknown_with (is_plain_nl lib)" pc rest, OF unknown_with_removable(4) [OF assms(1)]]
  have "\<exists>idx. next = without_nth idx (pc # rest) \<and>
      (position (unknown_with (first_word_is lib ''cd'')) (pc # rest) = Some idx \<or>
       position (unknown_with (\<lambda>cmd. cmd = lit ''true'')) (pc # rest) = Some idx \<or>
       position (unknown_with (is_plain_nl lib)) (pc # rest) = Some idx)"
    using assms(2) unknown_with_removable(1) [OF assms(1)]
    by (auto simp: simplify_once_def Let_def simp del: position.simps split: if_splits option.splits)
  then show thesis
    using that kept by (auto simp del: position.simps)
qed

lemma simplify_keeps_head:
  assumes "\<not> removable lib pc"
  obtains rest' where "simplify lib (pc # rest) = pc # rest'"
proof -
  have "\<exists>rest'. simplify lib (pc # rest) = pc # rest'"
    using assms
  proof (induction "length rest" arbitrary: rest rule: less_induct)
    case less
    show ?case
    proof (cases "simplify_once lib (pc # rest)")
      case None
      then show ?thesis
        by (subst simplify.simps) simp
    next
      case (Some "next")
      obtain rest' where n: "next = pc # rest'"
        using simplify_once_keeps_head [OF less.prems Some] .
      then have "length rest' < length rest"
        using simplify_once_shorter [OF Some] by simp
      from less.hyps [OF this less.prems] show ?thesis
        by (subst simplify.simps) (simp add: Some n)
    qed
  qed
  then show thesis
    using that by blast
qed

lemma simplify_normal: "simplify_once lib (simplify lib commands) = None"
proof (induction lib commands rule: simplify.induct)
  case (1 lib commands)
  then show ?case
    by (cases "simplify_once lib commands") (simp_all add: simplify.simps [of lib commands])
qed

lemma without_nth_subseq: "subseq (without_nth idx xs) xs"
proof -
  have "subseq (take idx xs @ drop (idx + 1) xs) (take idx xs @ drop idx xs)"
    by (intro list_emb_append_mono subseq_order.refl) (metis drop_drop suffix_drop suffix_imp_subseq add.commute)
  then show ?thesis
    by (simp add: without_nth_def)
qed

lemma simplify_subseq: "subseq (simplify lib commands) commands"
proof (induction lib commands rule: simplify.induct)
  case (1 lib commands)
  show ?case
  proof (cases "simplify_once lib commands")
    case None
    then show ?thesis
      by (simp add: simplify.simps [of lib commands])
  next
    case (Some "next")
    have "subseq next commands"
      using Some
      by (auto simp: simplify_once_def Let_def without_nth_subseq suffix_drop suffix_imp_subseq split: if_splits option.splits)
    with 1 [OF Some] have "subseq (simplify lib next) commands"
      by (rule subseq_order.trans)
    then show ?thesis
      by (simp add: simplify.simps [of lib commands] Some)
  qed
qed

section \<open>The first command of a summary\<close>

text \<open>
  A script that consists of plain commands is summarised from its last command on: the commands are
  in the order of the source when they are reversed.
\<close>

lemma parse_plain_script_first:
  assumes "\<not> is_small_formatting_command c" "summarize_main_tokens lib c = Unknown cmd"
    "\<not> removable lib (Unknown cmd)"
  obtains rest where "parse_plain_script lib script flag (cs @ [c]) = Some (Unknown cmd # rest)"
proof -
  define others where "others = map (summarize_main_tokens lib) (rev (drop_small_formatting_commands cs))"
  let ?kept = "filter (\<lambda>pc. \<not> unknown_with (\<lambda>cmd. cmd = lit ''true'') pc) others"
  have cmds: "map (summarize_main_tokens lib) (rev (drop_small_formatting_commands (cs @ [c]))) = Unknown cmd # others"
    using assms(1,2) by (simp add: drop_small_formatting_commands_def others_def)
  have nonempty: "rev (drop_small_formatting_commands (cs @ [c])) \<noteq> []"
    using assms(1) by (simp add: drop_small_formatting_commands_def)
  have not_true: "\<not> unknown_with (\<lambda>cmd. cmd = lit ''true'') (Unknown cmd)"
    using unknown_with_removable(3) [OF assms(3)] .
  obtain rest' where simp': "simplify lib (Unknown cmd # ?kept) = Unknown cmd # rest'"
    using simplify_keeps_head [OF assms(3)] .
  have attr: "attribute_script lib script toks had (Unknown cmd) = Unknown cmd" for toks had
    by (simp add: attribute_script_def)
  have "\<exists>rest. parse_plain_script lib script flag (cs @ [c]) = Some (Unknown cmd # rest)"
  proof (cases "others = []")
    case True
    then show ?thesis
      using nonempty by (simp add: parse_plain_script_def Let_def cmds attr)
  next
    case False
    then show ?thesis
      using nonempty not_true simp' by (auto simp: parse_plain_script_def Let_def cmds attr simp del: unknown_with.simps)
  qed
  then show thesis
    using that by blast
qed

definition plain_script :: "parse_lib \<Rightarrow> rstr \<Rightarrow> rstr list list \<Rightarrow> bool" where
  "plain_script lib script commands \<longleftrightarrow>
     Option.bind (try_parse_bash lib script) try_parse_word_only_commands_sequence = Some commands"

lemma plain_script_first:
  assumes script: "extract_shell_script argv = Some (i, script)" "plain_script lib script (cs @ [c])"
    and "\<not> is_small_formatting_command c" "summarize_main_tokens lib c = Unknown cmd"
    "\<not> removable lib (Unknown cmd)"
  obtains rest where "parse_command_impl lib argv = Unknown cmd # rest"
proof -
  have body: "parse_shell_script_text lib script flag = parse_plain_script lib script flag (cs @ [c])" for flag
    using script(2) by (simp add: parse_shell_script_text_def plain_script_def)
  obtain flag where flag: "parse_shell_script_commands lib argv = parse_shell_script_text lib script flag"
    using script(1)
    by (cases argv rule: list.exhaust [case_product list.exhaust])
      (auto simp: parse_shell_script_commands_def extract_shell_script_def Let_def split: list.splits if_splits)
  obtain rest where "parse_plain_script lib script flag (cs @ [c]) = Some (Unknown cmd # rest)"
    using parse_plain_script_first [OF assms(3-5)] .
  then show thesis
    using that by (simp add: parse_command_impl_def flag body)
qed

lemma parse_command_remdups: "parse_command lib command = remdups_adj (parse_command_impl lib command)"
proof -
  have "push_unless_repeated ds ps = (if ds = [] then remdups_adj ps else butlast ds @ remdups_adj (last ds # ps))" for ds ps
    by (induction ds ps rule: push_unless_repeated.induct)
      (auto simp: butlast_append)
  then show ?thesis
    by (simp add: parse_command_def)
qed

end
