(* ===== verification/Dry_Run_Guard.thy ===== *)
theory Dry_Run_Guard
  imports Parse_Command
begin

text \<open>
  The dry-run guard, \<open>code-rs/core/src/dry_run_guard.rs\<close>: which commands rewrite source files
  (formatters and automatic fixes), whether an invocation is a dry run, the record of what ran before,
  and the dry run that is suggested instead.

  The order of a \<open>HashMap\<close> does not matter here: the two tables are maps from keys to sequence numbers.
\<close>

section \<open>Definitions\<close>

datatype package_manager = Npm | Pnpm | Yarn

datatype dry_run_guard_key =
    CargoFmt | CargoFix | CargoClippyFix | Rustfmt
  | PackageLint package_manager | PackageFormat package_manager
  | EslintFix | PrettierWrite | Black | RuffFormat | Isort | Gofmt | Rustywind | DartFormat | SwiftFormat

fun manager_label :: "package_manager \<Rightarrow> rstr" where
  "manager_label Npm = lit ''npm''"
| "manager_label Pnpm = lit ''pnpm''"
| "manager_label Yarn = lit ''yarn''"

datatype dry_run_disposition = DryRun | Mutating

record dry_run_analysis =
  da_key :: dry_run_guard_key
  da_disposition :: dry_run_disposition
  da_tokens :: "rstr list"
  da_display_name :: rstr
  da_custom_suggested :: "rstr option"

record dry_run_guard_state =
  command_counter :: u64
  last_dry_run :: "dry_run_guard_key \<rightharpoonup> u64"
  last_mutating :: "dry_run_guard_key \<rightharpoonup> u64"

definition guard_state_default :: dry_run_guard_state where
  "guard_state_default = \<lparr>command_counter = 0, last_dry_run = Map.empty, last_mutating = Map.empty\<rparr>"

definition has_recent_dry_run :: "dry_run_guard_state \<Rightarrow> dry_run_guard_key \<Rightarrow> bool" where
  "has_recent_dry_run st key =
     (case last_dry_run st key of
        Some dry_seq \<Rightarrow>
          (let last_mut = (case last_mutating st key of Some n \<Rightarrow> n | None \<Rightarrow> 0) in last_mut < dry_seq)
      | None \<Rightarrow> False)"

definition note_execution :: "dry_run_analysis \<Rightarrow> dry_run_guard_state \<Rightarrow> dry_run_guard_state" where
  "note_execution analysis st =
     (let seq = saturating_add (command_counter st) 1;
          st = st\<lparr>command_counter := seq\<rparr>
      in case da_disposition analysis of
           DryRun \<Rightarrow> st\<lparr>last_dry_run := (last_dry_run st)(da_key analysis \<mapsto> seq)\<rparr>
         | Mutating \<Rightarrow> st\<lparr>last_mutating := (last_mutating st)(da_key analysis \<mapsto> seq)\<rparr>)"

subsection \<open>Which commands rewrite files\<close>

record internal_analysis =
  ia_key :: dry_run_guard_key
  ia_disposition :: dry_run_disposition
  ia_display_name :: rstr
  ia_suggested :: "rstr option"

definition analysis_of :: "dry_run_guard_key \<Rightarrow> bool \<Rightarrow> rstr \<Rightarrow> internal_analysis" where
  "analysis_of key is_dry display =
     \<lparr>ia_key = key, ia_disposition = (if is_dry then DryRun else Mutating), ia_display_name = display,
      ia_suggested = None\<rparr>"

definition command_basename :: "rstr \<Rightarrow> rstr" where
  "command_basename token =
     (let trimmed = trim_matches (\<lambda>c. c = 39) (trim_matches (\<lambda>c. c = 34) token)
      in to_ascii_lowercase (case file_name trimmed of Some n \<Rightarrow> n | None \<Rightarrow> trimmed))"

definition slice_contains_flag :: "rstr list \<Rightarrow> rstr \<Rightarrow> bool" where
  "slice_contains_flag args flag \<longleftrightarrow> list_ex (\<lambda>arg. eq_ignore_ascii_case arg flag) args"

definition analyze_cargo :: "rstr list \<Rightarrow> internal_analysis option" where
  "analyze_cargo tokens =
     (case tokens of
        [] \<Rightarrow> None
      | cargo # after \<Rightarrow>
          (if \<not> eq_ignore_ascii_case cargo (lit ''cargo'') then None
           else case dropWhile (\<lambda>t. starts_with t (lit ''+'')) after of
             [] \<Rightarrow> None
           | sub_token # args \<Rightarrow>
               (let sub = command_basename sub_token
                in if sub = lit ''fmt''
                   then Some (analysis_of CargoFmt (slice_contains_flag args (lit ''--check'')) (lit ''cargo fmt''))
                   else if sub = lit ''fix''
                   then Some (analysis_of CargoFix (slice_contains_flag args (lit ''--dry-run'')) (lit ''cargo fix''))
                   else if sub = lit ''clippy''
                   then (if \<not> slice_contains_flag args (lit ''--fix'') then None
                         else Some (analysis_of CargoClippyFix (slice_contains_flag args (lit ''--dry-run''))
                                      (lit ''cargo clippy --fix'')))
                   else None)))"

definition analyze_rustfmt :: "rstr list \<Rightarrow> internal_analysis option" where
  "analyze_rustfmt tokens =
     (case tokens of
        [] \<Rightarrow> None
      | rustfmt # args \<Rightarrow>
          (if \<not> eq_ignore_ascii_case rustfmt (lit ''rustfmt'') then None
           else Some (analysis_of Rustfmt (slice_contains_flag args (lit ''--check'')) (lit ''rustfmt''))))"

definition locate_npm_script :: "rstr list \<Rightarrow> (nat \<times> rstr) option" where
  "locate_npm_script tokens =
     (if length tokens < 2 then None
      else if eq_ignore_ascii_case (tokens ! 1) (lit ''run'')
      then map_option (Pair 2) (get_arg 2 tokens)
      else map_option (Pair 1) (get_arg 1 tokens))"

definition locate_simple_script :: "rstr list \<Rightarrow> (nat \<times> rstr) option" where
  "locate_simple_script tokens = map_option (Pair 1) (get_arg 1 tokens)"

fun locate_package_script :: "rstr list \<Rightarrow> package_manager \<Rightarrow> (nat \<times> rstr) option" where
  "locate_package_script tokens Npm = locate_npm_script tokens"
| "locate_package_script tokens Pnpm = locate_simple_script tokens"
| "locate_package_script tokens Yarn = locate_simple_script tokens"

fun skip_leading_flags :: "rstr list \<Rightarrow> rstr list" where
  "skip_leading_flags [] = []"
| "skip_leading_flags (token # tokens) =
     (if token = lit ''--'' then tokens
      else if is_flag token then skip_leading_flags tokens
      else token # tokens)"

lemma skip_leading_flags_length: "length (skip_leading_flags tokens) \<le> length tokens"
  by (induction tokens) auto

function peel_exec_wrappers :: "rstr list \<Rightarrow> rstr list" where
  "peel_exec_wrappers [] = []"
| "peel_exec_wrappers (token # tokens) =
     (let base = command_basename token
      in if base = lit ''npx'' \<or> base = lit ''bunx'' then peel_exec_wrappers (skip_leading_flags tokens)
         else if base = lit ''pnpm''
         then (if tokens \<noteq> [] \<and> (hd tokens = lit ''exec'' \<or> hd tokens = lit ''dlx'')
               then peel_exec_wrappers (skip_leading_flags (drop 1 tokens)) else token # tokens)
         else if base = lit ''yarn''
         then (if tokens \<noteq> [] \<and> (let second = command_basename (hd tokens)
                                   in second = lit ''exec'' \<or> second = lit ''dlx'')
               then peel_exec_wrappers (skip_leading_flags (drop 1 tokens)) else token # tokens)
         else token # tokens)"
  by pat_completeness auto
termination
proof (relation "measure length", goal_cases)
  case (2 token tokens x)
  then show ?case
    using skip_leading_flags_length [of tokens] by simp
next
  case (3 token tokens x)
  then show ?case
    using skip_leading_flags_length [of "drop 1 tokens"] by simp
next
  case (4 token tokens x)
  then show ?case
    using skip_leading_flags_length [of "drop 1 tokens"] by simp
qed simp

definition direct_analysis :: "rstr list \<Rightarrow> internal_analysis option" where
  "direct_analysis actual =
     (case actual of
        [] \<Rightarrow> None
      | command # args \<Rightarrow>
          (let base = command_basename command;
               any_of = (\<lambda>flags. list_ex (\<lambda>t. list_ex (\<lambda>f. eq_ignore_ascii_case t (lit f)) flags) actual);
               any_eq = (\<lambda>flags. list_ex (\<lambda>t. t \<in> set (map lit flags)) actual)
           in if base = lit ''eslint''
              then (if \<not> any_of [''--fix''] then None
                    else Some (analysis_of EslintFix (any_of [''--fix-dry-run'', ''--dry-run'']) (lit ''eslint --fix'')))
              else if base = lit ''prettier''
              then (if \<not> (any_of [''--write''] \<or> any_eq [''-w'']) then None
                    else Some (analysis_of PrettierWrite (any_of [''--check'', ''--list-different'', ''--dry-run''])
                                 (lit ''prettier --write'')))
              else if base = lit ''black'' then Some (analysis_of Black (any_of [''--check'']) (lit ''black''))
              else if base = lit ''ruff''
              then (if args = [] \<or> \<not> eq_ignore_ascii_case (hd args) (lit ''format'') then None
                    else Some (analysis_of RuffFormat (slice_contains_flag args (lit ''--check'')) (lit ''ruff format'')))
              else if base = lit ''isort'' then Some (analysis_of Isort (any_of [''--check-only'']) (lit ''isort''))
              else if base = lit ''gofmt''
              then (if \<not> list_ex (\<lambda>t. t = lit ''-w'' \<or> starts_with t (lit ''-w='')) actual then None
                    else Some (analysis_of Gofmt (any_eq [''-d'', ''-l'', ''-n'']) (lit ''gofmt -w'')))
              else if base = lit ''rustywind''
              then Some (analysis_of Rustywind (any_of [''--check'']) (lit ''rustywind''))
              else if base = lit ''dart''
              then (if args = [] \<or> \<not> eq_ignore_ascii_case (hd args) (lit ''format'') then None
                    else Some (analysis_of DartFormat (any_of [''--dry-run'']) (lit ''dart format'')))
              else if base = lit ''swiftformat''
              then Some (analysis_of SwiftFormat (any_of [''--lint'', ''--dryrun'']) (lit ''swiftformat''))
              else None))"

definition analyze_direct_formatter :: "rstr list \<Rightarrow> internal_analysis option" where
  "analyze_direct_formatter tokens =
     (if tokens = [] then None else direct_analysis (peel_exec_wrappers tokens))"

definition package_arg_dry :: "rstr \<Rightarrow> bool" where
  "package_arg_dry arg \<longleftrightarrow>
     eq_ignore_ascii_case arg (lit ''--check'') \<or> eq_ignore_ascii_case arg (lit ''--dry-run'') \<or>
     eq_ignore_ascii_case arg (lit ''--no-fix'') \<or>
     str_contains (to_ascii_lowercase arg) (lit ''fix=false'') \<or>
     str_contains (to_ascii_lowercase arg) (lit ''write=false'') \<or>
     str_contains (to_ascii_lowercase arg) (lit ''mode=check'')"

definition analyze_package_manager :: "rstr list \<Rightarrow> package_manager \<Rightarrow> internal_analysis option" where
  "analyze_package_manager tokens manager =
     (if tokens = [] \<or> \<not> eq_ignore_ascii_case (hd tokens) (manager_label manager) then None
      else if length tokens < 2 then None
      else case locate_package_script tokens manager of
        None \<Rightarrow> None
      | Some (script_idx, script) \<Rightarrow>
          (if eq_ignore_ascii_case script (lit ''exec'') \<or> eq_ignore_ascii_case script (lit ''dlx'')
           then analyze_direct_formatter tokens
           else
            (let script_lower = to_ascii_lowercase script;
                 args = drop (script_idx + 1) tokens;
                 display_name = manager_label manager @ lit '' '' @ script;
                 is_dry = list_ex package_arg_dry args
             in if str_contains script_lower (lit ''lint'')
                then Some (analysis_of (PackageLint manager) is_dry display_name)
                else if str_contains script_lower (lit ''format'') \<or> str_contains script_lower (lit ''fmt'') \<or>
                        str_contains script_lower (lit ''prettier'')
                then Some (analysis_of (PackageFormat manager) is_dry display_name)
                else None)))"

definition analyze_tokens :: "rstr list \<Rightarrow> internal_analysis option" where
  "analyze_tokens tokens =
     or_else (analyze_cargo tokens)
      (or_else (analyze_rustfmt tokens)
        (or_else (analyze_package_manager tokens Npm)
          (or_else (analyze_package_manager tokens Pnpm)
            (or_else (analyze_package_manager tokens Yarn)
              (analyze_direct_formatter tokens)))))"

subsection \<open>The command that is analysed\<close>

definition first_command_tokens :: "parse_lib \<Rightarrow> rstr list \<Rightarrow> rstr list option" where
  "first_command_tokens lib argv =
     (case parse_command_impl lib argv of
        [] \<Rightarrow> None
      | pc # _ \<Rightarrow>
          Some (case shlex_split lib (pc_cmd pc) of
                  Some tokens \<Rightarrow> tokens
                | None \<Rightarrow> split_whitespace (pc_cmd pc)))"

definition is_env_assignment :: "rstr \<Rightarrow> bool" where
  "is_env_assignment token \<longleftrightarrow> 61 \<in> set token \<and> \<not> is_flag token \<and> \<not> starts_with token (lit ''='')"

definition is_wrapper :: "rstr \<Rightarrow> bool" where
  "is_wrapper token \<longleftrightarrow> token \<in> set (map lit [''env'', ''sudo'', ''command'', ''time'', ''nohup'', ''nice''])"

function strip_wrappers :: "rstr list \<Rightarrow> rstr list" where
  "strip_wrappers [] = []"
| "strip_wrappers (token # tokens) =
     (if is_env_assignment token then strip_wrappers tokens
      else if is_wrapper token then strip_wrappers (dropWhile is_flag tokens)
      else token # tokens)"
  by pat_completeness auto
termination
  by (relation "measure length") (auto simp: le_imp_less_Suc length_dropWhile_le)

definition analyze_command :: "parse_lib \<Rightarrow> rstr list \<Rightarrow> dry_run_analysis option" where
  "analyze_command lib command =
     Option.bind (first_command_tokens lib command) (\<lambda>first_tokens.
       if first_tokens = [] then None
       else
        (let tokens = strip_wrappers first_tokens
         in if tokens = [] then None
            else map_option (\<lambda>a. \<lparr>da_key = ia_key a, da_disposition = ia_disposition a, da_tokens = tokens,
                   da_display_name = ia_display_name a, da_custom_suggested = ia_suggested a\<rparr>)
                 (analyze_tokens tokens)))"

subsection \<open>The suggested dry run\<close>

definition insert_at :: "nat \<Rightarrow> 'a \<Rightarrow> 'a list \<Rightarrow> 'a list" where
  "insert_at pos x xs = take pos xs @ [x] @ drop pos xs"

definition dash_dash_or_end :: "rstr list \<Rightarrow> nat" where
  "dash_dash_or_end tokens = (case position (\<lambda>t. t = lit ''--'') tokens of Some i \<Rightarrow> i | None \<Rightarrow> length tokens)"

definition suggest_cargo_fmt_dry_run :: "rstr list \<Rightarrow> rstr list" where
  "suggest_cargo_fmt_dry_run tokens =
     (case position (\<lambda>t. t = lit ''--'') tokens of
        Some pos \<Rightarrow>
          (if \<not> slice_contains_flag (drop (pos + 1) tokens) (lit ''--check'')
           then insert_at (pos + 1) (lit ''--check'') tokens else tokens)
      | None \<Rightarrow> tokens @ [lit ''--'', lit ''--check''])"

definition suggest_cargo_fix_dry_run :: "rstr list \<Rightarrow> rstr list" where
  "suggest_cargo_fix_dry_run tokens =
     (if \<not> slice_contains_flag tokens (lit ''--dry-run'')
      then insert_at (dash_dash_or_end tokens) (lit ''--dry-run'') tokens else tokens)"

fun remove_first_flag :: "rstr \<Rightarrow> rstr list \<Rightarrow> rstr list" where
  "remove_first_flag flag [] = []"
| "remove_first_flag flag (t # ts) = (if eq_ignore_ascii_case t flag then ts else t # remove_first_flag flag ts)"

definition suggest_cargo_clippy_dry_run :: "rstr list \<Rightarrow> rstr list" where
  "suggest_cargo_clippy_dry_run tokens = remove_first_flag (lit ''--fix'') tokens"

definition suggest_append_flag :: "rstr list \<Rightarrow> rstr \<Rightarrow> rstr list" where
  "suggest_append_flag tokens flag =
     (if slice_contains_flag tokens flag then tokens else tokens @ [flag])"

definition suggest_rustfmt_dry_run :: "rstr list \<Rightarrow> rstr list" where
  "suggest_rustfmt_dry_run tokens =
     (if \<not> slice_contains_flag tokens (lit ''--check'') then tokens @ [lit ''--check''] else tokens)"

definition suggest_package_script_dry_run :: "rstr list \<Rightarrow> rstr \<Rightarrow> rstr option \<Rightarrow> rstr list" where
  "suggest_package_script_dry_run tokens preferred_flag fallback_flag =
     (if \<not> list_ex (\<lambda>t. eq_ignore_ascii_case t preferred_flag \<or>
                (case fallback_flag of Some flag \<Rightarrow> eq_ignore_ascii_case t flag | None \<Rightarrow> False)) tokens
      then tokens @ [lit ''--'', preferred_flag] else tokens)"

definition suggest_eslint_fix_dry_run :: "rstr list \<Rightarrow> rstr list" where
  "suggest_eslint_fix_dry_run tokens =
     (if list_ex (\<lambda>t. eq_ignore_ascii_case t (lit ''--fix-dry-run'') \<or> eq_ignore_ascii_case t (lit ''--dry-run'')) tokens
      then tokens
      else insert_at (dash_dash_or_end tokens) (lit ''--fix-dry-run'') tokens)"

fun replace_first :: "('a \<Rightarrow> bool) \<Rightarrow> 'a \<Rightarrow> 'a list \<Rightarrow> 'a list option" where
  "replace_first P r [] = None"
| "replace_first P r (t # ts) = (if P t then Some (r # ts) else map_option ((#) t) (replace_first P r ts))"

definition suggest_prettier_write_dry_run :: "rstr list \<Rightarrow> rstr list" where
  "suggest_prettier_write_dry_run tokens =
     (if list_ex (\<lambda>t. eq_ignore_ascii_case t (lit ''--check'') \<or> eq_ignore_ascii_case t (lit ''--list-different'')) tokens
      then tokens
      else case replace_first (\<lambda>t. eq_ignore_ascii_case t (lit ''--write'') \<or> t = lit ''-w'') (lit ''--check'') tokens of
             Some out \<Rightarrow> out
           | None \<Rightarrow> tokens @ [lit ''--check''])"

definition suggest_gofmt_dry_run :: "rstr list \<Rightarrow> rstr list" where
  "suggest_gofmt_dry_run tokens =
     (case replace_first (\<lambda>t. t = lit ''-w'' \<or> starts_with t (lit ''-w='')) (lit ''-d'') tokens of
        Some out \<Rightarrow> out
      | None \<Rightarrow> tokens @ [lit ''-d''])"

definition suggest_swiftformat_dry_run :: "rstr list \<Rightarrow> rstr list" where
  "suggest_swiftformat_dry_run tokens =
     (if list_ex (\<lambda>t. eq_ignore_ascii_case t (lit ''--lint'') \<or> eq_ignore_ascii_case t (lit ''--dryrun'')) tokens
      then tokens else tokens @ [lit ''--lint''])"

fun suggested_tokens :: "dry_run_guard_key \<Rightarrow> rstr list \<Rightarrow> rstr list" where
  "suggested_tokens CargoFmt tokens = suggest_cargo_fmt_dry_run tokens"
| "suggested_tokens CargoFix tokens = suggest_cargo_fix_dry_run tokens"
| "suggested_tokens CargoClippyFix tokens = suggest_cargo_clippy_dry_run tokens"
| "suggested_tokens Rustfmt tokens = suggest_rustfmt_dry_run tokens"
| "suggested_tokens (PackageLint manager) tokens =
     suggest_package_script_dry_run tokens (lit ''--dry-run'') (Some (lit ''--check''))"
| "suggested_tokens (PackageFormat manager) tokens =
     suggest_package_script_dry_run tokens (lit ''--check'') (Some (lit ''--dry-run''))"
| "suggested_tokens EslintFix tokens = suggest_eslint_fix_dry_run tokens"
| "suggested_tokens PrettierWrite tokens = suggest_prettier_write_dry_run tokens"
| "suggested_tokens Black tokens = suggest_append_flag tokens (lit ''--check'')"
| "suggested_tokens RuffFormat tokens = suggest_append_flag tokens (lit ''--check'')"
| "suggested_tokens Isort tokens = suggest_append_flag tokens (lit ''--check-only'')"
| "suggested_tokens Gofmt tokens = suggest_gofmt_dry_run tokens"
| "suggested_tokens Rustywind tokens = suggest_append_flag tokens (lit ''--check'')"
| "suggested_tokens DartFormat tokens = suggest_append_flag tokens (lit ''--dry-run'')"
| "suggested_tokens SwiftFormat tokens = suggest_swiftformat_dry_run tokens"

definition suggested_dry_run :: "dry_run_analysis \<Rightarrow> rstr option" where
  "suggested_dry_run a =
     (case da_custom_suggested a of
        Some custom \<Rightarrow> Some custom
      | None \<Rightarrow> Some (join (lit '' '') (suggested_tokens (da_key a) (da_tokens a))))"

end
