(* ===== verification/Command_Guards.thy ===== *)
theory Command_Guards
  imports Dry_Run_Guard
begin

text \<open>
  The guards in front of every shell command, the first half of \<open>handle_container_exec_with_params\<close> in
  \<open>code-rs/core/src/codex/streaming.rs\<close>: commands that match a configured pattern, git commands that
  move a branch or discard work, formatters without a dry run, a redundant \<open>cd\<close>, and files written by a
  here-document or by Python. A blocked command is answered with a text that says how to resend it with
  the prefix \<open>confirm:\<close>; that text is a value here, with the data it prints.

  The regular expressions of the patterns are functions; \<open>shlex\<close> and the bash parser are those of
  \<open>parse_lib\<close>. Where the code walks through a vector by
  an index, the model keeps the words that are left.
\<close>

section \<open>Definitions\<close>

subsection \<open>Configured patterns\<close>

record confirm_guard_pattern =
  cgp_regex :: rstr
  cgp_message :: "rstr option"

record confirm_guard_pattern_runtime =
  cgr_is_match :: "rstr \<Rightarrow> bool"
  cgr_message :: "rstr option"
  cgr_raw :: rstr

type_synonym confirm_guard_runtime = "confirm_guard_pattern_runtime list"

fun confirm_guard_from_config ::
    "(rstr \<Rightarrow> (rstr \<Rightarrow> bool) option) \<Rightarrow> confirm_guard_pattern list \<Rightarrow> confirm_guard_runtime" where
  "confirm_guard_from_config regex_new [] = []"
| "confirm_guard_from_config regex_new (p # ps) =
     (case regex_new (cgp_regex p) of
        Some regex \<Rightarrow>
          \<lparr>cgr_is_match = regex, cgr_message = cgp_message p, cgr_raw = cgp_regex p\<rparr> #
          confirm_guard_from_config regex_new ps
      | None \<Rightarrow> confirm_guard_from_config regex_new ps)"

definition matched_pattern :: "confirm_guard_runtime \<Rightarrow> rstr \<Rightarrow> confirm_guard_pattern_runtime option" where
  "matched_pattern guard input = find (\<lambda>pat. cgr_is_match pat input) guard"

definition pattern_header :: "confirm_guard_pattern_runtime \<Rightarrow> rstr" where
  "pattern_header pat =
     (case cgr_message pat of
        Some message \<Rightarrow> message
      | None \<Rightarrow> lit ''Blocked command matching confirm guard pattern `'' @ cgr_raw pat @
                lit ''`. Resend with 'confirm:' if you intend to proceed.'')"

subsection \<open>Sensitive git commands\<close>

datatype sensitive_git_kind = BranchChange | PathCheckout | GitReset | GitRevert

text \<open>
  The scanner that removes quotes: inside a quote the separators of commands become blanks. The state
  is whether a single quote, a double quote is open and whether the last char was a backslash.
\<close>

record quote_state =
  in_squote :: bool
  in_dquote :: bool
  prev_was_backslash :: bool

definition scan_char :: "quote_state \<Rightarrow> rchar \<Rightarrow> quote_state" where
  "scan_char st ch =
     (if ch = 92 then st\<lparr>prev_was_backslash := \<not> prev_was_backslash st\<rparr>
      else if ch = 39 \<and> \<not> in_dquote st then st\<lparr>in_squote := \<not> in_squote st, prev_was_backslash := False\<rparr>
      else if ch = 34 \<and> \<not> in_squote st \<and> \<not> prev_was_backslash st
      then st\<lparr>in_dquote := \<not> in_dquote st, prev_was_backslash := False\<rparr>
      else st\<lparr>prev_was_backslash := False\<rparr>)"

definition is_quote_edge :: "quote_state \<Rightarrow> rchar \<Rightarrow> bool" where
  "is_quote_edge st ch \<longleftrightarrow>
     (ch = 39 \<and> \<not> in_dquote st) \<or> (ch = 34 \<and> \<not> in_squote st \<and> \<not> prev_was_backslash st)"

definition clean_char :: "quote_state \<Rightarrow> rchar \<Rightarrow> rchar" where
  "clean_char st ch =
     (if is_quote_edge st ch then 32
      else if (in_squote st \<or> in_dquote st) \<and> ch \<in> {124, 38, 59, 10, 13} then 32
      else ch)"

fun clean_script :: "quote_state \<Rightarrow> rstr \<Rightarrow> rstr" where
  "clean_script st [] = []"
| "clean_script st (ch # script) = clean_char st ch # clean_script (scan_char st ch) script"

definition unquoted :: quote_state where
  "unquoted = \<lparr>in_squote = False, in_dquote = False, prev_was_backslash = False\<rparr>"

definition strip_tok :: "rstr \<Rightarrow> rstr" where
  "strip_tok t = trim_matches (\<lambda>c. c \<in> {40, 41, 123, 125, 39, 34}) t"

definition is_assignment :: "rstr \<Rightarrow> bool" where
  "is_assignment tok \<longleftrightarrow> 61 \<in> set tok \<and> \<not> starts_with tok (lit ''='') \<and> \<not> is_flag tok"

definition argv_wrappers :: "rstr list" where
  "argv_wrappers = map lit [''env'', ''sudo'', ''command'', ''time'', ''nohup'', ''nice'']"

definition script_wrappers :: "rstr list" where
  "script_wrappers = argv_wrappers @ map lit [''then'', ''do'', ''{'', ''('']"

function skip_wrappers :: "rstr list \<Rightarrow> rstr list \<Rightarrow> rstr list" where
  "skip_wrappers wrappers [] = []"
| "skip_wrappers wrappers (raw # raws) =
     (let tok = strip_tok raw
      in if tok = [] then skip_wrappers wrappers raws
         else if is_assignment tok then skip_wrappers wrappers raws
         else if tok \<in> set wrappers then skip_wrappers wrappers (dropWhile (\<lambda>r. is_flag (strip_tok r)) raws)
         else raw # raws)"
  by pat_completeness auto
termination
  by (relation "measure (\<lambda>(w, ts). length ts)") (auto simp: le_imp_less_Suc length_dropWhile_le)

definition is_git :: "rstr \<Rightarrow> bool" where
  "is_git cmd \<longleftrightarrow> ends_with cmd (lit ''/git'') \<or> cmd = lit ''git''"

fun skip_git_globals :: "rstr list \<Rightarrow> rstr list" where
  "skip_git_globals [] = []"
| "skip_git_globals (raw # raws) =
     (let t = strip_tok raw
      in if t = [] then skip_git_globals raws
         else if t \<in> set (map lit [''-C'', ''--git-dir'', ''--work-tree'', ''-c''])
         then (case raws of [] \<Rightarrow> [] | _ # rest \<Rightarrow> skip_git_globals rest)
         else if starts_with t (lit ''--git-dir='') \<or> starts_with t (lit ''--work-tree='') \<or> starts_with t (lit ''-c'')
         then skip_git_globals raws
         else if is_flag t then skip_git_globals raws
         else raw # raws)"

definition checkout_kind :: "rstr list \<Rightarrow> sensitive_git_kind option" where
  "checkout_kind args =
     (if lit ''--'' \<in> set args then Some PathCheckout
      else if list_ex (\<lambda>a. a \<in> set (map lit [''-b'', ''-B'', ''--orphan'', ''--detach''])) args then Some BranchChange
      else case args of
        [] \<Rightarrow> None
      | a # _ \<Rightarrow>
          (if a = lit ''-'' then Some BranchChange
           else if \<not> is_flag a \<and> a \<noteq> lit ''.'' \<and> a \<noteq> lit ''..'' then Some BranchChange
           else None))"

text \<open>The loop over the arguments of \<open>git switch\<close> stops at the first one that decides.\<close>

fun switch_changes :: "rstr list \<Rightarrow> bool" where
  "switch_changes [] = False"
| "switch_changes (raw # raws) =
     (let a = strip_tok raw
      in if a = lit ''-c'' then True
         else if a = lit ''--detach'' then True
         else if is_flag a then switch_changes raws
         else True)"

definition script_part_kind :: "rstr \<Rightarrow> sensitive_git_kind option" where
  "script_part_kind part =
     (case skip_wrappers script_wrappers (split_whitespace (trim part)) of
        [] \<Rightarrow> None
      | cmd # after \<Rightarrow>
          (if \<not> is_git (strip_tok cmd) then None
           else case skip_git_globals after of
             [] \<Rightarrow> None
           | raw_sub # raw_args \<Rightarrow>
               (let sub = strip_tok raw_sub
                in if sub = lit ''checkout'' then checkout_kind (map strip_tok raw_args)
                   else if sub = lit ''switch'' then (if switch_changes raw_args then Some BranchChange else None)
                   else if sub = lit ''reset'' then Some GitReset
                   else if sub = lit ''revert'' then Some GitRevert
                   else None)))"

fun find_map :: "('a \<Rightarrow> 'b option) \<Rightarrow> 'a list \<Rightarrow> 'b option" where
  "find_map f [] = None"
| "find_map f (x # xs) = (case f x of Some y \<Rightarrow> Some y | None \<Rightarrow> find_map f xs)"

definition script_parts :: "rstr \<Rightarrow> rstr list" where
  "script_parts cleaned =
     concat (map (split_matches (\<lambda>c. c \<in> {124, 38})) (split_matches (\<lambda>c. c \<in> {59, 10, 13}) cleaned))"

definition detect_sensitive_git :: "rstr \<Rightarrow> sensitive_git_kind option" where
  "detect_sensitive_git script = find_map script_part_kind (script_parts (clean_script unquoted script))"

text \<open>The same inspection of a command that is no script, with slightly different tests.\<close>

definition argv_git_kind :: "rstr list \<Rightarrow> sensitive_git_kind option" where
  "argv_git_kind command =
     (case skip_wrappers argv_wrappers command of
        [] \<Rightarrow> None
      | cmd # after \<Rightarrow>
          (if \<not> is_git (strip_tok cmd) then None
           else case skip_git_globals after of
             [] \<Rightarrow> None
           | raw_sub # raw_args \<Rightarrow>
               (let sub = strip_tok raw_sub
                in if sub = lit ''checkout'' then checkout_kind (map strip_tok raw_args)
                   else if sub = lit ''switch'' then Some BranchChange
                   else if sub = lit ''reset'' then Some GitReset
                   else if sub = lit ''revert'' then Some GitRevert
                   else None)))"

subsection \<open>The confirm prefix\<close>

definition confirm_prefixes :: "rstr list" where
  "confirm_prefixes = [lit ''confirm:'', lit ''CONFIRM:'']"

definition has_confirm_prefix :: "rstr \<Rightarrow> bool" where
  "has_confirm_prefix trimmed \<longleftrightarrow> list_ex (starts_with trimmed) confirm_prefixes"

definition without_confirm_prefix :: "rstr \<Rightarrow> rstr" where
  "without_confirm_prefix trimmed =
     (case find_map (\<lambda>p. map_option trim_start (strip_prefix trimmed p)) confirm_prefixes of
        Some t \<Rightarrow> t
      | None \<Rightarrow> trimmed)"

definition strip_leading_confirm_prefix :: "rstr list \<Rightarrow> rstr list" where
  "strip_leading_confirm_prefix argv =
     (case argv of
        [] \<Rightarrow> []
      | arg # rest \<Rightarrow>
          (let stripped = find_map (\<lambda>p. strip_prefix (trim arg) p) confirm_prefixes
           in case stripped of
                None \<Rightarrow> argv
              | Some r \<Rightarrow> if trim_start r = [] then rest else trim_start r # rest))"

subsection \<open>Files written by a here-document or by Python\<close>

text \<open>
  The loop of \<open>line_contains_cat_heredoc_write\<close> over the positions of the lower-case line; \<open>prev\<close> is the
  char before the position. The word starts a match only after a char that is no letter, digit or
  underscore; the bytes of other chars are none of these.
\<close>

definition is_word_byte :: "rchar \<Rightarrow> bool" where
  "is_word_byte c \<longleftrightarrow> (48 \<le> c \<and> c \<le> 57) \<or> (65 \<le> c \<and> c \<le> 90) \<or> (97 \<le> c \<and> c \<le> 122) \<or> c = 95"

definition redirects_to_file :: "rstr \<Rightarrow> bool" where
  "redirects_to_file heredoc =
     (case dropWhile (\<lambda>c. c \<noteq> 62) heredoc of
        [] \<Rightarrow> False
      | _ # after_gt \<Rightarrow>
          \<not> starts_with after_gt (lit ''&'') \<and> \<not> starts_with (trim_start after_gt) (lit ''&'') \<and>
          \<not> starts_with (trim_start after_gt) (lit ''('') )"

fun cat_heredoc_at :: "rchar option \<Rightarrow> rstr \<Rightarrow> bool" where
  "cat_heredoc_at prev [] = False"
| "cat_heredoc_at prev (c # rest) =
     ((starts_with (c # rest) (lit ''cat'') \<and>
       (case prev of Some p \<Rightarrow> \<not> is_word_byte p | None \<Rightarrow> True) \<and>
       starts_with (trim_start (drop 2 rest)) (lit ''<<'') \<and>
       redirects_to_file (trim_start (drop 2 rest))) \<or>
      cat_heredoc_at (Some c) rest)"

definition line_contains_cat_heredoc_write :: "rstr \<Rightarrow> bool" where
  "line_contains_cat_heredoc_write line =
     (let trimmed = trim_start line; lower = to_ascii_lowercase line
      in if trimmed = [] \<or> starts_with trimmed (lit ''#'') then False
         else if \<not> str_contains lower (lit ''<<'') \<or> 62 \<notin> set lower then False
         else cat_heredoc_at None lower)"

definition script_contains_cat_write :: "rstr \<Rightarrow> bool" where
  "script_contains_cat_write script \<longleftrightarrow> list_ex line_contains_cat_heredoc_write (str_lines script)"

definition detect_cat_write :: "rstr list \<Rightarrow> rstr option" where
  "detect_cat_write argv =
     (case extract_shell_script argv of
        Some (_, script) \<Rightarrow> if script_contains_cat_write script then Some script else None
      | None \<Rightarrow> None)"

definition contains_python_write_keywords :: "rstr \<Rightarrow> bool" where
  "contains_python_write_keywords lower \<longleftrightarrow>
     list_ex (str_contains lower) (map lit [''write_text('', ''write_bytes('', ''.write_text('', ''.write_bytes(''])"

definition python_code_writes_files :: "rstr \<Rightarrow> bool" where
  "python_code_writes_files code \<longleftrightarrow> contains_python_write_keywords (to_ascii_lowercase code)"

definition script_contains_python_write :: "rstr \<Rightarrow> bool" where
  "script_contains_python_write script =
     (let lower = to_ascii_lowercase script
      in if \<not> (str_contains lower (lit ''python '') \<or> str_contains lower (lit ''python3'') \<or>
                str_contains lower (lit ''python'' @ [10])) then False
         else contains_python_write_keywords lower)"

definition is_python_command :: "rstr \<Rightarrow> bool" where
  "is_python_command cmd =
     (case file_name cmd of
        Some name \<Rightarrow> to_ascii_lowercase name \<in> set (map lit [''python'', ''python3'', ''python2''])
      | None \<Rightarrow> False)"

datatype write_label = OriginalScript | PythonInlineScript

definition detect_python_write_in_argv :: "rstr list \<Rightarrow> (write_label \<times> rstr) option" where
  "detect_python_write_in_argv argv =
     (case argv of
        [] \<Rightarrow> None
      | cmd # _ \<Rightarrow>
          (if \<not> is_python_command cmd then None
           else if 3 \<le> length argv \<and> argv ! 1 = lit ''-c'' \<and> python_code_writes_files (argv ! 2)
           then Some (PythonInlineScript, argv ! 2) else None))"

definition detect_python_write :: "rstr list \<Rightarrow> (write_label \<times> rstr) option" where
  "detect_python_write argv =
     (case extract_shell_script argv of
        Some (_, script) \<Rightarrow>
          (if script_contains_python_write script then Some (OriginalScript, script)
           else detect_python_write_in_argv argv)
      | None \<Rightarrow> detect_python_write_in_argv argv)"

subsection \<open>A redundant \<open>cd\<close>\<close>

text \<open>
  A normalised path is the list of its components, with the root as \<open>/\<close>: this is how \<open>PathBuf\<close>s are
  compared. \<open>PathBuf::pop\<close> does nothing at the root and on the empty path.
\<close>

definition path_pop :: "rstr list \<Rightarrow> rstr list" where
  "path_pop comps = (if comps = [] \<or> comps = [[47]] then comps else butlast comps)"

definition root_and_parts :: "rstr \<Rightarrow> rstr list" where
  "root_and_parts path = (if is_absolute path then [[47]] else []) @ path_parts path"

definition normalize_cd_path :: "rstr \<Rightarrow> rstr list" where
  "normalize_cd_path path =
     (let normalized = foldl (\<lambda>acc c. if c = lit ''..'' then path_pop acc else acc @ [c]) [] (root_and_parts path)
      in if normalized = [] then [lit ''.''] else normalized)"

definition resolve_cd_target :: "rstr \<Rightarrow> rstr \<Rightarrow> rstr list option" where
  "resolve_cd_target target cwd =
     (if target = [] then None
      else Some (normalize_cd_path (if is_absolute target then target else path_join cwd target)))"

definition is_simple_cd_target :: "rstr \<Rightarrow> bool" where
  "is_simple_cd_target target \<longleftrightarrow>
     \<not> (target = [] \<or> target = lit ''-'') \<and> \<not> list_ex (\<lambda>ch. ch \<in> set (lit ''$`*?[]{}()|><!'')) target"

definition is_connector :: "rstr \<Rightarrow> bool" where
  "is_connector token \<longleftrightarrow> token \<in> set (map lit [''&&'', '';'', ''||''])"

record redundant_cd =
  cd_in_script :: bool
  cd_suggested :: "rstr list"
  cd_target_arg :: rstr
  cd_cwd :: "rstr list"

text \<open>The words after \<open>cd target\<close> and its connectors, when the target is the working directory.\<close>

definition after_redundant_cd :: "nat \<Rightarrow> rstr list \<Rightarrow> rstr \<Rightarrow> (rstr \<times> rstr list) option" where
  "after_redundant_cd least tokens cwd =
     (if length tokens < least then None
      else case tokens of
        cd # target # after \<Rightarrow>
          (if cd \<noteq> lit ''cd'' then None
           else if \<not> is_simple_cd_target target then None
           else case resolve_cd_target target cwd of
             None \<Rightarrow> None
           | Some resolved \<Rightarrow>
               (if resolved \<noteq> normalize_cd_path cwd then None
                else (let remainder = dropWhile is_connector after
                      in if length remainder = length after \<or> remainder = [] then None
                         else Some (target, remainder))))
      | _ \<Rightarrow> None)"

definition detect_redundant_cd_in_shell :: "parse_lib \<Rightarrow> rstr list \<Rightarrow> nat \<Rightarrow> rstr \<Rightarrow> rstr \<Rightarrow> redundant_cd option" where
  "detect_redundant_cd_in_shell lib argv script_index script cwd =
     Option.bind (shlex_split lib (trim_start script)) (\<lambda>tokens.
       Option.bind (after_redundant_cd 3 tokens cwd) (\<lambda>(target, remainder_tokens).
         (let suggested_script = (case shlex_try_join lib remainder_tokens of
                                    Some s \<Rightarrow> s
                                  | None \<Rightarrow> join (lit '' '') remainder_tokens)
          in if trim suggested_script = [] then None
             else Some \<lparr>cd_in_script = True, cd_suggested = argv[script_index := suggested_script],
                        cd_target_arg = target, cd_cwd = normalize_cd_path cwd\<rparr>)))"

definition detect_redundant_cd_in_argv :: "rstr list \<Rightarrow> rstr \<Rightarrow> redundant_cd option" where
  "detect_redundant_cd_in_argv argv cwd =
     map_option (\<lambda>(target, remainder).
         \<lparr>cd_in_script = False, cd_suggested = remainder, cd_target_arg = target, cd_cwd = normalize_cd_path cwd\<rparr>)
       (after_redundant_cd 4 argv cwd)"

definition detect_redundant_cd :: "parse_lib \<Rightarrow> rstr list \<Rightarrow> rstr \<Rightarrow> redundant_cd option" where
  "detect_redundant_cd lib argv cwd =
     or_else
       (Option.bind (extract_shell_script argv) (\<lambda>(script_index, script).
          detect_redundant_cd_in_shell lib argv script_index script cwd))
       (detect_redundant_cd_in_argv argv cwd)"

subsection \<open>The chain of guards\<close>

text \<open>
  What a blocked command is answered with: the header of the text, the original command (a script or
  the whole vector) and the command to resend.
\<close>

datatype original = InScript rstr | InArgv "rstr list"

datatype guidance =
    PatternGuidance rstr original "rstr list"
  | GitGuidance sensitive_git_kind original "rstr list"
  | DryRunGuidance rstr original "rstr list" "rstr option"
  | RedundantCdGuidance redundant_cd original
  | CatWriteGuidance rstr
  | PythonWriteGuidance write_label rstr

definition confirm_text :: "rstr \<Rightarrow> rstr" where
  "confirm_text s = lit ''confirm: '' @ s"

text \<open>The guards on a script that does not start with a confirm prefix.\<close>

definition unconfirmed_script_guard ::
    "confirm_guard_runtime \<Rightarrow> rstr list \<Rightarrow> nat \<Rightarrow> rstr \<Rightarrow> guidance option" where
  "unconfirmed_script_guard guard command script_index script =
     (let trimmed = trim_start script;
          argv_confirm = command[script_index := confirm_text trimmed]
      in case (if guard = [] then None else matched_pattern guard trimmed) of
           Some pat \<Rightarrow> Some (PatternGuidance (pattern_header pat) (InScript script) argv_confirm)
         | None \<Rightarrow>
             (case detect_sensitive_git trimmed of
                Some kind \<Rightarrow> Some (GitGuidance kind (InScript script) argv_confirm)
              | None \<Rightarrow> None))"

definition dry_run_guard ::
    "parse_lib \<Rightarrow> dry_run_guard_state \<Rightarrow> rstr list \<Rightarrow> original \<Rightarrow> rstr list \<Rightarrow> guidance option" where
  "dry_run_guard lib st command orig resend =
     (case analyze_command lib command of
        Some analysis \<Rightarrow>
          (if da_disposition analysis = Mutating \<and> \<not> has_recent_dry_run st (da_key analysis)
           then Some (DryRunGuidance (da_display_name analysis) orig resend (suggested_dry_run analysis))
           else None)
      | None \<Rightarrow> None)"

text \<open>The guards on a script, and the command with the confirm prefix removed when all of them pass.\<close>

definition script_guards ::
    "parse_lib \<Rightarrow> confirm_guard_runtime \<Rightarrow> dry_run_guard_state \<Rightarrow> rstr list \<Rightarrow> guidance + rstr list" where
  "script_guards lib guard st command =
     (case extract_shell_script command of
        None \<Rightarrow> Inr command
      | Some (script_index, script) \<Rightarrow>
          (let trimmed = trim_start script
           in if has_confirm_prefix trimmed
              then Inr (command[script_index := without_confirm_prefix trimmed])
              else case unconfirmed_script_guard guard command script_index script of
                     Some g \<Rightarrow> Inl g
                   | None \<Rightarrow>
                       (case dry_run_guard lib st command (InScript script)
                               (command[script_index := confirm_text trimmed]) of
                          Some g \<Rightarrow> Inl g
                        | None \<Rightarrow> Inr command)))"

definition write_guards :: "parse_lib \<Rightarrow> rstr \<Rightarrow> rstr list \<Rightarrow> guidance option" where
  "write_guards lib cwd command =
     (case detect_redundant_cd lib command cwd of
        Some redundant \<Rightarrow>
          Some (RedundantCdGuidance redundant
            (case extract_shell_script command of
               Some (_, script) \<Rightarrow> if cd_in_script redundant then InScript script else InArgv command
             | None \<Rightarrow> InArgv command))
      | None \<Rightarrow>
          (case detect_cat_write command of
             Some script \<Rightarrow> Some (CatWriteGuidance script)
           | None \<Rightarrow> map_option (\<lambda>(label, code). PythonWriteGuidance label code) (detect_python_write command)))"

definition argv_resend :: "rstr list \<Rightarrow> rstr list" where
  "argv_resend command = [lit ''bash'', lit ''-lc'', confirm_text (join (lit '' '') command)]"

definition argv_guards ::
    "parse_lib \<Rightarrow> confirm_guard_runtime \<Rightarrow> dry_run_guard_state \<Rightarrow> rstr list \<Rightarrow> guidance option" where
  "argv_guards lib guard st command =
     (if extract_shell_script command \<noteq> None then None
      else case (if guard = [] then None else matched_pattern guard (join (lit '' '') command)) of
        Some pat \<Rightarrow> Some (PatternGuidance (pattern_header pat) (InArgv command) (argv_resend command))
      | None \<Rightarrow>
          (case dry_run_guard lib st command (InArgv command) (argv_resend command) of
             Some g \<Rightarrow> Some g
           | None \<Rightarrow>
               map_option (\<lambda>kind. GitGuidance kind (InArgv command) (argv_resend command)) (argv_git_kind command)))"

definition command_guards ::
    "parse_lib \<Rightarrow> confirm_guard_runtime \<Rightarrow> dry_run_guard_state \<Rightarrow> rstr \<Rightarrow> rstr list \<Rightarrow> guidance + rstr list" where
  "command_guards lib guard st cwd command =
     and_then (script_guards lib guard st command) (\<lambda>command.
       let command = strip_leading_confirm_prefix command
       in case write_guards lib cwd command of
            Some g \<Rightarrow> Inl g
          | None \<Rightarrow>
              (case argv_guards lib guard st command of
                 Some g \<Rightarrow> Inl g
               | None \<Rightarrow> Inr command))"

end
