(* ===== verification/Dry_Run_Props.thy ===== *)
theory Dry_Run_Props
  imports Dry_Run_Guard
begin

text \<open>
  What the dry-run guard guarantees: its record of past runs, and that the dry run it suggests is not
  blocked itself.
\<close>

section \<open>What ran before\<close>

definition recent_in_log :: "dry_run_guard_key \<Rightarrow> dry_run_analysis list \<Rightarrow> bool" where
  "recent_in_log key log =
     (case rev (filter (\<lambda>a. da_key a = key) log) of [] \<Rightarrow> False | a # _ \<Rightarrow> da_disposition a = DryRun)"

definition guard_bounded :: "nat \<Rightarrow> dry_run_guard_state \<Rightarrow> bool" where
  "guard_bounded n st \<longleftrightarrow>
     unat (command_counter st) = n \<and>
     (\<forall>k v. last_dry_run st k = Some v \<longrightarrow> 0 < unat v \<and> unat v \<le> n) \<and>
     (\<forall>k v. last_mutating st k = Some v \<longrightarrow> unat v \<le> n)"

lemma note_execution_seq:
  assumes "guard_bounded n st" "n + 1 < 2 ^ 64"
  shows "unat (saturating_add (command_counter st) 1) = n + 1"
  using assms by (simp add: guard_bounded_def unat_saturating_add)

lemma note_execution_bounded:
  assumes "guard_bounded n st" "n + 1 < 2 ^ 64"
  shows "guard_bounded (n + 1) (note_execution a st)"
  using assms note_execution_seq [OF assms]
  by (cases "da_disposition a") (auto simp: note_execution_def guard_bounded_def Let_def le_SucI)

lemma note_execution_recent:
  assumes "guard_bounded n st" "n + 1 < 2 ^ 64"
  shows "has_recent_dry_run (note_execution a st) key \<longleftrightarrow>
    (if da_key a = key then da_disposition a = DryRun else has_recent_dry_run st key)"
proof (cases "da_disposition a")
  case DryRun
  then show ?thesis
    using assms note_execution_seq [OF assms]
    by (auto simp: has_recent_dry_run_def note_execution_def guard_bounded_def Let_def word_less_nat_alt le_imp_less_Suc
        split: option.splits)
next
  case Mutating
  then show ?thesis
    using assms note_execution_seq [OF assms]
    by (auto simp: has_recent_dry_run_def note_execution_def guard_bounded_def Let_def word_less_nat_alt not_less le_SucI
        split: option.splits)
qed

lemma recent_refines_log:
  assumes "length log < 2 ^ 64"
  shows "guard_bounded (length log) (fold note_execution log guard_state_default) \<and>
    (has_recent_dry_run (fold note_execution log guard_state_default) key \<longleftrightarrow> recent_in_log key log)"
  using assms
proof (induction log rule: rev_induct)
  case Nil
  then show ?case
    by (simp add: guard_bounded_def guard_state_default_def has_recent_dry_run_def recent_in_log_def)
next
  case (snoc a log)
  define st where "st = fold note_execution log guard_state_default"
  have st: "guard_bounded (length log) st" "has_recent_dry_run st key \<longleftrightarrow> recent_in_log key log"
    and bound: "length log + 1 < 2 ^ 64"
    using snoc by (simp_all add: st_def)
  then show ?case
    using note_execution_bounded [OF st(1) bound, of a] note_execution_recent [OF st(1) bound, of a key]
    by (simp add: recent_in_log_def flip: st_def)
qed

section \<open>Names of programs\<close>

lemma command_basename_plain:
  assumes "list_all (\<lambda>c. c \<notin> {34, 39, 46, 47}) t" "t \<noteq> []"
  shows "command_basename t = to_ascii_lowercase t"
proof -
  have no: "34 \<notin> set t" "39 \<notin> set t" "46 \<notin> set t" "47 \<notin> set t"
    using assms(1) by (auto simp: list_all_iff)
  have "trim_matches (\<lambda>c. c = 34) t = t" "trim_matches (\<lambda>c. c = 39) t = t"
    using no assms(2) by (metis hd_in_set last_in_set trim_matches_id)+
  moreover have "file_name t = Some t"
    using no assms(2) by (auto simp: file_name_def path_parts_def split_on_plain Let_def)
  ultimately show ?thesis
    by (simp add: command_basename_def)
qed

lemma basename_of_word:
  assumes "eq_ignore_ascii_case t w" "to_ascii_lowercase w = w" "set w \<inter> {34, 39, 46, 47} = {}" "w \<noteq> []"
  shows "command_basename t = w"
proof -
  have w: "to_ascii_lowercase t = w"
    using assms by (simp add: eq_ignore_ascii_case_def)
  have "c \<notin> {34, 39, 46, 47}" if "c \<in> set t" for c
  proof -
    have "ascii_lower c \<in> set w"
      using w that by (auto simp: to_ascii_lowercase_def)
    then show ?thesis
      using assms(3) by (auto simp: ascii_lower_def split: if_splits)
  qed
  then have "list_all (\<lambda>c. c \<notin> {34, 39, 46, 47}) t" "t \<noteq> []"
    using w assms(4) by (auto simp: list_all_iff)
  then show ?thesis
    using w by (simp add: command_basename_plain)
qed

definition name_word :: "string \<Rightarrow> bool" where
  "name_word w \<longleftrightarrow> to_ascii_lowercase (lit w) = lit w \<and> set (lit w) \<inter> {34, 39, 46, 47} = {} \<and> w \<noteq> []"

lemma not_named:
  assumes "command_basename t = lit b" "b \<noteq> w" "name_word w"
  shows "\<not> eq_ignore_ascii_case t (lit w)"
proof
  assume eq: "eq_ignore_ascii_case t (lit w)"
  have "command_basename t = lit w"
    using assms(3) by (intro basename_of_word [OF eq]) (auto simp: name_word_def lit_def)
  then have "map of_char b = (map of_char w :: nat list)"
    using assms(1) by (simp add: lit_def)
  then show False
    using assms(2) by (metis inj_map_eq_map inj_onI of_char_eq_iff)
qed

lemma name_words: "name_word ''cargo''" "name_word ''rustfmt''" "name_word ''npm''" "name_word ''pnpm''"
  "name_word ''yarn''" "name_word ''--check''" "name_word ''--check-only''" "name_word ''--dry-run''" "name_word ''--lint''" 
  "name_word ''--dryrun''" "name_word ''--fix''" "name_word ''--fix-dry-run''" "name_word ''--write''" "name_word ''--list-different''"
  by (simp_all add: name_word_def str_eval)

lemma lit_eq_iff: "lit a = lit b \<longleftrightarrow> a = b"
  unfolding lit_def by (metis inj_map_eq_map inj_onI of_char_eq_iff)

text \<open>A command whose program is not a package manager is analysed by its own arguments.\<close>

lemma analyze_tokens_direct:
  assumes "command_basename t = lit b" "b \<notin> {''cargo'', ''rustfmt'', ''npm'', ''pnpm'', ''yarn'', ''npx'', ''bunx''}"
  shows "analyze_tokens (t # ts) = direct_analysis (t # ts)"
proof -
  have "analyze_cargo (t # ts) = None" "analyze_rustfmt (t # ts) = None"
    "analyze_package_manager (t # ts) m = None" for m
    using assms not_named [OF assms(1) _ name_words(1)] not_named [OF assms(1) _ name_words(2)]
      not_named [OF assms(1) _ name_words(3)] not_named [OF assms(1) _ name_words(4)]
      not_named [OF assms(1) _ name_words(5)]
    by (cases m; simp add: analyze_cargo_def analyze_rustfmt_def analyze_package_manager_def)+
  moreover have "peel_exec_wrappers (t # ts) = t # ts"
    using assms by (simp add: lit_eq_iff)
  ultimately show ?thesis
    by (simp add: analyze_tokens_def analyze_direct_formatter_def or_else_def)
qed

definition direct_programs :: "string list" where
  "direct_programs = [''eslint'', ''prettier'', ''black'', ''ruff'', ''isort'', ''gofmt'', ''rustywind'', ''dart'', ''swiftformat'']"

lemma direct_analysis_program:
  assumes "direct_analysis (t # ts) = Some a"
  obtains b where "b \<in> set direct_programs" "command_basename t = lit b"
  using assms
  by (auto simp: direct_analysis_def direct_programs_def Let_def split: if_splits)

definition not_blocked :: "dry_run_guard_key \<Rightarrow> internal_analysis option \<Rightarrow> bool" where
  "not_blocked key result =
     (case result of None \<Rightarrow> True | Some b \<Rightarrow> ia_key b = key \<and> ia_disposition b = DryRun)"

definition any_of :: "string list \<Rightarrow> rstr list \<Rightarrow> bool" where
  "any_of flags tokens \<longleftrightarrow> list_ex (\<lambda>t. list_ex (\<lambda>f. eq_ignore_ascii_case t (lit f)) flags) tokens"

lemma any_of_simps [simp]:
  "any_of flags [] \<longleftrightarrow> False"
  "any_of flags (t # ts) \<longleftrightarrow> list_ex (\<lambda>f. eq_ignore_ascii_case t (lit f)) flags \<or> any_of flags ts"
  "any_of flags (ts @ us) \<longleftrightarrow> any_of flags ts \<or> any_of flags us"
  by (simp_all add: any_of_def)

lemma slice_contains_any_of: "slice_contains_flag ts (lit f) \<longleftrightarrow> any_of [f] ts"
  by (simp add: slice_contains_flag_def any_of_def)

definition gofmt_write :: "rstr \<Rightarrow> bool" where
  "gofmt_write t \<longleftrightarrow> t = lit ''-w'' \<or> starts_with t (lit ''-w='')"

lemma gofmt_write_eq: "gofmt_write = (\<lambda>t. t = lit ''-w'' \<or> starts_with t (lit ''-w=''))"
  by (simp add: fun_eq_iff gofmt_write_def)

lemma direct_eqs:
  "command_basename t = lit ''eslint'' \<Longrightarrow> direct_analysis (t # ts) =
     (if any_of [''--fix''] (t # ts)
      then Some (analysis_of EslintFix (any_of [''--fix-dry-run'', ''--dry-run''] (t # ts)) (lit ''eslint --fix'')) else None)"
  "command_basename t = lit ''prettier'' \<Longrightarrow> direct_analysis (t # ts) =
     (if any_of [''--write''] (t # ts) \<or> list_ex (\<lambda>t. t = lit ''-w'') (t # ts)
      then Some (analysis_of PrettierWrite (any_of [''--check'', ''--list-different'', ''--dry-run''] (t # ts))
             (lit ''prettier --write'')) else None)"
  "command_basename t = lit ''black'' \<Longrightarrow> direct_analysis (t # ts) =
     Some (analysis_of Black (any_of [''--check''] (t # ts)) (lit ''black''))"
  "command_basename t = lit ''ruff'' \<Longrightarrow> direct_analysis (t # ts) =
     (if ts = [] \<or> \<not> eq_ignore_ascii_case (hd ts) (lit ''format'') then None
      else Some (analysis_of RuffFormat (any_of [''--check''] ts) (lit ''ruff format'')))"
  "command_basename t = lit ''isort'' \<Longrightarrow> direct_analysis (t # ts) =
     Some (analysis_of Isort (any_of [''--check-only''] (t # ts)) (lit ''isort''))"
  "command_basename t = lit ''gofmt'' \<Longrightarrow> direct_analysis (t # ts) =
     (if list_ex gofmt_write (t # ts)
      then Some (analysis_of Gofmt (list_ex (\<lambda>t. t \<in> set (map lit [''-d'', ''-l'', ''-n''])) (t # ts)) (lit ''gofmt -w'')) else None)"
  "command_basename t = lit ''rustywind'' \<Longrightarrow> direct_analysis (t # ts) =
     Some (analysis_of Rustywind (any_of [''--check''] (t # ts)) (lit ''rustywind''))"
  "command_basename t = lit ''dart'' \<Longrightarrow> direct_analysis (t # ts) =
     (if ts = [] \<or> \<not> eq_ignore_ascii_case (hd ts) (lit ''format'') then None
      else Some (analysis_of DartFormat (any_of [''--dry-run''] (t # ts)) (lit ''dart format'')))"
  "command_basename t = lit ''swiftformat'' \<Longrightarrow> direct_analysis (t # ts) =
     Some (analysis_of SwiftFormat (any_of [''--lint'', ''--dryrun''] (t # ts)) (lit ''swiftformat''))"
  by (simp_all add: direct_analysis_def lit_eq_iff Let_def any_of_def slice_contains_flag_def gofmt_write_eq)

lemma analysis_of_simps [simp]:
  "ia_key (analysis_of k d n) = k" "ia_disposition (analysis_of k d n) = (if d then DryRun else Mutating)"
  by (simp_all add: analysis_of_def)

lemmas suggestion_simps = direct_eqs slice_contains_any_of not_blocked_def

lemma append_suggestion:
  assumes a: "direct_analysis (t # ts) = Some a" "ia_disposition a = Mutating"
    and t: "command_basename t = lit b" "b \<in> {''black'', ''ruff'', ''isort'', ''rustywind'', ''dart''}"
  shows "\<exists>ts'. suggested_tokens (ia_key a) (t # ts) = t # ts' \<and> not_blocked (ia_key a) (direct_analysis (t # ts'))"
proof -
  have check: "\<not> eq_ignore_ascii_case t (lit ''--check'')"
    using t not_named [OF t(1) _ name_words(6)] by auto
  note simps = suggest_append_flag_def slice_contains_any_of not_blocked_def
  from t(2) show ?thesis
  proof (elim insertE emptyE)
    assume "b = ''black''"
    then show ?thesis
      using a t(1) by (auto simp: direct_eqs(3) simps split: if_splits)
  next
    assume "b = ''ruff''"
    then show ?thesis
      using a t(1) check
      by (intro exI [of _ "ts @ [lit ''--check'']"]) (auto simp: direct_eqs(4) simps hd_append split: if_splits)
  next
    assume "b = ''isort''"
    then show ?thesis
      using a t(1) by (auto simp: direct_eqs(5) simps split: if_splits)
  next
    assume "b = ''rustywind''"
    then show ?thesis
      using a t(1) by (auto simp: direct_eqs(7) simps split: if_splits)
  next
    assume "b = ''dart''"
    then show ?thesis
      using a t(1)
      by (intro exI [of _ "ts @ [lit ''--dry-run'']"]) (auto simp: direct_eqs(8) simps hd_append split: if_splits)
  qed
qed

lemma swiftformat_suggestion:
  assumes "direct_analysis (t # ts) = Some a" "ia_disposition a = Mutating" "command_basename t = lit ''swiftformat''"
  shows "\<exists>ts'. suggested_tokens (ia_key a) (t # ts) = t # ts' \<and> not_blocked (ia_key a) (direct_analysis (t # ts'))"
  using assms
  by (auto simp: direct_eqs(9) not_blocked_def suggest_swiftformat_dry_run_def any_of_def list_ex_iff split: if_splits)

lemma dash_dash_not_first:
  assumes "t \<noteq> lit ''--''"
  obtains n where "dash_dash_or_end (t # ts) = Suc n"
  using assms by (cases "position (\<lambda>t. t = lit ''--'') ts") (auto simp: dash_dash_or_end_def)

lemma eslint_suggestion:
  assumes "direct_analysis (t # ts) = Some a" "ia_disposition a = Mutating" "command_basename t = lit ''eslint''"
  shows "\<exists>ts'. suggested_tokens (ia_key a) (t # ts) = t # ts' \<and> not_blocked (ia_key a) (direct_analysis (t # ts'))"
proof -
  have "t \<noteq> lit ''--''"
  proof
    assume t: "t = lit ''--''"
    have "command_basename t = lit ''--''"
      unfolding t by (simp add: command_basename_plain str_eval)
    then show False
      using assms(3) by (simp add: lit_eq_iff)
  qed
  then obtain n where n: "dash_dash_or_end (t # ts) = Suc n"
    using dash_dash_not_first by blast
  show ?thesis
    using assms n
    by (auto simp: suggestion_simps suggest_eslint_fix_dry_run_def insert_at_def any_of_def split: if_splits)
qed

lemma replace_first_Some:
  assumes "list_ex P ts"
  obtains us v ws where "ts = us @ v # ws" "P v" "\<not> list_ex P us" "replace_first P r ts = Some (us @ r # ws)"
proof -
  have "\<exists>us v ws. ts = us @ v # ws \<and> P v \<and> \<not> list_ex P us \<and> replace_first P r ts = Some (us @ r # ws)"
    using assms
  proof (induction ts)
    case (Cons t ts)
    show ?case
    proof (cases "P t")
      case True
      then show ?thesis
        by (intro exI [of _ "[]"] exI [of _ t] exI [of _ ts]) simp
    next
      case False
      then obtain us v ws where "ts = us @ v # ws \<and> P v \<and> \<not> list_ex P us \<and> replace_first P r ts = Some (us @ r # ws)"
        using Cons by auto
      with False show ?thesis
        by (auto intro!: exI [of _ "t # us"])
    qed
  qed simp
  then show thesis
    using that by blast
qed

lemma prettier_suggestion:
  assumes "direct_analysis (t # ts) = Some a" "ia_disposition a = Mutating" "command_basename t = lit ''prettier''"
  shows "\<exists>ts'. suggested_tokens (ia_key a) (t # ts) = t # ts' \<and> not_blocked (ia_key a) (direct_analysis (t # ts'))"
proof -
  let ?writes = "\<lambda>t. eq_ignore_ascii_case t (lit ''--write'') \<or> t = lit ''-w''"
  have w: "\<not> ?writes t"
    using not_named [OF assms(3) _ name_words(13)] assms(3)
    by (auto simp: command_basename_plain str_eval)
  have key: "ia_key a = PrettierWrite" and has: "list_ex ?writes ts"
    and dry: "\<not> any_of [''--check'', ''--list-different'', ''--dry-run''] (t # ts)"
    using assms w by (auto simp: suggestion_simps any_of_def list_ex_iff split: if_splits)
  obtain us v ws where "ts = us @ v # ws" "?writes v" "\<not> list_ex ?writes us"
      "replace_first ?writes (lit ''--check'') ts = Some (us @ lit ''--check'' # ws)"
    using replace_first_Some [OF has] .
  then have sug: "suggested_tokens (ia_key a) (t # ts) = t # us @ lit ''--check'' # ws"
    using w dry by (auto simp: key suggest_prettier_write_dry_run_def any_of_def list_ex_iff)
  show ?thesis
    unfolding sug by (simp add: key suggestion_simps assms(3))
qed

lemma gofmt_suggestion:
  assumes "direct_analysis (t # ts) = Some a" "ia_disposition a = Mutating" "command_basename t = lit ''gofmt''"
  shows "\<exists>t' ts'. suggested_tokens (ia_key a) (t # ts) = t' # ts' \<and> (t' = t \<or> t' = lit ''-d'') \<and>
    not_blocked (ia_key a) (direct_analysis (t' # ts'))"
proof -
  have key: "ia_key a = Gofmt" and has: "list_ex gofmt_write (t # ts)"
    using assms by (auto simp: direct_eqs(6) split: if_splits)
  obtain us v ws where us: "t # ts = us @ v # ws" "gofmt_write v" "\<not> list_ex gofmt_write us"
      "replace_first gofmt_write (lit ''-d'') (t # ts) = Some (us @ lit ''-d'' # ws)"
    using replace_first_Some [OF has] .
  have "suggest_gofmt_dry_run (t # ts) =
      (case replace_first gofmt_write (lit ''-d'') (t # ts) of Some out \<Rightarrow> out | None \<Rightarrow> (t # ts) @ [lit ''-d''])"
    unfolding suggest_gofmt_dry_run_def gofmt_write_eq ..
  then have sug: "suggested_tokens (ia_key a) (t # ts) = us @ lit ''-d'' # ws"
    by (simp add: key us(4) del: replace_first.simps)
  show ?thesis
  proof (cases us)
    case Nil
    have "command_basename (lit ''-d'') = lit ''-d''"
      by (simp add: command_basename_plain str_eval)
    then have "direct_analysis (lit ''-d'' # ws) = None"
      using direct_analysis_program [of "lit ''-d''" ws] by (cases "direct_analysis (lit ''-d'' # ws)") (auto simp: direct_programs_def lit_eq_iff)
    then show ?thesis
      unfolding sug Nil by (simp add: not_blocked_def)
  next
    case (Cons u us')
    then have "u = t"
      using us(1) by simp
    then show ?thesis
      unfolding sug Cons using assms(3) by (simp add: key suggestion_simps)
  qed
qed

section \<open>Cargo, rustfmt and package scripts\<close>

lemma named_basename:
  assumes "eq_ignore_ascii_case t (lit w)" "name_word w"
  shows "command_basename t = lit w"
  using assms by (intro basename_of_word) (auto simp: name_word_def lit_def)

lemma other_manager_None:
  assumes "command_basename t = lit b" "lit b \<noteq> manager_label m"
  shows "analyze_package_manager (t # ts) m = None"
  using assms not_named [OF assms(1) _ name_words(3)] not_named [OF assms(1) _ name_words(4)]
    not_named [OF assms(1) _ name_words(5)]
  by (cases m) (auto simp: analyze_package_manager_def)

lemma direct_analysis_other:
  assumes "command_basename t = lit b" "b \<notin> set direct_programs"
  shows "direct_analysis (t # ts) = None"
  using assms direct_analysis_program [of t ts]
  by (cases "direct_analysis (t # ts)") (auto simp: lit_eq_iff)

lemma analyze_tokens_cargo:
  assumes "eq_ignore_ascii_case t (lit ''cargo'')"
  shows "analyze_tokens (t # ts) = analyze_cargo (t # ts)"
proof -
  have b: "command_basename t = lit ''cargo''"
    by (rule named_basename [OF assms name_words(1)])
  have "analyze_rustfmt (t # ts) = None"
    using not_named [OF b _ name_words(2)] by (simp add: analyze_rustfmt_def)
  moreover have "analyze_package_manager (t # ts) m = None" for m
    by (rule other_manager_None [OF b]) (cases m; simp add: lit_eq_iff)
  moreover have "analyze_direct_formatter (t # ts) = None"
    using b direct_analysis_other [OF b] by (simp add: analyze_direct_formatter_def lit_eq_iff direct_programs_def)
  ultimately show ?thesis
    by (simp add: analyze_tokens_def or_else_def split: option.splits)
qed

lemma analyze_tokens_rustfmt:
  assumes "eq_ignore_ascii_case t (lit ''rustfmt'')"
  shows "analyze_tokens (t # ts) = analyze_rustfmt (t # ts)"
proof -
  have b: "command_basename t = lit ''rustfmt''"
    by (rule named_basename [OF assms name_words(2)])
  show ?thesis
    using assms not_named [OF b _ name_words(1)]
    by (simp add: analyze_tokens_def or_else_def analyze_cargo_def analyze_rustfmt_def)
qed

lemma analyze_tokens_package:
  assumes "eq_ignore_ascii_case t (manager_label m)"
  shows "analyze_tokens (t # ts) = or_else (analyze_package_manager (t # ts) m) (analyze_direct_formatter (t # ts))"
proof -
  obtain w where w: "manager_label m = lit w" "name_word w" "w \<in> {''npm'', ''pnpm'', ''yarn''}"
    by (cases m) (auto simp: name_words)
  have b: "command_basename t = lit w"
    using named_basename assms w by metis
  have "analyze_cargo (t # ts) = None" "analyze_rustfmt (t # ts) = None"
    using not_named [OF b _ name_words(1)] not_named [OF b _ name_words(2)] w(3)
    by (auto simp: analyze_cargo_def analyze_rustfmt_def)
  moreover have "analyze_package_manager (t # ts) m' = None" if "m' \<noteq> m" for m'
    using that w(1) by (intro other_manager_None [OF b]) (cases m; cases m'; auto simp: lit_eq_iff)
  ultimately show ?thesis
    by (cases m) (simp_all add: analyze_tokens_def or_else_def split: option.splits)
qed

lemma position_append:
  "\<forall>x \<in> set ps. \<not> P x \<Longrightarrow> position P (ps @ xs) = map_option ((+) (length ps)) (position P xs)"
  by (induction ps; cases "position P xs") auto

lemma insert_at_append: "insert_at (length ps + n) x (ps @ xs) = ps @ insert_at n x xs"
  by (simp add: insert_at_def)

lemma any_of_insert_at: "any_of [f] (insert_at n (lit f) xs)"
  by (simp add: insert_at_def)

text \<open>The words of a cargo command line: the toolchain, the subcommand and its arguments.\<close>

lemma cargo_words:
  assumes "analyze_cargo tokens = Some a"
  obtains cargo chain sub args where "tokens = (cargo # chain @ [sub]) @ args"
    "eq_ignore_ascii_case cargo (lit ''cargo'')" "list_all (\<lambda>t. starts_with t (lit ''+'')) chain"
    "\<not> starts_with sub (lit ''+'')"
    "command_basename sub \<in> lit ` {''fmt'', ''fix'', ''clippy''}"
proof -
  obtain cargo after where t: "tokens = cargo # after" "eq_ignore_ascii_case cargo (lit ''cargo'')"
    using assms by (auto simp: analyze_cargo_def split: list.splits if_splits)
  obtain sub args where d: "dropWhile (\<lambda>t. starts_with t (lit ''+'')) after = sub # args"
    and sub: "command_basename sub \<in> lit ` {''fmt'', ''fix'', ''clippy''}"
    using assms t by (auto simp: analyze_cargo_def Let_def split: list.splits if_splits)
  have "after = takeWhile (\<lambda>t. starts_with t (lit ''+'')) after @ sub # args"
    by (metis d takeWhile_dropWhile_id)
  moreover have "list_all (\<lambda>t. starts_with t (lit ''+'')) (takeWhile (\<lambda>t. starts_with t (lit ''+'')) after)"
    by (auto simp: list_all_iff dest: set_takeWhileD)
  moreover have "\<not> starts_with sub (lit ''+'')"
    using hd_dropWhile [of "\<lambda>t. starts_with t (lit ''+'')" after] d by simp
  ultimately show thesis
    using that [of cargo "takeWhile (\<lambda>t. starts_with t (lit ''+'')) after" sub args] t sub by simp
qed

lemma analyze_cargo_words:
  assumes "eq_ignore_ascii_case cargo (lit ''cargo'')" "list_all (\<lambda>t. starts_with t (lit ''+'')) chain"
    "\<not> starts_with sub (lit ''+'')"
  shows "analyze_cargo ((cargo # chain @ [sub]) @ args) =
    (if command_basename sub = lit ''fmt'' then Some (analysis_of CargoFmt (any_of [''--check''] args) (lit ''cargo fmt''))
     else if command_basename sub = lit ''fix'' then Some (analysis_of CargoFix (any_of [''--dry-run''] args) (lit ''cargo fix''))
     else if command_basename sub = lit ''clippy''
     then (if \<not> any_of [''--fix''] args then None
           else Some (analysis_of CargoClippyFix (any_of [''--dry-run''] args) (lit ''cargo clippy --fix'')))
     else None)"
proof -
  have "dropWhile (\<lambda>t. starts_with t (lit ''+'')) (chain @ sub # args) = sub # args"
    using assms(2,3) by (simp add: dropWhile_append3 list_all_iff)
  then show ?thesis
    using assms(1) by (simp add: analyze_cargo_def Let_def slice_contains_any_of)
qed

lemma cargo_prefix:
  assumes "eq_ignore_ascii_case cargo (lit ''cargo'')" "list_all (\<lambda>t. starts_with t (lit ''+'')) chain"
    "command_basename sub \<in> lit ` {''fmt'', ''fix'', ''clippy''}"
  shows "\<forall>t \<in> set (cargo # chain @ [sub]). t \<noteq> lit ''--''"
    "f \<in> {''--check'', ''--dry-run'', ''--fix''} \<Longrightarrow> \<not> any_of [f] (cargo # chain @ [sub])"
proof -
  have cargo: "command_basename cargo = lit ''cargo''"
    by (rule named_basename [OF assms(1) name_words(1)])
  obtain s where s: "command_basename sub = lit s" "s \<in> {''fmt'', ''fix'', ''clippy''}"
    using assms(3) by auto
  have dashes: "command_basename (lit ''--'') = lit ''--''"
    by (simp add: command_basename_plain str_eval)
  have chain: "t \<noteq> lit ''--''" "\<not> eq_ignore_ascii_case t (lit (CHR ''-'' # g))" if "t \<in> set chain" for t g
    using assms(2) that by (cases t; auto simp: list_all_iff str_eval)+
  show "\<forall>t \<in> set (cargo # chain @ [sub]). t \<noteq> lit ''--''"
    using chain(1) cargo s dashes by (auto simp: lit_eq_iff)
  assume f: "f \<in> {''--check'', ''--dry-run'', ''--fix''}"
  then obtain g where g: "f = CHR ''-'' # g"
    by (elim insertE emptyE) simp_all
  have "hd s \<noteq> CHR ''-''"
    using s(2) by auto
  then have "s \<noteq> f" "f \<noteq> ''cargo''"
    by (auto simp: g)
  moreover have "name_word f"
    using f name_words(6,8,11) by auto
  ultimately have "\<not> eq_ignore_ascii_case cargo (lit f)" "\<not> eq_ignore_ascii_case sub (lit f)"
    using not_named [OF cargo] not_named [OF s(1)] by metis+
  moreover have "\<not> any_of [f] chain"
    using chain(2) by (auto simp: any_of_def list_ex_iff g)
  ultimately show "\<not> any_of [f] (cargo # chain @ [sub])"
    by simp
qed

lemma remove_first_flag_append:
  "\<not> any_of [f] ps \<Longrightarrow> remove_first_flag (lit f) (ps @ xs) = ps @ remove_first_flag (lit f) xs"
  by (induction ps) auto

lemma remove_first_flag_none:
  "length (filter (\<lambda>t. eq_ignore_ascii_case t (lit f)) xs) \<le> 1 \<Longrightarrow> \<not> any_of [f] (remove_first_flag (lit f) xs)"
proof -
  let ?P = "\<lambda>t. eq_ignore_ascii_case t (lit f)"
  have "filter ?P (remove_first_flag (lit f) xs) = tl (filter ?P xs)"
    by (induction xs) auto
  moreover assume "length (filter ?P xs) \<le> 1"
  ultimately have "filter ?P (remove_first_flag (lit f) xs) = []"
    by (cases "filter ?P xs") simp_all
  then show ?thesis
    by (auto simp: any_of_def list_ex_iff filter_empty_conv)
qed

lemma cargo_suggestion:
  assumes a: "analyze_cargo tokens = Some a" "ia_disposition a = Mutating"
    and fixes_once: "length (filter (\<lambda>t. eq_ignore_ascii_case t (lit ''--fix'')) tokens) \<le> 1"
  shows "not_blocked (ia_key a) (analyze_tokens (suggested_tokens (ia_key a) tokens))"
proof -
  obtain cargo chain sub args where t: "tokens = (cargo # chain @ [sub]) @ args"
    "eq_ignore_ascii_case cargo (lit ''cargo'')" "list_all (\<lambda>t. starts_with t (lit ''+'')) chain"
    "\<not> starts_with sub (lit ''+'')"
    and sub: "command_basename sub \<in> lit ` {''fmt'', ''fix'', ''clippy''}"
    using cargo_words [OF a(1)] .
  let ?ps = "cargo # chain @ [sub]"
  note words = analyze_cargo_words [OF t(2-4)]
  have result: "analyze_tokens (?ps @ xs) = analyze_cargo (?ps @ xs)" for xs
    using analyze_tokens_cargo [OF t(2)] by simp
  note prefix = cargo_prefix [OF t(2,3) sub]
  have dash: "position (\<lambda>t. t = lit ''--'') (?ps @ args) = map_option ((+) (length ?ps)) (position (\<lambda>t. t = lit ''--'') args)"
    using prefix(1) by (intro position_append) blast
  from sub consider (c_fmt) "command_basename sub = lit ''fmt''" | (c_fix) "command_basename sub = lit ''fix''"
    | (c_clippy) "command_basename sub = lit ''clippy''"
    by auto
  then show ?thesis
  proof cases
    case c_fmt
    have a': "ia_key a = CargoFmt" "\<not> any_of [''--check''] args"
      using a words [of args] t(1) c_fmt by auto
    have "\<exists>xs. suggest_cargo_fmt_dry_run (?ps @ args) = ?ps @ xs \<and> any_of [''--check''] xs"
    proof (cases "position (\<lambda>t. t = lit ''--'') args")
      case None
      then show ?thesis
        by (auto simp: suggest_cargo_fmt_dry_run_def dash simp del: append_Cons append.simps position.simps)
    next
      case (Some n)
      have "\<not> any_of [''--check''] (drop (n + 1) args)"
        using a'(2) by (auto simp: any_of_def list_ex_iff dest: in_set_dropD)
      then have "suggest_cargo_fmt_dry_run (?ps @ args) = insert_at (length ?ps + (n + 1)) (lit ''--check'') (?ps @ args)"
        using Some dash by (simp add: suggest_cargo_fmt_dry_run_def slice_contains_any_of)
      then show ?thesis
        using insert_at_append [of ?ps "n + 1"] any_of_insert_at by metis
    qed
    then show ?thesis
      using result words c_fmt by (auto simp: a' t(1) not_blocked_def)
  next
    case c_fix
    have a': "ia_key a = CargoFix" "\<not> any_of [''--dry-run''] args"
      using a words [of args] t(1) c_fix by (auto simp: lit_eq_iff)
    have "\<not> any_of [''--dry-run''] (?ps @ args)"
      using a'(2) prefix(2) [of "''--dry-run''"] by simp
    moreover have "\<exists>n. dash_dash_or_end (?ps @ args) = length ?ps + n"
      using dash by (auto simp: dash_dash_or_end_def simp del: append_Cons append.simps position.simps split: option.splits)
    ultimately have "\<exists>xs. suggest_cargo_fix_dry_run (?ps @ args) = ?ps @ xs \<and> any_of [''--dry-run''] xs"
      using insert_at_append [of ?ps] any_of_insert_at by (metis suggest_cargo_fix_dry_run_def slice_contains_any_of)
    then show ?thesis
      using result words c_fix by (auto simp: a' t(1) not_blocked_def lit_eq_iff)
  next
    case c_clippy
    have a': "ia_key a = CargoClippyFix"
      using a words [of args] t(1) c_clippy by (auto simp: lit_eq_iff split: if_splits)
    have none: "\<not> any_of [''--fix''] (remove_first_flag (lit ''--fix'') args)"
      using fixes_once by (intro remove_first_flag_none) (simp add: t(1) split: if_splits)
    have "suggested_tokens (ia_key a) tokens = ?ps @ remove_first_flag (lit ''--fix'') args"
      unfolding t(1) a' suggested_tokens.simps suggest_cargo_clippy_dry_run_def
      by (rule remove_first_flag_append) (use prefix(2) in simp)
    then show ?thesis
      using result words none c_clippy by (simp add: not_blocked_def lit_eq_iff)
  qed
qed

lemma rustfmt_suggestion:
  assumes "analyze_rustfmt (t # ts) = Some a" "ia_disposition a = Mutating"
  shows "not_blocked (ia_key a) (analyze_tokens (suggested_tokens (ia_key a) (t # ts)))"
proof -
  have t: "eq_ignore_ascii_case t (lit ''rustfmt'')" and a: "ia_key a = Rustfmt" "\<not> any_of [''--check''] ts"
    using assms by (auto simp: analyze_rustfmt_def slice_contains_any_of split: if_splits)
  have "\<not> eq_ignore_ascii_case t (lit ''--check'')"
    using not_named [OF named_basename [OF t name_words(2)] _ name_words(6)] by simp
  then have "suggested_tokens (ia_key a) (t # ts) = t # ts @ [lit ''--check'']"
    using a by (simp add: suggest_rustfmt_dry_run_def slice_contains_any_of)
  then show ?thesis
    using t a by (simp add: analyze_tokens_rustfmt [OF t] analyze_rustfmt_def not_blocked_def slice_contains_any_of)
qed

lemma locate_package_script_append:
  "locate_package_script tokens m = Some (i, script) \<Longrightarrow>
     locate_package_script (tokens @ extra) m = Some (i, script) \<and> i < length tokens \<and> tokens ! i = script \<and>
     (i = 1 \<or> i = 2 \<and> eq_ignore_ascii_case (tokens ! 1) (lit ''run''))"
  by (cases m) (auto simp: locate_npm_script_def locate_simple_script_def get_arg_def nth_append split: if_splits)

definition package_key :: "package_manager \<Rightarrow> rstr \<Rightarrow> dry_run_guard_key option" where
  "package_key m script =
     (let script_lower = to_ascii_lowercase script
      in if str_contains script_lower (lit ''lint'') then Some (PackageLint m)
         else if str_contains script_lower (lit ''format'') \<or> str_contains script_lower (lit ''fmt'') \<or>
                 str_contains script_lower (lit ''prettier'')
         then Some (PackageFormat m) else None)"

lemma analyze_package_script:
  assumes "tokens \<noteq> []" "eq_ignore_ascii_case (hd tokens) (manager_label m)"
    "locate_package_script tokens m = Some (i, script)" "i < length tokens" "1 \<le> i"
    "\<not> eq_ignore_ascii_case script (lit ''exec'')" "\<not> eq_ignore_ascii_case script (lit ''dlx'')"
  shows "analyze_package_manager tokens m =
    map_option (\<lambda>k. analysis_of k (list_ex package_arg_dry (drop (i + 1) tokens)) (manager_label m @ lit '' '' @ script))
      (package_key m script)"
  using assms by (auto simp: analyze_package_manager_def package_key_def Let_def)

lemma package_script_not_flag:
  assumes "package_key m script = Some k"
  shows "\<not> eq_ignore_ascii_case script (lit ''--check'')" "\<not> eq_ignore_ascii_case script (lit ''--dry-run'')"
  using assms
  by (auto simp: package_key_def Let_def eq_ignore_ascii_case_def)
    (simp_all add: str_eval split: if_splits)

lemma package_suggestion:
  assumes direct: "peel_exec_wrappers tokens = tokens" and manager: "tokens \<noteq> []" "eq_ignore_ascii_case (hd tokens) (manager_label m)"
    and a: "analyze_tokens tokens = Some a" "ia_disposition a = Mutating"
  shows "not_blocked (ia_key a) (analyze_tokens (suggested_tokens (ia_key a) tokens))"
proof -
  obtain t ts where tokens: "tokens = t # ts"
    using manager(1) by (cases tokens) auto
  obtain w where w: "manager_label m = lit w" "name_word w" "w \<in> {''npm'', ''pnpm'', ''yarn''}"
    by (cases m) (auto simp: name_words)
  have t: "eq_ignore_ascii_case t (manager_label m)" and b: "command_basename t = lit w"
    using manager w named_basename by (auto simp: tokens)
  have "w \<notin> set direct_programs"
    using w(3) by (auto simp: direct_programs_def)
  then have no_direct: "analyze_direct_formatter tokens = None"
    using direct direct_analysis_other [OF b] by (simp add: analyze_direct_formatter_def tokens)
  then have pm: "analyze_package_manager tokens m = Some a"
    using a(1) analyze_tokens_package [OF t, of ts] by (simp add: tokens or_else_def split: option.splits)
  then obtain i script where loc: "locate_package_script tokens m = Some (i, script)"
    and exec: "\<not> eq_ignore_ascii_case script (lit ''exec'')" "\<not> eq_ignore_ascii_case script (lit ''dlx'')"
    using no_direct by (auto simp: analyze_package_manager_def split: if_splits option.splits)
  note here = locate_package_script_append [OF loc]
  have i: "1 \<le> i" "i < length tokens" "tokens ! i = script"
    and at_run: "i = 1 \<or> i = 2 \<and> eq_ignore_ascii_case (tokens ! 1) (lit ''run'')"
    using here [of "[]"] by auto
  obtain k where k: "package_key m script = Some k" "ia_key a = k" and dry: "\<not> list_ex package_arg_dry (drop (i + 1) tokens)"
    using pm analyze_package_script [OF manager loc i(2,1) exec] a(2) by (auto split: if_splits)
  have flags: "\<not> eq_ignore_ascii_case x (lit f)" if f: "f \<in> {''--check'', ''--dry-run''}" and x: "x \<in> set tokens" for f x
  proof -
    obtain j where j: "j < length tokens" "x = tokens ! j"
      using x by (auto simp: in_set_conv_nth)
    have head: "\<not> eq_ignore_ascii_case t (lit f)"
      using not_named [OF b, of f] f w(3) name_words(6,8) by auto
    have run: "\<not> eq_ignore_ascii_case (tokens ! 1) (lit f)" if "eq_ignore_ascii_case (tokens ! 1) (lit ''run'')"
      using that f by (auto simp: eq_ignore_ascii_case_def str_eval)
    consider "j = 0" | "j = i" | "j = 1" "i = 2" | "i < j"
      using at_run by linarith
    then show ?thesis
    proof cases
      case 4
      then have "x \<in> set (drop (i + 1) tokens)"
        using j by (auto simp: in_set_conv_nth intro!: exI [of _ "j - (i + 1)"])
      then show ?thesis
        using dry f by (auto simp: list_ex_iff package_arg_dry_def)
    qed (use head run at_run j f i package_script_not_flag [OF k(1)] in \<open>auto simp: tokens\<close>)
  qed
  have none: "\<not> list_ex (\<lambda>t. eq_ignore_ascii_case t (lit ''--check'') \<or> eq_ignore_ascii_case t (lit ''--dry-run'')) tokens"
    "\<not> list_ex (\<lambda>t. eq_ignore_ascii_case t (lit ''--dry-run'') \<or> eq_ignore_ascii_case t (lit ''--check'')) tokens"
    using flags by (auto simp: list_ex_iff)
  have "k = PackageLint m \<or> k = PackageFormat m"
    using k(1) by (auto simp: package_key_def Let_def split: if_splits)
  then obtain f where f: "f \<in> {''--check'', ''--dry-run''}" "suggested_tokens k tokens = tokens @ [lit ''--'', lit f]"
  proof (elim disjE)
    assume "k = PackageLint m"
    then show thesis
      using that [of "''--dry-run''"] none(2) by (simp add: suggest_package_script_dry_run_def)
  next
    assume "k = PackageFormat m"
    then show thesis
      using that [of "''--check''"] none(1) by (simp add: suggest_package_script_dry_run_def)
  qed
  have "analyze_package_manager (tokens @ [lit ''--'', lit f]) m =
      map_option (\<lambda>k. analysis_of k (list_ex package_arg_dry (drop (i + 1) (tokens @ [lit ''--'', lit f])))
        (manager_label m @ lit '' '' @ script)) (package_key m script)"
    using here [of "[lit ''--'', lit f]"] exec i by (intro analyze_package_script) (auto simp: tokens t)
  moreover have "list_ex package_arg_dry (drop (i + 1) (tokens @ [lit ''--'', lit f]))"
    using i(2) f(1) by (auto simp: package_arg_dry_def)
  ultimately show ?thesis
    using analyze_tokens_package [OF t, of "ts @ [lit ''--'', lit f]"] f(2) k
    by (simp add: tokens or_else_def not_blocked_def)
qed

lemma direct_suggestion:
  assumes "command_basename t = lit b" "b \<in> set direct_programs"
    and a: "direct_analysis (t # ts) = Some a" "ia_disposition a = Mutating"
  shows "not_blocked (ia_key a) (analyze_tokens (suggested_tokens (ia_key a) (t # ts)))"
proof -
  have b: "b \<notin> {''cargo'', ''rustfmt'', ''npm'', ''pnpm'', ''yarn'', ''npx'', ''bunx''}"
    using assms(2) by (auto simp: direct_programs_def)
  let ?goal = "\<exists>t' ts'. suggested_tokens (ia_key a) (t # ts) = t' # ts' \<and> (t' = t \<or> t' = lit ''-d'') \<and>
    not_blocked (ia_key a) (direct_analysis (t' # ts'))"
  have ?goal
  proof (cases "b \<in> {''black'', ''ruff'', ''isort'', ''rustywind'', ''dart''}")
    case True
    then show ?thesis
      using append_suggestion [OF a assms(1)] by metis
  next
    case False
    then have "b = ''eslint'' \<or> b = ''prettier'' \<or> b = ''gofmt'' \<or> b = ''swiftformat''"
      using assms(2) by (simp add: direct_programs_def)
    then show ?thesis
    proof (elim disjE)
      assume "b = ''eslint''"
      then show ?thesis
        using eslint_suggestion [OF a] assms(1) by metis
    next
      assume "b = ''prettier''"
      then show ?thesis
        using prettier_suggestion [OF a] assms(1) by metis
    next
      assume "b = ''gofmt''"
      then show ?thesis
        using gofmt_suggestion [OF a] assms(1) by metis
    next
      assume "b = ''swiftformat''"
      then show ?thesis
        using swiftformat_suggestion [OF a] assms(1) by metis
    qed
  qed
  then obtain t' ts' where sug: "suggested_tokens (ia_key a) (t # ts) = t' # ts'" "t' = t \<or> t' = lit ''-d''"
    "not_blocked (ia_key a) (direct_analysis (t' # ts'))"
    by blast
  have "command_basename (lit ''-d'') = lit ''-d''"
    by (simp add: command_basename_plain str_eval)
  then have "analyze_tokens (t' # ts') = direct_analysis (t' # ts')"
    using sug(2) analyze_tokens_direct [OF assms(1) b] analyze_tokens_direct [of "lit ''-d''" "''-d''"] by auto
  then show ?thesis
    using sug by simp
qed

text \<open>
  The dry run that the guard suggests is accepted. When a command is blocked as one that rewrites
  files, it is no command started through a package runner and it has at most one fix flag, the
  suggested command is either no rewriting command any more or counts as a dry run of the same kind.
\<close>

theorem suggested_dry_run_accepted:
  assumes "analyze_tokens tokens = Some a" "ia_disposition a = Mutating"
    and "peel_exec_wrappers tokens = tokens"
    and "length (filter (\<lambda>t. eq_ignore_ascii_case t (lit ''--fix'')) tokens) \<le> 1"
  shows "not_blocked (ia_key a) (analyze_tokens (suggested_tokens (ia_key a) tokens))"
proof (cases tokens)
  case Nil
  then show ?thesis
    using assms(1) by (simp add: analyze_tokens_def or_else_def analyze_cargo_def analyze_rustfmt_def
      analyze_package_manager_def analyze_direct_formatter_def)
next
  case (Cons t ts)
  consider (cargo) "eq_ignore_ascii_case t (lit ''cargo'')" | (rustfmt) "eq_ignore_ascii_case t (lit ''rustfmt'')"
    | (package) m where "eq_ignore_ascii_case t (manager_label m)"
    | (direct) "\<not> eq_ignore_ascii_case t (lit ''cargo'')" "\<not> eq_ignore_ascii_case t (lit ''rustfmt'')"
      "\<And>m. \<not> eq_ignore_ascii_case t (manager_label m)"
    by blast
  then show ?thesis
  proof cases
    case cargo
    then show ?thesis
      using cargo_suggestion [of tokens a] assms by (simp add: Cons analyze_tokens_cargo)
  next
    case rustfmt
    then show ?thesis
      using rustfmt_suggestion [of t ts a] assms by (simp add: Cons analyze_tokens_rustfmt)
  next
    case package
    then show ?thesis
      using package_suggestion [OF assms(3) _ _ assms(1,2)] by (simp add: Cons)
  next
    case direct
    then have "direct_analysis (t # ts) = Some a"
      using assms(1,3)
      by (simp add: Cons analyze_tokens_def or_else_def analyze_direct_formatter_def analyze_cargo_def
          analyze_rustfmt_def analyze_package_manager_def del: manager_label.simps)
    then show ?thesis
      using direct_analysis_program direct_suggestion assms(2) Cons by metis
  qed
qed

theorem suggested_dry_run_accepted_witness:
  "not_blocked Black (analyze_tokens (suggested_tokens Black [lit ''black'', lit ''app.py'']))"
proof -
  have base: "command_basename (lit ''black'') = lit ''black''"
    by (simp add: command_basename_plain str_eval)
  have peel: "peel_exec_wrappers [lit ''black'', lit ''app.py''] = [lit ''black'', lit ''app.py'']"
    by (simp add: base lit_eq_iff)
  have a: "analyze_tokens [lit ''black'', lit ''app.py''] = Some (analysis_of Black False (lit ''black''))"
    by (simp add: analyze_tokens_direct [OF base] direct_eqs(3) [OF base]) (simp add: eq_ignore_ascii_case_def str_eval)
  show ?thesis
    using suggested_dry_run_accepted [OF a _ peel] by (simp add: eq_ignore_ascii_case_def str_eval)
qed

text \<open>With a package runner the inserted flag can end up before the formatter and the suggestion is blocked again.\<close>

lemma runner_suggestion_blocked:
  defines "tokens \<equiv> map lit [''npx'', ''--'', ''eslint'', ''--fix'']"
  shows "suggested_tokens EslintFix tokens = map lit [''npx'', ''--fix-dry-run'', ''--'', ''eslint'', ''--fix'']"
    and "map_option ia_disposition (analyze_tokens tokens) = Some Mutating"
    and "map_option ia_disposition (analyze_tokens (suggested_tokens EslintFix tokens)) = Some Mutating"
proof -
  have base: "command_basename (lit ''npx'') = lit ''npx''" "command_basename (lit ''eslint'') = lit ''eslint''"
    by (simp_all add: command_basename_plain str_eval)
  show sug: "suggested_tokens EslintFix tokens = map lit [''npx'', ''--fix-dry-run'', ''--'', ''eslint'', ''--fix'']"
    by (simp add: tokens_def suggest_eslint_fix_dry_run_def dash_dash_or_end_def insert_at_def eq_ignore_ascii_case_def str_eval)
  have runner: "analyze_tokens (lit ''npx'' # ts) = direct_analysis (peel_exec_wrappers (skip_leading_flags ts))" for ts
    using other_manager_None [OF base(1), of _ ts]
    by (simp add: analyze_tokens_def or_else_def analyze_cargo_def analyze_rustfmt_def analyze_direct_formatter_def base
        lit_eq_iff) (simp add: eq_ignore_ascii_case_def str_eval)
  show "map_option ia_disposition (analyze_tokens tokens) = Some Mutating"
    "map_option ia_disposition (analyze_tokens (suggested_tokens EslintFix tokens)) = Some Mutating"
    unfolding sug
    by (simp_all add: tokens_def runner base lit_eq_iff direct_eqs(1)) (simp_all add: eq_ignore_ascii_case_def str_eval)
qed

section \<open>Only the last command of a plain script is analysed\<close>

definition analyze_words :: "rstr list \<Rightarrow> dry_run_analysis option" where
  "analyze_words words =
     (let tokens = strip_wrappers words
      in if tokens = [] then None
         else map_option (\<lambda>a. \<lparr>da_key = ia_key a, da_disposition = ia_disposition a, da_tokens = tokens,
                da_display_name = ia_display_name a, da_custom_suggested = ia_suggested a\<rparr>) (analyze_tokens tokens))"

text \<open>
  The dry-run guard only looks at the last command of a script that consists of plain commands:
  whatever the other commands are, the analysis of the script is the analysis of its last command.
\<close>

theorem only_last_command_analysed:
  assumes "extract_shell_script argv = Some (i, script)" "plain_script lib script (cs @ [c])"
    and "\<not> is_small_formatting_command c" "summarize_main_tokens lib c = Unknown cmd"
    and "\<not> removable lib (Unknown cmd)" and "shlex_split lib cmd = Some c"
  shows "analyze_command lib argv = analyze_words c"
proof -
  obtain rest where "parse_command_impl lib argv = Unknown cmd # rest"
    using plain_script_first [OF assms(1-5)] .
  then show ?thesis
    using assms(6) by (simp add: analyze_command_def first_command_tokens_def analyze_words_def Let_def)
qed

text \<open>The script \<open>cargo fmt && cargo test\<close> as the parser reads it.\<close>

definition sample_command :: "nat \<Rightarrow> string \<Rightarrow> string \<Rightarrow> ts_node" where
  "sample_command i name arg =
     TsNode (lit ''command'') True i None
       [TsNode (lit ''command_name'') True i None [TsNode (lit ''word'') True i (Some (lit name)) []],
        TsNode (lit ''word'') True (i + 1) (Some (lit arg)) []]"

definition sample_tree :: ts_tree where
  "sample_tree =
     \<lparr>root_node = TsNode (lit ''program'') True 0 None
        [TsNode (lit ''list'') True 0 None
          [sample_command 0 ''cargo'' ''fmt'', TsNode (lit ''&&'') False 10 None [], sample_command 13 ''cargo'' ''test'']],
      root_has_error = False\<rparr>"

definition sample_lib :: parse_lib where
  "sample_lib =
     \<lparr>try_parse_bash = (\<lambda>s. if s = lit ''cargo fmt && cargo test'' then Some sample_tree else None),
      shlex_split = (\<lambda>s. Some (split_whitespace s)),
      shlex_try_join = (\<lambda>tokens. Some (join (lit '' '') tokens))\<rparr>"

lemma sample_plain_script:
  "plain_script sample_lib (lit ''cargo fmt && cargo test'') ([[lit ''cargo'', lit ''fmt'']] @ [[lit ''cargo'', lit ''test'']])"
proof -
  have "collect_commands [root_node sample_tree] [] =
      Some [sample_command 13 ''cargo'' ''test'', sample_command 0 ''cargo'' ''fmt'']"
    by (simp add: sample_tree_def sample_command_def node_allowed_def is_command_node_def ALLOWED_KINDS_def
        ALLOWED_PUNCT_TOKENS_def lit_eq_iff)
  then show ?thesis
    by (simp add: plain_script_def sample_lib_def try_parse_word_only_commands_sequence_def)
      (simp add: sample_tree_def sample_command_def parse_plain_command_from_node_def parse_plain_word_def lit_eq_iff)
qed

theorem only_last_command_analysed_witness:
  "analyze_command sample_lib [lit ''bash'', lit ''-lc'', lit ''cargo fmt && cargo test''] = None"
proof -
  have script: "extract_shell_script [lit ''bash'', lit ''-lc'', lit ''cargo fmt && cargo test''] =
      Some (2, lit ''cargo fmt && cargo test'')"
    by (simp add: extract_shell_script_def is_shell_like_executable_def file_name_def path_parts_def Let_def str_eval)
  have c: "\<not> is_small_formatting_command [lit ''cargo'', lit ''test'']"
      "summarize_main_tokens sample_lib [lit ''cargo'', lit ''test''] = Unknown (lit ''cargo test'')"
    by (simp_all add: is_small_formatting_command_def summarize_main_tokens_def shlex_join_def sample_lib_def lit_eq_iff)
      (simp add: lit_def)
  have split: "shlex_split sample_lib (lit ''cargo test'') = Some [lit ''cargo'', lit ''test'']"
    by (simp add: sample_lib_def str_eval)
  have "\<not> removable sample_lib (Unknown (lit ''cargo test''))"
    by (simp add: removable_def first_word_is_def is_plain_nl_def split lit_eq_iff)
  from only_last_command_analysed [OF script sample_plain_script c this split]
  have "analyze_command sample_lib [lit ''bash'', lit ''-lc'', lit ''cargo fmt && cargo test''] =
      analyze_words [lit ''cargo'', lit ''test'']" .
  also have "\<dots> = None"
  proof -
    have base: "command_basename (lit ''test'') = lit ''test''"
      by (simp add: command_basename_plain str_eval)
    have "strip_wrappers [lit ''cargo'', lit ''test''] = [lit ''cargo'', lit ''test'']"
      by (simp add: is_env_assignment_def is_wrapper_def str_eval)
    moreover have "analyze_cargo [lit ''cargo'', lit ''test''] = None"
      by (simp add: analyze_cargo_def base lit_eq_iff)
    ultimately show ?thesis
      by (simp add: analyze_words_def analyze_tokens_cargo)
  qed
  finally show ?thesis .
qed

end
