(* ===== verification/Command_Guards_Props.thy ===== *)
theory Command_Guards_Props
  imports Command_Guards Dry_Run_Props
begin

text \<open>
  What the guards in front of shell commands guarantee: which forms of git they stop wherever they
  stand in a script, that the answer to a blocked command tells how to run it, and when a formatter may
  run without being confirmed.
\<close>

section \<open>Scripts as sequences of commands\<close>

definition separators :: "nat set" where
  "separators = {59, 10, 13, 124, 38}"

lemma split_matches_not_Nil [simp]: "split_matches P s \<noteq> []"
  by (induction s) (auto split: list.splits)

lemma split_matches_union:
  "concat (map (split_matches Q) (split_matches P s)) = split_matches (\<lambda>c. P c \<or> Q c) s"
proof (induction s)
  case (Cons c s)
  obtain w ws where w: "split_matches P s = w # ws"
    by (cases "split_matches P s") auto
  obtain v vs where v: "split_matches Q w = v # vs"
    by (cases "split_matches Q w") auto
  have "split_matches (\<lambda>c. P c \<or> Q c) s = v # vs @ concat (map (split_matches Q) ws)"
    using Cons by (simp add: w v)
  then show ?case
    by (simp add: w v)
qed simp

lemma split_matches_append:
  "P d \<Longrightarrow> split_matches P (a @ d # b) = split_matches P a @ split_matches P b"
proof (induction a)
  case (Cons c a)
  then show ?case
    by (cases "split_matches P a") auto
qed simp

lemma split_matches_plain: "list_all (\<lambda>c. \<not> P c) s \<Longrightarrow> split_matches P s = [s]"
  by (induction s) auto

lemma split_matches_join:
  assumes "ws \<noteq> []" "\<forall>w \<in> set ws. list_all (\<lambda>c. \<not> P c) w" "P d"
  shows "split_matches P (join [d] ws) = ws"
  using assms
proof (induction ws rule: induct_list012)
  case (3 x y zs)
  then show ?case
    using split_matches_append [of P d x "join [d] (y # zs)"] by (simp add: split_matches_plain)
qed (simp_all add: split_matches_plain)

lemma split_whitespace_join:
  assumes "\<forall>w \<in> set ws. w \<noteq> [] \<and> list_all (\<lambda>c. \<not> is_whitespace c) w"
  shows "split_whitespace (join [32] ws) = ws"
proof (cases "ws = []")
  case False
  then have "split_matches is_whitespace (join [32] ws) = ws"
    using assms by (intro split_matches_join) (auto simp: is_whitespace_def)
  then show ?thesis
    using assms by (simp add: split_whitespace_def)
qed (simp add: split_whitespace_def)

lemma script_parts_split: "script_parts s = split_matches (\<lambda>c. c \<in> separators) s"
  unfolding script_parts_def split_matches_union separators_def
  by (rule arg_cong [where f = "\<lambda>P. split_matches P s"]) auto

text \<open>A piece between separators, or at an end of the text, is one of the parts.\<close>

lemma script_part_between:
  assumes "list_all (\<lambda>c. c \<notin> separators) s"
    and "a = [] \<or> last a \<in> separators" "b = [] \<or> hd b \<in> separators"
  shows "s \<in> set (script_parts (a @ s @ b))"
proof -
  have b: "s \<in> set (split_matches (\<lambda>c. c \<in> separators) (s @ b))"
    using assms(1,3) split_matches_append [of "\<lambda>c. c \<in> separators" "hd b" s "tl b"]
    by (cases b) (auto simp: split_matches_plain)
  show ?thesis
  proof (cases a rule: rev_cases)
    case (snoc a' d)
    then show ?thesis
      using b assms(2) split_matches_append [of "\<lambda>c. c \<in> separators" d a' "s @ b"]
      by (simp add: script_parts_split)
  qed (simp add: script_parts_split b)
qed

section \<open>Quotes\<close>

lemma clean_script_append: "clean_script st (a @ b) = clean_script st a @ clean_script (foldl scan_char st a) b"
  by (induction a arbitrary: st) auto

text \<open>Words that the scanner leaves alone.\<close>

definition plain_char :: "rchar \<Rightarrow> bool" where
  "plain_char c \<longleftrightarrow> \<not> is_whitespace c \<and> c \<notin> separators \<and> c \<notin> {34, 39, 92, 40, 41, 123, 125}"

definition plain_word :: "rstr \<Rightarrow> bool" where
  "plain_word w \<longleftrightarrow> w \<noteq> [] \<and> list_all plain_char w"

lemma clean_script_plain:
  assumes "list_all (\<lambda>c. c \<notin> {34, 39, 92}) s" "\<not> in_squote st" "\<not> in_dquote st" "\<not> prev_was_backslash st"
  shows "clean_script st s = s \<and> foldl scan_char st s = st"
  using assms
proof (induction s arbitrary: st)
  case (Cons c s)
  have "scan_char st c = st"
    using Cons.prems by (cases st) (simp add: scan_char_def)
  then show ?case
    using Cons by (simp add: clean_char_def is_quote_edge_def)
qed simp

lemma plain_words_text:
  assumes "list_all plain_word ws"
  shows "list_all (\<lambda>c. c \<notin> {34, 39, 92}) (join [32] ws)" "list_all (\<lambda>c. c \<notin> separators) (join [32] ws)"
proof -
  have "c = 32 \<or> plain_char c" if "c \<in> set (join [32] ws)" for c
    using that assms by (induction ws rule: induct_list012) (auto simp: plain_word_def list_all_iff)
  moreover have "c \<notin> {34, 39, 92} \<and> c \<notin> separators" if "c = 32 \<or> plain_char c" for c
    using that by (auto simp: plain_char_def separators_def)
  ultimately show "list_all (\<lambda>c. c \<notin> {34, 39, 92}) (join [32] ws)" "list_all (\<lambda>c. c \<notin> separators) (join [32] ws)"
    by (simp_all add: list_all_iff)
qed

lemma strip_tok_plain: "plain_word w \<Longrightarrow> strip_tok w = w"
  unfolding strip_tok_def
  by (rule trim_matches_id) (auto simp: plain_word_def plain_char_def list_all_iff dest!: hd_in_set last_in_set)

section \<open>Git command lines\<close>

text \<open>
  The words before \<open>git\<close>: assignments, and wrappers with their flags; the global options of git, with
  or without a value.
\<close>

datatype lead_item = Assignment rstr | Wrapper rstr "rstr list"

datatype global_item = GlobalFlag rstr | GlobalValue rstr rstr

fun lead_words :: "lead_item \<Rightarrow> rstr list" where
  "lead_words (Assignment w) = [w]"
| "lead_words (Wrapper w flags) = w # flags"

fun lead_ok :: "lead_item \<Rightarrow> bool" where
  "lead_ok (Assignment w) \<longleftrightarrow> plain_word w \<and> is_assignment w"
| "lead_ok (Wrapper w flags) \<longleftrightarrow>
     plain_word w \<and> w \<in> set argv_wrappers \<and> list_all (\<lambda>f. plain_word f \<and> is_flag f) flags"

fun global_words :: "global_item \<Rightarrow> rstr list" where
  "global_words (GlobalFlag w) = [w]"
| "global_words (GlobalValue w v) = [w, v]"

definition valued_globals :: "rstr list" where
  "valued_globals = map lit [''-C'', ''--git-dir'', ''--work-tree'', ''-c'']"

fun global_ok :: "global_item \<Rightarrow> bool" where
  "global_ok (GlobalFlag w) \<longleftrightarrow> plain_word w \<and> is_flag w \<and> w \<notin> set valued_globals"
| "global_ok (GlobalValue w v) \<longleftrightarrow> w \<in> set valued_globals \<and> plain_word v"

definition git_line :: "lead_item list \<Rightarrow> rstr \<Rightarrow> global_item list \<Rightarrow> rstr \<Rightarrow> rstr list \<Rightarrow> rstr list" where
  "git_line leads git globals sub args =
     concat (map lead_words leads) @ git # concat (map global_words globals) @ sub # args"

definition git_line_ok :: "lead_item list \<Rightarrow> rstr \<Rightarrow> global_item list \<Rightarrow> rstr \<Rightarrow> rstr list \<Rightarrow> bool" where
  "git_line_ok leads git globals sub args \<longleftrightarrow>
     list_all lead_ok leads \<and> plain_word git \<and> is_git git \<and> \<not> is_assignment git \<and> \<not> is_flag git \<and>
     list_all global_ok globals \<and> plain_word sub \<and> \<not> is_flag sub \<and> list_all plain_word args"

lemma plain_literals:
  "plain_word (lit ''-C'')" "plain_word (lit ''--git-dir'')" "plain_word (lit ''--work-tree'')" "plain_word (lit ''-c'')"
  by (simp_all add: plain_word_def plain_char_def separators_def str_eval)

lemma wrapper_not_assignment: "w \<in> set argv_wrappers \<Longrightarrow> \<not> is_assignment w"
  by (auto simp: argv_wrappers_def is_assignment_def str_eval)

lemma is_git_not_wrapper: "is_git git \<Longrightarrow> git \<notin> set script_wrappers"
  by (auto simp: is_git_def script_wrappers_def argv_wrappers_def ends_with_iff str_eval append_eq_Cons_conv)

lemma dropWhile_flags:
  assumes "list_all (\<lambda>f. plain_word f \<and> is_flag f) flags" "rest = [] \<or> \<not> is_flag (strip_tok (hd rest))"
  shows "dropWhile (\<lambda>r. is_flag (strip_tok r)) (flags @ rest) = rest"
  using assms by (induction flags) (auto simp: strip_tok_plain dropWhile_eq_self_iff)

lemma lead_head_not_flag: "lead_ok l \<Longrightarrow> \<not> is_flag (strip_tok (hd (lead_words l @ rest)))"
  by (cases l) (auto simp: strip_tok_plain is_assignment_def argv_wrappers_def str_eval)

lemma skip_wrappers_leads:
  assumes "list_all lead_ok leads" "plain_word git" "is_git git" "\<not> is_assignment git" "\<not> is_flag git"
  shows "skip_wrappers script_wrappers (concat (map lead_words leads) @ git # rest) = git # rest"
  using assms(1)
proof (induction leads)
  case Nil
  then show ?case
    using assms(2-4) is_git_not_wrapper by (simp add: strip_tok_plain plain_word_def)
next
  case (Cons l leads)
  let ?tail = "concat (map lead_words leads) @ git # rest"
  have tail: "\<not> is_flag (strip_tok (hd ?tail))"
  proof (cases leads)
    case Nil
    then show ?thesis
      using assms(2,5) by (simp add: strip_tok_plain)
  next
    case (Cons l' leads')
    then show ?thesis
      using Cons.prems lead_head_not_flag [of l' "concat (map lead_words leads') @ git # rest"]
      by simp
  qed
  show ?case
  proof (cases l)
    case (Assignment w)
    then show ?thesis
      using Cons by (simp add: strip_tok_plain plain_word_def)
  next
    case (Wrapper w flags)
    then have "dropWhile (\<lambda>r. is_flag (strip_tok r)) (flags @ ?tail) = ?tail"
      using Cons.prems tail by (intro dropWhile_flags) auto
    then show ?thesis
      using Cons Wrapper wrapper_not_assignment by (auto simp: strip_tok_plain plain_word_def script_wrappers_def)
  qed
qed

lemma skip_git_globals_items:
  assumes "list_all global_ok globals" "plain_word sub" "\<not> is_flag sub"
  shows "skip_git_globals (concat (map global_words globals) @ sub # args) = sub # args"
  using assms(1)
proof (induction globals)
  case Nil
  then show ?case
    using assms(2,3) by (auto simp: strip_tok_plain plain_word_def Let_def starts_with_iff str_eval)
next
  case (Cons g globals)
  show ?case
  proof (cases g)
    case (GlobalFlag w)
    then show ?thesis
      using Cons by (auto simp: strip_tok_plain plain_word_def Let_def valued_globals_def)
  next
    case (GlobalValue w v)
    then have "plain_word w" "w \<in> set valued_globals"
      using Cons.prems plain_literals by (auto simp: valued_globals_def)
    then show ?thesis
      using Cons GlobalValue by (auto simp: strip_tok_plain plain_word_def Let_def valued_globals_def)
  qed
qed

text \<open>
  The forms of git that the guards are there for, as a user writes them. A name is what is neither a flag
  nor \<open>.\<close> or \<open>..\<close>, such as a branch or a revision.
\<close>

datatype git_action =
    Reset "rstr list"
  | Revert "rstr list"
  | CheckoutName rstr "rstr list"
  | CheckoutPrevious "rstr list"
  | CheckoutNew "rstr list" rstr "rstr list"
  | CheckoutFiles "rstr list" "rstr list"
  | SwitchName "rstr list" rstr "rstr list"
  | SwitchNew "rstr list" rstr "rstr list"
  | SwitchDetach "rstr list" "rstr list"

fun git_action_words :: "git_action \<Rightarrow> rstr list" where
  "git_action_words (Reset args) = lit ''reset'' # args"
| "git_action_words (Revert args) = lit ''revert'' # args"
| "git_action_words (CheckoutName n args) = lit ''checkout'' # n # args"
| "git_action_words (CheckoutPrevious args) = lit ''checkout'' # lit ''-'' # args"
| "git_action_words (CheckoutNew opts flag args) = lit ''checkout'' # opts @ flag # args"
| "git_action_words (CheckoutFiles opts files) = lit ''checkout'' # opts @ lit ''--'' # files"
| "git_action_words (SwitchName opts n args) = lit ''switch'' # opts @ n # args"
| "git_action_words (SwitchNew opts n args) = lit ''switch'' # opts @ lit ''-c'' # n # args"
| "git_action_words (SwitchDetach opts args) = lit ''switch'' # opts @ lit ''--detach'' # args"

definition git_name :: "rstr \<Rightarrow> bool" where
  "git_name n \<longleftrightarrow> plain_word n \<and> \<not> is_flag n \<and> n \<noteq> lit ''.'' \<and> n \<noteq> lit ''..''"

fun git_action_ok :: "git_action \<Rightarrow> bool" where
  "git_action_ok (CheckoutName n _) \<longleftrightarrow> git_name n"
| "git_action_ok (CheckoutNew _ flag _) \<longleftrightarrow> flag \<in> set (map lit [''-b'', ''-B'', ''--orphan'', ''--detach''])"
| "git_action_ok (SwitchName _ n _) \<longleftrightarrow> git_name n"
| "git_action_ok _ \<longleftrightarrow> True"

text \<open>What the guards themselves test.\<close>

definition recognised :: "rstr \<Rightarrow> rstr list \<Rightarrow> bool" where
  "recognised sub args \<longleftrightarrow>
     sub = lit ''reset'' \<or> sub = lit ''revert'' \<or>
     (sub = lit ''checkout'' \<and>
       (lit ''--'' \<in> set args \<or> list_ex (\<lambda>a. a \<in> set (map lit [''-b'', ''-B'', ''--orphan'', ''--detach''])) args \<or>
        (args \<noteq> [] \<and> (hd args = lit ''-'' \<or> \<not> is_flag (hd args) \<and> hd args \<noteq> lit ''.'' \<and> hd args \<noteq> lit ''..'')))) \<or>
     (sub = lit ''switch'' \<and> list_ex (\<lambda>a. \<not> is_flag a \<or> a = lit ''-c'' \<or> a = lit ''--detach'') args)"

lemma git_action_recognised:
  "git_action_ok act \<Longrightarrow> git_action_words act = sub # args \<Longrightarrow> recognised sub args"
  by (cases act) (auto simp: recognised_def git_name_def)

lemma map_strip_tok_plain: "list_all plain_word args \<Longrightarrow> map strip_tok args = args"
  by (induction args) (auto simp: strip_tok_plain)

lemma switch_changes_iff:
  "list_all plain_word args \<Longrightarrow>
     switch_changes args \<longleftrightarrow> list_ex (\<lambda>a. \<not> is_flag a \<or> a = lit ''-c'' \<or> a = lit ''--detach'') args"
  by (induction args) (auto simp: strip_tok_plain Let_def)

lemma git_line_plain:
  assumes "git_line_ok leads git globals sub args"
  shows "list_all plain_word (git_line leads git globals sub args)"
proof -
  have "list_all plain_word (lead_words l)" if "lead_ok l" for l
    using that by (cases l) (auto simp: list_all_iff)
  moreover have "list_all plain_word (global_words g)" if "global_ok g" for g
    using that plain_literals by (cases g) (auto simp: valued_globals_def)
  ultimately show ?thesis
    using assms by (auto simp: git_line_ok_def git_line_def list_all_iff)
qed

lemma trim_join_plain:
  assumes "list_all plain_word ws"
  shows "trim (join [32] ws) = join [32] ws"
proof (cases ws rule: rev_cases)
  case (snoc ws' w)
  have word: "v \<noteq> [] \<and> \<not> is_whitespace (hd v) \<and> \<not> is_whitespace (last v)" if "plain_word v" for v
    using that by (simp add: plain_word_def plain_char_def list_all_iff)
  have "\<not> is_whitespace (last (join [32] ws))"
    using word [of w] assms snoc join_snoc [of ws' "[32]" w] by (cases "ws' = []") auto
  moreover have "\<not> is_whitespace (hd (join [32] ws))"
  proof (cases ws)
    case (Cons v vs)
    then show ?thesis
      using word [of v] assms join_Cons_prefix [of "[32]" v vs] by auto
  qed (simp add: snoc)
  ultimately show ?thesis
    by (intro trim_id) blast
qed simp

lemma checkout_kind_iff:
  "checkout_kind args \<noteq> None \<longleftrightarrow>
     lit ''--'' \<in> set args \<or> list_ex (\<lambda>a. a \<in> set (map lit [''-b'', ''-B'', ''--orphan'', ''--detach''])) args \<or>
     (args \<noteq> [] \<and> (hd args = lit ''-'' \<or> \<not> is_flag (hd args) \<and> hd args \<noteq> lit ''.'' \<and> hd args \<noteq> lit ''..''))"
  by (cases args) (simp_all add: checkout_kind_def)

lemma script_part_kind_git:
  assumes "git_line_ok leads git globals sub args" "recognised sub args"
  shows "script_part_kind (join [32] (git_line leads git globals sub args)) \<noteq> None"
proof -
  let ?ws = "git_line leads git globals sub args"
  have plain: "list_all plain_word ?ws"
    by (rule git_line_plain [OF assms(1)])
  have words: "split_whitespace (join [32] ?ws) = ?ws"
    using plain by (intro split_whitespace_join) (auto simp: list_all_iff plain_word_def plain_char_def)
  have "split_whitespace (trim (join [32] ?ws)) = ?ws"
    using words by (simp add: trim_join_plain plain)
  moreover have "strip_tok git = git" "strip_tok sub = sub"
    using assms(1) by (simp_all add: git_line_ok_def strip_tok_plain)
  moreover have "skip_wrappers script_wrappers ?ws = git # concat (map global_words globals) @ sub # args"
    "skip_git_globals (concat (map global_words globals) @ sub # args) = sub # args" "is_git git"
    "map strip_tok args = args" "switch_changes args \<longleftrightarrow> list_ex (\<lambda>a. \<not> is_flag a \<or> a = lit ''-c'' \<or> a = lit ''--detach'') args"
    using assms(1) skip_wrappers_leads skip_git_globals_items
    by (simp_all add: git_line_ok_def git_line_def map_strip_tok_plain switch_changes_iff)
  ultimately have kind: "script_part_kind (join [32] ?ws) =
      (if sub = lit ''checkout'' then checkout_kind args
       else if sub = lit ''switch''
       then (if list_ex (\<lambda>a. \<not> is_flag a \<or> a = lit ''-c'' \<or> a = lit ''--detach'') args then Some BranchChange else None)
       else if sub = lit ''reset'' then Some GitReset
       else if sub = lit ''revert'' then Some GitRevert else None)"
    by (simp add: script_part_kind_def Let_def)
  from assms(2) show ?thesis
    unfolding recognised_def checkout_kind_iff [symmetric]
  proof (elim disjE conjE)
    assume "sub = lit ''reset''"
    then show ?thesis
      unfolding kind by (simp add: lit_def)
  next
    assume "sub = lit ''revert''"
    then show ?thesis
      unfolding kind by (simp add: lit_def)
  next
    assume "sub = lit ''checkout''" "checkout_kind args \<noteq> None"
    then show ?thesis
      unfolding kind by simp
  next
    assume "sub = lit ''switch''" and ex: "list_ex (\<lambda>a. \<not> is_flag a \<or> a = lit ''-c'' \<or> a = lit ''--detach'') args"
    moreover have "lit ''switch'' \<noteq> lit ''checkout''"
      by (simp add: lit_def)
    ultimately show ?thesis
      unfolding kind by simp
  qed
qed

lemma find_map_not_None: "find_map f xs \<noteq> None \<longleftrightarrow> (\<exists>x \<in> set xs. f x \<noteq> None)"
  by (induction xs) (auto split: option.splits)

lemma closed_last_separator:
  assumes "foldl scan_char unquoted a = unquoted" "a = [] \<or> last a \<in> separators"
  shows "clean_script unquoted a = [] \<or> last (clean_script unquoted a) \<in> separators"
proof (cases a rule: rev_cases)
  case (snoc a' d)
  define st where "st = foldl scan_char unquoted a'"
  have d: "d \<in> separators" "d \<notin> {34, 39, 92}"
    using assms(2) snoc by (auto simp: separators_def)
  then have "st\<lparr>prev_was_backslash := False\<rparr> = unquoted"
    using assms(1) snoc by (simp add: scan_char_def st_def)
  then have "\<not> in_squote st" "\<not> in_dquote st"
    by (cases st; simp add: unquoted_def)+
  then have "clean_char st d = d"
    using d by (simp add: clean_char_def is_quote_edge_def)
  then show ?thesis
    using d(1) by (simp add: snoc clean_script_append st_def)
qed simp

lemma trim_blanks:
  assumes "list_all is_whitespace l" "list_all is_whitespace r" "trim s = s" "s \<noteq> []"
  shows "trim (l @ s @ r) = s"
proof -
  have "\<not> is_whitespace (hd s)" "\<not> is_whitespace (last s)"
    using assms(3,4) trim_matches_ends [of is_whitespace s] by (auto simp: trim_def)
  then have "dropWhile is_whitespace (l @ s @ r) = s @ r" "dropWhile is_whitespace (rev (s @ r)) = rev s"
    using assms by (auto simp: dropWhile_append list_all_iff dropWhile_eq_Nil_conv dropWhile_eq_self_iff hd_rev hd_append)
  then show ?thesis
    by (simp add: trim_def trim_matches_def trim_start_matches_def trim_end_matches_def)
qed

lemma detect_git_line:
  assumes "git_line_ok leads git globals sub args" "recognised sub args" "set l \<union> set r \<subseteq> {9, 32}"
    and "foldl scan_char unquoted a = unquoted" "a = [] \<or> last a \<in> separators" "b = [] \<or> hd b \<in> separators"
  shows "detect_sensitive_git (a @ l @ join [32] (git_line leads git globals sub args) @ r @ b) \<noteq> None"
proof -
  let ?t = "join [32] (git_line leads git globals sub args)"
  let ?s = "l @ ?t @ r"
  have plain: "list_all plain_word (git_line leads git globals sub args)"
    by (rule git_line_plain [OF assms(1)])
  have blanks: "list_all is_whitespace l" "list_all is_whitespace r"
    using assms(3) by (auto simp: list_all_iff is_whitespace_def)
  have "c \<notin> {34, 39, 92} \<and> c \<notin> separators" if "c \<in> set l \<union> set r" for c
    using that assms(3) by (auto simp: separators_def)
  then have chars: "list_all (\<lambda>c. c \<notin> {34, 39, 92}) ?s" "list_all (\<lambda>c. c \<notin> separators) ?s"
    using plain_words_text [OF plain] unfolding list_all_append by (simp_all add: list_all_iff)
  have s: "clean_script unquoted ?s = ?s" "foldl scan_char unquoted ?s = unquoted"
    using clean_script_plain [OF chars(1), of unquoted] by (simp_all add: unquoted_def)
  have b: "clean_script unquoted b = [] \<or> hd (clean_script unquoted b) \<in> separators"
    using assms(6) by (cases b) (auto simp: clean_char_def is_quote_edge_def unquoted_def separators_def)
  have "clean_script unquoted (a @ ?s @ b) = clean_script unquoted a @ ?s @ clean_script unquoted b"
    using assms(4) s clean_script_append [of unquoted a "?s @ b"] clean_script_append [of unquoted ?s b] by simp
  then have part: "?s \<in> set (script_parts (clean_script unquoted (a @ ?s @ b)))"
    using script_part_between [OF chars(2) closed_last_separator [OF assms(4,5)] b] by simp
  have "?t \<noteq> []"
    using script_part_kind_git [OF assms(1,2)] by (auto simp: script_part_kind_def str_eval)
  then have "trim ?s = trim ?t"
    using trim_blanks [OF blanks trim_join_plain [OF plain]] trim_join_plain [OF plain] by simp
  then have "script_part_kind ?s = script_part_kind ?t"
    by (simp add: script_part_kind_def)
  then have "script_part_kind ?s \<noteq> None"
    using script_part_kind_git [OF assms(1,2)] by simp
  then have "detect_sensitive_git (a @ ?s @ b) \<noteq> None"
    unfolding detect_sensitive_git_def find_map_not_None using part by blast
  then show ?thesis
    by simp
qed

section \<open>The confirm prefix\<close>

lemma trim_start_idem [simp]: "trim_start (trim_start s) = trim_start s"
  by (simp add: trim_start_def trim_start_matches_def)

lemma trim_start_trim: "trim s = trim_end (trim_start s)"
  by (simp add: trim_def trim_start_def trim_end_def trim_matches_def)

lemma find_map_None_iff: "find_map f xs = None \<longleftrightarrow> (\<forall>x \<in> set xs. f x = None)"
  by (induction xs) (auto split: option.splits)

lemma confirm_text_prefix: "has_confirm_prefix (trim_start (confirm_text s))"
  by (simp add: has_confirm_prefix_def confirm_prefixes_def confirm_text_def trim_start_def trim_start_matches_def
      starts_with_def lit_def is_whitespace_def)

lemma without_confirm_text: "without_confirm_prefix (trim_start (confirm_text s)) = trim_start s"
proof -
  have start: "trim_start (confirm_text s) = lit ''confirm:'' @ 32 # s"
    by (simp add: confirm_text_def trim_start_def trim_start_matches_def lit_def is_whitespace_def)
  have "trim_start (32 # s) = trim_start s"
    by (simp add: trim_start_def trim_start_matches_def is_whitespace_def)
  then show ?thesis
    unfolding start by (simp add: without_confirm_prefix_def confirm_prefixes_def)
qed

definition starts_confirmed :: "rstr list \<Rightarrow> bool" where
  "starts_confirmed argv \<longleftrightarrow> argv \<noteq> [] \<and> list_ex (starts_with (trim (hd argv))) confirm_prefixes"

lemma strip_leading_id: "\<not> starts_confirmed argv \<Longrightarrow> strip_leading_confirm_prefix argv = argv"
  by (cases argv)
    (auto simp: strip_leading_confirm_prefix_def starts_confirmed_def confirm_prefixes_def starts_with_iff
      strip_prefix_None Let_def split: option.splits)

lemma trim_starts_with_word:
  assumes "starts_with (trim s) p" 
  shows "starts_with (trim_start s) p"
  using assms trim_end_split [of "trim_start s"] by (auto simp: trim_start_trim starts_with_iff)

fun resend_command :: "guidance \<Rightarrow> rstr list option" where
  "resend_command (PatternGuidance _ _ resend) = Some resend"
| "resend_command (GitGuidance _ _ resend) = Some resend"
| "resend_command (DryRunGuidance _ _ resend _) = Some resend"
| "resend_command _ = None"

fun original_text :: "guidance \<Rightarrow> rstr option" where
  "original_text (PatternGuidance _ orig _) = Some (case orig of InScript s \<Rightarrow> s | InArgv c \<Rightarrow> join (lit '' '') c)"
| "original_text (GitGuidance _ orig _) = Some (case orig of InScript s \<Rightarrow> s | InArgv c \<Rightarrow> join (lit '' '') c)"
| "original_text (DryRunGuidance _ orig _ _) = Some (case orig of InScript s \<Rightarrow> s | InArgv c \<Rightarrow> join (lit '' '') c)"
| "original_text _ = None"

lemma extract_update:
  "extract_shell_script command = Some (i, script) \<Longrightarrow>
     i < length command \<and> command ! i = script \<and> extract_shell_script (command[i := s]) = Some (i, s)"
  by (auto simp: extract_shell_script_def split: list.splits if_splits)

lemma dry_run_guard_shape:
  "dry_run_guard lib st command orig resend = Some g \<Longrightarrow> resend_command g = Some resend \<and>
     original_text g = Some (case orig of InScript s \<Rightarrow> s | InArgv c \<Rightarrow> join (lit '' '') c)"
  by (auto simp: dry_run_guard_def split: option.splits if_splits)

lemma write_guards_shape: "write_guards lib cwd command = Some g \<Longrightarrow> resend_command g = None"
  by (auto simp: write_guards_def split: option.splits)

lemma script_guards_blocked:
  assumes "script_guards lib guard st command = Inl g"
  obtains i script where "extract_shell_script command = Some (i, script)" "\<not> has_confirm_prefix (trim_start script)"
    "resend_command g = Some (command[i := confirm_text (trim_start script)])" "original_text g = Some script"
  using assms
  by (auto simp: script_guards_def unconfirmed_script_guard_def Let_def dest!: dry_run_guard_shape
      split: option.splits if_splits)

lemma argv_guards_blocked:
  assumes "argv_guards lib guard st command = Some g"
  shows "resend_command g = Some (argv_resend command) \<and> original_text g = Some (join (lit '' '') command)"
  using assms by (auto simp: argv_guards_def dest!: dry_run_guard_shape split: option.splits if_splits)

lemma confirmed_guards:
  assumes "extract_shell_script argv = Some (i, confirm_text s)" "\<not> starts_confirmed (argv[i := trim_start s])"
  shows "command_guards lib guard st cwd argv =
    (case write_guards lib cwd (argv[i := trim_start s]) of Some g \<Rightarrow> Inl g | None \<Rightarrow> Inr (argv[i := trim_start s]))"
proof -
  have "script_guards lib guard st argv = Inr (argv[i := trim_start s])"
    using assms(1) confirm_text_prefix [of s] without_confirm_text [of s] by (simp add: script_guards_def Let_def)
  moreover have "argv_guards lib guard st (argv[i := trim_start s]) = None"
    using extract_update [OF assms(1)] by (simp add: argv_guards_def)
  ultimately show ?thesis
    by (simp add: command_guards_def strip_leading_id [OF assms(2)] split: option.splits)
qed

lemma resend_result:
  assumes "command_guards lib guard st cwd command = Inl g" "resend_command g = Some argv" "original_text g = Some orig"
    and "\<not> starts_confirmed command"
  shows "\<exists>i t. extract_shell_script argv = Some (i, confirm_text t) \<and> trim_start t = trim_start orig \<and>
    \<not> starts_confirmed (argv[i := trim_start orig])"
proof (cases "script_guards lib guard st command")
  case (Inl g')
  then have "script_guards lib guard st command = Inl g"
    using assms(1) by (simp add: command_guards_def)
  then obtain i script where script: "extract_shell_script command = Some (i, script)" "\<not> has_confirm_prefix (trim_start script)"
    and g: "argv = command[i := confirm_text (trim_start script)]" "orig = script"
    using script_guards_blocked assms(2,3) by (metis option.inject)
  have "\<not> starts_confirmed (command[i := trim_start script])"
  proof (cases "i = 0")
    case True
    then obtain x where x: "command = [x]"
      using script(1) by (auto simp: extract_shell_script_def split: list.splits if_splits)
    show ?thesis
      using script(2) trim_starts_with_word [of "trim_start script"]
      by (auto simp: starts_confirmed_def has_confirm_prefix_def True x list_ex_iff)
  next
    case False
    then have "hd (command[i := trim_start script]) = hd command" "command \<noteq> []"
      using extract_update [OF script(1)] by (cases command; cases i; simp)+
    then show ?thesis
      using assms(4) by (simp add: starts_confirmed_def)
  qed
  then show ?thesis
    using extract_update [OF script(1), of "confirm_text (trim_start script)"] g by auto
next
  case (Inr command')
  define c where "c = strip_leading_confirm_prefix command'"
  have "argv_guards lib guard st c = Some g"
    using assms(1,2) Inr write_guards_shape [of lib cwd c] by (auto simp: command_guards_def c_def Let_def split: option.splits)
  then have g: "argv = argv_resend c" "orig = join (lit '' '') c"
    using argv_guards_blocked assms(2,3) by (metis option.inject)+
  have "extract_shell_script (argv_resend c) = Some (2, confirm_text (join (lit '' '') c))"
    by (simp add: argv_resend_def extract_shell_script_def is_shell_like_executable_def file_name_def path_parts_def Let_def str_eval)
  moreover have "\<not> starts_confirmed ((argv_resend c)[2 := trim_start orig])"
    by (simp add: starts_confirmed_def argv_resend_def confirm_prefixes_def str_eval)
  ultimately show ?thesis
    using g by auto
qed

lemma bash_script: "extract_shell_script [lit ''bash'', lit ''-lc'', s] = Some (2, s)"
  by (simp add: extract_shell_script_def is_shell_like_executable_def file_name_def path_parts_def Let_def str_eval)

lemma sample_reset_kind: "detect_sensitive_git (lit ''git reset'') = Some GitReset"
  by (simp add: detect_sensitive_git_def script_parts_def unquoted_def clean_char_def is_quote_edge_def scan_char_def
      script_part_kind_def strip_tok_def is_assignment_def script_wrappers_def argv_wrappers_def is_git_def str_eval)

text \<open>
  (C12) The answer to a blocked command says how to get past the guard: the argument vector it prints is a
  script that is no longer stopped by the pattern, git and dry-run guards, whatever they have recorded
  meanwhile. Only the guards against writing files and against a redundant change of directory may still
  stop it, and what passes on is that vector with, as its script, the original one (the joined words of a
  command that is no script) without its leading blanks.
\<close>

theorem resend_passes_guards:
  assumes "command_guards lib guard st cwd command = Inl g" "resend_command g = Some argv" "original_text g = Some orig"
    and "\<not> starts_confirmed command"
  shows "\<exists>i t. extract_shell_script argv = Some (i, t) \<and>
    command_guards lib guard' st' cwd argv =
      (case write_guards lib cwd (argv[i := trim_start orig]) of
         Some g' \<Rightarrow> Inl g'
       | None \<Rightarrow> Inr (argv[i := trim_start orig]))"
  using resend_result [OF assms] confirmed_guards by metis

theorem resend_passes_guards_witness:
  "\<exists>i t. extract_shell_script [lit ''bash'', lit ''-lc'', lit ''confirm: git reset''] = Some (i, t) \<and>
    command_guards sample_lib [] guard_state_default (lit ''/w'') [lit ''bash'', lit ''-lc'', lit ''confirm: git reset''] =
      (case write_guards sample_lib (lit ''/w'') ([lit ''bash'', lit ''-lc'', lit ''confirm: git reset''][i := lit ''git reset'']) of
         Some g' \<Rightarrow> Inl g'
       | None \<Rightarrow> Inr ([lit ''bash'', lit ''-lc'', lit ''confirm: git reset''][i := lit ''git reset'']))"
proof -
  have trim: "trim_start (lit ''git reset'') = lit ''git reset''"
    by (simp add: str_eval)
  have blocked: "command_guards sample_lib [] guard_state_default (lit ''/w'') [lit ''bash'', lit ''-lc'', lit ''git reset''] =
      Inl (GitGuidance GitReset (InScript (lit ''git reset'')) [lit ''bash'', lit ''-lc'', lit ''confirm: git reset''])"
  proof -
    have "\<not> has_confirm_prefix (lit ''git reset'')"
      by (simp add: has_confirm_prefix_def confirm_prefixes_def str_eval)
    moreover have "confirm_text (lit ''git reset'') = lit ''confirm: git reset''"
      by (simp add: confirm_text_def lit_def)
    ultimately show ?thesis
      by (simp add: command_guards_def script_guards_def bash_script trim unconfirmed_script_guard_def sample_reset_kind)
  qed
  have "\<not> starts_confirmed [lit ''bash'', lit ''-lc'', lit ''git reset'']"
    by (simp add: starts_confirmed_def confirm_prefixes_def str_eval)
  from resend_passes_guards [OF blocked _ _ this, of "[lit ''bash'', lit ''-lc'', lit ''confirm: git reset'']" "lit ''git reset''" "[]" guard_state_default]
  show ?thesis
    unfolding trim by simp
qed

section \<open>Git commands in scripts\<close>

lemma sensitive_script_blocked:
  assumes "extract_shell_script command = Some (i, script)" "trim_start script = script" "\<not> has_confirm_prefix script"
    and "detect_sensitive_git script \<noteq> None"
  shows "\<exists>g. command_guards lib guard st cwd command = Inl g \<and> resend_command g \<noteq> None"
proof -
  obtain kind where "detect_sensitive_git script = Some kind"
    using assms(4) by auto
  then have "\<exists>g. script_guards lib guard st command = Inl g \<and> resend_command g \<noteq> None"
    using assms(1-3)
    by (auto simp: script_guards_def unconfirmed_script_guard_def Let_def split: option.splits)
  then show ?thesis
    by (auto simp: command_guards_def)
qed

text \<open>
  (C4) The git command lines that the guards know are stopped wherever they stand in a script. These are
  \<open>reset\<close> and \<open>revert\<close>; \<open>checkout\<close> followed by a name or \<open>-\<close>, or with \<open>-b\<close>, \<open>-B\<close>, \<open>--orphan\<close>, \<open>--detach\<close>
  or \<open>--\<close> among its arguments; \<open>switch\<close> with a name, \<open>-c\<close> or \<open>--detach\<close> among its arguments. They are stopped
  after any text with closed quotes that ends in a separator, behind assignments, wrappers whose
  flags take no separate value and global options of git, written in plain unquoted words, and before any
  further commands: a script without leading blanks and confirm prefix is answered with the command to resend.
\<close>

theorem known_git_forms_blocked:
  assumes "git_action_ok act" "git_action_words act = sub # args" "git_line_ok leads git globals sub args"
    and "set l \<union> set r \<subseteq> {9, 32}"
    and "foldl scan_char unquoted a = unquoted" "a = [] \<or> last a \<in> separators" "b = [] \<or> hd b \<in> separators"
    and "script = a @ l @ join [32] (git_line leads git globals sub args) @ r @ b"
    and "trim_start script = script" "\<not> has_confirm_prefix script"
    and "extract_shell_script command = Some (i, script)"
  shows "\<exists>g. command_guards lib guard st cwd command = Inl g \<and> resend_command g \<noteq> None"
  using sensitive_script_blocked [OF assms(11,9,10)]
    detect_git_line [OF assms(3) git_action_recognised [OF assms(1,2)] assms(4-7)] assms(8) by blast

theorem known_git_forms_blocked_witness:
  "\<exists>g. command_guards sample_lib [] guard_state_default (lit ''/w'')
         [lit ''bash'', lit ''-lc'', lit ''cd x && sudo -n git -C d checkout main; ls''] = Inl g \<and> resend_command g \<noteq> None"
proof -
  have ok: "git_line_ok [Wrapper (lit ''sudo'') [lit ''-n'']] (lit ''git'') [GlobalValue (lit ''-C'') (lit ''d'')] (lit ''checkout'') [lit ''main'']"
    by (simp add: git_line_ok_def plain_word_def plain_char_def separators_def argv_wrappers_def valued_globals_def is_git_def
        is_assignment_def str_eval)
  have act: "git_action_ok (CheckoutName (lit ''main'') [])"
    by (simp add: git_name_def plain_word_def plain_char_def separators_def str_eval)
  have act_words: "git_action_words (CheckoutName (lit ''main'') []) = lit ''checkout'' # [lit ''main'']"
    by simp
  have quotes: "foldl scan_char unquoted (lit ''cd x &&'') = unquoted"
    by (simp add: scan_char_def unquoted_def lit_def)
  have ends: "lit ''cd x &&'' = [] \<or> last (lit ''cd x &&'') \<in> separators" "lit ''; ls'' = [] \<or> hd (lit ''; ls'') \<in> separators"
    by (simp_all add: separators_def lit_def)
  have script: "lit ''cd x && sudo -n git -C d checkout main; ls'' = lit ''cd x &&'' @ [32] @
      join [32] (git_line [Wrapper (lit ''sudo'') [lit ''-n'']] (lit ''git'') [GlobalValue (lit ''-C'') (lit ''d'')] (lit ''checkout'') [lit ''main'']) @
      [] @ lit ''; ls''"
    by (simp add: git_line_def lit_def)
  show ?thesis
    by (rule known_git_forms_blocked [OF act act_words ok _ quotes ends script _ _ bash_script])
      (simp_all add: has_confirm_prefix_def confirm_prefixes_def str_eval)
qed

text \<open>
  Other forms that discard work or change the branch are not seen: a flag in front of the branch, the
  whole directory as the path, \<open>restore\<close>, and a wrapper whose flag takes a value of its own.
\<close>

lemma unknown_git_forms:
  "detect_sensitive_git (lit ''git checkout -f main'') = None"
  "detect_sensitive_git (lit ''git checkout .'') = None"
  "detect_sensitive_git (lit ''git restore a'') = None"
  "detect_sensitive_git (lit ''sudo -u bob git reset'') = None"
  by (simp_all add: detect_sensitive_git_def script_parts_def unquoted_def clean_char_def is_quote_edge_def scan_char_def
      script_part_kind_def strip_tok_def is_assignment_def script_wrappers_def argv_wrappers_def is_git_def
      checkout_kind_def str_eval)

section \<open>Formatters in a session\<close>

text \<open>
  Commands of the model pass the guards and are run by a task of their own, which leaves the record of
  dry runs alone; only commands that the program runs itself (hooks and project commands, through
  \<open>run_exec_with_events_inner\<close>) are noted there.
\<close>

datatype session_command = ModelCommand rstr "rstr list" | OwnCommand "rstr list"

definition session_step ::
    "parse_lib \<Rightarrow> confirm_guard_runtime \<Rightarrow> session_command \<Rightarrow> dry_run_guard_state \<Rightarrow> dry_run_guard_state" where
  "session_step lib guard c st =
     (case c of
        ModelCommand cwd command \<Rightarrow> st
      | OwnCommand command \<Rightarrow>
          (case analyze_command lib command of Some analysis \<Rightarrow> note_execution analysis st | None \<Rightarrow> st))"

definition own_analyses :: "parse_lib \<Rightarrow> session_command list \<Rightarrow> dry_run_analysis list" where
  "own_analyses lib cs =
     List.map_filter (\<lambda>c. case c of OwnCommand command \<Rightarrow> analyze_command lib command | _ \<Rightarrow> None) cs"

lemma session_notes_own:
  "fold (session_step lib guard) cs st = fold note_execution (own_analyses lib cs) st"
  by (induction cs arbitrary: st)
    (auto simp: session_step_def own_analyses_def map_filter_simps split: session_command.splits option.splits)

lemma own_analyses_length: "length (own_analyses lib cs) \<le> length cs"
  by (induction cs) (auto simp: own_analyses_def map_filter_simps split: session_command.splits option.splits)

lemma passed_script_analysis:
  assumes "extract_shell_script command = Some (i, script)" "\<not> has_confirm_prefix (trim_start script)"
    and "command_guards lib guard st cwd command = Inr command'"
    and "analyze_command lib command = Some analysis" "da_disposition analysis = Mutating"
  shows "has_recent_dry_run st (da_key analysis)"
  using assms
  by (auto simp: command_guards_def script_guards_def dry_run_guard_def Let_def split: option.splits if_splits)

lemma sample_analysis:
  "analyze_command sample_lib [lit ''bash'', lit ''-lc'', join (lit '' '') (lit ''black'' # flags @ [lit ''a''])] = 
     Some \<lparr>da_key = Black, da_disposition = (if flags = [] then Mutating else DryRun), da_tokens = lit ''black'' # flags @ [lit ''a''],
           da_display_name = lit ''black'', da_custom_suggested = None\<rparr>"
  if "flags = [] \<or> flags = [lit ''--check'']"
proof -
  let ?words = "lit ''black'' # flags @ [lit ''a'']"
  have words: "split_whitespace (join (lit '' '') ?words) = ?words"
    using that by (auto simp: str_eval)
  have base: "command_basename (lit ''black'') = lit ''black''"
    by (simp add: command_basename_plain str_eval)
  have shlex: "shlex_split sample_lib s = Some (split_whitespace s)" for s
    by (simp add: sample_lib_def)
  have "try_parse_bash sample_lib (join (lit '' '') ?words) = None"
    using that by (auto simp: sample_lib_def lit_def)
  moreover have "normalize_tokens sample_lib ?words = ?words"
    using that by (auto simp: normalize_tokens_def is_shell_like_executable_def file_name_def path_parts_def str_eval)
  moreover have "\<not> contains_connectors ?words"
    using that by (auto simp: contains_connectors_def connectors_def str_eval)
  moreover have "summarize_main_tokens sample_lib ?words = Unknown (join (lit '' '') ?words)"
    by (simp add: summarize_main_tokens_def shlex_join_def sample_lib_def lit_eq_iff)
  ultimately have "parse_command_impl sample_lib [lit ''bash'', lit ''-lc'', join (lit '' '') ?words] = [Unknown (join (lit '' '') ?words)]"
    using words
    by (simp add: parse_command_impl_def parse_shell_script_commands_def bash_script parse_shell_script_text_def
        summarize_parts_def simplify_single shlex)
  moreover have "strip_wrappers ?words = ?words"
    by (simp add: is_env_assignment_def is_wrapper_def str_eval)
  moreover have "analyze_tokens ?words = Some (analysis_of Black (flags \<noteq> []) (lit ''black''))"
    using that by (auto simp: analyze_tokens_direct [OF base] direct_eqs(3) [OF base]) (simp_all add: eq_ignore_ascii_case_def str_eval)
  ultimately show ?thesis
    using words by (simp add: analyze_command_def first_command_tokens_def shlex analysis_of_def)
qed

text \<open>
  A formatter that is not confirmed runs only after a dry run that the program itself made: whatever
  commands the model ran before, its own dry runs included, a script that is analysed as rewriting files
  passes the guards only when the last command of that kind that a hook or project command ran was a dry
  run.
\<close>

theorem unconfirmed_formatter_needs_own_dry_run:
  assumes "length cs < 2 ^ 64"
    and "extract_shell_script command = Some (i, script)" "\<not> has_confirm_prefix (trim_start script)"
    and "command_guards lib guard (fold (session_step lib guard) cs guard_state_default) cwd command = Inr command'"
    and "analyze_command lib command = Some analysis" "da_disposition analysis = Mutating"
  shows "recent_in_log (da_key analysis) (own_analyses lib cs)"
proof -
  have "length (own_analyses lib cs) < 2 ^ 64"
    using assms(1) own_analyses_length [of lib cs] by linarith
  then show ?thesis
    using passed_script_analysis [OF assms(2-6)] recent_refines_log by (simp add: session_notes_own)
qed

theorem unconfirmed_formatter_needs_own_dry_run_witness:
  "recent_in_log Black (own_analyses sample_lib [OwnCommand [lit ''bash'', lit ''-lc'', lit ''black --check a'']])"
proof -
  have check: "lit ''black --check a'' = join (lit '' '') (lit ''black'' # [lit ''--check''] @ [lit ''a''])"
    and fmt: "lit ''black a'' = join (lit '' '') (lit ''black'' # [] @ [lit ''a''])"
    by (simp_all add: lit_def)
  let ?cs = "[OwnCommand [lit ''bash'', lit ''-lc'', lit ''black --check a'']]"
  let ?st = "fold (session_step sample_lib []) ?cs guard_state_default"
  have st: "has_recent_dry_run ?st Black"
    using sample_analysis [of "[lit ''--check'']"]
    by (simp add: session_step_def check note_execution_def has_recent_dry_run_def guard_state_default_def Let_def
        saturating_add_def)
  have plain: "trim_start (lit ''black a'') = lit ''black a''" "\<not> has_confirm_prefix (lit ''black a'')"
    "detect_sensitive_git (lit ''black a'') = None"
    by (simp_all add: str_eval has_confirm_prefix_def confirm_prefixes_def detect_sensitive_git_def script_parts_def unquoted_def
        clean_char_def is_quote_edge_def scan_char_def script_part_kind_def strip_tok_def is_assignment_def
        script_wrappers_def argv_wrappers_def is_git_def)
  let ?command = "[lit ''bash'', lit ''-lc'', lit ''black a'']"
  have "strip_leading_confirm_prefix ?command = ?command"
    by (intro strip_leading_id) (simp add: starts_confirmed_def confirm_prefixes_def str_eval)
  moreover have "write_guards sample_lib (lit ''/w'') ?command = None"
  proof -
    have words: "shlex_split sample_lib (lit ''black a'') = Some [lit ''black'', lit ''a'']"
      by (simp add: sample_lib_def str_eval)
    have "detect_redundant_cd sample_lib ?command (lit ''/w'') = None"
      by (simp add: detect_redundant_cd_def bash_script detect_redundant_cd_in_shell_def plain(1) words or_else_def
          detect_redundant_cd_in_argv_def after_redundant_cd_def)
    moreover have "\<not> script_contains_cat_write (lit ''black a'')" "\<not> script_contains_python_write (lit ''black a'')"
      by (simp_all add: script_contains_cat_write_def line_contains_cat_heredoc_write_def script_contains_python_write_def str_eval)
    moreover have "\<not> is_python_command (lit ''bash'')"
      by (simp add: is_python_command_def file_name_def path_parts_def str_eval)
    ultimately show ?thesis
      by (simp add: write_guards_def detect_cat_write_def detect_python_write_def bash_script detect_python_write_in_argv_def)
  qed
  moreover have analysis: "analyze_command sample_lib ?command =
      Some \<lparr>da_key = Black, da_disposition = Mutating, da_tokens = [lit ''black'', lit ''a''], da_display_name = lit ''black'',
            da_custom_suggested = None\<rparr>"
    using sample_analysis [of "[]"] by (simp add: fmt)
  ultimately have passed: "command_guards sample_lib [] ?st (lit ''/w'') ?command = Inr ?command"
    using st plain
    by (simp add: command_guards_def script_guards_def bash_script unconfirmed_script_guard_def dry_run_guard_def
        argv_guards_def)
  show ?thesis
    using unconfirmed_formatter_needs_own_dry_run [OF _ bash_script _ passed analysis] plain by simp
qed

end
