(* ===== verification/Shell_Invocation.thy ===== *)
theory Shell_Invocation
  imports Parse_Command User_Shell
begin

text \<open>
  From the command of a tool call to the process: the parameters of the two shell tools
  (\<open>to_exec_params\<close> of \<open>code-rs/core/src/codex/streaming.rs\<close>), the user's shell
  (\<open>code-rs/core/src/shell.rs\<close>), the last rewriting before a command is started
  (\<open>maybe_run_with_user_profile\<close> of \<open>code-rs/core/src/codex/exec.rs\<close>) and the inverse that is used for
  display (\<open>code-rs/core/src/util.rs\<close>), on Unix.

  Which files exist and the variable \<open>HOME\<close> are arguments; the environment variables of the process
  and the justification, which are only passed on, are left out.
\<close>

section \<open>Definitions\<close>

subsection \<open>The parameters of a command\<close>

datatype sandbox_permissions = UseDefault | RequireEscalated | WithAdditionalPermissions

definition requires_escalated_permissions :: "sandbox_permissions \<Rightarrow> bool" where
  "requires_escalated_permissions p \<longleftrightarrow> p = RequireEscalated"

record shell_tool_call_params =
  st_command :: "rstr list"
  st_workdir :: "rstr option"
  st_timeout_ms :: "nat option"
  st_sandbox_permissions :: "sandbox_permissions option"

record shell_command_tool_call_params =
  sc_command :: rstr
  sc_workdir :: "rstr option"
  sc_login :: "bool option"
  sc_timeout_ms :: "nat option"
  sc_sandbox_permissions :: "sandbox_permissions option"

record deferred_shell_script =
  ds_command :: rstr
  ds_use_login_shell :: bool

record exec_params =
  ep_command :: "rstr list"
  ep_shell_script :: "deferred_shell_script option"
  ep_cwd :: rstr
  ep_timeout_ms :: "nat option"
  ep_with_escalated_permissions :: "bool option"

definition MIN_SHELL_TIMEOUT_MS :: nat where
  "MIN_SHELL_TIMEOUT_MS = 30 * 60 * 1000"

definition session_resolve_path :: "rstr \<Rightarrow> rstr option \<Rightarrow> rstr" where
  "session_resolve_path cwd path = (case path of None \<Rightarrow> cwd | Some p \<Rightarrow> path_join cwd p)"

definition escalation :: "sandbox_permissions option \<Rightarrow> bool option" where
  "escalation permissions =
     Option.bind permissions (\<lambda>p. if requires_escalated_permissions p then Some True else None)"

definition to_exec_params :: "rstr \<Rightarrow> shell_tool_call_params \<Rightarrow> exec_params" where
  "to_exec_params cwd params =
     \<lparr>ep_command = st_command params, ep_shell_script = None,
      ep_cwd = session_resolve_path cwd (st_workdir params),
      ep_timeout_ms = map_option (\<lambda>ms. max ms MIN_SHELL_TIMEOUT_MS) (st_timeout_ms params),
      ep_with_escalated_permissions = escalation (st_sandbox_permissions params)\<rparr>"

definition to_exec_params_from_shell_command :: "rstr \<Rightarrow> shell_command_tool_call_params \<Rightarrow> exec_params" where
  "to_exec_params_from_shell_command cwd params =
     \<lparr>ep_command = [sc_command params],
      ep_shell_script = Some \<lparr>ds_command = sc_command params,
        ds_use_login_shell = (case sc_login params of Some b \<Rightarrow> b | None \<Rightarrow> True)\<rparr>,
      ep_cwd = session_resolve_path cwd (sc_workdir params),
      ep_timeout_ms = map_option (\<lambda>ms. max ms MIN_SHELL_TIMEOUT_MS) (sc_timeout_ms params),
      ep_with_escalated_permissions = escalation (sc_sandbox_permissions params)\<rparr>"

subsection \<open>The user's shell\<close>

record shell_host =
  home_var :: "rstr option"
  path_exists :: "rstr \<Rightarrow> bool"

definition detect_default_user_shell :: "(rstr \<times> rstr) option \<Rightarrow> shell" where
  "detect_default_user_shell passwd =
     (case passwd of
        Some (shell_path, home_path) \<Rightarrow>
          (if ends_with shell_path (lit ''/zsh'') then Zsh shell_path (home_path @ lit ''/.zshrc'')
           else if ends_with shell_path (lit ''/bash'') then Bash shell_path (home_path @ lit ''/.bashrc'')
           else UnknownShell)
      | None \<Rightarrow> UnknownShell)"

definition strip_bash_lc :: "rstr list \<Rightarrow> rstr option" where
  "strip_bash_lc command =
     (case command of
        [first, second, third] \<Rightarrow>
          (if is_shell_like_executable first \<and> second = lit ''-lc'' then Some third else None)
      | _ \<Rightarrow> None)"

definition multiline :: "rstr \<Rightarrow> bool" where
  "multiline s \<longleftrightarrow> 10 \<in> set s \<or> 13 \<in> set s"

definition format_command_with_rc :: "rstr \<Rightarrow> rstr \<Rightarrow> rstr" where
  "format_command_with_rc rc_path command =
     (if multiline command
      then lit ''source '' @ rc_path @ lit '' && {'' @ [10] @ command @ [10] @ lit ''}''
      else lit ''source '' @ rc_path @ lit '' && ('' @ command @ lit '')'')"

definition format_shell_invocation_with_rc ::
    "parse_lib \<Rightarrow> shell_host \<Rightarrow> rstr list \<Rightarrow> rstr \<Rightarrow> rstr \<Rightarrow> rstr list option" where
  "format_shell_invocation_with_rc lib host command shell_path rc_path =
     map_option (\<lambda>joined.
         [shell_path, lit ''-lc'',
          if path_exists host rc_path then format_command_with_rc rc_path joined else joined])
       (or_else (strip_bash_lc command) (shlex_try_join lib command))"

definition format_default_shell_invocation :: "parse_lib \<Rightarrow> shell_host \<Rightarrow> shell \<Rightarrow> rstr list \<Rightarrow> rstr list option" where
  "format_default_shell_invocation lib host sh command =
     (case sh of
        Zsh shell_path rc \<Rightarrow> format_shell_invocation_with_rc lib host command shell_path rc
      | Bash shell_path rc \<Rightarrow> format_shell_invocation_with_rc lib host command shell_path rc
      | PowerShellConfig exe fallback \<Rightarrow>
          (case strip_bash_lc command of
             Some script \<Rightarrow>
               (case fallback of
                  Some bash \<Rightarrow> Some [bash, lit ''-lc'', script]
                | None \<Rightarrow> Some [exe, lit ''-NoProfile'', lit ''-Command'', script])
           | None \<Rightarrow>
               (if command = [] \<or> hd command \<noteq> exe
                then (if list_ex multiline command then Some command
                      else map_option (\<lambda>arg. [exe, lit ''-NoProfile'', lit ''-Command'', arg]) (shlex_try_join lib command))
                else Some command))
      | UnknownShell \<Rightarrow> None)"

definition format_shell_script_invocation_with_rc ::
    "shell_host \<Rightarrow> rstr \<Rightarrow> rstr \<Rightarrow> rstr \<Rightarrow> bool \<Rightarrow> rstr list option" where
  "format_shell_script_invocation_with_rc host command shell_path rc_path use_login_shell =
     Some [shell_path, if use_login_shell then lit ''-lc'' else lit ''-c'',
           if use_login_shell \<and> path_exists host rc_path then format_command_with_rc rc_path command else command]"

definition format_shell_script_invocation :: "shell_host \<Rightarrow> shell \<Rightarrow> rstr \<Rightarrow> bool \<Rightarrow> rstr list option" where
  "format_shell_script_invocation host sh command use_login_shell =
     (case sh of
        Zsh shell_path rc \<Rightarrow> format_shell_script_invocation_with_rc host command shell_path rc use_login_shell
      | Bash shell_path rc \<Rightarrow> format_shell_script_invocation_with_rc host command shell_path rc use_login_shell
      | PowerShellConfig exe _ \<Rightarrow> Some [exe, lit ''-NoProfile'', lit ''-Command'', command]
      | UnknownShell \<Rightarrow> None)"

definition default_shell_script_invocation :: "rstr \<Rightarrow> bool \<Rightarrow> rstr list" where
  "default_shell_script_invocation command use_login_shell =
     [lit ''sh'', if use_login_shell then lit ''-lc'' else lit ''-c'', command]"

definition shell_script_invocation_or_default :: "shell_host \<Rightarrow> shell \<Rightarrow> rstr \<Rightarrow> bool \<Rightarrow> rstr list" where
  "shell_script_invocation_or_default host sh command use_login_shell =
     (case format_shell_script_invocation host sh command use_login_shell of
        Some argv \<Rightarrow> argv
      | None \<Rightarrow> default_shell_script_invocation command use_login_shell)"

subsection \<open>The command that is started\<close>

definition is_bash_executable :: "rstr \<Rightarrow> bool" where
  "is_bash_executable token =
     (let trimmed = trim_matches (\<lambda>c. c = 39) (trim_matches (\<lambda>c. c = 34) token);
          name = to_ascii_lowercase (case file_name trimmed of Some n \<Rightarrow> n | None \<Rightarrow> trimmed)
      in name \<in> set (map lit [''bash'', ''bash.exe'']))"

definition suppress_bash_job_control :: "rstr list \<Rightarrow> rstr list" where
  "suppress_bash_job_control command =
     (case command of
        [program, flag, script] \<Rightarrow>
          (if \<not> is_bash_executable program \<or> flag \<noteq> lit ''-lc'' then command
           else if starts_with (trim_start script) (lit ''set +m'') then command
           else [program, flag, lit ''set +m; '' @ script])
      | _ \<Rightarrow> command)"

definition materialize_shell_script :: "shell_host \<Rightarrow> shell \<Rightarrow> exec_params \<Rightarrow> exec_params" where
  "materialize_shell_script host user_shell params =
     (case ep_shell_script params of
        Some script \<Rightarrow>
          params\<lparr>ep_shell_script := None,
                 ep_command := shell_script_invocation_or_default host user_shell (ds_command script) (ds_use_login_shell script)\<rparr>
      | None \<Rightarrow> params)"

definition maybe_run_with_user_profile :: "parse_lib \<Rightarrow> shell_host \<Rightarrow> shell \<Rightarrow> bool \<Rightarrow> exec_params \<Rightarrow> exec_params" where
  "maybe_run_with_user_profile lib host user_shell use_profile params =
     (let had_shell_script = ep_shell_script params \<noteq> None;
          params = materialize_shell_script host user_shell params;
          params = (if \<not> had_shell_script \<and> use_profile
                    then (case format_default_shell_invocation lib host user_shell (ep_command params) of
                            Some command \<Rightarrow> params\<lparr>ep_command := command\<rparr>
                          | None \<Rightarrow> params)
                    else params)
      in params\<lparr>ep_command := suppress_bash_job_control (ep_command params)\<rparr>)"

subsection \<open>Display\<close>

text \<open>\<open>str::split_once\<close> with a string as separator.\<close>

fun split_once_str :: "rstr \<Rightarrow> rstr \<Rightarrow> (rstr \<times> rstr) option" where
  "split_once_str sep [] = (if sep = [] then Some ([], []) else None)"
| "split_once_str sep (c # s) =
     (case strip_prefix (c # s) sep of
        Some after \<Rightarrow> Some ([], after)
      | None \<Rightarrow> map_option (\<lambda>(before, after). (c # before, after)) (split_once_str sep s))"

definition escape_command :: "parse_lib \<Rightarrow> rstr list \<Rightarrow> rstr" where
  "escape_command lib command =
     (case shlex_try_join lib command of Some s \<Rightarrow> s | None \<Rightarrow> join (lit '' '') command)"

definition looks_like_shell_rc_path :: "shell_host \<Rightarrow> rstr \<Rightarrow> bool" where
  "looks_like_shell_rc_path host path =
     (case home_var host of
        None \<Rightarrow> False
      | Some home \<Rightarrow> path = path_join home (lit ''.bashrc'') \<or> path = path_join home (lit ''.zshrc''))"

definition unwrap_profile_wrapper :: "shell_host \<Rightarrow> rstr \<Rightarrow> rstr option" where
  "unwrap_profile_wrapper host script =
     (let script = (case strip_prefix script (lit ''set +m; '') of Some s \<Rightarrow> s | None \<Rightarrow> script)
      in Option.bind (strip_prefix script (lit ''source '')) (\<lambda>body.
         Option.bind (split_once_str (lit '' && '') body) (\<lambda>(rc_path, wrapped).
           if \<not> looks_like_shell_rc_path host rc_path then None
           else or_else
             (Option.bind (strip_prefix wrapped (lit ''('')) (\<lambda>inner. strip_suffix inner (lit '')'')))
             (Option.bind (strip_prefix wrapped (lit ''{'' @ [10])) (\<lambda>inner. strip_suffix inner ([10] @ lit ''}''))))))"

definition strip_shell_wrapper_for_display :: "shell_host \<Rightarrow> rstr \<Rightarrow> rstr" where
  "strip_shell_wrapper_for_display host script =
     (case unwrap_profile_wrapper host script of Some s \<Rightarrow> s | None \<Rightarrow> script)"

definition strip_bash_lc_and_escape :: "parse_lib \<Rightarrow> shell_host \<Rightarrow> rstr list \<Rightarrow> rstr" where
  "strip_bash_lc_and_escape lib host command =
     (case extract_shell_script command of
        Some (_, script) \<Rightarrow> strip_shell_wrapper_for_display host script
      | None \<Rightarrow> escape_command lib command)"

section \<open>What is shown is what was sent\<close>

lemma split_once_str_found:
  "\<not> sublist sep a \<Longrightarrow> a = [] \<or> last a \<notin> set sep \<Longrightarrow> sep \<noteq> [] \<Longrightarrow> split_once_str sep (a @ sep @ b) = Some (a, b)"
proof (induction a)
  case Nil
  then show ?case
    by (cases sep) (auto split: option.splits simp: strip_prefix_None)
next
  case (Cons c a)
  have "\<not> prefix sep (c # a @ sep @ b)"
  proof
    assume "prefix sep (c # a @ sep @ b)"
    then have "prefix sep (c # a) \<or> (\<exists>zs. sep = (c # a) @ zs)"
      using prefix_append [of sep "c # a" "sep @ b"] by auto
    then show False
    proof
      assume "\<exists>zs. sep = (c # a) @ zs"
      then have "last (c # a) \<in> set sep"
        by (metis UnCI last_in_set list.distinct(1) set_append)
      then show False
        using Cons.prems(2) by simp
    qed (use Cons.prems(1) prefix_imp_sublist in blast)
  qed
  then have "strip_prefix (c # a @ sep @ b) sep = None"
    by (auto simp: strip_prefix_None prefix_def)
  moreover have "split_once_str sep (a @ sep @ b) = Some (a, b)"
    using Cons by (auto simp: sublist_Cons_right split: if_splits)
  ultimately show ?case
    by simp
qed

lemma unwrap_wrapped:
  assumes "looks_like_shell_rc_path host rc" "\<not> sublist (lit '' && '') rc" "last rc \<notin> set (lit '' && '')"
    and "pre = [] \<or> pre = lit ''set +m; ''"
  shows "unwrap_profile_wrapper host (pre @ format_command_with_rc rc s) = Some s"
proof -
  have split: "split_once_str (lit '' && '') (rc @ lit '' && '' @ b) = Some (rc, b)" for b
    using assms(2,3) by (intro split_once_str_found) (simp_all add: lit_def)
  define w where "w = (if multiline s then lit ''{'' @ [10] @ s @ [10] @ lit ''}'' else lit ''('' @ s @ lit '')'')"
  have body: "format_command_with_rc rc s = lit ''source '' @ rc @ lit '' && '' @ w"
    by (simp add: format_command_with_rc_def w_def lit_def)
  have "strip_prefix (lit ''source '' @ t) (lit ''set +m; '') = None" for t
    by (simp add: lit_def)
  moreover have "or_else (Option.bind (strip_prefix w (lit ''('')) (\<lambda>inner. strip_suffix inner (lit '')'')))
      (Option.bind (strip_prefix w (lit ''{'' @ [10])) (\<lambda>inner. strip_suffix inner ([10] @ lit ''}''))) = Some s"
    by (auto simp: w_def or_else_def lit_def strip_suffix_def)
  ultimately show ?thesis
    using assms(1,4) split [of w] unfolding unwrap_profile_wrapper_def body Let_def by auto
qed


lemma split_on_append: "split_on d (a @ d # s) = split_on d a @ split_on d s"
  by (induction a) (auto split: list.split)

lemma file_name_append:
  "47 \<notin> set n \<Longrightarrow> n \<notin> {[], [46], [46, 46]} \<Longrightarrow> file_name (a @ 47 # n) = Some n"
  by (simp add: file_name_def path_parts_def split_on_append split_on_plain)

lemma trim_matches_keeps_end:
  assumes "s \<noteq> []" "\<not> P (hd s)" "\<not> P (last s)"
  shows "\<exists>a'. trim_matches P (a @ s) = a' @ s"
proof -
  have "dropWhile P s = s"
    using assms(1,2) by (cases s) auto
  then have "\<exists>a'. dropWhile P (a @ s) = a' @ s"
    by (induction a) auto
  then obtain a' where a': "dropWhile P (a @ s) = a' @ s" ..
  then have "trim_matches P (a @ s) = a' @ s"
    using assms(1,3) by (cases s rule: rev_cases) (auto simp: trim_matches_def trim_start_matches_def trim_end_matches_def)
  then show ?thesis ..
qed

lemma login_shell_executable:
  assumes "ends_with shell_path (47 # n)" "n = lit ''bash'' \<or> n = lit ''zsh''"
  shows "is_shell_like_executable shell_path"
proof -
  have "last (47 # n) = 104"
    using assms(2) by (auto simp: lit_def)
  then have keeps: "\<exists>a'. trim_matches (\<lambda>c. c = q) (a @ 47 # n) = a' @ 47 # n" if "q < 40" for a q
    using that by (intro trim_matches_keeps_end) auto
  obtain a where "shell_path = a @ 47 # n"
    using assms(1) by (auto simp: ends_with_iff)
  moreover obtain a' where "trim_matches (\<lambda>c. c = 34) (a @ 47 # n) = a' @ 47 # n"
    using keeps [of 34 a] by auto
  moreover obtain a'' where "trim_matches (\<lambda>c. c = 39) (a' @ 47 # n) = a'' @ 47 # n"
    using keeps [of 39 a'] by auto
  moreover have "file_name (a'' @ 47 # n) = Some n"
    using assms(2) by (intro file_name_append) (auto simp: lit_def)
  ultimately show ?thesis
    using assms(2) by (auto simp: is_shell_like_executable_def str_eval)
qed

lemma connector_not_in_path:
  assumes "\<not> sublist (lit '' && '') home" "32 \<notin> set n"
  shows "\<not> sublist (lit '' && '') (home @ 47 # n)"
proof
  assume "sublist (lit '' && '') (home @ 47 # n)"
  then consider "sublist (lit '' && '') home" | "sublist (lit '' && '') (47 # n)"
    | xs ys where "lit '' && '' = xs @ ys" "suffix xs home" "prefix ys (47 # n)"
    unfolding sublist_append by blast
  then show False
  proof cases
    case 2
    then have "32 \<in> set (47 # n)"
      using set_mono_sublist [OF 2] by (simp add: lit_def)
    then show False
      using assms(2) by simp
  next
    case 3
    have "47 \<notin> set (lit '' && '')"
      by (simp add: lit_def)
    then have "ys = []"
      using 3(1,3) by (cases ys) auto
    then show False
      using 3 assms(1) by (simp add: suffix_imp_sublist)
  qed (use assms(1) in blast)
qed

text \<open>The script that a call asks to be run in the user's login shell.\<close>

definition requested_script :: "bool \<Rightarrow> exec_params \<Rightarrow> rstr option" where
  "requested_script use_profile params =
     (case ep_shell_script params of
        Some script \<Rightarrow> if ds_use_login_shell script then Some (ds_command script) else None
      | None \<Rightarrow> if use_profile then strip_bash_lc (ep_command params) else None)"

fun shell_rc :: "shell \<Rightarrow> rstr" where
  "shell_rc (Zsh _ rc) = rc"
| "shell_rc (Bash _ rc) = rc"
| "shell_rc _ = []"

lemma detected_shell:
  assumes "detect_default_user_shell (Some (shell_path, home)) = sh" "sh \<noteq> UnknownShell"
  obtains n where "sh = Zsh shell_path (shell_rc sh) \<or> sh = Bash shell_path (shell_rc sh)"
    "is_shell_like_executable shell_path" "shell_rc sh = home @ 47 # n" "n = lit ''.bashrc'' \<or> n = lit ''.zshrc''"
proof -
  have "lit ''/zsh'' = 47 # lit ''zsh''" "lit ''/bash'' = 47 # lit ''bash''"
    "lit ''/.zshrc'' = 47 # lit ''.zshrc''" "lit ''/.bashrc'' = 47 # lit ''.bashrc''"
    by (simp_all add: lit_def)
  then show ?thesis
    using assms that login_shell_executable
    by (auto simp: detect_default_user_shell_def split: if_splits)
qed

lemma started_script:
  assumes "requested_script use_profile params = Some s" "sh = Zsh shell_path rc \<or> sh = Bash shell_path rc"
    and "path_exists host rc"
  obtains pre where "pre = [] \<or> pre = lit ''set +m; ''"
    "ep_command (maybe_run_with_user_profile lib host sh use_profile params) =
       [shell_path, lit ''-lc'', pre @ format_command_with_rc rc s]"
proof -
  have "suppress_bash_job_control [shell_path, lit ''-lc'', t] \<in>
      {[shell_path, lit ''-lc'', pre @ t] | pre. pre = [] \<or> pre = lit ''set +m; ''}" for t
    by (auto simp: suppress_bash_job_control_def)
  moreover have "ep_command (maybe_run_with_user_profile lib host sh use_profile params) =
      suppress_bash_job_control [shell_path, lit ''-lc'', format_command_with_rc rc s]"
    using assms
    by (auto simp: maybe_run_with_user_profile_def requested_script_def materialize_shell_script_def
        shell_script_invocation_or_default_def format_shell_script_invocation_def
        format_shell_script_invocation_with_rc_def format_default_shell_invocation_def
        format_shell_invocation_with_rc_def or_else_def Let_def split: option.splits if_splits)
  ultimately show ?thesis
    using that by auto
qed

text \<open>
  (C13) What the user is shown of a started command is what the model asked for. For the login shell of
  the user's account, with a home directory that has no connector in its name and an existing start-up
  file, every script, of one line or many, comes back unchanged from the display function after it was
  wrapped for that shell, with or without the line that turns job control off.
\<close>

theorem started_script_shown_as_sent:
  assumes "detect_default_user_shell (Some (shell_path, home)) = sh" "sh \<noteq> UnknownShell"
    and "home_var host = Some home" "home \<noteq> []" "last home \<noteq> 47" "\<not> str_contains home (lit '' && '')"
    and "path_exists host (shell_rc sh)" "requested_script use_profile params = Some s"
  shows "strip_bash_lc_and_escape lib host (ep_command (maybe_run_with_user_profile lib host sh use_profile params)) = s"
proof -
  obtain n where sh: "sh = Zsh shell_path (shell_rc sh) \<or> sh = Bash shell_path (shell_rc sh)"
    "is_shell_like_executable shell_path" "shell_rc sh = home @ 47 # n" "n = lit ''.bashrc'' \<or> n = lit ''.zshrc''"
    using detected_shell [OF assms(1,2)] by blast
  obtain pre where pre: "pre = [] \<or> pre = lit ''set +m; ''"
    "ep_command (maybe_run_with_user_profile lib host sh use_profile params) =
       [shell_path, lit ''-lc'', pre @ format_command_with_rc (shell_rc sh) s]"
    using started_script [OF assms(8) sh(1) assms(7)] by blast
  have "looks_like_shell_rc_path host (shell_rc sh)"
    using assms(3-5) sh(3,4) by (auto simp: looks_like_shell_rc_path_def path_join_def is_absolute_def str_eval)
  moreover have "\<not> sublist (lit '' && '') (shell_rc sh)"
    using connector_not_in_path [of home n] assms(6) sh(3,4) by (auto simp: str_contains_iff lit_def)
  moreover have "last (shell_rc sh) \<notin> set (lit '' && '')"
    using sh(3,4) by (auto simp: lit_def)
  ultimately have "unwrap_profile_wrapper host (pre @ format_command_with_rc (shell_rc sh) s) = Some s"
    using pre(1) by (rule unwrap_wrapped)
  then show ?thesis
    using sh(2) by (simp add: strip_bash_lc_and_escape_def pre(2) extract_shell_script_def strip_shell_wrapper_for_display_def)
qed

definition sample_shell_host :: shell_host where
  "sample_shell_host = \<lparr>home_var = Some (lit ''/h''), path_exists = (\<lambda>p. p = lit ''/h/.bashrc'')\<rparr>"

definition sample_shell_call :: "rstr \<Rightarrow> shell_command_tool_call_params" where
  "sample_shell_call s =
     \<lparr>sc_command = s, sc_workdir = None, sc_login = None, sc_timeout_ms = None, sc_sandbox_permissions = None\<rparr>"

definition plain_lib :: parse_lib where
  "plain_lib = \<lparr>try_parse_bash = (\<lambda>_. None), shlex_split = (\<lambda>_. None), shlex_try_join = (\<lambda>ws. Some (join (lit '' '') ws))\<rparr>"

theorem started_script_shown_as_sent_witness:
  "strip_bash_lc_and_escape plain_lib sample_shell_host
     (ep_command (maybe_run_with_user_profile plain_lib sample_shell_host (Bash (lit ''/bin/bash'') (lit ''/h/.bashrc'')) False
        (to_exec_params_from_shell_command (lit ''/w'') (sample_shell_call (lit ''ls -l''))))) = lit ''ls -l''"
proof -
  have detected: "detect_default_user_shell (Some (lit ''/bin/bash'', lit ''/h'')) = Bash (lit ''/bin/bash'') (lit ''/h/.bashrc'')"
    by (simp add: detect_default_user_shell_def ends_with_def strip_suffix_def lit_def)
  have requested: "requested_script False (to_exec_params_from_shell_command (lit ''/w'') (sample_shell_call (lit ''ls -l''))) =
      Some (lit ''ls -l'')"
    by (simp add: requested_script_def to_exec_params_from_shell_command_def sample_shell_call_def)
  show ?thesis
    by (rule started_script_shown_as_sent [OF detected _ _ _ _ _ _ requested]) (simp_all add: sample_shell_host_def str_eval)
qed

end
