(* ===== verification/Container_Exec.thy ===== *)
theory Container_Exec
  imports Command_Guards_Props Patch_Approval Shell_Invocation
begin

text \<open>
  The handler of shell tool calls, \<open>handle_container_exec_with_params\<close> of
  \<open>code-rs/core/src/codex/streaming.rs\<close>, up to the point where a process is started: the command
  guards, the patch in a command with its guard for branch worktrees
  (\<open>code-rs/core/src/git_worktree.rs\<close>), the assessment of the command and the command that is started.

  A path is the list of its components here. The hooks that run before a patch is written, the user's
  answer and the iteration order of the changes are arguments; events and the output of the process
  are not modelled.
\<close>

section \<open>Branch worktrees\<close>

definition path_parent :: "rstr list \<Rightarrow> rstr list option" where
  "path_parent comps = (if comps = [] \<or> comps = [[47]] then None else Some (butlast comps))"

lemma path_parent_shorter [termination_simp]: "path_parent comps = Some p \<Longrightarrow> length p < length comps"
  by (auto simp: path_parent_def split: if_splits)

fun path_ancestors :: "rstr list \<Rightarrow> rstr list list" where
  "path_ancestors comps =
     comps # (case path_parent comps of None \<Rightarrow> [] | Some p \<Rightarrow> path_ancestors p)"

declare path_ancestors.simps [simp del]

definition component_name :: "rstr list \<Rightarrow> rstr option" where
  "component_name comps =
     (if comps = [] \<or> last comps \<in> {[47], [46], [46, 46]} then None else Some (last comps))"

text \<open>The loop over \<open>higher\<close>.\<close>

function has_code_dir :: "rstr list option \<Rightarrow> bool" where
  "has_code_dir None \<longleftrightarrow> False"
| "has_code_dir (Some dir) \<longleftrightarrow>
     (if component_name dir = Some (lit ''.code'') then True else has_code_dir (path_parent dir))"
  by pat_completeness auto
termination
  by (relation "measure (\<lambda>d. case d of None \<Rightarrow> 0 | Some c \<Rightarrow> Suc (length c))")
    (auto simp: path_parent_def split: option.splits)

fun branch_root_loop :: "rstr list list \<Rightarrow> rstr list option \<Rightarrow> rstr list option" where
  "branch_root_loop [] candidate = candidate"
| "branch_root_loop (ancestor # rest) candidate =
     (case path_parent ancestor of
        None \<Rightarrow> None
      | Some parent \<Rightarrow>
          branch_root_loop rest
            (if component_name parent = Some (lit ''branches'') \<and> has_code_dir (path_parent parent)
             then Some ancestor else candidate))"

definition branch_worktree_root :: "rstr list \<Rightarrow> rstr list option" where
  "branch_worktree_root path = branch_root_loop (path_ancestors path) None"

definition is_branch_worktree_path :: "rstr list \<Rightarrow> bool" where
  "is_branch_worktree_path path \<longleftrightarrow> branch_worktree_root path \<noteq> None"

text \<open>The function of the same name in the chat widget.\<close>

definition widget_is_branch_worktree_path :: "rstr list \<Rightarrow> bool" where
  "widget_is_branch_worktree_path path \<longleftrightarrow>
     list_ex (\<lambda>ancestor. component_name ancestor = Some (lit ''branches'') \<and> has_code_dir (path_parent ancestor))
       (path_ancestors path)"

subsection \<open>The guard on patches\<close>

fun normalize_absolute_loop :: "rstr list \<Rightarrow> rstr list \<Rightarrow> rstr list option" where
  "normalize_absolute_loop result [] = (if result = [] then None else Some result)"
| "normalize_absolute_loop result (component # rest) =
     (if component = [46] then normalize_absolute_loop result rest
      else if component = [46, 46] then
        (case path_parent result of None \<Rightarrow> None | Some p \<Rightarrow> normalize_absolute_loop p rest)
      else normalize_absolute_loop (result @ [component]) rest)"

definition normalize_absolute :: "rstr list \<Rightarrow> rstr list option" where
  "normalize_absolute path =
     (if path = [] \<or> hd path \<noteq> [47] then None else normalize_absolute_loop [] path)"

definition path_within :: "rstr list \<Rightarrow> rstr list \<Rightarrow> bool" where
  "path_within path base \<longleftrightarrow> take (length base) path = base"

datatype branch_block =
    RootUnresolved
  | CwdUnresolved
  | CwdOutside
  | TargetUnresolved rstr
  | TargetOutside rstr

fun guard_targets :: "rstr list \<Rightarrow> rstr list \<Rightarrow> branch_block option" where
  "guard_targets branch_norm [] = None"
| "guard_targets branch_norm (path # paths) =
     (case normalize_absolute (path_key path) of
        None \<Rightarrow> Some (TargetUnresolved path)
      | Some normalized \<Rightarrow>
          (if \<not> path_within normalized branch_norm then Some (TargetOutside path)
           else guard_targets branch_norm paths))"

definition guard_apply_patch_outside_branch ::
    "(changes \<Rightarrow> changes) \<Rightarrow> rstr list \<Rightarrow> apply_patch_action \<Rightarrow> branch_block option" where
  "guard_apply_patch_outside_branch visit branch_root action =
     (case normalize_absolute branch_root of
        None \<Rightarrow> Some RootUnresolved
      | Some branch_norm \<Rightarrow>
          (case normalize_absolute (path_key (act_cwd action)) of
             None \<Rightarrow> Some CwdUnresolved
           | Some action_cwd_norm \<Rightarrow>
               (if \<not> path_within action_cwd_norm branch_norm then Some CwdOutside
                else guard_targets branch_norm (map fst (visit (act_changes action))))))"

section \<open>The handler\<close>

record exec_session =
  xs_lib :: parse_lib
  xs_confirm_guard :: confirm_guard_runtime
  xs_dry_run_guard :: dry_run_guard_state
  xs_cwd :: rstr
  xs_approval_policy :: ask_for_approval
  xs_sandbox_policy :: sandbox_policy
  xs_user_shell :: shell
  xs_use_profile :: bool

text \<open>What the handler meets outside: files, the host, hooks and the user.\<close>

record 'k exec_world =
  xw_query :: bash_query
  xw_diff :: text_diff
  xw_disk_env :: "'k disk_env"
  xw_host :: host_env
  xw_shell_host :: shell_host
  xw_before_write :: "'k disk \<Rightarrow> 'k disk"
  xw_visit :: "changes \<Rightarrow> changes"
  xw_decide :: review_decision

datatype exec_outcome =
    GuardReply guidance
  | BranchReply branch_block
  | PatchOutcome patch_result
  | PatchErrorReply apply_patch_error
  | ExecReply rstr
  | Started "rstr list" sandbox_type

definition start_command :: "'k exec_world \<Rightarrow> exec_session \<Rightarrow> exec_params \<Rightarrow> rstr list" where
  "start_command w s params =
     ep_command (maybe_run_with_user_profile (xs_lib s) (xw_shell_host w) (xs_user_shell s) (xs_use_profile s) params)"

definition handle_assessed ::
    "'k exec_world \<Rightarrow> exec_session \<Rightarrow> exec_params \<Rightarrow> approved_pattern list \<Rightarrow> exec_outcome \<times> approved_pattern list" where
  "handle_assessed w s params approved =
     (case exec_decision (shell_lib.truncate (xs_lib s)) (host_os (xw_host w)) (ep_command params)
             (xs_approval_policy s) (xs_sandbox_policy s)
             (case ep_with_escalated_permissions params of Some b \<Rightarrow> b | None \<Rightarrow> False) (xw_decide w) approved of
        (Inl reason, approved) \<Rightarrow> (ExecReply reason, approved)
      | (Inr sandbox_type, approved) \<Rightarrow> (Started (start_command w s params) sandbox_type, approved))"

definition handle_patch ::
    "'k exec_world \<Rightarrow> exec_session \<Rightarrow> apply_patch_action \<Rightarrow> 'k disk \<Rightarrow> exec_outcome \<times> 'k disk" where
  "handle_patch w s action disk =
     (case Option.bind (branch_worktree_root (path_key (xs_cwd s))) (\<lambda>branch_root.
             guard_apply_patch_outside_branch (xw_visit w) branch_root action) of
        Some guidance \<Rightarrow> (BranchReply guidance, disk)
      | None \<Rightarrow>
          (case apply_patch_call (xw_disk_env w) (xw_host w) (xs_approval_policy s) (xs_sandbox_policy s) (xs_cwd s)
                  (xw_decide w) (xw_visit w) action (xw_before_write w disk) of
             (result, disk) \<Rightarrow> (PatchOutcome result, disk)))"

definition handle_container_exec_with_params ::
    "'k exec_world \<Rightarrow> exec_session \<Rightarrow> exec_params \<Rightarrow> approved_pattern list \<Rightarrow> 'k disk \<Rightarrow>
       exec_outcome \<times> approved_pattern list \<times> 'k disk" where
  "handle_container_exec_with_params w s params approved disk =
     (case command_guards (xs_lib s) (xs_confirm_guard s) (xs_dry_run_guard s) (ep_cwd params) (ep_command params) of
        Inl guidance \<Rightarrow> (GuardReply guidance, approved, disk)
      | Inr command \<Rightarrow>
          (let params = params\<lparr>ep_command := command\<rparr>
           in case maybe_parse_apply_patch_verified (xw_query w) (xw_diff w) (xw_disk_env w) command (ep_cwd params) disk of
                VerifiedBody action \<Rightarrow>
                  (case handle_patch w s action disk of (outcome, disk) \<Rightarrow> (outcome, approved, disk))
              | CorrectnessError e \<Rightarrow> (PatchErrorReply e, approved, disk)
              | VerifiedShellParseError _ \<Rightarrow>
                  (case handle_assessed w s params approved of (outcome, approved) \<Rightarrow> (outcome, approved, disk))
              | VerifiedNotApplyPatch \<Rightarrow>
                  (case handle_assessed w s params approved of (outcome, approved) \<Rightarrow> (outcome, approved, disk))))"

section \<open>Recognising branch worktrees\<close>

lemma path_ancestors_iff:
  "a \<in> set (path_ancestors path) \<longleftrightarrow>
     a = path \<or> (\<exists>p. path_parent path = Some p \<and> a \<in> set (path_ancestors p))"
  by (subst path_ancestors.simps) (cases "path_parent path"; simp)

lemma path_ancestors_end: "\<exists>a. a \<in> set (path_ancestors path) \<and> path_parent a = None"
proof (induction path rule: path_ancestors.induct)
  case (1 comps)
  show ?case
  proof (cases "path_parent comps")
    case None
    then show ?thesis
      using path_ancestors_iff by blast
  next
    case (Some p)
    then show ?thesis
      using 1 [OF Some] path_ancestors_iff by blast
  qed
qed

lemma branch_root_loop_None: "a \<in> set as \<Longrightarrow> path_parent a = None \<Longrightarrow> branch_root_loop as c = None"
  by (induction as arbitrary: c) (auto split: option.splits)

lemma branch_worktree_root_None: "branch_worktree_root path = None"
  using path_ancestors_end [of path] branch_root_loop_None by (auto simp: branch_worktree_root_def)

lemma path_ancestors_prefix: "a \<in> set (path_ancestors path) \<Longrightarrow> prefix a path"
proof (induction path rule: path_ancestors.induct)
  case (1 comps)
  show ?case
  proof (cases "a = comps")
    case False
    then obtain p where p: "path_parent comps = Some p" "a \<in> set (path_ancestors p)"
      using 1(2) path_ancestors_iff by blast
    then have "prefix p comps"
      by (auto simp: path_parent_def prefixeq_butlast split: if_splits)
    then show ?thesis
      using 1(1) [OF p] by (rule prefix_order.trans [rotated])
  qed simp
qed

lemma path_ancestors_complete:
  "prefix a path \<Longrightarrow> a \<noteq> [] \<Longrightarrow> a \<noteq> [[47]] \<Longrightarrow> a \<in> set (path_ancestors path)"
proof (induction path rule: path_ancestors.induct)
  case (1 comps)
  show ?case
  proof (cases "a = comps")
    case False
    then obtain z zs where comps: "comps = a @ z # zs"
      using 1(2) by (metis append_Nil2 list.exhaust prefix_def)
    then have "path_parent comps = Some (butlast comps)"
      using 1(3) by (auto simp: path_parent_def append_eq_Cons_conv)
    moreover have "prefix a (butlast comps)"
      by (simp add: comps butlast_append)
    ultimately have "a \<in> set (path_ancestors (butlast comps))"
      using 1 by blast
    then show ?thesis
      using \<open>path_parent comps = _\<close> path_ancestors_iff by blast
  qed (use path_ancestors_iff in blast)
qed

lemma named_ancestor_iff:
  assumes "n \<notin> {[47], [46], [46, 46]}"
  shows "(\<exists>a \<in> set (path_ancestors path). component_name a = Some n \<and> Q a) \<longleftrightarrow>
    (\<exists>b c. path = b @ n # c \<and> Q (b @ [n]))"
proof
  assume "\<exists>a \<in> set (path_ancestors path). component_name a = Some n \<and> Q a"
  then obtain a where a: "prefix a path" "a \<noteq> []" "last a = n" "Q a"
    using path_ancestors_prefix by (auto simp: component_name_def split: if_splits)
  then obtain c where "path = butlast a @ n # c"
    by (metis append.assoc append_Cons append_Nil append_butlast_last_id prefix_def)
  moreover have "Q (butlast a @ [n])"
    using a by (metis append_butlast_last_id)
  ultimately show "\<exists>b c. path = b @ n # c \<and> Q (b @ [n])"
    by blast
next
  assume "\<exists>b c. path = b @ n # c \<and> Q (b @ [n])"
  then obtain b c where b: "path = b @ n # c" "Q (b @ [n])"
    by blast
  then have "b @ [n] \<in> set (path_ancestors path)"
    using assms by (intro path_ancestors_complete) (auto simp: append_eq_Cons_conv)
  then show "\<exists>a \<in> set (path_ancestors path). component_name a = Some n \<and> Q a"
    using assms b(2) by (intro bexI [of _ "b @ [n]"]) (auto simp: component_name_def)
qed

lemma has_code_dir_iff:
  "has_code_dir d \<longleftrightarrow> (\<exists>dir. d = Some dir \<and> (\<exists>b c. dir = b @ lit ''.code'' # c))"
proof -
  have name: "lit ''.code'' \<notin> {[47], [46], [46, 46]}"
    by (simp add: lit_def)
  have "has_code_dir d \<longleftrightarrow> (\<exists>dir a. d = Some dir \<and> a \<in> set (path_ancestors dir) \<and> component_name a = Some (lit ''.code''))"
  proof (induction d rule: has_code_dir.induct)
    case (2 dir)
    show ?case
    proof (cases "component_name dir = Some (lit ''.code'')")
      case True
      then show ?thesis
        using path_ancestors_iff [of dir dir] by auto
    next
      case False
      then show ?thesis
        using 2 path_ancestors_iff [of _ dir] by (simp, metis)
    qed
  qed simp
  then show ?thesis
    using named_ancestor_iff [OF name, of _ "\<lambda>_. True"] by blast
qed

text \<open>
  The front end takes a working directory for a branch worktree exactly when a component
  \<open>.code\<close> stands somewhere above a component \<open>branches\<close> in it.
\<close>

theorem widget_branch_worktree_path_iff:
  "widget_is_branch_worktree_path path \<longleftrightarrow>
     (\<exists>a b c. path = a @ [lit ''.code''] @ b @ [lit ''branches''] @ c)"
proof -
  have name: "lit ''branches'' \<notin> {[47], [46], [46, 46]}"
    by (simp add: lit_def)
  then have parent: "path_parent (b @ [lit ''branches'']) = Some b" for b
    by (auto simp: path_parent_def)
  have "widget_is_branch_worktree_path path \<longleftrightarrow>
      (\<exists>b c. path = b @ lit ''branches'' # c \<and> has_code_dir (Some b))"
    unfolding widget_is_branch_worktree_path_def list_ex_iff named_ancestor_iff [OF name] parent ..
  also have "\<dots> \<longleftrightarrow> (\<exists>b c a a'. path = b @ lit ''branches'' # c \<and> b = a @ lit ''.code'' # a')"
    unfolding has_code_dir_iff by blast
  also have "\<dots> \<longleftrightarrow> (\<exists>a b c. path = a @ [lit ''.code''] @ b @ [lit ''branches''] @ c)"
    by (metis append.assoc append_Cons append_Nil)
  finally show ?thesis .
qed

text \<open>
  The guard that keeps patches inside the active branch worktree never acts: the core's function
  finds no worktree root for any working directory, because its loop over the ancestors always reaches
  one without a parent and then gives up, so no command is answered by that guard and every verified
  patch goes on to its approval.
\<close>

theorem branch_guard_never_acts:
  "branch_worktree_root path = None \<and>
   fst (handle_container_exec_with_params w s params approved disk) \<noteq> BranchReply b"
proof -
  have "fst (handle_patch w s action disk) \<noteq> BranchReply b" for action
    by (simp add: handle_patch_def branch_worktree_root_None split: prod.split)
  then have "handle_patch w s action disk \<noteq> (BranchReply b, disk')" for action disk'
    by (metis fst_conv)
  then show ?thesis
    by (auto simp: branch_worktree_root_None handle_container_exec_with_params_def handle_assessed_def Let_def
        split: sum.split maybe_apply_patch_verified.split prod.split)
qed

section \<open>What is started\<close>

lemma started_inv:
  assumes "handle_container_exec_with_params w s params approved disk = (Started argv t, approved', disk')"
  obtains command where
    "command_guards (xs_lib s) (xs_confirm_guard s) (xs_dry_run_guard s) (ep_cwd params) (ep_command params) = Inr command"
    "fst (exec_decision (shell_lib.truncate (xs_lib s)) (host_os (xw_host w)) command (xs_approval_policy s)
       (xs_sandbox_policy s) (case ep_with_escalated_permissions params of Some b \<Rightarrow> b | None \<Rightarrow> False) (xw_decide w)
       approved) = Inr t"
    "argv = start_command w s (params\<lparr>ep_command := command\<rparr>)" "disk' = disk"
  using assms
  by (auto simp: handle_container_exec_with_params_def handle_assessed_def handle_patch_def Let_def
      split: sum.splits maybe_apply_patch_verified.splits prod.splits option.splits)

lemma unsandboxed_reason:
  assumes "fst (exec_decision lib os command approval sandbox escalated decide approved) = Inr NoSandbox"
  shows "trusted_command lib approved command \<or> sandbox = DangerFullAccess \<and> approval \<noteq> UnlessTrusted \<or>
    decide = Approved \<or> decide = ApprovedForSession"
proof (rule ccontr)
  assume no: "\<not> ?thesis"
  then obtain b where "assess_command_safety lib os command approval sandbox approved escalated = AutoApprove NoSandbox b"
    using assms by (auto simp: exec_decision_def split: safety_check.splits review_decision.splits)
  then show False
    using no untrusted_unsandboxed_iff by (auto simp: assess_untrusted)
qed

text \<open>
  (C3) What the shell tool starts is the command that was assessed. When a call with an argument vector
  starts a process outside every sandbox, the process is built from a command that passed the guards: the
  command itself, or, in a session that runs commands in the user's profile, the invocation of the user's
  shell made from it where there is one; either way with the prefix that turns job control off. That
  command is trusted, or full access was granted, or the user has just approved it; and no file was changed
  by the handler.
\<close>

theorem started_command_was_assessed:
  assumes "handle_container_exec_with_params w s (to_exec_params cwd call) approved disk = (Started argv NoSandbox, approved', disk')"
  shows "\<exists>command. disk' = disk \<and>
    argv = suppress_bash_job_control
      (if xs_use_profile s
       then (case format_default_shell_invocation (xs_lib s) (xw_shell_host w) (xs_user_shell s) command of
               Some invocation \<Rightarrow> invocation | None \<Rightarrow> command)
       else command) \<and>
    command_guards (xs_lib s) (xs_confirm_guard s) (xs_dry_run_guard s) (session_resolve_path cwd (st_workdir call))
      (st_command call) = Inr command \<and>
    (trusted_command (shell_lib.truncate (xs_lib s)) approved command \<or>
     xs_sandbox_policy s = DangerFullAccess \<and> xs_approval_policy s \<noteq> UnlessTrusted \<or>
     xw_decide w = Approved \<or> xw_decide w = ApprovedForSession)"
proof -
  have "start_command w s ((to_exec_params cwd call)\<lparr>ep_command := command\<rparr>) = suppress_bash_job_control
      (if xs_use_profile s
       then (case format_default_shell_invocation (xs_lib s) (xw_shell_host w) (xs_user_shell s) command of
               Some invocation \<Rightarrow> invocation | None \<Rightarrow> command)
       else command)" for command
    by (simp add: start_command_def maybe_run_with_user_profile_def materialize_shell_script_def to_exec_params_def
        Let_def split: option.split)
  moreover have "ep_command (to_exec_params cwd call) = st_command call"
    "ep_cwd (to_exec_params cwd call) = session_resolve_path cwd (st_workdir call)"
    by (simp_all add: to_exec_params_def)
  ultimately show ?thesis
    using started_inv [OF assms] unsandboxed_reason by metis
qed

text \<open>With a login shell of the account, that invocation runs the joined words after the start-up file.\<close>

lemma profile_invocation:
  assumes "sh = Zsh shell_path rc \<or> sh = Bash shell_path rc" and "strip_bash_lc command = None"
    and "shlex_try_join lib command = Some joined" and "path_exists host rc"
  shows "format_default_shell_invocation lib host sh command =
    Some [shell_path, lit ''-lc'', format_command_with_rc rc joined]"
  using assms
  by (auto simp: format_default_shell_invocation_def format_shell_invocation_with_rc_def or_else_def)

text \<open>The guards judge a confirmed text without its prefix.\<close>

lemma confirmed_text_judged:
  assumes "trim_start sent = p @ r" "p \<in> set confirm_prefixes"
    and "command_guards lib guard st cwd [sent] = Inr command"
  shows "command = strip_leading_confirm_prefix [trim_start r]"
proof -
  have "has_confirm_prefix (trim_start sent)"
    using assms(1,2) by (auto simp: has_confirm_prefix_def list_ex_iff starts_with_iff)
  moreover have "without_confirm_prefix (trim_start sent) = trim_start r"
    using assms(2) unfolding assms(1) confirm_prefixes_def without_confirm_prefix_def by (auto simp: lit_def)
  ultimately show ?thesis
    using assms(3)
    by (auto simp: command_guards_def script_guards_def extract_shell_script_def Let_def split: option.splits)
qed

text \<open>
  (C14) A confirmed \<open>shell_command\<close> call is not run as confirmed. The guards remove the confirm prefix
  from the words that are assessed, but the script to start was set aside before that: for a text that is,
  after leading blanks, a confirm prefix and \<open>r\<close>, the verdict is given on \<open>r\<close> without leading blanks (a
  second prefix in front of it is removed as well), and what is started on that verdict is the text as it
  was sent, with the prefix in front, in the user's shell.
\<close>

theorem confirmed_shell_command_keeps_prefix:
  assumes "handle_container_exec_with_params w s (to_exec_params_from_shell_command cwd call) approved disk =
      (Started argv t, approved', disk')"
    and "trim_start (sc_command call) = p @ r" and "p \<in> set confirm_prefixes"
  shows "command_guards (xs_lib s) (xs_confirm_guard s) (xs_dry_run_guard s) (session_resolve_path cwd (sc_workdir call))
      [sc_command call] = Inr (strip_leading_confirm_prefix [trim_start r]) \<and>
    fst (exec_decision (shell_lib.truncate (xs_lib s)) (host_os (xw_host w)) (strip_leading_confirm_prefix [trim_start r])
      (xs_approval_policy s) (xs_sandbox_policy s)
      (case escalation (sc_sandbox_permissions call) of Some b \<Rightarrow> b | None \<Rightarrow> False) (xw_decide w) approved) = Inr t \<and>
    argv = suppress_bash_job_control
      (shell_script_invocation_or_default (xw_shell_host w) (xs_user_shell s) (sc_command call)
        (case sc_login call of Some b \<Rightarrow> b | None \<Rightarrow> True))"
proof -
  obtain command where command:
    "command_guards (xs_lib s) (xs_confirm_guard s) (xs_dry_run_guard s) (session_resolve_path cwd (sc_workdir call))
       [sc_command call] = Inr command"
    "fst (exec_decision (shell_lib.truncate (xs_lib s)) (host_os (xw_host w)) command (xs_approval_policy s)
      (xs_sandbox_policy s) (case escalation (sc_sandbox_permissions call) of Some b \<Rightarrow> b | None \<Rightarrow> False)
      (xw_decide w) approved) = Inr t"
    "argv = start_command w s ((to_exec_params_from_shell_command cwd call)\<lparr>ep_command := command\<rparr>)"
    using started_inv [OF assms(1)] by (auto simp: to_exec_params_from_shell_command_def)
  moreover have "argv = suppress_bash_job_control
      (shell_script_invocation_or_default (xw_shell_host w) (xs_user_shell s) (sc_command call)
        (case sc_login call of Some b \<Rightarrow> b | None \<Rightarrow> True))"
    by (auto simp: command(3) start_command_def maybe_run_with_user_profile_def materialize_shell_script_def
        to_exec_params_from_shell_command_def Let_def)
  moreover have "command = strip_leading_confirm_prefix [trim_start r]"
    using assms(2,3) command(1) by (rule confirmed_text_judged)
  ultimately show ?thesis
    by simp
qed

section \<open>Samples\<close>

definition sample_world :: "rstr list exec_world" where
  "sample_world =
     \<lparr>xw_query = (\<lambda>_. Inl CommandDidNotStartWithApplyPatch), xw_diff = (\<lambda>_ _. []), xw_disk_env = sample_disk_env,
      xw_host = sample_host, xw_shell_host = sample_shell_host, xw_before_write = (\<lambda>d. d), xw_visit = (\<lambda>cs. cs),
      xw_decide = Denied\<rparr>"

definition sample_session :: exec_session where
  "sample_session =
     \<lparr>xs_lib = sample_lib, xs_confirm_guard = [], xs_dry_run_guard = guard_state_default, xs_cwd = lit ''/w'',
      xs_approval_policy = Never, xs_sandbox_policy = DangerFullAccess, xs_user_shell = UnknownShell,
      xs_use_profile = False\<rparr>"

lemma sample_reset_no_patch: "isl (parse_patch (lit ''git reset''))"
  by (simp add: parse_patch_def parse_patch_text_def PARSE_IN_STRICT_MODE_def check_patch_boundaries_strict_def
      check_start_and_end_lines_strict_def check_patch_boundaries_lenient_def BEGIN_PATCH_MARKER_def str_lines_def str_eval)

lemma sample_reset_passes:
  assumes "argv = [confirm_text (lit ''git reset'')] \<and> i = 0 \<or> argv = [lit ''bash'', lit ''-lc'', confirm_text (lit ''git reset'')] \<and> i = 2"
  shows "command_guards sample_lib [] guard_state_default (lit ''/w'') argv = Inr (argv[i := lit ''git reset''])"
    and "maybe_parse_apply_patch_verified (\<lambda>_. Inl CommandDidNotStartWithApplyPatch) diff env (argv[i := lit ''git reset'']) cwd disk =
      VerifiedNotApplyPatch"
proof -
  have trim: "trim_start (lit ''git reset'') = lit ''git reset''"
    by (simp add: str_eval)
  have script: "extract_shell_script argv = Some (i, confirm_text (lit ''git reset''))"
    "extract_shell_script (argv[i := lit ''git reset'']) = Some (i, lit ''git reset'')"
    using assms bash_script by (auto simp: extract_shell_script_def)
  have words: "shlex_split sample_lib (lit ''git reset'') = Some [lit ''git'', lit ''reset'']"
    by (simp add: sample_lib_def str_eval)
  have "\<not> starts_confirmed (argv[i := lit ''git reset''])"
    using assms by (auto simp: starts_confirmed_def confirm_prefixes_def str_eval)
  moreover have "write_guards sample_lib (lit ''/w'') (argv[i := lit ''git reset'']) = None"
  proof -
    have "detect_redundant_cd sample_lib (argv[i := lit ''git reset'']) (lit ''/w'') = None"
      using assms by (auto simp: detect_redundant_cd_def script detect_redundant_cd_in_shell_def trim words or_else_def
          detect_redundant_cd_in_argv_def after_redundant_cd_def)
    moreover have "\<not> script_contains_cat_write (lit ''git reset'')" "\<not> script_contains_python_write (lit ''git reset'')"
      by (simp_all add: script_contains_cat_write_def line_contains_cat_heredoc_write_def script_contains_python_write_def str_eval)
    moreover have "\<not> is_python_command (lit ''bash'')"  "\<not> is_python_command (lit ''git reset'')"
      by (simp_all add: is_python_command_def file_name_def path_parts_def str_eval)
    ultimately show ?thesis
      using assms by (auto simp: write_guards_def detect_cat_write_def detect_python_write_def script detect_python_write_in_argv_def)
  qed
  ultimately show "command_guards sample_lib [] guard_state_default (lit ''/w'') argv = Inr (argv[i := lit ''git reset''])"
    using confirmed_guards [OF script(1), of sample_lib "[]" guard_state_default "lit ''/w''"] by (simp add: trim)
  have no_heredoc: "extract_apply_patch_from_shell (\<lambda>_. Inl CommandDidNotStartWithApplyPatch) sh t = Inl CommandDidNotStartWithApplyPatch" for sh t
    by (cases sh) (simp_all add: extract_apply_patch_from_bash_def)
  show "maybe_parse_apply_patch_verified (\<lambda>_. Inl CommandDidNotStartWithApplyPatch) diff env (argv[i := lit ''git reset'']) cwd disk =
      VerifiedNotApplyPatch"
    using assms sample_reset_no_patch no_heredoc
    by (auto simp: maybe_parse_apply_patch_verified_def maybe_parse_apply_patch_def parse_shell_script_def
        APPLY_PATCH_COMMANDS_def extract_apply_patch_from_bash_def from_extracted_def str_eval Let_def
        split: option.splits)
qed


lemma sample_started:
  assumes "ep_command params = [confirm_text (lit ''git reset'')] \<and> i = (0 :: nat) \<or>
      ep_command params = [lit ''bash'', lit ''-lc'', confirm_text (lit ''git reset'')] \<and> i = 2"
    and "ep_cwd params = lit ''/w''" "ep_with_escalated_permissions params = None"
  shows "\<exists>argv. handle_container_exec_with_params sample_world sample_session params [] Map.empty =
    (Started argv NoSandbox, [], Map.empty)"
proof -
  have "exec_decision lib os command Never DangerFullAccess False Denied [] = (Inr NoSandbox, [])" for lib os command
    by (cases "trusted_command lib [] command") (simp_all add: exec_decision_def assess_trusted assess_untrusted)
  then show ?thesis
    using sample_reset_passes(1) [OF assms(1)] sample_reset_passes(2) [OF assms(1), where env = sample_disk_env] assms(2,3)
    by (simp add: handle_container_exec_with_params_def handle_assessed_def sample_world_def sample_session_def Let_def)
qed

definition sample_call :: shell_tool_call_params where
  "sample_call =
     \<lparr>st_command = [lit ''bash'', lit ''-lc'', confirm_text (lit ''git reset'')], st_workdir = None,
      st_timeout_ms = None, st_sandbox_permissions = None\<rparr>"

theorem started_command_was_assessed_witness:
  "\<exists>argv command. handle_container_exec_with_params sample_world sample_session (to_exec_params (lit ''/w'') sample_call) []
      Map.empty = (Started argv NoSandbox, [], Map.empty) \<and>
    argv = suppress_bash_job_control command \<and> command_guards sample_lib [] guard_state_default (lit ''/w'') (st_command sample_call) = Inr command"
proof -
  obtain argv where started: "handle_container_exec_with_params sample_world sample_session (to_exec_params (lit ''/w'') sample_call) [] Map.empty =
      (Started argv NoSandbox, [], Map.empty)"
    using sample_started [of "to_exec_params (lit ''/w'') sample_call" 2]
    by (auto simp: to_exec_params_def sample_call_def session_resolve_path_def escalation_def)
  from started_command_was_assessed [OF this] started show ?thesis
    by (auto simp: sample_session_def sample_call_def session_resolve_path_def)
qed

theorem confirmed_shell_command_keeps_prefix_witness:
  "\<exists>argv. handle_container_exec_with_params sample_world sample_session
      (to_exec_params_from_shell_command (lit ''/w'') (sample_shell_call (confirm_text (lit ''git reset'')))) [] Map.empty =
      (Started argv NoSandbox, [], Map.empty) \<and>
    command_guards sample_lib [] guard_state_default (lit ''/w'') [confirm_text (lit ''git reset'')] = Inr [lit ''git reset''] \<and>
    argv = suppress_bash_job_control
      (shell_script_invocation_or_default sample_shell_host UnknownShell (confirm_text (lit ''git reset'')) True)"
proof -
  let ?call = "sample_shell_call (confirm_text (lit ''git reset''))"
  obtain argv where started: "handle_container_exec_with_params sample_world sample_session
      (to_exec_params_from_shell_command (lit ''/w'') ?call) [] Map.empty = (Started argv NoSandbox, [], Map.empty)"
    using sample_started [of "to_exec_params_from_shell_command (lit ''/w'') ?call" 0]
    by (auto simp: to_exec_params_from_shell_command_def sample_shell_call_def session_resolve_path_def escalation_def)
  have "trim_start (confirm_text (lit ''git reset'')) = lit ''confirm:'' @ lit '' git reset''"
    by (simp add: confirm_text_def str_eval)
  moreover have "strip_leading_confirm_prefix [trim_start (lit '' git reset'')] = [lit ''git reset'']"
    by (simp add: strip_leading_confirm_prefix_def confirm_prefixes_def str_eval)
  ultimately show ?thesis
    using confirmed_shell_command_keeps_prefix [OF started, of "lit ''confirm:''" "lit '' git reset''"] started
    by (auto simp: sample_session_def sample_world_def sample_host_def sample_shell_call_def confirm_prefixes_def
        session_resolve_path_def)
qed

end
