(* ===== verification/Truncate.thy ===== *)
theory Truncate
  imports Rust_Prelude
begin

text \<open>
  Truncating the middle of a text, \<open>code-rs/core/src/truncate.rs\<close>. Positions are byte offsets into the
  UTF-8 form; slicing a text anywhere else than between two chars panics, which is the value \<open>None\<close> of
  the operations. The ellipsis is the char 8230 of three bytes.
\<close>

section \<open>Definitions\<close>

text \<open>The two parts of a text at a byte offset, when it lies between two chars.\<close>

fun byte_split :: "nat \<Rightarrow> rstr \<Rightarrow> (rstr \<times> rstr) option" where
  "byte_split n [] = (if n = 0 then Some ([], []) else None)"
| "byte_split n (c # s) =
     (if n = 0 then Some ([], c # s)
      else if utf8_len c \<le> n then map_option (\<lambda>(a, b). (c # a, b)) (byte_split (n - utf8_len c) s)
      else None)"

definition is_char_boundary :: "rstr \<Rightarrow> nat \<Rightarrow> bool" where
  "is_char_boundary s n \<longleftrightarrow> byte_split n s \<noteq> None"

fun boundary_below :: "rstr \<Rightarrow> nat \<Rightarrow> nat" where
  "boundary_below s 0 = 0"
| "boundary_below s (Suc n) = (if \<not> is_char_boundary s (Suc n) then boundary_below s n else Suc n)"

definition truncate_on_boundary :: "rstr \<Rightarrow> nat \<Rightarrow> nat" where
  "truncate_on_boundary s max_len = (if byte_len s \<le> max_len then byte_len s else boundary_below s max_len)"

function boundary_above :: "rstr \<Rightarrow> nat \<Rightarrow> nat" where
  "boundary_above s idx =
     (if idx < byte_len s \<and> \<not> is_char_boundary s idx then boundary_above s (idx + 1) else idx)"
  by pat_completeness auto
termination
  by (relation "measure (\<lambda>(s, idx). byte_len s - idx)") auto

declare boundary_above.simps [simp del]

definition pick_prefix_end :: "rstr \<Rightarrow> nat \<Rightarrow> nat" where
  "pick_prefix_end s left_budget =
     (case byte_split left_budget s of
        Some (head, _) \<Rightarrow>
          (if 10 \<in> set head then byte_len (rev (dropWhile (\<lambda>c. c \<noteq> 10) (rev head)))
           else truncate_on_boundary s left_budget)
      | None \<Rightarrow> truncate_on_boundary s left_budget)"

definition pick_suffix_start :: "rstr \<Rightarrow> nat \<Rightarrow> nat" where
  "pick_suffix_start s right_budget =
     (let start_tail = byte_len s - right_budget
      in case byte_split start_tail s of
           Some (_, tail) \<Rightarrow>
             (if 10 \<in> set tail then start_tail + byte_len (takeWhile (\<lambda>c. c \<noteq> 10) tail) + 1
              else boundary_above s (min start_tail (byte_len s)))
         | None \<Rightarrow> boundary_above s (min start_tail (byte_len s)))"

definition div_ceil4 :: "nat \<Rightarrow> nat" where
  "div_ceil4 n = (n + 3) div 4"

definition truncation_marker :: "nat \<Rightarrow> rstr" where
  "truncation_marker tokens = [8230] @ show_nat tokens @ lit '' tokens truncated'' @ [8230]"

text \<open>The slices before and after the cut; \<open>None\<close> is a panic.\<close>

definition cut_out :: "rstr \<Rightarrow> nat \<Rightarrow> rstr \<Rightarrow> nat \<Rightarrow> rstr option" where
  "cut_out s prefix_end marker suffix_start =
     (case (byte_split prefix_end s, byte_split suffix_start s) of
        (Some (a, _), Some (_, b)) \<Rightarrow> Some (a @ marker @ [10] @ b)
      | _ \<Rightarrow> None)"

text \<open>Where to cut for a marker with a guessed number of tokens; nothing is kept when there is no room.\<close>

definition cut_points :: "rstr \<Rightarrow> nat \<Rightarrow> nat \<Rightarrow> (nat \<times> nat) option" where
  "cut_points s max_bytes guess_tokens =
     (let keep_budget = max_bytes - byte_len (truncation_marker guess_tokens);
          left_budget = keep_budget div 2;
          right_budget = keep_budget - left_budget
      in if keep_budget = 0 then None
         else Some (pick_prefix_end s left_budget, pick_suffix_start s right_budget))"

definition dropped_tokens :: "rstr \<Rightarrow> nat \<Rightarrow> nat \<Rightarrow> nat" where
  "dropped_tokens s prefix_end suffix_start =
     (let kept_content_bytes = prefix_end + (byte_len s - suffix_start)
      in div_ceil4 (byte_len s - kept_content_bytes))"

text \<open>
  The rounds of the loop that are left, with the number of tokens guessed so far; in the last step the
  cut is made with whatever was guessed.
\<close>

primrec truncate_rounds :: "nat \<Rightarrow> rstr \<Rightarrow> nat \<Rightarrow> nat \<Rightarrow> rstr option" where
  "truncate_rounds 0 s max_bytes guess_tokens =
     (case cut_points s max_bytes guess_tokens of
        None \<Rightarrow> Some (truncation_marker (div_ceil4 (byte_len s)))
      | Some (prefix_end, suffix_start) \<Rightarrow> cut_out s prefix_end (truncation_marker guess_tokens) suffix_start)"
| "truncate_rounds (Suc rounds) s max_bytes guess_tokens =
     (case cut_points s max_bytes guess_tokens of
        None \<Rightarrow> Some (truncation_marker (div_ceil4 (byte_len s)))
      | Some (prefix_end, suffix_start) \<Rightarrow>
          (let suffix_start = (if suffix_start < prefix_end then prefix_end else suffix_start);
               new_tokens = dropped_tokens s prefix_end suffix_start
           in if new_tokens = guess_tokens
              then cut_out s prefix_end (truncation_marker guess_tokens) suffix_start
              else truncate_rounds rounds s max_bytes new_tokens))"

definition truncate_middle :: "rstr \<Rightarrow> nat \<Rightarrow> (rstr \<times> nat option) option" where
  "truncate_middle s max_bytes =
     (if byte_len s \<le> max_bytes then Some (s, None)
      else (let est_tokens = div_ceil4 (byte_len s)
            in if max_bytes = 0 then Some (truncation_marker est_tokens, Some est_tokens)
               else map_option (\<lambda>out. (out, Some est_tokens)) (truncate_rounds 4 s max_bytes est_tokens)))"

section \<open>Offsets\<close>

lemma byte_len_simps [simp]:
  "byte_len [] = 0" "byte_len (c # s) = utf8_len c + byte_len s" "byte_len (s @ t) = byte_len s + byte_len t"
  "byte_len (rev s) = byte_len s"
  by (simp_all add: byte_len_def rev_map [symmetric] sum_list_rev)

lemma utf8_len_pos [simp]: "0 < utf8_len c"
  by (simp add: utf8_len_def)

lemma byte_split_iff: "byte_split n s = Some (a, b) \<longleftrightarrow> s = a @ b \<and> n = byte_len a"
proof (induction n s arbitrary: a rule: byte_split.induct)
  case (2 n c s)
  show ?case
  proof (cases a)
    case Nil
    then show ?thesis by auto
  next
    case (Cons d a')
    show ?thesis
    proof (cases "n \<noteq> 0 \<and> utf8_len c \<le> n")
      case True
      then show ?thesis
        using 2 [of a'] Cons by auto
    next
      case False
      then show ?thesis
        using utf8_len_pos [of d] by (auto simp: Cons)
    qed
  qed
qed auto

lemma byte_split_prefix [simp]: "byte_split (byte_len a) (a @ b) = Some (a, b)"
  by (simp add: byte_split_iff)

lemma is_char_boundary_iff: "is_char_boundary s n \<longleftrightarrow> (\<exists>a b. s = a @ b \<and> n = byte_len a)"
  by (auto simp: is_char_boundary_def byte_split_iff)

lemma char_boundaryI: "s = a @ b \<Longrightarrow> is_char_boundary s (byte_len a)"
  by (auto simp: is_char_boundary_iff)

lemma boundary_ends [simp]: "is_char_boundary s 0" "is_char_boundary s (byte_len s)"
  using char_boundaryI [of s "[]" s] char_boundaryI [of s s "[]"] by simp_all

lemma boundary_below_spec: "is_char_boundary s (boundary_below s n) \<and> boundary_below s n \<le> n"
  by (induction s n rule: boundary_below.induct) auto

lemma boundary_above_spec:
  "idx \<le> byte_len s \<Longrightarrow> is_char_boundary s (boundary_above s idx) \<and> idx \<le> boundary_above s idx"
proof (induction s idx rule: boundary_above.induct)
  case (1 s idx)
  show ?case
  proof (cases "idx < byte_len s \<and> \<not> is_char_boundary s idx")
    case True
    then show ?thesis
      using 1 by (subst (1 2) boundary_above.simps) auto
  next
    case False
    then show ?thesis
      using 1(2) by (subst (1 2) boundary_above.simps) (auto simp: le_less)
  qed
qed

lemma pick_prefix_end_spec: "is_char_boundary s (pick_prefix_end s left) \<and> pick_prefix_end s left \<le> left"
proof (cases "\<exists>head tail. byte_split left s = Some (head, tail) \<and> 10 \<in> set head")
  case True
  then obtain head tail where split: "byte_split left s = Some (head, tail)" "10 \<in> set head"
    by blast
  obtain p q where p: "p = rev (dropWhile (\<lambda>c. c \<noteq> 10) (rev head))" "head = p @ q"
    by (metis rev_append rev_rev_ident takeWhile_dropWhile_id)
  have s: "s = p @ (q @ tail)" "left = byte_len p + byte_len q"
    using split(1) p(2) by (simp_all add: byte_split_iff)
  have "pick_prefix_end s left = byte_len p"
    using split p(1) by (simp add: pick_prefix_end_def)
  then show ?thesis
    using char_boundaryI [OF s(1)] s(2) by simp
next
  case False
  then have "pick_prefix_end s left = truncate_on_boundary s left"
    by (auto simp: pick_prefix_end_def split: option.split)
  then show ?thesis
    using boundary_below_spec [of s left] by (auto simp: truncate_on_boundary_def)
qed

lemma pick_suffix_start_spec:
  "is_char_boundary s (pick_suffix_start s right) \<and> byte_len s - right \<le> pick_suffix_start s right"
proof (cases "\<exists>head tail. byte_split (byte_len s - right) s = Some (head, tail) \<and> 10 \<in> set tail")
  case True
  then obtain head tail where split: "byte_split (byte_len s - right) s = Some (head, tail)" "10 \<in> set tail"
    by blast
  obtain p q where p: "tail = p @ 10 # q" "10 \<notin> set p"
    using split_list_first [OF split(2)] by blast
  have first: "takeWhile (\<lambda>c. c \<noteq> 10) tail = p"
    using p(2) unfolding p(1) by (induction p) auto
  have start: "byte_len s - right = byte_len head" and "s = head @ tail"
    using split(1) unfolding byte_split_iff by blast+
  then have s: "s = (head @ p @ [10]) @ q"
    using p(1) by simp
  have "pick_suffix_start s right = byte_len head + byte_len p + 1"
    using split start by (simp add: pick_suffix_start_def first Let_def)
  then show ?thesis
    using char_boundaryI [OF s] start by (simp add: utf8_len_def)
next
  case False
  then have "pick_suffix_start s right = boundary_above s (min (byte_len s - right) (byte_len s))"
    by (auto simp: pick_suffix_start_def Let_def split: option.split)
  then show ?thesis
    using boundary_above_spec [of "byte_len s - right" s] by simp
qed

section \<open>The cut\<close>

lemma byte_len_0_iff [simp]: "byte_len s = 0 \<longleftrightarrow> s = []"
  by (cases s) auto

lemma shorter_prefix: "a @ a' = b' @ b \<Longrightarrow> byte_len a \<le> byte_len b' \<Longrightarrow> \<exists>middle. b' = a @ middle"
  by (auto simp: append_eq_append_conv2)

text \<open>A text without its middle.\<close>

definition middle_cut :: "rstr \<Rightarrow> nat \<Rightarrow> rstr \<Rightarrow> bool" where
  "middle_cut s max_bytes out \<longleftrightarrow>
     (\<exists>a middle b tokens. s = a @ middle @ b \<and> out = a @ truncation_marker tokens @ [10] @ b \<and>
        byte_len out \<le> max_bytes + 1)"

lemma cut_out_cuts:
  assumes "cut_points s max_bytes tokens = Some (p, q)" "max_bytes < byte_len s"
  shows "p \<le> q \<and> (\<exists>out. cut_out s p (truncation_marker tokens) q = Some out \<and> middle_cut s max_bytes out)"
proof -
  define keep where "keep = max_bytes - byte_len (truncation_marker tokens)"
  have keep: "keep \<noteq> 0" and p: "p = pick_prefix_end s (keep div 2)" and q: "q = pick_suffix_start s (keep - keep div 2)"
    using assms(1) by (auto simp: cut_points_def keep_def Let_def split: if_splits)
  obtain a a' where a: "s = a @ a'" "p = byte_len a" "p \<le> keep div 2"
    using pick_prefix_end_spec [of s "keep div 2"] by (auto simp: p is_char_boundary_iff)
  obtain b' b where b: "s = b' @ b" "q = byte_len b'" "byte_len s - (keep - keep div 2) \<le> q"
    using pick_suffix_start_spec [of s "keep - keep div 2"] by (auto simp: q is_char_boundary_iff)
  have lens: "byte_len s = byte_len b' + byte_len b"
    by (simp add: b(1))
  have "keep + byte_len (truncation_marker tokens) = max_bytes"
    using keep by (simp add: keep_def)
  then have size: "byte_len a + byte_len (truncation_marker tokens) + 1 + byte_len b \<le> max_bytes + 1" and le: "p \<le> q"
    using a(2,3) b(2,3) assms(2) lens by linarith+
  have "\<exists>middle. b' = a @ middle"
    using shorter_prefix [of a a' b' b] a(1,2) b(1,2) le by simp
  then obtain middle where "s = a @ middle @ b"
    using b(1) by auto
  moreover have "cut_out s p (truncation_marker tokens) q = Some (a @ truncation_marker tokens @ [10] @ b)"
    using a b byte_split_prefix [of a a'] byte_split_prefix [of b' b] by (simp add: cut_out_def)
  moreover have "byte_len (a @ truncation_marker tokens @ [10] @ b) \<le> max_bytes + 1"
    using size by (simp add: utf8_len_def)
  ultimately show ?thesis
    using le by (auto simp: middle_cut_def)
qed


lemma truncate_rounds_cuts:
  assumes "max_bytes < byte_len s"
  shows "\<exists>out. truncate_rounds rounds s max_bytes tokens = Some out \<and>
    (out = truncation_marker (div_ceil4 (byte_len s)) \<or> middle_cut s max_bytes out)"
proof (induction rounds arbitrary: tokens)
  case 0
  then show ?case
    using cut_out_cuts [OF _ assms, of tokens] by (cases "cut_points s max_bytes tokens") fastforce+
next
  case (Suc rounds)
  show ?case
  proof (cases "cut_points s max_bytes tokens")
    case (Some pq)
    obtain p q where pq: "pq = (p, q)"
      by (cases pq)
    show ?thesis
      using Suc cut_out_cuts [OF Some [unfolded pq] assms] by (auto simp: Some pq Let_def)
  qed simp
qed

text \<open>
  (C31) Truncating the middle of a text never panics on a char boundary, leaves a short text as it is, and
  otherwise keeps a beginning and an end of it around a marker and a line break, in at most one byte more
  than asked for, or leaves nothing but the marker; it reports the estimated size exactly when it cut.
\<close>

theorem truncate_middle_spec:
  "\<exists>out. truncate_middle s max_bytes =
      Some (out, if byte_len s \<le> max_bytes then None else Some (div_ceil4 (byte_len s))) \<and>
    (if byte_len s \<le> max_bytes then out = s
     else out = truncation_marker (div_ceil4 (byte_len s)) \<or> middle_cut s max_bytes out)"
  using truncate_rounds_cuts [of max_bytes s 4 "div_ceil4 (byte_len s)"]
  by (cases "byte_len s \<le> max_bytes") (auto simp: truncate_middle_def Let_def)

text \<open>The limit is exceeded: 64 letters cut to 32 bytes take 33.\<close>

lemma letters:
  "byte_len (replicate n 97) = n"
  "k \<le> n \<Longrightarrow> byte_split k (replicate n 97) = Some (replicate k 97, replicate (n - k) 97)"
proof -
  show len: "byte_len (replicate n 97) = n" for n
    by (simp add: byte_len_def utf8_len_def sum_list_replicate)
  show "k \<le> n \<Longrightarrow> byte_split k (replicate n 97) = Some (replicate k 97, replicate (n - k) 97)"
    by (simp add: byte_split_iff len replicate_add [symmetric])
qed

lemma letters_picks:
  assumes "k \<le> n"
  shows "pick_prefix_end (replicate n 97) k = k" "pick_suffix_start (replicate n 97) k = n - k"
proof -
  have "is_char_boundary (replicate n 97) k" "is_char_boundary (replicate n 97) (n - k)"
    using assms by (simp_all add: is_char_boundary_def letters)
  then have "boundary_below (replicate n 97) k = k" "boundary_above (replicate n 97) (n - k) = n - k"
    using boundary_above.simps [of "replicate n 97" "n - k"] by (cases k; simp)+
  then show "pick_prefix_end (replicate n 97) k = k" "pick_suffix_start (replicate n 97) k = n - k"
    using assms
    by (auto simp: pick_prefix_end_def pick_suffix_start_def truncate_on_boundary_def letters Let_def)
qed

lemma truncate_middle_exceeds:
  "\<exists>out. truncate_middle (replicate 64 97) 32 = Some (out, Some 16) \<and> byte_len out = 33"
proof -
  have marker: "byte_len (truncation_marker n) = 25" if "n = 15 \<or> n = 16" for n
    using that by (auto simp: truncation_marker_def show_nat.simps [of 15] show_nat.simps [of 16] show_nat.simps [of "Suc 0"]
        show_nat.simps [of 5] show_nat.simps [of 6] utf8_len_def lit_def)
  have cut: "cut_points (replicate 64 97) 32 n = Some (3, 60)" if "n = 15 \<or> n = 16" for n
    using marker [OF that] by (simp add: cut_points_def letters_picks)
  have tokens: "dropped_tokens (replicate 64 97) 3 60 = 15" "div_ceil4 64 = 16"
    by (simp_all add: dropped_tokens_def div_ceil4_def letters)
  let ?out = "replicate 3 97 @ truncation_marker 15 @ [10] @ replicate 4 97"
  have "cut_out (replicate 64 97) 3 (truncation_marker 15) 60 = Some ?out"
    using letters(2) [of 3 64] letters(2) [of 60 64] by (simp add: cut_out_def)
  then have rounds: "truncate_rounds (Suc (Suc n)) (replicate 64 97) 32 16 = Some ?out" for n
    by (simp add: cut tokens)
  have "Suc (Suc 2) = 4"
    by simp
  with rounds [of 2] have "truncate_rounds 4 (replicate 64 97) 32 16 = Some ?out"
    by metis
  moreover have "byte_len ?out = 33"
    by (simp add: marker letters utf8_len_def)
  ultimately show ?thesis
    unfolding truncate_middle_def letters tokens Let_def by simp
qed

end
