(* ===== verification/Compact_Items.thy ===== *)
theory Compact_Items
  imports Retention Truncate
begin

text \<open>
  What compaction does with the items of a conversation, \<open>code-rs/core/src/codex/compact.rs\<close>: shortening
  them for the request, removing tool outputs without their call, collecting the recent exchanges, and
  building the new history. The item types are those of \<open>protocol/src/models.rs\<close>.

  \<open>'x\<close> stands for the values the code only carries along. The JSON text of structured tool outputs
  (\<open>serde_json\<close>) and the rendered \<open>history_bridge.md\<close> template (\<open>askama\<close>) are parameters.
\<close>

section \<open>Items\<close>

datatype 'x output_content = OutputContentText rstr | OutputContentImage rstr 'x

datatype 'x output_body = TextBody rstr | ContentItemsBody "'x output_content list"

record 'x output_payload =
  body :: "'x output_body"
  success :: "bool option"

datatype 'x history_item =
    AdditionalToolsItem "rstr option" rstr 'x
  | MessageItem "rstr option" rstr "content_item list" "bool option" "'x option"
  | ReasoningItem "rstr option" "rstr list" "rstr list option" "rstr option"
  | LocalShellCallItem "rstr option" "rstr option" 'x
  | FunctionCallItem "rstr option" rstr "rstr option" rstr rstr
  | ToolSearchCallItem "rstr option" "rstr option" 'x
  | FunctionCallOutputItem rstr "'x output_payload"
  | CustomToolCallItem "rstr option" "rstr option" rstr rstr "rstr option" rstr
  | CustomToolCallOutputItem rstr "rstr option" "'x output_payload"
  | ToolSearchOutputItem "rstr option" 'x
  | WebSearchCallItem "rstr option" 'x
  | ImageGenerationCallItem 'x
  | GhostSnapshotItem 'x
  | CompactionSummaryItem rstr
  | ContextCompactionItem "rstr option"
  | UnknownItem

definition from_text :: "rstr \<Rightarrow> 'x output_payload" where
  "from_text content = \<lparr>body = TextBody content, success = None\<rparr>"

definition output_to_string :: "('x output_content list \<Rightarrow> rstr) \<Rightarrow> 'x output_payload \<Rightarrow> rstr" where
  "output_to_string to_json output =
     (case body output of TextBody content \<Rightarrow> content | ContentItemsBody items \<Rightarrow> to_json items)"

definition user_message :: "rstr \<Rightarrow> 'x history_item" where
  "user_message t = MessageItem None (lit ''user'') [InputText t] None None"

text \<open>Which items the history keeps, \<open>conversation_history.rs\<close>.\<close>

fun is_api_message :: "'x history_item \<Rightarrow> bool" where
  "is_api_message (AdditionalToolsItem _ _ _) = False"
| "is_api_message (MessageItem _ role _ _ _) = (role \<noteq> lit ''system'')"
| "is_api_message UnknownItem = False"
| "is_api_message _ = True"

definition record_items :: "'x history_item list \<Rightarrow> 'x history_item list \<Rightarrow> 'x history_item list" where
  "record_items new_items history = history @ filter is_api_message new_items"

section \<open>Shortening items\<close>

definition COMPACT_USER_MESSAGE_MAX_TOKENS :: nat where "COMPACT_USER_MESSAGE_MAX_TOKENS = 20000"
definition COMPACT_TEXT_CONTENT_MAX_BYTES :: nat where "COMPACT_TEXT_CONTENT_MAX_BYTES = 8 * 1024"
definition COMPACT_TOOL_ARGS_MAX_BYTES :: nat where "COMPACT_TOOL_ARGS_MAX_BYTES = 4 * 1024"
definition COMPACT_TOOL_OUTPUT_MAX_BYTES :: nat where "COMPACT_TOOL_OUTPUT_MAX_BYTES = 4 * 1024"
definition COMPACT_IMAGE_URL_MAX_BYTES :: nat where "COMPACT_IMAGE_URL_MAX_BYTES = 512"
definition MAX_COMPACTION_SNIPPETS :: nat where "MAX_COMPACTION_SNIPPETS = 12"

text \<open>The truncation of a text always returns: it has no panic to pass on.\<close>

definition truncate_for_compact :: "rstr \<Rightarrow> nat \<Rightarrow> rstr" where
  "truncate_for_compact t max_bytes =
     (if byte_len t \<le> max_bytes then t else fst (the (truncate_middle t max_bytes)))"

fun sanitize_content :: "content_item \<Rightarrow> content_item" where
  "sanitize_content (InputText t) = InputText (truncate_for_compact t COMPACT_TEXT_CONTENT_MAX_BYTES)"
| "sanitize_content (OutputText t) = OutputText (truncate_for_compact t COMPACT_TEXT_CONTENT_MAX_BYTES)"
| "sanitize_content (InputImage url) =
     (if starts_with url (lit ''data:'') \<or> COMPACT_IMAGE_URL_MAX_BYTES < byte_len url
      then InputText (lit ''(image omitted for compaction; '' @ show_nat (byte_len url) @ lit '' bytes)'')
      else InputImage url)"

fun sanitize_item :: "('x output_content list \<Rightarrow> rstr) \<Rightarrow> 'x history_item \<Rightarrow> 'x history_item option" where
  "sanitize_item to_json (MessageItem item_id role content _ _) =
     (let filtered_content = map sanitize_content content
      in if filtered_content = [] then None else Some (MessageItem item_id role filtered_content None None))"
| "sanitize_item to_json (FunctionCallItem item_id name namespace arguments call_id) =
     Some (FunctionCallItem item_id name namespace (truncate_for_compact arguments COMPACT_TOOL_ARGS_MAX_BYTES) call_id)"
| "sanitize_item to_json (FunctionCallOutputItem call_id output) =
     (let content = truncate_for_compact (output_to_string to_json output) COMPACT_TOOL_OUTPUT_MAX_BYTES
      in Some (FunctionCallOutputItem call_id ((from_text content)\<lparr>success := success output\<rparr>)))"
| "sanitize_item to_json (CustomToolCallItem item_id status call_id name namespace input) =
     Some (CustomToolCallItem item_id status call_id name namespace (truncate_for_compact input COMPACT_TOOL_ARGS_MAX_BYTES))"
| "sanitize_item to_json (CustomToolCallOutputItem call_id name output) =
     Some (CustomToolCallOutputItem call_id name
       (from_text (truncate_for_compact (output_to_string to_json output) COMPACT_TOOL_OUTPUT_MAX_BYTES)))"
| "sanitize_item to_json (ReasoningItem item_id summary _ _) = Some (ReasoningItem item_id summary None None)"
| "sanitize_item to_json other = Some other"

definition sanitize_items_for_compact ::
    "('x output_content list \<Rightarrow> rstr) \<Rightarrow> 'x history_item list \<Rightarrow> 'x history_item list" where
  "sanitize_items_for_compact to_json items = List.map_filter (sanitize_item to_json) items"

section \<open>Orphaned tool outputs\<close>

fun called_ids :: "'x history_item \<Rightarrow> rstr list" where
  "called_ids (FunctionCallItem _ _ _ _ call_id) = [call_id]"
| "called_ids (ToolSearchCallItem _ (Some call_id) _) = [call_id]"
| "called_ids (CustomToolCallItem _ _ call_id _ _ _) = [call_id]"
| "called_ids (LocalShellCallItem item_id call_id _) =
     (case call_id of Some c \<Rightarrow> [c] | None \<Rightarrow> []) @ (case item_id of Some i \<Rightarrow> [i] | None \<Rightarrow> [])"
| "called_ids _ = []"

fun answered_id :: "'x history_item \<Rightarrow> rstr option" where
  "answered_id (FunctionCallOutputItem call_id _) = Some call_id"
| "answered_id (ToolSearchOutputItem (Some call_id) _) = Some call_id"
| "answered_id (CustomToolCallOutputItem call_id _ _) = Some call_id"
| "answered_id _ = None"

text \<open>The new items and how many were removed.\<close>

definition prune_orphan_tool_outputs :: "'x history_item list \<Rightarrow> 'x history_item list \<times> nat" where
  "prune_orphan_tool_outputs items =
     (let seen_calls = set (concat (map called_ids items));
          kept = filter (\<lambda>item. case answered_id item of Some c \<Rightarrow> c \<in> seen_calls | None \<Rightarrow> True) items
      in (kept, length items - length kept))"

section \<open>Recent exchanges\<close>

record compaction_snippet =
  snippet_role :: rstr
  snippet_text :: rstr

definition content_items_to_text :: "content_item list \<Rightarrow> rstr option" where
  "content_items_to_text content =
     (let pieces = List.map_filter
            (\<lambda>item. case item of InputText t \<Rightarrow> (if t \<noteq> [] then Some t else None)
               | OutputText t \<Rightarrow> (if t \<noteq> [] then Some t else None) | InputImage _ \<Rightarrow> None) content
      in if pieces = [] then None else Some (join [10] pieces))"

text \<open>\<open>InputMessageKind::from\<close> on a user message, as far as it is asked here.\<close>

definition is_session_prefix_message :: "rstr \<Rightarrow> bool" where
  "is_session_prefix_message t \<longleftrightarrow>
     str_contains t (lit ''<user_instructions>'') \<or>
     str_contains t (lit ''<environment_context>'') \<or> str_contains t (lit ''<environment_context_delta>'')"

text \<open>The text of an item that counts as an exchange.\<close>

fun exchange :: "'x history_item \<Rightarrow> compaction_snippet option" where
  "exchange (MessageItem _ role content _ _) =
     (if role \<noteq> lit ''user'' \<and> role \<noteq> lit ''assistant'' then None
      else case content_items_to_text content of
             None \<Rightarrow> None
           | Some t \<Rightarrow>
               if role = lit ''user'' \<and> is_session_prefix_message t then None
               else (let truncated = truncate_for_compact t COMPACT_TEXT_CONTENT_MAX_BYTES
                     in if trim truncated = [] then None
                        else Some \<lparr>snippet_role = role, snippet_text = truncated\<rparr>))"
| "exchange _ = None"

text \<open>The loop over the items, newest first; the snippets found so far are in front, oldest first.\<close>

fun collect_from :: "'x history_item list \<Rightarrow> nat \<Rightarrow> compaction_snippet list \<Rightarrow> compaction_snippet list" where
  "collect_from [] total_bytes snippets = snippets"
| "collect_from (item # items) total_bytes snippets =
     (case exchange item of
        None \<Rightarrow> collect_from items total_bytes snippets
      | Some snippet \<Rightarrow>
          if MAX_COMPACTION_SNIPPETS \<le> length snippets then snippets
          else (let snippet_len = byte_len (snippet_text snippet)
                in if snippets \<noteq> [] \<and> COMPACT_USER_MESSAGE_MAX_TOKENS * 4 < total_bytes + snippet_len then snippets
                   else collect_from items (total_bytes + snippet_len) (snippet # snippets)))"

definition collect_compaction_snippets :: "'x history_item list \<Rightarrow> compaction_snippet list" where
  "collect_compaction_snippets items = collect_from (rev items) 0 []"

section \<open>The new history\<close>

type_synonym bridge = "compaction_snippet list \<Rightarrow> rstr \<Rightarrow> rstr option"

definition render_compaction_summary :: "bridge \<Rightarrow> compaction_snippet list \<Rightarrow> rstr \<Rightarrow> rstr" where
  "render_compaction_summary render snippets summary_text =
     (let normalized_summary = (if trim summary_text = [] then lit ''(no summary available)'' else summary_text)
      in case render snippets normalized_summary of Some t \<Rightarrow> t | None \<Rightarrow> normalized_summary)"

definition make_compaction_summary_message :: "bridge \<Rightarrow> compaction_snippet list \<Rightarrow> rstr \<Rightarrow> 'x history_item" where
  "make_compaction_summary_message render snippets summary_text =
     user_message (render_compaction_summary render snippets summary_text)"

definition resolve_compact_prompt_text :: "rstr \<Rightarrow> rstr option \<Rightarrow> rstr" where
  "resolve_compact_prompt_text summarization_prompt override_prompt =
     (case override_prompt of
        Some t \<Rightarrow> if trim t \<noteq> [] then t else summarization_prompt
      | None \<Rightarrow> summarization_prompt)"

definition build_compacted_history ::
    "bridge \<Rightarrow> 'x history_item list \<Rightarrow> compaction_snippet list \<Rightarrow> rstr \<Rightarrow> 'x history_item list" where
  "build_compacted_history render initial_context snippets summary_text =
     initial_context @ [make_compaction_summary_message render snippets summary_text]"

definition build_emergency_compacted_history :: "'x history_item list \<Rightarrow> rstr \<Rightarrow> 'x history_item list" where
  "build_emergency_compacted_history initial_context warning_message =
     initial_context @ [user_message warning_message]"

text \<open>The last text of the last assistant message that has one, \<open>streaming.rs\<close>.\<close>

fun first_some :: "('a \<Rightarrow> 'b option) \<Rightarrow> 'a list \<Rightarrow> 'b option" where
  "first_some f [] = None"
| "first_some f (x # xs) = (case f x of Some y \<Rightarrow> Some y | None \<Rightarrow> first_some f xs)"

fun last_output_text :: "'x history_item \<Rightarrow> rstr option" where
  "last_output_text (MessageItem _ role content _ _) =
     (if role = lit ''assistant''
      then first_some (\<lambda>ci. case ci of OutputText t \<Rightarrow> Some t | _ \<Rightarrow> None) (rev content)
      else None)"
| "last_output_text _ = None"

definition get_last_assistant_message_from_turn :: "'x history_item list \<Rightarrow> rstr option" where
  "get_last_assistant_message_from_turn responses = first_some last_output_text (rev responses)"

section \<open>The input of a request\<close>

datatype input_item = TextInput rstr | ImageInput rstr | LocalImageInput rstr | EphemeralImageInput rstr "rstr option"

text \<open>\<open>read_image path\<close> is the data URL of a file that can be read.\<close>

fun input_content :: "(rstr \<Rightarrow> rstr option) \<Rightarrow> input_item \<Rightarrow> content_item list" where
  "input_content read_image (TextInput t) = [InputText t]"
| "input_content read_image (ImageInput url) = [InputImage url]"
| "input_content read_image (LocalImageInput path) =
     (case read_image path of Some url \<Rightarrow> [InputImage url] | None \<Rightarrow> [])"
| "input_content read_image (EphemeralImageInput path metadata) =
     (case metadata of Some meta \<Rightarrow> [InputText (lit ''[EPHEMERAL:'' @ meta @ lit '']'')] | None \<Rightarrow> []) @
     (case read_image path of Some url \<Rightarrow> [InputImage url] | None \<Rightarrow> [])"

definition response_input_from_core_items :: "(rstr \<Rightarrow> rstr option) \<Rightarrow> input_item list \<Rightarrow> 'x history_item" where
  "response_input_from_core_items read_image items =
     MessageItem None (lit ''user'') (concat (map (input_content read_image) items)) None None"

text \<open>User messages of the history lose the images that an ephemeral marker announces, with the marker.\<close>

fun drop_ephemeral :: "bool \<Rightarrow> content_item list \<Rightarrow> content_item list" where
  "drop_ephemeral skip_next_image [] = []"
| "drop_ephemeral skip_next_image (InputText t # rest) =
     (if starts_with t (lit ''[EPHEMERAL:'') then drop_ephemeral True rest
      else InputText t # drop_ephemeral skip_next_image rest)"
| "drop_ephemeral skip_next_image (InputImage url # rest) =
     (if skip_next_image then drop_ephemeral False rest
      else InputImage url # drop_ephemeral skip_next_image rest)"
| "drop_ephemeral skip_next_image (OutputText t # rest) = OutputText t # drop_ephemeral skip_next_image rest"

fun is_legacy_env_context :: "'x history_item \<Rightarrow> bool" where
  "is_legacy_env_context (MessageItem _ role content _ _) =
     (role = lit ''user'' \<and>
      (\<exists>c \<in> set content. case c of InputText t \<Rightarrow> str_contains t (lit ''<environment_context>'') | _ \<Rightarrow> False))"
| "is_legacy_env_context _ = False"

fun filter_history_item :: "'x history_item \<Rightarrow> 'x history_item" where
  "filter_history_item (MessageItem item_id role content _ _) =
     MessageItem item_id role (if role = lit ''user'' then drop_ephemeral False content else content) None None"
| "filter_history_item item = item"

fun strip_encrypted_reasoning :: "'x history_item \<Rightarrow> 'x history_item" where
  "strip_encrypted_reasoning (ReasoningItem item_id summary content _) = ReasoningItem item_id summary content None"
| "strip_encrypted_reasoning item = item"

text \<open>
  What a session contributes: the flags, the items assembled from the timeline, the test for snapshots
  and deltas of the environment, and whether the credentials are those of ChatGPT.
\<close>

record 'x turn_source =
  env_ctx_v2 :: bool
  ctx_ui :: bool
  timeline_items :: "'x history_item list option"
  is_env_item :: "'x history_item \<Rightarrow> bool"
  chatgpt_auth :: bool

definition turn_input_with_history ::
    "'x turn_source \<Rightarrow> 'x history_item list \<Rightarrow> 'x history_item list \<Rightarrow> 'x history_item list" where
  "turn_input_with_history src history extra =
     (let suppress = env_ctx_v2 src \<and> ctx_ui src;
          filtered_history = map filter_history_item (filter (\<lambda>item. \<not> (suppress \<and> is_legacy_env_context item)) history);
          filtered_extra = (if suppress then filter (\<lambda>item. \<not> is_env_item src item) extra else extra);
          result = (case timeline_items src of Some items \<Rightarrow> items | None \<Rightarrow> []) @ filtered_history @ filtered_extra
      in if chatgpt_auth src then result else map strip_encrypted_reasoning result)"

end
