(* ===== verification/Compaction.thy ===== *)
theory Compaction
  imports Compact_Items
begin

text \<open>
  Compacting the history of a session, \<open>code-rs/core/src/codex/compact.rs\<close> and \<open>compact_remote.rs\<close>: the
  loops that send the history to the model, with their retries and trims, and what they leave in the
  session, for the task of the user, for the compaction within a turn, and for the remote endpoint.

  What the model answers to the \<open>n\<close>-th request is a field of the environment, as are the texts of errors
  and delays and the initial context that \<open>build_initial_context\<close> assembles. Waiting takes no step of
  the model; locks are held for one access each.
\<close>

section \<open>Errors and replies\<close>

datatype 'x compact_err =
    StreamFailed rstr | BadStatus nat rstr | UsageLimit 'x | InterruptedErr | OtherFailure 'x

datatype 'x response_event = OutputItemDone "'x history_item" | ResponseCompleted | OtherResponse

datatype stream_end = StreamClosed | StreamStalled

type_synonym 'x stream_reply = "'x compact_err + ('x compact_err + 'x response_event) list \<times> stream_end"

definition looks_like_context_overflow :: "rstr \<Rightarrow> bool" where
  "looks_like_context_overflow message \<longleftrightarrow>
     (let lower = to_ascii_lowercase message
      in str_contains lower (lit ''context_length_exceeded'') \<or>
         str_contains lower (lit ''context length exceeded'') \<or>
         str_contains lower (lit ''context window'') \<and>
           (str_contains lower (lit ''exceed'') \<or> str_contains lower (lit ''exceeded'') \<or>
            str_contains lower (lit ''full'') \<or> str_contains lower (lit ''too long'')) \<or>
         str_contains lower (lit ''maximum context length'') \<or>
         str_contains lower (lit ''exceeds the context window''))"

fun is_context_overflow_error :: "'x compact_err \<Rightarrow> bool" where
  "is_context_overflow_error (BadStatus _ resp_body) = looks_like_context_overflow resp_body"
| "is_context_overflow_error (StreamFailed msg) = looks_like_context_overflow msg"
| "is_context_overflow_error _ = False"

section \<open>The session\<close>

datatype session_event =
    TaskStarted | TaskComplete | ErrorEvent rstr | AgentMessage rstr | CompactionCheckpointWarning rstr

record 'x compact_session =
  history :: "'x history_item list"
  current_task :: "rstr option"
  token_usage_info :: "'x option"
  sent_events :: "(rstr \<times> session_event) list"
  compacted_rollout :: "rstr list"

record 'x compact_env =
  item_json :: "'x output_content list \<Rightarrow> rstr"
  render_bridge :: bridge
  err_text :: "'x compact_err \<Rightarrow> rstr"
  limit_text :: "'x \<Rightarrow> rstr"
  delay_text :: "nat \<Rightarrow> rstr"
  initial_context :: "'x history_item list"
  turn_source :: "'x turn_source"
  read_image :: "rstr \<Rightarrow> rstr option"
  max_retries :: nat
  stream_reply :: "nat \<Rightarrow> 'x history_item list \<Rightarrow> 'x stream_reply"
  compact_reply :: "nat \<Rightarrow> 'x history_item list \<Rightarrow> 'x compact_err + 'x history_item list"

definition COMPACTION_CHECKPOINT_MESSAGE :: rstr where
  "COMPACTION_CHECKPOINT_MESSAGE = lit ''History checkpoint: earlier conversation compacted.''"

definition MAX_COMPACT_CONTEXT_OVERFLOW_TRIMS :: nat where "MAX_COMPACT_CONTEXT_OVERFLOW_TRIMS = 32"
definition MAX_COMPACT_USAGE_LIMIT_RETRIES :: nat where "MAX_COMPACT_USAGE_LIMIT_RETRIES = 2"
definition MAX_REMOTE_COMPACT_CONTEXT_OVERFLOW_TRIMS :: nat where "MAX_REMOTE_COMPACT_CONTEXT_OVERFLOW_TRIMS = 32"
definition MAX_REMOTE_COMPACT_USAGE_LIMIT_RETRIES :: nat where "MAX_REMOTE_COMPACT_USAGE_LIMIT_RETRIES = 2"

definition COMPACTION_EMERGENCY_MESSAGE :: rstr where
  "COMPACTION_EMERGENCY_MESSAGE =
     [9888, 65039] @ lit '' Compaction failed: The conversation history is too large to compact within the model'' @ [39] @
     lit ''s context limits. The history has been reset to prevent further errors. Please start a new session or '' @
     lit ''manually reduce context by clearing history.''"

definition send_event :: "rstr \<Rightarrow> session_event \<Rightarrow> 'x compact_session \<Rightarrow> 'x compact_session" where
  "send_event sub_id ev sess = sess\<lparr>sent_events := sent_events sess @ [(sub_id, ev)]\<rparr>"

definition replace_history :: "'x history_item list \<Rightarrow> 'x compact_session \<Rightarrow> 'x compact_session" where
  "replace_history items sess = sess\<lparr>history := items\<rparr>"

definition remove_task :: "rstr \<Rightarrow> 'x compact_session \<Rightarrow> 'x compact_session" where
  "remove_task sub_id sess = (if current_task sess = Some sub_id then sess\<lparr>current_task := None\<rparr> else sess)"

definition has_running_task :: "'x compact_session \<Rightarrow> bool" where
  "has_running_task sess \<longleftrightarrow> current_task sess \<noteq> None"

definition send_compaction_checkpoint_warning :: "rstr \<Rightarrow> 'x compact_session \<Rightarrow> 'x compact_session" where
  "send_compaction_checkpoint_warning sub_id = send_event sub_id (CompactionCheckpointWarning COMPACTION_CHECKPOINT_MESSAGE)"

definition persist_compacted :: "rstr \<Rightarrow> 'x compact_session \<Rightarrow> 'x compact_session" where
  "persist_compacted message sess = sess\<lparr>compacted_rollout := compacted_rollout sess @ [message]\<rparr>"

definition apply_emergency_compaction_fallback ::
    "'x compact_env \<Rightarrow> rstr \<Rightarrow> rstr \<Rightarrow> 'x compact_session \<Rightarrow> 'x history_item list \<times> 'x compact_session" where
  "apply_emergency_compaction_fallback env sub_id reason sess =
     (let message = (if trim reason = [] then COMPACTION_EMERGENCY_MESSAGE
                     else reason @ lit '' '' @ COMPACTION_EMERGENCY_MESSAGE);
          emergency_history = build_emergency_compacted_history (initial_context env) message;
          sess = replace_history emergency_history (send_event sub_id (ErrorEvent message) sess)
      in (emergency_history, sess\<lparr>token_usage_info := None\<rparr>))"

text \<open>Reading one reply: finished items go to the history as they come.\<close>

fun drain_events ::
    "('x compact_err + 'x response_event) list \<Rightarrow> stream_end \<Rightarrow> 'x compact_session \<Rightarrow>
     ('x compact_err + unit) \<times> 'x compact_session" where
  "drain_events [] StreamClosed sess = (Inl (StreamFailed (lit ''stream closed before response.completed'')), sess)"
| "drain_events [] StreamStalled sess = (Inl (StreamFailed (lit ''compaction stream timed out'')), sess)"
| "drain_events (Inr (OutputItemDone item) # evs) how sess =
     drain_events evs how (sess\<lparr>history := record_items [item] (history sess)\<rparr>)"
| "drain_events (Inr ResponseCompleted # evs) how sess = (Inr (), sess)"
| "drain_events (Inr OtherResponse # evs) how sess = drain_events evs how sess"
| "drain_events (Inl e # evs) how sess = (Inl e, sess)"

definition drain_to_completed ::
    "'x stream_reply \<Rightarrow> 'x compact_session \<Rightarrow> ('x compact_err + unit) \<times> 'x compact_session" where
  "drain_to_completed reply sess =
     (case reply of Inl e \<Rightarrow> (Inl e, sess) | Inr (evs, how) \<Rightarrow> drain_events evs how sess)"

section \<open>The rounds of a compaction\<close>

text \<open>\<open>requests\<close> are the inputs sent so far; \<open>ids_stripped\<close> is the flag of the remote compaction only.\<close>

record 'x compact_loop =
  turn_input :: "'x history_item list"
  retries :: nat
  truncated_count :: nat
  usage_limit_retries :: nat
  ids_stripped :: bool
  requests :: "'x history_item list list"
  session :: "'x compact_session"

datatype 'x compact_stop =
    Drained
  | Compacted "'x history_item list"
  | Stopped "'x compact_err"
  | Emergency rstr "'x compact_err"
  | GivenUp "'x compact_err"

type_synonym 'x round_end = "'x compact_loop \<times> 'x compact_stop option"

definition notify_stream_error :: "rstr \<Rightarrow> rstr \<Rightarrow> 'x compact_loop \<Rightarrow> 'x compact_loop" where
  "notify_stream_error sub_id message st = st\<lparr>session := send_event sub_id (ErrorEvent message) (session st)\<rparr>"

definition usage_limit_round :: "nat \<Rightarrow> 'x compact_env \<Rightarrow> rstr \<Rightarrow> rstr \<Rightarrow> 'x \<Rightarrow> 'x compact_loop \<Rightarrow> 'x round_end" where
  "usage_limit_round most env sub_id reason limit_err st =
     (if most \<le> usage_limit_retries st
      then (st, Some (Emergency reason (UsageLimit limit_err)))
      else (notify_stream_error sub_id (limit_text env limit_err @ lit '' Auto-retrying'' @ [8230])
              (st\<lparr>usage_limit_retries := usage_limit_retries st + 1, retries := 0\<rparr>), None))"

definition overflow_round :: "nat \<Rightarrow> (nat \<Rightarrow> rstr) \<Rightarrow> rstr \<Rightarrow> 'x compact_err \<Rightarrow> 'x compact_loop \<Rightarrow> 'x round_end" where
  "overflow_round most trimmed_reason minimal_reason e st =
     (if 1 < length (turn_input st) \<and> truncated_count st < most
      then (st\<lparr>turn_input := tl (turn_input st), truncated_count := truncated_count st + 1, retries := 0,
               usage_limit_retries := 0\<rparr>, None)
      else (st, Some (Emergency
              (if most \<le> truncated_count st
               then trimmed_reason (truncated_count st) else minimal_reason) e)))"

definition stream_retry_round ::
    "'x compact_env \<Rightarrow> rstr \<Rightarrow> rstr \<Rightarrow> 'x compact_stop \<Rightarrow> 'x compact_err \<Rightarrow> 'x compact_loop \<Rightarrow> 'x round_end" where
  "stream_retry_round env sub_id what at_limit e st =
     (if retries st < max_retries env
      then (let st = st\<lparr>retries := retries st + 1\<rparr>
            in (notify_stream_error sub_id
                  (what @ err_text env e @ lit ''; retrying '' @ show_nat (retries st) @ lit ''/'' @
                   show_nat (max_retries env) @ lit '' in '' @ delay_text env (length (requests st)) @ [8230]) st, None))
      else (st, Some at_limit))"

definition local_failure :: "'x compact_env \<Rightarrow> rstr \<Rightarrow> 'x compact_err \<Rightarrow> 'x compact_loop \<Rightarrow> 'x round_end" where
  "local_failure env sub_id e st =
     (case e of
        InterruptedErr \<Rightarrow> (st, Some (Stopped InterruptedErr))
      | UsageLimit limit_err \<Rightarrow>
          usage_limit_round MAX_COMPACT_USAGE_LIMIT_RETRIES env sub_id
            (lit ''Compaction hit persistent usage limits and cannot continue.'') limit_err st
      | _ \<Rightarrow>
          if is_context_overflow_error e
          then overflow_round MAX_COMPACT_CONTEXT_OVERFLOW_TRIMS
                 (\<lambda>n. lit ''Compaction trimmed '' @ show_nat n @ lit '' items but still exceeded the context window.'')
                 (lit ''Compaction failed: context overflow even with minimal input.'') e st
          else stream_retry_round env sub_id (lit ''stream error: '') (GivenUp e) e st)"

definition local_round :: "'x compact_env \<Rightarrow> rstr \<Rightarrow> 'x compact_loop \<Rightarrow> 'x round_end" where
  "local_round env sub_id st =
     (let (result, sess) = drain_to_completed (stream_reply env (length (requests st)) (turn_input st)) (session st);
          st = st\<lparr>requests := requests st @ [turn_input st], session := sess\<rparr>
      in case result of
           Inr _ \<Rightarrow> (st, Some Drained)
         | Inl e \<Rightarrow> local_failure env sub_id e st)"

definition pruned :: "'x compact_loop \<Rightarrow> 'x compact_loop" where
  "pruned st = st\<lparr>turn_input := fst (prune_orphan_tool_outputs (turn_input st))\<rparr>"

definition perform_round :: "'x compact_env \<Rightarrow> rstr \<Rightarrow> 'x compact_loop \<Rightarrow> 'x round_end" where
  "perform_round env sub_id st = local_round env sub_id (pruned st)"

text \<open>The remote endpoint may refer to items it no longer has; then the ids are dropped, once.\<close>

definition is_missing_compact_item_error :: "'x compact_err \<Rightarrow> bool" where
  "is_missing_compact_item_error e =
     (case e of
        BadStatus status resp_body \<Rightarrow>
          status = 404 \<and>
          (let lower = to_ascii_lowercase resp_body
           in str_contains lower (lit ''previous_response_not_found'') \<or>
              str_contains lower (lit ''item_not_found'') \<or>
              (str_contains lower (lit ''not found'') \<or> str_contains lower (lit ''missing'')) \<and>
                (str_contains lower (lit ''rs_'') \<or> str_contains lower (lit ''msg_'') \<or>
                 str_contains lower (lit ''fc_'') \<or> str_contains lower (lit ''item'')))
      | _ \<Rightarrow> False)"

fun item_id :: "'x history_item \<Rightarrow> rstr option" where
  "item_id (AdditionalToolsItem i _ _) = i"
| "item_id (ReasoningItem i _ _ _) = i"
| "item_id (MessageItem i _ _ _ _) = i"
| "item_id (WebSearchCallItem i _) = i"
| "item_id (FunctionCallItem i _ _ _ _) = i"
| "item_id (LocalShellCallItem i _ _) = i"
| "item_id (ToolSearchCallItem i _ _) = i"
| "item_id (CustomToolCallItem i _ _ _ _ _) = i"
| "item_id _ = None"

fun without_id :: "'x history_item \<Rightarrow> 'x history_item" where
  "without_id (AdditionalToolsItem i role tools) = AdditionalToolsItem None role tools"
| "without_id (ReasoningItem i summary content encrypted) = ReasoningItem None summary content encrypted"
| "without_id (MessageItem i role content end_turn phase) = MessageItem None role content end_turn phase"
| "without_id (WebSearchCallItem i x) = WebSearchCallItem None x"
| "without_id (FunctionCallItem i name namespace arguments call_id) = FunctionCallItem None name namespace arguments call_id"
| "without_id (LocalShellCallItem i call_id x) = LocalShellCallItem None call_id x"
| "without_id (ToolSearchCallItem i call_id x) = ToolSearchCallItem None call_id x"
| "without_id (CustomToolCallItem i status call_id name namespace input) =
     CustomToolCallItem None status call_id name namespace input"
| "without_id item = item"

definition strip_response_item_ids :: "'x history_item list \<Rightarrow> 'x history_item list \<times> nat" where
  "strip_response_item_ids items = (map without_id items, length (filter (\<lambda>item. item_id item \<noteq> None) items))"

definition prepare_missing_item_retry ::
    "'x compact_err \<Rightarrow> 'x history_item list \<Rightarrow> bool \<Rightarrow> ('x history_item list \<times> nat) option" where
  "prepare_missing_item_retry e items already_retried =
     (if already_retried \<or> \<not> is_missing_compact_item_error e then None
      else (let (items, stripped) = strip_response_item_ids items
            in if stripped > 0 then Some (items, stripped) else None))"

definition remote_failure :: "'x compact_env \<Rightarrow> rstr \<Rightarrow> 'x compact_err \<Rightarrow> 'x compact_loop \<Rightarrow> 'x round_end" where
  "remote_failure env sub_id e st =
     (if is_context_overflow_error e
      then overflow_round MAX_REMOTE_COMPACT_CONTEXT_OVERFLOW_TRIMS
             (\<lambda>n. lit ''Remote compact trimmed '' @ show_nat n @ lit '' items but still exceeded the context window.'')
             (lit ''Remote compact failed: context overflow even with minimal input.'') e st
      else case e of
             UsageLimit limit_err \<Rightarrow>
               usage_limit_round MAX_REMOTE_COMPACT_USAGE_LIMIT_RETRIES env sub_id
                 (lit ''Remote compact hit persistent usage limits and cannot continue.'') limit_err st
           | _ \<Rightarrow>
               (case prepare_missing_item_retry e (turn_input st) (ids_stripped st) of
                  Some (items, stripped) \<Rightarrow>
                    (notify_stream_error sub_id
                       (lit ''remote compact referenced missing response items; retrying with inline transcript'' @ [8230])
                       (st\<lparr>turn_input := items, ids_stripped := True, retries := 0, usage_limit_retries := 0\<rparr>), None)
                | None \<Rightarrow> stream_retry_round env sub_id (lit ''remote compact error: '') (GivenUp e) e st))"

definition remote_round :: "'x compact_env \<Rightarrow> rstr \<Rightarrow> 'x compact_loop \<Rightarrow> 'x round_end" where
  "remote_round env sub_id st =
     (let st = pruned st;
          result = compact_reply env (length (requests st)) (turn_input st);
          st = st\<lparr>requests := requests st @ [turn_input st]\<rparr>
      in case result of
           Inr items \<Rightarrow> (st, Some (Compacted items))
         | Inl e \<Rightarrow> remote_failure env sub_id e st)"

section \<open>The loop\<close>

datatype variant = Background | Inline | Remote

definition compact_round :: "variant \<Rightarrow> 'x compact_env \<Rightarrow> rstr \<Rightarrow> 'x compact_loop \<Rightarrow> 'x round_end" where
  "compact_round v =
     (case v of Background \<Rightarrow> perform_round | Inline \<Rightarrow> local_round | Remote \<Rightarrow> remote_round)"

text \<open>How many more rounds a loop can have: trims, then usage limits, then retries start over.\<close>

definition round_rank :: "nat \<Rightarrow> nat \<Rightarrow> nat \<Rightarrow> nat \<Rightarrow> nat" where
  "round_rank m trims limits tries = trims * (3 * (m + 1)) + limits * (m + 1) + tries"

definition rounds_left :: "variant \<Rightarrow> 'x compact_env \<Rightarrow> 'x compact_loop \<Rightarrow> nat" where
  "rounds_left v env st =
     round_rank (max_retries env) ((32 - truncated_count st) + (if v = Remote \<and> \<not> ids_stripped st then 1 else 0))
       (2 - usage_limit_retries st) (max_retries env - retries st)"

lemmas round_defs = local_round_def perform_round_def remote_round_def local_failure_def remote_failure_def
  usage_limit_round_def overflow_round_def stream_retry_round_def notify_stream_error_def

lemmas compact_limits [simp] = MAX_COMPACT_CONTEXT_OVERFLOW_TRIMS_def MAX_COMPACT_USAGE_LIMIT_RETRIES_def
  MAX_REMOTE_COMPACT_CONTEXT_OVERFLOW_TRIMS_def MAX_REMOTE_COMPACT_USAGE_LIMIT_RETRIES_def

lemma round_rank_bound: "limits \<le> 2 \<Longrightarrow> tries \<le> m \<Longrightarrow> round_rank m trims limits tries < Suc trims * (3 * (m + 1))"
proof -
  assume "limits \<le> 2" "tries \<le> m"
  then have "limits * (m + 1) \<le> 2 * (m + 1)"
    by (intro mult_right_mono) auto
  then show ?thesis
    using \<open>tries \<le> m\<close> by (simp add: round_rank_def)
qed

lemma round_rank_less:
  "trims' < trims \<Longrightarrow> limits' \<le> 2 \<Longrightarrow> tries' \<le> m \<Longrightarrow> round_rank m trims' limits' tries' < round_rank m trims limits tries"
  "limits' < limits \<Longrightarrow> tries' \<le> m \<Longrightarrow> round_rank m trims limits' tries' < round_rank m trims limits tries"
  "tries' < tries \<Longrightarrow> round_rank m trims limits tries' < round_rank m trims limits tries"
proof -
  assume less: "trims' < trims" "limits' \<le> 2" "tries' \<le> m"
  have "Suc trims' * (3 * (m + 1)) \<le> trims * (3 * (m + 1))"
    using less(1) by (intro mult_right_mono) auto
  then show "round_rank m trims' limits' tries' < round_rank m trims limits tries"
    using round_rank_bound [OF less(2,3), of trims'] by (simp add: round_rank_def)
next
  assume less: "limits' < limits" "tries' \<le> m"
  have "Suc limits' * (m + 1) \<le> limits * (m + 1)"
    using less(1) by (intro mult_right_mono) auto
  then show "round_rank m trims limits' tries' < round_rank m trims limits tries"
    using less(2) by (simp add: round_rank_def)
qed (simp add: round_rank_def)

lemma pruned_fields [simp]:
  "retries (pruned st) = retries st" "truncated_count (pruned st) = truncated_count st"
  "usage_limit_retries (pruned st) = usage_limit_retries st" "ids_stripped (pruned st) = ids_stripped st"
  "requests (pruned st) = requests st" "session (pruned st) = session st"
  "rounds_left v env (pruned st) = rounds_left v env st"
  by (simp_all add: pruned_def rounds_left_def)

lemma rounds_left_recorded [simp]:
  "rounds_left v env (st\<lparr>requests := rs, session := sess\<rparr>) = rounds_left v env st"
  "rounds_left v env (st\<lparr>requests := rs\<rparr>) = rounds_left v env st"
  by (simp_all add: rounds_left_def)

lemma usage_limit_round_ranks:
  "usage_limit_round 2 env sub_id reason l st = (st', None) \<Longrightarrow> rounds_left v env st' < rounds_left v env st"
  by (auto simp: usage_limit_round_def notify_stream_error_def rounds_left_def 
      intro!: round_rank_less(2) split: if_splits)

lemma overflow_round_ranks:
  "overflow_round 32 f t e st = (st', None) \<Longrightarrow> rounds_left v env st' < rounds_left v env st"
  by (auto simp: overflow_round_def rounds_left_def intro!: round_rank_less(1) split: if_splits)

lemma stream_retry_round_ranks:
  "stream_retry_round env sub_id what stop e st = (st', None) \<Longrightarrow> rounds_left v env st' < rounds_left v env st"
  by (auto simp: stream_retry_round_def notify_stream_error_def rounds_left_def Let_def
      intro!: round_rank_less(3) split: if_splits)

lemmas failure_round_ranks = usage_limit_round_ranks overflow_round_ranks stream_retry_round_ranks

lemma local_failure_ranks: "local_failure env sub_id e st = (st', None) \<Longrightarrow> rounds_left v env st' < rounds_left v env st"
  by (cases e)
    (auto simp: local_failure_def intro: failure_round_ranks split: if_splits)

lemma missing_item_retry_ranks:
  assumes "prepare_missing_item_retry e items (ids_stripped st) = Some r"
  shows "rounds_left Remote env (notify_stream_error sub_id t
      (st\<lparr>turn_input := items', ids_stripped := True, retries := 0, usage_limit_retries := 0\<rparr>)) < rounds_left Remote env st"
  using assms
  by (auto simp: prepare_missing_item_retry_def notify_stream_error_def rounds_left_def
      intro!: round_rank_less(1) split: if_splits)

lemma remote_failure_ranks:
  "remote_failure env sub_id e st = (st', None) \<Longrightarrow> rounds_left Remote env st' < rounds_left Remote env st"
  by (cases e)
    (auto simp: remote_failure_def intro: failure_round_ranks missing_item_retry_ranks split: if_splits option.splits)

lemma compact_round_ranks:
  assumes "compact_round v env sub_id st = (st', None)"
  shows "rounds_left v env st' < rounds_left v env st"
proof (cases v)
  case Remote
  then show ?thesis
    using assms by (auto simp: compact_round_def remote_round_def Let_def dest!: remote_failure_ranks split: sum.splits)
qed (use assms in \<open>auto simp: compact_round_def perform_round_def local_round_def Let_def
      dest!: local_failure_ranks split: sum.splits prod.splits\<close>)

function compact_rounds :: "variant \<Rightarrow> 'x compact_env \<Rightarrow> rstr \<Rightarrow> 'x compact_loop \<Rightarrow> 'x compact_loop \<times> 'x compact_stop" where
  "compact_rounds v env sub_id st =
     (case compact_round v env sub_id st of
        (st', None) \<Rightarrow> compact_rounds v env sub_id st'
      | (st', Some stop) \<Rightarrow> (st', stop))"
  by pat_completeness auto
termination
  by (relation "measure (\<lambda>(v, env, sub_id, st). rounds_left v env st)") (auto intro: compact_round_ranks)

declare compact_rounds.simps [simp del]

definition start_loop :: "'x compact_env \<Rightarrow> input_item list \<Rightarrow> 'x compact_session \<Rightarrow> 'x compact_loop" where
  "start_loop env input sess =
     \<lparr>turn_input = sanitize_items_for_compact (item_json env)
        (turn_input_with_history (turn_source env) (history sess)
           [response_input_from_core_items (read_image env) input]),
      retries = 0, truncated_count = 0, usage_limit_retries = 0, ids_stripped = False, requests = [], session = sess\<rparr>"

section \<open>Compaction in the background, within a turn, and at the remote endpoint\<close>

text \<open>Each operation returns its result, the session and the requests it made.\<close>

type_synonym ('x, 'r) compacting = "'r \<times> 'x compact_session \<times> 'x history_item list list"

definition display_message :: "rstr \<Rightarrow> rstr" where
  "display_message summary_text = (if trim summary_text = [] then lit ''Compact task completed.'' else summary_text)"

definition announce_compacted :: "rstr \<Rightarrow> rstr \<Rightarrow> rstr \<Rightarrow> 'x compact_session \<Rightarrow> 'x compact_session" where
  "announce_compacted sub_id rollout_message message sess =
     send_event sub_id (AgentMessage message)
       (persist_compacted rollout_message (send_compaction_checkpoint_warning sub_id sess))"

definition summary_of :: "'x history_item list \<Rightarrow> rstr" where
  "summary_of history_snapshot =
     (case get_last_assistant_message_from_turn history_snapshot of Some t \<Rightarrow> t | None \<Rightarrow> [])"

definition compacted_history :: "'x compact_env \<Rightarrow> 'x history_item list \<Rightarrow> 'x history_item list" where
  "compacted_history env history_snapshot =
     build_compacted_history (render_bridge env) (initial_context env)
       (collect_compaction_snippets history_snapshot) (summary_of history_snapshot)"

definition perform_compaction ::
    "'x compact_env \<Rightarrow> rstr \<Rightarrow> input_item list \<Rightarrow> bool \<Rightarrow> 'x compact_session \<Rightarrow> ('x, 'x compact_err + unit) compacting" where
  "perform_compaction env sub_id input remove_task_on_completion sess =
     (let (st, stop) = compact_rounds Background env sub_id (start_loop env input sess);
          sess = session st
      in case stop of
           Stopped e \<Rightarrow> (Inl e, sess, requests st)
         | Emergency reason e \<Rightarrow> (Inl e, snd (apply_emergency_compaction_fallback env sub_id reason sess), requests st)
         | GivenUp e \<Rightarrow> (Inl e, send_event sub_id (ErrorEvent (err_text env e)) sess, requests st)
         | _ \<Rightarrow>
             (let sess = (if remove_task_on_completion then remove_task sub_id sess else sess);
                  summary_text = summary_of (history sess);
                  sess = replace_history (compacted_history env (history sess)) sess
              in (Inr (), announce_compacted sub_id summary_text (display_message summary_text) sess, requests st)))"

definition run_compact_task_inner_inline ::
    "'x compact_env \<Rightarrow> rstr \<Rightarrow> input_item list \<Rightarrow> 'x compact_session \<Rightarrow> ('x, 'x history_item list) compacting" where
  "run_compact_task_inner_inline env sub_id input sess =
     (let (st, stop) = compact_rounds Inline env sub_id (start_loop env input sess);
          sess = session st
      in case stop of
           Stopped e \<Rightarrow> ([], sess, requests st)
         | Emergency reason e \<Rightarrow>
             (let (items, sess) = apply_emergency_compaction_fallback env sub_id reason sess in (items, sess, requests st))
         | GivenUp e \<Rightarrow> ([], send_event sub_id (ErrorEvent (err_text env e)) sess, requests st)
         | _ \<Rightarrow>
             (let summary_text = summary_of (history sess);
                  new_history = compacted_history env (history sess);
                  sess = sess\<lparr>history := record_items new_history [], token_usage_info := None\<rparr>
              in (new_history, announce_compacted sub_id summary_text (display_message summary_text) sess, requests st)))"

definition run_inline_auto_compact_task ::
    "'x compact_env \<Rightarrow> rstr \<Rightarrow> rstr \<Rightarrow> rstr option \<Rightarrow> 'x compact_session \<Rightarrow> ('x, 'x history_item list) compacting" where
  "run_inline_auto_compact_task env sub_id summarization_prompt compact_prompt_override sess =
     run_compact_task_inner_inline env sub_id
       [TextInput (resolve_compact_prompt_text summarization_prompt compact_prompt_override)] sess"

definition start_remote_loop :: "'x compact_env \<Rightarrow> input_item list \<Rightarrow> 'x compact_session \<Rightarrow> 'x compact_loop" where
  "start_remote_loop env extra_input sess = (start_loop env extra_input sess)
     \<lparr>turn_input := sanitize_items_for_compact (item_json env)
        (turn_input_with_history (turn_source env) (history sess)
           (if extra_input = [] then [] else [response_input_from_core_items (read_image env) extra_input]))\<rparr>"

definition run_remote_compact_task_inner ::
    "'x compact_env \<Rightarrow> rstr \<Rightarrow> input_item list \<Rightarrow> 'x compact_session \<Rightarrow>
     ('x, 'x compact_err + 'x history_item list) compacting" where
  "run_remote_compact_task_inner env sub_id extra_input sess =
     (let (st, stop) = compact_rounds Remote env sub_id (start_remote_loop env extra_input sess);
          sess = session st
      in case stop of
           Compacted new_history \<Rightarrow>
             (Inr new_history,
              announce_compacted sub_id (lit ''Conversation history compacted.'') (lit ''Compact task completed'')
                ((replace_history new_history sess)\<lparr>token_usage_info := None\<rparr>), requests st)
         | Emergency reason e \<Rightarrow>
             (let (items, sess) = apply_emergency_compaction_fallback env sub_id reason sess in (Inr items, sess, requests st))
         | GivenUp e \<Rightarrow> (Inl e, sess, requests st)
         | Stopped e \<Rightarrow> (Inl e, sess, requests st)
         | Drained \<Rightarrow> (Inr [], sess, requests st))"

text \<open>The last two cases do not occur: the rounds of the remote loop have no such end.\<close>

lemma remote_rounds_end:
  "remote_round env sub_id st = (st', Some stop) \<Longrightarrow> stop \<noteq> Drained \<and> (\<forall>e. stop \<noteq> Stopped e)"
  by (auto simp: round_defs Let_def split: sum.splits if_splits compact_err.splits option.splits)

definition run_remote_compact_task ::
    "'x compact_env \<Rightarrow> rstr \<Rightarrow> input_item list \<Rightarrow> 'x compact_session \<Rightarrow> ('x, 'x compact_err + unit) compacting" where
  "run_remote_compact_task env sub_id extra_input sess =
     (case run_remote_compact_task_inner env sub_id extra_input sess of
        (Inr _, sess, rs) \<Rightarrow> (Inr (), remove_task sub_id sess, rs)
      | (Inl e, sess, rs) \<Rightarrow> (Inl e, send_event sub_id (ErrorEvent (err_text env e)) sess, rs))"

definition run_inline_remote_auto_compact_task ::
    "'x compact_env \<Rightarrow> rstr \<Rightarrow> input_item list \<Rightarrow> 'x compact_session \<Rightarrow> ('x, 'x history_item list) compacting" where
  "run_inline_remote_auto_compact_task env sub_id extra_input sess =
     (case run_remote_compact_task_inner env sub_id extra_input sess of
        (Inr items, sess, rs) \<Rightarrow> (items, sess, rs)
      | (Inl e, sess, rs) \<Rightarrow>
          ([], send_event sub_id (ErrorEvent (lit ''remote compact failed: '' @ err_text env e)) sess, rs))"

text \<open>The task of the user; \<open>chatgpt_auth\<close> decides, as \<open>should_use_remote_compact_task\<close> reads it.\<close>

definition run_compact_task ::
    "'x compact_env \<Rightarrow> rstr \<Rightarrow> input_item list \<Rightarrow> 'x compact_session \<Rightarrow> ('x, 'x compact_err + unit) compacting" where
  "run_compact_task env sub_id input sess =
     (let sess = send_event sub_id TaskStarted sess;
          (compaction_result, sess, rs) =
            (if chatgpt_auth (turn_source env) then run_remote_compact_task env sub_id input sess
             else perform_compaction env sub_id input True sess)
      in (compaction_result, send_event sub_id TaskComplete sess, rs))"

end
