(* ===== verification/Compaction_Props.thy ===== *)
theory Compaction_Props
  imports Compaction
begin

text \<open>
  What holds of compaction: how many requests it makes, what they contain, and what it leaves in the
  session.
\<close>

section \<open>Rounds\<close>

lemma compact_rounds_step:
  "compact_round v env sub_id st = (st', None) \<Longrightarrow> compact_rounds v env sub_id st = compact_rounds v env sub_id st'"
  "compact_round v env sub_id st = (st', Some stop) \<Longrightarrow> compact_rounds v env sub_id st = (st', stop)"
  by (simp_all add: compact_rounds.simps [of v env sub_id st])

text \<open>Induction over the rounds of one loop: the last round, and a round that another follows.\<close>

lemma compact_rounds_rule [case_names last continued]:
  assumes "\<And>st st' stop. compact_round v env sub_id st = (st', Some stop) \<Longrightarrow> Q st (st', stop)"
    and "\<And>st st'. compact_round v env sub_id st = (st', None) \<Longrightarrow> Q st' (compact_rounds v env sub_id st') \<Longrightarrow>
      Q st (compact_rounds v env sub_id st')"
  shows "Q st (compact_rounds v env sub_id st)"
proof (induction st rule: measure_induct_rule [where f = "rounds_left v env"])
  case (less st)
  obtain st' stop where round: "compact_round v env sub_id st = (st', stop)"
    by (cases "compact_round v env sub_id st")
  show ?case
  proof (cases stop)
    case None
    then show ?thesis
      using round less [of st'] assms(2) compact_round_ranks compact_rounds_step(1) by metis
  next
    case (Some s)
    then show ?thesis
      using round assms(1) compact_rounds_step(2) by metis
  qed
qed

lemma compact_rounds_invariant:
  assumes "P st" and "\<And>st st' stop. P st \<Longrightarrow> compact_round v env sub_id st = (st', stop) \<Longrightarrow> P st'"
  shows "P (fst (compact_rounds v env sub_id st))"
proof -
  have "P st \<longrightarrow> P (fst (compact_rounds v env sub_id st))"
  proof (rule compact_rounds_rule [where Q = "\<lambda>st r. P st \<longrightarrow> P (fst r)"])
  qed (auto intro: assms(2))
  then show ?thesis
    using assms(1) by blast
qed

lemma drain_events_appends:
  "\<exists>new_items. snd (drain_events evs how sess) = sess\<lparr>history := history sess @ new_items\<rparr>"
proof (induction evs how sess rule: drain_events.induct)
  case (3 item evs how sess)
  then show ?case
    by (auto simp: record_items_def)
qed (auto intro: exI [of _ "[]"])

lemma drain_appends:
  "\<exists>new_items. snd (drain_to_completed reply sess) = sess\<lparr>history := history sess @ new_items\<rparr>"
proof (cases reply)
  case (Inr r)
  then show ?thesis
    using drain_events_appends [of "fst r" "snd r" sess] by (simp add: drain_to_completed_def split_beta)
qed (auto simp: drain_to_completed_def intro: exI [of _ "[]"])

text \<open>What a failed round may change.\<close>

lemma failure_requests:
  "local_failure env sub_id e st = (st', stop) \<Longrightarrow> requests st' = requests st"
  "remote_failure env sub_id e st = (st', stop) \<Longrightarrow> requests st' = requests st"
  by (auto simp: round_defs Let_def split: compact_err.splits if_splits option.splits)

lemma compact_round_requests:
  "compact_round v env sub_id st = (st', stop) \<Longrightarrow>
    requests st' = requests st @ [turn_input (if v = Inline then st else pruned st)]"
  by (cases v)
    (auto simp: compact_round_def perform_round_def local_round_def remote_round_def Let_def
      dest: failure_requests split: sum.splits prod.splits)

lemma compact_rounds_count:
  "length (requests (fst (compact_rounds v env sub_id st))) \<le> length (requests st) + rounds_left v env st + 1"
proof (rule compact_rounds_rule [where Q = "\<lambda>st r. length (requests (fst r)) \<le> length (requests st) + rounds_left v env st + 1"])
  fix st st' stop
  assume "compact_round v env sub_id st = (st', Some stop)"
  from compact_round_requests [OF this]
  show "length (requests (fst (st', stop))) \<le> length (requests st) + rounds_left v env st + 1"
    by simp
next
  fix st st'
  assume round: "compact_round v env sub_id st = (st', None)"
    and "length (requests (fst (compact_rounds v env sub_id st'))) \<le> length (requests st') + rounds_left v env st' + 1"
  then show "length (requests (fst (compact_rounds v env sub_id st'))) \<le> length (requests st) + rounds_left v env st + 1"
    using compact_round_requests [OF round] compact_round_ranks [OF round] by simp
qed

lemma requests_of_operations:
  "snd (snd (perform_compaction env sub_id input rm sess)) =
     requests (fst (compact_rounds Background env sub_id (start_loop env input sess)))"
  "snd (snd (run_compact_task_inner_inline env sub_id input sess)) =
     requests (fst (compact_rounds Inline env sub_id (start_loop env input sess)))"
  "snd (snd (run_remote_compact_task_inner env sub_id input sess)) =
     requests (fst (compact_rounds Remote env sub_id (start_remote_loop env input sess)))"
  by (auto simp: perform_compaction_def run_compact_task_inner_inline_def run_remote_compact_task_inner_def Let_def
      split: prod.splits compact_stop.splits)

lemma rounds_left_start:
  "v \<noteq> Remote \<Longrightarrow> rounds_left v env (start_loop env input sess) + 1 = 99 * (max_retries env + 1)"
  "rounds_left Remote env (start_remote_loop env input sess) + 1 = 102 * (max_retries env + 1)"
  "requests (start_loop env input sess) = []" "requests (start_remote_loop env input sess) = []"
  by (auto simp: rounds_left_def start_loop_def start_remote_loop_def round_rank_def)

text \<open>
  (C17) A compaction ends after a bounded number of requests, whatever the model answers: with a limit of
  \<open>n\<close> retries at most \<open>99 (n + 1)\<close> requests are sent, in the background as within a turn, and at most
  \<open>102 (n + 1)\<close> to the remote endpoint, which may start over once without the ids.
\<close>

theorem compaction_requests_bounded:
  "length (snd (snd (perform_compaction env sub_id input rm sess))) \<le> 99 * (max_retries env + 1) \<and>
   length (snd (snd (run_compact_task_inner_inline env sub_id input sess))) \<le> 99 * (max_retries env + 1) \<and>
   length (snd (snd (run_remote_compact_task_inner env sub_id input sess))) \<le> 102 * (max_retries env + 1)"
  unfolding requests_of_operations
  using compact_rounds_count [of Background env sub_id "start_loop env input sess"]
    compact_rounds_count [of Inline env sub_id "start_loop env input sess"]
    compact_rounds_count [of Remote env sub_id "start_remote_loop env input sess"]
    rounds_left_start(1) [of Background env input sess] rounds_left_start(1) [of Inline env input sess]
    rounds_left_start(2-4) [of env input sess]
  by simp

section \<open>What is sent\<close>

text \<open>Every tool output among the items answers a call among them.\<close>

definition answered_calls :: "'x history_item list \<Rightarrow> bool" where
  "answered_calls items \<longleftrightarrow>
     list_all (\<lambda>item. case answered_id item of Some c \<Rightarrow> c \<in> set (concat (map called_ids items)) | None \<Rightarrow> True) items"

lemma calls_are_no_outputs: "c \<in> set (called_ids item) \<Longrightarrow> answered_id item = None"
  by (cases item rule: called_ids.cases) auto

lemma pruned_answers: "answered_calls (fst (prune_orphan_tool_outputs items))"
proof -
  have "set (concat (map called_ids (fst (prune_orphan_tool_outputs items)))) = set (concat (map called_ids items))"
    by (auto simp: prune_orphan_tool_outputs_def Let_def split: option.split)
      (metis calls_are_no_outputs option.distinct(1))
  then show ?thesis
    by (auto simp: answered_calls_def list_all_iff prune_orphan_tool_outputs_def Let_def split: option.splits)
qed

text \<open>
  (C16) No request of a compaction in the background or at the remote endpoint holds a tool output without
  its call, however many of the oldest items were trimmed before.
\<close>

theorem compaction_prompts_answered:
  "list_all answered_calls (snd (snd (perform_compaction env sub_id input rm sess))) \<and>
   list_all answered_calls (snd (snd (run_remote_compact_task_inner env sub_id input sess)))"
proof -
  have "list_all answered_calls (requests (fst (compact_rounds v env sub_id st)))"
    if "v \<noteq> Inline" "requests st = []" for v st
  proof (rule compact_rounds_invariant)
    show "list_all answered_calls (requests st)"
      by (simp add: that)
  next
    fix st st' stop
    assume "list_all answered_calls (requests st)" "compact_round v env sub_id st = (st', stop)"
    then show "list_all answered_calls (requests st')"
      using compact_round_requests that(1) pruned_answers by (fastforce simp: pruned_def)
  qed
  then show ?thesis
    unfolding requests_of_operations by (simp add: rounds_left_start)
qed

section \<open>What is left in the session\<close>

text \<open>While the rounds run, items may be added to the history and events are sent; nothing else changes.\<close>

definition grown_from :: "'x compact_session \<Rightarrow> 'x compact_session \<Rightarrow> bool" where
  "grown_from sess sess' \<longleftrightarrow>
     (\<exists>new_items evs. sess' = sess\<lparr>history := history sess @ new_items, sent_events := sent_events sess @ evs\<rparr>)"

lemma grown_refl: "grown_from sess sess"
  unfolding grown_from_def by (intro exI [of _ "[]"]) simp

lemma grown_trans: "grown_from s t \<Longrightarrow> grown_from t u \<Longrightarrow> grown_from s u"
  unfolding grown_from_def by fastforce

lemma grown_send: "grown_from sess (send_event sub_id ev sess)"
  unfolding grown_from_def send_event_def by (intro exI [of _ "[]"] exI [of _ "[(sub_id, ev)]"]) simp

lemma grown_drain: "grown_from sess (snd (drain_to_completed reply sess))"
  using drain_appends [of reply sess] unfolding grown_from_def by (metis append_Nil2 compact_session.surjective compact_session.update_convs(1) compact_session.update_convs(4))

lemma failure_grows:
  "local_failure env sub_id e st = (st', stop) \<Longrightarrow> grown_from (session st) (session st')"
  "remote_failure env sub_id e st = (st', stop) \<Longrightarrow> grown_from (session st) (session st')"
  by (auto simp: round_defs Let_def grown_refl grown_send split: compact_err.splits if_splits option.splits)

lemma local_round_grows: "local_round env sub_id st = (st', stop) \<Longrightarrow> grown_from (session st) (session st')"
proof -
  assume round: "local_round env sub_id st = (st', stop)"
  obtain result sess where drained:
    "drain_to_completed (stream_reply env (length (requests st)) (turn_input st)) (session st) = (result, sess)"
    by (cases "drain_to_completed (stream_reply env (length (requests st)) (turn_input st)) (session st)")
  then have "grown_from (session st) sess"
    using grown_drain [of "session st" "stream_reply env (length (requests st)) (turn_input st)"] by simp
  moreover have "grown_from sess (session st')"
    using round drained by (auto simp: local_round_def Let_def grown_refl dest: failure_grows split: sum.splits)
  ultimately show ?thesis
    by (rule grown_trans)
qed

lemma compact_round_grows:
  "compact_round v env sub_id st = (st', stop) \<Longrightarrow> grown_from (session st) (session st')"
proof (cases v)
  case Remote
  assume "compact_round v env sub_id st = (st', stop)"
  then show ?thesis
    by (auto simp: Remote compact_round_def remote_round_def Let_def grown_refl dest: failure_grows split: sum.splits)
qed (use local_round_grows [of env sub_id "pruned st" st' stop] local_round_grows [of env sub_id st st' stop] in
    \<open>simp_all add: compact_round_def perform_round_def\<close>)

lemma compact_rounds_grow:
  assumes "compact_rounds v env sub_id st = (st', stop)"
  shows "grown_from (session st) (session st')"
  using compact_rounds_invariant [of "\<lambda>s. grown_from (session st) (session s)" st v env sub_id]
    grown_refl compact_round_grows grown_trans assms by (metis fst_conv)

lemma grown_fields:
  assumes "grown_from sess sess'"
  shows "current_task sess' = current_task sess" "token_usage_info sess' = token_usage_info sess"
    "compacted_rollout sess' = compacted_rollout sess" "\<exists>new_items. history sess' = history sess @ new_items"
  using assms by (auto simp: grown_from_def)

lemmas session_steps = send_event_def replace_history_def remove_task_def persist_compacted_def
  send_compaction_checkpoint_warning_def announce_compacted_def apply_emergency_compaction_fallback_def Let_def

lemma start_sessions [simp]:
  "session (start_loop env input sess) = sess" "session (start_remote_loop env input sess) = sess"
  by (simp_all add: start_loop_def start_remote_loop_def)

lemma send_event_fields [simp]:
  "current_task (send_event sub_id ev sess) = current_task sess"
  "sent_events (send_event sub_id ev sess) = sent_events sess @ [(sub_id, ev)]"
  by (simp_all add: send_event_def)

lemma perform_task:
  "current_task (fst (snd (perform_compaction env sub_id input True sess))) =
    (case fst (perform_compaction env sub_id input True sess) of
       Inl _ \<Rightarrow> current_task sess | Inr _ \<Rightarrow> if current_task sess = Some sub_id then None else current_task sess)"
proof -
  obtain st stop where rounds: "compact_rounds Background env sub_id (start_loop env input sess) = (st, stop)"
    by (cases "compact_rounds Background env sub_id (start_loop env input sess)")
  then show ?thesis
    using grown_fields(1) [OF compact_rounds_grow [OF rounds]]
    by (auto simp: perform_compaction_def session_steps split: compact_stop.split)
qed

lemma remote_inner_task:
  "current_task (fst (snd (run_remote_compact_task_inner env sub_id input sess))) = current_task sess"
proof -
  obtain st stop where rounds: "compact_rounds Remote env sub_id (start_remote_loop env input sess) = (st, stop)"
    by (cases "compact_rounds Remote env sub_id (start_remote_loop env input sess)")
  then show ?thesis
    using grown_fields(1) [OF compact_rounds_grow [OF rounds]]
    by (auto simp: run_remote_compact_task_inner_def session_steps split: compact_stop.split)
qed

lemma remote_task:
  "current_task (fst (snd (run_remote_compact_task env sub_id input sess))) =
    (case fst (run_remote_compact_task env sub_id input sess) of
       Inl _ \<Rightarrow> current_task sess | Inr _ \<Rightarrow> if current_task sess = Some sub_id then None else current_task sess)"
proof -
  obtain result sess' rs where "run_remote_compact_task_inner env sub_id input sess = (result, sess', rs)"
    by (cases "run_remote_compact_task_inner env sub_id input sess")
  then show ?thesis
    using remote_inner_task [of env sub_id input sess]
    by (auto simp: run_remote_compact_task_def session_steps split: sum.split)
qed

text \<open>
  (C15) The task slot of the session is released exactly when the compaction the user asked for succeeded:
  after a failure the finished task is still the current one, although its end was announced.
\<close>

theorem failed_compaction_keeps_task:
  "current_task (fst (snd (run_compact_task env sub_id input sess))) =
    (case fst (run_compact_task env sub_id input sess) of
       Inl _ \<Rightarrow> current_task sess
     | Inr _ \<Rightarrow> if current_task sess = Some sub_id then None else current_task sess) \<and>
   last (sent_events (fst (snd (run_compact_task env sub_id input sess)))) = (sub_id, TaskComplete)"
  using perform_task [of env sub_id input "send_event sub_id TaskStarted sess"]
    remote_task [of env sub_id input "send_event sub_id TaskStarted sess"]
  by (auto simp: run_compact_task_def Let_def split_beta split: sum.split)

text \<open>
  (C19) A compaction in the background leaves one of three histories: after a success the initial context
  and the summary of the old history with what the model added; after an emergency the initial context and
  the warning, with the token usage forgotten; after any other failure the old history with what the model
  added. The token usage of the old history is kept after a success.
\<close>

theorem compaction_outcome:
  "\<exists>new_items.
    (case perform_compaction env sub_id input rm sess of
       (Inr _, sess', _) \<Rightarrow>
         history sess' = compacted_history env (history sess @ new_items) \<and>
         token_usage_info sess' = token_usage_info sess \<and>
         compacted_rollout sess' = compacted_rollout sess @ [summary_of (history sess @ new_items)]
     | (Inl _, sess', _) \<Rightarrow>
         compacted_rollout sess' = compacted_rollout sess \<and>
         (history sess' = history sess @ new_items \<and> token_usage_info sess' = token_usage_info sess \<or>
          (\<exists>warning. history sess' = initial_context env @ [user_message warning]) \<and> token_usage_info sess' = None))"
proof -
  obtain st stop where rounds: "compact_rounds Background env sub_id (start_loop env input sess) = (st, stop)"
    by (cases "compact_rounds Background env sub_id (start_loop env input sess)")
  note grown = grown_fields [OF compact_rounds_grow [OF rounds], unfolded start_sessions]
  obtain new_items where "history (session st) = history sess @ new_items"
    using grown(4) by blast
  then show ?thesis
    using rounds grown(1-3)
    by (intro exI [of _ new_items])
      (auto simp: perform_compaction_def session_steps build_emergency_compacted_history_def split: compact_stop.split)
qed

section \<open>Recent exchanges\<close>

definition snippet_bytes :: "compaction_snippet list \<Rightarrow> nat" where
  "snippet_bytes snippets = sum_list (map (\<lambda>s. byte_len (snippet_text s)) snippets)"

lemma snippet_bytes_simps [simp]:
  "snippet_bytes [] = 0" "snippet_bytes (s # ss) = byte_len (snippet_text s) + snippet_bytes ss"
  "snippet_bytes (ss @ ts) = snippet_bytes ss + snippet_bytes ts"
  by (simp_all add: snippet_bytes_def)

definition exchanges :: "'x history_item list \<Rightarrow> compaction_snippet list" where
  "exchanges items = List.map_filter exchange items"

text \<open>Whether the snippets may be extended by one more, older exchange.\<close>

definition snippets_full :: "compaction_snippet list \<Rightarrow> compaction_snippet \<Rightarrow> bool" where
  "snippets_full snippets older \<longleftrightarrow>
     12 \<le> length snippets \<or> snippets \<noteq> [] \<and> 80000 < snippet_bytes snippets + byte_len (snippet_text older)"

lemma collect_from_spec:
  "\<exists>k \<le> length (exchanges items).
    collect_from items (snippet_bytes snippets) snippets = rev (take k (exchanges items)) @ snippets \<and>
    (k < length (exchanges items) \<longrightarrow> snippets_full (rev (take k (exchanges items)) @ snippets) (exchanges items ! k)) \<and>
    (\<forall>j < k. \<not> snippets_full (rev (take j (exchanges items)) @ snippets) (exchanges items ! j))"
proof (induction items arbitrary: snippets)
  case Nil
  then show ?case
    by (simp add: exchanges_def map_filter_simps)
next
  case (Cons item items)
  show ?case
  proof (cases "exchange item")
    case None
    then show ?thesis
      using Cons [of snippets] by (simp add: exchanges_def map_filter_simps)
  next
    case (Some snippet)
    then have ex: "exchanges (item # items) = snippet # exchanges items"
      by (simp add: exchanges_def map_filter_simps)
    have full: "snippets_full snippets snippet \<longleftrightarrow> MAX_COMPACTION_SNIPPETS \<le> length snippets \<or>
        snippets \<noteq> [] \<and> COMPACT_USER_MESSAGE_MAX_TOKENS * 4 < snippet_bytes snippets + byte_len (snippet_text snippet)"
      by (simp add: snippets_full_def MAX_COMPACTION_SNIPPETS_def COMPACT_USER_MESSAGE_MAX_TOKENS_def)
    show ?thesis
    proof (cases "snippets_full snippets snippet")
      case True
      then show ?thesis
        by (intro exI [of _ 0]) (auto simp: ex Some full Let_def)
    next
      case False
      then have step: "collect_from (item # items) (snippet_bytes snippets) snippets =
          collect_from items (snippet_bytes (snippet # snippets)) (snippet # snippets)"
        by (auto simp: Some full Let_def ac_simps)
      obtain k where k: "k \<le> length (exchanges items)"
          "collect_from items (snippet_bytes (snippet # snippets)) (snippet # snippets) =
             rev (take k (exchanges items)) @ snippet # snippets"
          "k < length (exchanges items) \<longrightarrow>
             snippets_full (rev (take k (exchanges items)) @ snippet # snippets) (exchanges items ! k)"
          "\<forall>j < k. \<not> snippets_full (rev (take j (exchanges items)) @ snippet # snippets) (exchanges items ! j)"
        using Cons [of "snippet # snippets"] by blast
      have "\<not> snippets_full (rev (take j (exchanges (item # items))) @ snippets) (exchanges (item # items) ! j)"
        if "j < Suc k" for j
        using that k(4) False by (cases j) (simp_all add: ex)
      then show ?thesis
        using k(1,3) unfolding step k(2) by (intro exI [of _ "Suc k"]) (simp add: ex)
    qed
  qed
qed

lemma exchanges_rev: "exchanges (rev items) = rev (exchanges items)"
  by (simp add: exchanges_def List.map_filter_def rev_map rev_filter)

text \<open>
  (C30) The snippets are the most recent exchanges, in their order: at most 12 and, unless there is only
  one, at most 80000 bytes; none only if there is no exchange; and older exchanges are left out only if
  one more would exceed these limits.
\<close>

theorem snippets_are_recent_exchanges:
  "\<exists>k. collect_compaction_snippets items = drop k (exchanges items) \<and>
    length (collect_compaction_snippets items) \<le> 12 \<and>
    (length (collect_compaction_snippets items) \<le> 1 \<or> snippet_bytes (collect_compaction_snippets items) \<le> 80000) \<and>
    (collect_compaction_snippets items = [] \<longleftrightarrow> exchanges items = []) \<and>
    (k = 0 \<or> snippets_full (collect_compaction_snippets items) (exchanges items ! (k - 1)))"
proof -
  let ?E = "exchanges items" and ?S = "collect_compaction_snippets items"
  obtain k where k: "k \<le> length ?E" "?S = rev (take k (rev ?E))"
      "k < length ?E \<longrightarrow> snippets_full (rev (take k (rev ?E))) (rev ?E ! k)"
      "\<forall>j < k. \<not> snippets_full (rev (take j (rev ?E))) (rev ?E ! j)"
    using collect_from_spec [of "rev items" "[]"] by (auto simp: exchanges_rev collect_compaction_snippets_def)
  have S: "?S = drop (length ?E - k) ?E"
    using k(2) by (simp add: take_rev)
  have older: "rev ?E ! k = ?E ! (length ?E - k - 1)" if "k < length ?E"
    using that by (simp add: rev_nth)
  have some: "?S = [] \<longleftrightarrow> ?E = []"
    using k(1,3) by (cases "k = 0") (auto simp: S snippets_full_def)
  have limits: "length ?S \<le> 12 \<and> (length ?S \<le> 1 \<or> snippet_bytes ?S \<le> 80000)"
  proof (cases k)
    case 0
    then show ?thesis
      using k(1) by (simp add: S)
  next
    case (Suc j)
    then have "\<not> snippets_full (rev (take j (rev ?E))) (rev ?E ! j)" and less: "j < length ?E"
      using k(1,4) by auto
    moreover have "?S = rev ?E ! j # rev (take j (rev ?E))"
      using less by (simp add: k(2) Suc take_Suc_conv_app_nth)
    ultimately show ?thesis
      using less by (auto simp: snippets_full_def)
  qed
  have "length ?E - k = 0 \<or> snippets_full ?S (?E ! (length ?E - k - 1))"
    using k(2,3) older by (cases "k < length ?E") auto
  with S some limits show ?thesis
    by (intro exI [of _ "length ?E - k"]) simp
qed

section \<open>What the code does not mean to do\<close>

text \<open>A history with one tool call, and a model that first finds the context too long.\<close>

definition call_and_output :: "nat history_item list" where
  "call_and_output = [FunctionCallItem None (lit ''f'') None (lit ''a'') (lit ''c''), FunctionCallOutputItem (lit ''c'') (from_text (lit ''r''))]"

definition overflow_once :: "nat compact_env" where
  "overflow_once =
     \<lparr>item_json = \<lambda>_. [], render_bridge = \<lambda>_ t. Some t, err_text = \<lambda>_. [], limit_text = \<lambda>_. [], delay_text = \<lambda>_. [],
      initial_context = [], turn_source = \<lparr>env_ctx_v2 = False, ctx_ui = False, timeline_items = None,
      is_env_item = \<lambda>_. False, chatgpt_auth = False\<rparr>, read_image = \<lambda>_. None, max_retries = 0,
      stream_reply = \<lambda>n _. if n = 0 then Inl (StreamFailed (lit ''context window exceeded'')) else Inr ([Inr ResponseCompleted], StreamClosed),
      compact_reply = \<lambda>_ _. Inr []\<rparr>"

definition session_of :: "nat history_item list \<Rightarrow> nat compact_session" where
  "session_of items = \<lparr>history = items, current_task = None, token_usage_info = None, sent_events = [], compacted_rollout = []\<rparr>"

text \<open>The compaction within a turn does not prune: it sends the output without its call.\<close>

lemma overflow_text: "looks_like_context_overflow (lit ''context window exceeded'')"
  by code_simp

lemma overflow_turn:
  "turn_input (start_loop overflow_once [TextInput (lit ''p'')] (session_of call_and_output)) =
     call_and_output @ [user_message (lit ''p'')]"
  by (simp add: start_loop_def overflow_once_def session_of_def call_and_output_def turn_input_with_history_def Let_def
      sanitize_items_for_compact_def map_filter_simps truncate_for_compact_def response_input_from_core_items_def
      user_message_def from_text_def output_to_string_def COMPACT_TEXT_CONTENT_MAX_BYTES_def
      COMPACT_TOOL_ARGS_MAX_BYTES_def COMPACT_TOOL_OUTPUT_MAX_BYTES_def lit_def utf8_len_def)

lemma inline_compaction_sends_orphan:
  "\<not> list_all answered_calls
     (snd (snd (run_compact_task_inner_inline overflow_once (lit ''s'') [TextInput (lit ''p'')] (session_of call_and_output))))"
proof -
  define st where "st = start_loop overflow_once [TextInput (lit ''p'')] (session_of call_and_output)"
  let ?prompt = "[FunctionCallOutputItem (lit ''c'') (from_text (lit ''r'')), user_message (lit ''p'')]"
  have input: "turn_input st = FunctionCallItem None (lit ''f'') None (lit ''a'') (lit ''c'') # ?prompt"
    unfolding st_def overflow_turn by (simp add: call_and_output_def)
  have start: "requests st = []" "truncated_count st = 0"
    by (simp_all add: st_def start_loop_def)
  have replies: "stream_reply overflow_once 0 p = Inl (StreamFailed (lit ''context window exceeded''))"
    "stream_reply overflow_once (Suc n) p = Inr ([Inr ResponseCompleted], StreamClosed)" for n p
    by (simp_all add: overflow_once_def)
  define st1 where "st1 = st\<lparr>requests := [turn_input st], session := session st, turn_input := ?prompt, truncated_count := 1,
      retries := 0, usage_limit_retries := 0\<rparr>"
  have "compact_round Inline overflow_once (lit ''s'') st = (st1, None)"
    using input start
    by (simp add: compact_round_def local_round_def drain_to_completed_def replies local_failure_def overflow_text
        overflow_round_def st1_def)
  moreover have "compact_round Inline overflow_once (lit ''s'') st1 = (st1\<lparr>requests := [turn_input st, ?prompt]\<rparr>, Some Drained)"
    by (simp add: compact_round_def local_round_def drain_to_completed_def replies st1_def)
  ultimately have "requests (fst (compact_rounds Inline overflow_once (lit ''s'') st)) = [turn_input st, ?prompt]"
    using compact_rounds_step by fastforce
  then show ?thesis
    unfolding requests_of_operations st_def [symmetric]
    by (simp add: answered_calls_def user_message_def)
qed

text \<open>
  The instructions of \<open>AGENTS.md\<close> (\<open>user_instructions.rs\<close>) are no longer recognised as a prefix of the
  session: they count as an exchange, and so are repeated in the summary.
\<close>

definition user_instructions_item :: "rstr \<Rightarrow> rstr \<Rightarrow> 'x history_item" where
  "user_instructions_item directory contents =
     user_message (lit ''# AGENTS.md instructions for '' @ directory @ [10, 10] @ lit ''<INSTRUCTIONS>'' @ [10] @ contents @
       [10] @ lit ''</INSTRUCTIONS>'')"

lemma instructions_count_as_exchange: "exchanges [user_instructions_item (lit ''/r'') (lit ''x'')] \<noteq> []"
  by code_simp

end
