(* ===== verification/Auto_Compact.thy ===== *)
theory Auto_Compact
  imports Compact_Items Drive_History
begin

text \<open>
  Compaction of the conversation of Auto Drive, \<open>code-rs/code-auto-drive-core/src/auto_compact.rs\<close>, with
  \<open>maybe_compact\<close>, \<open>should_compact\<close> and the hard limit of messages from \<open>auto_coordinator.rs\<close>.

  The compaction endpoint, the stream that answers the \<open>n\<close>-th summary request, the rendered bridge and the
  JSON of structured outputs are parameters. Reasoning texts are kept as texts: both variants of their
  content carry one. Sizes are natural numbers.
\<close>

section \<open>The conversation\<close>

definition BYTES_PER_TOKEN :: nat where "BYTES_PER_TOKEN = 4"
definition MAX_TRANSCRIPT_BYTES :: nat where "MAX_TRANSCRIPT_BYTES = 32000"
definition MAX_COMMANDS_IN_SUMMARY :: nat where "MAX_COMMANDS_IN_SUMMARY = 5"
definition MAX_ACTION_LINES :: nat where "MAX_ACTION_LINES = 5"
definition MESSAGE_LIMIT_FALLBACK :: nat where "MESSAGE_LIMIT_FALLBACK = 120"
definition HARD_MESSAGE_LIMIT :: nat where "HARD_MESSAGE_LIMIT = 320"

fun is_user_item :: "'x history_item \<Rightarrow> bool" where
  "is_user_item (MessageItem _ role _ _ _) = (role = lit ''user'')"
| "is_user_item _ = False"

definition plain_message :: "string \<Rightarrow> rstr \<Rightarrow> 'x history_item" where
  "plain_message role t = MessageItem None (lit role) [InputText t] None None"

fun message_text :: "'x history_item \<Rightarrow> rstr option" where
  "message_text (MessageItem _ _ content _ _) =
     (case content_items_to_text content of
        None \<Rightarrow> None
      | Some t \<Rightarrow> (let trimmed = trim t in if trimmed = [] then None else Some trimmed))"
| "message_text _ = None"

definition text_size :: "content_item \<Rightarrow> nat" where
  "text_size c = (case c of InputText t \<Rightarrow> byte_len t | OutputText t \<Rightarrow> byte_len t | InputImage url \<Rightarrow> byte_len url div 10)"

definition output_size :: "'x output_content \<Rightarrow> nat" where
  "output_size c = (case c of OutputContentText t \<Rightarrow> byte_len t | OutputContentImage url _ \<Rightarrow> byte_len url div 10)"

fun item_byte_count :: "('x output_content list \<Rightarrow> rstr) \<Rightarrow> 'x history_item \<Rightarrow> nat" where
  "item_byte_count to_json (MessageItem _ _ content _ _) = sum_list (map text_size content)"
| "item_byte_count to_json (FunctionCallItem _ name _ arguments _) = byte_len name + byte_len arguments"
| "item_byte_count to_json (FunctionCallOutputItem _ output) =
     (case body output of TextBody t \<Rightarrow> byte_len t | ContentItemsBody items \<Rightarrow> sum_list (map output_size items))"
| "item_byte_count to_json (CustomToolCallItem _ _ _ name _ input) = byte_len name + byte_len input"
| "item_byte_count to_json (CustomToolCallOutputItem _ _ output) = byte_len (output_to_string to_json output)"
| "item_byte_count to_json (ReasoningItem _ summary content _) =
     sum_list (map byte_len summary) + (case content of Some segments \<Rightarrow> sum_list (map byte_len segments) | None \<Rightarrow> 0)"
| "item_byte_count to_json _ = 0"

definition estimate_tokens_of_item :: "('x output_content list \<Rightarrow> rstr) \<Rightarrow> 'x history_item \<Rightarrow> nat" where
  "estimate_tokens_of_item to_json item = (item_byte_count to_json item + BYTES_PER_TOKEN - 1) div BYTES_PER_TOKEN"

section \<open>The slice to compact\<close>

function advance_to_user_message :: "'x history_item list \<Rightarrow> nat \<Rightarrow> nat" where
  "advance_to_user_message items idx =
     (if idx < length items \<and> \<not> is_user_item (items ! idx) then advance_to_user_message items (idx + 1) else idx)"
  by pat_completeness auto
termination
  by (relation "measure (\<lambda>(items, idx). length items - idx)") auto

declare advance_to_user_message.simps [simp del]

text \<open>The first offset at which half of the tokens are reached.\<close>

fun find_midpoint :: "nat \<Rightarrow> nat \<Rightarrow> nat \<Rightarrow> nat \<Rightarrow> nat list \<Rightarrow> nat" where
  "find_midpoint goal_idx target running offset [] = goal_idx + 1"
| "find_midpoint goal_idx target running offset (count # counts) =
     (let running = usize_saturating_add running count
      in if target \<le> running then goal_idx + 1 + offset else find_midpoint goal_idx target running (offset + 1) counts)"

definition compute_slice_bounds :: "('x output_content list \<Rightarrow> rstr) \<Rightarrow> 'x history_item list \<Rightarrow> (nat \<times> nat) option" where
  "compute_slice_bounds to_json conv =
     (case position is_user_item conv of
        None \<Rightarrow> None
      | Some goal_idx \<Rightarrow>
          if length conv \<le> goal_idx + 3 then None
          else
            (let after_goal = drop (goal_idx + 1) conv;
                 token_counts = map (estimate_tokens_of_item to_json) after_goal;
                 total_tokens = sum_list token_counts;
                 midpoint = (if 0 < total_tokens then find_midpoint goal_idx ((total_tokens + 1) div 2) 0 0 token_counts
                             else goal_idx + 1 + (length after_goal + 1) div 2);
                 slice_start = goal_idx + 1;
                 slice_end = advance_to_user_message conv (midpoint + 1)
             in if slice_end \<le> slice_start then None else Some (slice_start, slice_end)))"

definition nonblank :: "rstr option \<Rightarrow> rstr option" where
  "nonblank t = (case t of Some s \<Rightarrow> if trim s \<noteq> [] then Some s else None | None \<Rightarrow> None)"

definition apply_compaction ::
    "bridge \<Rightarrow> 'x history_item list \<Rightarrow> nat \<times> nat \<Rightarrow> rstr option \<Rightarrow> 'x history_item \<Rightarrow> 'x history_item list option" where
  "apply_compaction render conv bounds prev_summary_text summary_message =
     (case position is_user_item conv of
        None \<Rightarrow> None
      | Some goal_idx \<Rightarrow>
          (let (slice_start, slice_end) = bounds
           in if slice_start \<le> goal_idx \<or> length conv < slice_end then None
              else Some (take (goal_idx + 1) conv @
                     (case nonblank prev_summary_text of
                        Some prev_text \<Rightarrow> [make_compaction_summary_message render [] prev_text] | None \<Rightarrow> []) @
                     [summary_message] @ drop slice_end conv)))"

section \<open>The endpoint\<close>

definition ensure_goal_is_present ::
    "('x output_content list \<Rightarrow> rstr) \<Rightarrow> 'x history_item list \<Rightarrow> 'x history_item \<Rightarrow> nat \<Rightarrow> 'x history_item list" where
  "ensure_goal_is_present to_json conv goal_item original_idx =
     (case sanitize_items_for_compact to_json [goal_item] of
        [] \<Rightarrow> conv
      | goal_item # _ \<Rightarrow>
          (case message_text goal_item of
             None \<Rightarrow> conv
           | Some goal_text \<Rightarrow>
               if list_ex (\<lambda>item. is_user_item item \<and> message_text item = Some goal_text) conv
               then conv
               else (let insert_at = min original_idx (length conv)
                     in take insert_at conv @ [goal_item] @ drop insert_at conv)))"

text \<open>The endpoint is asked with the instructions, if any, and the items; running out of time is an error of it.\<close>

type_synonym ('x, 'e) endpoint = "rstr option \<Rightarrow> 'x history_item list \<Rightarrow> 'e + 'x history_item list"

definition compact_with_endpoint ::
    "('x output_content list \<Rightarrow> rstr) \<Rightarrow> ('x, 'e) endpoint \<Rightarrow> 'x history_item list \<Rightarrow> rstr \<Rightarrow> 'e + 'x history_item list" where
  "compact_with_endpoint to_json endpoint conv compact_prompt =
     (let prompt_instructions = trim compact_prompt
      in case endpoint (if prompt_instructions \<noteq> [] then Some prompt_instructions else None)
                (sanitize_items_for_compact to_json conv) of
           Inl e \<Rightarrow> Inl e
         | Inr compacted \<Rightarrow>
             Inr (case position is_user_item conv of
                    Some goal_idx \<Rightarrow> ensure_goal_is_present to_json compacted (conv ! goal_idx) goal_idx
                  | None \<Rightarrow> compacted))"

section \<open>The local summary\<close>

definition to_text :: "'x output_body \<Rightarrow> rstr option" where
  "to_text b =
     (case b of
        TextBody content \<Rightarrow> Some content
      | ContentItemsBody items \<Rightarrow>
          (let text_segments = List.map_filter
                 (\<lambda>item. case item of OutputContentText t \<Rightarrow> (if trim t \<noteq> [] then Some t else None) | _ \<Rightarrow> None) items
           in if text_segments = [] then None else Some (join [10] text_segments)))"

definition flat_content :: "content_item \<Rightarrow> rstr" where
  "flat_content c = (case c of InputText t \<Rightarrow> t | OutputText t \<Rightarrow> t | InputImage _ \<Rightarrow> lit ''<image>'')"

fun flatten_item :: "('x output_content list \<Rightarrow> rstr) \<Rightarrow> 'x history_item \<Rightarrow> rstr" where
  "flatten_item to_json (MessageItem _ role content _ _) =
     (let t = join (lit '' '') (map flat_content content) in if t = [] then [] else role @ lit '': '' @ t @ [10])"
| "flatten_item to_json (FunctionCallItem _ name _ arguments _) = lit ''tool_call '' @ name @ lit '': '' @ arguments @ [10]"
| "flatten_item to_json (FunctionCallOutputItem _ output) =
     (let t = (case to_text (body output) of Some t \<Rightarrow> t | None \<Rightarrow> [])
      in if trim t \<noteq> [] then lit ''tool_output: '' @ t @ [10] else [])"
| "flatten_item to_json (CustomToolCallItem _ _ _ name _ input) = lit ''custom_tool '' @ name @ lit '': '' @ input @ [10]"
| "flatten_item to_json (CustomToolCallOutputItem _ _ output) =
     lit ''custom_tool_output: '' @ output_to_string to_json output @ [10]"
| "flatten_item to_json (ReasoningItem _ summary _ _) = concat (map (\<lambda>t. lit ''reasoning: '' @ t @ [10]) summary)"
| "flatten_item to_json _ = []"

definition flatten_items :: "('x output_content list \<Rightarrow> rstr) \<Rightarrow> 'x history_item list \<Rightarrow> rstr" where
  "flatten_items to_json items = concat (map (flatten_item to_json) items)"

text \<open>The end of the next chunk of what is left of the text.\<close>

definition chunk_end :: "rstr \<Rightarrow> nat" where
  "chunk_end rest =
     (if byte_len rest \<le> MAX_TRANSCRIPT_BYTES then byte_len rest
      else (let stop = boundary_below rest MAX_TRANSCRIPT_BYTES in if stop = 0 then utf8_len (hd rest) else stop))"

lemma chunk_end_pos: "rest \<noteq> [] \<Longrightarrow> 0 < chunk_end rest"
  by (cases rest) (auto simp: chunk_end_def Let_def)

function chunk_text :: "rstr \<Rightarrow> rstr list" where
  "chunk_text rest =
     (if rest = [] then []
      else case byte_split (chunk_end rest) rest of
             Some (chunk, rest') \<Rightarrow> chunk # chunk_text rest'
           | None \<Rightarrow> [])"
  by pat_completeness auto
termination
proof (relation "measure length")
  fix rest :: rstr and p chunk rest'
  assume "rest \<noteq> []" "byte_split (chunk_end rest) rest = Some p" "(chunk, rest') = p"
  then show "(rest', rest) \<in> measure length"
    using chunk_end_pos [of rest] by (auto simp: byte_split_iff)
qed simp

declare chunk_text.simps [simp del]

datatype 'x summary_event = TextDelta rstr | ItemDone "'x history_item" | SummaryCompleted | OtherSummaryEvent

datatype 'e summary_error = ModelFailed 'e | SummaryTimedOut | EmptyTranscript | EmptySummary

text \<open>The reply to one request: an error, or events and whether the time ran out after them.\<close>

type_synonym ('x, 'e) summary_reply = "'e + ('e + 'x summary_event) list \<times> bool"

fun assistant_output :: "'x history_item \<Rightarrow> rstr option" where
  "assistant_output (MessageItem _ role content _ _) =
     (if role = lit ''assistant''
      then Some (concat (map (\<lambda>c. case c of OutputText t \<Rightarrow> t | _ \<Rightarrow> []) content)) else None)"
| "assistant_output _ = None"

definition collected_summary :: "rstr \<Rightarrow> 'x history_item list \<Rightarrow> rstr" where
  "collected_summary collected response_items =
     (case first_some assistant_output response_items of
        Some t \<Rightarrow> if trim t \<noteq> [] then t else collected
      | None \<Rightarrow> collected)"

fun read_summary :: "('e + 'x summary_event) list \<Rightarrow> bool \<Rightarrow> rstr \<Rightarrow> 'x history_item list \<Rightarrow> 'e summary_error + rstr" where
  "read_summary [] timed_out collected items =
     (if timed_out then Inl SummaryTimedOut else Inr (collected_summary collected items))"
| "read_summary (Inl e # evs) timed_out collected items = Inl (ModelFailed e)"
| "read_summary (Inr (TextDelta delta) # evs) timed_out collected items = read_summary evs timed_out (collected @ delta) items"
| "read_summary (Inr (ItemDone item) # evs) timed_out collected items = read_summary evs timed_out collected (items @ [item])"
| "read_summary (Inr SummaryCompleted # evs) timed_out collected items = Inr (collected_summary collected items)"
| "read_summary (Inr OtherSummaryEvent # evs) timed_out collected items = read_summary evs timed_out collected items"

definition summary_prompt :: "rstr \<Rightarrow> rstr option \<Rightarrow> rstr \<Rightarrow> 'x history_item list" where
  "summary_prompt compact_prompt current_prev chunk =
     [plain_message ''developer'' compact_prompt,
      plain_message ''user''
        ((case current_prev of
            Some prev \<Rightarrow> lit ''Previous checkpoint summary:'' @ [10] @ prev @ [10, 10] | None \<Rightarrow> []) @
         lit ''Conversation slice:'' @ [10] @ chunk)]"

fun summarize_chunks ::
    "(nat \<Rightarrow> 'x history_item list \<Rightarrow> ('x, 'e) summary_reply) \<Rightarrow> rstr \<Rightarrow> nat \<Rightarrow> rstr list \<Rightarrow> rstr option \<Rightarrow>
     'e summary_error + rstr" where
  "summarize_chunks ask compact_prompt n [] aggregate_summary =
     (case aggregate_summary of Some t \<Rightarrow> Inr t | None \<Rightarrow> Inl EmptySummary)"
| "summarize_chunks ask compact_prompt n (chunk # chunks) aggregate_summary =
     (if trim chunk = [] then summarize_chunks ask compact_prompt n chunks aggregate_summary
      else case (case ask n (summary_prompt compact_prompt aggregate_summary chunk) of
                   Inl e \<Rightarrow> Inl (ModelFailed e) | Inr (evs, timed_out) \<Rightarrow> read_summary evs timed_out [] []) of
             Inl e \<Rightarrow> Inl e
           | Inr t \<Rightarrow>
               summarize_chunks ask compact_prompt (n + 1) chunks (if trim t \<noteq> [] then Some t else aggregate_summary))"

definition summarize_with_model ::
    "('x output_content list \<Rightarrow> rstr) \<Rightarrow> (nat \<Rightarrow> 'x history_item list \<Rightarrow> ('x, 'e) summary_reply) \<Rightarrow> 'x history_item list \<Rightarrow>
     rstr option \<Rightarrow> rstr \<Rightarrow> 'e summary_error + rstr" where
  "summarize_with_model to_json ask items prev_summary compact_prompt =
     (let chunks = chunk_text (flatten_items to_json items)
      in if chunks = [] then Inl EmptyTranscript
         else summarize_chunks ask compact_prompt 0 chunks (nonblank prev_summary))"

text \<open>What one item adds to the actions and to the commands.\<close>

definition trimmed_text :: "content_item list \<Rightarrow> rstr" where
  "trimmed_text content =
     join (lit '' '') (List.map_filter
       (\<lambda>c. case c of InputText t \<Rightarrow> Some (trim t) | OutputText t \<Rightarrow> Some (trim t) | InputImage _ \<Rightarrow> None) content)"

fun item_actions :: "'x history_item \<Rightarrow> rstr list" where
  "item_actions (MessageItem _ role content _ _) =
     (let t = trimmed_text content in if t = [] then [] else [role @ lit '': '' @ t])"
| "item_actions (FunctionCallItem _ name _ _ _) = [lit ''Tool call: '' @ name]"
| "item_actions (FunctionCallOutputItem _ output) =
     (case nonblank (to_text (body output)) of Some t \<Rightarrow> [lit ''Tool output: '' @ t] | None \<Rightarrow> [])"
| "item_actions _ = []"

fun item_commands :: "'x history_item \<Rightarrow> rstr list" where
  "item_commands (MessageItem _ role content _ _) =
     (let t = trimmed_text content
      in if t \<noteq> [] \<and> role = lit ''assistant''
         then (case find (\<lambda>line. starts_with (trim_start line) (lit ''$'')) (str_lines t) of
                 Some cmd \<Rightarrow> [trim cmd] | None \<Rightarrow> [])
         else [])"
| "item_commands _ = []"

fun is_function_call :: "'x history_item \<Rightarrow> bool" where
  "is_function_call (FunctionCallItem _ _ _ _ _) = True"
| "is_function_call _ = False"

definition deterministic_summary :: "'x history_item list \<Rightarrow> rstr option \<Rightarrow> rstr" where
  "deterministic_summary items prev_summary =
     (let actions = concat (map item_actions items);
          commands = concat (map item_commands items)
      in join [10, 10]
           ((case nonblank prev_summary of
               Some prev \<Rightarrow> [lit ''Building on previous checkpoint: '' @ prev] | None \<Rightarrow> []) @
            [lit ''Checkpoint covers '' @ show_nat (length actions) @ lit '' exchanges and '' @
             show_nat (length (filter is_function_call items)) @ lit '' tool events.''] @
            (if commands \<noteq> []
             then [lit ''Key commands: '' @ join (lit '' | '') (take MAX_COMMANDS_IN_SUMMARY commands)] else []) @
            (if actions \<noteq> [] then [join (lit '' '' @ [10]) (take MAX_ACTION_LINES actions)] else [])))"

record ('x, 'e) auto_env =
  auto_json :: "'x output_content list \<Rightarrow> rstr"
  auto_render :: bridge
  auto_endpoint :: "('x, 'e) endpoint"
  auto_ask :: "nat \<Rightarrow> 'x history_item list \<Rightarrow> ('x, 'e) summary_reply"
  auto_error :: "'e summary_error \<Rightarrow> rstr"
  auto_compact_token_limit :: "int option"
  context_window :: "nat option"

text \<open>The message of the checkpoint, its text, and the warning, if the model gave no summary.\<close>

definition build_checkpoint_summary ::
    "('x, 'e) auto_env \<Rightarrow> 'x history_item list \<Rightarrow> rstr option \<Rightarrow> rstr \<Rightarrow> 'x history_item \<times> rstr \<times> rstr option" where
  "build_checkpoint_summary env items prev_summary compact_prompt =
     (let snippets = collect_compaction_snippets items;
          (summary_text, warning) =
            (case summarize_with_model (auto_json env) (auto_ask env) items prev_summary compact_prompt of
               Inr t \<Rightarrow> if trim t \<noteq> [] then (t, None) else (deterministic_summary items prev_summary, None)
             | Inl err \<Rightarrow> (deterministic_summary items prev_summary,
                 Some (lit ''checkpoint summary model request failed: '' @ auto_error env err)))
      in (make_compaction_summary_message (auto_render env) snippets summary_text, summary_text, warning))"

section \<open>When to compact, and compacting\<close>

text \<open>Eighty percent of a limit; the product of floating point numbers is exact up to \<open>2\<^sup>5\<^sup>0\<close> tokens.\<close>

definition compaction_threshold :: "nat \<Rightarrow> nat" where
  "compaction_threshold limit = limit * 4 div 5"

definition should_compact :: "('x, 'e) auto_env \<Rightarrow> nat \<Rightarrow> nat \<Rightarrow> nat \<Rightarrow> bool \<Rightarrow> bool" where
  "should_compact env transcript_tokens estimated_next message_count has_recorded =
     (let limit = (case auto_compact_token_limit env of
                     Some l \<Rightarrow> if 0 < l then Some (nat l) else context_window env | None \<Rightarrow> context_window env)
      in case limit of
           Some l \<Rightarrow>
             if 0 < l then compaction_threshold l \<le> usize_saturating_add transcript_tokens estimated_next
             else if has_recorded then False else MESSAGE_LIMIT_FALLBACK \<le> message_count
         | None \<Rightarrow> if has_recorded then False else MESSAGE_LIMIT_FALLBACK \<le> message_count)"

datatype compaction_result = Skipped | Completed "rstr option"

definition finished_text :: "nat \<Rightarrow> nat \<Rightarrow> rstr" where
  "finished_text removed all_items =
     lit ''Finished compacting history ('' @ show_nat removed @ lit '' message'' @ (if removed = 1 then [] else lit ''s'') @
     lit '' -> '' @ show_nat all_items @ lit '' total).''"

text \<open>The local summary: the result, the conversation and the texts shown.\<close>

definition compact_locally ::
    "('x, 'e) auto_env \<Rightarrow> 'x history_item list \<Rightarrow> nat \<times> nat \<Rightarrow> rstr option \<Rightarrow> rstr \<Rightarrow>
     compaction_result \<times> 'x history_item list \<times> rstr list" where
  "compact_locally env conv bounds prev_summary compact_prompt =
     (let slice = take (snd bounds - fst bounds) (drop (fst bounds) conv);
          (summary_message, summary_text, warning) = build_checkpoint_summary env slice prev_summary compact_prompt;
          warned = (case warning of
             Some t \<Rightarrow> [lit ''History compaction warning: '' @ t @ lit ''. Falling back to a deterministic summary.''] | None \<Rightarrow> []);
          applied = (case apply_compaction (auto_render env) conv bounds prev_summary summary_message of
             Some rebuilt \<Rightarrow> Some rebuilt
           | None \<Rightarrow>
               (case compute_slice_bounds (auto_json env) conv of
                  Some retry_bounds \<Rightarrow>
                    if retry_bounds \<noteq> bounds
                    then apply_compaction (auto_render env) conv retry_bounds prev_summary summary_message else None
                | None \<Rightarrow> None))
      in case applied of
           Some rebuilt \<Rightarrow> (Completed (Some summary_text), rebuilt, warned @ [finished_text (length slice) (length rebuilt)])
         | None \<Rightarrow> (Skipped, conv, warned @
             [lit ''Failed to compact history because the conversation changed while applying the summary. Continuing without compaction.'']))"

definition maybe_compact ::
    "('x, 'e) auto_env \<Rightarrow> 'x history_item list \<Rightarrow> session_metrics \<Rightarrow> rstr option \<Rightarrow> rstr \<Rightarrow>
     compaction_result \<times> 'x history_item list \<times> rstr list" where
  "maybe_compact env conv metrics prev_summary compact_prompt =
     (let transcript_tokens = sum_list (map (estimate_tokens_of_item (auto_json env)) conv);
          estimated_next = unat (estimated_next_prompt_tokens metrics)
      in if \<not> should_compact env transcript_tokens estimated_next (length conv) (has_recorded_usage metrics)
         then (Skipped, conv, [])
         else case compute_slice_bounds (auto_json env) conv of
                None \<Rightarrow> (Skipped, conv, [])
              | Some bounds \<Rightarrow>
                  (let started = lit ''Compacting history to stay within the context window'' @ [8230]
                   in case compact_with_endpoint (auto_json env) (auto_endpoint env) conv compact_prompt of
                        Inr compacted \<Rightarrow>
                          (Completed None, compacted, [started, finished_text (length conv - length compacted) (length compacted)])
                      | Inl _ \<Rightarrow>
                          (let (result, conv', shown) = compact_locally env conv bounds prev_summary compact_prompt
                           in (result, conv',
                               [started, lit ''Remote compaction failed; falling back to local summary.''] @ shown))))"

text \<open>The hard limit: the goal and the newest items.\<close>

definition enforce_hard_message_limit :: "'x history_item list \<Rightarrow> 'x history_item list" where
  "enforce_hard_message_limit items =
     (if length items \<le> HARD_MESSAGE_LIMIT then items
      else
        (let goal_index = position is_user_item items;
             goal = (case goal_index of Some idx \<Rightarrow> [items ! idx] | None \<Rightarrow> []);
             remaining = HARD_MESSAGE_LIMIT - length goal;
             tail_start = length items - remaining;
             trimmed = goal @ map snd (filter (\<lambda>(idx, item). goal_index \<noteq> Some idx)
                                 (drop tail_start (zip [0..<length items] items)))
         in drop (length trimmed - HARD_MESSAGE_LIMIT) trimmed))"

section \<open>Chunks\<close>

lemma chunk_end_cuts:
  assumes "rest \<noteq> []"
  shows "\<exists>chunk rest'. byte_split (chunk_end rest) rest = Some (chunk, rest') \<and> chunk \<noteq> [] \<and> byte_len chunk \<le> 32000"
proof -
  have "is_char_boundary rest (chunk_end rest) \<and> chunk_end rest \<le> 32000"
  proof (cases "byte_len rest \<le> 32000")
    case False
    obtain c cs where rest: "rest = c # cs"
      using assms by (cases rest) auto
    have "is_char_boundary rest (utf8_len c)" "utf8_len c \<le> 4"
      using char_boundaryI [of rest "[c]" cs] by (simp_all add: rest utf8_len_def)
    then show ?thesis
      using False boundary_below_spec [of rest 32000] by (auto simp: chunk_end_def MAX_TRANSCRIPT_BYTES_def Let_def rest)
  qed (simp add: chunk_end_def MAX_TRANSCRIPT_BYTES_def)
  then show ?thesis
    using chunk_end_pos [OF assms] by (auto simp: is_char_boundary_iff byte_split_iff)
qed

text \<open>
  (C29) The chunks of a transcript, put together again, are the transcript; none is empty and none takes
  more than 32000 bytes.
\<close>

theorem chunks_restore_text:
  "concat (chunk_text t) = t \<and> list_all (\<lambda>chunk. chunk \<noteq> [] \<and> byte_len chunk \<le> MAX_TRANSCRIPT_BYTES) (chunk_text t)"
proof (induction t rule: chunk_text.induct)
  case (1 rest)
  show ?case
  proof (cases "rest = []")
    case False
    obtain chunk rest' where cut: "byte_split (chunk_end rest) rest = Some (chunk, rest')" "chunk \<noteq> []" "byte_len chunk \<le> 32000"
      using chunk_end_cuts [OF False] by blast
    have "chunk_text rest = chunk # chunk_text rest'"
      using False cut(1) by (simp add: chunk_text.simps [of rest])
    moreover have "rest = chunk @ rest'"
      using cut(1) by (simp add: byte_split_iff)
    ultimately show ?thesis
      using 1 [OF False cut(1) refl] cut(2,3) by (simp add: MAX_TRANSCRIPT_BYTES_def)
  qed (simp add: chunk_text.simps)
qed

section \<open>Slices\<close>

lemma advance_spec:
  "idx \<le> length items \<Longrightarrow>
    (let stop = advance_to_user_message items idx
     in idx \<le> stop \<and> stop \<le> length items \<and> (stop = length items \<or> is_user_item (items ! stop)))"
proof (induction items idx rule: advance_to_user_message.induct)
  case (1 items idx)
  show ?case
  proof (cases "idx < length items \<and> \<not> is_user_item (items ! idx)")
    case True
    then show ?thesis
      using 1 by (simp add: advance_to_user_message.simps [of items idx] Let_def)
  next
    case False
    then show ?thesis
      using 1(2) by (auto simp: advance_to_user_message.simps [of items idx] Let_def)
  qed
qed

lemma find_midpoint_bounds:
  "counts \<noteq> [] \<Longrightarrow> goal_idx + 1 \<le> find_midpoint goal_idx target running offset counts \<and>
    find_midpoint goal_idx target running offset counts \<le> goal_idx + offset + length counts"
proof (induction goal_idx target running offset counts rule: find_midpoint.induct)
  case (2 goal_idx target running offset count counts)
  then show ?case
    by (cases counts) (auto simp: Let_def)
qed simp

text \<open>Where a slice lies: behind the goal, not empty, and up to a user message or the end.\<close>

definition slice_of_turns :: "'x history_item list \<Rightarrow> nat \<Rightarrow> nat \<Rightarrow> bool" where
  "slice_of_turns conv slice_start slice_end \<longleftrightarrow>
     position is_user_item conv = Some (slice_start - 1) \<and> 0 < slice_start \<and> slice_start < slice_end \<and>
     slice_end \<le> length conv \<and> (slice_end = length conv \<or> is_user_item (conv ! slice_end))"

lemma compute_slice_bounds_spec:
  assumes "compute_slice_bounds to_json conv = Some (slice_start, slice_end)"
  shows "slice_of_turns conv slice_start slice_end"
proof -
  obtain goal_idx where goal: "position is_user_item conv = Some goal_idx" and long: "goal_idx + 3 < length conv"
    using assms by (auto simp: compute_slice_bounds_def split: option.splits if_splits)
  define counts where "counts = map (estimate_tokens_of_item to_json) (drop (goal_idx + 1) conv)"
  define midpoint where "midpoint = (if 0 < sum_list counts then find_midpoint goal_idx ((sum_list counts + 1) div 2) 0 0 counts
      else goal_idx + 1 + (length (drop (goal_idx + 1) conv) + 1) div 2)"
  have counts: "counts \<noteq> []" "length counts = length conv - goal_idx - 1"
    using long by (simp_all add: counts_def)
  have "goal_idx + 1 \<le> midpoint \<and> midpoint + 1 \<le> length conv"
    using find_midpoint_bounds [OF counts(1), of goal_idx "(sum_list counts + 1) div 2" 0 0] counts(2) long
    by (auto simp: midpoint_def)
  moreover have "compute_slice_bounds to_json conv =
      (if advance_to_user_message conv (midpoint + 1) \<le> goal_idx + 1 then None
       else Some (goal_idx + 1, advance_to_user_message conv (midpoint + 1)))"
    using goal long unfolding compute_slice_bounds_def Let_def midpoint_def counts_def by simp
  then have "slice_start = goal_idx + 1" "slice_end = advance_to_user_message conv (midpoint + 1)"
    using assms by (simp_all split: if_splits)
  ultimately show ?thesis
    using goal advance_spec [of "midpoint + 1" conv] by (auto simp: slice_of_turns_def Let_def)
qed

lemma apply_compaction_slice:
  assumes "slice_of_turns conv slice_start slice_end"
  shows "apply_compaction render conv (slice_start, slice_end) prev msg =
    Some (take slice_start conv @
      (case nonblank prev of Some t \<Rightarrow> [make_compaction_summary_message render [] t] | None \<Rightarrow> []) @ [msg] @ drop slice_end conv)"
  using assms by (auto simp: slice_of_turns_def apply_compaction_def)

section \<open>What compaction keeps\<close>

lemma compact_locally_slice:
  assumes "slice_of_turns conv slice_start slice_end"
  shows "\<exists>t shown prev msg. compact_locally env conv (slice_start, slice_end) prev_summary compact_prompt =
      (Completed (Some t), take slice_start conv @ prev @ [msg] @ drop slice_end conv, shown) \<and>
    prev = (case nonblank prev_summary of
      Some t \<Rightarrow> [make_compaction_summary_message (auto_render env) [] t] | None \<Rightarrow> []) \<and> is_user_item msg"
  by (auto simp: compact_locally_def Let_def split_beta apply_compaction_slice [OF assms] build_checkpoint_summary_def
      make_compaction_summary_message_def user_message_def)

text \<open>
  A compaction of the conversation either does not take place, shows nothing and changes nothing; or
  the endpoint's answer is taken, with the goal if that was missing; or a slice of whole turns behind the
  goal is replaced by the previous summary, if there is one, and a summary. It never fails halfway.
\<close>

theorem auto_compaction_outcome:
  "case maybe_compact env conv metrics prev_summary compact_prompt of
     (Skipped, conv', shown) \<Rightarrow> conv' = conv \<and> shown = []
   | (Completed None, conv', shown) \<Rightarrow>
       compact_with_endpoint (auto_json env) (auto_endpoint env) conv compact_prompt = Inr conv'
   | (Completed (Some t), conv', shown) \<Rightarrow>
       \<exists>slice_start slice_end prev msg. slice_of_turns conv slice_start slice_end \<and>
         conv' = take slice_start conv @ prev @ [msg] @ drop slice_end conv \<and>
         length prev \<le> 1 \<and> is_user_item msg"
proof (cases "compute_slice_bounds (auto_json env) conv")
  case None
  then show ?thesis
    by (simp add: maybe_compact_def Let_def)
next
  case (Some bounds)
  obtain slice_start slice_end where bounds: "bounds = (slice_start, slice_end)"
    by (cases bounds)
  have slice: "slice_of_turns conv slice_start slice_end"
    using Some bounds compute_slice_bounds_spec by blast
  obtain t shown prev msg where locally: "compact_locally env conv bounds prev_summary compact_prompt =
      (Completed (Some t), take slice_start conv @ prev @ [msg] @ drop slice_end conv, shown)"
      "length prev \<le> 1" "is_user_item msg"
    using compact_locally_slice [OF slice, of env prev_summary compact_prompt] bounds
    by (auto split: option.splits)
  show ?thesis
    using slice locally(2,3)
    by (auto simp: maybe_compact_def Let_def Some locally(1) split: sum.split)
qed

text \<open>The text of a goal as the request shows it.\<close>

definition goal_text :: "('x output_content list \<Rightarrow> rstr) \<Rightarrow> 'x history_item \<Rightarrow> rstr option" where
  "goal_text to_json item = Option.bind (sanitize_item to_json item) message_text"

definition shows_goal :: "rstr option \<Rightarrow> 'x history_item list \<Rightarrow> bool" where
  "shows_goal goal items \<longleftrightarrow> goal = None \<or> list_ex (\<lambda>item. is_user_item item \<and> message_text item = goal) items"

lemma sanitize_single: "sanitize_items_for_compact to_json [item] = (case sanitize_item to_json item of None \<Rightarrow> [] | Some i \<Rightarrow> [i])"
  by (simp add: sanitize_items_for_compact_def map_filter_simps split: option.split)

lemma sanitize_user: "is_user_item item \<Longrightarrow> sanitize_item to_json item = Some i \<Longrightarrow> is_user_item i"
  by (cases item) (auto simp: Let_def split: if_splits)

lemma ensured_goal:
  assumes "is_user_item item"
  shows "shows_goal (goal_text to_json item) (ensure_goal_is_present to_json items item idx)"
proof (cases "sanitize_item to_json item")
  case (Some i)
  then show ?thesis
    using sanitize_user [OF assms Some]
    by (auto simp: ensure_goal_is_present_def sanitize_single goal_text_def shows_goal_def Let_def list_ex_iff split: option.split)
qed (simp add: goal_text_def shows_goal_def)

text \<open>
  (C18) The goal survives compaction: the first user message of a conversation is still in the compacted
  conversation, or a user message with its text, as shortened for the request, is.
\<close>

theorem goal_survives_compaction:
  "case position is_user_item conv of
     None \<Rightarrow> fst (snd (maybe_compact env conv metrics prev_summary compact_prompt)) = conv
   | Some goal_idx \<Rightarrow>
       conv ! goal_idx \<in> set (fst (snd (maybe_compact env conv metrics prev_summary compact_prompt))) \<or>
       shows_goal (goal_text (auto_json env) (conv ! goal_idx))
         (fst (snd (maybe_compact env conv metrics prev_summary compact_prompt)))"
proof (cases "compute_slice_bounds (auto_json env) conv")
  case None
  then show ?thesis
    by (auto simp: maybe_compact_def Let_def dest: position_Some split: option.split)
next
  case (Some bounds)
  obtain slice_start slice_end where bounds: "bounds = (slice_start, slice_end)"
    by (cases bounds)
  have slice: "slice_of_turns conv slice_start slice_end"
    using Some bounds compute_slice_bounds_spec by blast
  then have goal: "position is_user_item conv = Some (slice_start - 1)" and pos: "0 < slice_start" "slice_start \<le> length conv"
    by (auto simp: slice_of_turns_def)
  have user: "is_user_item (conv ! (slice_start - 1))" and inside: "conv ! (slice_start - 1) \<in> set conv"
    using position_Some [OF goal] by auto
  have "take slice_start conv ! (slice_start - 1) \<in> set (take slice_start conv)"
    using pos by (intro nth_mem) simp
  then have kept: "conv ! (slice_start - 1) \<in> set (take slice_start conv)"
    using pos(1) by simp
  have endpoint: "shows_goal (goal_text (auto_json env) (conv ! (slice_start - 1))) compacted"
    if "compact_with_endpoint (auto_json env) (auto_endpoint env) conv compact_prompt = Inr compacted" for compacted
    using that ensured_goal [OF user] by (auto simp: compact_with_endpoint_def Let_def goal split: sum.splits)
  show ?thesis
    using compact_locally_slice [OF slice, of env prev_summary compact_prompt] kept inside endpoint
    by (auto simp: maybe_compact_def Let_def goal Some bounds split: sum.split)
qed

text \<open>The hard limit keeps the goal in front and the newest items behind it.\<close>

lemma hard_limit_goal:
  assumes "position is_user_item items = Some goal_idx" "HARD_MESSAGE_LIMIT < length items"
  shows "\<exists>newest. enforce_hard_message_limit items = items ! goal_idx # newest \<and> length newest < HARD_MESSAGE_LIMIT"
proof -
  define newest where "newest = map snd (filter (\<lambda>(idx, item). Some goal_idx \<noteq> Some idx)
    (drop (length items - (HARD_MESSAGE_LIMIT - 1)) (zip [0..<length items] items)))"
  have "length newest \<le> length (drop (length items - (HARD_MESSAGE_LIMIT - 1)) (zip [0..<length items] items))"
    unfolding newest_def length_map by (rule length_filter_le)
  then have small: "length newest < HARD_MESSAGE_LIMIT"
    using assms(2) by (simp add: HARD_MESSAGE_LIMIT_def)
  have "enforce_hard_message_limit items =
      drop (length (items ! goal_idx # newest) - HARD_MESSAGE_LIMIT) (items ! goal_idx # newest)"
    using assms unfolding enforce_hard_message_limit_def Let_def newest_def by simp
  then show ?thesis
    using small by simp
qed

end
