(* ===== verification/Spec2Isabelle.thy ===== *)
theory Spec2Isabelle
  imports Probe_Flow Auto_Drive_Props Exec_Policy_Props Patch_Approval Retention Account_Switching Context_Props Retry Drive_History Tool_Cycle Container_Exec Compaction_Props Auto_Compact
begin

text \<open>
  \<^bold>\<open>Verification of the \<open>hacker\<close> coding agent\<close> (the Rust workspace \<open>code-rs/\<close>).

  \<^bold>\<open>The program.\<close> A terminal front end (\<open>tui/\<close>) drives a core library (\<open>core/\<close>) that holds a
  conversation with a model. In each turn the model asks for tools: shell commands, which are assessed
  against the approval and sandbox policies of the session, and patches, which the crate
  \<open>apply-patch/\<close> parses, verifies and writes. The crate \<open>execpolicy/\<close> decides from a policy file
  whether a command line is known to be harmless. Auto Drive (\<open>code-auto-drive-core/\<close>) replaces the
  user: a coordinator asks a model for the next prompt, retries failed requests, and a controller
  counts down and submits. ProcessProbe, the addition of this fork, watches a turn in the front end and
  may ask for permission to have its final answer reviewed by another agent. Several processes may work
  on one repository and one home directory; they share lock files, the list of accounts, the active
  credentials and the usage data of the accounts.

  \<^bold>\<open>Common theories.\<close> \<open>Rust_Prelude\<close> has Rust strings (lists of code points), machine integers with
  saturation and the string functions of the standard library; \<open>Rust_Path\<close> has \<open>std::path\<close> on Unix;
  \<open>Core_Types\<close> has settings of \<open>core/src/config_types.rs\<close>; \<open>Framed_Steps\<close> has the contract (a locale)
  of a routine that works through a list, changes only what each item names and stops at the first
  failure.

  \<^bold>\<open>ProcessProbe\<close> (\<open>tui/src/probe_review.rs\<close>, \<open>tui/src/chatwidget.rs\<close>). \<open>Probe_Trigger\<close> (with the
  text of \<open>Probe_Template\<close>) models what a turn records, the gate and the prompt: the counters are those
  of the event log, saturated, and a forced probe is never dropped. \<open>Probe_Result\<close> models the reading
  of a result: extraction returns the first balanced JSON object and a result is accepted exactly when
  it decodes and is complete. \<open>Seen_Cache\<close> has the bounded caches of handled agents, used through the
  locale \<open>seen_cache\<close>. \<open>Probe_Flow\<close> is the permission protocol in the widget as a transition system: a
  probe starts only when the user approves the pending request, and a final status is handled once.

  \<^bold>\<open>Reviews and Auto Drive\<close> (\<open>core/src/review_coord.rs\<close>, \<open>code-auto-drive-core/src\<close>).
  \<open>Review_Lock\<close> has the lock file over an explicit file system with faults, processes that die and the
  locale \<open>guard_lock\<close>; clearing a stale lock is three steps (read, check, remove) that interleave with
  all others, and guards exclude each other unless such a removal hits a lock acquired after it was read,
  which can happen. \<open>Auto_Drive\<close> and \<open>Auto_Drive_Props\<close> have the controller: reviews overlap only after that
  race, stale countdowns are ignored, a countdown submits exactly once. \<open>Retry\<close> has the retry loop of the
  coordinator with its error classification: when requests take time, the loop ends within its budget.
  \<open>Drive_History\<close> has the transcript between coordinator turns and its metrics: what exactly a rebuild
  adds to it.

  \<^bold>\<open>Patches\<close> (\<open>apply-patch/src\<close>, \<open>core/src/apply_patch.rs\<close>, \<open>core/src/safety.rs\<close>). \<open>Patch_Seek\<close>
  locates lines, \<open>Patch_Parser\<close> reads the patch format (rendered hunks are read back), \<open>Patch_Apply\<close>
  replaces lines, \<open>Patch_Files\<close> writes hunks to a disk and works out the changes of an invocation
  (verified changes are what applying does; a failure keeps exactly the hunks before it), and
  \<open>Patch_Approval\<close> decides whether a patch needs the user and writes it: a patch applied without asking
  changes only files it names, and stays inside the writable roots except under \<open>on-failure\<close>.

  \<^bold>\<open>Commands\<close> (\<open>execpolicy/src\<close>, \<open>core/src/bash.rs\<close>, \<open>core/src/command_safety\<close>, \<open>core/src/safety.rs\<close>).
  \<open>Exec_Args\<close>, \<open>Exec_Policy\<close> and \<open>Exec_Policy_Props\<close> have the policy crate: the resolver accepts exactly
  the segmentations of the arguments and a specification exactly its grammar. \<open>Sandbox_Policy\<close> and
  \<open>Command_Safety\<close> have the policies of a session and the assessment of a command: it runs outside a
  sandbox only when trusted, granted or approved. \<open>Tool_Cycle\<close> has the guard against a model that
  repeats its tool calls.

  \<^bold>\<open>Shell tool calls\<close> (\<open>core/src/codex/streaming.rs\<close>, \<open>codex/exec.rs\<close>, \<open>dry_run_guard.rs\<close>,
  \<open>parse_command.rs\<close>, \<open>shell.rs\<close>, \<open>git_worktree.rs\<close>). \<open>Parse_Command\<close> summarises a command line;
  \<open>Dry_Run_Guard\<close> and \<open>Dry_Run_Props\<close> recognise formatters and their dry runs: a suggested dry run is
  accepted, and only the last command of a script is looked at. \<open>Command_Guards\<close> and
  \<open>Command_Guards_Props\<close> have the guards in front of every command: known forms of git that
  move the branch or discard work are stopped wherever they stand (others are not seen), and what a guard
  prints to resend passes it. \<open>User_Shell\<close> and
  \<open>Shell_Invocation\<close> wrap a command in the user's shell and undo it for display. \<open>Container_Exec\<close>
  composes guards, patches, assessment and invocation into the handler of the calls: what the shell
  tool starts is made from what was assessed, a confirmed \<open>shell_command\<close> is started with its prefix, and the
  guard for branch worktrees never acts.

  \<^bold>\<open>Compaction\<close> (\<open>core/src/truncate.rs\<close>, \<open>codex/compact.rs\<close>, \<open>codex/compact_remote.rs\<close>,
  \<open>code-auto-drive-core/src/auto_compact.rs\<close>). \<open>Truncate\<close> cuts the middle out of a text between chars.
  \<open>Compact_Items\<close> has the items of a conversation, their shortening, the orphaned tool outputs and the
  snippets. \<open>Compaction\<close> has the loops of the background, the inline and the remote compaction as one
  recursion over rounds, whose rank (trims, then usage limits, then retries) bounds the requests;
  \<open>Compaction_Props\<close> shows that bound, that no request of the pruning loops holds an output without its
  call, what is left in the session after success and failure, and which exchanges the snippets are.
  \<open>Auto_Compact\<close> compacts the transcript of Auto Drive: chunks restore it, a slice consists of whole
  turns, and the goal survives.

  \<^bold>\<open>Accounts\<close> (\<open>core/src/auth.rs\<close>, \<open>auth_accounts.rs\<close>, \<open>account_usage.rs\<close>, \<open>account_switching.rs\<close>).
  \<open>Auth_Accounts\<close> and \<open>Auth_Props\<close> have the two credential files with any failure of the disk and the
  invariant of the account list (accounts without e-mail excepted); \<open>Account_Usage\<close> and \<open>Usage_Files\<close> the usage data (token counts are
  conserved, one warning per window) and the locked update of its file, which loses updates;
  \<open>Account_Switching\<close> the choice of the next account and, with the locale \<open>exhaustive_switch\<close>, that
  switching ends when limits are reported under the stored identifiers, which the turn loop does not do.

  \<^bold>\<open>Context\<close> (\<open>core/src/environment_context.rs\<close>, \<open>context_timeline/\<close>, \<open>retention.rs\<close>,
  \<open>codex/session.rs\<close>). \<open>Retention\<close> prunes a history within a policy, in two variants that agree, and keeps the plain
  messages.
  \<open>Env_Context\<close> has the environment context, its snapshots, differences and tracker; \<open>Context_Timeline\<close>
  the timeline, the emission and the replay; \<open>Context_Props\<close> shows the timeline invariant, when a
  difference restores a snapshot, that a live delta is never stored, and that the items a replay would
  restore the session from are never handed out.

  \<^bold>\<open>Conventions.\<close> Errors, panics and early returns are values (\<open>'e + 'a\<close>, \<open>option\<close>). Counters of list
  elements are \<open>nat\<close>; integers that may overflow are words or have their bound written out. Loops are
  structural recursions or have a measure; no result rests on fuel. The retry loop may run for ever when
  requests take no time, so it is a partial function to \<open>option\<close> and its termination is a theorem under
  the hypothesis that requests take time. Shared state is explicit: a disk, a lock file, files with
  inodes, a widget; calls of several processes are interleaved as steps of inductive relations, and every
  call takes the environment it meets (clock, faults, process table) as an argument.

  \<^bold>\<open>Parameters.\<close> Code outside the repository is a parameter with the laws the code relies on:
  \<open>serde_json\<close> (for the account files the laws \<open>json_laws\<close>, for usage data \<open>json_reread\<close>, for contexts
  the fields of \<open>env_serde\<close> with the predicates on them), the decoding of identity tokens, the first
  instant of a month, the regular expressions, the Starlark evaluator as the calls it makes, the
  tree-sitter parser as the tree it returns, \<open>shlex\<close>, \<open>similar\<close>, SHA-1, \<open>crc32fast\<close>, git and \<open>kill(2)\<close>.
  Each property with such a law has a witness on a concrete instance.

  \<^bold>\<open>Not modelled.\<close> Rendering and key handling of the front end; network clients (models, backend,
  login, telemetry); spawning of processes and the platform sandboxes; the MCP and app servers; browser
  control; configuration files and rollout files as text; the Windows variants; floating point rounding
  in delays; the prompts and schemas of the coordinator; \<open>codex-rs/\<close>, which is a mirror of the upstream
  repository that the program does not build. Each is input, output or glue around the modelled
  decisions, or its behaviour is that of a third-party library.
\<close>

end
